(* ===== verification/Prelude.thy ===== *)
theory Prelude
  imports Main "HOL-Library.Word"
begin

text \<open>
  What every component shares: the machine integers of the C sources, the outcome of a C
  function that returns \<^verbatim>\<open>BOOL\<close> (an abort by \<^verbatim>\<open>WINPR_ASSERT\<close>, \<^verbatim>\<open>FALSE\<close>, or \<^verbatim>\<open>TRUE\<close> with
  its out-parameters), the sequencing of such functions, big- and little-endian words, and
  the generic list and word lemmas the component theories rest on.
\<close>

unbundle bit_operations_syntax

section \<open>Machine integers\<close>

type_synonym u8 = "8 word"
type_synonym u16 = "16 word"
type_synonym u32 = "32 word"
type_synonym u64 = "64 word"

text \<open>\<open>size_t\<close> is a natural number; the places where the source tests it against
  \<^verbatim>\<open>SIZE_MAX\<close> (or where it wraps) write the bound out. The build modelled is a 64-bit one.\<close>

definition SIZE_MAX :: nat where
  "SIZE_MAX = 2 ^ 64 - 1"

definition UINT16_MAX :: nat where
  "UINT16_MAX = 65535"

named_theorems bounds_defs "limits of the C integer types"

definition INT32_MAX :: nat where
  "INT32_MAX = 2147483647"

lemmas [bounds_defs] = SIZE_MAX_def UINT16_MAX_def

section \<open>Outcomes of C functions\<close>

text \<open>
  A function over a state \<open>'s\<close> that returns \<^verbatim>\<open>BOOL\<close> ends in one of three ways. \<open>Abort\<close> is
  a failed \<^verbatim>\<open>WINPR_ASSERT\<close>, which ends the process; \<open>Fail s\<close> is \<^verbatim>\<open>return FALSE\<close> in state
  \<open>s\<close>; \<open>Ret x s\<close> is \<^verbatim>\<open>return TRUE\<close> in state \<open>s\<close> with the out-parameters \<open>x\<close>.
\<close>

datatype ('a, 's) outcome = Abort | Fail 's | Ret 'a 's

type_synonym ('a, 's) prog = "'s \<Rightarrow> ('a, 's) outcome"

abbreviation ret :: "'a \<Rightarrow> ('a, 's) prog" where
  "ret \<equiv> Ret"

abbreviation fail :: "('a, 's) prog" where
  "fail \<equiv> Fail"

definition abort :: "('a, 's) prog" where
  "abort s = Abort"

definition bindp :: "('a, 's) prog \<Rightarrow> ('a \<Rightarrow> ('b, 's) prog) \<Rightarrow> ('b, 's) prog" where
  "bindp m k s = (case m s of Abort \<Rightarrow> Abort | Fail t \<Rightarrow> Fail t | Ret x t \<Rightarrow> k x t)"

text \<open>\<^verbatim>\<open>WINPR_ASSERT(b)\<close>, and the early return \<^verbatim>\<open>if (!b) return FALSE;\<close>.\<close>

definition winpr_assert :: "bool \<Rightarrow> (unit, 's) prog" where
  "winpr_assert b = (if b then ret () else abort)"

definition require :: "bool \<Rightarrow> (unit, 's) prog" where
  "require b = (if b then ret () else fail)"

lemma abort_apply [simp]: "abort s = Abort"
  by (simp add: abort_def)

lemma winpr_assert_apply [simp]: "winpr_assert b s = (if b then Ret () s else Abort)"
  by (simp add: winpr_assert_def)

lemma require_apply [simp]: "require b s = (if b then Ret () s else Fail s)"
  by (simp add: require_def)

lemma bindp_Ret [simp]: "m s = Ret x t \<Longrightarrow> bindp m k s = k x t"
  by (simp add: bindp_def)

lemma bindp_Fail [simp]: "m s = Fail t \<Longrightarrow> bindp m k s = Fail t"
  by (simp add: bindp_def)

lemma bindp_Abort [simp]: "m s = Abort \<Longrightarrow> bindp m k s = Abort"
  by (simp add: bindp_def)

lemma bindp_left [simp]: "bindp (ret x) k = k x" "bindp fail k = fail" "bindp abort k = abort"
  by (rule ext, simp add: bindp_def)+

lemma bindp_RetE:
  assumes "bindp m k s = Ret y u"
  obtains x t where "m s = Ret x t" and "k x t = Ret y u"
  using assms by (cases "m s") (auto simp: bindp_def)

lemma bindp_assoc: "bindp (bindp m k) l = bindp m (\<lambda>x. bindp (k x) l)"
  by (rule ext) (simp add: bindp_def split: outcome.splits)

section \<open>Triples\<close>

text \<open>
  \<open>triple P m Q E\<close>: started in a state with \<open>P\<close>, \<open>m\<close> does not fail an assertion; where it
  returns \<^verbatim>\<open>TRUE\<close> with \<open>x\<close> the state it leaves has \<open>Q x\<close>, where it returns \<^verbatim>\<open>FALSE\<close> it has \<open>E\<close>.
\<close>

definition triple ::
  "('s \<Rightarrow> bool) \<Rightarrow> ('a, 's) prog \<Rightarrow> ('a \<Rightarrow> 's \<Rightarrow> bool) \<Rightarrow> ('s \<Rightarrow> bool) \<Rightarrow> bool" where
  "triple P m Q E \<longleftrightarrow>
     (\<forall>s. P s \<longrightarrow> (case m s of Abort \<Rightarrow> False | Fail t \<Rightarrow> E t | Ret x t \<Rightarrow> Q x t))"

lemma tripleI:
  assumes "\<And>s. P s \<Longrightarrow> case m s of Abort \<Rightarrow> False | Fail t \<Rightarrow> E t | Ret x t \<Rightarrow> Q x t"
  shows "triple P m Q E"
  using assms by (simp add: triple_def)

lemma tripleD:
  assumes "triple P m Q E" and "P s"
  shows "case m s of Abort \<Rightarrow> False | Fail t \<Rightarrow> E t | Ret x t \<Rightarrow> Q x t"
  using assms by (simp add: triple_def)

lemma triple_not_Abort: "triple P m Q E \<Longrightarrow> P s \<Longrightarrow> m s \<noteq> Abort"
  by (drule (1) tripleD) (cases "m s", simp_all)

lemma triple_Ret: "triple P m Q E \<Longrightarrow> P s \<Longrightarrow> m s = Ret x t \<Longrightarrow> Q x t"
  by (drule (1) tripleD) simp

lemma triple_Fail: "triple P m Q E \<Longrightarrow> P s \<Longrightarrow> m s = Fail t \<Longrightarrow> E t"
  by (drule (1) tripleD) simp

lemma triple_bindp:
  assumes m: "triple P m Q E" and k: "\<And>x. triple (Q x) (k x) R E"
  shows "triple P (bindp m k) R E"
proof (rule tripleI)
  fix s assume "P s"
  with m have *: "case m s of Abort \<Rightarrow> False | Fail t \<Rightarrow> E t | Ret x t \<Rightarrow> Q x t"
    by (rule tripleD)
  show "case bindp m k s of Abort \<Rightarrow> False | Fail t \<Rightarrow> E t | Ret x t \<Rightarrow> R x t"
  proof (cases "m s")
    case Abort
    with * show ?thesis by simp
  next
    case (Fail t)
    with * show ?thesis by simp
  next
    case (Ret x t)
    with * have "Q x t" by simp
    with k have "case k x t of Abort \<Rightarrow> False | Fail t \<Rightarrow> E t | Ret x t \<Rightarrow> R x t"
      by (rule tripleD)
    with Ret show ?thesis by simp
  qed
qed

lemma triple_weaken:
  assumes "triple P m Q E" and "\<And>s. P' s \<Longrightarrow> P s" and "\<And>x s. Q x s \<Longrightarrow> Q' x s"
    and "\<And>s. E s \<Longrightarrow> E' s"
  shows "triple P' m Q' E'"
proof (rule tripleI)
  fix s assume "P' s"
  then have "case m s of Abort \<Rightarrow> False | Fail t \<Rightarrow> E t | Ret x t \<Rightarrow> Q x t"
    by (intro tripleD [OF assms(1)] assms(2))
  then show "case m s of Abort \<Rightarrow> False | Fail t \<Rightarrow> E' t | Ret x t \<Rightarrow> Q' x t"
    using assms(3,4) by (cases "m s") auto
qed

section \<open>Bits of words\<close>

lemma lt_exp_not_bit:
  fixes w :: "'a::len word"
  assumes "unat w < 2 ^ n"
  shows "\<not> bit w n"
proof -
  have "\<not> bit (unat w) n" using assms by (simp add: bit_iff_odd)
  moreover have "bit (unat w) n \<longleftrightarrow> bit w n" by (simp add: bit_unsigned_iff)
  ultimately show ?thesis by simp
qed

text \<open>The flag bits the encoders set and clear, as \<open>set_bit\<close> and \<open>unset_bit\<close>.\<close>

lemma flag_bits:
  "(x :: u16) OR 0x8000 = set_bit 15 x" "(b :: u8) AND NOT 0x80 = unset_bit 7 b"
  "(b :: u8) OR 0x80 = set_bit 7 b"
  by (simp_all add: set_bit_eq_or unset_bit_eq_and_not)

lemma and_flag_bit7: "(b :: u8) AND 0x80 \<noteq> 0 \<longleftrightarrow> bit b 7"
proof -
  have "(b AND 0x80 \<noteq> 0) = (b AND push_bit 7 1 \<noteq> 0)" by simp
  also have "\<dots> = bit b 7" by (simp add: bit_iff_and_push_bit_not_eq_0)
  finally show ?thesis .
qed

lemma ucast_le_byte: "unat (w :: 'a::len word) < 256 \<Longrightarrow> unat (ucast w :: u8) = unat w"
  by (simp add: unsigned_ucast_eq take_bit_nat_eq_self)

lemma take_bit_word_self: "unat (w :: 'a::len word) < 2 ^ n \<Longrightarrow> take_bit n w = w"
  by (simp add: word_unat_eq_iff unsigned_take_bit_eq take_bit_nat_eq_self)

lemma ucast_down_up:
  "ucast (ucast w :: u8) = take_bit 8 (w :: u16)" "ucast (ucast v :: u8) = take_bit 8 (v :: u32)"
  "ucast (ucast v :: u16) = take_bit 16 (v :: u32)"
  by (rule bit_word_eqI, auto simp: bit_simps)+

lemma ucast_byte_back: "unat (w :: u16) < 256 \<Longrightarrow> ucast (ucast w :: u8) = w"
  "unat (v :: u32) < 256 \<Longrightarrow> ucast (ucast v :: u8) = v"
  by (simp_all add: ucast_down_up take_bit_word_self)

lemma ucast_u16_back: "unat (v :: u32) < 65536 \<Longrightarrow> ucast (ucast v :: u16) = v"
  by (simp add: ucast_down_up take_bit_word_self)

end
