(* ===== verification/Endian.thy ===== *)
theory Endian
  imports Prelude
begin

text \<open>
  The byte-order helpers of \<^verbatim>\<open>winpr/include/winpr/endian.h\<close>. A \<^verbatim>\<open>void*\<close> that the source
  reads from is the list of bytes at that address; a write returns the bytes it stores.
\<close>

unbundle bit_operations_syntax

section \<open>Reading\<close>

text \<open>The loop \<^verbatim>\<open>v <<= 8; v |= ptr[x];\<close> over the bytes in the order they are visited.\<close>

definition shift_in :: "'a::len word \<Rightarrow> u8 \<Rightarrow> 'a word" where
  "shift_in v b = push_bit 8 v OR ucast b"

definition winpr_Data_Get_UINT16 :: "u8 list \<Rightarrow> u16" where
  "winpr_Data_Get_UINT16 d = foldl shift_in 0 (rev (take 2 d))"

definition winpr_Data_Get_UINT16_BE :: "u8 list \<Rightarrow> u16" where
  "winpr_Data_Get_UINT16_BE d = foldl shift_in 0 (take 2 d)"

definition winpr_Data_Get_UINT32 :: "u8 list \<Rightarrow> u32" where
  "winpr_Data_Get_UINT32 d = foldl shift_in 0 (rev (take 4 d))"

definition winpr_Data_Get_UINT32_BE :: "u8 list \<Rightarrow> u32" where
  "winpr_Data_Get_UINT32_BE d = foldl shift_in 0 (take 4 d)"

definition winpr_Data_Get_UINT64 :: "u8 list \<Rightarrow> u64" where
  "winpr_Data_Get_UINT64 d = foldl shift_in 0 (rev (take 8 d))"

definition winpr_Data_Get_UINT64_BE :: "u8 list \<Rightarrow> u64" where
  "winpr_Data_Get_UINT64_BE d = foldl shift_in 0 (take 8 d)"

section \<open>Writing\<close>

definition winpr_Data_Write_UINT16 :: "u16 \<Rightarrow> u8 list" where
  "winpr_Data_Write_UINT16 v = [ucast (v AND 0xFF), ucast (drop_bit 8 v AND 0xFF)]"

definition winpr_Data_Write_UINT16_BE :: "u16 \<Rightarrow> u8 list" where
  "winpr_Data_Write_UINT16_BE v = [ucast (drop_bit 8 v AND 0xFF), ucast (v AND 0xFF)]"

definition winpr_Data_Write_UINT32 :: "u32 \<Rightarrow> u8 list" where
  "winpr_Data_Write_UINT32 v =
     winpr_Data_Write_UINT16 (ucast (v AND 0xFFFF)) @
     winpr_Data_Write_UINT16 (ucast (drop_bit 16 v AND 0xFFFF))"

definition winpr_Data_Write_UINT32_BE :: "u32 \<Rightarrow> u8 list" where
  "winpr_Data_Write_UINT32_BE v =
     winpr_Data_Write_UINT16_BE (ucast (drop_bit 16 v AND 0xFFFF)) @
     winpr_Data_Write_UINT16_BE (ucast (v AND 0xFFFF))"

definition winpr_Data_Write_UINT64 :: "u64 \<Rightarrow> u8 list" where
  "winpr_Data_Write_UINT64 v =
     winpr_Data_Write_UINT32 (ucast (v AND 0xFFFFFFFF)) @
     winpr_Data_Write_UINT32 (ucast (drop_bit 32 v AND 0xFFFFFFFF))"

definition winpr_Data_Write_UINT64_BE :: "u64 \<Rightarrow> u8 list" where
  "winpr_Data_Write_UINT64_BE v =
     winpr_Data_Write_UINT32_BE (ucast (drop_bit 32 v AND 0xFFFFFFFF)) @
     winpr_Data_Write_UINT32_BE (ucast (v AND 0xFFFFFFFF))"

section \<open>The two directions are inverse\<close>

named_theorems endian_defs "byte order helpers"

lemmas [endian_defs] =
  winpr_Data_Get_UINT16_def winpr_Data_Get_UINT16_BE_def winpr_Data_Get_UINT32_def
  winpr_Data_Get_UINT32_BE_def winpr_Data_Get_UINT64_def winpr_Data_Get_UINT64_BE_def
  winpr_Data_Write_UINT16_def winpr_Data_Write_UINT16_BE_def winpr_Data_Write_UINT32_def
  winpr_Data_Write_UINT32_BE_def winpr_Data_Write_UINT64_def winpr_Data_Write_UINT64_BE_def
  shift_in_def

lemma length_write [simp]:
  "length (winpr_Data_Write_UINT16 a) = 2" "length (winpr_Data_Write_UINT16_BE a) = 2"
  "length (winpr_Data_Write_UINT32 b) = 4" "length (winpr_Data_Write_UINT32_BE b) = 4"
  "length (winpr_Data_Write_UINT64 c) = 8" "length (winpr_Data_Write_UINT64_BE c) = 8"
  by (simp_all add: endian_defs)

lemma mask_simps: "(0xFF :: 'a::len word) = mask 8" "(0xFFFF :: 'a word) = mask 16"
  "(0xFFFFFFFF :: 'a word) = mask 32"
  by (simp_all add: mask_eq_exp_minus_1)

lemma shift_in_add: "push_bit 8 v + ucast b = shift_in v b"
  unfolding shift_in_def
  by (rule disjunctive_add) (auto simp: bit_simps dest: bit_imp_le_length)

text \<open>Shifting the next byte in undoes dropping it: one step of the reading loop on the
  bytes the writer stored.\<close>

lemma shift_in_drop:
  fixes v :: "'a::len word"
  shows "shift_in (drop_bit (n + 8) v) (ucast (drop_bit n v)) = drop_bit n v"
proof (rule bit_word_eqI)
  fix i assume i: "i < LENGTH('a)"
  show "bit (shift_in (drop_bit (n + 8) v) (ucast (drop_bit n v))) i = bit (drop_bit n v) i"
  proof (cases "i < 8")
    case True
    with i show ?thesis by (simp add: shift_in_def bit_simps)
  next
    case False
    then obtain j where "i = j + 8" by (metis add.commute le_Suc_ex linorder_not_less)
    with i show ?thesis by (simp add: shift_in_def bit_simps ac_simps)
  qed
qed

lemma shift_in_top:
  fixes v :: "'a::len word"
  assumes "LENGTH('a) \<le> n + 8"
  shows "shift_in 0 (ucast (drop_bit n v)) = drop_bit n v"
proof -
  have "drop_bit (n + 8) v = 0"
    using assms by (intro bit_word_eqI) (auto simp: bit_simps dest: bit_imp_le_length)
  then show ?thesis using shift_in_drop [of n v] by simp
qed

lemma byte_of_u16: "ucast (v AND 0xFF :: u16) = (ucast v :: u8)"
  "ucast (drop_bit 8 v AND 0xFF :: u16) = (ucast (drop_bit 8 v) :: u8)"
  unfolding mask_simps by (rule bit_word_eqI, auto simp: bit_simps)+

lemma byte_of_u32: "ucast (ucast (w AND 0xFFFF :: u32) :: u16) = (ucast w :: u8)"
  "ucast (drop_bit 8 (ucast (w AND 0xFFFF :: u32) :: u16)) = (ucast (drop_bit 8 w) :: u8)"
  unfolding mask_simps by (rule bit_word_eqI, auto simp: bit_simps)+

lemma byte_of_u64: "ucast (ucast (x AND 0xFFFFFFFF :: u64) :: u32) = (ucast x :: u8)"
  "ucast (drop_bit n (ucast (x AND 0xFFFFFFFF :: u64) :: u32)) =
     (ucast (drop_bit n x AND mask (32 - n)) :: u8)"
  unfolding mask_simps by (rule bit_word_eqI, auto simp: bit_simps)+

lemma byte_below: "8 \<le> k \<Longrightarrow> ucast (y AND mask k :: 'a::len word) = (ucast y :: u8)"
  by (rule bit_word_eqI) (auto simp: bit_simps dest: bit_imp_le_length)

lemma write_u16_be_bytes:
  "winpr_Data_Write_UINT16_BE v = [ucast (drop_bit 8 v), ucast v]"
  by (simp add: winpr_Data_Write_UINT16_BE_def byte_of_u16)

lemma write_u16_le_bytes:
  "winpr_Data_Write_UINT16 v = [ucast v, ucast (drop_bit 8 v)]"
  by (simp add: winpr_Data_Write_UINT16_def byte_of_u16)

lemma write_u32_be_bytes:
  "winpr_Data_Write_UINT32_BE w =
     [ucast (drop_bit 24 w), ucast (drop_bit 16 w), ucast (drop_bit 8 w), ucast w]"
  by (simp add: winpr_Data_Write_UINT32_BE_def write_u16_be_bytes byte_of_u32)

lemma write_u32_le_bytes:
  "winpr_Data_Write_UINT32 w =
     [ucast w, ucast (drop_bit 8 w), ucast (drop_bit 16 w), ucast (drop_bit 24 w)]"
  by (simp add: winpr_Data_Write_UINT32_def write_u16_le_bytes byte_of_u32)

lemma write_u64_be_bytes:
  "winpr_Data_Write_UINT64_BE x =
     [ucast (drop_bit 56 x), ucast (drop_bit 48 x), ucast (drop_bit 40 x), ucast (drop_bit 32 x),
      ucast (drop_bit 24 x), ucast (drop_bit 16 x), ucast (drop_bit 8 x), ucast x]"
  by (simp add: winpr_Data_Write_UINT64_BE_def write_u32_be_bytes byte_of_u64)
     (simp add: byte_below)

lemma write_u64_le_bytes:
  "winpr_Data_Write_UINT64 x =
     [ucast x, ucast (drop_bit 8 x), ucast (drop_bit 16 x), ucast (drop_bit 24 x),
      ucast (drop_bit 32 x), ucast (drop_bit 40 x), ucast (drop_bit 48 x), ucast (drop_bit 56 x)]"
  by (simp add: winpr_Data_Write_UINT64_def write_u32_le_bytes byte_of_u64)
     (simp add: byte_below)

lemmas shift_in_chain =
  shift_in_drop [of 0, simplified] shift_in_drop [of 8, simplified]
  shift_in_drop [of 16, simplified] shift_in_drop [of 24, simplified]
  shift_in_drop [of 32, simplified] shift_in_drop [of 40, simplified]
  shift_in_drop [of 48, simplified] shift_in_top

lemma get_write_u16_be [simp]:
  "winpr_Data_Get_UINT16_BE (winpr_Data_Write_UINT16_BE v @ ys) = v"
  by (simp add: winpr_Data_Get_UINT16_BE_def write_u16_be_bytes shift_in_chain)

lemma get_write_u16_le [simp]:
  "winpr_Data_Get_UINT16 (winpr_Data_Write_UINT16 v @ ys) = v"
  by (simp add: winpr_Data_Get_UINT16_def write_u16_le_bytes shift_in_chain)

lemma get_write_u32_be [simp]:
  "winpr_Data_Get_UINT32_BE (winpr_Data_Write_UINT32_BE w @ ys) = w"
  by (simp add: winpr_Data_Get_UINT32_BE_def write_u32_be_bytes shift_in_chain)

lemma get_write_u32_le [simp]:
  "winpr_Data_Get_UINT32 (winpr_Data_Write_UINT32 w @ ys) = w"
  by (simp add: winpr_Data_Get_UINT32_def write_u32_le_bytes shift_in_chain)

lemma get_write_u64_be [simp]:
  "winpr_Data_Get_UINT64_BE (winpr_Data_Write_UINT64_BE x @ ys) = x"
  by (simp add: winpr_Data_Get_UINT64_BE_def write_u64_be_bytes shift_in_chain)

lemma get_write_u64_le [simp]:
  "winpr_Data_Get_UINT64 (winpr_Data_Write_UINT64 x @ ys) = x"
  by (simp add: winpr_Data_Get_UINT64_def write_u64_le_bytes shift_in_chain)

end
