(* ===== verification/Stream.thy ===== *)
theory Stream
  imports Endian
begin

text \<open>
  The byte stream \<^verbatim>\<open>wStream\<close> of \<^verbatim>\<open>winpr/include/winpr/stream.h\<close> and
  \<^verbatim>\<open>winpr/libwinpr/utils/stream.c\<close>, on which every protocol layer reads and writes.
  The three sections give the state and the operations, the facts every operation has by
  itself, and the two relations \<open>parses\<close> and \<open>emits\<close> in which the layers above state
  what their readers accept and what their writers produce.
\<close>

unbundle bit_operations_syntax

section \<open>State\<close>

text \<open>
  The allocation \<^verbatim>\<open>buffer .. buffer + capacity\<close> is one list, so \<^verbatim>\<open>capacity\<close> is its length;
  \<^verbatim>\<open>pointer\<close> is kept as its offset from \<^verbatim>\<open>buffer\<close>. \<open>grants n\<close> says whether the allocator
  answers a request for \<open>n\<close> bytes on behalf of this stream; it stands for \<^verbatim>\<open>malloc\<close> and
  \<^verbatim>\<open>realloc\<close>, which may fail. The reference count and the pool of a stream are not modelled.
\<close>

record wStream =
  buffer :: "u8 list"
  pointer :: nat
  slength :: nat
  isOwner :: bool
  grants :: "nat \<Rightarrow> bool"

type_synonym 'a parser = "('a, wStream) prog"

definition Stream_Capacity :: "wStream \<Rightarrow> nat" where
  "Stream_Capacity s = length (buffer s)"

definition Stream_GetPosition :: "wStream \<Rightarrow> nat" where
  "Stream_GetPosition s = pointer s"

definition Stream_Length :: "wStream \<Rightarrow> nat" where
  "Stream_Length s = slength s"

definition Stream_GetRemainingCapacity :: "nat parser" where
  "Stream_GetRemainingCapacity s =
     (if pointer s \<le> Stream_Capacity s then Ret (Stream_Capacity s - pointer s) s else Abort)"

definition Stream_GetRemainingLength :: "nat parser" where
  "Stream_GetRemainingLength s =
     (if slength s \<le> Stream_Capacity s \<and> pointer s \<le> slength s
      then Ret (slength s - pointer s) s else Abort)"

section \<open>Construction and positioning\<close>

definition Stream_New :: "(nat \<Rightarrow> bool) \<Rightarrow> nat \<Rightarrow> wStream option" where
  "Stream_New grant sz =
     (if sz = 0 \<or> \<not> grant sz then None
      else Some \<lparr>buffer = replicate sz 0, pointer = 0, slength = sz, isOwner = True,
                 grants = grant\<rparr>)"

definition Stream_StaticInit :: "(nat \<Rightarrow> bool) \<Rightarrow> u8 list \<Rightarrow> wStream" where
  "Stream_StaticInit grant bytes =
     \<lparr>buffer = bytes, pointer = 0, slength = length bytes, isOwner = False, grants = grant\<rparr>"

definition Stream_SetPosition :: "nat \<Rightarrow> unit parser" where
  "Stream_SetPosition p s =
     (if p > Stream_Capacity s then Fail (s\<lparr>pointer := 0\<rparr>) else Ret () (s\<lparr>pointer := p\<rparr>))"

definition Stream_SetLength :: "nat \<Rightarrow> unit parser" where
  "Stream_SetLength l s =
     (if l > Stream_Capacity s then Fail (s\<lparr>slength := 0\<rparr>) else Ret () (s\<lparr>slength := l\<rparr>))"

definition Stream_ResetPosition :: "unit parser" where
  "Stream_ResetPosition s = Ret () (s\<lparr>pointer := 0\<rparr>)"

definition Stream_SealLength :: "unit parser" where
  "Stream_SealLength s =
     (if pointer s \<le> Stream_Capacity s then Ret () (s\<lparr>slength := pointer s\<rparr>) else Abort)"

definition Stream_Clear :: "unit parser" where
  "Stream_Clear s = Ret () (s\<lparr>buffer := replicate (Stream_Capacity s) 0\<rparr>)"

definition Stream_Seek :: "nat \<Rightarrow> unit parser" where
  "Stream_Seek n =
     bindp Stream_GetRemainingCapacity (\<lambda>rem.
     bindp (winpr_assert (rem \<ge> n)) (\<lambda>_ s. Ret () (s\<lparr>pointer := pointer s + n\<rparr>)))"

definition Stream_Rewind :: "nat \<Rightarrow> unit parser" where
  "Stream_Rewind n s =
     (if pointer s \<ge> n then Ret () (s\<lparr>pointer := pointer s - n\<rparr>) else Abort)"

section \<open>Bounds checks\<close>

definition Stream_CheckAndLogRequiredLengthOfSize :: "nat \<Rightarrow> nat \<Rightarrow> unit parser" where
  "Stream_CheckAndLogRequiredLengthOfSize nmemb sz =
     bindp (winpr_assert (sz > 0)) (\<lambda>_.
     bindp Stream_GetRemainingLength (\<lambda>rem. require (\<not> rem div sz < nmemb)))"

definition Stream_CheckAndLogRequiredLength :: "nat \<Rightarrow> unit parser" where
  "Stream_CheckAndLogRequiredLength n = Stream_CheckAndLogRequiredLengthOfSize n 1"

definition Stream_CheckAndLogRequiredCapacityOfSize :: "nat \<Rightarrow> nat \<Rightarrow> unit parser" where
  "Stream_CheckAndLogRequiredCapacityOfSize nmemb sz =
     bindp (winpr_assert (sz \<noteq> 0)) (\<lambda>_.
     bindp Stream_GetRemainingCapacity (\<lambda>rem. require (\<not> rem div sz < nmemb)))"

definition Stream_CheckAndLogRequiredCapacity :: "nat \<Rightarrow> unit parser" where
  "Stream_CheckAndLogRequiredCapacity n = Stream_CheckAndLogRequiredCapacityOfSize n 1"

definition Stream_SafeSeek :: "nat \<Rightarrow> unit parser" where
  "Stream_SafeSeek n = bindp (Stream_CheckAndLogRequiredLength n) (\<lambda>_. Stream_Seek n)"

section \<open>Growing\<close>

text \<open>\<^verbatim>\<open>new_capacity\<close>: \<open>sz\<close> rounded up to the next multiple of 128 above it. Growing
  copies the old contents, zeroes the rest, and sets \<^verbatim>\<open>length\<close> to the new capacity.\<close>

definition grown_capacity :: "nat \<Rightarrow> nat" where
  "grown_capacity sz = sz + 128 - sz mod 128"

definition Stream_EnsureCapacity :: "nat \<Rightarrow> unit parser" where
  "Stream_EnsureCapacity sz s =
     (if Stream_Capacity s \<ge> sz then Ret () s
      else if sz > SIZE_MAX - 128 then Fail s
      else if \<not> grants s (grown_capacity sz) then Fail s
      else Stream_SetPosition (Stream_GetPosition s)
             (s\<lparr>buffer := buffer s @ replicate (grown_capacity sz - Stream_Capacity s) 0,
                slength := grown_capacity sz, isOwner := True\<rparr>))"

definition Stream_EnsureRemainingCapacity :: "nat \<Rightarrow> unit parser" where
  "Stream_EnsureRemainingCapacity sz s =
     (let pos = Stream_GetPosition s in
      if pos > SIZE_MAX - sz then Fail s
      else if pos + sz > Stream_Capacity s
        then Stream_EnsureCapacity ((Stream_Capacity s + sz) mod (SIZE_MAX + 1)) s
      else Ret () s)"

section \<open>Reading\<close>

text \<open>The body every typed reader has: assert the bytes are there, decode them at the
  pointer, and step over them unless the read is a peek.\<close>

definition stream_read :: "nat \<Rightarrow> (u8 list \<Rightarrow> 'a) \<Rightarrow> bool \<Rightarrow> 'a parser" where
  "stream_read typesize decode seek =
     bindp Stream_GetRemainingLength (\<lambda>rem.
     bindp (winpr_assert (rem \<ge> typesize)) (\<lambda>_ s.
       let v = decode (drop (pointer s) (buffer s))
       in if seek then bindp (Stream_Seek typesize) (\<lambda>_. ret v) s else Ret v s))"

definition stream_read_u8 :: "bool \<Rightarrow> u8 parser" where
  "stream_read_u8 = stream_read 1 hd"

definition stream_read_u16_le :: "bool \<Rightarrow> u16 parser" where
  "stream_read_u16_le = stream_read 2 winpr_Data_Get_UINT16"

definition stream_read_u16_be :: "bool \<Rightarrow> u16 parser" where
  "stream_read_u16_be = stream_read 2 winpr_Data_Get_UINT16_BE"

definition stream_read_u32_le :: "bool \<Rightarrow> u32 parser" where
  "stream_read_u32_le = stream_read 4 winpr_Data_Get_UINT32"

definition stream_read_u32_be :: "bool \<Rightarrow> u32 parser" where
  "stream_read_u32_be = stream_read 4 winpr_Data_Get_UINT32_BE"

definition stream_read_u64_le :: "bool \<Rightarrow> u64 parser" where
  "stream_read_u64_le = stream_read 8 winpr_Data_Get_UINT64"

definition stream_read_u64_be :: "bool \<Rightarrow> u64 parser" where
  "stream_read_u64_be = stream_read 8 winpr_Data_Get_UINT64_BE"

abbreviation Stream_Read_UINT8 :: "u8 parser" where
  "Stream_Read_UINT8 \<equiv> stream_read_u8 True"

abbreviation Stream_Peek_UINT8 :: "u8 parser" where
  "Stream_Peek_UINT8 \<equiv> stream_read_u8 False"

abbreviation Stream_Read_UINT16 :: "u16 parser" where
  "Stream_Read_UINT16 \<equiv> stream_read_u16_le True"

abbreviation Stream_Read_UINT16_BE :: "u16 parser" where
  "Stream_Read_UINT16_BE \<equiv> stream_read_u16_be True"

abbreviation Stream_Read_UINT32 :: "u32 parser" where
  "Stream_Read_UINT32 \<equiv> stream_read_u32_le True"

abbreviation Stream_Read_UINT32_BE :: "u32 parser" where
  "Stream_Read_UINT32_BE \<equiv> stream_read_u32_be True"

text \<open>\<^verbatim>\<open>Stream_Read\<close> and \<^verbatim>\<open>Stream_Peek\<close> compare with the capacity, not with the length.\<close>

definition Stream_Peek :: "nat \<Rightarrow> u8 list parser" where
  "Stream_Peek n =
     bindp Stream_GetRemainingCapacity (\<lambda>rem.
     bindp (winpr_assert (rem \<ge> n)) (\<lambda>_ s. Ret (take n (drop (pointer s) (buffer s))) s))"

definition Stream_Read :: "nat \<Rightarrow> u8 list parser" where
  "Stream_Read n = bindp (Stream_Peek n) (\<lambda>bs. bindp (Stream_Seek n) (\<lambda>_. ret bs))"

section \<open>Writing\<close>

text \<open>Overwrite the bytes at offset \<open>p\<close> of a list that is long enough.\<close>

definition overwrite :: "nat \<Rightarrow> 'a list \<Rightarrow> 'a list \<Rightarrow> 'a list" where
  "overwrite p bs buf = take p buf @ bs @ drop (p + length bs) buf"

text \<open>Storing \<open>bs\<close> at the pointer and stepping over it: the effect of every writer.\<close>

definition put :: "u8 list \<Rightarrow> wStream \<Rightarrow> wStream" where
  "put bs s = s\<lparr>buffer := overwrite (pointer s) bs (buffer s), pointer := pointer s + length bs\<rparr>"

definition stream_store :: "u8 list \<Rightarrow> unit parser" where
  "stream_store bs =
     bindp Stream_GetRemainingCapacity (\<lambda>rem.
     bindp (winpr_assert (rem \<ge> length bs)) (\<lambda>_ s. Ret () (put bs s)))"

definition Stream_Write_UINT8_unchecked :: "u8 \<Rightarrow> unit parser" where
  "Stream_Write_UINT8_unchecked v = stream_store [v]"

definition Stream_Write_UINT16_unchecked :: "u16 \<Rightarrow> unit parser" where
  "Stream_Write_UINT16_unchecked v = stream_store (winpr_Data_Write_UINT16 v)"

definition Stream_Write_UINT16_BE_unchecked :: "u16 \<Rightarrow> unit parser" where
  "Stream_Write_UINT16_BE_unchecked v = stream_store (winpr_Data_Write_UINT16_BE v)"

definition Stream_Write_UINT32_unchecked :: "u32 \<Rightarrow> unit parser" where
  "Stream_Write_UINT32_unchecked v = stream_store (winpr_Data_Write_UINT32 v)"

definition Stream_Write_UINT32_BE_unchecked :: "u32 \<Rightarrow> unit parser" where
  "Stream_Write_UINT32_BE_unchecked v = stream_store (winpr_Data_Write_UINT32_BE v)"

definition Stream_Write_UINT64 :: "u64 \<Rightarrow> unit parser" where
  "Stream_Write_UINT64 v = stream_store (winpr_Data_Write_UINT64 v)"

definition Stream_Write_UINT64_BE :: "u64 \<Rightarrow> unit parser" where
  "Stream_Write_UINT64_BE v = stream_store (winpr_Data_Write_UINT64_BE v)"

text \<open>The checked macros \<^verbatim>\<open>Stream_Write_UINT8(s, v)\<close> and \<^verbatim>\<open>Stream_Write_UINT16_BE(s, v)\<close>
  assert that the C expression \<open>v\<close> is in range before they narrow it; where the argument
  already has the type of the field the assertion holds.\<close>

definition Stream_Write_UINT8 :: "nat \<Rightarrow> unit parser" where
  "Stream_Write_UINT8 v =
     bindp (winpr_assert (v \<le> 255)) (\<lambda>_. Stream_Write_UINT8_unchecked (of_nat v))"

definition Stream_Write_UINT16_BE :: "nat \<Rightarrow> unit parser" where
  "Stream_Write_UINT16_BE v =
     bindp (winpr_assert (v \<le> UINT16_MAX)) (\<lambda>_. Stream_Write_UINT16_BE_unchecked (of_nat v))"

definition Stream_Write :: "u8 list \<Rightarrow> unit parser" where
  "Stream_Write bs = (if length bs > 0 then stream_store bs else ret ())"

definition Stream_Fill :: "u8 \<Rightarrow> nat \<Rightarrow> unit parser" where
  "Stream_Fill v n = stream_store (replicate n v)"

definition Stream_Zero :: "nat \<Rightarrow> unit parser" where
  "Stream_Zero n = Stream_Fill 0 n"

definition Stream_SafeZero :: "nat \<Rightarrow> unit parser" where
  "Stream_SafeZero n = bindp (Stream_CheckAndLogRequiredCapacity n) (\<lambda>_. Stream_Zero n)"

end
