(* ===== verification/Wire.thy ===== *)
theory Wire
  imports Stream
begin

text \<open>
  The facts the protocol layers use of a \<^verbatim>\<open>wStream\<close>. \<open>reads_ok\<close> is the memory-safety
  judgement of a reader: it never trips an assertion and never moves outside the bytes it
  was given. \<open>parses\<close> says which bytes a reader takes and what it makes of them, \<open>emits\<close>
  which bytes a writer appends; each has one rule per stream operation and one for
  sequencing. The locale \<open>wire_format\<close> pairs a writer with a reader of the same bytes.
\<close>

unbundle bit_operations_syntax

section \<open>Well-formed streams\<close>

definition wf_stream :: "wStream \<Rightarrow> bool" where
  "wf_stream s \<longleftrightarrow> pointer s \<le> slength s \<and> slength s \<le> length (buffer s) \<and>
     length (buffer s) \<le> SIZE_MAX"

text \<open>The unread bytes, the bytes before the pointer, and the stream \<open>n\<close> bytes further on.\<close>

definition rest :: "wStream \<Rightarrow> u8 list" where
  "rest s = take (slength s - pointer s) (drop (pointer s) (buffer s))"

definition written :: "wStream \<Rightarrow> u8 list" where
  "written s = take (pointer s) (buffer s)"

definition adv :: "nat \<Rightarrow> wStream \<Rightarrow> wStream" where
  "adv n s = s\<lparr>pointer := pointer s + n\<rparr>"

definition room :: "nat \<Rightarrow> wStream \<Rightarrow> bool" where
  "room n s \<longleftrightarrow> pointer s + n \<le> Stream_Capacity s \<and> Stream_Capacity s \<le> SIZE_MAX"

named_theorems stream_defs "definitions of the stream operations"

lemmas [stream_defs] =
  Stream_Capacity_def Stream_GetRemainingCapacity_def Stream_GetRemainingLength_def
  Stream_GetPosition_def Stream_Seek_def Stream_Rewind_def Stream_SafeSeek_def
  Stream_CheckAndLogRequiredLength_def Stream_CheckAndLogRequiredLengthOfSize_def
  Stream_CheckAndLogRequiredCapacity_def Stream_CheckAndLogRequiredCapacityOfSize_def

lemma adv_sel [simp]:
  "pointer (adv n s) = pointer s + n" "buffer (adv n s) = buffer s"
  "slength (adv n s) = slength s" "grants (adv n s) = grants s" "isOwner (adv n s) = isOwner s"
  by (simp_all add: adv_def)

lemma adv_0 [simp]: "adv 0 s = s"
  by (simp add: adv_def)

lemma adv_adv [simp]: "adv m (adv n s) = adv (n + m) s"
  by (simp add: adv_def add.assoc)

lemma length_rest: "wf_stream s \<Longrightarrow> length (rest s) = slength s - pointer s"
  by (auto simp: wf_stream_def rest_def)

lemma rest_adv: "rest (adv n s) = drop n (rest s)"
  by (simp add: rest_def drop_take add.commute diff_diff_left)

lemma wf_adv: "wf_stream s \<Longrightarrow> n \<le> length (rest s) \<Longrightarrow> wf_stream (adv n s)"
  by (auto simp: length_rest) (auto simp: wf_stream_def)

lemma rest_prefix_bound:
  "wf_stream s \<Longrightarrow> rest s = bs @ ys \<Longrightarrow> pointer s + length bs + length ys = slength s"
proof -
  assume wf: "wf_stream s" and r: "rest s = bs @ ys"
  from wf have "length (rest s) = slength s - pointer s" by (rule length_rest)
  with r wf show ?thesis by (auto simp: wf_stream_def)
qed

text \<open>What is in the buffer at the pointer begins with the unread bytes.\<close>

lemma drop_buffer: "drop (pointer s) (buffer s) = rest s @ drop (slength s - pointer s) (drop (pointer s) (buffer s))"
  by (simp only: rest_def append_take_drop_id)

section \<open>Parsing\<close>

definition parses :: "'a parser \<Rightarrow> u8 list \<Rightarrow> u8 list \<Rightarrow> 'a \<Rightarrow> bool" where
  "parses m bs ys x \<longleftrightarrow>
     (\<forall>s. wf_stream s \<and> rest s = bs @ ys \<longrightarrow> m s = Ret x (adv (length bs) s))"

named_theorems parse_intros "what the readers accept"

lemma parsesI:
  assumes "\<And>s. wf_stream s \<Longrightarrow> rest s = bs @ ys \<Longrightarrow> m s = Ret x (adv (length bs) s)"
  shows "parses m bs ys x"
  using assms by (simp add: parses_def)

lemma parsesD: "parses m bs ys x \<Longrightarrow> wf_stream s \<Longrightarrow> rest s = bs @ ys \<Longrightarrow> m s = Ret x (adv (length bs) s)"
  by (simp add: parses_def)

lemma parses_bindp:
  assumes m: "parses m as (bs @ ys) a" and k: "parses (k a) bs ys x"
  shows "parses (bindp m k) (as @ bs) ys x"
proof (rule parsesI)
  fix s assume wf: "wf_stream s" and r: "rest s = (as @ bs) @ ys"
  then have "m s = Ret a (adv (length as) s)" using m by (auto dest: parsesD)
  moreover have "k a (adv (length as) s) = Ret x (adv (length bs) (adv (length as) s))"
    using k by (rule parsesD) (use wf r in \<open>auto simp: wf_adv rest_adv\<close>)
  ultimately show "bindp m k s = Ret x (adv (length (as @ bs)) s)" by simp
qed

lemma parses_ret [parse_intros]: "parses (ret x) [] ys x"
  by (rule parsesI) simp

lemma parses_check [parse_intros]:
  assumes "n \<le> length bs + length ys" and "parses (k ()) bs ys x"
  shows "parses (bindp (Stream_CheckAndLogRequiredLength n) k) bs ys x"
proof (rule parsesI)
  fix s assume s: "wf_stream s" "rest s = bs @ ys"
  then have "pointer s + length bs + length ys = slength s" by (rule rest_prefix_bound)
  with s assms(1) have "Stream_CheckAndLogRequiredLength n s = Ret () s"
    by (auto simp: stream_defs bindp_def wf_stream_def)
  with s assms(2) show "bindp (Stream_CheckAndLogRequiredLength n) k s = Ret x (adv (length bs) s)"
    by (simp add: parsesD)
qed

lemma parses_seek: "length bs = n \<Longrightarrow> parses (Stream_Seek n) bs ys ()"
proof (rule parsesI)
  fix s assume s: "wf_stream s" "rest s = bs @ ys" and n: "length bs = n"
  then have "pointer s + n + length ys = slength s" using rest_prefix_bound by blast
  with s show "Stream_Seek n s = Ret () (adv (length bs) s)"
    by (auto simp: stream_defs bindp_def wf_stream_def adv_def n)
qed

lemma parses_stream_read:
  assumes n: "length bs = n" and d: "\<And>zs. decode (bs @ zs) = v"
  shows "parses (stream_read n decode True) bs ys v"
proof (rule parsesI)
  fix s assume s: "wf_stream s" "rest s = bs @ ys"
  then have b: "pointer s + n + length ys = slength s" using rest_prefix_bound n by blast
  have "decode (drop (pointer s) (buffer s)) = v"
    by (subst drop_buffer) (simp add: s(2) d)
  moreover have "Stream_Seek n s = Ret () (adv n s)"
    using parses_seek [OF n] s n by (auto dest: parsesD)
  ultimately show "stream_read n decode True s = Ret v (adv (length bs) s)"
    using s b by (auto simp: stream_read_def stream_defs bindp_def wf_stream_def Let_def n)
qed

lemma parses_stream_peek:
  assumes n: "length bs = n" and d: "\<And>zs. decode (bs @ zs) = v"
    and k: "parses (k v) (bs @ cs) ys x"
  shows "parses (bindp (stream_read n decode False) k) (bs @ cs) ys x"
proof (rule parsesI)
  fix s assume s: "wf_stream s" "rest s = (bs @ cs) @ ys"
  then have b: "pointer s + length (bs @ cs) + length ys = slength s" by (rule rest_prefix_bound)
  have "decode (drop (pointer s) (buffer s)) = v"
    by (subst drop_buffer) (simp add: s(2) d)
  with s b n have "stream_read n decode False s = Ret v s"
    by (auto simp: stream_read_def stream_defs bindp_def wf_stream_def Let_def)
  with k s show "bindp (stream_read n decode False) k s = Ret x (adv (length (bs @ cs)) s)"
    by (simp add: parsesD)
qed

lemma parses_u8 [parse_intros]:
  assumes "parses (k b) bs ys x"
  shows "parses (bindp Stream_Read_UINT8 k) (b # bs) ys x"
proof -
  have "parses Stream_Read_UINT8 [b] (bs @ ys) b"
    unfolding stream_read_u8_def by (rule parses_stream_read) simp_all
  from parses_bindp [where k = k, OF this assms] show ?thesis by simp
qed

lemma parses_peek_u8 [parse_intros]:
  assumes "parses (k b) (b # bs) ys x"
  shows "parses (bindp Stream_Peek_UINT8 k) (b # bs) ys x"
  using parses_stream_peek [of "[b]" 1 hd b k bs ys x] assms by (simp add: stream_read_u8_def)

lemma parses_u16_be [parse_intros]:
  assumes "parses (k v) bs ys x"
  shows "parses (bindp Stream_Read_UINT16_BE k) (winpr_Data_Write_UINT16_BE v @ bs) ys x"
  using assms by (intro parses_bindp) (auto simp: stream_read_u16_be_def intro: parses_stream_read)

lemma parses_u16_le [parse_intros]:
  assumes "parses (k v) bs ys x"
  shows "parses (bindp Stream_Read_UINT16 k) (winpr_Data_Write_UINT16 v @ bs) ys x"
  using assms by (intro parses_bindp) (auto simp: stream_read_u16_le_def intro: parses_stream_read)

lemma parses_u32_be [parse_intros]:
  assumes "parses (k v) bs ys x"
  shows "parses (bindp Stream_Read_UINT32_BE k) (winpr_Data_Write_UINT32_BE v @ bs) ys x"
  using assms by (intro parses_bindp) (auto simp: stream_read_u32_be_def intro: parses_stream_read)

lemma parses_u32_le [parse_intros]:
  assumes "parses (k v) bs ys x"
  shows "parses (bindp Stream_Read_UINT32 k) (winpr_Data_Write_UINT32 v @ bs) ys x"
  using assms by (intro parses_bindp) (auto simp: stream_read_u32_le_def intro: parses_stream_read)

lemma parses_seek_bindp [parse_intros]:
  assumes "length as = n" and "parses (k ()) bs ys x"
  shows "parses (bindp (Stream_Seek n) k) (as @ bs) ys x"
  by (rule parses_bindp [where k = k, OF parses_seek [OF assms(1)] assms(2)])

lemma parses_require [parse_intros]: "b \<Longrightarrow> parses (k ()) bs ys x \<Longrightarrow> parses (bindp (require b) k) bs ys x"
  by (rule parsesI) (simp add: parsesD)

lemma parses_assert [parse_intros]: "b \<Longrightarrow> parses (k ()) bs ys x \<Longrightarrow> parses (bindp (winpr_assert b) k) bs ys x"
  by (rule parsesI) (simp add: parsesD)

lemma parses_if: "(b \<Longrightarrow> parses m bs ys x) \<Longrightarrow> (\<not> b \<Longrightarrow> parses n bs ys x) \<Longrightarrow> parses (if b then m else n) bs ys x"
  by simp

lemma parses_let [parse_intros]: "parses (k v) bs ys x \<Longrightarrow> parses (let y = v in k y) bs ys x"
  by simp

lemma parses_remaining_bindp:
  assumes "\<And>rem. rem \<ge> length bs \<Longrightarrow> parses (k rem) bs ys x"
  shows "parses (bindp Stream_GetRemainingLength k) bs ys x"
proof (rule parsesI)
  fix s assume s: "wf_stream s" "rest s = bs @ ys"
  then have "pointer s + length bs + length ys = slength s" by (rule rest_prefix_bound)
  then have "slength s - pointer s \<ge> length bs" by simp
  from parsesD [OF assms [OF this] s]
  show "bindp Stream_GetRemainingLength k s = Ret x (adv (length bs) s)"
    using s(1) by (auto simp: stream_defs bindp_def wf_stream_def)
qed

text \<open>The same rules as equations, for readers whose input is only known to be well formed.\<close>

lemma check_wf: "wf_stream s \<Longrightarrow>
    Stream_CheckAndLogRequiredLength n s = (if n \<le> length (rest s) then Ret () s else Fail s)"
  by (auto simp: stream_defs bindp_def length_rest wf_stream_def)

lemma read_wf:
  assumes "wf_stream s" and "n \<le> length (rest s)" and "\<And>zs. decode (take n (rest s) @ zs) = v"
  shows "stream_read n decode True s = Ret v (adv n s)"
    and "stream_read n decode False s = Ret v s"
proof -
  have "drop (pointer s) (buffer s) = take n (rest s) @ drop n (rest s) @
      drop (slength s - pointer s) (drop (pointer s) (buffer s))"
    by (subst drop_buffer) simp
  then have d: "decode (drop (pointer s) (buffer s)) = v" by (simp add: assms(3))
  have "pointer s + n \<le> slength s" "slength s \<le> length (buffer s)"
    using assms(1,2) by (auto simp: length_rest wf_stream_def)
  with d show "stream_read n decode True s = Ret v (adv n s)" "stream_read n decode False s = Ret v s"
    by (auto simp: stream_read_def stream_defs bindp_def adv_def Let_def)
qed

lemma read_u8_wf:
  "wf_stream s \<Longrightarrow> rest s = b # bs \<Longrightarrow> Stream_Read_UINT8 s = Ret b (adv 1 s)"
  "wf_stream s \<Longrightarrow> rest s = b # bs \<Longrightarrow> Stream_Peek_UINT8 s = Ret b s"
  unfolding stream_read_u8_def by (rule read_wf; simp)+

lemma seek_wf: "wf_stream s \<Longrightarrow> n \<le> length (rest s) \<Longrightarrow> Stream_Seek n s = Ret () (adv n s)"
  by (auto simp: stream_defs bindp_def length_rest wf_stream_def adv_def)

lemma read_u16_be_wf:
  "wf_stream s \<Longrightarrow> rest s = hi # lo # bs \<Longrightarrow>
     Stream_Read_UINT16_BE s = Ret (winpr_Data_Get_UINT16_BE [hi, lo]) (adv 2 s)"
  unfolding stream_read_u16_be_def
  by (rule read_wf) (simp_all add: winpr_Data_Get_UINT16_BE_def)

section \<open>Writing\<close>

definition emits :: "'a parser \<Rightarrow> u8 list \<Rightarrow> 'a \<Rightarrow> bool" where
  "emits m bs x \<longleftrightarrow> (\<forall>s. room (length bs) s \<longrightarrow> m s = Ret x (put bs s))"

named_theorems emit_intros "what the writers append"

lemma emitsI:
  assumes "\<And>s. room (length bs) s \<Longrightarrow> m s = Ret x (put bs s)"
  shows "emits m bs x"
  using assms by (simp add: emits_def)

lemma emitsD: "emits m bs x \<Longrightarrow> room (length bs) s \<Longrightarrow> m s = Ret x (put bs s)"
  by (simp add: emits_def)

lemma put_sel [simp]:
  "pointer (put bs s) = pointer s + length bs" "slength (put bs s) = slength s"
  "grants (put bs s) = grants s" "isOwner (put bs s) = isOwner s"
  by (simp_all add: put_def)

lemma put_nil [simp]: "put [] s = s"
  by (simp add: put_def overwrite_def)

lemma length_overwrite [simp]: "p + length bs \<le> length buf \<Longrightarrow> length (overwrite p bs buf) = length buf"
  by (simp add: overwrite_def)

lemma overwrite_overwrite:
  "p + length as + length bs \<le> length buf \<Longrightarrow>
     overwrite (p + length as) bs (overwrite p as buf) = overwrite p (as @ bs) buf"
  by (simp add: overwrite_def ac_simps)

lemma put_put: "room (length as + length bs) s \<Longrightarrow> put bs (put as s) = put (as @ bs) s"
  by (simp add: put_def room_def Stream_Capacity_def overwrite_overwrite add.assoc)

lemma capacity_put [simp]: "room (length bs) s \<Longrightarrow> Stream_Capacity (put bs s) = Stream_Capacity s"
  by (simp add: put_def room_def Stream_Capacity_def)

lemma room_less: "room n s \<Longrightarrow> m \<le> n \<Longrightarrow> room m s"
  by (simp add: room_def)

lemma room_put: "room (length as + n) s \<Longrightarrow> room n (put as s)"
proof -
  assume r: "room (length as + n) s"
  then have "room (length as) s" by (rule room_less) simp
  with r show ?thesis by (simp add: room_def capacity_put [unfolded room_def])
qed

lemma written_put: "room (length bs) s \<Longrightarrow> written (put bs s) = written s @ bs"
  by (simp add: written_def put_def room_def Stream_Capacity_def overwrite_def)

lemma emits_bindp:
  assumes m: "emits m as a" and k: "emits (k a) bs x"
  shows "emits (bindp m k) (as @ bs) x"
proof (rule emitsI)
  fix s assume r: "room (length (as @ bs)) s"
  then have "room (length as) s" by (rule room_less) simp
  with m have "m s = Ret a (put as s)" by (rule emitsD)
  moreover from r have "room (length bs) (put as s)" by (intro room_put) simp
  with k have "k a (put as s) = Ret x (put bs (put as s))" by (rule emitsD)
  ultimately show "bindp m k s = Ret x (put (as @ bs) s)" using r by (simp add: put_put)
qed

lemma emits_ret [emit_intros]: "emits (ret x) [] x"
  by (rule emitsI) simp

lemma emits_store: "emits (stream_store bs) bs ()"
  by (rule emitsI) (auto simp: stream_store_def stream_defs bindp_def room_def)

lemma emits_check [emit_intros]:
  assumes "n \<le> length bs" and "emits (k ()) bs x"
  shows "emits (bindp (Stream_CheckAndLogRequiredCapacity n) k) bs x"
proof (rule emitsI)
  fix s assume r: "room (length bs) s"
  with assms(1) have "Stream_CheckAndLogRequiredCapacity n s = Ret () s"
    by (auto simp: stream_defs bindp_def room_def)
  with r assms(2) show "bindp (Stream_CheckAndLogRequiredCapacity n) k s = Ret x (put bs s)"
    by (simp add: emitsD)
qed

lemma emits_ensure [emit_intros]:
  assumes "n \<le> length bs" and "emits (k ()) bs x"
  shows "emits (bindp (Stream_EnsureRemainingCapacity n) k) bs x"
proof (rule emitsI)
  fix s assume r: "room (length bs) s"
  with assms(1) have "Stream_EnsureRemainingCapacity n s = Ret () s"
    by (auto simp: Stream_EnsureRemainingCapacity_def stream_defs room_def Let_def)
  with r assms(2) show "bindp (Stream_EnsureRemainingCapacity n) k s = Ret x (put bs s)"
    by (simp add: emitsD)
qed

lemma emits_require [emit_intros]: "b \<Longrightarrow> emits (k ()) bs x \<Longrightarrow> emits (bindp (require b) k) bs x"
  by (rule emitsI) (simp add: emitsD)

lemma emits_assert [emit_intros]: "b \<Longrightarrow> emits (k ()) bs x \<Longrightarrow> emits (bindp (winpr_assert b) k) bs x"
  by (rule emitsI) (simp add: emitsD)

lemma emits_u8 [emit_intros]:
  assumes "emits (k ()) bs x"
  shows "emits (bindp (Stream_Write_UINT8_unchecked v) k) (v # bs) x"
  using emits_bindp [where k = k, OF emits_store [of "[v]"] assms]
  by (simp add: Stream_Write_UINT8_unchecked_def)

lemma emits_u8_checked [emit_intros]:
  assumes "n \<le> 255" and "emits (k ()) bs x"
  shows "emits (bindp (Stream_Write_UINT8 n) k) (of_nat n # bs) x"
  using assms unfolding Stream_Write_UINT8_def bindp_assoc by (intro emit_intros) simp_all

lemma emits_u16_be [emit_intros]:
  assumes "emits (k ()) bs x"
  shows "emits (bindp (Stream_Write_UINT16_BE_unchecked v) k) (winpr_Data_Write_UINT16_BE v @ bs) x"
  using emits_bindp [where k = k, OF emits_store assms] by (simp add: Stream_Write_UINT16_BE_unchecked_def)

lemma emits_u16_be_checked [emit_intros]:
  assumes "n \<le> UINT16_MAX" and "emits (k ()) bs x"
  shows "emits (bindp (Stream_Write_UINT16_BE n) k) (winpr_Data_Write_UINT16_BE (of_nat n) @ bs) x"
  using assms unfolding Stream_Write_UINT16_BE_def bindp_assoc by (intro emit_intros) simp_all

lemma emits_u16_le [emit_intros]:
  assumes "emits (k ()) bs x"
  shows "emits (bindp (Stream_Write_UINT16_unchecked v) k) (winpr_Data_Write_UINT16 v @ bs) x"
  using emits_bindp [where k = k, OF emits_store assms] by (simp add: Stream_Write_UINT16_unchecked_def)

lemma emits_u32_be [emit_intros]:
  assumes "emits (k ()) bs x"
  shows "emits (bindp (Stream_Write_UINT32_BE_unchecked v) k) (winpr_Data_Write_UINT32_BE v @ bs) x"
  using emits_bindp [where k = k, OF emits_store assms] by (simp add: Stream_Write_UINT32_BE_unchecked_def)

lemma emits_u32_le [emit_intros]:
  assumes "emits (k ()) bs x"
  shows "emits (bindp (Stream_Write_UINT32_unchecked v) k) (winpr_Data_Write_UINT32 v @ bs) x"
  using emits_bindp [where k = k, OF emits_store assms] by (simp add: Stream_Write_UINT32_unchecked_def)

lemma emits_write: "emits (Stream_Write bs) bs ()"
  by (auto simp: Stream_Write_def emits_store intro: emits_ret)

lemma emits_write_bindp [emit_intros]:
  "emits (k ()) bs x \<Longrightarrow> emits (bindp (Stream_Write as) k) (as @ bs) x"
  by (rule emits_bindp [OF emits_write])

lemma emits_zero [emit_intros]:
  "emits (k ()) bs x \<Longrightarrow> emits (bindp (Stream_Zero n) k) (replicate n 0 @ bs) x"
  unfolding Stream_Zero_def Stream_Fill_def by (rule emits_bindp [OF emits_store])

text \<open>A \<open>bindp\<close> with a final \<open>ret\<close> added, so that the rules above also apply to the last call.\<close>

lemma bindp_ret: "bindp m ret = m"
  by (rule ext) (simp add: bindp_def split: outcome.splits)

lemma emits_last: "emits (bindp m ret) bs x \<Longrightarrow> emits m bs x"
  by (simp only: bindp_ret)

lemma parses_last: "parses (bindp m ret) bs ys x \<Longrightarrow> parses m bs ys x"
  by (simp only: bindp_ret)

text \<open>The same rules where the read or the write is the last one.\<close>

lemmas [parse_intros] =
  parses_u16_be [where bs = "[]", simplified] parses_u16_le [where bs = "[]", simplified]
  parses_u32_be [where bs = "[]", simplified] parses_u32_le [where bs = "[]", simplified]
  parses_u8 [where k = ret, OF parses_ret, unfolded bindp_ret]
  parses_u16_be [where k = ret, OF parses_ret, unfolded bindp_ret, simplified]
  parses_u16_le [where k = ret, OF parses_ret, unfolded bindp_ret, simplified]
  parses_u32_be [where k = ret, OF parses_ret, unfolded bindp_ret, simplified]
  parses_u32_le [where k = ret, OF parses_ret, unfolded bindp_ret, simplified]

lemmas [emit_intros] =
  emits_u16_be [where bs = "[]", simplified] emits_u16_le [where bs = "[]", simplified]
  emits_u32_be [where bs = "[]", simplified] emits_u32_le [where bs = "[]", simplified]
  emits_u8 [where k = ret, OF emits_ret, unfolded bindp_ret]
  emits_u8_checked [where k = ret, OF _ emits_ret, unfolded bindp_ret]
  emits_u16_be [where k = ret, OF emits_ret, unfolded bindp_ret, simplified]
  emits_u16_be_checked [where k = ret, OF _ emits_ret, unfolded bindp_ret, simplified]
  emits_u16_le [where k = ret, OF emits_ret, unfolded bindp_ret, simplified]
  emits_u32_be [where k = ret, OF emits_ret, unfolded bindp_ret, simplified]
  emits_u32_le [where k = ret, OF emits_ret, unfolded bindp_ret, simplified]
  emits_write emits_zero [where k = ret, OF emits_ret, unfolded bindp_ret, simplified]

section \<open>Readers that cannot leave their input\<close>

text \<open>
  \<open>window B L p n s\<close>: the stream \<open>s\<close> still holds the buffer \<open>B\<close> with \<open>L\<close> valid bytes, it
  has not moved before \<open>p\<close>, and \<open>n\<close> more bytes have been checked to be there.
  \<open>reads_ok n m\<close>: with \<open>n\<close> checked bytes ahead \<open>m\<close> never trips an assertion, never
  writes, and never steps back before where it started or past the valid bytes.
\<close>

definition window :: "u8 list \<Rightarrow> nat \<Rightarrow> nat \<Rightarrow> nat \<Rightarrow> wStream \<Rightarrow> bool" where
  "window B L p n s \<longleftrightarrow> buffer s = B \<and> slength s = L \<and> L \<le> length B \<and> p \<le> pointer s \<and>
     pointer s + n \<le> L"

definition reads_ok :: "nat \<Rightarrow> 'a parser \<Rightarrow> bool" where
  "reads_ok n m \<longleftrightarrow> (\<forall>B L p. triple (window B L p n) m (\<lambda>_. window B L p 0) (window B L p 0))"

named_theorems reads_intros "readers that stay inside their input"

lemma window_mono: "window B L p n s \<Longrightarrow> k \<le> n \<Longrightarrow> window B L p k s"
  by (auto simp: window_def)

lemma reads_okI:
  assumes "\<And>B L p. triple (window B L p n) m (\<lambda>_. window B L p 0) (window B L p 0)"
  shows "reads_ok n m"
  using assms by (simp add: reads_ok_def)

lemma reads_okD: "reads_ok n m \<Longrightarrow> triple (window B L p n) m (\<lambda>_. window B L p 0) (window B L p 0)"
  by (simp add: reads_ok_def)

text \<open>One call after which \<open>k\<close> bytes are still known to be there.\<close>

lemma reads_step:
  assumes "\<And>B L p. triple (window B L p n) m (\<lambda>_. window B L p k) (window B L p 0)"
    and "\<And>x. reads_ok k (c x)"
  shows "reads_ok n (bindp m c)"
  by (rule reads_okI) (rule triple_bindp [OF assms(1) reads_okD [OF assms(2)]])

lemma reads_weaken: "reads_ok n m \<Longrightarrow> n \<le> n' \<Longrightarrow> reads_ok n' m"
  unfolding reads_ok_def by (blast intro: triple_weaken window_mono)

lemma reads_call:
  assumes "reads_ok 0 m" and "\<And>x. reads_ok 0 (c x)"
  shows "reads_ok n (bindp m c)"
  by (rule reads_weaken [OF reads_step [OF reads_okD [OF assms(1)] assms(2)]]) simp

lemma reads_ret [reads_intros]: "reads_ok n (ret x)"
  by (auto simp: reads_ok_def triple_def intro: window_mono)

lemma reads_fail [reads_intros]: "reads_ok n fail"
  by (auto simp: reads_ok_def triple_def intro: window_mono)

lemma reads_require [reads_intros]: "reads_ok n (require b)"
  by (auto simp: reads_ok_def triple_def intro: window_mono)

lemma reads_require_bindp [reads_intros]:
  "(b \<Longrightarrow> reads_ok n (c ())) \<Longrightarrow> reads_ok n (bindp (require b) c)"
  unfolding reads_ok_def triple_def by (cases b) (auto intro: window_mono)

lemma reads_if [reads_intros]:
  "(b \<Longrightarrow> reads_ok n m) \<Longrightarrow> (\<not> b \<Longrightarrow> reads_ok n m') \<Longrightarrow> reads_ok n (if b then m else m')"
  by simp

lemma reads_let [reads_intros]: "reads_ok n (k v) \<Longrightarrow> reads_ok n (let y = v in k y)"
  by simp

lemma reads_check [reads_intros]: "reads_ok n (Stream_CheckAndLogRequiredLength c)"
  by (auto simp: reads_ok_def triple_def window_def stream_defs bindp_def)

lemma reads_check_bindp [reads_intros]:
  "reads_ok c (k ()) \<Longrightarrow> reads_ok n (bindp (Stream_CheckAndLogRequiredLength c) k)"
  by (rule reads_step [where k = c]) (auto simp: triple_def window_def stream_defs bindp_def)

lemma reads_seek [reads_intros]: "n \<le> c \<Longrightarrow> reads_ok c (Stream_Seek n)"
  by (auto simp: reads_ok_def triple_def window_def stream_defs bindp_def)

lemma reads_seek_bindp [reads_intros]:
  "n \<le> c \<Longrightarrow> reads_ok (c - n) (k ()) \<Longrightarrow> reads_ok c (bindp (Stream_Seek n) k)"
  by (rule reads_step [where k = "c - n"]) (auto simp: triple_def window_def stream_defs bindp_def)

lemma reads_safeseek [reads_intros]: "reads_ok n (Stream_SafeSeek c)"
  unfolding Stream_SafeSeek_def by (intro reads_intros) simp

lemmas [reads_intros] = reads_call [OF reads_safeseek]

lemma reads_stream_read: "w \<le> c \<Longrightarrow> reads_ok c (stream_read w d b)"
  by (auto simp: reads_ok_def triple_def window_def stream_defs bindp_def stream_read_def Let_def)

lemma reads_stream_read_bindp:
  "w \<le> c \<Longrightarrow> (\<And>x. reads_ok (if b then c - w else c) (k x)) \<Longrightarrow> reads_ok c (bindp (stream_read w d b) k)"
  by (rule reads_step [where k = "if b then c - w else c"])
     (auto simp: triple_def window_def stream_defs bindp_def stream_read_def Let_def)

lemmas [reads_intros] =
  reads_stream_read [of 1 _ hd, folded stream_read_u8_def]
  reads_stream_read [of 2 _ winpr_Data_Get_UINT16, folded stream_read_u16_le_def]
  reads_stream_read [of 2 _ winpr_Data_Get_UINT16_BE, folded stream_read_u16_be_def]
  reads_stream_read [of 4 _ winpr_Data_Get_UINT32, folded stream_read_u32_le_def]
  reads_stream_read [of 4 _ winpr_Data_Get_UINT32_BE, folded stream_read_u32_be_def]
  reads_stream_read_bindp [of 1 _ True _ hd, folded stream_read_u8_def, simplified]
  reads_stream_read_bindp [of 1 _ False _ hd, folded stream_read_u8_def, simplified]
  reads_stream_read_bindp [of 2 _ True _ winpr_Data_Get_UINT16, folded stream_read_u16_le_def, simplified]
  reads_stream_read_bindp [of 2 _ True _ winpr_Data_Get_UINT16_BE, folded stream_read_u16_be_def, simplified]
  reads_stream_read_bindp [of 4 _ True _ winpr_Data_Get_UINT32, folded stream_read_u32_le_def, simplified]
  reads_stream_read_bindp [of 4 _ True _ winpr_Data_Get_UINT32_BE, folded stream_read_u32_be_def, simplified]

lemma reads_Read [reads_intros]: "n \<le> c \<Longrightarrow> reads_ok c (Stream_Read n)"
  by (auto simp: reads_ok_def triple_def window_def stream_defs bindp_def Stream_Read_def Stream_Peek_def)

lemma reads_Read_bindp [reads_intros]:
  "n \<le> c \<Longrightarrow> (\<And>x. reads_ok (c - n) (k x)) \<Longrightarrow> reads_ok c (bindp (Stream_Read n) k)"
  by (rule reads_step [where k = "c - n"])
     (auto simp: triple_def window_def stream_defs bindp_def Stream_Read_def Stream_Peek_def)

lemma reads_remaining_bindp [reads_intros]:
  assumes "\<And>rem. reads_ok rem (k rem)"
  shows "reads_ok n (bindp Stream_GetRemainingLength k)"
proof (rule reads_okI, rule tripleI)
  fix B L p s assume w: "window B L p n s"
  then have r: "Stream_GetRemainingLength s = Ret (slength s - pointer s) s"
    by (auto simp: window_def stream_defs)
  from w have "window B L p (slength s - pointer s) s" by (auto simp: window_def)
  from tripleD [OF reads_okD [OF assms] this]
  show "case bindp Stream_GetRemainingLength k s of Abort \<Rightarrow> False | Fail t \<Rightarrow> window B L p 0 t
      | Ret x t \<Rightarrow> window B L p 0 t"
    using r by simp
qed

text \<open>What the judgement gives for a whole reader, started on any well-formed stream.\<close>

lemma reads_ok_total:
  assumes "reads_ok 0 m" and "wf_stream s"
  shows "m s \<noteq> Abort"
    and "m s = Ret x t \<Longrightarrow> wf_stream t \<and> buffer t = buffer s \<and> slength t = slength s \<and> pointer s \<le> pointer t"
    and "m s = Fail t \<Longrightarrow> wf_stream t \<and> buffer t = buffer s \<and> slength t = slength s \<and> pointer s \<le> pointer t"
proof -
  have w: "window (buffer s) (slength s) (pointer s) 0 s"
    using assms(2) by (auto simp: window_def wf_stream_def)
  have t: "triple (window (buffer s) (slength s) (pointer s) 0) m
      (\<lambda>_. window (buffer s) (slength s) (pointer s) 0) (window (buffer s) (slength s) (pointer s) 0)"
    using assms(1) by (rule reads_okD)
  show "m s \<noteq> Abort" using t w by (rule triple_not_Abort)
  show "wf_stream t \<and> buffer t = buffer s \<and> slength t = slength s \<and> pointer s \<le> pointer t"
    if "m s = Ret x t"
    using triple_Ret [OF t w that] assms(2) by (auto simp: window_def wf_stream_def)
  show "wf_stream t \<and> buffer t = buffer s \<and> slength t = slength s \<and> pointer s \<le> pointer t"
    if "m s = Fail t"
    using triple_Fail [OF t w that] assms(2) by (auto simp: window_def wf_stream_def)
qed

text \<open>The same as a test of one run of a reader.\<close>

definition read_inside :: "wStream \<Rightarrow> ('a, wStream) outcome \<Rightarrow> bool" where
  "read_inside s r \<longleftrightarrow>
     (case r of
        Abort \<Rightarrow> False
      | Fail t \<Rightarrow> wf_stream t \<and> buffer t = buffer s \<and> slength t = slength s \<and> pointer s \<le> pointer t
      | Ret _ t \<Rightarrow> wf_stream t \<and> buffer t = buffer s \<and> slength t = slength s \<and> pointer s \<le> pointer t)"

lemma reads_inside:
  assumes "reads_ok 0 m" and "wf_stream s"
  shows "read_inside s (m s)"
proof (cases "m s")
  case Abort
  with reads_ok_total(1) [OF assms] show ?thesis by blast
next
  case (Fail t)
  from reads_ok_total(3) [OF assms Fail] Fail show ?thesis by (simp add: read_inside_def)
next
  case (Ret x t)
  from reads_ok_total(2) [OF assms Ret] Ret show ?thesis by (simp add: read_inside_def)
qed

section \<open>Growing for a writer\<close>

text \<open>A successful call leaves room for \<open>n\<close> bytes behind the pointer and everything else that was
  in the buffer where it was.\<close>

lemma ensure_remaining_ok:
  assumes "pointer s \<le> Stream_Capacity s" and "Stream_Capacity s + n + 128 \<le> SIZE_MAX"
  shows "Stream_EnsureRemainingCapacity n s =
     (if pointer s + n \<le> Stream_Capacity s then Ret () s
      else if \<not> grants s (grown_capacity (Stream_Capacity s + n)) then Fail s
      else Ret () (s\<lparr>buffer := buffer s @ replicate (grown_capacity (Stream_Capacity s + n) - Stream_Capacity s) 0,
                     slength := grown_capacity (Stream_Capacity s + n), isOwner := True\<rparr>))"
proof -
  let ?c = "Stream_Capacity s + n"
  have "?c mod (SIZE_MAX + 1) = ?c" using assms(2) by (intro mod_less) linarith
  moreover have "\<not> pointer s > SIZE_MAX - n" "\<not> ?c > SIZE_MAX - 128" using assms by linarith+
  moreover have "?c \<le> Stream_Capacity s \<Longrightarrow> pointer s + n \<le> Stream_Capacity s" using assms(1) by linarith
  moreover have "(Stream_Capacity (s\<lparr>buffer := buffer s @ xs, slength := l, isOwner := b\<rparr>) < pointer s) = False" for xs l b
    using assms(1) by (simp add: Stream_Capacity_def)
  ultimately show ?thesis
    unfolding Stream_EnsureRemainingCapacity_def Stream_EnsureCapacity_def Stream_GetPosition_def
      Stream_SetPosition_def Let_def
    by (simp only: if_False if_True not_le not_less split: if_split) auto
qed

section \<open>Writer and reader of one format\<close>

text \<open>Writing at the start of a stream, sealing it, and reading it back from the start.\<close>

definition write_then_read :: "'r parser \<Rightarrow> 'a parser \<Rightarrow> 'a parser" where
  "write_then_read w r =
     bindp w (\<lambda>_. bindp Stream_SealLength (\<lambda>_. bindp Stream_ResetPosition (\<lambda>_. r)))"

fun write_all :: "('a \<Rightarrow> 'r parser) \<Rightarrow> 'a list \<Rightarrow> unit parser" where
  "write_all w [] = ret ()"
| "write_all w (x # xs) = bindp (w x) (\<lambda>_. write_all w xs)"

fun read_n :: "'a parser \<Rightarrow> nat \<Rightarrow> 'a list parser" where
  "read_n r 0 = ret []"
| "read_n r (Suc n) = bindp r (\<lambda>x. bindp (read_n r n) (\<lambda>xs. ret (x # xs)))"

lemma write_then_read_Ret:
  assumes w: "emits w bs z" and r: "parses r bs [] x" and room: "room (length bs) s"
    and start: "pointer s = 0"
  shows "\<exists>t. write_then_read w r s = Ret x t \<and> rest t = []"
proof -
  have 1: "w s = Ret z (put bs s)" using w room by (rule emitsD)
  let ?t = "(put bs s)\<lparr>slength := length bs, pointer := 0\<rparr>"
  have t: "wf_stream ?t" "rest ?t = bs @ []"
    using room start by (auto simp: wf_stream_def rest_def room_def put_def overwrite_def Stream_Capacity_def)
  have 2: "r ?t = Ret x (adv (length bs) ?t)" using r t by (rule parsesD)
  have 3: "length bs \<le> Stream_Capacity (put bs s)" using room start by (simp, simp add: room_def)
  have 4: "rest (adv (length bs) ?t) = []" using t(2) by (simp add: rest_adv)
  from 1 2 3 start have "write_then_read w r s = Ret x (adv (length bs) ?t)"
    by (simp add: write_then_read_def bindp_def Stream_SealLength_def Stream_ResetPosition_def)
  with 4 show ?thesis by blast
qed

locale wire_format =
  fixes wr :: "'a \<Rightarrow> 'r parser" and rd :: "'a parser"
    and enc :: "'a \<Rightarrow> u8 list" and valid :: "'a \<Rightarrow> bool"
  assumes wr_emits: "valid x \<Longrightarrow> \<exists>r. emits (wr x) (enc x) r"
    and rd_parses: "valid x \<Longrightarrow> parses rd (enc x) ys x"
begin

lemma roundtrip:
  assumes "valid x" and "pointer s = 0" and "room (length (enc x)) s"
  shows "\<exists>t. write_then_read (wr x) rd s = Ret x t \<and> rest t = []"
proof -
  from wr_emits [OF assms(1)] obtain r where "emits (wr x) (enc x) r" ..
  then show ?thesis using rd_parses [OF assms(1)] assms(3,2) by (rule write_then_read_Ret)
qed

lemma write_all_emits:
  "\<forall>x \<in> set xs. valid x \<Longrightarrow> emits (write_all wr xs) (concat (map enc xs)) ()"
proof (induction xs)
  case Nil
  show ?case by (simp add: emits_ret)
next
  case (Cons x xs)
  from Cons.prems wr_emits obtain r where "emits (wr x) (enc x) r" by auto
  with Cons show ?case by (auto intro: emits_bindp)
qed

lemma read_n_parses:
  "\<forall>x \<in> set xs. valid x \<Longrightarrow> parses (read_n rd (length xs)) (concat (map enc xs)) ys xs"
proof (induction xs arbitrary: ys)
  case Nil
  show ?case by (simp add: parses_ret)
next
  case (Cons x xs)
  then have "parses (bindp (read_n rd (length xs)) (\<lambda>xs. ret (x # xs))) (concat (map enc xs) @ []) ys (x # xs)"
    by (intro parses_bindp [where k = "\<lambda>xs. ret (x # xs)"]) (auto intro: parses_ret)
  moreover have "parses rd (enc x) (concat (map enc xs) @ ys) x"
    using Cons.prems by (simp add: rd_parses)
  ultimately show ?case by (auto intro: parses_bindp)
qed

lemma roundtrip_all:
  assumes "\<forall>x \<in> set xs. valid x" and "pointer s = 0" and "room (length (concat (map enc xs))) s"
  shows "\<exists>t. write_then_read (write_all wr xs) (read_n rd (length xs)) s = Ret xs t \<and> rest t = []"
  using write_all_emits [OF assms(1)] read_n_parses [OF assms(1)] assms(3,2)
  by (rule write_then_read_Ret)

text \<open>The encodings of two different values differ: no encoding is a prefix of another.\<close>

lemma enc_inj:
  assumes "valid x" and "valid y" and "enc x @ as = enc y @ bs" and "length (enc x @ as) \<le> SIZE_MAX"
  shows "x = y"
proof -
  let ?s = "Stream_StaticInit (\<lambda>_. False) (enc x @ as)"
  have wf: "wf_stream ?s" and r: "rest ?s = enc x @ as"
    using assms(4) by (simp_all add: wf_stream_def rest_def Stream_StaticInit_def)
  have "rd ?s = Ret x (adv (length (enc x)) ?s)"
    by (rule parsesD [OF rd_parses [OF assms(1)] wf r])
  moreover have "rd ?s = Ret y (adv (length (enc y)) ?s)"
    using rd_parses [OF assms(2), of bs] wf r assms(3) by (simp add: parsesD)
  ultimately show ?thesis by simp
qed

end

end
