(* ===== verification/Tpkt.thy ===== *)
theory Tpkt
  imports Wire
begin

text \<open>
  The outer framing of every slow-path packet: the TPKT header of
  \<^verbatim>\<open>libfreerdp/core/tpkt.c\<close> and the X.224 TPDU header of \<^verbatim>\<open>libfreerdp/core/tpdu.c\<close>, with
  memory safety of the readers, the bytes the writers produce, and what the readers
  promise about the bytes behind the header.
\<close>

unbundle bit_operations_syntax

section \<open>TPKT\<close>

definition TPKT_HEADER_LENGTH :: nat where "TPKT_HEADER_LENGTH = 4"

definition tpkt_verify_header :: "int parser" where
  "tpkt_verify_header s =
     (case Stream_CheckAndLogRequiredLength 1 s of
        Abort \<Rightarrow> Abort
      | Fail t \<Rightarrow> Ret (-1) t
      | Ret _ t \<Rightarrow> bindp Stream_Peek_UINT8 (\<lambda>version. ret (if version = 3 then 1 else 0)) t)"

text \<open>The length is 0 when the first byte is not the TPKT version.\<close>

definition tpkt_read_header :: "u16 parser" where
  "tpkt_read_header =
     bindp (Stream_CheckAndLogRequiredLength 1) (\<lambda>_.
     bindp Stream_Peek_UINT8 (\<lambda>version.
       if version = 3 then
         bindp (Stream_CheckAndLogRequiredLength 4) (\<lambda>_.
         bindp (Stream_Seek 2) (\<lambda>_.
         bindp Stream_Read_UINT16_BE (\<lambda>len.
         bindp (require (\<not> len < 7)) (\<lambda>_.
         bindp (Stream_CheckAndLogRequiredLength (unat len - 4)) (\<lambda>_. ret len)))))
       else ret 0))"

definition tpkt_ensure_stream_consumed :: "nat \<Rightarrow> unit parser" where
  "tpkt_ensure_stream_consumed len =
     bindp (require (\<not> len > UINT16_MAX)) (\<lambda>_.
     bindp Stream_GetRemainingLength (\<lambda>rem. require (\<not> rem > 0)))"

definition tpkt_write_header :: "nat \<Rightarrow> unit parser" where
  "tpkt_write_header len =
     bindp (Stream_CheckAndLogRequiredCapacity 4) (\<lambda>_.
     bindp (Stream_Write_UINT8 3) (\<lambda>_.
     bindp (Stream_Write_UINT8 0) (\<lambda>_.
     bindp (winpr_assert (len \<le> UINT16_MAX)) (\<lambda>_.
     Stream_Write_UINT16_BE (len mod 65536)))))"

section \<open>TPDU\<close>

definition X224_TPDU_CONNECTION_REQUEST :: u8 where "X224_TPDU_CONNECTION_REQUEST = 0xE0"
definition X224_TPDU_CONNECTION_CONFIRM :: u8 where "X224_TPDU_CONNECTION_CONFIRM = 0xD0"
definition X224_TPDU_DISCONNECT_REQUEST :: u8 where "X224_TPDU_DISCONNECT_REQUEST = 0x80"
definition X224_TPDU_DATA :: u8 where "X224_TPDU_DATA = 0xF0"
definition X224_TPDU_ERROR :: u8 where "X224_TPDU_ERROR = 0x70"

named_theorems tpdu_codes "the TPDU codes"

lemmas [tpdu_codes] = X224_TPDU_CONNECTION_REQUEST_def X224_TPDU_CONNECTION_CONFIRM_def
  X224_TPDU_DISCONNECT_REQUEST_def X224_TPDU_DATA_def X224_TPDU_ERROR_def

definition tpdu_read_header :: "u16 \<Rightarrow> (u8 \<times> u8) parser" where
  "tpdu_read_header tpktlength =
     bindp (Stream_CheckAndLogRequiredLength 3) (\<lambda>_.
     bindp Stream_Read_UINT8 (\<lambda>li.
     bindp Stream_Read_UINT8 (\<lambda>code.
     bindp (require (\<not> unat li + 4 > unat tpktlength)) (\<lambda>_.
       if code = X224_TPDU_DATA then bindp (Stream_Seek 1) (\<lambda>_. ret (code, li))
       else bindp (Stream_SafeSeek 5) (\<lambda>_. ret (code, li))))))"

definition tpdu_write_header :: "u16 \<Rightarrow> u8 \<Rightarrow> unit parser" where
  "tpdu_write_header len code =
     bindp (Stream_CheckAndLogRequiredCapacity 3) (\<lambda>_.
     bindp (winpr_assert (unat len \<le> 255)) (\<lambda>_.
     bindp (Stream_Write_UINT8_unchecked (ucast len)) (\<lambda>_.
     bindp (Stream_Write_UINT8_unchecked code) (\<lambda>_.
       if code = X224_TPDU_DATA then Stream_Write_UINT8 0x80
       else
         bindp (Stream_CheckAndLogRequiredCapacity 5) (\<lambda>_.
         bindp (Stream_Write_UINT16_unchecked 0) (\<lambda>_.
         bindp (Stream_Write_UINT16_unchecked 0) (\<lambda>_.
         Stream_Write_UINT8 0)))))))"

definition tpdu_read_connection_request :: "u16 \<Rightarrow> u8 parser" where
  "tpdu_read_connection_request tpktlength =
     bindp (tpdu_read_header tpktlength) (\<lambda>(code, li).
     bindp (require (code = X224_TPDU_CONNECTION_REQUEST)) (\<lambda>_. ret li))"

definition tpdu_write_connection_request :: "u16 \<Rightarrow> unit parser" where
  "tpdu_write_connection_request len = tpdu_write_header len X224_TPDU_CONNECTION_REQUEST"

text \<open>\<^verbatim>\<open>*li - bytes_read\<close> is computed in \<^verbatim>\<open>size_t\<close> and wraps when the length indicator is
  smaller than what was read.\<close>

definition tpdu_read_connection_confirm :: "u16 \<Rightarrow> u8 parser" where
  "tpdu_read_connection_confirm tpktlength s =
     (let position = Stream_GetPosition s in
      bindp (tpdu_read_header tpktlength) (\<lambda>(code, li).
      bindp (require (code = X224_TPDU_CONNECTION_CONFIRM)) (\<lambda>_ t.
        let bytes_read = (Stream_GetPosition t - position) - 1 in
        bindp (Stream_CheckAndLogRequiredLength
                 ((SIZE_MAX + 1 + unat li - bytes_read) mod (SIZE_MAX + 1))) (\<lambda>_. ret li) t)) s)"

definition tpdu_write_connection_confirm :: "u16 \<Rightarrow> unit parser" where
  "tpdu_write_connection_confirm len = tpdu_write_header len X224_TPDU_CONNECTION_CONFIRM"

definition tpdu_write_disconnect_request :: "u16 \<Rightarrow> unit parser" where
  "tpdu_write_disconnect_request len = tpdu_write_header len X224_TPDU_DISCONNECT_REQUEST"

definition tpdu_write_data :: "unit parser" where
  "tpdu_write_data = tpdu_write_header 2 X224_TPDU_DATA"

definition tpdu_read_data :: "u16 \<Rightarrow> u16 parser" where
  "tpdu_read_data tpktlength =
     bindp (tpdu_read_header tpktlength) (\<lambda>(code, li).
     bindp (require (code = X224_TPDU_DATA)) (\<lambda>_. ret (ucast li)))"

section \<open>The readers stay inside their input\<close>

lemma reads_tpkt_header [reads_intros]: "reads_ok n tpkt_read_header"
  unfolding tpkt_read_header_def by (intro reads_intros) simp_all

lemma reads_tpdu_header [reads_intros]: "reads_ok n (tpdu_read_header l)"
  unfolding tpdu_read_header_def by (intro reads_intros) simp_all

lemmas [reads_intros] = reads_call [OF reads_tpkt_header] reads_call [OF reads_tpdu_header]

lemma reads_case_prod [reads_intros]: "(\<And>a b. reads_ok n (f a b)) \<Longrightarrow> reads_ok n (case x of (a, b) \<Rightarrow> f a b)"
  by (cases x) simp

lemma reads_tpdu_connection_request [reads_intros]: "reads_ok n (tpdu_read_connection_request l)"
  unfolding tpdu_read_connection_request_def by (intro reads_intros)

lemma reads_tpdu_data [reads_intros]: "reads_ok n (tpdu_read_data l)"
  unfolding tpdu_read_data_def by (intro reads_intros)

lemma reads_state_fun:
  "(\<And>u. reads_ok n (m u)) \<Longrightarrow> reads_ok n (\<lambda>s. m s s)"
  unfolding reads_ok_def triple_def by blast

lemma reads_tpdu_connection_confirm [reads_intros]: "reads_ok n (tpdu_read_connection_confirm l)"
  unfolding tpdu_read_connection_confirm_def Let_def
  by (rule reads_state_fun, intro reads_intros, rule reads_state_fun, intro reads_intros)

lemmas [reads_intros] = reads_call [OF reads_tpdu_connection_request]
  reads_call [OF reads_tpdu_data] reads_call [OF reads_tpdu_connection_confirm]

section \<open>Formats\<close>

definition enc_tpkt :: "nat \<Rightarrow> u8 list" where
  "enc_tpkt len = 3 # 0 # winpr_Data_Write_UINT16_BE (of_nat len)"

lemma length_enc_tpkt [simp]: "length (enc_tpkt len) = TPKT_HEADER_LENGTH"
  by (simp add: enc_tpkt_def TPKT_HEADER_LENGTH_def)

lemma emits_tpkt [emit_intros]:
  "len \<le> UINT16_MAX \<Longrightarrow> emits (k ()) bs x \<Longrightarrow> emits (bindp (tpkt_write_header len) k) (enc_tpkt len @ bs) x"
  unfolding tpkt_write_header_def enc_tpkt_def bindp_assoc append.simps
  by (rule emits_check, simp, simp add: emits_u8_checked [of 3, simplified] emits_u8_checked [of 0, simplified]
      emits_assert emits_u16_be_checked UINT16_MAX_def)

lemma parses_tpkt [parse_intros]:
  assumes "7 \<le> len" and "len \<le> UINT16_MAX" and "len - 4 \<le> length bs + length ys"
    and "parses (k (of_nat len)) bs ys x"
  shows "parses (bindp tpkt_read_header k) (enc_tpkt len @ bs) ys x"
proof -
  have u: "unat (of_nat len :: u16) = len" using assms(2)
    by (simp add: unat_of_nat take_bit_nat_eq_self UINT16_MAX_def)
  have 7: "\<not> (of_nat len :: u16) < 7" using assms(1) by (simp add: word_less_nat_alt u)
  have "parses (bindp (Stream_Seek 2) (\<lambda>_. bindp Stream_Read_UINT16_BE (\<lambda>len.
     bindp (require (\<not> len < 7)) (\<lambda>_.
     bindp (Stream_CheckAndLogRequiredLength (unat len - 4)) (\<lambda>_. k len)))))
     ([3, 0] @ winpr_Data_Write_UINT16_BE (of_nat len) @ bs) ys x"
    by (rule parses_seek_bindp, simp, rule parses_u16_be, rule parses_require [OF 7], rule parses_check)
       (use assms u in auto)
  then show ?thesis
    unfolding tpkt_read_header_def enc_tpkt_def bindp_assoc append.simps
    by (intro parses_check parses_peek_u8) (auto simp: bindp_assoc intro!: parses_check)
qed

text \<open>What the packet framing means for the unread bytes, without the stream.\<close>

fun tpkt_spec :: "u8 list \<Rightarrow> u16 option" where
  "tpkt_spec [] = None"
| "tpkt_spec (version # bs) =
     (if version \<noteq> 3 then Some 0
      else case bs of
        reserved # hi # lo # payload \<Rightarrow>
          (let len = winpr_Data_Get_UINT16_BE [hi, lo] in
           if len < 7 \<or> unat len - 4 > length payload then None else Some len)
      | _ \<Rightarrow> None)"

lemma tpkt_header_refines:
  assumes wf: "wf_stream s"
  shows "case tpkt_spec (rest s) of
           None \<Rightarrow> \<exists>t. tpkt_read_header s = Fail t
         | Some len \<Rightarrow> tpkt_read_header s = Ret len (if len = 0 then s else adv TPKT_HEADER_LENGTH s)"
proof (cases "rest s")
  case Nil
  with wf show ?thesis by (simp add: tpkt_read_header_def bindp_def check_wf)
next
  case (Cons v bs)
  note peek = read_u8_wf(2) [OF wf Cons]
  show ?thesis
  proof (cases "v = 3 \<and> length bs \<ge> 3")
    case False
    with Cons peek show ?thesis
      by (auto simp: tpkt_read_header_def bindp_def check_wf [OF wf] split: list.splits)
  next
    case True
    then obtain r hi lo payload where bs: "bs = r # hi # lo # payload"
      by (auto simp: numeral_eq_Suc Suc_le_length_iff)
    let ?len = "winpr_Data_Get_UINT16_BE [hi, lo]"
    have s2: "wf_stream (adv 2 s)" "rest (adv 2 s) = hi # lo # payload"
      and s4: "wf_stream (adv 4 s)" "rest (adv 4 s) = payload"
      using wf Cons bs by (simp_all add: wf_adv rest_adv)
    show ?thesis
      using True Cons bs peek read_u16_be_wf [OF s2] s4
      by (auto simp: tpkt_read_header_def bindp_def check_wf [OF wf] check_wf [OF s4(1)]
          seek_wf [OF wf] Let_def TPKT_HEADER_LENGTH_def)
  qed
qed

subsection \<open>TPDU\<close>

definition enc_tpdu :: "u16 \<Rightarrow> u8 \<Rightarrow> u8 list" where
  "enc_tpdu len code = ucast len # code # (if code = X224_TPDU_DATA then [0x80] else replicate 5 0)"

lemma le_zero: "winpr_Data_Write_UINT16 0 = [0, 0]"
  by (simp add: winpr_Data_Write_UINT16_def)

lemma emits_tpdu_header [emit_intros]:
  assumes "unat len \<le> 255" and "emits (k ()) bs x"
  shows "emits (bindp (tpdu_write_header len code) k) (enc_tpdu len code @ bs) x"
proof (rule emits_bindp [where k = k, OF _ assms(2)])
  have "emits (tpdu_write_header len code)
      (ucast len # code # (if code = X224_TPDU_DATA then [0x80] else
         winpr_Data_Write_UINT16 0 @ winpr_Data_Write_UINT16 0 @ [of_nat 0])) ()"
    using assms(1) unfolding tpdu_write_header_def
    by (auto intro!: emit_intros emits_u8_checked [of 0, where k = ret, OF _ emits_ret, unfolded bindp_ret, simplified]
        emits_u8_checked [of 128, where k = ret, OF _ emits_ret, unfolded bindp_ret, simplified])
  then show "emits (tpdu_write_header len code) (enc_tpdu len code) ()"
    by (simp add: enc_tpdu_def le_zero numeral_eq_Suc cong: if_cong)
qed

lemma parses_tpdu_header [parse_intros]:
  assumes "unat len \<le> 255" and "unat len + 4 \<le> unat tpktlength" and "parses (k (code, ucast len)) bs ys x"
  shows "parses (bindp (tpdu_read_header tpktlength) k) (enc_tpdu len code @ bs) ys x"
proof (rule parses_bindp [where k = k, OF _ assms(3)])
  let ?tail = "if code = X224_TPDU_DATA then [0x80 :: u8] else replicate 5 0"
  have l: "unat (ucast len :: u8) = unat len" using assms(1) by (intro ucast_le_byte) simp
  have "parses (if code = X224_TPDU_DATA then bindp (Stream_Seek 1) (\<lambda>_. ret (code, ucast len))
       else bindp (Stream_SafeSeek 5) (\<lambda>_. ret (code, ucast len))) ?tail (bs @ ys) (code, ucast len)"
    using parses_seek_bindp [of "[0x80]" 1 "\<lambda>_. ret (code, ucast len)", OF _ parses_ret]
      parses_seek_bindp [of "replicate 5 0" 5 "\<lambda>_. ret (code, ucast len)", OF _ parses_ret]
    by (auto simp: Stream_SafeSeek_def bindp_assoc intro!: parses_check)
  then show "parses (tpdu_read_header tpktlength) (enc_tpdu len code) (bs @ ys) (code, ucast len)"
    unfolding tpdu_read_header_def enc_tpdu_def using assms(2) l
    by (intro parses_check parses_u8 parses_require) auto
qed

text \<open>The header of a data packet: TPKT of the total length, then the data TPDU.\<close>

definition enc_data_header :: "nat \<Rightarrow> u8 list" where
  "enc_data_header len = enc_tpkt len @ enc_tpdu 2 X224_TPDU_DATA"

lemma length_enc_data_header [simp]: "length (enc_data_header len) = 7"
  by (simp add: enc_data_header_def enc_tpdu_def TPKT_HEADER_LENGTH_def)

section \<open>The end of a packet\<close>

lemma reads_tpkt_verify_header [reads_intros]: "reads_ok n tpkt_verify_header"
  by (auto simp: reads_ok_def triple_def window_def tpkt_verify_header_def stream_read_u8_def stream_read_def
      stream_defs bindp_def Let_def)

lemma reads_ensure_consumed [reads_intros]: "reads_ok n (tpkt_ensure_stream_consumed len)"
  unfolding tpkt_ensure_stream_consumed_def by (intro reads_intros)

lemma reads_assert_bindp [reads_intros]:
  "b \<Longrightarrow> reads_ok n (c ()) \<Longrightarrow> reads_ok n (bindp (winpr_assert b) c)"
  by (simp add: winpr_assert_def)

lemma parses_ensure_consumed [parse_intros]:
  assumes "len \<le> UINT16_MAX"
  shows "parses (tpkt_ensure_stream_consumed len) [] [] ()"
proof (rule parsesI)
  fix s assume "wf_stream s" "rest s = [] @ []"
  then have "pointer s = slength s" "slength s \<le> Stream_Capacity s"
    using rest_prefix_bound [of s "[]" "[]"] by (auto simp: wf_stream_def Stream_Capacity_def)
  with assms show "tpkt_ensure_stream_consumed len s = Ret () (adv (length []) s)"
    by (simp add: tpkt_ensure_stream_consumed_def bindp_def stream_defs)
qed

lemma parses_ensure_consumed_bindp [parse_intros]:
  "len \<le> UINT16_MAX \<Longrightarrow> parses (k ()) [] [] x \<Longrightarrow> parses (bindp (tpkt_ensure_stream_consumed len) k) [] [] x"
  using parses_bindp [of "tpkt_ensure_stream_consumed len" "[]" "[]" "[]" "()" k x]
    parses_ensure_consumed [of len] by simp

end
