(* ===== verification/Handler.thy ===== *)
theory Handler
  imports Tpkt
begin

text \<open>
  Handlers of a packet: programs over the state of a component and the stream that holds the
  packet. \<open>handler_ok\<close> is the judgement \<open>reads_ok\<close> for them, and \<open>inside\<close> what it means for one run.
\<close>

definition on_stream :: "'a parser \<Rightarrow> ('a, 'm \<times> wStream) prog" where
  "on_stream m = (\<lambda>(c, s). case m s of
     Abort \<Rightarrow> Abort | Fail t \<Rightarrow> Fail (c, t) | Ret x t \<Rightarrow> Ret x (c, t))"

lemma on_stream_bindp: "on_stream (bindp m k) = bindp (on_stream m) (\<lambda>x. on_stream (k x))"
  by (rule ext) (auto simp: on_stream_def bindp_def split: outcome.splits)

text \<open>The part of a handler that only changes the state of the component.\<close>

definition on_state :: "('m \<Rightarrow> 'm) \<Rightarrow> (unit, 'm \<times> wStream) prog" where
  "on_state f = (\<lambda>(c, s). Ret () (f c, s))"

named_theorems handler_intros "handlers that stay inside their packet"

text \<open>A handler that does what \<open>on_stream\<close> allows keeps the judgement on the stream.\<close>

definition handler_ok :: "('a, 'm \<times> wStream) prog \<Rightarrow> bool" where
  "handler_ok m \<longleftrightarrow> (\<forall>B L p. triple (\<lambda>(c, s). window B L p 0 s) m
     (\<lambda>_ (c, s). window B L p 0 s) (\<lambda>(c, s). window B L p 0 s))"

lemma handler_on_stream [handler_intros]: "reads_ok 0 m \<Longrightarrow> handler_ok (on_stream m)"
proof (unfold handler_ok_def, intro allI tripleI)
  fix B L p and cs :: "'m \<times> wStream"
  assume ok: "reads_ok 0 m" and w: "case cs of (c, s) \<Rightarrow> window B L p 0 s"
  obtain c s where cs: "cs = (c, s)" by (cases cs)
  with w have "case m s of Abort \<Rightarrow> False | Fail t \<Rightarrow> window B L p 0 t | Ret x t \<Rightarrow> window B L p 0 t"
    by (intro tripleD [OF reads_okD [OF ok]]) simp
  then show "case on_stream m cs of Abort \<Rightarrow> False | Fail t \<Rightarrow> (case t of (c, s) \<Rightarrow> window B L p 0 s)
      | Ret x t \<Rightarrow> (case t of (c, s) \<Rightarrow> window B L p 0 s)"
    by (simp add: cs on_stream_def split: outcome.splits)
qed

lemma handler_bindp [handler_intros]: "handler_ok m \<Longrightarrow> (\<And>x. handler_ok (k x)) \<Longrightarrow> handler_ok (bindp m k)"
  unfolding handler_ok_def by (blast intro: triple_bindp)

lemma handler_pure:
  fixes m :: "('a, 'm \<times> wStream) prog"
  assumes "\<And>c s. case m (c, s) of Abort \<Rightarrow> False | Fail (c', t) \<Rightarrow> t = s | Ret x (c', t) \<Rightarrow> t = s"
  shows "handler_ok m"
proof (unfold handler_ok_def, intro allI tripleI)
  fix B L p and cs :: "'m \<times> wStream" assume w: "case cs of (c, s) \<Rightarrow> window B L p 0 s"
  obtain c s where cs: "cs = (c, s)" by (cases cs)
  show "case m cs of Abort \<Rightarrow> False | Fail t \<Rightarrow> (case t of (c, s) \<Rightarrow> window B L p 0 s)
      | Ret x t \<Rightarrow> (case t of (c, s) \<Rightarrow> window B L p 0 s)"
    using assms [of s c] w by (cases "m (c, s)") (auto simp: cs)
qed

lemma handler_require [handler_intros]: "handler_ok (require b)"
  by (rule handler_pure) simp

lemma handler_on_state [handler_intros]: "handler_ok (on_state f)"
  by (rule handler_pure) (simp add: on_state_def)

lemma handler_state [handler_intros]: "(\<And>c. handler_ok (m c)) \<Longrightarrow> handler_ok (\<lambda>(c, s). m c (c, s))"
  unfolding handler_ok_def triple_def by simp

lemma handler_case_prod [handler_intros]: "(\<And>a b. handler_ok (f a b)) \<Longrightarrow> handler_ok (case x of (a, b) \<Rightarrow> f a b)"
  by (cases x) simp

section \<open>Handlers that rely on checked bytes\<close>

text \<open>\<open>handler_reads n m\<close> is the judgement for a handler that starts where \<open>n\<close> bytes have already
  been checked to be there; \<open>handler_reads 0\<close> is \<open>handler_ok\<close>.\<close>

definition handler_reads :: "nat \<Rightarrow> ('a, 'm \<times> wStream) prog \<Rightarrow> bool" where
  "handler_reads n m \<longleftrightarrow> (\<forall>B L p. triple (\<lambda>(c, s). window B L p n s) m
     (\<lambda>_ (c, s). window B L p 0 s) (\<lambda>(c, s). window B L p 0 s))"

named_theorems handler_reads_intros "handlers that stay inside their packet, with bytes checked before"

lemma handler_reads_0: "handler_ok m \<longleftrightarrow> handler_reads 0 m"
  by (simp add: handler_ok_def handler_reads_def)

lemma handler_reads_weaken: "handler_ok m \<Longrightarrow> handler_reads n m"
  unfolding handler_ok_def handler_reads_def
  by (intro allI, erule_tac x = B in allE, erule_tac x = L in allE, erule_tac x = p in allE)
     (rule triple_weaken, assumption, auto intro: window_mono)

lemma triple_on_stream:
  fixes m :: "'a parser"
  assumes "triple P m Q E"
  shows "triple (\<lambda>(c, s). P s) (on_stream m) (\<lambda>x (c, s). Q x s) (\<lambda>(c, s). E s)"
proof (rule tripleI, clarsimp)
  fix c s assume "P s"
  with assms have "case m s of Abort \<Rightarrow> False | Fail t \<Rightarrow> E t | Ret x t \<Rightarrow> Q x t" by (rule tripleD)
  then show "case on_stream m (c, s) of Abort \<Rightarrow> False | Fail (c, t) \<Rightarrow> E t | Ret x (c, t) \<Rightarrow> Q x t"
    by (simp add: on_stream_def split: outcome.splits)
qed

lemma handler_reads_step:
  assumes "\<And>B L p. triple (window B L p n) m (\<lambda>x. window B L p (k x)) (window B L p 0)"
    and "\<And>x. handler_reads (k x) (c x)"
  shows "handler_reads n (bindp (on_stream m) c)"
  unfolding handler_reads_def
  by (intro allI, rule triple_bindp [OF triple_on_stream [OF assms(1)]])
     (use assms(2) in \<open>simp add: handler_reads_def\<close>)

lemma handler_reads_keep:
  fixes m :: "('a, 'm \<times> wStream) prog"
  assumes "\<And>c s. case m (c, s) of Abort \<Rightarrow> False | Fail (c', t) \<Rightarrow> t = s | Ret x (c', t) \<Rightarrow> t = s"
    and "\<And>x. handler_reads n (k x)"
  shows "handler_reads n (bindp m k)"
  unfolding handler_reads_def
proof (intro allI, rule triple_bindp)
  fix B L p
  show "triple (\<lambda>(c, s). window B L p n s) m (\<lambda>_ (c, s). window B L p n s) (\<lambda>(c, s). window B L p 0 s)"
  proof (rule tripleI, clarsimp)
    fix c s assume "window B L p n s"
    with assms(1) [of s c]
    show "case m (c, s) of Abort \<Rightarrow> False | Fail (c, t) \<Rightarrow> window B L p 0 t | Ret x (c, t) \<Rightarrow> window B L p n t"
      by (cases "m (c, s)") (auto intro: window_mono)
  qed
  show "triple (\<lambda>(c, s). window B L p n s) (k x) (\<lambda>_ (c, s). window B L p 0 s) (\<lambda>(c, s). window B L p 0 s)" for x
    using assms(2) by (simp add: handler_reads_def)
qed

lemma handler_reads_check [handler_reads_intros]:
  "handler_reads c (k ()) \<Longrightarrow> handler_reads n (bindp (on_stream (Stream_CheckAndLogRequiredLength c)) k)"
  by (rule handler_reads_step [where k = "\<lambda>_. c"]) (auto simp: triple_def window_def stream_defs bindp_def)

lemma handler_reads_seek [handler_reads_intros]:
  "n \<le> c \<Longrightarrow> handler_reads (c - n) (k ()) \<Longrightarrow> handler_reads c (bindp (on_stream (Stream_Seek n)) k)"
  by (rule handler_reads_step [where k = "\<lambda>_. c - n"]) (auto simp: triple_def window_def stream_defs bindp_def)

lemma handler_reads_stream_read:
  "w \<le> c \<Longrightarrow> (\<And>x. handler_reads (c - w) (k x)) \<Longrightarrow> handler_reads c (bindp (on_stream (stream_read w d True)) k)"
  by (rule handler_reads_step [where k = "\<lambda>_. c - w"])
     (auto simp: triple_def window_def stream_defs bindp_def stream_read_def Let_def)

lemmas [handler_reads_intros] =
  handler_reads_stream_read [of 1 _ _ hd, folded stream_read_u8_def]
  handler_reads_stream_read [of 2 _ _ winpr_Data_Get_UINT16, folded stream_read_u16_le_def]
  handler_reads_stream_read [of 4 _ _ winpr_Data_Get_UINT32, folded stream_read_u32_le_def]

lemma handler_reads_call:
  "reads_ok n m \<Longrightarrow> (\<And>x. handler_reads 0 (k x)) \<Longrightarrow> handler_reads n (bindp (on_stream m) k)"
  by (rule handler_reads_step [where k = "\<lambda>_. 0"]) (auto dest: reads_okD)

lemma handler_reads_require [handler_reads_intros]:
  "(\<And>x. handler_reads n (k x)) \<Longrightarrow> handler_reads n (bindp (require b) k)"
  by (rule handler_reads_keep) simp_all

lemma handler_reads_on_state [handler_reads_intros]:
  "(\<And>x. handler_reads n (k x)) \<Longrightarrow> handler_reads n (bindp (on_state f) k)"
  by (rule handler_reads_keep) (simp_all add: on_state_def)

lemma handler_reads_last [handler_reads_intros]:
  "handler_reads n (on_state f)" "handler_reads n (require b)" "handler_reads n fail" "handler_reads n (ret x)"
  by (rule handler_reads_weaken, rule handler_pure, simp add: on_state_def)+

lemma handler_reads_on_stream: "reads_ok n m \<Longrightarrow> handler_reads n (on_stream m)"
  by (rule handler_reads_call [of n m ret, unfolded bindp_ret]) (simp_all add: handler_reads_last)

lemma handler_reads_if [handler_reads_intros]:
  "(b \<Longrightarrow> handler_reads n m) \<Longrightarrow> (\<not> b \<Longrightarrow> handler_reads n m') \<Longrightarrow> handler_reads n (if b then m else m')"
  by simp

lemma handler_reads_bindp:
  "handler_reads n m \<Longrightarrow> (\<And>x. handler_reads 0 (k x)) \<Longrightarrow> handler_reads n (bindp m k)"
  unfolding handler_reads_def by (blast intro: triple_bindp)

section \<open>What the handlers do to the packet\<close>

text \<open>A run that ends without an abort, with the packet unchanged and the position neither before
  where it started nor behind the end.\<close>

definition inside :: "wStream \<Rightarrow> ('a, 'm \<times> wStream) outcome \<Rightarrow> bool" where
  "inside s r \<longleftrightarrow>
     (case r of
        Abort \<Rightarrow> False
      | Fail (_, t) \<Rightarrow> wf_stream t \<and> buffer t = buffer s \<and> slength t = slength s \<and> pointer s \<le> pointer t
      | Ret _ (_, t) \<Rightarrow> wf_stream t \<and> buffer t = buffer s \<and> slength t = slength s \<and> pointer s \<le> pointer t)"

lemma handler_inside:
  assumes "handler_ok h" and "wf_stream s"
  shows "inside s (h (c, s))"
proof -
  have "triple (\<lambda>(c, t). window (buffer s) (slength s) (pointer s) 0 t) h
     (\<lambda>_ (c, t). window (buffer s) (slength s) (pointer s) 0 t)
     (\<lambda>(c, t). window (buffer s) (slength s) (pointer s) 0 t)"
    using assms(1) by (simp add: handler_ok_def)
  moreover have "case (c, s) of (c, t) \<Rightarrow> window (buffer s) (slength s) (pointer s) 0 t"
    using assms(2) by (auto simp: window_def wf_stream_def)
  ultimately have "case h (c, s) of Abort \<Rightarrow> False
      | Fail t \<Rightarrow> (case t of (c, t) \<Rightarrow> window (buffer s) (slength s) (pointer s) 0 t)
      | Ret x t \<Rightarrow> (case t of (c, t) \<Rightarrow> window (buffer s) (slength s) (pointer s) 0 t)"
    by (rule tripleD)
  with assms(2) show ?thesis
    by (cases "h (c, s)") (auto simp: inside_def window_def wf_stream_def)
qed

end
