(* ===== verification/Per.thy ===== *)
theory Per
  imports Wire
begin

text \<open>
  The packed encoding rules of \<^verbatim>\<open>libfreerdp/crypto/per.c\<close>, used by the MCS and GCC layers:
  one definition per function, the bytes each writer produces (\<open>enc_*\<close>), and the proof that
  each reader takes back what its writer wrote, on exactly the values for which it does.
  An out-parameter of a reader that returns \<^verbatim>\<open>FALSE\<close> is not part of its outcome.
\<close>

unbundle bit_operations_syntax

section \<open>Lengths\<close>

definition per_read_length :: "u16 parser" where
  "per_read_length =
     bindp (Stream_CheckAndLogRequiredLength 1) (\<lambda>_.
     bindp Stream_Read_UINT8 (\<lambda>byte.
       if byte AND 0x80 \<noteq> 0 then
         bindp (Stream_CheckAndLogRequiredLength 1) (\<lambda>_.
         let hi = byte AND NOT 0x80; len = push_bit 8 (ucast hi) in
         bindp Stream_Read_UINT8 (\<lambda>lo. ret (len + ucast lo)))
       else ret (ucast byte)))"

definition per_write_length :: "u16 \<Rightarrow> unit parser" where
  "per_write_length len =
     (if len > 0x7F then
        bindp (Stream_EnsureRemainingCapacity 2) (\<lambda>_.
          Stream_Write_UINT16_BE_unchecked (len OR 0x8000))
      else
        bindp (Stream_EnsureRemainingCapacity 1) (\<lambda>_.
          Stream_Write_UINT8_unchecked (ucast len)))"

section \<open>Single octets\<close>

definition per_read_choice :: "u8 parser" where
  "per_read_choice = bindp (Stream_CheckAndLogRequiredLength 1) (\<lambda>_. Stream_Read_UINT8)"

definition per_write_choice :: "u8 \<Rightarrow> unit parser" where
  "per_write_choice choice =
     bindp (Stream_EnsureRemainingCapacity 1) (\<lambda>_. Stream_Write_UINT8_unchecked choice)"

definition per_read_selection :: "u8 parser" where
  "per_read_selection = bindp (Stream_CheckAndLogRequiredLength 1) (\<lambda>_. Stream_Read_UINT8)"

definition per_write_selection :: "u8 \<Rightarrow> unit parser" where
  "per_write_selection selection =
     bindp (Stream_EnsureRemainingCapacity 1) (\<lambda>_. Stream_Write_UINT8_unchecked selection)"

definition per_read_number_of_sets :: "u8 parser" where
  "per_read_number_of_sets = bindp (Stream_CheckAndLogRequiredLength 1) (\<lambda>_. Stream_Read_UINT8)"

definition per_write_number_of_sets :: "u8 \<Rightarrow> unit parser" where
  "per_write_number_of_sets number =
     bindp (Stream_EnsureRemainingCapacity 1) (\<lambda>_. Stream_Write_UINT8_unchecked number)"

definition per_read_padding :: "u16 \<Rightarrow> unit parser" where
  "per_read_padding len =
     bindp (Stream_CheckAndLogRequiredLength (unat len)) (\<lambda>_. Stream_Seek (unat len))"

definition per_write_padding :: "u16 \<Rightarrow> unit parser" where
  "per_write_padding len =
     bindp (Stream_EnsureRemainingCapacity (unat len)) (\<lambda>_. Stream_Zero (unat len))"

section \<open>Integers\<close>

definition per_read_integer :: "u32 parser" where
  "per_read_integer =
     bindp per_read_length (\<lambda>len.
     bindp (Stream_CheckAndLogRequiredLength (unat len)) (\<lambda>_.
       if len = 0 then ret 0
       else if len = 1 then bindp Stream_Read_UINT8 (\<lambda>v. ret (ucast v))
       else if len = 2 then bindp Stream_Read_UINT16_BE (\<lambda>v. ret (ucast v))
       else fail))"

definition per_write_integer :: "u32 \<Rightarrow> unit parser" where
  "per_write_integer v =
     (if v \<le> 0xFF then
        bindp (per_write_length 1) (\<lambda>_.
        bindp (Stream_EnsureRemainingCapacity 1) (\<lambda>_. Stream_Write_UINT8_unchecked (ucast v)))
      else if v \<le> 0xFFFF then
        bindp (per_write_length 2) (\<lambda>_.
        bindp (Stream_EnsureRemainingCapacity 2) (\<lambda>_. Stream_Write_UINT16_BE_unchecked (ucast v)))
      else
        bindp (per_write_length 4) (\<lambda>_.
        bindp (Stream_EnsureRemainingCapacity 4) (\<lambda>_. Stream_Write_UINT32_BE_unchecked v)))"

text \<open>\<^verbatim>\<open>per_read_integer16\<close> stores the raw value through its pointer before it checks it:
  \<open>per_read_integer16_out\<close> is what the pointer holds afterwards and whether the call succeeded.\<close>

definition per_read_integer16_out :: "u16 \<Rightarrow> u16 \<Rightarrow> (bool \<times> u16) parser" where
  "per_read_integer16_out old mn s =
     (case Stream_CheckAndLogRequiredLength 2 s of
        Abort \<Rightarrow> Abort
      | Fail t \<Rightarrow> Ret (False, old) t
      | Ret _ t \<Rightarrow>
          bindp Stream_Read_UINT16_BE (\<lambda>v.
            if v > 0xFFFF - mn then ret (False, v) else ret (True, v + mn)) t)"

definition per_read_integer16 :: "u16 \<Rightarrow> u16 parser" where
  "per_read_integer16 mn =
     bindp (Stream_CheckAndLogRequiredLength 2) (\<lambda>_.
     bindp Stream_Read_UINT16_BE (\<lambda>v.
     bindp (require (\<not> v > 0xFFFF - mn)) (\<lambda>_. ret (v + mn))))"

definition per_write_integer16 :: "u16 \<Rightarrow> u16 \<Rightarrow> unit parser" where
  "per_write_integer16 v mn =
     bindp (require (\<not> mn > v)) (\<lambda>_.
     bindp (Stream_EnsureRemainingCapacity 2) (\<lambda>_. Stream_Write_UINT16_BE_unchecked (v - mn)))"

definition per_read_enumerated :: "u8 \<Rightarrow> u8 parser" where
  "per_read_enumerated count =
     bindp (Stream_CheckAndLogRequiredLength 1) (\<lambda>_.
     bindp Stream_Read_UINT8 (\<lambda>e.
     bindp (require (\<not> unat e + 1 > unat count)) (\<lambda>_. ret e)))"

definition per_write_enumerated :: "u8 \<Rightarrow> u8 \<Rightarrow> unit parser" where
  "per_write_enumerated e count =
     bindp (Stream_EnsureRemainingCapacity 1) (\<lambda>_. Stream_Write_UINT8_unchecked e)"

section \<open>Object identifiers and strings\<close>

text \<open>\<open>oid\<close> is the array \<^verbatim>\<open>oid[6]\<close>; the product is computed in \<^verbatim>\<open>int\<close> and narrowed to a byte.\<close>

definition per_read_object_identifier :: "u8 list \<Rightarrow> unit parser" where
  "per_read_object_identifier oid =
     bindp per_read_length (\<lambda>len.
     bindp (require (len = 5)) (\<lambda>_.
     bindp (Stream_CheckAndLogRequiredLength (unat len)) (\<lambda>_.
     bindp Stream_Read_UINT8 (\<lambda>t12.
     bindp Stream_Read_UINT8 (\<lambda>a2.
     bindp Stream_Read_UINT8 (\<lambda>a3.
     bindp Stream_Read_UINT8 (\<lambda>a4.
     bindp Stream_Read_UINT8 (\<lambda>a5.
       require ([t12 div 40, t12 mod 40, a2, a3, a4, a5] = oid)))))))))"

definition per_write_object_identifier :: "u8 list \<Rightarrow> unit parser" where
  "per_write_object_identifier oid =
     (let t12 = oid ! 0 * 40 + oid ! 1 in
     bindp (Stream_EnsureRemainingCapacity 6) (\<lambda>_.
     bindp (Stream_Write_UINT8_unchecked 5) (\<lambda>_.
     bindp (Stream_Write_UINT8_unchecked t12) (\<lambda>_.
     bindp (Stream_Write_UINT8_unchecked (oid ! 2)) (\<lambda>_.
     bindp (Stream_Write_UINT8_unchecked (oid ! 3)) (\<lambda>_.
     bindp (Stream_Write_UINT8_unchecked (oid ! 4)) (\<lambda>_.
       Stream_Write_UINT8_unchecked (oid ! 5))))))))"

text \<open>\<open>oct_str\<close> is the string together with its \<^verbatim>\<open>length\<close>, which is a \<^verbatim>\<open>UINT16\<close>.\<close>

definition per_read_octet_string :: "u8 list \<Rightarrow> u16 \<Rightarrow> unit parser" where
  "per_read_octet_string oct_str mn =
     bindp per_read_length (\<lambda>mlength.
     bindp (require (unat mlength + unat mn = length oct_str)) (\<lambda>_.
     bindp (Stream_CheckAndLogRequiredLength (length oct_str)) (\<lambda>_.
     bindp (Stream_Read (length oct_str)) (\<lambda>a. require (a = oct_str)))))"

definition per_mlength :: "nat \<Rightarrow> u16 \<Rightarrow> u16" where
  "per_mlength len mn = (if len \<ge> unat mn then of_nat len - mn else mn)"

fun per_write_octets :: "u8 list \<Rightarrow> unit parser" where
  "per_write_octets [] = ret ()"
| "per_write_octets (b # bs) = bindp (Stream_Write_UINT8_unchecked b) (\<lambda>_. per_write_octets bs)"

definition per_write_octet_string :: "u8 list \<Rightarrow> u16 \<Rightarrow> unit parser" where
  "per_write_octet_string oct_str mn =
     bindp (per_write_length (per_mlength (length oct_str) mn)) (\<lambda>_.
     bindp (Stream_EnsureRemainingCapacity (length oct_str)) (\<lambda>_. per_write_octets oct_str))"

definition per_read_numeric_string :: "u16 \<Rightarrow> unit parser" where
  "per_read_numeric_string mn =
     bindp per_read_length (\<lambda>mlength.
     let len = (unat mlength + unat mn + 1) div 2 in
     bindp (Stream_CheckAndLogRequiredLength len) (\<lambda>_. Stream_Seek len))"

definition per_numeric_pair :: "u8 \<Rightarrow> u8 \<Rightarrow> u8" where
  "per_numeric_pair c1 c2 = push_bit 4 ((c1 - 0x30) mod 10) OR ((c2 - 0x30) mod 10)"

fun per_write_numeric_pairs :: "u8 list \<Rightarrow> unit parser" where
  "per_write_numeric_pairs [] = ret ()"
| "per_write_numeric_pairs [c1] =
     bindp (require (\<not> c1 < 0x30)) (\<lambda>_. Stream_Write_UINT8_unchecked (per_numeric_pair c1 0x30))"
| "per_write_numeric_pairs (c1 # c2 # cs) =
     bindp (require (\<not> (c1 < 0x30 \<or> c2 < 0x30))) (\<lambda>_.
     bindp (Stream_Write_UINT8_unchecked (per_numeric_pair c1 c2)) (\<lambda>_. per_write_numeric_pairs cs))"

text \<open>The loop counter is a \<^verbatim>\<open>UINT16\<close> that steps by two: for a string of 65535 digits it wraps
  to 0 and the loop starts again, until a write runs off the buffer and asserts.\<close>

definition per_write_numeric_string :: "u8 list \<Rightarrow> u16 \<Rightarrow> unit parser" where
  "per_write_numeric_string num_str mn =
     bindp (per_write_length (per_mlength (length num_str) mn)) (\<lambda>_.
     bindp (Stream_EnsureRemainingCapacity (length num_str)) (\<lambda>_.
     bindp (per_write_numeric_pairs num_str) (\<lambda>_.
       if length num_str = UINT16_MAX then abort else ret ())))"

section \<open>Readers stay inside their input\<close>

lemma reads_per_length [reads_intros]: "reads_ok n per_read_length"
  unfolding per_read_length_def by (intro reads_intros) simp_all

lemmas [reads_intros] = reads_call [OF reads_per_length]

lemma reads_per_octet [reads_intros]:
  "reads_ok n per_read_choice" "reads_ok n per_read_selection" "reads_ok n per_read_number_of_sets"
  unfolding per_read_choice_def per_read_selection_def per_read_number_of_sets_def
  by (intro reads_intros; simp)+

lemma reads_per_padding [reads_intros]: "reads_ok n (per_read_padding len)"
  unfolding per_read_padding_def by (intro reads_intros) simp_all

lemma reads_per_integer [reads_intros]: "reads_ok n per_read_integer"
  unfolding per_read_integer_def by (intro reads_intros) simp_all

lemma reads_per_integer16 [reads_intros]: "reads_ok n (per_read_integer16 m)"
  unfolding per_read_integer16_def by (intro reads_intros) simp_all

lemma reads_per_enumerated [reads_intros]: "reads_ok n (per_read_enumerated c)"
  unfolding per_read_enumerated_def by (intro reads_intros) simp_all

lemma reads_per_object_identifier [reads_intros]: "reads_ok n (per_read_object_identifier oid)"
  unfolding per_read_object_identifier_def by (intro reads_intros) simp_all

lemma reads_per_octet_string [reads_intros]: "reads_ok n (per_read_octet_string os m)"
  unfolding per_read_octet_string_def by (intro reads_intros) simp_all

lemma reads_per_numeric_string [reads_intros]: "reads_ok n (per_read_numeric_string m)"
  unfolding per_read_numeric_string_def Let_def by (intro reads_intros) simp_all

lemmas [reads_intros] =
  reads_call [OF reads_per_octet(1)] reads_call [OF reads_per_octet(2)]
  reads_call [OF reads_per_octet(3)] reads_call [OF reads_per_padding]
  reads_call [OF reads_per_integer] reads_call [OF reads_per_integer16]
  reads_call [OF reads_per_enumerated] reads_call [OF reads_per_object_identifier]
  reads_call [OF reads_per_octet_string] reads_call [OF reads_per_numeric_string]

section \<open>What the writers produce and the readers take\<close>

definition enc_per_length :: "u16 \<Rightarrow> u8 list" where
  "enc_per_length len =
     (if len > 0x7F then winpr_Data_Write_UINT16_BE (len OR 0x8000) else [ucast len])"

text \<open>A length field has fifteen bits.\<close>

definition per_length_valid :: "u16 \<Rightarrow> bool" where
  "per_length_valid len \<longleftrightarrow> len < 0x8000"

lemma emits_per_length [emit_intros]:
  "emits (k ()) bs x \<Longrightarrow> emits (bindp (per_write_length len) k) (enc_per_length len @ bs) x"
  unfolding per_write_length_def enc_per_length_def by (auto simp: bindp_assoc intro!: emit_intros)

lemma high_byte_clear:
  fixes len :: u16
  assumes "len < 0x8000"
  shows "shift_in (ucast (ucast (drop_bit 8 (len OR 0x8000)) AND NOT 0x80 :: u8)) (ucast (len OR 0x8000)) = len"
proof (rule bit_word_eqI)
  fix i assume "i < LENGTH(16)"
  then have i: "i < 16" by simp
  have n: "\<not> bit len 15" using assms by (intro lt_exp_not_bit) (simp add: word_less_nat_alt)
  show "bit (shift_in (ucast (ucast (drop_bit 8 (len OR 0x8000)) AND NOT 0x80 :: u8)) (ucast (len OR 0x8000)) :: u16) i = bit len i"
    unfolding shift_in_def flag_bits
    using i n by (cases "i = 15") (auto simp: bit_simps)
qed

lemma parses_per_length:
  assumes "per_length_valid len"
  shows "parses per_read_length (enc_per_length len) ys len"
proof (cases "len > 0x7F")
  case True
  let ?w = "len OR 0x8000" let ?hi = "ucast (drop_bit 8 ?w) :: u8" let ?lo = "ucast ?w :: u8"
  have hi: "?hi AND 0x80 \<noteq> 0" unfolding and_flag_bit7 flag_bits by (simp add: bit_simps)
  have "shift_in (ucast (?hi AND NOT 0x80)) ?lo = len"
    using assms by (intro high_byte_clear) (simp add: per_length_valid_def)
  then have v: "push_bit 8 (ucast (?hi AND NOT 0x80)) + ucast ?lo = len" by (simp only: shift_in_add)
  have "parses per_read_length [?hi, ?lo] ys len"
    unfolding per_read_length_def Let_def
    by (intro parse_intros, simp, subst if_P [OF hi], intro parse_intros, simp, subst v, rule parses_ret)
  with True show ?thesis by (simp add: enc_per_length_def write_u16_be_bytes)
next
  case False
  then have b: "\<not> (ucast len :: u8) AND 0x80 \<noteq> 0"
    unfolding and_flag_bit7
    by (intro lt_exp_not_bit) (simp add: ucast_le_byte word_le_nat_alt not_less)
  have v: "ucast (ucast len :: u8) = len"
    using False by (intro ucast_byte_back) (simp add: word_le_nat_alt not_less)
  have "parses per_read_length [ucast len] ys len"
    unfolding per_read_length_def Let_def
    by (intro parse_intros, simp, subst if_not_P [OF b], subst v, rule parses_ret)
  with False show ?thesis by (simp add: enc_per_length_def)
qed

lemma parses_per_length_bindp [parse_intros]:
  "per_length_valid len \<Longrightarrow> parses (k len) bs ys x \<Longrightarrow>
     parses (bindp per_read_length k) (enc_per_length len @ bs) ys x"
  by (rule parses_bindp [OF parses_per_length])

interpretation per_length: wire_format per_write_length per_read_length enc_per_length per_length_valid
proof
  show "\<exists>r. emits (per_write_length len) (enc_per_length len) r" for len
    using emits_per_length [where k = ret and x = "()", OF emits_ret, of len] by (auto intro: emits_last)
qed (rule parses_per_length)

subsection \<open>Integers\<close>

definition enc_per_integer :: "u32 \<Rightarrow> u8 list" where
  "enc_per_integer v =
     (if v \<le> 0xFF then enc_per_length 1 @ [ucast v]
      else if v \<le> 0xFFFF then enc_per_length 2 @ winpr_Data_Write_UINT16_BE (ucast v)
      else enc_per_length 4 @ winpr_Data_Write_UINT32_BE v)"

definition per_integer_valid :: "u32 \<Rightarrow> bool" where
  "per_integer_valid v \<longleftrightarrow> v \<le> 0xFFFF"

lemma emits_per_integer [emit_intros]:
  "emits (k ()) bs x \<Longrightarrow> emits (bindp (per_write_integer v) k) (enc_per_integer v @ bs) x"
  unfolding per_write_integer_def enc_per_integer_def
  by (auto simp: bindp_assoc intro!: emit_intros)

lemma per_small_lengths: "per_length_valid 0" "per_length_valid 1" "per_length_valid 2"
  "per_length_valid 4" "per_length_valid 5"
  by (simp_all add: per_length_valid_def)

lemma parses_per_integer:
  assumes "per_integer_valid v"
  shows "parses per_read_integer (enc_per_integer v) ys v"
proof (cases "v \<le> 0xFF")
  case True
  then have v: "ucast (ucast v :: u8) = v" by (intro ucast_byte_back) (simp add: word_le_nat_alt)
  have "parses per_read_integer (enc_per_length 1 @ [ucast v]) ys v"
    unfolding per_read_integer_def
    by (intro parse_intros per_small_lengths, simp, simp, intro parse_intros, simp only: v parses_ret)
  with True show ?thesis by (simp add: enc_per_integer_def)
next
  case False
  from assms have v: "ucast (ucast v :: u16) = v"
    by (intro ucast_u16_back) (simp add: per_integer_valid_def word_le_nat_alt)
  have "parses per_read_integer (enc_per_length 2 @ winpr_Data_Write_UINT16_BE (ucast v) @ []) ys v"
    unfolding per_read_integer_def
    by (intro parse_intros per_small_lengths, simp, simp, intro parse_intros, simp only: v parses_ret)
  with False assms show ?thesis by (simp add: enc_per_integer_def per_integer_valid_def)
qed

lemma parses_per_integer_bindp [parse_intros]:
  "per_integer_valid v \<Longrightarrow> parses (k v) bs ys x \<Longrightarrow>
     parses (bindp per_read_integer k) (enc_per_integer v @ bs) ys x"
  by (rule parses_bindp [OF parses_per_integer])

interpretation per_integer: wire_format per_write_integer per_read_integer enc_per_integer per_integer_valid
proof
  show "\<exists>r. emits (per_write_integer v) (enc_per_integer v) r" for v
    using emits_per_integer [where k = ret and x = "()", OF emits_ret, of v] by (auto intro: emits_last)
qed (rule parses_per_integer)

lemma emits_choice [emit_intros]:
  "emits (k ()) bs x \<Longrightarrow> emits (bindp (per_write_choice c) k) (c # bs) x"
  "emits (per_write_choice c) [c] ()"
  unfolding per_write_choice_def bindp_assoc by (rule emits_ensure, simp, intro emit_intros, assumption?)+

lemma emits_selection [emit_intros]:
  "emits (k ()) bs x \<Longrightarrow> emits (bindp (per_write_selection c) k) (c # bs) x"
  unfolding per_write_selection_def bindp_assoc by (rule emits_ensure, simp, intro emit_intros)

lemma emits_number_of_sets [emit_intros]:
  "emits (k ()) bs x \<Longrightarrow> emits (bindp (per_write_number_of_sets c) k) (c # bs) x"
  unfolding per_write_number_of_sets_def bindp_assoc by (rule emits_ensure, simp, intro emit_intros)

lemma emits_enumerated [emit_intros]:
  "emits (k ()) bs x \<Longrightarrow> emits (bindp (per_write_enumerated e c) k) (e # bs) x"
  "emits (per_write_enumerated e c) [e] ()"
  unfolding per_write_enumerated_def bindp_assoc by (rule emits_ensure, simp, intro emit_intros, assumption?)+

lemma parses_choice [parse_intros]:
  "parses (k c) bs ys x \<Longrightarrow> parses (bindp per_read_choice k) (c # bs) ys x"
  unfolding per_read_choice_def bindp_assoc by (intro parse_intros) simp_all

lemma parses_selection [parse_intros]:
  "parses (k c) bs ys x \<Longrightarrow> parses (bindp per_read_selection k) (c # bs) ys x"
  unfolding per_read_selection_def bindp_assoc by (intro parse_intros) simp_all

lemma parses_number_of_sets [parse_intros]:
  "parses (k c) bs ys x \<Longrightarrow> parses (bindp per_read_number_of_sets k) (c # bs) ys x"
  unfolding per_read_number_of_sets_def bindp_assoc by (intro parse_intros) simp_all

lemma parses_enumerated [parse_intros]:
  "unat e < unat c \<Longrightarrow> parses (k e) bs ys x \<Longrightarrow> parses (bindp (per_read_enumerated c) k) (e # bs) ys x"
  unfolding per_read_enumerated_def bindp_assoc by (intro parse_intros) simp_all

lemma parses_padding [parse_intros]:
  "length as = unat n \<Longrightarrow> parses (k ()) bs ys x \<Longrightarrow> parses (bindp (per_read_padding n) k) (as @ bs) ys x"
  unfolding per_read_padding_def bindp_assoc by (intro parse_intros) simp_all

lemma emits_padding [emit_intros]:
  "emits (k ()) bs x \<Longrightarrow> emits (bindp (per_write_padding n) k) (replicate (unat n) 0 @ bs) x"
  unfolding per_write_padding_def bindp_assoc by (intro emit_intros) simp_all

subsection \<open>Integers with a lower bound\<close>

definition enc_per_integer16 :: "u16 \<Rightarrow> u16 \<Rightarrow> u8 list" where
  "enc_per_integer16 mn v = winpr_Data_Write_UINT16_BE (v - mn)"

lemma length_enc_per_integer16 [simp]: "length (enc_per_integer16 mn v) = 2"
  by (simp add: enc_per_integer16_def)

lemma emits_per_integer16 [emit_intros]:
  "mn \<le> v \<Longrightarrow> emits (k ()) bs x \<Longrightarrow> emits (bindp (per_write_integer16 v mn) k) (enc_per_integer16 mn v @ bs) x"
  unfolding per_write_integer16_def enc_per_integer16_def bindp_assoc
  by (intro emit_intros) (simp_all add: not_less)

lemma integer16_in_range: "mn \<le> (v :: u16) \<Longrightarrow> \<not> v - mn > 0xFFFF - mn"
  using unsigned_less [of v, where 'a = nat] unsigned_less [of mn, where 'a = nat]
  by (auto simp: word_less_nat_alt word_le_nat_alt unat_sub_if')

lemma parses_per_integer16_bindp [parse_intros]:
  assumes "mn \<le> v" and "parses (k v) bs ys x"
  shows "parses (bindp (per_read_integer16 mn) k) (enc_per_integer16 mn v @ bs) ys x"
  unfolding per_read_integer16_def enc_per_integer16_def bindp_assoc
  by (intro parse_intros) (use assms integer16_in_range in auto)

lemmas [parse_intros] =
  parses_per_integer16_bindp [where bs = "[]", simplified]
  parses_per_integer16_bindp [where k = ret, OF _ parses_ret, unfolded bindp_ret, simplified]

lemmas [emit_intros] =
  emits_per_integer16 [where bs = "[]", simplified]
  emits_per_integer16 [where k = ret, OF _ emits_ret, unfolded bindp_ret, simplified]
  emits_per_integer [where k = ret, OF emits_ret, unfolded bindp_ret, simplified]
  emits_per_integer [where bs = "[]", simplified]

lemmas [parse_intros] =
  parses_per_integer [unfolded append_Nil2]
  parses_per_integer_bindp [where bs = "[]", simplified]

interpretation per_integer16: wire_format "\<lambda>v. per_write_integer16 v mn" "per_read_integer16 mn"
  "enc_per_integer16 mn" "\<lambda>v. mn \<le> v" for mn
proof
  show "\<exists>r. emits (per_write_integer16 v mn) (enc_per_integer16 mn v) r" if "mn \<le> v" for v
    using that by (blast intro: emit_intros)
  show "parses (per_read_integer16 mn) (enc_per_integer16 mn v) ys v" if "mn \<le> v" for v ys
    using that by (intro parse_intros)
qed

subsection \<open>Object identifiers\<close>

text \<open>The first two components share an octet, \<open>40 * a + b\<close>: the pair is recovered when
  \<open>b < 40\<close> and the sum fits.\<close>

definition per_oid_valid :: "u8 list \<Rightarrow> bool" where
  "per_oid_valid oid \<longleftrightarrow> length oid = 6 \<and> unat (oid ! 1) < 40 \<and> unat (oid ! 0) * 40 + unat (oid ! 1) < 256"

definition enc_per_oid :: "u8 list \<Rightarrow> u8 list" where
  "enc_per_oid oid = [5, oid ! 0 * 40 + oid ! 1, oid ! 2, oid ! 3, oid ! 4, oid ! 5]"

lemma length_enc_per_oid [simp]: "length (enc_per_oid oid) = 6"
  by (simp add: enc_per_oid_def)

lemma emits_per_oid [emit_intros]: "emits (per_write_object_identifier oid) (enc_per_oid oid) ()"
  unfolding per_write_object_identifier_def enc_per_oid_def Let_def
  by (rule emits_ensure, simp, intro emit_intros)

lemma oid_pair_back:
  fixes a b :: u8
  assumes "unat b < 40" and "unat a * 40 + unat b < 256"
  shows "(a * 40 + b) div 40 = a" and "(a * 40 + b) mod 40 = b"
proof -
  have "unat (a * 40 + b) = unat a * 40 + unat b"
    using assms(2) by (simp add: unat_word_ariths)
  with assms(1) show "(a * 40 + b) div 40 = a" "(a * 40 + b) mod 40 = b"
    by (simp_all add: word_unat_eq_iff unat_div unat_mod)
qed

lemma list_of_6: "length xs = 6 \<Longrightarrow> [xs ! 0, xs ! 1, xs ! 2, xs ! 3, xs ! 4, xs ! 5] = xs"
  by (rule nth_equalityI) (auto simp: less_Suc_eq numeral_eq_Suc)

lemma parses_per_oid [parse_intros]:
  assumes "per_oid_valid oid"
  shows "parses (per_read_object_identifier oid) (enc_per_oid oid) ys ()"
proof -
  have 5: "enc_per_length 5 = [5]" by (simp add: enc_per_length_def)
  have eq: "[(oid ! 0 * 40 + oid ! 1) div 40, (oid ! 0 * 40 + oid ! 1) mod 40,
      oid ! 2, oid ! 3, oid ! 4, oid ! 5] = oid"
    using assms list_of_6 [of oid] by (simp add: per_oid_valid_def oid_pair_back)
  have "parses (per_read_object_identifier oid)
      (enc_per_length 5 @ [oid ! 0 * 40 + oid ! 1, oid ! 2, oid ! 3, oid ! 4, oid ! 5]) ys ()"
    unfolding per_read_object_identifier_def
    by (intro parse_intros per_small_lengths; (simp only: eq simp_thms if_True require_apply)?)
       (auto simp: eq require_def intro: parses_ret)
  then show ?thesis by (simp add: enc_per_oid_def 5)
qed

subsection \<open>Octet strings\<close>

definition per_octet_string_valid :: "u16 \<Rightarrow> u8 list \<Rightarrow> bool" where
  "per_octet_string_valid mn os \<longleftrightarrow> unat mn \<le> length os \<and> length os < 0x8000"

definition enc_per_octet_string :: "u16 \<Rightarrow> u8 list \<Rightarrow> u8 list" where
  "enc_per_octet_string mn os = enc_per_length (per_mlength (length os) mn) @ os"

lemma emits_per_octets [emit_intros]: "emits (per_write_octets bs) bs ()"
  by (induction bs) (auto intro: emit_intros)

lemma emits_per_octet_string [emit_intros]:
  "emits (per_write_octet_string os mn) (enc_per_octet_string mn os) ()"
  unfolding per_write_octet_string_def enc_per_octet_string_def
  by (intro emit_intros) simp_all

lemma unat_per_mlength:
  assumes "unat mn \<le> n" and "n \<le> UINT16_MAX"
  shows "unat (per_mlength n mn) = n - unat mn"
proof -
  from assms(2) have n: "unat (of_nat n :: u16) = n" by (simp add: unat_of_nat UINT16_MAX_def take_bit_nat_eq_self)
  with assms(1) have "mn \<le> of_nat n" by (simp add: word_le_nat_alt)
  with assms(1) n show ?thesis by (simp add: per_mlength_def unat_sub)
qed

lemma parses_Read [parse_intros]:
  assumes "length as = n" and "parses (k as) bs ys x"
  shows "parses (bindp (Stream_Read n) k) (as @ bs) ys x"
proof (rule parses_bindp)
  show "parses (Stream_Read n) as (bs @ ys) as"
  proof (rule parsesI)
    fix s assume s: "wf_stream s" "rest s = as @ (bs @ ys)"
    then have b: "pointer s + n + length (bs @ ys) = slength s"
      using rest_prefix_bound assms(1) by blast
    have "take n (drop (pointer s) (buffer s)) = as"
      by (subst drop_buffer) (simp add: s(2) assms(1))
    with s b show "Stream_Read n s = Ret as (adv (length as) s)"
      by (auto simp: Stream_Read_def Stream_Peek_def stream_defs bindp_def wf_stream_def adv_def assms(1))
  qed
qed (fact assms(2))

lemma parses_per_octet_string [parse_intros]:
  assumes "per_octet_string_valid mn os"
  shows "parses (per_read_octet_string os mn) (enc_per_octet_string mn os) ys ()"
proof -
  have m: "unat (per_mlength (length os) mn) = length os - unat mn"
    using assms by (intro unat_per_mlength) (auto simp: per_octet_string_valid_def UINT16_MAX_def)
  have "parses (per_read_octet_string os mn) (enc_per_length (per_mlength (length os) mn) @ os @ []) ys ()"
    unfolding per_read_octet_string_def
    by (intro parse_intros)
       (use assms m in \<open>auto simp: per_octet_string_valid_def per_length_valid_def word_less_nat_alt require_def intro: parses_ret\<close>)
  then show ?thesis by (simp add: enc_per_octet_string_def)
qed

section \<open>What the readers make of every encoding\<close>

text \<open>The length writer keeps the low fifteen bits of a length.\<close>

lemma parses_any_length: "parses per_read_length (enc_per_length len) ys (len AND 0x7FFF)"
proof (cases "len < 0x8000")
  case True
  then have n: "\<not> bit len 15" by (intro lt_exp_not_bit) (simp add: word_less_nat_alt)
  have "len AND 0x7FFF = len"
  proof (rule bit_word_eqI)
    fix i assume "i < LENGTH(16)"
    with n have i: "i < 15 \<or> \<not> bit len i" by (cases "i = 15") auto
    have m: "(0x7FFF :: u16) = mask 15" by (simp add: mask_eq_exp_minus_1)
    show "bit (len AND 0x7FFF) i = bit len i" unfolding m using i by (auto simp: bit_simps)
  qed
  with parses_per_length [of len ys] True show ?thesis by (simp add: per_length_valid_def)
next
  case False
  then have big: "len > 0x7F" by (simp add: word_le_nat_alt word_less_nat_alt)
  let ?w = "len OR 0x8000" let ?hi = "ucast (drop_bit 8 ?w) :: u8" let ?lo = "ucast ?w :: u8"
  have hi: "?hi AND 0x80 \<noteq> 0" unfolding and_flag_bit7 flag_bits by (simp add: bit_simps)
  have "shift_in (ucast (?hi AND NOT 0x80)) ?lo = len AND 0x7FFF"
  proof (rule bit_word_eqI)
    fix i assume "i < LENGTH(16)"
    then have i: "i < 16" by simp
    have m: "(0x7FFF :: u16) = mask 15" by (simp add: mask_eq_exp_minus_1)
    show "bit (shift_in (ucast (?hi AND NOT 0x80)) ?lo :: u16) i = bit (len AND 0x7FFF) i"
      unfolding shift_in_def flag_bits m
      using i by (cases "i = 15") (auto simp: bit_simps)
  qed
  then have v: "push_bit 8 (ucast (?hi AND NOT 0x80)) + ucast ?lo = len AND 0x7FFF" by (simp only: shift_in_add)
  have "parses per_read_length [?hi, ?lo] ys (len AND 0x7FFF)"
    unfolding per_read_length_def Let_def
    by (intro parse_intros, simp, subst if_P [OF hi], intro parse_intros, simp, subst v, rule parses_ret)
  with big show ?thesis by (simp add: enc_per_length_def write_u16_be_bytes)
qed

text \<open>The integer writer also writes integers of four bytes, which the reader does not take.\<close>

lemma per_read_wide_integer:
  assumes "0xFFFF < v" and "wf_stream s" and "rest s = enc_per_integer v"
  shows "per_read_integer s = Fail (adv 1 s)"
proof -
  have "\<not> v \<le> 0xFFFF" "\<not> v \<le> 0xFF" using assms(1) by (auto simp: word_le_nat_alt word_less_nat_alt)
  then have r: "rest s = enc_per_length 4 @ winpr_Data_Write_UINT32_BE v"
    using assms(3) by (simp add: enc_per_integer_def)
  have "per_length_valid 4" by (simp add: per_length_valid_def)
  from parsesD [OF parses_per_length [OF this] assms(2) r]
  have 1: "per_read_length s = Ret 4 (adv 1 s)" by (simp add: enc_per_length_def)
  have "wf_stream (adv 1 s)" "length (rest (adv 1 s)) = 4"
    using assms(2) r by (simp_all add: wf_adv rest_adv enc_per_length_def)
  then have "Stream_CheckAndLogRequiredLength 4 (adv 1 s) = Ret () (adv 1 s)" by (simp add: check_wf)
  with 1 show ?thesis by (simp add: per_read_integer_def bindp_def)
qed

text \<open>An object identifier is accepted exactly when it is the expected one.\<close>

lemma per_read_oid_spec:
  assumes "per_oid_valid oid" and "wf_stream s" and "rest s = enc_per_oid oid @ ys"
  shows "per_read_object_identifier expected s = (if oid = expected then Ret () (adv 6 s) else Fail (adv 6 s))"
proof -
  let ?read = "bindp per_read_length (\<lambda>len.
     bindp (require (len = 5)) (\<lambda>_.
     bindp (Stream_CheckAndLogRequiredLength (unat len)) (\<lambda>_.
     bindp Stream_Read_UINT8 (\<lambda>t12.
     bindp Stream_Read_UINT8 (\<lambda>a2.
     bindp Stream_Read_UINT8 (\<lambda>a3.
     bindp Stream_Read_UINT8 (\<lambda>a4.
     bindp Stream_Read_UINT8 (\<lambda>a5. ret [t12 div 40, t12 mod 40, a2, a3, a4, a5]))))))))"
  have split: "per_read_object_identifier expected = bindp ?read (\<lambda>l. require (l = expected))"
    by (simp only: per_read_object_identifier_def bindp_assoc bindp_left)
  have 5: "enc_per_length 5 = [5]" by (simp add: enc_per_length_def)
  have eq: "[(oid ! 0 * 40 + oid ! 1) div 40, (oid ! 0 * 40 + oid ! 1) mod 40,
      oid ! 2, oid ! 3, oid ! 4, oid ! 5] = oid"
    using assms(1) list_of_6 [of oid] by (simp add: per_oid_valid_def oid_pair_back)
  have "parses ?read (enc_per_length 5 @ [oid ! 0 * 40 + oid ! 1, oid ! 2, oid ! 3, oid ! 4, oid ! 5]) ys oid"
    by (intro parse_intros per_small_lengths; (simp only: eq simp_thms if_True require_apply)?)
       (auto simp: eq intro: parses_ret)
  then have "?read s = Ret oid (adv 6 s)"
    using parsesD [OF _ assms(2)] assms(3) by (fastforce simp: enc_per_oid_def 5)
  then show ?thesis unfolding split by (simp add: bindp_def)
qed

end
