(* ===== verification/Ber.thy ===== *)
theory Ber
  imports Wire
begin

text \<open>
  The basic encoding rules of \<^verbatim>\<open>libfreerdp/crypto/ber.c\<close>, in which the MCS connect PDUs are
  written. The readers return \<^verbatim>\<open>BOOL\<close>; the writers return the number of bytes written and
  assert the room they need. The functions that convert to or from UTF-16 are in \<open>BerUnicode\<close>.
\<close>

unbundle bit_operations_syntax

section \<open>Tags of \<^verbatim>\<open>ber.h\<close>\<close>

definition BER_CLASS_UNIV :: u8 where "BER_CLASS_UNIV = 0x00"
definition BER_CLASS_APPL :: u8 where "BER_CLASS_APPL = 0x40"
definition BER_CLASS_CTXT :: u8 where "BER_CLASS_CTXT = 0x80"
definition BER_PRIMITIVE :: u8 where "BER_PRIMITIVE = 0x00"
definition BER_CONSTRUCT :: u8 where "BER_CONSTRUCT = 0x20"
definition BER_TAG_MASK :: u8 where "BER_TAG_MASK = 0x1F"
definition BER_TAG_BOOLEAN :: u8 where "BER_TAG_BOOLEAN = 0x01"
definition BER_TAG_INTEGER :: u8 where "BER_TAG_INTEGER = 0x02"
definition BER_TAG_BIT_STRING :: u8 where "BER_TAG_BIT_STRING = 0x03"
definition BER_TAG_OCTET_STRING :: u8 where "BER_TAG_OCTET_STRING = 0x04"
definition BER_TAG_ENUMERATED :: u8 where "BER_TAG_ENUMERATED = 0x0A"
definition BER_TAG_SEQUENCE :: u8 where "BER_TAG_SEQUENCE = 0x10"
definition BER_TAG_SEQUENCE_OF :: u8 where "BER_TAG_SEQUENCE_OF = 0x10"

named_theorems ber_tags "the tag constants"

lemmas [ber_tags] = BER_CLASS_UNIV_def BER_CLASS_APPL_def BER_CLASS_CTXT_def BER_PRIMITIVE_def
  BER_CONSTRUCT_def BER_TAG_MASK_def BER_TAG_BOOLEAN_def BER_TAG_INTEGER_def BER_TAG_BIT_STRING_def
  BER_TAG_OCTET_STRING_def BER_TAG_ENUMERATED_def BER_TAG_SEQUENCE_def BER_TAG_SEQUENCE_OF_def

definition BER_PC :: "bool \<Rightarrow> u8" where
  "BER_PC pc = (if pc then BER_CONSTRUCT else BER_PRIMITIVE)"

section \<open>Lengths\<close>

definition ber_read_length :: "nat parser" where
  "ber_read_length =
     bindp (Stream_CheckAndLogRequiredLength 1) (\<lambda>_.
     bindp Stream_Read_UINT8 (\<lambda>byte.
       if byte AND 0x80 \<noteq> 0 then
         let n = byte AND NOT 0x80 in
         bindp (Stream_CheckAndLogRequiredLength (unat n)) (\<lambda>_.
           if n = 1 then bindp Stream_Read_UINT8 (\<lambda>v. ret (unat v))
           else if n = 2 then bindp Stream_Read_UINT16_BE (\<lambda>v. ret (unat v))
           else fail)
       else ret (unat byte)))"

text \<open>\<^verbatim>\<open>WINPR_ASSERT(Stream_GetRemainingCapacity(s) >= n)\<close>.\<close>

definition assert_room :: "nat \<Rightarrow> unit parser" where
  "assert_room n = bindp Stream_GetRemainingCapacity (\<lambda>rem. winpr_assert (rem \<ge> n))"

definition ber_write_length :: "nat \<Rightarrow> nat parser" where
  "ber_write_length len =
     (if len > 0xFF then
        bindp (winpr_assert (len \<le> UINT16_MAX)) (\<lambda>_.
        bindp (assert_room 3) (\<lambda>_.
        bindp (Stream_Write_UINT8_unchecked (0x80 XOR 2)) (\<lambda>_.
        bindp (Stream_Write_UINT16_BE_unchecked (of_nat len)) (\<lambda>_. ret 3))))
      else if len > 0x7F then
        bindp (assert_room 2) (\<lambda>_.
        bindp (Stream_Write_UINT8_unchecked (0x80 XOR 1)) (\<lambda>_.
        bindp (Stream_Write_UINT8_unchecked (of_nat len)) (\<lambda>_. ret 2)))
      else
        bindp (assert_room 1) (\<lambda>_.
        bindp (Stream_Write_UINT8_unchecked (of_nat len)) (\<lambda>_. ret 1)))"

definition ber_sizeof_length :: "nat \<Rightarrow> nat" where
  "ber_sizeof_length len = (if len > 0xFF then 3 else if len > 0x7F then 2 else 1)"

section \<open>Tags\<close>

definition ber_read_universal_tag :: "u8 \<Rightarrow> bool \<Rightarrow> unit parser" where
  "ber_read_universal_tag tag pc =
     (let expect = BER_CLASS_UNIV OR BER_PC pc OR (BER_TAG_MASK AND tag) in
     bindp (Stream_CheckAndLogRequiredLength 1) (\<lambda>_.
     bindp Stream_Read_UINT8 (\<lambda>byte. require (byte = expect))))"

definition ber_write_universal_tag :: "u8 \<Rightarrow> bool \<Rightarrow> nat parser" where
  "ber_write_universal_tag tag pc =
     bindp (Stream_Write_UINT8_unchecked ((BER_CLASS_UNIV OR BER_PC pc) OR (BER_TAG_MASK AND tag))) (\<lambda>_. ret 1)"

definition ber_read_application_tag :: "u8 \<Rightarrow> nat parser" where
  "ber_read_application_tag tag =
     (if tag > 30 then
        let expect = (BER_CLASS_APPL OR BER_CONSTRUCT) OR BER_TAG_MASK in
        bindp (Stream_CheckAndLogRequiredLength 2) (\<lambda>_.
        bindp Stream_Read_UINT8 (\<lambda>byte.
        bindp (require (byte = expect)) (\<lambda>_.
        bindp Stream_Read_UINT8 (\<lambda>byte.
        bindp (require (byte = tag)) (\<lambda>_. ber_read_length)))))
      else
        let expect = (BER_CLASS_APPL OR BER_CONSTRUCT) OR (BER_TAG_MASK AND tag) in
        bindp (Stream_CheckAndLogRequiredLength 1) (\<lambda>_.
        bindp Stream_Read_UINT8 (\<lambda>byte.
        bindp (require (byte = expect)) (\<lambda>_. ber_read_length))))"

definition ber_write_application_tag :: "u8 \<Rightarrow> nat \<Rightarrow> unit parser" where
  "ber_write_application_tag tag len =
     (if tag > 30 then
        bindp (assert_room 2) (\<lambda>_.
        bindp (Stream_Write_UINT8_unchecked ((BER_CLASS_APPL OR BER_CONSTRUCT) OR BER_TAG_MASK)) (\<lambda>_.
        bindp (Stream_Write_UINT8_unchecked tag) (\<lambda>_.
        bindp (ber_write_length len) (\<lambda>_. ret ()))))
      else
        bindp (assert_room 1) (\<lambda>_.
        bindp (Stream_Write_UINT8_unchecked ((BER_CLASS_APPL OR BER_CONSTRUCT) OR (BER_TAG_MASK AND tag))) (\<lambda>_.
        bindp (ber_write_length len) (\<lambda>_. ret ()))))"

text \<open>On a mismatch the contextual tag is put back, so that the caller may go on without it.\<close>

definition ber_read_contextual_tag :: "u8 \<Rightarrow> bool \<Rightarrow> nat parser" where
  "ber_read_contextual_tag tag pc =
     (let expect = (BER_CLASS_CTXT OR BER_PC pc) OR (BER_TAG_MASK AND tag) in
     bindp Stream_GetRemainingLength (\<lambda>rem.
       if rem < 1 then fail
       else bindp Stream_Read_UINT8 (\<lambda>byte.
         if byte \<noteq> expect then bindp (Stream_Rewind 1) (\<lambda>_. fail)
         else ber_read_length)))"

definition ber_write_contextual_tag :: "u8 \<Rightarrow> nat \<Rightarrow> bool \<Rightarrow> nat parser" where
  "ber_write_contextual_tag tag len pc =
     bindp (assert_room 1) (\<lambda>_.
     bindp (Stream_Write_UINT8_unchecked ((BER_CLASS_CTXT OR BER_PC pc) OR (BER_TAG_MASK AND tag))) (\<lambda>_.
     bindp (ber_write_length len) (\<lambda>n. ret (1 + n))))"

definition ber_sizeof_contextual_tag :: "nat \<Rightarrow> nat" where
  "ber_sizeof_contextual_tag len = 1 + ber_sizeof_length len"

definition ber_read_sequence_tag :: "nat parser" where
  "ber_read_sequence_tag =
     (let expect = (BER_CLASS_UNIV OR BER_CONSTRUCT) OR BER_TAG_SEQUENCE_OF in
     bindp (Stream_CheckAndLogRequiredLength 1) (\<lambda>_.
     bindp Stream_Read_UINT8 (\<lambda>byte.
     bindp (require (byte = expect)) (\<lambda>_. ber_read_length))))"

definition ber_write_sequence_tag :: "nat \<Rightarrow> nat parser" where
  "ber_write_sequence_tag len =
     bindp (Stream_Write_UINT8_unchecked ((BER_CLASS_UNIV OR BER_CONSTRUCT) OR (BER_TAG_MASK AND BER_TAG_SEQUENCE))) (\<lambda>_.
     bindp (ber_write_length len) (\<lambda>n. ret (1 + n)))"

definition ber_sizeof_sequence :: "nat \<Rightarrow> nat" where
  "ber_sizeof_sequence len = 1 + ber_sizeof_length len + len"

definition ber_sizeof_sequence_tag :: "nat \<Rightarrow> nat" where
  "ber_sizeof_sequence_tag len = 1 + ber_sizeof_length len"

section \<open>Values\<close>

definition ber_read_enumerated :: "u8 \<Rightarrow> u8 parser" where
  "ber_read_enumerated count =
     bindp (ber_read_universal_tag BER_TAG_ENUMERATED False) (\<lambda>_.
     bindp ber_read_length (\<lambda>len.
     bindp (require (len = 1)) (\<lambda>_.
     bindp (Stream_CheckAndLogRequiredLength 1) (\<lambda>_.
     bindp Stream_Read_UINT8 (\<lambda>e.
     bindp (require (\<not> unat e + 1 > unat count)) (\<lambda>_. ret e))))))"

definition ber_write_enumerated :: "u8 \<Rightarrow> u8 \<Rightarrow> unit parser" where
  "ber_write_enumerated e count =
     bindp (ber_write_universal_tag BER_TAG_ENUMERATED False) (\<lambda>_.
     bindp (ber_write_length 1) (\<lambda>_. Stream_Write_UINT8_unchecked e))"

definition ber_read_bit_string :: "(nat \<times> u8) parser" where
  "ber_read_bit_string =
     bindp (ber_read_universal_tag BER_TAG_BIT_STRING False) (\<lambda>_.
     bindp ber_read_length (\<lambda>len.
     bindp (Stream_CheckAndLogRequiredLength 1) (\<lambda>_.
     bindp Stream_Read_UINT8 (\<lambda>padding. ret (len, padding)))))"

definition ber_read_octet_string_tag :: "nat parser" where
  "ber_read_octet_string_tag =
     bindp (ber_read_universal_tag BER_TAG_OCTET_STRING False) (\<lambda>_. ber_read_length)"

definition ber_write_octet_string_tag :: "nat \<Rightarrow> nat parser" where
  "ber_write_octet_string_tag len =
     bindp (ber_write_universal_tag BER_TAG_OCTET_STRING False) (\<lambda>_.
     bindp (ber_write_length len) (\<lambda>_. ret (1 + ber_sizeof_length len)))"

definition ber_sizeof_octet_string :: "nat \<Rightarrow> nat" where
  "ber_sizeof_octet_string len = 1 + ber_sizeof_length len + len"

text \<open>\<^verbatim>\<open>malloc(*length)\<close> is granted or refused by the allocator of the stream's process.\<close>

definition ber_read_octet_string :: "u8 list parser" where
  "ber_read_octet_string =
     bindp ber_read_octet_string_tag (\<lambda>len.
     bindp (Stream_CheckAndLogRequiredLength len) (\<lambda>_ s.
       bindp (require (grants s len)) (\<lambda>_. Stream_Read len) s))"

definition ber_write_octet_string :: "u8 list \<Rightarrow> nat parser" where
  "ber_write_octet_string oct_str =
     bindp (ber_write_universal_tag BER_TAG_OCTET_STRING False) (\<lambda>n.
     bindp (ber_write_length (length oct_str)) (\<lambda>m.
     bindp (Stream_Write oct_str) (\<lambda>_. ret (n + m + length oct_str))))"

definition ber_write_contextual_octet_string :: "u8 \<Rightarrow> u8 list \<Rightarrow> nat parser" where
  "ber_write_contextual_octet_string tag oct_str =
     bindp (ber_write_contextual_tag tag (ber_sizeof_octet_string (length oct_str)) True) (\<lambda>r1.
       if r1 = 0 then ret 0
       else bindp (ber_write_octet_string oct_str) (\<lambda>r. if r = 0 then ret 0 else ret (r1 + r)))"

definition ber_sizeof_contextual_octet_string :: "nat \<Rightarrow> nat" where
  "ber_sizeof_contextual_octet_string len =
     (let r = ber_sizeof_octet_string len in ber_sizeof_contextual_tag r + r)"

definition ber_read_BOOL :: "bool parser" where
  "ber_read_BOOL =
     bindp (ber_read_universal_tag BER_TAG_BOOLEAN False) (\<lambda>_.
     bindp ber_read_length (\<lambda>len.
     bindp (require (len = 1)) (\<lambda>_.
     bindp (Stream_CheckAndLogRequiredLength 1) (\<lambda>_.
     bindp Stream_Read_UINT8 (\<lambda>v. ret (v \<noteq> 0))))))"

definition ber_write_BOOL :: "bool \<Rightarrow> unit parser" where
  "ber_write_BOOL b =
     bindp (ber_write_universal_tag BER_TAG_BOOLEAN False) (\<lambda>_.
     bindp (ber_write_length 1) (\<lambda>_. Stream_Write_UINT8_unchecked (if b then 0xFF else 0)))"

section \<open>Integers\<close>

definition ber_read_integer :: "u32 parser" where
  "ber_read_integer =
     bindp (ber_read_universal_tag BER_TAG_INTEGER False) (\<lambda>_.
     bindp ber_read_length (\<lambda>len.
     bindp (Stream_CheckAndLogRequiredLength len) (\<lambda>_.
       if len = 1 then bindp Stream_Read_UINT8 (\<lambda>v. ret (ucast v))
       else if len = 2 then bindp Stream_Read_UINT16_BE (\<lambda>v. ret (ucast v))
       else if len = 3 then
         bindp Stream_Read_UINT8 (\<lambda>byte.
         bindp Stream_Read_UINT16_BE (\<lambda>v. ret (ucast v + (push_bit 16 (ucast byte) AND 0xFF0000))))
       else if len = 4 then Stream_Read_UINT32_BE
       else fail)))"

text \<open>The call with a null \<^verbatim>\<open>value\<close> only steps over the announced bytes.\<close>

definition ber_skip_integer :: "unit parser" where
  "ber_skip_integer =
     bindp (ber_read_universal_tag BER_TAG_INTEGER False) (\<lambda>_.
     bindp ber_read_length (\<lambda>len.
     bindp (Stream_CheckAndLogRequiredLength len) (\<lambda>_. Stream_SafeSeek len)))"

text \<open>\<^verbatim>\<open>WINPR_ASSERTING_INT_CAST(UINT8, v)\<close> and \<^verbatim>\<open>WINPR_ASSERTING_INT_CAST(UINT16, v)\<close> assert
  that the cast keeps the value.\<close>

definition asserting_cast_u8 :: "u32 \<Rightarrow> u8 parser" where
  "asserting_cast_u8 v = bindp (winpr_assert (v = ucast (ucast v :: u8))) (\<lambda>_. ret (ucast v))"

definition asserting_cast_u16 :: "u32 \<Rightarrow> u16 parser" where
  "asserting_cast_u16 v = bindp (winpr_assert (v = ucast (ucast v :: u16))) (\<lambda>_. ret (ucast v))"

definition ber_write_integer :: "u32 \<Rightarrow> nat parser" where
  "ber_write_integer value =
     bindp (ber_write_universal_tag BER_TAG_INTEGER False) (\<lambda>_.
       if value < 0x80 then
         bindp (ber_write_length 1) (\<lambda>_.
         bindp (asserting_cast_u8 value) (\<lambda>b.
         bindp (Stream_Write_UINT8_unchecked b) (\<lambda>_. ret 3)))
       else if value < 0x8000 then
         bindp (ber_write_length 2) (\<lambda>_.
         bindp (asserting_cast_u16 value) (\<lambda>w.
         bindp (Stream_Write_UINT16_BE_unchecked w) (\<lambda>_. ret 4)))
       else if value < 0x800000 then
         bindp (ber_write_length 3) (\<lambda>_.
         bindp (asserting_cast_u8 (drop_bit 16 value)) (\<lambda>b.
         bindp (Stream_Write_UINT8_unchecked b) (\<lambda>_.
         bindp (asserting_cast_u16 value) (\<lambda>w.
         bindp (Stream_Write_UINT16_BE_unchecked w) (\<lambda>_. ret 5)))))
       else
         bindp (ber_write_length 4) (\<lambda>_.
         bindp (Stream_Write_UINT32_BE_unchecked value) (\<lambda>_. ret 6)))"

definition ber_sizeof_integer :: "u32 \<Rightarrow> nat" where
  "ber_sizeof_integer value =
     (if value < 0x80 then 3 else if value < 0x8000 then 4 else if value < 0x800000 then 5 else 6)"

definition ber_write_contextual_integer :: "u8 \<Rightarrow> u32 \<Rightarrow> nat parser" where
  "ber_write_contextual_integer tag value =
     (let len = ber_sizeof_integer value in
     bindp (\<lambda>s. case Stream_EnsureRemainingCapacity (len + 5) s of Ret _ t \<Rightarrow> Ret () t | _ \<Rightarrow> Abort) (\<lambda>_.
     bindp (ber_write_contextual_tag tag len True) (\<lambda>n.
     bindp (ber_write_integer value) (\<lambda>m. if m = 0 then ret 0 else ret (len + n)))))"

definition ber_sizeof_contextual_integer :: "u32 \<Rightarrow> nat" where
  "ber_sizeof_contextual_integer value =
     (let intSize = ber_sizeof_integer value in ber_sizeof_contextual_tag intSize + intSize)"

definition ber_read_integer_length :: "nat parser" where
  "ber_read_integer_length =
     bindp (ber_read_universal_tag BER_TAG_INTEGER False) (\<lambda>_. ber_read_length)"

section \<open>The readers stay inside their input\<close>

text \<open>A tag that is looked at and put back.\<close>

lemma reads_rewind:
  assumes "\<And>b. reads_ok c (k b)"
  shows "reads_ok (Suc c) (bindp Stream_Read_UINT8 (\<lambda>b.
     if P b then bindp (Stream_Rewind 1) (\<lambda>_. fail) else k b))"
proof (rule reads_okI, rule tripleI)
  fix B L p s assume w: "window B L p (Suc c) s"
  let ?b = "hd (drop (pointer s) (buffer s)) :: u8"
  have r: "Stream_Read_UINT8 s = Ret ?b (adv 1 s)"
    using w by (auto simp: window_def stream_read_u8_def stream_read_def stream_defs bindp_def adv_def Let_def)
  from w have w1: "window B L p c (adv 1 s)" and w0: "window B L p 0 s" by (auto simp: window_def)
  have rw: "Stream_Rewind 1 (adv 1 s) = Ret () s" by (simp add: Stream_Rewind_def adv_def)
  from tripleD [OF reads_okD [OF assms] w1, of ?b]
  show "case bindp Stream_Read_UINT8 (\<lambda>b. if P b then bindp (Stream_Rewind 1) (\<lambda>_. fail) else k b) s of
      Abort \<Rightarrow> False | Fail t \<Rightarrow> window B L p 0 t | Ret x t \<Rightarrow> window B L p 0 t"
    using r rw w0 by simp
qed

lemma reads_ber_length [reads_intros]: "reads_ok n ber_read_length"
  unfolding ber_read_length_def by (intro reads_intros) simp_all

lemma reads_ber_universal_tag [reads_intros]: "reads_ok n (ber_read_universal_tag tag pc)"
  unfolding ber_read_universal_tag_def by (intro reads_intros) simp_all

lemmas [reads_intros] = reads_call [OF reads_ber_length] reads_call [OF reads_ber_universal_tag]

lemma reads_ber_application_tag [reads_intros]: "reads_ok n (ber_read_application_tag tag)"
  unfolding ber_read_application_tag_def by (intro reads_intros) simp_all

lemma reads_ber_contextual_tag [reads_intros]: "reads_ok n (ber_read_contextual_tag tag pc)"
proof -
  have "reads_ok rem (if rem < 1 then fail
      else bindp Stream_Read_UINT8 (\<lambda>b. if b \<noteq> e then bindp (Stream_Rewind 1) (\<lambda>_. fail) else ber_read_length))"
    for rem :: nat and e
    by (cases rem) (auto intro: reads_intros reads_rewind)
  then show ?thesis unfolding ber_read_contextual_tag_def Let_def by (intro reads_remaining_bindp)
qed

lemma reads_ber_sequence_tag [reads_intros]: "reads_ok n ber_read_sequence_tag"
  unfolding ber_read_sequence_tag_def by (intro reads_intros) simp_all

lemma reads_ber_enumerated [reads_intros]: "reads_ok n (ber_read_enumerated count)"
  unfolding ber_read_enumerated_def by (intro reads_intros) simp_all

lemma reads_ber_bit_string [reads_intros]: "reads_ok n ber_read_bit_string"
  unfolding ber_read_bit_string_def by (intro reads_intros; simp)

lemma reads_ber_octet_string_tag [reads_intros]: "reads_ok n ber_read_octet_string_tag"
  unfolding ber_read_octet_string_tag_def by (intro reads_intros; simp)

lemma reads_state_choice:
  "(\<And>x. reads_ok n (m x)) \<Longrightarrow> reads_ok n (\<lambda>s. m (f s) s)"
  unfolding reads_ok_def triple_def by blast

lemma reads_ber_octet_string [reads_intros]: "reads_ok n ber_read_octet_string"
proof -
  have "reads_ok len (bindp (require (grants s len)) (\<lambda>_. Stream_Read len))" for s len
    by (intro reads_intros) simp_all
  from reads_state_choice [where f = "\<lambda>s. s", OF this]
  show ?thesis unfolding ber_read_octet_string_def
    by (intro reads_call [OF reads_ber_octet_string_tag] reads_check_bindp)
qed

lemma reads_ber_BOOL [reads_intros]: "reads_ok n ber_read_BOOL"
  unfolding ber_read_BOOL_def by (intro reads_intros) simp_all

lemma reads_ber_integer [reads_intros]: "reads_ok n ber_read_integer"
  unfolding ber_read_integer_def by (intro reads_intros) simp_all

lemma reads_ber_skip_integer [reads_intros]: "reads_ok n ber_skip_integer"
  unfolding ber_skip_integer_def by (intro reads_intros)

lemma reads_ber_integer_length [reads_intros]: "reads_ok n ber_read_integer_length"
  unfolding ber_read_integer_length_def by (intro reads_intros; simp)

lemmas [reads_intros] =
  reads_call [OF reads_ber_application_tag] reads_call [OF reads_ber_contextual_tag]
  reads_call [OF reads_ber_sequence_tag] reads_call [OF reads_ber_enumerated]
  reads_call [OF reads_ber_bit_string] reads_call [OF reads_ber_octet_string_tag]
  reads_call [OF reads_ber_octet_string] reads_call [OF reads_ber_BOOL]
  reads_call [OF reads_ber_integer] reads_call [OF reads_ber_skip_integer]
  reads_call [OF reads_ber_integer_length]

section \<open>Formats\<close>

lemma emits_assert_room [emit_intros]:
  assumes "n \<le> length bs" and "emits (k ()) bs x"
  shows "emits (bindp (assert_room n) k) bs x"
proof (rule emitsI)
  fix s assume r: "room (length bs) s"
  with assms(1) have "assert_room n s = Ret () s"
    by (auto simp: assert_room_def stream_defs bindp_def room_def)
  with r assms(2) show "bindp (assert_room n) k s = Ret x (put bs s)" by (simp add: emitsD)
qed

subsection \<open>Lengths\<close>

definition enc_ber_length :: "nat \<Rightarrow> u8 list" where
  "enc_ber_length len =
     (if len > 0xFF then 0x82 # winpr_Data_Write_UINT16_BE (of_nat len)
      else if len > 0x7F then [0x81, of_nat len] else [of_nat len])"

definition ber_length_valid :: "nat \<Rightarrow> bool" where
  "ber_length_valid len \<longleftrightarrow> len \<le> UINT16_MAX"

lemma length_enc_ber_length [simp]: "length (enc_ber_length len) = ber_sizeof_length len"
  by (simp add: enc_ber_length_def ber_sizeof_length_def)

lemma emits_ber_length [emit_intros]:
  "ber_length_valid len \<Longrightarrow> emits (k (ber_sizeof_length len)) bs x \<Longrightarrow>
     emits (bindp (ber_write_length len) k) (enc_ber_length len @ bs) x"
  unfolding ber_write_length_def enc_ber_length_def ber_sizeof_length_def
  by (auto simp: bindp_assoc ber_length_valid_def intro!: emit_intros)

lemma ber_length_flag:
  "n \<le> 0x7F \<Longrightarrow> \<not> (of_nat n :: u8) AND 0x80 \<noteq> 0" "n \<le> 0xFF \<Longrightarrow> unat (of_nat n :: u8) = n"
  "n \<le> UINT16_MAX \<Longrightarrow> unat (of_nat n :: u16) = n"
  unfolding and_flag_bit7
  by (intro lt_exp_not_bit) (auto simp: unat_of_nat take_bit_nat_eq_self UINT16_MAX_def)

lemma parses_ber_length:
  assumes "ber_length_valid len"
  shows "parses ber_read_length (enc_ber_length len) ys len"
proof -
  have f: "(0x82 :: u8) AND 0x80 \<noteq> 0" "(0x81 :: u8) AND 0x80 \<noteq> 0"
    "(0x82 :: u8) AND NOT 0x80 = 2" "(0x81 :: u8) AND NOT 0x80 = 1" by simp_all
  consider "len > 0xFF" | "len \<le> 0xFF" "len > 0x7F" | "len \<le> 0x7F" by linarith
  then show ?thesis
  proof cases
    case 1
    have "parses ber_read_length (0x82 # winpr_Data_Write_UINT16_BE (of_nat len)) ys len"
      unfolding ber_read_length_def Let_def
      by (intro parse_intros, simp, subst if_P [OF f(1)], unfold f)
        (use assms in \<open>auto simp: ber_length_flag ber_length_valid_def intro!: parse_intros intro: parses_ret\<close>)
    with 1 show ?thesis by (simp add: enc_ber_length_def)
  next
    case 2
    have "parses ber_read_length [0x81, of_nat len] ys len"
      unfolding ber_read_length_def Let_def
      by (intro parse_intros, simp, subst if_P [OF f(2)], unfold f)
        (use 2 in \<open>auto simp: ber_length_flag intro!: parse_intros intro: parses_ret\<close>)
    with 2 show ?thesis by (simp add: enc_ber_length_def)
  next
    case 3
    have "parses ber_read_length [of_nat len] ys len"
      unfolding ber_read_length_def Let_def
      by (intro parse_intros, simp, subst if_not_P [OF ber_length_flag(1) [OF 3]])
        (use 3 in \<open>auto simp: ber_length_flag intro: parses_ret\<close>)
    with 3 show ?thesis by (simp add: enc_ber_length_def)
  qed
qed

lemma parses_ber_length_bindp [parse_intros]:
  "ber_length_valid len \<Longrightarrow> parses (k len) bs ys x \<Longrightarrow>
     parses (bindp ber_read_length k) (enc_ber_length len @ bs) ys x"
  by (rule parses_bindp [OF parses_ber_length])

lemmas [parse_intros] = parses_ber_length [unfolded append_Nil2]
  parses_ber_length_bindp [where bs = "[]", simplified]
lemmas [emit_intros] = emits_ber_length [where bs = "[]", simplified]
  emits_ber_length [where k = ret, OF _ emits_ret, unfolded bindp_ret, simplified]

interpretation ber_length: wire_format ber_write_length ber_read_length enc_ber_length ber_length_valid
proof
  show "\<exists>r. emits (ber_write_length len) (enc_ber_length len) r" if "ber_length_valid len" for len
    using that by (blast intro: emit_intros)
qed (rule parses_ber_length)

subsection \<open>Tags\<close>

definition enc_ber_universal :: "u8 \<Rightarrow> bool \<Rightarrow> u8 list" where
  "enc_ber_universal tag pc = [(BER_CLASS_UNIV OR BER_PC pc) OR (BER_TAG_MASK AND tag)]"

definition enc_ber_application :: "u8 \<Rightarrow> nat \<Rightarrow> u8 list" where
  "enc_ber_application tag len =
     (if tag > 30 then [(BER_CLASS_APPL OR BER_CONSTRUCT) OR BER_TAG_MASK, tag]
      else [(BER_CLASS_APPL OR BER_CONSTRUCT) OR (BER_TAG_MASK AND tag)]) @ enc_ber_length len"

definition enc_ber_contextual :: "u8 \<Rightarrow> bool \<Rightarrow> nat \<Rightarrow> u8 list" where
  "enc_ber_contextual tag pc len =
     ((BER_CLASS_CTXT OR BER_PC pc) OR (BER_TAG_MASK AND tag)) # enc_ber_length len"

definition enc_ber_sequence :: "nat \<Rightarrow> u8 list" where
  "enc_ber_sequence len = ((BER_CLASS_UNIV OR BER_CONSTRUCT) OR BER_TAG_SEQUENCE) # enc_ber_length len"

lemma length_enc_ber_universal [simp]: "length (enc_ber_universal tag pc) = 1"
  by (simp add: enc_ber_universal_def)

lemma emits_ber_universal [emit_intros]:
  "emits (k 1) bs x \<Longrightarrow> emits (bindp (ber_write_universal_tag tag pc) k) (enc_ber_universal tag pc @ bs) x"
  unfolding ber_write_universal_tag_def enc_ber_universal_def
  by (auto simp: bindp_assoc intro: emit_intros)

lemma parses_ber_universal [parse_intros]:
  "parses (k ()) bs ys x \<Longrightarrow>
     parses (bindp (ber_read_universal_tag tag pc) k) (enc_ber_universal tag pc @ bs) ys x"
  unfolding ber_read_universal_tag_def enc_ber_universal_def Let_def or.assoc bindp_assoc
  by (auto intro!: parse_intros)

lemma emits_ber_application [emit_intros]:
  "ber_length_valid len \<Longrightarrow> emits (k ()) bs x \<Longrightarrow>
     emits (bindp (ber_write_application_tag tag len) k) (enc_ber_application tag len @ bs) x"
  unfolding ber_write_application_tag_def enc_ber_application_def
  by (auto simp: bindp_assoc intro!: emit_intros)

lemma parses_ber_application [parse_intros]:
  "ber_length_valid len \<Longrightarrow> parses (k len) bs ys x \<Longrightarrow>
     parses (bindp (ber_read_application_tag tag) k) (enc_ber_application tag len @ bs) ys x"
  unfolding ber_read_application_tag_def enc_ber_application_def Let_def
  by (auto simp: bindp_assoc intro!: parse_intros)

lemma emits_ber_contextual [emit_intros]:
  "ber_length_valid len \<Longrightarrow> emits (k (1 + ber_sizeof_length len)) bs x \<Longrightarrow>
     emits (bindp (ber_write_contextual_tag tag len pc) k) (enc_ber_contextual tag pc len @ bs) x"
  unfolding ber_write_contextual_tag_def enc_ber_contextual_def
  by (auto simp: bindp_assoc intro!: emit_intros)

lemma parses_ber_contextual [parse_intros]:
  assumes "ber_length_valid len" and "parses (k len) bs ys x"
  shows "parses (bindp (ber_read_contextual_tag tag pc) k) (enc_ber_contextual tag pc len @ bs) ys x"
proof (rule parses_bindp [where k = k, OF _ assms(2)])
  let ?e = "(BER_CLASS_CTXT OR BER_PC pc) OR (BER_TAG_MASK AND tag)"
  have "parses (bindp Stream_Read_UINT8 (\<lambda>byte. if byte \<noteq> ?e then bindp (Stream_Rewind 1) (\<lambda>_. fail)
      else ber_read_length)) (?e # enc_ber_length len) (bs @ ys) len"
    using assms(1) by (intro parses_u8) (simp add: parses_ber_length)
  then show "parses (ber_read_contextual_tag tag pc) (enc_ber_contextual tag pc len) (bs @ ys) len"
    unfolding ber_read_contextual_tag_def Let_def enc_ber_contextual_def
    by (intro parses_remaining_bindp) auto
qed

lemma emits_ber_sequence [emit_intros]:
  "ber_length_valid len \<Longrightarrow> emits (k (1 + ber_sizeof_length len)) bs x \<Longrightarrow>
     emits (bindp (ber_write_sequence_tag len) k) (enc_ber_sequence len @ bs) x"
  unfolding ber_write_sequence_tag_def enc_ber_sequence_def
  by (auto simp: bindp_assoc ber_tags intro!: emit_intros)

lemma parses_ber_sequence [parse_intros]:
  "ber_length_valid len \<Longrightarrow> parses (k len) bs ys x \<Longrightarrow>
     parses (bindp ber_read_sequence_tag k) (enc_ber_sequence len @ bs) ys x"
  unfolding ber_read_sequence_tag_def enc_ber_sequence_def Let_def
  by (auto simp: bindp_assoc ber_tags intro!: parse_intros)

lemmas [emit_intros] =
  emits_ber_universal [where bs = "[]", simplified]
  emits_ber_application [where bs = "[]", simplified]
  emits_ber_contextual [where bs = "[]", simplified]
  emits_ber_sequence [where bs = "[]", simplified]

lemmas [parse_intros] =
  parses_ber_universal [where bs = "[]", simplified]
  parses_ber_application [where bs = "[]", simplified]
  parses_ber_contextual [where bs = "[]", simplified]
  parses_ber_sequence [where bs = "[]", simplified]

subsection \<open>Values\<close>

definition enc_ber_enumerated :: "u8 \<Rightarrow> u8 list" where
  "enc_ber_enumerated e = enc_ber_universal BER_TAG_ENUMERATED False @ enc_ber_length 1 @ [e]"

definition enc_ber_octet_string_tag :: "nat \<Rightarrow> u8 list" where
  "enc_ber_octet_string_tag len = enc_ber_universal BER_TAG_OCTET_STRING False @ enc_ber_length len"

definition enc_ber_BOOL :: "bool \<Rightarrow> u8 list" where
  "enc_ber_BOOL b = enc_ber_universal BER_TAG_BOOLEAN False @ enc_ber_length 1 @ [if b then 0xFF else 0]"

lemma ber_small_lengths: "n \<le> 127 \<Longrightarrow> ber_length_valid n"
  by (simp add: ber_length_valid_def UINT16_MAX_def)

lemma emits_ber_enumerated [emit_intros]:
  "emits (k ()) bs x \<Longrightarrow> emits (bindp (ber_write_enumerated e count) k) (enc_ber_enumerated e @ bs) x"
  unfolding ber_write_enumerated_def enc_ber_enumerated_def bindp_assoc append_assoc
  by (intro emit_intros ber_small_lengths, simp, simp, intro emit_intros)

lemma parses_ber_enumerated [parse_intros]:
  "unat e < unat count \<Longrightarrow> parses (k e) bs ys x \<Longrightarrow>
     parses (bindp (ber_read_enumerated count) k) (enc_ber_enumerated e @ bs) ys x"
  unfolding ber_read_enumerated_def enc_ber_enumerated_def bindp_assoc append_assoc
  by (intro parse_intros ber_small_lengths, simp, simp, simp, simp, intro parse_intros, simp_all)

lemma emits_ber_octet_string_tag [emit_intros]:
  "ber_length_valid len \<Longrightarrow> emits (k (1 + ber_sizeof_length len)) bs x \<Longrightarrow>
     emits (bindp (ber_write_octet_string_tag len) k) (enc_ber_octet_string_tag len @ bs) x"
  unfolding ber_write_octet_string_tag_def enc_ber_octet_string_tag_def bindp_assoc append_assoc bindp_left
  by (intro emit_intros)

lemma parses_ber_octet_string_tag [parse_intros]:
  "ber_length_valid len \<Longrightarrow> parses (k len) bs ys x \<Longrightarrow>
     parses (bindp ber_read_octet_string_tag k) (enc_ber_octet_string_tag len @ bs) ys x"
  unfolding ber_read_octet_string_tag_def enc_ber_octet_string_tag_def bindp_assoc append_assoc
  by (intro parse_intros)

lemma emits_ber_BOOL [emit_intros]:
  "emits (k ()) bs x \<Longrightarrow> emits (bindp (ber_write_BOOL b) k) (enc_ber_BOOL b @ bs) x"
  unfolding ber_write_BOOL_def enc_ber_BOOL_def bindp_assoc append_assoc append.simps
  by (intro emit_intros ber_small_lengths) simp_all

lemma parses_ber_BOOL [parse_intros]:
  "parses (k b) bs ys x \<Longrightarrow> parses (bindp ber_read_BOOL k) (enc_ber_BOOL b @ bs) ys x"
  unfolding ber_read_BOOL_def enc_ber_BOOL_def bindp_assoc append_assoc append.simps
  by (intro parse_intros ber_small_lengths; cases b; simp)

lemmas [emit_intros] =
  emits_ber_enumerated [where bs = "[]", simplified]
  emits_ber_octet_string_tag [where bs = "[]", simplified]
  emits_ber_BOOL [where bs = "[]", simplified]

lemmas [parse_intros] =
  parses_ber_enumerated [where bs = "[]", simplified]
  parses_ber_octet_string_tag [where bs = "[]", simplified]
  parses_ber_BOOL [where bs = "[]", simplified]

subsection \<open>Integers\<close>

text \<open>The three-octet form asserts that all of \<^verbatim>\<open>value\<close> fits sixteen bits before it writes the
  low half, so that a value of seventeen to twenty-three bits aborts instead of being written.\<close>

definition ber_integer_valid :: "u32 \<Rightarrow> bool" where
  "ber_integer_valid v \<longleftrightarrow> v \<le> 0xFFFF \<or> v \<ge> 0x800000"

definition enc_ber_integer :: "u32 \<Rightarrow> u8 list" where
  "enc_ber_integer v = enc_ber_universal BER_TAG_INTEGER False @
     (if v < 0x80 then enc_ber_length 1 @ [ucast v]
      else if v < 0x8000 then enc_ber_length 2 @ winpr_Data_Write_UINT16_BE (ucast v)
      else if v < 0x800000 then enc_ber_length 3 @ ucast (drop_bit 16 v) # winpr_Data_Write_UINT16_BE (ucast v)
      else enc_ber_length 4 @ winpr_Data_Write_UINT32_BE v)"

lemma ber_sizeof_integer_pos: "ber_sizeof_integer v \<noteq> 0"
  by (simp add: ber_sizeof_integer_def)

lemma length_enc_ber_integer [simp]: "length (enc_ber_integer v) = ber_sizeof_integer v"
  by (simp add: enc_ber_integer_def ber_sizeof_integer_def ber_sizeof_length_def)

lemma cast_u8_ok: "unat (v :: u32) < 256 \<Longrightarrow> asserting_cast_u8 v = ret (ucast v)"
  unfolding asserting_cast_u8_def by (rule ext) (simp add: ucast_byte_back)

lemma cast_u16_ok: "unat (v :: u32) < 65536 \<Longrightarrow> asserting_cast_u16 v = ret (ucast v)"
  unfolding asserting_cast_u16_def by (rule ext) (simp add: ucast_u16_back)

lemma small_high_byte: "v \<le> (0xFFFF :: u32) \<Longrightarrow> drop_bit 16 v = 0"
  by (simp add: word_unat_eq_iff word_le_nat_alt drop_bit_eq_div unat_div)

lemma emits_ber_integer [emit_intros]:
  assumes "ber_integer_valid v" and k: "emits (k (ber_sizeof_integer v)) bs x"
  shows "emits (bindp (ber_write_integer v) k) (enc_ber_integer v @ bs) x"
proof -
  consider "v < 0x80" | "\<not> v < 0x80" "v < 0x8000" | "\<not> v < 0x8000" "v \<le> 0xFFFF" | "v \<ge> 0x800000"
    using assms(1) by (auto simp: ber_integer_valid_def)
  then show ?thesis
  proof cases
    case 1
    then have "unat v < 256" by (simp add: word_less_nat_alt)
    with 1 k show ?thesis
      unfolding ber_write_integer_def enc_ber_integer_def bindp_assoc append_assoc
      by (auto simp: bindp_assoc cast_u8_ok ber_sizeof_integer_def intro!: emit_intros ber_small_lengths)
  next
    case 2
    then have "unat v < 65536" by (simp add: word_less_nat_alt)
    with 2 k show ?thesis
      unfolding ber_write_integer_def enc_ber_integer_def bindp_assoc append_assoc
      by (auto simp: bindp_assoc cast_u16_ok ber_sizeof_integer_def intro!: emit_intros ber_small_lengths)
  next
    case 3
    then have "unat v < 65536" "\<not> v < 0x80" "v < 0x800000" "drop_bit 16 v = 0"
      by (auto simp: word_less_nat_alt word_le_nat_alt small_high_byte)
    with 3 k show ?thesis
      unfolding ber_write_integer_def enc_ber_integer_def bindp_assoc append_assoc
      by (auto simp: bindp_assoc cast_u16_ok cast_u8_ok ber_sizeof_integer_def intro!: emit_intros ber_small_lengths)
  next
    case 4
    then have "\<not> v < 0x80" "\<not> v < 0x8000" "\<not> v < 0x800000"
      by (auto simp: word_less_nat_alt word_le_nat_alt)
    with k show ?thesis
      unfolding ber_write_integer_def enc_ber_integer_def bindp_assoc append_assoc
      by (auto simp: bindp_assoc ber_sizeof_integer_def intro!: emit_intros ber_small_lengths)
  qed
qed

lemma parses_ber_integer [parse_intros]:
  assumes "ber_integer_valid v" and k: "parses (k v) bs ys x"
  shows "parses (bindp ber_read_integer k) (enc_ber_integer v @ bs) ys x"
proof -
  consider "v < 0x80" | "\<not> v < 0x80" "v < 0x8000" | "\<not> v < 0x8000" "v \<le> 0xFFFF" | "v \<ge> 0x800000"
    using assms(1) by (auto simp: ber_integer_valid_def)
  then show ?thesis
  proof cases
    case 1
    then have "ucast (ucast v :: u8) = v" by (intro ucast_byte_back) (simp add: word_less_nat_alt)
    with 1 k show ?thesis
      unfolding ber_read_integer_def enc_ber_integer_def bindp_assoc append_assoc
      by (auto simp: bindp_assoc intro!: parse_intros ber_small_lengths)
  next
    case 2
    then have "ucast (ucast v :: u16) = v" by (intro ucast_u16_back) (simp add: word_less_nat_alt)
    with 2 k show ?thesis
      unfolding ber_read_integer_def enc_ber_integer_def bindp_assoc append_assoc
      by (auto simp: bindp_assoc intro!: parse_intros ber_small_lengths)
  next
    case 3
    then have "ucast (ucast v :: u16) = v" "\<not> v < 0x80" "v < 0x800000" "drop_bit 16 v = 0"
      by (auto simp: word_less_nat_alt word_le_nat_alt small_high_byte intro!: ucast_u16_back)
    with 3 k show ?thesis
      unfolding ber_read_integer_def enc_ber_integer_def bindp_assoc append_assoc
      by (auto simp: bindp_assoc intro!: parse_intros ber_small_lengths)
  next
    case 4
    then have "\<not> v < 0x80" "\<not> v < 0x8000" "\<not> v < 0x800000"
      by (auto simp: word_less_nat_alt word_le_nat_alt)
    with k show ?thesis
      unfolding ber_read_integer_def enc_ber_integer_def bindp_assoc append_assoc
      by (auto simp: bindp_assoc intro!: parse_intros ber_small_lengths)
  qed
qed

lemmas [emit_intros] = emits_ber_integer [where bs = "[]", simplified]
  emits_ber_integer [where k = ret, OF _ emits_ret, unfolded bindp_ret, simplified]
lemmas [parse_intros] = parses_ber_integer [where bs = "[]", simplified]
  parses_ber_integer [where k = ret, OF _ parses_ret, unfolded bindp_ret, simplified]

interpretation ber_integer: wire_format ber_write_integer ber_read_integer enc_ber_integer ber_integer_valid
proof
  show "\<exists>r. emits (ber_write_integer v) (enc_ber_integer v) r" if "ber_integer_valid v" for v
    using that by (blast intro: emit_intros)
  show "parses ber_read_integer (enc_ber_integer v) ys v" if "ber_integer_valid v" for v ys
    using that by (intro parse_intros)
qed

text \<open>The writers either write or trip an assertion, so an assertion that must fail later on
  aborts the whole call.\<close>

definition aborts :: "('a, 's) prog \<Rightarrow> bool" where
  "aborts m \<longleftrightarrow> (\<forall>s. m s = Abort)"

definition nofail :: "('a, 's) prog \<Rightarrow> bool" where
  "nofail m \<longleftrightarrow> (\<forall>s t. m s \<noteq> Fail t)"

lemma aborts_bindp: "nofail m \<Longrightarrow> (\<And>x. aborts (k x)) \<Longrightarrow> aborts (bindp m k)"
  unfolding aborts_def nofail_def bindp_def by (auto split: outcome.splits)

lemma aborts_assert: "\<not> b \<Longrightarrow> aborts (bindp (winpr_assert b) k)"
  by (simp add: aborts_def bindp_def)

lemma nofail_bindp: "nofail m \<Longrightarrow> (\<And>x. nofail (k x)) \<Longrightarrow> nofail (bindp m k)"
  unfolding nofail_def bindp_def by (auto split: outcome.splits)

lemma nofail_ret: "nofail (ret x)"
  by (simp add: nofail_def)

lemma nofail_assert: "nofail (winpr_assert b)"
  by (simp add: nofail_def)

lemma nofail_remaining: "nofail Stream_GetRemainingCapacity"
  by (simp add: nofail_def Stream_GetRemainingCapacity_def)

lemma nofail_writers:
  "nofail (Stream_Write_UINT8_unchecked b)" "nofail (Stream_Write_UINT16_BE_unchecked w)"
  by (auto simp: nofail_def Stream_Write_UINT8_unchecked_def Stream_Write_UINT16_BE_unchecked_def
      stream_store_def bindp_def stream_defs)

lemmas nofail_intros = nofail_bindp nofail_ret nofail_assert nofail_remaining nofail_writers

lemma nofail_ber_length: "nofail (ber_write_length len)"
  unfolding ber_write_length_def assert_room_def by (auto intro!: nofail_intros)

lemma nofail_ber_universal: "nofail (ber_write_universal_tag tag pc)"
  unfolding ber_write_universal_tag_def by (auto intro!: nofail_intros)

lemma nofail_cast: "nofail (asserting_cast_u8 v)"
  unfolding asserting_cast_u8_def by (auto intro!: nofail_intros)

lemma cast_u16_aborts:
  assumes "v > 0xFFFF"
  shows "aborts (bindp (asserting_cast_u16 v) k)"
proof -
  have "unat (ucast (ucast v :: u16) :: u32) < 65536"
    by (simp add: ucast_down_up take_bit_eq_mod unat_mod)
  with assms have "v \<noteq> ucast (ucast v :: u16)" by (auto simp: word_less_nat_alt)
  then show ?thesis unfolding asserting_cast_u16_def bindp_assoc by (rule aborts_assert)
qed

lemma ber_integer_aborts:
  assumes "\<not> ber_integer_valid v"
  shows "aborts (ber_write_integer v)"
proof -
  from assms have v: "v > 0xFFFF" "\<not> v < 0x80" "\<not> v < 0x8000" "v < 0x800000"
    by (auto simp: ber_integer_valid_def word_less_nat_alt word_le_nat_alt)
  then show ?thesis
    unfolding ber_write_integer_def
    by (simp, intro aborts_bindp cast_u16_aborts nofail_ber_universal nofail_ber_length nofail_cast
        nofail_writers) simp_all
qed

end
