(* ===== verification/McsPdu.thy ===== *)
theory McsPdu
  imports Main
begin

text \<open>
  The enumeration \<^verbatim>\<open>DomainMCSPDU\<close> of \<^verbatim>\<open>libfreerdp/core/mcs.h\<close>, its values, and its names.
\<close>

section \<open>Data of \<^verbatim>\<open>mcs.h\<close>\<close>

datatype DomainMCSPDU =
    DomainMCSPDU_invalid
  | DomainMCSPDU_PlumbDomainIndication
  | DomainMCSPDU_ErectDomainRequest
  | DomainMCSPDU_MergeChannelsRequest
  | DomainMCSPDU_MergeChannelsConfirm
  | DomainMCSPDU_PurgeChannelsIndication
  | DomainMCSPDU_MergeTokensRequest
  | DomainMCSPDU_MergeTokensConfirm
  | DomainMCSPDU_PurgeTokensIndication
  | DomainMCSPDU_DisconnectProviderUltimatum
  | DomainMCSPDU_RejectMCSPDUUltimatum
  | DomainMCSPDU_AttachUserRequest
  | DomainMCSPDU_AttachUserConfirm
  | DomainMCSPDU_DetachUserRequest
  | DomainMCSPDU_DetachUserIndication
  | DomainMCSPDU_ChannelJoinRequest
  | DomainMCSPDU_ChannelJoinConfirm
  | DomainMCSPDU_ChannelLeaveRequest
  | DomainMCSPDU_ChannelConveneRequest
  | DomainMCSPDU_ChannelConveneConfirm
  | DomainMCSPDU_ChannelDisbandRequest
  | DomainMCSPDU_ChannelDisbandIndication
  | DomainMCSPDU_ChannelAdmitRequest
  | DomainMCSPDU_ChannelAdmitIndication
  | DomainMCSPDU_ChannelExpelRequest
  | DomainMCSPDU_ChannelExpelIndication
  | DomainMCSPDU_SendDataRequest
  | DomainMCSPDU_SendDataIndication
  | DomainMCSPDU_UniformSendDataRequest
  | DomainMCSPDU_UniformSendDataIndication
  | DomainMCSPDU_TokenGrabRequest
  | DomainMCSPDU_TokenGrabConfirm
  | DomainMCSPDU_TokenInhibitRequest
  | DomainMCSPDU_TokenInhibitConfirm
  | DomainMCSPDU_TokenGiveRequest
  | DomainMCSPDU_TokenGiveIndication
  | DomainMCSPDU_TokenGiveResponse
  | DomainMCSPDU_TokenGiveConfirm
  | DomainMCSPDU_TokenPleaseRequest
  | DomainMCSPDU_TokenPleaseConfirm
  | DomainMCSPDU_TokenReleaseRequest
  | DomainMCSPDU_TokenReleaseConfirm
  | DomainMCSPDU_TokenTestRequest
  | DomainMCSPDU_TokenTestConfirm
  | DomainMCSPDU_enum_length

text \<open>The enumerators from value 0 on, so that a value is a position in the list.\<close>

definition domain_pdus :: "DomainMCSPDU list" where
  "domain_pdus =
    [DomainMCSPDU_PlumbDomainIndication, DomainMCSPDU_ErectDomainRequest,
     DomainMCSPDU_MergeChannelsRequest, DomainMCSPDU_MergeChannelsConfirm,
     DomainMCSPDU_PurgeChannelsIndication, DomainMCSPDU_MergeTokensRequest,
     DomainMCSPDU_MergeTokensConfirm, DomainMCSPDU_PurgeTokensIndication,
     DomainMCSPDU_DisconnectProviderUltimatum, DomainMCSPDU_RejectMCSPDUUltimatum,
     DomainMCSPDU_AttachUserRequest, DomainMCSPDU_AttachUserConfirm,
     DomainMCSPDU_DetachUserRequest, DomainMCSPDU_DetachUserIndication,
     DomainMCSPDU_ChannelJoinRequest, DomainMCSPDU_ChannelJoinConfirm,
     DomainMCSPDU_ChannelLeaveRequest, DomainMCSPDU_ChannelConveneRequest,
     DomainMCSPDU_ChannelConveneConfirm, DomainMCSPDU_ChannelDisbandRequest,
     DomainMCSPDU_ChannelDisbandIndication, DomainMCSPDU_ChannelAdmitRequest,
     DomainMCSPDU_ChannelAdmitIndication, DomainMCSPDU_ChannelExpelRequest,
     DomainMCSPDU_ChannelExpelIndication, DomainMCSPDU_SendDataRequest,
     DomainMCSPDU_SendDataIndication, DomainMCSPDU_UniformSendDataRequest,
     DomainMCSPDU_UniformSendDataIndication, DomainMCSPDU_TokenGrabRequest,
     DomainMCSPDU_TokenGrabConfirm, DomainMCSPDU_TokenInhibitRequest,
     DomainMCSPDU_TokenInhibitConfirm, DomainMCSPDU_TokenGiveRequest,
     DomainMCSPDU_TokenGiveIndication, DomainMCSPDU_TokenGiveResponse,
     DomainMCSPDU_TokenGiveConfirm, DomainMCSPDU_TokenPleaseRequest,
     DomainMCSPDU_TokenPleaseConfirm, DomainMCSPDU_TokenReleaseRequest,
     DomainMCSPDU_TokenReleaseConfirm, DomainMCSPDU_TokenTestRequest,
     DomainMCSPDU_TokenTestConfirm, DomainMCSPDU_enum_length]"

definition DomainMCSPDU_enum :: "nat \<Rightarrow> DomainMCSPDU" where
  "DomainMCSPDU_enum n = (if n > 43 then DomainMCSPDU_invalid else domain_pdus ! n)"

fun position_of :: "'a \<Rightarrow> 'a list \<Rightarrow> nat" where
  "position_of x [] = 0"
| "position_of x (y # ys) = (if x = y then 0 else Suc (position_of x ys))"

definition DomainMCSPDU_code :: "DomainMCSPDU \<Rightarrow> int" where
  "DomainMCSPDU_code d = (if d = DomainMCSPDU_invalid then -1 else int (position_of d domain_pdus))"

primrec mcs_domain_pdu_string :: "DomainMCSPDU \<Rightarrow> string" where
  "mcs_domain_pdu_string DomainMCSPDU_PlumbDomainIndication = ''DomainMCSPDU_PlumbDomainIndication''"
| "mcs_domain_pdu_string DomainMCSPDU_ErectDomainRequest = ''DomainMCSPDU_ErectDomainRequest''"
| "mcs_domain_pdu_string DomainMCSPDU_MergeChannelsRequest = ''DomainMCSPDU_MergeChannelsRequest''"
| "mcs_domain_pdu_string DomainMCSPDU_MergeChannelsConfirm = ''DomainMCSPDU_MergeChannelsConfirm''"
| "mcs_domain_pdu_string DomainMCSPDU_PurgeChannelsIndication = ''DomainMCSPDU_PurgeChannelsIndication''"
| "mcs_domain_pdu_string DomainMCSPDU_MergeTokensRequest = ''DomainMCSPDU_MergeTokensRequest''"
| "mcs_domain_pdu_string DomainMCSPDU_MergeTokensConfirm = ''DomainMCSPDU_MergeTokensConfirm''"
| "mcs_domain_pdu_string DomainMCSPDU_PurgeTokensIndication = ''DomainMCSPDU_PurgeTokensIndication''"
| "mcs_domain_pdu_string DomainMCSPDU_DisconnectProviderUltimatum = ''DomainMCSPDU_DisconnectProviderUltimatum''"
| "mcs_domain_pdu_string DomainMCSPDU_RejectMCSPDUUltimatum = ''DomainMCSPDU_RejectMCSPDUUltimatum''"
| "mcs_domain_pdu_string DomainMCSPDU_AttachUserRequest = ''DomainMCSPDU_AttachUserRequest''"
| "mcs_domain_pdu_string DomainMCSPDU_AttachUserConfirm = ''DomainMCSPDU_AttachUserConfirm''"
| "mcs_domain_pdu_string DomainMCSPDU_DetachUserRequest = ''DomainMCSPDU_DetachUserRequest''"
| "mcs_domain_pdu_string DomainMCSPDU_DetachUserIndication = ''DomainMCSPDU_DetachUserIndication''"
| "mcs_domain_pdu_string DomainMCSPDU_ChannelJoinRequest = ''DomainMCSPDU_ChannelJoinRequest''"
| "mcs_domain_pdu_string DomainMCSPDU_ChannelJoinConfirm = ''DomainMCSPDU_ChannelJoinConfirm''"
| "mcs_domain_pdu_string DomainMCSPDU_ChannelLeaveRequest = ''DomainMCSPDU_ChannelLeaveRequest''"
| "mcs_domain_pdu_string DomainMCSPDU_ChannelConveneRequest = ''DomainMCSPDU_ChannelConveneRequest''"
| "mcs_domain_pdu_string DomainMCSPDU_ChannelConveneConfirm = ''DomainMCSPDU_ChannelConveneConfirm''"
| "mcs_domain_pdu_string DomainMCSPDU_ChannelDisbandRequest = ''DomainMCSPDU_ChannelDisbandRequest''"
| "mcs_domain_pdu_string DomainMCSPDU_ChannelDisbandIndication = ''DomainMCSPDU_ChannelDisbandIndication''"
| "mcs_domain_pdu_string DomainMCSPDU_ChannelAdmitRequest = ''DomainMCSPDU_ChannelAdmitRequest''"
| "mcs_domain_pdu_string DomainMCSPDU_ChannelAdmitIndication = ''DomainMCSPDU_ChannelAdmitIndication''"
| "mcs_domain_pdu_string DomainMCSPDU_ChannelExpelRequest = ''DomainMCSPDU_ChannelExpelRequest''"
| "mcs_domain_pdu_string DomainMCSPDU_ChannelExpelIndication = ''DomainMCSPDU_ChannelExpelIndication''"
| "mcs_domain_pdu_string DomainMCSPDU_SendDataRequest = ''DomainMCSPDU_SendDataRequest''"
| "mcs_domain_pdu_string DomainMCSPDU_SendDataIndication = ''DomainMCSPDU_SendDataIndication''"
| "mcs_domain_pdu_string DomainMCSPDU_UniformSendDataRequest = ''DomainMCSPDU_UniformSendDataRequest''"
| "mcs_domain_pdu_string DomainMCSPDU_UniformSendDataIndication = ''DomainMCSPDU_UniformSendDataIndication''"
| "mcs_domain_pdu_string DomainMCSPDU_TokenGrabRequest = ''DomainMCSPDU_TokenGrabRequest''"
| "mcs_domain_pdu_string DomainMCSPDU_TokenGrabConfirm = ''DomainMCSPDU_TokenGrabConfirm''"
| "mcs_domain_pdu_string DomainMCSPDU_TokenInhibitRequest = ''DomainMCSPDU_TokenInhibitRequest''"
| "mcs_domain_pdu_string DomainMCSPDU_TokenInhibitConfirm = ''DomainMCSPDU_TokenInhibitConfirm''"
| "mcs_domain_pdu_string DomainMCSPDU_TokenGiveRequest = ''DomainMCSPDU_TokenGiveRequest''"
| "mcs_domain_pdu_string DomainMCSPDU_TokenGiveIndication = ''DomainMCSPDU_TokenGiveIndication''"
| "mcs_domain_pdu_string DomainMCSPDU_TokenGiveResponse = ''DomainMCSPDU_TokenGiveResponse''"
| "mcs_domain_pdu_string DomainMCSPDU_TokenGiveConfirm = ''DomainMCSPDU_TokenGiveConfirm''"
| "mcs_domain_pdu_string DomainMCSPDU_TokenPleaseRequest = ''DomainMCSPDU_TokenPleaseRequest''"
| "mcs_domain_pdu_string DomainMCSPDU_TokenPleaseConfirm = ''DomainMCSPDU_TokenPleaseConfirm''"
| "mcs_domain_pdu_string DomainMCSPDU_TokenReleaseRequest = ''DomainMCSPDU_TokenReleaseRequest''"
| "mcs_domain_pdu_string DomainMCSPDU_TokenReleaseConfirm = ''DomainMCSPDU_TokenReleaseConfirm''"
| "mcs_domain_pdu_string DomainMCSPDU_TokenTestRequest = ''DomainMCSPDU_TokenTestRequest''"
| "mcs_domain_pdu_string DomainMCSPDU_TokenTestConfirm = ''DomainMCSPDU_TokenTestConfirm''"
| "mcs_domain_pdu_string DomainMCSPDU_enum_length = ''DomainMCSPDU_enum_length''"
| "mcs_domain_pdu_string DomainMCSPDU_invalid = ''DomainMCSPDU_UNKNOWN''"

end
