(* ===== verification/Mcs.thy ===== *)
theory Mcs
  imports Handler Per Ber McsPdu
begin

text \<open>
  The T.125 multipoint communication service of \<^verbatim>\<open>libfreerdp/core/mcs.c\<close> and \<^verbatim>\<open>mcs.h\<close>: the
  domain PDUs of the connection sequence (erect domain, attach user, channel join,
  disconnect ultimatum), the state \<^verbatim>\<open>rdpMcs\<close> they read and change, and the negotiation of
  the domain parameters. What depends on the GCC user data (\<^verbatim>\<open>gcc.c\<close>) is not here.
\<close>

unbundle bit_operations_syntax

section \<open>State\<close>

record DomainParameters =
  maxChannelIds :: u32
  maxUserIds :: u32
  maxTokenIds :: u32
  numPriorities :: u32
  minThroughput :: u32
  maxHeight :: u32
  maxMCSPDUsize :: u32
  protocolVersion :: u32

record rdpMcsChannel =
  Name :: "u8 list"
  options :: u32
  ChannelId :: u16
  joined :: bool

record rdpMcs =
  userId :: u16
  baseChannelId :: u16
  IOChannelId :: u16
  messageChannelId :: u16
  mcs_flags :: u32
  domainParameters :: DomainParameters
  targetParameters :: DomainParameters
  minimumParameters :: DomainParameters
  maximumParameters :: DomainParameters
  userChannelJoined :: bool
  globalChannelJoined :: bool
  messageChannelJoined :: bool
  channelCount :: u32
  channelMaxCount :: u32
  channels :: "rdpMcsChannel list"

definition MCS_BASE_CHANNEL_ID :: u16 where "MCS_BASE_CHANNEL_ID = 1001"
definition MCS_GLOBAL_CHANNEL_ID :: u16 where "MCS_GLOBAL_CHANNEL_ID = 1003"
definition CHANNEL_MAX_COUNT :: u32 where "CHANNEL_MAX_COUNT = 31"
definition MCS_Result_enum_length :: u8 where "MCS_Result_enum_length = 16"
definition MCS_TYPE_CONNECT_INITIAL :: u8 where "MCS_TYPE_CONNECT_INITIAL = 0x65"
definition MCS_TYPE_CONNECT_RESPONSE :: u8 where "MCS_TYPE_CONNECT_RESPONSE = 0x66"

named_theorems mcs_consts "constants of the MCS layer"

lemmas [mcs_consts] = MCS_BASE_CHANNEL_ID_def MCS_GLOBAL_CHANNEL_ID_def CHANNEL_MAX_COUNT_def
  MCS_Result_enum_length_def MCS_TYPE_CONNECT_INITIAL_def MCS_TYPE_CONNECT_RESPONSE_def

text \<open>
  What the senders reach through \<^verbatim>\<open>mcs->context\<close>: the transport with the function pointer
  \<^verbatim>\<open>io.WritePdu\<close> installed in it (\<open>None\<close> for a null pointer), whose state is a type
  parameter, and the allocator.
\<close>

record 't rdpContext =
  mcs :: rdpMcs
  transport :: 't
  WritePdu :: "(wStream \<Rightarrow> 't \<Rightarrow> int \<times> 't) option"
  heap :: "nat \<Rightarrow> bool"

definition transport_write :: "wStream \<Rightarrow> 't rdpContext \<Rightarrow> int \<times> 't rdpContext" where
  "transport_write s ctx =
     (case WritePdu ctx of
        None \<Rightarrow> (-1, ctx)
      | Some f \<Rightarrow> (let (status, t) = f s (transport ctx) in (status, ctx\<lparr>transport := t\<rparr>)))"

section \<open>Headers\<close>

definition mcs_read_domain_mcspdu_header :: "DomainMCSPDU \<Rightarrow> u16 parser" where
  "mcs_read_domain_mcspdu_header domainMCSPDU =
     bindp (winpr_assert (DomainMCSPDU_code domainMCSPDU \<noteq> 0)) (\<lambda>_.
     bindp tpkt_read_header (\<lambda>len.
     bindp (tpdu_read_data len) (\<lambda>li.
     bindp per_read_choice (\<lambda>choice.
       let val = drop_bit 2 choice; MCSPDU = DomainMCSPDU_enum (unat val)
       in bindp (require (\<not> domainMCSPDU \<noteq> MCSPDU)) (\<lambda>_. ret len)))))"

definition mcs_write_domain_mcspdu_header :: "DomainMCSPDU \<Rightarrow> u16 \<Rightarrow> u8 \<Rightarrow> unit parser" where
  "mcs_write_domain_mcspdu_header domainMCSPDU len opts =
     bindp (winpr_assert (opts AND NOT 0x03 = 0)) (\<lambda>_.
     bindp (winpr_assert (DomainMCSPDU_code domainMCSPDU AND NOT 0x3F = 0)) (\<lambda>_.
     bindp (tpkt_write_header (unat len)) (\<lambda>_.
     bindp tpdu_write_data (\<lambda>_.
     per_write_choice (word_of_int (push_bit 2 (DomainMCSPDU_code domainMCSPDU) OR uint opts))))))"

section \<open>Sending\<close>

text \<open>Every sender allocates a stream of the length of its PDU, fills and seals it and hands it
  to the transport; the stream is freed on every path. \<open>mcs_transmit\<close> is what follows the
  allocation.\<close>

definition mcs_transmit :: "unit parser \<Rightarrow> wStream \<Rightarrow> (unit, 't rdpContext) prog" where
  "mcs_transmit body s ctx =
     (case body s of
        Abort \<Rightarrow> Abort
      | Fail _ \<Rightarrow> Fail ctx
      | Ret _ s' \<Rightarrow> (let (status, ctx') = transport_write s' ctx
                    in if status \<ge> 0 then Ret () ctx' else Fail ctx'))"

definition mcs_send_erect_domain_request :: "(unit, 't rdpContext) prog" where
  "mcs_send_erect_domain_request ctx =
     (case Stream_New (heap ctx) 12 of
        None \<Rightarrow> Fail ctx
      | Some s \<Rightarrow> mcs_transmit
          (bindp (mcs_write_domain_mcspdu_header DomainMCSPDU_ErectDomainRequest 12 0) (\<lambda>_.
           bindp (per_write_integer 0) (\<lambda>_.
           bindp (per_write_integer 0) (\<lambda>_. Stream_SealLength)))) s ctx)"

definition mcs_send_attach_user_request :: "(unit, 't rdpContext) prog" where
  "mcs_send_attach_user_request ctx =
     (case Stream_New (heap ctx) 8 of
        None \<Rightarrow> Fail ctx
      | Some s \<Rightarrow> mcs_transmit
          (bindp (mcs_write_domain_mcspdu_header DomainMCSPDU_AttachUserRequest 8 0) (\<lambda>_.
           Stream_SealLength)) s ctx)"

definition mcs_send_attach_user_confirm :: "(unit, 't rdpContext) prog" where
  "mcs_send_attach_user_confirm ctx =
     (case Stream_New (heap ctx) 11 of
        None \<Rightarrow> Fail ctx
      | Some s \<Rightarrow>
          (let uid = baseChannelId (mcs ctx);
               ctx' = ctx\<lparr>mcs := (mcs ctx)\<lparr>userId := uid, baseChannelId := uid + 1\<rparr>\<rparr>
           in mcs_transmit
                (bindp (mcs_write_domain_mcspdu_header DomainMCSPDU_AttachUserConfirm 11 2) (\<lambda>_.
                 bindp (per_write_enumerated 0 MCS_Result_enum_length) (\<lambda>_.
                 bindp (per_write_integer16 uid MCS_BASE_CHANNEL_ID) (\<lambda>_.
                 Stream_SealLength)))) s ctx'))"

definition mcs_send_channel_join_request :: "u16 \<Rightarrow> (unit, 't rdpContext) prog" where
  "mcs_send_channel_join_request channelId ctx =
     (case Stream_New (heap ctx) 12 of
        None \<Rightarrow> Fail ctx
      | Some s \<Rightarrow> mcs_transmit
          (bindp (mcs_write_domain_mcspdu_header DomainMCSPDU_ChannelJoinRequest 12 0) (\<lambda>_.
           bindp (per_write_integer16 (userId (mcs ctx)) MCS_BASE_CHANNEL_ID) (\<lambda>_.
           bindp (per_write_integer16 channelId 0) (\<lambda>_. Stream_SealLength)))) s ctx)"

definition mcs_send_channel_join_confirm :: "u16 \<Rightarrow> (unit, 't rdpContext) prog" where
  "mcs_send_channel_join_confirm channelId ctx =
     (case Stream_New (heap ctx) 15 of
        None \<Rightarrow> Fail ctx
      | Some s \<Rightarrow> mcs_transmit
          (bindp (mcs_write_domain_mcspdu_header DomainMCSPDU_ChannelJoinConfirm 15 2) (\<lambda>_.
           bindp (per_write_enumerated 0 MCS_Result_enum_length) (\<lambda>_.
           bindp (per_write_integer16 (userId (mcs ctx)) MCS_BASE_CHANNEL_ID) (\<lambda>_.
           bindp (per_write_integer16 channelId 0) (\<lambda>_.
           bindp (per_write_integer16 channelId 0) (\<lambda>_. Stream_SealLength)))))) s ctx)"

text \<open>\<^verbatim>\<open>WINPR_ASSERTING_INT_CAST(BYTE, reason)\<close> is evaluated before the call; the stream is not
  sealed, its length is the nine bytes it was created with.\<close>

definition mcs_send_disconnect_provider_ultimatum :: "int \<Rightarrow> (unit, 't rdpContext) prog" where
  "mcs_send_disconnect_provider_ultimatum reason ctx =
     (case Stream_New (heap ctx) 9 of
        None \<Rightarrow> Fail ctx
      | Some s \<Rightarrow> mcs_transmit
          (bindp (mcs_write_domain_mcspdu_header DomainMCSPDU_DisconnectProviderUltimatum 9 1) (\<lambda>_.
           bindp (winpr_assert (0 \<le> reason \<and> reason \<le> 255)) (\<lambda>_.
           per_write_enumerated 0x80 (word_of_int reason)))) s ctx)"

section \<open>Receiving\<close>

text \<open>A handler works on the MCS state and the stream of the packet it was given.\<close>

type_synonym 'a mcs_handler = "('a, rdpMcs \<times> wStream) prog"

definition on_mcs :: "(rdpMcs \<Rightarrow> rdpMcs) \<Rightarrow> unit mcs_handler" where
  "on_mcs f = (\<lambda>(c, s). Ret () (f c, s))"

definition mcs_recv_erect_domain_request :: "unit mcs_handler" where
  "mcs_recv_erect_domain_request =
     on_stream (
       bindp (mcs_read_domain_mcspdu_header DomainMCSPDU_ErectDomainRequest) (\<lambda>len.
       bindp per_read_integer (\<lambda>subHeight.
       bindp per_read_integer (\<lambda>subInterval.
       tpkt_ensure_stream_consumed (unat len)))))"

definition mcs_recv_attach_user_request :: "unit mcs_handler" where
  "mcs_recv_attach_user_request =
     on_stream (
       bindp (mcs_read_domain_mcspdu_header DomainMCSPDU_AttachUserRequest) (\<lambda>len.
       tpkt_ensure_stream_consumed (unat len)))"

text \<open>The user id is read into the state, also when the read then fails.\<close>

definition mcs_recv_attach_user_confirm :: "unit mcs_handler" where
  "mcs_recv_attach_user_confirm =
     bindp (on_stream (
       bindp (mcs_read_domain_mcspdu_header DomainMCSPDU_AttachUserConfirm) (\<lambda>len.
       bindp (per_read_enumerated MCS_Result_enum_length) (\<lambda>result. ret len)))) (\<lambda>len.
     bindp (\<lambda>(c, s). on_stream (per_read_integer16_out (userId c) MCS_BASE_CHANNEL_ID) (c, s)) (\<lambda>(ok, v).
     bindp (on_mcs (\<lambda>c. c\<lparr>userId := v\<rparr>)) (\<lambda>_.
     bindp (require ok) (\<lambda>_. on_stream (tpkt_ensure_stream_consumed (unat len))))))"

text \<open>\<open>replay\<close> is the setting \<^verbatim>\<open>FreeRDP_TransportDumpReplay\<close>.\<close>

definition mcs_recv_channel_join_request :: "bool \<Rightarrow> u16 mcs_handler" where
  "mcs_recv_channel_join_request replay =
     bindp (on_stream (
       bindp (mcs_read_domain_mcspdu_header DomainMCSPDU_ChannelJoinRequest) (\<lambda>len.
       bindp (per_read_integer16 MCS_BASE_CHANNEL_ID) (\<lambda>uid. ret (len, uid))))) (\<lambda>(len, uid).
     bindp (\<lambda>(c, s). if uid \<noteq> userId c
                     then (if replay then Ret () (c\<lparr>userId := uid\<rparr>, s) else Fail (c, s))
                     else Ret () (c, s)) (\<lambda>_.
     on_stream (
       bindp (per_read_integer16 0) (\<lambda>channelId.
       bindp (tpkt_ensure_stream_consumed (unat len)) (\<lambda>_. ret channelId)))))"

definition mcs_recv_channel_join_confirm :: "u16 mcs_handler" where
  "mcs_recv_channel_join_confirm =
     on_stream (
       bindp (mcs_read_domain_mcspdu_header DomainMCSPDU_ChannelJoinConfirm) (\<lambda>len.
       bindp (per_read_enumerated MCS_Result_enum_length) (\<lambda>result.
       bindp (per_read_integer16 MCS_BASE_CHANNEL_ID) (\<lambda>initiator.
       bindp (per_read_integer16 0) (\<lambda>requested.
       bindp (per_read_integer16 0) (\<lambda>channelId.
       bindp (tpkt_ensure_stream_consumed (unat len)) (\<lambda>_. ret channelId)))))))"

text \<open>Called behind the choice octet, of which the low bit is read again.\<close>

definition mcs_recv_disconnect_provider_ultimatum :: "int parser" where
  "mcs_recv_disconnect_provider_ultimatum =
     bindp (Stream_CheckAndLogRequiredLength 1) (\<lambda>_.
     bindp (Stream_Rewind 1) (\<lambda>_.
     bindp Stream_Read_UINT8 (\<lambda>b1.
     bindp Stream_Read_UINT8 (\<lambda>b2.
     ret (push_bit 1 (uint b1 AND 0x01) OR uint (drop_bit 7 b2))))))"

section \<open>Domain parameters\<close>

definition mcs_init_domain_parameters :: "u32 \<Rightarrow> u32 \<Rightarrow> u32 \<Rightarrow> u32 \<Rightarrow> DomainParameters" where
  "mcs_init_domain_parameters chans users tokens pdusize =
     \<lparr>maxChannelIds = chans, maxUserIds = users, maxTokenIds = tokens, numPriorities = 1,
      minThroughput = 0, maxHeight = 1, maxMCSPDUsize = pdusize, protocolVersion = 2\<rparr>"

text \<open>The out-parameter is filled field by field, so a failing read leaves the fields before it.\<close>

definition read_field ::
  "(u32 \<Rightarrow> DomainParameters \<Rightarrow> DomainParameters) \<Rightarrow> (unit, DomainParameters \<times> wStream) prog" where
  "read_field upd = bindp (on_stream ber_read_integer) (\<lambda>v (p, s). Ret () (upd v p, s))"

definition mcs_read_domain_parameters :: "(unit, DomainParameters \<times> wStream) prog" where
  "mcs_read_domain_parameters =
     bindp (on_stream ber_read_sequence_tag) (\<lambda>len.
     bindp (read_field (\<lambda>v p. p\<lparr>maxChannelIds := v\<rparr>)) (\<lambda>_.
     bindp (read_field (\<lambda>v p. p\<lparr>maxUserIds := v\<rparr>)) (\<lambda>_.
     bindp (read_field (\<lambda>v p. p\<lparr>maxTokenIds := v\<rparr>)) (\<lambda>_.
     bindp (read_field (\<lambda>v p. p\<lparr>numPriorities := v\<rparr>)) (\<lambda>_.
     bindp (read_field (\<lambda>v p. p\<lparr>minThroughput := v\<rparr>)) (\<lambda>_.
     bindp (read_field (\<lambda>v p. p\<lparr>maxHeight := v\<rparr>)) (\<lambda>_.
     bindp (read_field (\<lambda>v p. p\<lparr>maxMCSPDUsize := v\<rparr>)) (\<lambda>_.
     read_field (\<lambda>v p. p\<lparr>protocolVersion := v\<rparr>)))))))))"

text \<open>Several writers fill a temporary stream as large as the one they were given, and copy
  what was written in it: \<open>with_tmps body k\<close> runs \<open>body\<close> on it and \<open>k\<close> on its bytes.\<close>

definition with_tmps :: "unit parser \<Rightarrow> (u8 list \<Rightarrow> unit parser) \<Rightarrow> unit parser" where
  "with_tmps body k s =
     (case Stream_New (grants s) (Stream_Capacity s) of
        None \<Rightarrow> Fail s
      | Some tmps \<Rightarrow>
          (case body tmps of
             Abort \<Rightarrow> Abort
           | Fail _ \<Rightarrow> Fail s
           | Ret _ t \<Rightarrow> k (take (Stream_GetPosition t) (buffer t)) s))"

text \<open>\<^verbatim>\<open>if (!f(...)) goto fail;\<close> for an \<open>f\<close> that returns the number of bytes written.\<close>

definition nonzero :: "nat parser \<Rightarrow> unit parser" where
  "nonzero m = bindp m (\<lambda>n. require (n \<noteq> 0))"

definition mcs_write_domain_parameters :: "DomainParameters \<Rightarrow> unit parser" where
  "mcs_write_domain_parameters p =
     with_tmps
       (bindp (nonzero (ber_write_integer (maxChannelIds p))) (\<lambda>_.
        bindp (nonzero (ber_write_integer (maxUserIds p))) (\<lambda>_.
        bindp (nonzero (ber_write_integer (maxTokenIds p))) (\<lambda>_.
        bindp (nonzero (ber_write_integer (numPriorities p))) (\<lambda>_.
        bindp (nonzero (ber_write_integer (minThroughput p))) (\<lambda>_.
        bindp (nonzero (ber_write_integer (maxHeight p))) (\<lambda>_.
        bindp (nonzero (ber_write_integer (maxMCSPDUsize p))) (\<lambda>_.
        nonzero (ber_write_integer (protocolVersion p))))))))))
       (\<lambda>bs. bindp (nonzero (ber_write_sequence_tag (length bs))) (\<lambda>_. Stream_Write bs))"

text \<open>The merge stores into its out-parameter as it goes.\<close>

definition set_out :: "(DomainParameters \<Rightarrow> DomainParameters) \<Rightarrow> (unit, DomainParameters) prog" where
  "set_out f p = Ret () (f p)"

definition mcs_merge_domain_parameters ::
  "DomainParameters \<Rightarrow> DomainParameters \<Rightarrow> DomainParameters \<Rightarrow> (unit, DomainParameters) prog" where
  "mcs_merge_domain_parameters target mn mx =
     bindp (if maxChannelIds target \<ge> 4 then set_out (\<lambda>p. p\<lparr>maxChannelIds := maxChannelIds target\<rparr>)
            else if maxChannelIds mx \<ge> 4 then set_out (\<lambda>p. p\<lparr>maxChannelIds := 4\<rparr>)
            else fail) (\<lambda>_.
     bindp (if maxUserIds target \<ge> 3 then set_out (\<lambda>p. p\<lparr>maxUserIds := maxUserIds target\<rparr>)
            else if maxUserIds mx \<ge> 3 then set_out (\<lambda>p. p\<lparr>maxUserIds := 3\<rparr>)
            else fail) (\<lambda>_.
     bindp (set_out (\<lambda>p. p\<lparr>maxTokenIds := maxTokenIds target\<rparr>)) (\<lambda>_.
     bindp (if numPriorities mn \<le> 1 then set_out (\<lambda>p. p\<lparr>numPriorities := 1\<rparr>) else fail) (\<lambda>_.
     bindp (set_out (\<lambda>p. p\<lparr>minThroughput := minThroughput target\<rparr>)) (\<lambda>_.
     bindp (if maxHeight target = 1 \<or> maxHeight mn \<le> 1 then set_out (\<lambda>p. p\<lparr>maxHeight := 1\<rparr>)
            else fail) (\<lambda>_.
     bindp (if maxMCSPDUsize target \<ge> 1024 then
              (if maxMCSPDUsize target \<le> 65528
               then set_out (\<lambda>p. p\<lparr>maxMCSPDUsize := maxMCSPDUsize target\<rparr>)
               else if maxMCSPDUsize mn \<ge> 124 \<and> maxMCSPDUsize mn \<le> 65528
               then set_out (\<lambda>p. p\<lparr>maxMCSPDUsize := 65528\<rparr>)
               else fail)
            else if maxMCSPDUsize mx \<ge> 124
            then set_out (\<lambda>p. p\<lparr>maxMCSPDUsize := maxMCSPDUsize mx\<rparr>)
            else fail) (\<lambda>_.
     if protocolVersion target = 2 \<or> (protocolVersion mn \<le> 2 \<and> protocolVersion mx \<ge> 2)
     then set_out (\<lambda>p. p\<lparr>protocolVersion := 2\<rparr>)
     else fail)))))))"

section \<open>Connect Initial and Connect Response\<close>

text \<open>\<open>userData\<close> is what was written into the stream of that name, the GCC conference data.\<close>

definition mcs_write_connect_initial :: "rdpMcs \<Rightarrow> u8 list \<Rightarrow> unit parser" where
  "mcs_write_connect_initial m userData =
     with_tmps
       (bindp (nonzero (ber_write_octet_string [0x01])) (\<lambda>_.
        bindp (nonzero (ber_write_octet_string [0x01])) (\<lambda>_.
        bindp (ber_write_BOOL True) (\<lambda>_.
        bindp (mcs_write_domain_parameters (targetParameters m)) (\<lambda>_.
        bindp (mcs_write_domain_parameters (minimumParameters m)) (\<lambda>_.
        bindp (mcs_write_domain_parameters (maximumParameters m)) (\<lambda>_.
        nonzero (ber_write_octet_string userData))))))))
       (\<lambda>bs. bindp (ber_write_application_tag MCS_TYPE_CONNECT_INITIAL (length bs)) (\<lambda>_. Stream_Write bs))"

definition mcs_write_connect_response :: "rdpMcs \<Rightarrow> u8 list \<Rightarrow> unit parser" where
  "mcs_write_connect_response m userData =
     with_tmps
       (bindp (ber_write_enumerated 0 MCS_Result_enum_length) (\<lambda>_.
        bindp (nonzero (ber_write_integer 0)) (\<lambda>_.
        bindp (mcs_write_domain_parameters (domainParameters m)) (\<lambda>_.
        nonzero (ber_write_octet_string userData)))))
       (\<lambda>bs. bindp (ber_write_application_tag MCS_TYPE_CONNECT_RESPONSE (length bs)) (\<lambda>_. Stream_Write bs))"

section \<open>Construction\<close>

text \<open>\<open>defs\<close> are \<^verbatim>\<open>FreeRDP_ChannelCount\<close> and the \<^verbatim>\<open>FreeRDP_ChannelDefArray\<close> of the settings, a
  null entry being \<open>None\<close>; seven of the eight bytes of a name are copied, the last stays 0.\<close>

record CHANNEL_DEF =
  def_name :: "u8 list"
  def_options :: u32

definition CHANNEL_NAME_LEN :: nat where "CHANNEL_NAME_LEN = 7"

definition empty_channel :: rdpMcsChannel where
  "empty_channel = \<lparr>Name = replicate (CHANNEL_NAME_LEN + 1) 0, options = 0, ChannelId = 0, joined = False\<rparr>"

definition mcs_initialize_client_channels ::
  "u32 \<Rightarrow> (nat \<Rightarrow> CHANNEL_DEF option) \<Rightarrow> (unit, rdpMcs) prog" where
  "mcs_initialize_client_channels count defs m =
     (let n = (if count > channelMaxCount m then channelMaxCount m else count);
          entries = map defs [0..<unat n] in
      if None \<in> set entries then Abort
      else Ret () (m\<lparr>channelCount := n,
        channels := map (\<lambda>d. empty_channel\<lparr>Name := take CHANNEL_NAME_LEN (def_name (the d)) @ [0],
                                            options := def_options (the d)\<rparr>) entries
                    @ replicate (unat (channelMaxCount m) - unat n) empty_channel\<rparr>))"

definition mcs_new :: "(nat \<Rightarrow> bool) \<Rightarrow> nat \<Rightarrow> nat \<Rightarrow> rdpMcs option" where
  "mcs_new grant sizeof_rdpMcs sizeof_rdpMcsChannel =
     (if \<not> grant sizeof_rdpMcs then None
      else if \<not> grant (unat CHANNEL_MAX_COUNT * sizeof_rdpMcsChannel) then None
      else Some \<lparr>userId = 0, baseChannelId = MCS_GLOBAL_CHANNEL_ID + 1, IOChannelId = 0,
        messageChannelId = 0, mcs_flags = 0,
        domainParameters = mcs_init_domain_parameters 0 0 0 0xFFFF,
        targetParameters = mcs_init_domain_parameters 34 2 0 0xFFFF,
        minimumParameters = mcs_init_domain_parameters 1 1 1 0x420,
        maximumParameters = mcs_init_domain_parameters 0xFFFF 0xFC17 0xFFFF 0xFFFF,
        userChannelJoined = False, globalChannelJoined = False, messageChannelJoined = False,
        channelCount = 0, channelMaxCount = CHANNEL_MAX_COUNT,
        channels = replicate (unat CHANNEL_MAX_COUNT) empty_channel\<rparr>)"

section \<open>The readers stay inside their input\<close>

lemma reads_mcs_header:
  assumes "domainMCSPDU \<noteq> DomainMCSPDU_PlumbDomainIndication"
  shows "reads_ok n (mcs_read_domain_mcspdu_header domainMCSPDU)"
proof -
  have "DomainMCSPDU_code domainMCSPDU \<noteq> 0"
    using assms by (auto simp: DomainMCSPDU_code_def domain_pdus_def)
  then show ?thesis
    unfolding mcs_read_domain_mcspdu_header_def Let_def by (intro reads_intros)
qed

lemma handler_on_mcs [handler_intros]: "handler_ok (on_mcs f)"
  by (rule handler_pure) (simp add: on_mcs_def)

lemma reads_integer16_out: "reads_ok 0 (per_read_integer16_out old mn)"
proof (rule reads_okI, rule tripleI)
  fix B L p s assume w: "window B L p 0 s"
  show "case per_read_integer16_out old mn s of Abort \<Rightarrow> False | Fail t \<Rightarrow> window B L p 0 t
      | Ret x t \<Rightarrow> window B L p 0 t"
  proof (cases "slength s - pointer s \<ge> 2")
    case True
    have "reads_ok 2 (bindp Stream_Read_UINT16_BE (\<lambda>v. if v > 0xFFFF - mn then ret (False, v) else ret (True, v + mn)))"
      by (intro reads_intros) simp_all
    moreover have "window B L p 2 s" using w True by (auto simp: window_def)
    ultimately show ?thesis
      using w True tripleD [OF reads_okD]
      by (fastforce simp: per_read_integer16_out_def stream_defs bindp_def window_def)
  next
    case False
    with w show ?thesis by (auto simp: per_read_integer16_out_def stream_defs bindp_def window_def)
  qed
qed

lemmas mcs_reads = reads_mcs_header reads_mcs_header [THEN reads_call]
  reads_call [OF reads_ensure_consumed]

lemma handler_mcs:
  "handler_ok (mcs_recv_erect_domain_request)" "handler_ok (mcs_recv_attach_user_request)"
  "handler_ok (mcs_recv_channel_join_confirm)"
  unfolding mcs_recv_erect_domain_request_def mcs_recv_attach_user_request_def
    mcs_recv_channel_join_confirm_def
  by (intro handler_intros mcs_reads reads_intros; simp)+

lemma handler_mcs_attach_user_confirm: "handler_ok mcs_recv_attach_user_confirm"
  unfolding mcs_recv_attach_user_confirm_def
  by (intro handler_intros mcs_reads reads_intros reads_integer16_out; simp)

lemma handler_mcs_channel_join_request: "handler_ok (mcs_recv_channel_join_request replay)"
proof -
  have "handler_ok (\<lambda>(c, s). if uid \<noteq> userId c
      then (if replay then Ret () (c\<lparr>userId := uid\<rparr>, s) else Fail (c, s)) else Ret () (c, s))" for uid
    by (rule handler_pure) simp
  then show ?thesis unfolding mcs_recv_channel_join_request_def
    by (intro handler_intros mcs_reads reads_intros; simp)
qed

section \<open>Formats of the domain PDUs\<close>

definition domain_choice :: "DomainMCSPDU \<Rightarrow> u8 \<Rightarrow> u8" where
  "domain_choice d opts = word_of_int (push_bit 2 (DomainMCSPDU_code d) OR uint opts)"

definition enc_domain_header :: "DomainMCSPDU \<Rightarrow> u16 \<Rightarrow> u8 \<Rightarrow> u8 list" where
  "enc_domain_header d len opts = enc_data_header (unat len) @ [domain_choice d opts]"

text \<open>The kinds of domain PDU this layer sends.\<close>

definition connection_pdus :: "DomainMCSPDU set" where
  "connection_pdus = {DomainMCSPDU_ErectDomainRequest, DomainMCSPDU_DisconnectProviderUltimatum,
     DomainMCSPDU_AttachUserRequest, DomainMCSPDU_AttachUserConfirm,
     DomainMCSPDU_ChannelJoinRequest, DomainMCSPDU_ChannelJoinConfirm}"

lemma domain_codes:
  "DomainMCSPDU_code DomainMCSPDU_ErectDomainRequest = 1"
  "DomainMCSPDU_code DomainMCSPDU_DisconnectProviderUltimatum = 8"
  "DomainMCSPDU_code DomainMCSPDU_AttachUserRequest = 10"
  "DomainMCSPDU_code DomainMCSPDU_AttachUserConfirm = 11"
  "DomainMCSPDU_code DomainMCSPDU_ChannelJoinRequest = 14"
  "DomainMCSPDU_code DomainMCSPDU_ChannelJoinConfirm = 15"
  by (simp_all add: DomainMCSPDU_code_def domain_pdus_def)

lemma domain_enums:
  "DomainMCSPDU_enum 1 = DomainMCSPDU_ErectDomainRequest"
  "DomainMCSPDU_enum 8 = DomainMCSPDU_DisconnectProviderUltimatum"
  "DomainMCSPDU_enum 10 = DomainMCSPDU_AttachUserRequest"
  "DomainMCSPDU_enum 11 = DomainMCSPDU_AttachUserConfirm"
  "DomainMCSPDU_enum 14 = DomainMCSPDU_ChannelJoinRequest"
  "DomainMCSPDU_enum 15 = DomainMCSPDU_ChannelJoinConfirm"
  by (simp_all add: DomainMCSPDU_enum_def domain_pdus_def)

lemma domain_choice_back:
  assumes "d \<in> connection_pdus" and "opts \<in> {0, 1, 2, 3}"
  shows "DomainMCSPDU_enum (unat (drop_bit 2 (domain_choice d opts))) = d"
    and "DomainMCSPDU_code d \<noteq> 0" and "DomainMCSPDU_code d AND NOT 0x3F = 0" and "opts AND NOT 0x03 = 0"
  using assms
  by (auto simp: connection_pdus_def domain_choice_def domain_codes domain_enums [simplified]
      drop_bit_eq_div push_bit_eq_mult)

lemma emits_domain_header [emit_intros]:
  assumes "d \<in> connection_pdus" and "opts \<in> {0, 1, 2, 3}" and "emits (k ()) bs x"
  shows "emits (bindp (mcs_write_domain_mcspdu_header d len opts) k) (enc_domain_header d len opts @ bs) x"
proof -
  have u: "unat len \<le> UINT16_MAX"
    using unsigned_less [of len, where 'a = nat] by (simp add: UINT16_MAX_def)
  show ?thesis
    unfolding mcs_write_domain_mcspdu_header_def enc_domain_header_def enc_data_header_def
      bindp_assoc append_assoc tpdu_write_data_def domain_choice_def [symmetric] append.simps
    by (intro emits_assert domain_choice_back [OF assms(1,2)] emits_tpkt u emits_tpdu_header
        emits_choice assms(3)) simp
qed

lemma parses_tpdu_data:
  assumes "6 \<le> unat len" and "parses (k 2) bs ys x"
  shows "parses (bindp (tpdu_read_data len) k) (enc_tpdu 2 X224_TPDU_DATA @ bs) ys x"
  unfolding tpdu_read_data_def bindp_assoc split_def
  by (rule parses_tpdu_header) (use assms in \<open>auto intro!: parses_require\<close>)

lemma parses_domain_header [parse_intros]:
  assumes "d \<in> connection_pdus" and "opts \<in> {0, 1, 2, 3}" and "7 \<le> unat len"
    and "unat len \<le> 8 + length bs + length ys" and "parses (k len) bs ys x"
  shows "parses (bindp (mcs_read_domain_mcspdu_header d) k) (enc_domain_header d len opts @ bs) ys x"
proof -
  note dcb = domain_choice_back [OF assms(1,2)]
  have u: "unat len \<le> UINT16_MAX"
    using unsigned_less [of len, where 'a = nat] by (simp add: UINT16_MAX_def)
  have "parses (bindp per_read_choice (\<lambda>choice. bindp (require (\<not> d \<noteq> DomainMCSPDU_enum (unat (drop_bit 2 choice)))) (\<lambda>_. k len)))
     (domain_choice d opts # bs) ys x"
    by (intro parses_choice parses_require assms(5)) (simp add: dcb)
  then show ?thesis
    unfolding mcs_read_domain_mcspdu_header_def enc_domain_header_def enc_data_header_def Let_def
      bindp_assoc append_assoc append.simps
    by (intro parses_assert parses_tpkt parses_tpdu_data)
      (use assms(3,4) u dcb in \<open>auto simp: bindp_assoc enc_tpdu_def\<close>)
qed

section \<open>What the senders hand to the transport\<close>

definition sent_stream :: "(nat \<Rightarrow> bool) \<Rightarrow> u8 list \<Rightarrow> wStream" where
  "sent_stream g bs = \<lparr>buffer = bs, pointer = length bs, slength = length bs, isOwner = True, grants = g\<rparr>"

definition deliver :: "u8 list \<Rightarrow> (unit, 't rdpContext) prog" where
  "deliver bs ctx = (let (status, ctx') = transport_write (sent_stream (heap ctx) bs) ctx
                     in if status \<ge> 0 then Ret () ctx' else Fail ctx')"

lemma fresh_pdu:
  assumes "g (length bs)" and "bs \<noteq> []" and "length bs \<le> SIZE_MAX"
  obtains s where "Stream_New g (length bs) = Some s" and "room (length bs) s"
    and "put bs s = sent_stream g bs" and "pointer s = 0" and "grants s = g"
  using assms by (auto simp: Stream_New_def room_def Stream_Capacity_def put_def overwrite_def sent_stream_def)

lemma transmit_emits:
  assumes "emits m bs ()" and body: "body = bindp m (\<lambda>_. Stream_SealLength)"
    and s: "room (length bs) s" "put bs s = sent_stream (heap ctx) bs"
  shows "mcs_transmit body s ctx = deliver bs ctx"
proof -
  have "m s = Ret () (sent_stream (heap ctx) bs)" using emitsD [OF assms(1) s(1)] s(2) by simp
  then have "body s = Ret () (sent_stream (heap ctx) bs)"
    by (simp add: body bindp_def Stream_SealLength_def sent_stream_def Stream_Capacity_def)
  then show ?thesis by (simp add: mcs_transmit_def deliver_def)
qed

text \<open>One sender: it allocates the length of its PDU and transmits it.\<close>

lemma send_emits:
  assumes "emits m bs ()" and "body = bindp m (\<lambda>_. Stream_SealLength)"
    and "bs \<noteq> []" and "length bs = n" and "n \<le> SIZE_MAX" and "heap ctx' = heap ctx"
  shows "(case Stream_New (heap ctx) n of None \<Rightarrow> Fail ctx | Some s \<Rightarrow> mcs_transmit body s ctx') =
     (if heap ctx n then deliver bs ctx' else Fail ctx)"
proof (cases "heap ctx n")
  case True
  with assms(4) have h: "heap ctx (length bs)" by simp
  obtain s where s: "Stream_New (heap ctx) (length bs) = Some s" "room (length bs) s"
      "put bs s = sent_stream (heap ctx) bs"
    by (rule fresh_pdu [where g = "heap ctx" and bs = bs, OF h assms(3)]) (use assms(4,5) in auto)
  then have "mcs_transmit body s ctx' = deliver bs ctx'"
    using assms(6) by (intro transmit_emits [OF assms(1,2)]) simp_all
  with True s(1) assms(4) show ?thesis by simp
next
  case False
  then show ?thesis by (simp add: Stream_New_def)
qed

definition enc_erect_domain :: "u8 list" where
  "enc_erect_domain = enc_domain_header DomainMCSPDU_ErectDomainRequest 12 0 @
     enc_per_integer 0 @ enc_per_integer 0"

definition enc_attach_user_request :: "u8 list" where
  "enc_attach_user_request = enc_domain_header DomainMCSPDU_AttachUserRequest 8 0"

definition enc_attach_user_confirm :: "u16 \<Rightarrow> u8 list" where
  "enc_attach_user_confirm uid = enc_domain_header DomainMCSPDU_AttachUserConfirm 11 2 @
     0 # enc_per_integer16 MCS_BASE_CHANNEL_ID uid"

definition enc_channel_join_request :: "u16 \<Rightarrow> u16 \<Rightarrow> u8 list" where
  "enc_channel_join_request uid chan = enc_domain_header DomainMCSPDU_ChannelJoinRequest 12 0 @
     enc_per_integer16 MCS_BASE_CHANNEL_ID uid @ enc_per_integer16 0 chan"

definition enc_channel_join_confirm :: "u16 \<Rightarrow> u16 \<Rightarrow> u8 list" where
  "enc_channel_join_confirm uid chan = enc_domain_header DomainMCSPDU_ChannelJoinConfirm 15 2 @
     0 # enc_per_integer16 MCS_BASE_CHANNEL_ID uid @ enc_per_integer16 0 chan @ enc_per_integer16 0 chan"

lemma length_enc_domain_header [simp]: "length (enc_domain_header d len opts) = 8"
  by (simp add: enc_domain_header_def)

lemma enc_domain_header_not_Nil [simp]: "enc_domain_header d len opts \<noteq> []"
  by (simp add: enc_domain_header_def)

lemma length_enc_per_integer_0 [simp]: "length (enc_per_integer 0) = 2"
  by (simp add: enc_per_integer_def enc_per_length_def)

lemma length_pdus [simp]:
  "length enc_erect_domain = 12" "length enc_attach_user_request = 8"
  "length (enc_attach_user_confirm uid) = 11" "length (enc_channel_join_request uid chan) = 12"
  "length (enc_channel_join_confirm uid chan) = 15"
  by (simp_all add: enc_erect_domain_def enc_attach_user_request_def enc_attach_user_confirm_def
      enc_channel_join_request_def enc_channel_join_confirm_def)

lemma in_connection_pdus [simp]:
  "DomainMCSPDU_ErectDomainRequest \<in> connection_pdus" "DomainMCSPDU_AttachUserRequest \<in> connection_pdus"
  "DomainMCSPDU_AttachUserConfirm \<in> connection_pdus" "DomainMCSPDU_ChannelJoinRequest \<in> connection_pdus"
  "DomainMCSPDU_ChannelJoinConfirm \<in> connection_pdus"
  "DomainMCSPDU_DisconnectProviderUltimatum \<in> connection_pdus"
  by (simp_all add: connection_pdus_def)

lemma send_erect_domain:
  "mcs_send_erect_domain_request ctx = (if heap ctx 12 then deliver enc_erect_domain ctx else Fail ctx)"
proof -
  let ?m = "bindp (mcs_write_domain_mcspdu_header DomainMCSPDU_ErectDomainRequest 12 0) (\<lambda>_.
     bindp (per_write_integer 0) (\<lambda>_. per_write_integer 0))"
  have "emits ?m enc_erect_domain ()"
    unfolding enc_erect_domain_def by (intro emit_intros) simp_all
  then show ?thesis unfolding mcs_send_erect_domain_request_def
    by (rule send_emits) (simp_all add: bindp_assoc enc_erect_domain_def bounds_defs)
qed

lemma send_attach_user_request:
  "mcs_send_attach_user_request ctx =
     (if heap ctx 8 then deliver enc_attach_user_request ctx else Fail ctx)"
proof -
  let ?m = "mcs_write_domain_mcspdu_header DomainMCSPDU_AttachUserRequest 8 0"
  have "emits (bindp ?m ret) (enc_attach_user_request @ []) ()"
    unfolding enc_attach_user_request_def by (intro emit_intros) simp_all
  then have "emits ?m enc_attach_user_request ()" by (simp add: bindp_ret)
  then show ?thesis unfolding mcs_send_attach_user_request_def
    by (rule send_emits) (simp_all add: enc_attach_user_request_def bounds_defs)
qed

lemma send_attach_user_confirm:
  fixes ctx :: "'t rdpContext"
  defines "uid \<equiv> baseChannelId (mcs ctx)"
  defines "ctx' \<equiv> ctx\<lparr>mcs := (mcs ctx)\<lparr>userId := uid, baseChannelId := uid + 1\<rparr>\<rparr>"
  assumes base: "MCS_BASE_CHANNEL_ID \<le> uid"
  shows "mcs_send_attach_user_confirm ctx =
     (if heap ctx 11 then deliver (enc_attach_user_confirm uid) ctx' else Fail ctx)"
proof -
  let ?m = "bindp (mcs_write_domain_mcspdu_header DomainMCSPDU_AttachUserConfirm 11 2) (\<lambda>_.
     bindp (per_write_enumerated 0 MCS_Result_enum_length) (\<lambda>_.
     per_write_integer16 uid MCS_BASE_CHANNEL_ID))"
  have "emits ?m (enc_attach_user_confirm uid) ()"
    unfolding enc_attach_user_confirm_def by (intro emit_intros base) simp_all
  then show ?thesis unfolding mcs_send_attach_user_confirm_def Let_def uid_def [symmetric] ctx'_def [symmetric]
    by (rule send_emits)
      (simp_all add: bindp_assoc enc_attach_user_confirm_def bounds_defs ctx'_def)
qed

lemma send_channel_join_request:
  assumes base: "MCS_BASE_CHANNEL_ID \<le> userId (mcs ctx)"
  shows "mcs_send_channel_join_request chan ctx =
     (if heap ctx 12 then deliver (enc_channel_join_request (userId (mcs ctx)) chan) ctx else Fail ctx)"
proof -
  let ?m = "bindp (mcs_write_domain_mcspdu_header DomainMCSPDU_ChannelJoinRequest 12 0) (\<lambda>_.
     bindp (per_write_integer16 (userId (mcs ctx)) MCS_BASE_CHANNEL_ID) (\<lambda>_.
     per_write_integer16 chan 0))"
  have "emits ?m (enc_channel_join_request (userId (mcs ctx)) chan) ()"
    unfolding enc_channel_join_request_def by (intro emit_intros base) simp_all
  then show ?thesis unfolding mcs_send_channel_join_request_def
    by (rule send_emits) (simp_all add: bindp_assoc enc_channel_join_request_def bounds_defs)
qed

lemma send_channel_join_confirm:
  assumes base: "MCS_BASE_CHANNEL_ID \<le> userId (mcs ctx)"
  shows "mcs_send_channel_join_confirm chan ctx =
     (if heap ctx 15 then deliver (enc_channel_join_confirm (userId (mcs ctx)) chan) ctx else Fail ctx)"
proof -
  let ?m = "bindp (mcs_write_domain_mcspdu_header DomainMCSPDU_ChannelJoinConfirm 15 2) (\<lambda>_.
     bindp (per_write_enumerated 0 MCS_Result_enum_length) (\<lambda>_.
     bindp (per_write_integer16 (userId (mcs ctx)) MCS_BASE_CHANNEL_ID) (\<lambda>_.
     bindp (per_write_integer16 chan 0) (\<lambda>_. per_write_integer16 chan 0))))"
  have "emits ?m (enc_channel_join_confirm (userId (mcs ctx)) chan) ()"
    unfolding enc_channel_join_confirm_def by (intro emit_intros base) simp_all
  then show ?thesis unfolding mcs_send_channel_join_confirm_def
    by (rule send_emits) (simp_all add: bindp_assoc enc_channel_join_confirm_def bounds_defs)
qed

section \<open>What the receivers make of it\<close>

lemma on_stream_parses:
  "parses m bs [] x \<Longrightarrow> wf_stream s \<Longrightarrow> rest s = bs \<Longrightarrow> on_stream m (c, s) = Ret x (c, adv (length bs) s)"
  using parsesD [of m bs "[]" x s] by (simp add: on_stream_def)

lemma unat_pdu_len [simp]: "unat (8 :: u16) = 8" "unat (11 :: u16) = 11" "unat (12 :: u16) = 12"
  "unat (15 :: u16) = 15" "unat (9 :: u16) = 9"
  by simp_all

lemma recv_erect_domain:
  assumes "wf_stream s" and "rest s = enc_erect_domain"
  shows "mcs_recv_erect_domain_request (c, s) = Ret () (c, adv 12 s)"
proof -
  have "parses (bindp (mcs_read_domain_mcspdu_header DomainMCSPDU_ErectDomainRequest) (\<lambda>len.
      bindp per_read_integer (\<lambda>_. bindp per_read_integer (\<lambda>_. tpkt_ensure_stream_consumed (unat len)))))
     (enc_domain_header DomainMCSPDU_ErectDomainRequest 12 0 @ enc_per_integer 0 @ enc_per_integer 0 @ []) [] ()"
    by (intro parses_domain_header parses_per_integer_bindp parses_ensure_consumed)
       (simp_all add: per_integer_valid_def bounds_defs)
  from on_stream_parses [OF this assms(1)] assms(2) show ?thesis
    by (simp add: mcs_recv_erect_domain_request_def enc_erect_domain_def)
qed

lemma recv_attach_user_request:
  assumes "wf_stream s" and "rest s = enc_attach_user_request"
  shows "mcs_recv_attach_user_request (c, s) = Ret () (c, adv 8 s)"
proof -
  have "parses (bindp (mcs_read_domain_mcspdu_header DomainMCSPDU_AttachUserRequest)
      (\<lambda>len. tpkt_ensure_stream_consumed (unat len)))
     (enc_domain_header DomainMCSPDU_AttachUserRequest 8 0 @ []) [] ()"
    by (intro parses_domain_header parses_ensure_consumed) (simp_all add: bounds_defs)
  from on_stream_parses [OF this assms(1)] assms(2) show ?thesis
    by (simp add: mcs_recv_attach_user_request_def enc_attach_user_request_def)
qed

lemma recv_channel_join_confirm:
  assumes "MCS_BASE_CHANNEL_ID \<le> uid" and "wf_stream s" and "rest s = enc_channel_join_confirm uid chan"
  shows "mcs_recv_channel_join_confirm (c, s) = Ret chan (c, adv 15 s)"
proof -
  have "parses (bindp (mcs_read_domain_mcspdu_header DomainMCSPDU_ChannelJoinConfirm) (\<lambda>len.
       bindp (per_read_enumerated MCS_Result_enum_length) (\<lambda>result.
       bindp (per_read_integer16 MCS_BASE_CHANNEL_ID) (\<lambda>initiator.
       bindp (per_read_integer16 0) (\<lambda>requested.
       bindp (per_read_integer16 0) (\<lambda>channelId.
       bindp (tpkt_ensure_stream_consumed (unat len)) (\<lambda>_. ret channelId)))))))
     (enc_domain_header DomainMCSPDU_ChannelJoinConfirm 15 2 @ 0 # enc_per_integer16 MCS_BASE_CHANNEL_ID uid @
      enc_per_integer16 0 chan @ enc_per_integer16 0 chan @ []) [] chan"
    by (intro parses_domain_header parses_enumerated parses_per_integer16_bindp
        parses_ensure_consumed_bindp parses_ret)
       (use assms(1) in \<open>simp_all add: bounds_defs mcs_consts\<close>)
  from on_stream_parses [OF this assms(2)] assms(3) show ?thesis
    by (simp add: mcs_recv_channel_join_confirm_def enc_channel_join_confirm_def)
qed

lemma parses_integer16_out:
  assumes "mn \<le> v"
  shows "parses (per_read_integer16_out old mn) (enc_per_integer16 mn v) ys (True, v)"
proof (rule parsesI)
  fix s assume s: "wf_stream s" "rest s = enc_per_integer16 mn v @ ys"
  have "parses (bindp Stream_Read_UINT16_BE (\<lambda>w. if w > 0xFFFF - mn then ret (False, w) else ret (True, w + mn)))
     (winpr_Data_Write_UINT16_BE (v - mn) @ []) ys (True, v)"
    by (rule parses_u16_be) (use integer16_in_range [OF assms] in \<open>simp add: parses_ret\<close>)
  from parsesD [OF this, of s] s
  show "per_read_integer16_out old mn s = Ret (True, v) (adv (length (enc_per_integer16 mn v)) s)"
    by (simp add: per_read_integer16_out_def check_wf enc_per_integer16_def)
qed

lemma recv_attach_user_confirm:
  assumes "MCS_BASE_CHANNEL_ID \<le> uid" and s: "wf_stream s" "rest s = enc_attach_user_confirm uid"
  shows "mcs_recv_attach_user_confirm (c, s) = Ret () (c\<lparr>userId := uid\<rparr>, adv 11 s)"
proof -
  let ?e = "enc_per_integer16 MCS_BASE_CHANNEL_ID uid"
  have "parses (bindp (mcs_read_domain_mcspdu_header DomainMCSPDU_AttachUserConfirm) (\<lambda>len.
       bindp (per_read_enumerated MCS_Result_enum_length) (\<lambda>result. ret len)))
     (enc_domain_header DomainMCSPDU_AttachUserConfirm 11 2 @ 0 # []) ?e 11"
    by (intro parses_domain_header parses_enumerated parses_ret) (simp_all add: mcs_consts)
  from parsesD [OF this s(1)] s(2)
  have 1: "on_stream (bindp (mcs_read_domain_mcspdu_header DomainMCSPDU_AttachUserConfirm) (\<lambda>len.
       bindp (per_read_enumerated MCS_Result_enum_length) (\<lambda>result. ret len))) (c, s) = Ret 11 (c, adv 9 s)"
    by (simp add: on_stream_def enc_attach_user_confirm_def)
  have s9: "wf_stream (adv 9 s)" "rest (adv 9 s) = ?e"
    using s by (simp_all add: wf_adv rest_adv enc_attach_user_confirm_def)
  have 2: "on_stream (per_read_integer16_out (userId c) MCS_BASE_CHANNEL_ID) (c, adv 9 s)
      = Ret (True, uid) (c, adv 11 s)"
    using on_stream_parses [OF parses_integer16_out [OF assms(1)] s9] by simp
  have s11: "wf_stream (adv 11 s)" "rest (adv 11 s) = []"
    using s by (simp_all add: wf_adv rest_adv enc_attach_user_confirm_def)
  have 3: "on_stream (tpkt_ensure_stream_consumed 11) (c', adv 11 s) = Ret () (c', adv 11 s)" for c' :: rdpMcs
    using on_stream_parses [OF parses_ensure_consumed s11, of 11 c'] by (simp add: bounds_defs)
  show ?thesis
    by (simp add: mcs_recv_attach_user_confirm_def bindp_def 1 2 3 on_mcs_def)
qed

lemma recv_channel_join_request:
  assumes "MCS_BASE_CHANNEL_ID \<le> uid" and s: "wf_stream s" "rest s = enc_channel_join_request uid chan"
  shows "mcs_recv_channel_join_request replay (c, s) =
     (if uid = userId c \<or> replay then Ret chan (c\<lparr>userId := uid\<rparr>, adv 12 s) else Fail (c, adv 10 s))"
proof -
  have "parses (bindp (mcs_read_domain_mcspdu_header DomainMCSPDU_ChannelJoinRequest) (\<lambda>len.
       bindp (per_read_integer16 MCS_BASE_CHANNEL_ID) (\<lambda>uid. ret (len, uid))))
     (enc_domain_header DomainMCSPDU_ChannelJoinRequest 12 0 @ enc_per_integer16 MCS_BASE_CHANNEL_ID uid @ [])
     (enc_per_integer16 0 chan) (12, uid)"
    by (intro parses_domain_header parses_per_integer16_bindp parses_ret) (use assms(1) in simp_all)
  from parsesD [OF this s(1)] s(2)
  have 1: "on_stream (bindp (mcs_read_domain_mcspdu_header DomainMCSPDU_ChannelJoinRequest) (\<lambda>len.
       bindp (per_read_integer16 MCS_BASE_CHANNEL_ID) (\<lambda>uid. ret (len, uid)))) (c, s)
      = Ret (12, uid) (c, adv 10 s)"
    by (simp add: on_stream_def enc_channel_join_request_def)
  have s10: "wf_stream (adv 10 s)" "rest (adv 10 s) = enc_per_integer16 0 chan @ []"
    using s by (simp_all add: wf_adv rest_adv enc_channel_join_request_def)
  have "parses (bindp (per_read_integer16 0) (\<lambda>channelId.
       bindp (tpkt_ensure_stream_consumed 12) (\<lambda>_. ret channelId))) (enc_per_integer16 0 chan @ []) [] chan"
    by (intro parses_per_integer16_bindp parses_ensure_consumed_bindp parses_ret) (simp_all add: bounds_defs)
  from on_stream_parses [OF this s10, where 'b = rdpMcs]
  have 2: "on_stream (bindp (per_read_integer16 0) (\<lambda>channelId.
       bindp (tpkt_ensure_stream_consumed 12) (\<lambda>_. ret channelId))) (c', adv 10 s) = Ret chan (c', adv 12 s)"
    for c' :: rdpMcs by simp
  show ?thesis
    by (simp add: mcs_recv_channel_join_request_def bindp_def 1 2)
qed

section \<open>One PDU from one side to the other\<close>

text \<open>A transport that queues the packets it is given, each with the bytes up to the length of
  the stream, as the default \<^verbatim>\<open>WritePdu\<close> sends them.\<close>

definition queue_pdu :: "wStream \<Rightarrow> u8 list list \<Rightarrow> int \<times> u8 list list" where
  "queue_pdu s q = (int (Stream_Length s), q @ [take (Stream_Length s) (buffer s)])"

lemma deliver_queue:
  "WritePdu ctx = Some queue_pdu \<Longrightarrow> deliver bs ctx = Ret () (ctx\<lparr>transport := transport ctx @ [bs]\<rparr>)"
  by (simp add: deliver_def transport_write_def queue_pdu_def sent_stream_def Stream_Length_def)

text \<open>
  The contract of one PDU: \<open>send x\<close> in a state that is \<open>ready\<close> for it hands \<open>enc x\<close> to the
  transport after the update \<open>before\<close>, and \<open>recv\<close> on a packet \<open>enc x\<close> in a state that accepts
  it returns \<open>result x\<close> and makes the update \<open>after\<close>.
\<close>

locale mcs_pdu =
  fixes send :: "'a \<Rightarrow> (unit, u8 list list rdpContext) prog"
    and ready :: "'a \<Rightarrow> rdpMcs \<Rightarrow> bool"
    and before :: "'a \<Rightarrow> rdpMcs \<Rightarrow> rdpMcs"
    and recv :: "'b mcs_handler"
    and accept :: "'a \<Rightarrow> rdpMcs \<Rightarrow> bool"
    and result :: "'a \<Rightarrow> 'b"
    and after :: "'a \<Rightarrow> rdpMcs \<Rightarrow> rdpMcs"
    and enc :: "'a \<Rightarrow> u8 list"
  assumes sends: "ready x (mcs ctx) \<Longrightarrow> heap ctx (length (enc x)) \<Longrightarrow>
      send x ctx = deliver (enc x) (ctx\<lparr>mcs := before x (mcs ctx)\<rparr>)"
    and no_memory: "ready x (mcs ctx) \<Longrightarrow> \<not> heap ctx (length (enc x)) \<Longrightarrow> send x ctx = Fail ctx"
    and recvs: "ready x m \<Longrightarrow> accept x c \<Longrightarrow> wf_stream s \<Longrightarrow> rest s = enc x \<Longrightarrow>
      recv (c, s) = Ret (result x) (after x c, adv (length (enc x)) s)"
begin

lemma send_queue:
  assumes "ready x (mcs ctx)" and "heap ctx (length (enc x))" and "WritePdu ctx = Some queue_pdu"
  shows "send x ctx = Ret () (ctx\<lparr>mcs := before x (mcs ctx), transport := transport ctx @ [enc x]\<rparr>)"
  using assms by (simp add: sends deliver_queue)

lemma exchange:
  assumes "ready x (mcs ctx)" and "heap ctx (length (enc x))" and "WritePdu ctx = Some queue_pdu"
  shows "\<exists>bs. send x ctx = Ret () (ctx\<lparr>mcs := before x (mcs ctx), transport := transport ctx @ [bs]\<rparr>) \<and>
     (\<forall>c s. accept x c \<and> wf_stream s \<and> rest s = bs \<longrightarrow>
        (\<exists>t. recv (c, s) = Ret (result x) (after x c, t) \<and> rest t = []))"
proof (intro exI conjI allI impI)
  show "send x ctx = Ret () (ctx\<lparr>mcs := before x (mcs ctx), transport := transport ctx @ [enc x]\<rparr>)"
    using assms by (rule send_queue)
next
  fix c s assume "accept x c \<and> wf_stream s \<and> rest s = enc x"
  with assms(1) show "recv (c, s) = Ret (result x) (after x c, adv (length (enc x)) s)"
    by (intro recvs) auto
next
  fix c s assume "accept x c \<and> wf_stream s \<and> rest s = enc x"
  then show "rest (adv (length (enc x)) s) = []" by (simp add: rest_adv)
qed

end

definition attach_ready :: "u16 \<Rightarrow> rdpMcs \<Rightarrow> bool" where
  "attach_ready uid m \<longleftrightarrow> uid = baseChannelId m \<and> MCS_BASE_CHANNEL_ID \<le> uid"

definition join_ready :: "u16 \<times> u16 \<Rightarrow> rdpMcs \<Rightarrow> bool" where
  "join_ready x m \<longleftrightarrow> userId m = fst x \<and> MCS_BASE_CHANNEL_ID \<le> fst x"

interpretation erect_domain: mcs_pdu "\<lambda>_. mcs_send_erect_domain_request" "\<lambda>_ _. True" "\<lambda>_ m. m"
  mcs_recv_erect_domain_request "\<lambda>_ _. True" "\<lambda>_. ()" "\<lambda>_ m. m" "\<lambda>_ :: unit. enc_erect_domain"
  by unfold_locales (simp_all add: send_erect_domain recv_erect_domain)

interpretation attach_request: mcs_pdu "\<lambda>_. mcs_send_attach_user_request" "\<lambda>_ _. True" "\<lambda>_ m. m"
  mcs_recv_attach_user_request "\<lambda>_ _. True" "\<lambda>_. ()" "\<lambda>_ m. m" "\<lambda>_ :: unit. enc_attach_user_request"
  by unfold_locales (simp_all add: send_attach_user_request recv_attach_user_request)

interpretation attach_confirm: mcs_pdu "\<lambda>_. mcs_send_attach_user_confirm" attach_ready
  "\<lambda>uid m. m\<lparr>userId := uid, baseChannelId := uid + 1\<rparr>"
  mcs_recv_attach_user_confirm "\<lambda>_ _. True" "\<lambda>_. ()" "\<lambda>uid m. m\<lparr>userId := uid\<rparr>" enc_attach_user_confirm
  by unfold_locales (simp_all add: send_attach_user_confirm recv_attach_user_confirm attach_ready_def)

interpretation join_request: mcs_pdu "\<lambda>x. mcs_send_channel_join_request (snd x)" join_ready "\<lambda>_ m. m"
  "mcs_recv_channel_join_request replay" "\<lambda>x m. userId m = fst x" snd "\<lambda>_ m. m"
  "\<lambda>x. enc_channel_join_request (fst x) (snd x)" for replay
  by unfold_locales (auto simp: send_channel_join_request recv_channel_join_request join_ready_def)

interpretation join_confirm: mcs_pdu "\<lambda>x. mcs_send_channel_join_confirm (snd x)" join_ready "\<lambda>_ m. m"
  mcs_recv_channel_join_confirm "\<lambda>_ _. True" snd "\<lambda>_ m. m"
  "\<lambda>x. enc_channel_join_confirm (fst x) (snd x)"
  by unfold_locales (auto simp: send_channel_join_confirm recv_channel_join_confirm join_ready_def)

section \<open>The disconnect ultimatum\<close>

text \<open>The PDU says \<open>rn-user-requested\<close> whatever reason it was asked to send.\<close>

definition enc_ultimatum :: "u8 list" where
  "enc_ultimatum = enc_domain_header DomainMCSPDU_DisconnectProviderUltimatum 9 1 @ [0x80]"

lemma send_ultimatum:
  assumes "0 \<le> reason" and "reason \<le> 255"
  shows "mcs_send_disconnect_provider_ultimatum reason ctx =
     (if heap ctx 9 then deliver enc_ultimatum ctx else Fail ctx)"
proof (cases "heap ctx 9")
  case True
  let ?m = "bindp (mcs_write_domain_mcspdu_header DomainMCSPDU_DisconnectProviderUltimatum 9 1) (\<lambda>_.
     bindp (winpr_assert (0 \<le> reason \<and> reason \<le> 255)) (\<lambda>_. per_write_enumerated 0x80 (word_of_int reason)))"
  have e: "emits ?m enc_ultimatum ()"
    unfolding enc_ultimatum_def by (intro emit_intros) (use assms in simp_all)
  have l: "length enc_ultimatum = 9" "enc_ultimatum \<noteq> []" by (simp_all add: enc_ultimatum_def)
  obtain s where s: "Stream_New (heap ctx) 9 = Some s" "room (length enc_ultimatum) s"
      "put enc_ultimatum s = sent_stream (heap ctx) enc_ultimatum"
    by (rule fresh_pdu [of "heap ctx" enc_ultimatum]) (use True l in \<open>auto simp: bounds_defs\<close>)
  from emitsD [OF e s(2)] s(3) have "?m s = Ret () (sent_stream (heap ctx) enc_ultimatum)" by simp
  with True s(1) show ?thesis
    by (simp add: mcs_send_disconnect_provider_ultimatum_def mcs_transmit_def deliver_def)
next
  case False
  then show ?thesis by (simp add: mcs_send_disconnect_provider_ultimatum_def Stream_New_def)
qed

text \<open>The receiver has read the headers up to the choice octet when it is called.\<close>

lemma recv_ultimatum:
  assumes "wf_stream s" and "rest s = enc_ultimatum"
  shows "mcs_recv_disconnect_provider_ultimatum (adv 8 s) = Ret 3 (adv 9 s)"
proof -
  have c: "domain_choice DomainMCSPDU_DisconnectProviderUltimatum 1 = 0x21"
    by (simp add: domain_choice_def domain_codes push_bit_eq_mult)
  have r7: "wf_stream (adv 7 s)" "rest (adv 7 s) = [0x21, 0x80]"
    using assms by (simp_all add: wf_adv rest_adv enc_ultimatum_def enc_domain_header_def c)
  have r8: "wf_stream (adv 8 s)" "rest (adv 8 s) = [0x80]"
    using assms by (simp_all add: wf_adv rest_adv enc_ultimatum_def)
  have "Stream_Rewind 1 (adv 8 s) = Ret () (adv 7 s)" by (simp add: Stream_Rewind_def adv_def)
  then show ?thesis
    using read_u8_wf(1) [OF r7] read_u8_wf(1) [OF r8] check_wf [OF r8(1), of 1] r8(2)
    by (simp add: mcs_recv_disconnect_provider_ultimatum_def bindp_def drop_bit_eq_div)
qed

text \<open>Behind the choice octet it stays inside its packet; at the start of a packet the step back is an assertion.\<close>

lemma recv_ultimatum_inside:
  assumes "wf_stream s" and "0 < Stream_GetPosition s"
  shows "read_inside s (mcs_recv_disconnect_provider_ultimatum s)"
proof -
  define s' where "s' = s\<lparr>pointer := pointer s - 1\<rparr>"
  have s': "wf_stream s'" "pointer s' = pointer s - 1" "slength s' = slength s" "buffer s' = buffer s"
    using assms by (auto simp: s'_def wf_stream_def)
  show ?thesis
  proof (cases "pointer s < slength s")
    case True
    then have "Suc (Suc 0) \<le> length (rest s')"
      using assms s' by (simp add: rest_def wf_stream_def Stream_GetPosition_def; arith)
    then obtain a b bs where "rest s' = a # b # bs" by (auto simp: Suc_le_length_iff)
    with s'(1) have r: "rest s' = a # b # bs" "rest (adv 1 s') = b # bs" by (simp_all add: rest_adv)
    have "Stream_CheckAndLogRequiredLength 1 s = Ret () s" "Stream_Rewind 1 s = Ret () s'"
      using True assms check_wf [OF assms(1), of 1]
      by (auto simp: rest_def Stream_Rewind_def Stream_GetPosition_def s'_def wf_stream_def split: if_splits)
    moreover have "wf_stream (adv 1 s')" "wf_stream (adv 1 (adv 1 s'))" using s' r by (simp_all add: wf_adv rest_adv)
    ultimately show ?thesis
      using read_u8_wf(1) [OF s'(1) r(1)] read_u8_wf(1) [OF _ r(2)] assms(2) s'
      by (simp add: mcs_recv_disconnect_provider_ultimatum_def bindp_def read_inside_def adv_def Stream_GetPosition_def)
  next
    case False
    then have "Stream_CheckAndLogRequiredLength 1 s = Fail s"
      using check_wf [OF assms(1), of 1] by (simp add: rest_def)
    with assms(1) show ?thesis
      by (simp add: mcs_recv_disconnect_provider_ultimatum_def bindp_def read_inside_def)
  qed
qed

lemma recv_ultimatum_at_start:
  assumes "wf_stream s" and "Stream_GetPosition s = 0" and "rest s \<noteq> []"
  shows "mcs_recv_disconnect_provider_ultimatum s = Abort"
  using check_wf [OF assms(1), of 1] assms(2,3)
  by (cases "rest s") (auto simp: mcs_recv_disconnect_provider_ultimatum_def bindp_def Stream_Rewind_def Stream_GetPosition_def)

section \<open>Domain parameters on the wire\<close>

definition domain_parameter_list :: "DomainParameters \<Rightarrow> u32 list" where
  "domain_parameter_list p = [maxChannelIds p, maxUserIds p, maxTokenIds p, numPriorities p,
     minThroughput p, maxHeight p, maxMCSPDUsize p, protocolVersion p]"

definition domain_parameters_valid :: "DomainParameters \<Rightarrow> bool" where
  "domain_parameters_valid p \<longleftrightarrow> (\<forall>v \<in> set (domain_parameter_list p). ber_integer_valid v)"

definition enc_domain_fields :: "DomainParameters \<Rightarrow> u8 list" where
  "enc_domain_fields p = concat (map enc_ber_integer (domain_parameter_list p))"

definition enc_domain_parameters :: "DomainParameters \<Rightarrow> u8 list" where
  "enc_domain_parameters p = enc_ber_sequence (length (enc_domain_fields p)) @ enc_domain_fields p"

lemma ber_sizeof_integer_le: "ber_sizeof_integer v \<le> 6"
  by (simp add: ber_sizeof_integer_def)

lemma length_enc_domain_fields: "length (enc_domain_fields p) \<le> 48"
proof -
  have "length (enc_domain_fields p) = (\<Sum>v \<leftarrow> domain_parameter_list p. ber_sizeof_integer v)"
    by (simp add: enc_domain_fields_def length_concat comp_def)
  also have "\<dots> \<le> (\<Sum>v \<leftarrow> domain_parameter_list p. 6)"
    by (rule sum_list_mono) (rule ber_sizeof_integer_le)
  also have "\<dots> = 48" by (simp add: domain_parameter_list_def)
  finally show ?thesis .
qed

lemma read_field_parses:
  assumes "ber_integer_valid v" and "wf_stream s" and "rest s = enc_ber_integer v @ ys"
  shows "read_field upd (p, s) = Ret () (upd v p, adv (ber_sizeof_integer v) s)"
proof -
  have "parses ber_read_integer (enc_ber_integer v) ys v"
    by (rule ber_integer.rd_parses [OF assms(1)])
  from parsesD [OF this assms(2,3)] show ?thesis
    by (simp add: read_field_def on_stream_def bindp_def)
qed

text \<open>A run of \<open>read_field\<close>s, one for each update in a list.\<close>

fun read_fields :: "(u32 \<Rightarrow> DomainParameters \<Rightarrow> DomainParameters) list \<Rightarrow> (unit, DomainParameters \<times> wStream) prog" where
  "read_fields [] = ret ()"
| "read_fields (f # fs) = bindp (read_field f) (\<lambda>_. read_fields fs)"

lemma read_fields_parses:
  assumes "length fs = length vs" and "\<forall>v \<in> set vs. ber_integer_valid v" and "wf_stream s"
    and "rest s = concat (map enc_ber_integer vs) @ ys"
  shows "read_fields fs (p, s) =
     Ret () (fold (\<lambda>(f, v). f v) (zip fs vs) p, adv (length (concat (map enc_ber_integer vs))) s)"
  using assms
proof (induction fs vs arbitrary: p s rule: list_induct2)
  case Nil
  show ?case by simp
next
  case (Cons f fs v vs)
  have 1: "read_field f (p, s) = Ret () (f v p, adv (ber_sizeof_integer v) s)"
    using Cons.prems by (intro read_field_parses) auto
  have "read_fields fs (f v p, adv (ber_sizeof_integer v) s) =
     Ret () (fold (\<lambda>(f, v). f v) (zip fs vs) (f v p),
             adv (length (concat (map enc_ber_integer vs))) (adv (ber_sizeof_integer v) s))"
    using Cons.prems by (intro Cons.IH) (auto simp: wf_adv rest_adv)
  with 1 show ?case by (simp add: bindp_def add.commute)
qed

lemma read_domain_parameters:
  assumes valid: "domain_parameters_valid p" and s: "wf_stream s" "rest s = enc_domain_parameters p @ ys"
  shows "mcs_read_domain_parameters (q, s) = Ret () (p, adv (length (enc_domain_parameters p)) s)"
proof -
  let ?n = "length (enc_domain_fields p)"
  let ?fs = "[\<lambda>v p. p\<lparr>maxChannelIds := v\<rparr>, \<lambda>v p. p\<lparr>maxUserIds := v\<rparr>, \<lambda>v p. p\<lparr>maxTokenIds := v\<rparr>,
    \<lambda>v p. p\<lparr>numPriorities := v\<rparr>, \<lambda>v p. p\<lparr>minThroughput := v\<rparr>, \<lambda>v p. p\<lparr>maxHeight := v\<rparr>,
    \<lambda>v p. p\<lparr>maxMCSPDUsize := v\<rparr>, \<lambda>v p. p\<lparr>protocolVersion := v\<rparr>]"
  have n: "ber_length_valid ?n" using length_enc_domain_fields [of p] by (intro ber_small_lengths) simp
  have "parses (bindp ber_read_sequence_tag ret) (enc_ber_sequence ?n @ []) (enc_domain_fields p @ ys) ?n"
    using n by (intro parses_ber_sequence parses_ret)
  then have "parses ber_read_sequence_tag (enc_ber_sequence ?n) (enc_domain_fields p @ ys) ?n"
    by (simp add: bindp_ret)
  from parsesD [OF this s(1)] s(2)
  have 1: "on_stream ber_read_sequence_tag (q, s) = Ret ?n (q, adv (length (enc_ber_sequence ?n)) s)"
    by (simp add: on_stream_def enc_domain_parameters_def)
  have "read_fields ?fs (q, adv (length (enc_ber_sequence ?n)) s) =
     Ret () (fold (\<lambda>(f, v). f v) (zip ?fs (domain_parameter_list p)) q,
             adv (length (concat (map enc_ber_integer (domain_parameter_list p))))
               (adv (length (enc_ber_sequence ?n)) s))"
    by (rule read_fields_parses)
      (use valid s in \<open>auto simp: domain_parameters_valid_def wf_adv rest_adv enc_domain_parameters_def
        enc_domain_fields_def domain_parameter_list_def\<close>)
  then have 2: "read_fields ?fs (q, adv (length (enc_ber_sequence ?n)) s) =
     Ret () (p, adv (length (enc_domain_parameters p)) s)"
    by (simp add: domain_parameter_list_def enc_domain_parameters_def enc_domain_fields_def)
  have 3: "mcs_read_domain_parameters = bindp (on_stream ber_read_sequence_tag) (\<lambda>_. read_fields ?fs)"
    by (simp add: mcs_read_domain_parameters_def bindp_ret)
  show ?thesis unfolding 3 by (rule trans, rule bindp_Ret, rule 1, rule 2)
qed

text \<open>Writers that allocate: what they append when the temporary streams are granted.\<close>

definition emits_alloc :: "'a parser \<Rightarrow> u8 list \<Rightarrow> 'a \<Rightarrow> bool" where
  "emits_alloc m bs x \<longleftrightarrow>
     (\<forall>s. room (length bs) s \<and> grants s (Stream_Capacity s) \<longrightarrow> m s = Ret x (put bs s))"

named_theorems alloc_intros "writers that use temporary streams"

lemma emits_alloc_emits: "emits m bs x \<Longrightarrow> emits_alloc m bs x"
  by (simp add: emits_alloc_def emits_def)

lemma emits_allocD:
  "emits_alloc m bs x \<Longrightarrow> room (length bs) s \<Longrightarrow> grants s (Stream_Capacity s) \<Longrightarrow> m s = Ret x (put bs s)"
  by (simp add: emits_alloc_def)

lemma emits_alloc_bindp:
  assumes m: "emits_alloc m as a" and k: "emits_alloc (k a) bs x"
  shows "emits_alloc (bindp m k) (as @ bs) x"
  unfolding emits_alloc_def
proof (intro allI impI)
  fix s assume s: "room (length (as @ bs)) s \<and> grants s (Stream_Capacity s)"
  then have r: "room (length as) s" by (auto intro: room_less)
  with m s have "m s = Ret a (put as s)" by (auto intro: emits_allocD)
  moreover have "k a (put as s) = Ret x (put bs (put as s))"
    using k by (rule emits_allocD) (use s r in \<open>auto intro: room_put\<close>)
  ultimately show "bindp m k s = Ret x (put (as @ bs) s)" using s by (simp add: put_put)
qed

lemma emits_alloc_tmps:
  assumes body: "emits_alloc body bs ()" and k: "emits_alloc (k bs) cs ()"
    and "length bs \<le> length cs" and "cs \<noteq> []"
  shows "emits_alloc (with_tmps body k) cs ()"
  unfolding emits_alloc_def
proof (intro allI impI)
  fix s assume s: "room (length cs) s \<and> grants s (Stream_Capacity s)"
  let ?n = "Stream_Capacity s"
  let ?t = "\<lparr>buffer = replicate ?n 0, pointer = 0, slength = ?n, isOwner = True, grants = grants s\<rparr>"
  have new: "Stream_New (grants s) ?n = Some ?t"
    using s assms(4) by (cases cs) (auto simp: Stream_New_def room_def)
  have "room (length bs) ?t" using s assms(3) by (auto simp: room_def Stream_Capacity_def)
  then have "body ?t = Ret () (put bs ?t)"
    using body s by (intro emits_allocD) (auto simp: Stream_Capacity_def)
  moreover have "take (Stream_GetPosition (put bs ?t)) (buffer (put bs ?t)) = bs"
    by (simp add: put_def overwrite_def Stream_GetPosition_def)
  ultimately show "with_tmps body k s = Ret () (put cs s)"
    using new k s by (simp add: with_tmps_def emits_allocD)
qed

lemma emits_nonzero:
  assumes "emits (bindp m (\<lambda>n. require (n \<noteq> 0))) bs ()"
  shows "emits (nonzero m) bs ()"
  using assms by (simp add: nonzero_def)

lemma emits_nonzero_integer:
  assumes "ber_integer_valid v"
  shows "emits (nonzero (ber_write_integer v)) (enc_ber_integer v) ()"
  unfolding nonzero_def
  by (rule emits_ber_integer [where bs = "[]", simplified])
     (use assms ber_sizeof_integer_pos in \<open>auto intro: emits_ret simp: require_def\<close>)

lemma alloc_integer_bindp [alloc_intros]:
  "ber_integer_valid v \<Longrightarrow> emits_alloc (k ()) bs x \<Longrightarrow>
     emits_alloc (bindp (nonzero (ber_write_integer v)) k) (enc_ber_integer v @ bs) x"
  by (rule emits_alloc_bindp [where k = k, OF emits_alloc_emits [OF emits_nonzero_integer]])

lemma emits_domain_parameters [alloc_intros]:
  assumes "domain_parameters_valid p"
  shows "emits_alloc (mcs_write_domain_parameters p) (enc_domain_parameters p) ()"
proof -
  let ?n = "length (enc_domain_fields p)"
  have n: "ber_length_valid ?n" using length_enc_domain_fields [of p] by (intro ber_small_lengths) simp
  have v: "ber_integer_valid (maxChannelIds p)" "ber_integer_valid (maxUserIds p)"
    "ber_integer_valid (maxTokenIds p)" "ber_integer_valid (numPriorities p)"
    "ber_integer_valid (minThroughput p)" "ber_integer_valid (maxHeight p)"
    "ber_integer_valid (maxMCSPDUsize p)" "ber_integer_valid (protocolVersion p)"
    using assms by (simp_all add: domain_parameters_valid_def domain_parameter_list_def)
  have "emits (nonzero (ber_write_sequence_tag ?n)) (enc_ber_sequence ?n) ()"
    unfolding nonzero_def
    by (rule emits_ber_sequence [where bs = "[]", simplified]) (use n in \<open>auto intro: emits_ret simp: require_def\<close>)
  then have k: "emits_alloc (bindp (nonzero (ber_write_sequence_tag ?n)) (\<lambda>_. Stream_Write (enc_domain_fields p)))
      (enc_domain_parameters p) ()"
    unfolding enc_domain_parameters_def
    by (intro emits_alloc_emits emits_bindp [where k = "\<lambda>_. Stream_Write (enc_domain_fields p)"] emits_write)
  have last: "emits_alloc (nonzero (ber_write_integer (protocolVersion p))) (enc_ber_integer (protocolVersion p)) ()"
    by (intro emits_alloc_emits emits_nonzero_integer v)
  have b: "enc_domain_fields p = enc_ber_integer (maxChannelIds p) @ enc_ber_integer (maxUserIds p) @
     enc_ber_integer (maxTokenIds p) @ enc_ber_integer (numPriorities p) @ enc_ber_integer (minThroughput p) @
     enc_ber_integer (maxHeight p) @ enc_ber_integer (maxMCSPDUsize p) @ enc_ber_integer (protocolVersion p)"
    by (simp add: enc_domain_fields_def domain_parameter_list_def)
  show ?thesis unfolding mcs_write_domain_parameters_def
    by (rule emits_alloc_tmps [where bs = "enc_domain_fields p"])
      (unfold b, intro alloc_intros v last, use k b in \<open>auto simp: enc_domain_parameters_def enc_ber_sequence_def\<close>)
qed

section \<open>Connect Initial and Connect Response on the wire\<close>

definition enc_ber_octet_string :: "u8 list \<Rightarrow> u8 list" where
  "enc_ber_octet_string bs = enc_ber_octet_string_tag (length bs) @ bs"

lemma emits_octet_string:
  assumes "ber_length_valid (length bs)"
  shows "emits (nonzero (ber_write_octet_string bs)) (enc_ber_octet_string bs) ()"
  unfolding nonzero_def ber_write_octet_string_def enc_ber_octet_string_def enc_ber_octet_string_tag_def
    bindp_assoc append_assoc
  by (intro emits_ber_universal emits_ber_length assms emits_write_bindp [where bs = "[]", simplified])
     (auto intro: emits_ret simp: require_def)

definition enc_connect_response :: "DomainParameters \<Rightarrow> u8 list \<Rightarrow> u8 list" where
  "enc_connect_response p userData =
     (let body = enc_ber_enumerated 0 @ enc_ber_integer 0 @ enc_domain_parameters p @
                 enc_ber_octet_string userData
      in enc_ber_application MCS_TYPE_CONNECT_RESPONSE (length body) @ body)"

definition enc_connect_initial :: "rdpMcs \<Rightarrow> u8 list \<Rightarrow> u8 list" where
  "enc_connect_initial m userData =
     (let body = enc_ber_octet_string [0x01] @ enc_ber_octet_string [0x01] @ enc_ber_BOOL True @
                 enc_domain_parameters (targetParameters m) @ enc_domain_parameters (minimumParameters m) @
                 enc_domain_parameters (maximumParameters m) @ enc_ber_octet_string userData
      in enc_ber_application MCS_TYPE_CONNECT_INITIAL (length body) @ body)"

lemma emits_application_wrapped:
  assumes "ber_length_valid (length body)"
  shows "emits_alloc (bindp (ber_write_application_tag tag (length body)) (\<lambda>_. Stream_Write body))
     (enc_ber_application tag (length body) @ body) ()"
  by (intro emits_alloc_emits emits_ber_application assms emits_write)

lemma enc_ber_application_not_Nil [simp]: "enc_ber_application tag len \<noteq> []"
  by (simp add: enc_ber_application_def)

lemma wrapped_in_application:
  assumes body: "emits_alloc m bs ()" and "ber_length_valid (length bs)"
  shows "emits_alloc (with_tmps m (\<lambda>bs. bindp (ber_write_application_tag tag (length bs)) (\<lambda>_. Stream_Write bs)))
     (enc_ber_application tag (length bs) @ bs) ()"
  by (rule emits_alloc_tmps [where bs = bs, OF body emits_application_wrapped]) (use assms(2) in auto)

lemma emits_BOOL_last: "emits (ber_write_BOOL b) (enc_ber_BOOL b) ()"
  using emits_ber_BOOL [where k = ret and bs = "[]", OF emits_ret] by (simp add: bindp_ret)

lemma emits_enumerated_last: "emits (ber_write_enumerated e count) (enc_ber_enumerated e) ()"
  using emits_ber_enumerated [where k = ret and bs = "[]", OF emits_ret] by (simp add: bindp_ret)

lemma emits_connect_response:
  assumes "domain_parameters_valid (domainParameters m)" and "length userData \<le> 0xF000"
  shows "emits_alloc (mcs_write_connect_response m userData)
     (enc_connect_response (domainParameters m) userData) ()"
proof -
  let ?p = "domainParameters m"
  let ?body = "enc_ber_enumerated 0 @ enc_ber_integer 0 @ enc_domain_parameters ?p @ enc_ber_octet_string userData"
  have u: "ber_length_valid (length userData)" using assms(2) by (simp add: ber_length_valid_def bounds_defs)
  have z: "ber_integer_valid 0" by (simp add: ber_integer_valid_def)
  have "length (enc_domain_parameters ?p) \<le> 52"
    using length_enc_domain_fields [of ?p]
    by (simp add: enc_domain_parameters_def enc_ber_sequence_def ber_sizeof_length_def)
  then have n: "ber_length_valid (length ?body)"
    using assms(2) by (simp add: ber_length_valid_def bounds_defs enc_ber_enumerated_def
        enc_ber_octet_string_def enc_ber_octet_string_tag_def ber_sizeof_length_def ber_sizeof_integer_def)
  have b: "emits_alloc (bindp (ber_write_enumerated 0 MCS_Result_enum_length) (\<lambda>_.
        bindp (nonzero (ber_write_integer 0)) (\<lambda>_.
        bindp (mcs_write_domain_parameters ?p) (\<lambda>_. nonzero (ber_write_octet_string userData))))) ?body ()"
    by (rule emits_alloc_bindp [OF emits_alloc_emits [OF emits_enumerated_last]],
        rule alloc_integer_bindp [OF z], rule emits_alloc_bindp [OF emits_domain_parameters [OF assms(1)]],
        rule emits_alloc_emits [OF emits_octet_string [OF u]])
  from wrapped_in_application [OF b n, of MCS_TYPE_CONNECT_RESPONSE] show ?thesis
    by (simp add: mcs_write_connect_response_def enc_connect_response_def Let_def)
qed

text \<open>A parameter the BER writer cannot write aborts the whole response.\<close>

lemma aborts_nonzero: "aborts m \<Longrightarrow> aborts (bindp (nonzero m) k)"
  by (simp add: aborts_def nonzero_def bindp_def)

lemma with_tmps_aborts:
  assumes "grants s (Stream_Capacity s)" and "0 < Stream_Capacity s"
    and "\<And>t. Stream_Capacity t = Stream_Capacity s \<Longrightarrow> pointer t = 0 \<Longrightarrow> grants t = grants s \<Longrightarrow> body t = Abort"
  shows "with_tmps body k s = Abort"
  using assms by (simp add: with_tmps_def Stream_New_def Stream_Capacity_def)

lemma domain_parameters_abort:
  assumes "\<not> ber_integer_valid (maxChannelIds p)" and "grants s (Stream_Capacity s)" and "0 < Stream_Capacity s"
  shows "mcs_write_domain_parameters p s = Abort"
  unfolding mcs_write_domain_parameters_def using assms(2,3)
  by (rule with_tmps_aborts)
     (rule aborts_nonzero [OF ber_integer_aborts [OF assms(1)], unfolded aborts_def, rule_format])

lemma connect_response_aborts:
  assumes bad: "\<not> ber_integer_valid (maxChannelIds (domainParameters m))"
    and cap: "grants s (Stream_Capacity s)" "16 \<le> Stream_Capacity s" "Stream_Capacity s \<le> SIZE_MAX"
  shows "mcs_write_connect_response m userData s = Abort"
  unfolding mcs_write_connect_response_def
proof (rule with_tmps_aborts)
  fix t assume t: "Stream_Capacity t = Stream_Capacity s" "pointer t = 0" "grants t = grants s"
  let ?as = "enc_ber_enumerated 0 @ enc_ber_integer 0"
  have l: "length ?as = 6"
    by (simp add: enc_ber_enumerated_def ber_sizeof_integer_def ber_sizeof_length_def)
  have r: "room (length ?as) t" unfolding l using t cap by (simp add: room_def)
  have r1: "room (length (enc_ber_enumerated 0)) t" using r by (rule room_less) simp
  have r2: "room (length (enc_ber_integer 0)) (put (enc_ber_enumerated 0) t)"
    using r by (intro room_put) simp
  have 1: "ber_write_enumerated 0 MCS_Result_enum_length t = Ret () (put (enc_ber_enumerated 0) t)"
    by (rule emitsD [OF emits_enumerated_last r1])
  have 2: "nonzero (ber_write_integer 0) (put (enc_ber_enumerated 0) t)
      = Ret () (put (enc_ber_integer 0) (put (enc_ber_enumerated 0) t))"
    by (rule emitsD [OF emits_nonzero_integer r2]) (simp add: ber_integer_valid_def)
  have 3: "mcs_write_domain_parameters (domainParameters m) (put (enc_ber_integer 0) (put (enc_ber_enumerated 0) t))
      = Abort"
    by (rule domain_parameters_abort [OF bad]) (use t cap r1 r2 in simp_all)
  from 1 2 3 show "bindp (ber_write_enumerated 0 MCS_Result_enum_length) (\<lambda>_.
      bindp (nonzero (ber_write_integer 0)) (\<lambda>_.
      bindp (mcs_write_domain_parameters (domainParameters m)) (\<lambda>_.
      nonzero (ber_write_octet_string userData)))) t = Abort"
    by (simp add: bindp_def)
qed (use cap in auto)

section \<open>What the merge agrees on\<close>

text \<open>The parameters a merge can accept, and the ones it then agrees on.\<close>

definition mergeable :: "DomainParameters \<Rightarrow> DomainParameters \<Rightarrow> DomainParameters \<Rightarrow> bool" where
  "mergeable target mn mx \<longleftrightarrow>
     (4 \<le> maxChannelIds target \<or> 4 \<le> maxChannelIds mx) \<and>
     (3 \<le> maxUserIds target \<or> 3 \<le> maxUserIds mx) \<and>
     numPriorities mn \<le> 1 \<and> (maxHeight target = 1 \<or> maxHeight mn \<le> 1) \<and>
     (if 1024 \<le> maxMCSPDUsize target
      then maxMCSPDUsize target \<le> 65528 \<or> (124 \<le> maxMCSPDUsize mn \<and> maxMCSPDUsize mn \<le> 65528)
      else 124 \<le> maxMCSPDUsize mx) \<and>
     (protocolVersion target = 2 \<or> (protocolVersion mn \<le> 2 \<and> 2 \<le> protocolVersion mx))"

definition merged :: "DomainParameters \<Rightarrow> DomainParameters \<Rightarrow> DomainParameters" where
  "merged target mx =
     \<lparr>maxChannelIds = max 4 (maxChannelIds target), maxUserIds = max 3 (maxUserIds target),
      maxTokenIds = maxTokenIds target, numPriorities = 1, minThroughput = minThroughput target,
      maxHeight = 1,
      maxMCSPDUsize = (if 1024 \<le> maxMCSPDUsize target then min 65528 (maxMCSPDUsize target)
                       else maxMCSPDUsize mx),
      protocolVersion = 2\<rparr>"

lemma merge_succeeds:
  assumes "mergeable target mn mx"
  shows "mcs_merge_domain_parameters target mn mx out = Ret () (merged target mx)"
  using assms
  by (auto simp: mergeable_def merged_def mcs_merge_domain_parameters_def bindp_def set_out_def max_def min_def)

lemma merge_fails:
  assumes "\<not> mergeable target mn mx"
  shows "\<exists>p. mcs_merge_domain_parameters target mn mx out = Fail p"
  using assms
  by (auto simp: mergeable_def mcs_merge_domain_parameters_def bindp_def set_out_def
      split: outcome.splits if_splits)

end
