(* ===== verification/Utf16.thy ===== *)
theory Utf16
  imports Wire
begin

text \<open>
  The UTF-16 strings of a \<^verbatim>\<open>wStream\<close> (\<^verbatim>\<open>libwinpr/utils/stream.c\<close>), over the character conversions of the
  platform, which are parameters.
\<close>

section \<open>Strings in a stream\<close>

text \<open>The units of a buffer on a little-endian host, and back.\<close>

fun wchars :: "u8 list \<Rightarrow> u16 list" where
  "wchars (lo # hi # bs) = winpr_Data_Get_UINT16 [lo, hi] # wchars bs"
| "wchars _ = []"

definition wchar_bytes :: "u16 list \<Rightarrow> u8 list" where
  "wchar_bytes us = concat (map winpr_Data_Write_UINT16 us)"

text \<open>\<open>conv\<close> is \<^verbatim>\<open>WideCharToMultiByte\<close> resp. \<^verbatim>\<open>MultiByteToWideChar\<close> for \<^verbatim>\<open>CP_UTF8\<close> without the terminator,
  \<open>None\<close> where it fails (or the allocation of the result does).\<close>

definition Stream_Read_UTF16_String_As_UTF8_Buffer ::
  "(u16 list \<Rightarrow> u8 list option) \<Rightarrow> nat \<Rightarrow> u8 list parser" where
  "Stream_Read_UTF16_String_As_UTF8_Buffer conv wcharLength =
     bindp (Stream_CheckAndLogRequiredLength (wcharLength * 2)) (\<lambda>_.
     bindp (Stream_Read (wcharLength * 2)) (\<lambda>bs.
     case conv (takeWhile (\<lambda>w. w \<noteq> 0) (wchars bs)) of None \<Rightarrow> fail | Some str \<Rightarrow> ret str))"

definition Stream_Read_UTF16_String_As_UTF8 :: "(u16 list \<Rightarrow> u8 list option) \<Rightarrow> nat \<Rightarrow> u8 list parser" where
  "Stream_Read_UTF16_String_As_UTF8 conv wcharLength =
     bindp (require (\<not> wcharLength > SIZE_MAX div 2)) (\<lambda>_.
     bindp (Stream_CheckAndLogRequiredLength (wcharLength * 2)) (\<lambda>_.
     bindp (Stream_Read (wcharLength * 2)) (\<lambda>bs.
     case conv (takeWhile (\<lambda>w. w \<noteq> 0) (wchars bs)) of None \<Rightarrow> fail | Some str \<Rightarrow> ret str)))"

definition Stream_Write_UTF16_String_From_UTF8 ::
  "(u8 list \<Rightarrow> u16 list option) \<Rightarrow> nat \<Rightarrow> u8 list \<Rightarrow> bool \<Rightarrow> nat parser" where
  "Stream_Write_UTF16_String_From_UTF8 conv wcharLength src fillup =
     bindp (Stream_CheckAndLogRequiredCapacityOfSize wcharLength 2) (\<lambda>_.
     bindp (if src \<noteq> [] then
              (case conv src of
                 None \<Rightarrow> fail
               | Some str \<Rightarrow> bindp (Stream_Write (wchar_bytes (take wcharLength str))) (\<lambda>_.
                   ret (length (take wcharLength str))))
            else ret 0) (\<lambda>rc.
     bindp (if fillup then Stream_Zero ((wcharLength - rc) * 2) else ret ()) (\<lambda>_.
     ret rc)))"

end
