(* ===== verification/Settings.thy ===== *)
theory Settings
  imports Mcs Utf16
begin

text \<open>
  The part of \<^verbatim>\<open>rdpSettings\<close> that the exchange of the conference data (\<^verbatim>\<open>gcc.c\<close>) reads and changes,
  the setters of \<^verbatim>\<open>libfreerdp/common/settings.c\<close> and \<^verbatim>\<open>settings_getters.c\<close> it calls, and programs
  over the MCS state, the settings and the stream of a packet. A field whose name is taken by another
  component has the suffix \<open>_s\<close>.
\<close>

unbundle bit_operations_syntax

section \<open>The settings\<close>

record MONITOR_ATTRIBUTES =
  physicalWidth :: u32
  physicalHeight :: u32
  orientation :: u32
  desktopScaleFactor :: u32
  deviceScaleFactor :: u32

text \<open>The coordinates and extents are \<^verbatim>\<open>INT32\<close>, read with \<open>sint\<close>; \<^verbatim>\<open>is_primary\<close> is only tested.\<close>

record rdpMonitor =
  mon_x :: u32
  mon_y :: u32
  mon_width :: u32
  mon_height :: u32
  is_primary :: bool
  attributes :: MONITOR_ATTRIBUTES

text \<open>One record, built in four steps: the core data, the capabilities, security and cluster, and the
  monitors. A pointer is an \<open>option\<close>; a buffer with a length field beside it is a list of its bytes.\<close>

record settings_core =
  ServerMode_s :: bool
  TransportDumpReplay_s :: bool
  RdpVersion :: u32
  DesktopWidth :: u32
  DesktopHeight :: u32
  ColorDepth :: u32
  SupportedColorDepths :: u16
  EarlyCapabilityFlags :: u32
  KeyboardLayout :: u32
  KeyboardType :: u32
  KeyboardSubType :: u32
  KeyboardFunctionKey :: u32
  ClientBuild :: u32
  ClientHostname :: "u8 list option"
  ClientProductId :: "u8 list option"
  ConnectionType :: u32
  SelectedProtocol_s :: u32
  RequestedProtocols_s :: u32
  NegotiationFlags :: u32
  DesktopPhysicalWidth :: u32
  DesktopPhysicalHeight :: u32
  DesktopOrientation :: u16
  DesktopScaleFactor :: u32
  DeviceScaleFactor :: u32

record settings_caps = settings_core +
  SupportErrorInfoPdu :: bool
  SupportStatusInfoPdu :: bool
  SupportAsymetricKeys :: bool
  HasRelativeMouseEvent :: bool
  NetworkAutoDetect :: bool
  SupportSkipChannelJoin_s :: bool
  SupportMonitorLayoutPdu :: bool
  SupportHeartbeatPdu :: bool
  SupportGraphicsPipeline :: bool
  SupportDynamicTimeZone :: bool
  SupportEdgeActionV1 :: bool
  SupportEdgeActionV2 :: bool
  SupportMultitransport :: bool
  MultitransportFlags :: u32

record settings_security = settings_caps +
  UseRdpSecurityLayer_s :: bool
  EncryptionMethods :: u32
  EncryptionLevel :: u32
  ServerRandom :: "u8 list option"
  ServerRandomLength :: u32
  ServerCertificate :: "u8 list option"
  ServerCertificateLength :: u32
  ClusterInfoFlags :: u32
  RedirectedSessionId :: u32
  ConsoleSession :: bool
  RedirectSmartCards :: bool
  SmartcardLogon :: bool

record rdpSettings = settings_security +
  UseMultimon :: bool
  SpanMonitors :: bool
  ForceMultimon :: bool
  MonitorFlags :: u32
  MonitorCount :: u32
  MonitorDefArraySize :: u32
  MonitorDefArray :: "rdpMonitor list"
  HasMonitorAttributes :: bool
  MonitorAttributeFlags :: u32

section \<open>Setters that allocate\<close>

text \<open>\<open>mem\<close> is the allocator; the key of a setting is the update function of its field.\<close>

definition freerdp_settings_set_string ::
  "(nat \<Rightarrow> bool) \<Rightarrow> ((u8 list option \<Rightarrow> u8 list option) \<Rightarrow> 's \<Rightarrow> 's) \<Rightarrow> u8 list \<Rightarrow> (unit, 's) prog" where
  "freerdp_settings_set_string mem key val st =
     (if mem (length val + 1) then Ret () (key (\<lambda>_. Some val) st) else Fail (key (\<lambda>_. None) st))"

definition freerdp_settings_set_pointer_len ::
  "(nat \<Rightarrow> bool) \<Rightarrow> ((u8 list option \<Rightarrow> u8 list option) \<Rightarrow> 's \<Rightarrow> 's) \<Rightarrow> ((u32 \<Rightarrow> u32) \<Rightarrow> 's \<Rightarrow> 's) \<Rightarrow>
     nat \<Rightarrow> (unit, 's) prog" where
  "freerdp_settings_set_pointer_len mem key lenKey len st =
     (let st' = lenKey (\<lambda>_. 0) (key (\<lambda>_. None) st) in
      if len > 2 ^ 32 - 1 then Fail st'
      else if len = 0 then Ret () st'
      else if \<not> mem len then Fail st'
      else Ret () (lenKey (\<lambda>_. of_nat len) (key (\<lambda>_. Some (replicate len 0)) st')))"

text \<open>\<^verbatim>\<open>WINPR_KBD_TYPE_IBM_PC_XT\<close> to \<^verbatim>\<open>WINPR_KBD_TYPE_KOREAN\<close> are 1 to 8, \<^verbatim>\<open>WINPR_KBD_TYPE_IBM_ENHANCED\<close>
  is 4.\<close>

definition freerdp_settings_sanitize_keyboard_type :: "rdpSettings \<Rightarrow> rdpSettings" where
  "freerdp_settings_sanitize_keyboard_type st =
     (if KeyboardType st \<in> {1, 2, 3, 4, 5, 6, 7, 8} then st else st\<lparr>KeyboardType := 4\<rparr>)"

section \<open>Programs over the MCS state, the settings and a packet\<close>

type_synonym 'a gcc_handler = "('a, (rdpMcs \<times> rdpSettings) \<times> wStream) prog"

definition set_settings :: "(rdpSettings \<Rightarrow> rdpSettings) \<Rightarrow> unit gcc_handler" where
  "set_settings f = on_state (\<lambda>(m, st). (m, f st))"

definition set_rdpMcs :: "(rdpMcs \<Rightarrow> rdpMcs) \<Rightarrow> unit gcc_handler" where
  "set_rdpMcs f = on_state (\<lambda>(m, st). (f m, st))"

definition get_settings :: "(rdpSettings \<Rightarrow> 'a gcc_handler) \<Rightarrow> 'a gcc_handler" where
  "get_settings k = (\<lambda>((m, st), s). k st ((m, st), s))"

definition get_rdpMcs :: "(rdpMcs \<Rightarrow> 'a gcc_handler) \<Rightarrow> 'a gcc_handler" where
  "get_rdpMcs k = (\<lambda>((m, st), s). k m ((m, st), s))"

text \<open>A call that works on the settings alone.\<close>

definition on_settings :: "('a, rdpSettings) prog \<Rightarrow> 'a gcc_handler" where
  "on_settings p = (\<lambda>((m, st), s). case p st of
     Abort \<Rightarrow> Abort | Fail st' \<Rightarrow> Fail ((m, st'), s) | Ret x st' \<Rightarrow> Ret x ((m, st'), s))"

text \<open>\<^verbatim>\<open>Stream_Read_UINT32(s, settings->Field)\<close> and its like.\<close>

definition read_setting :: "'v parser \<Rightarrow> ('v \<Rightarrow> rdpSettings \<Rightarrow> rdpSettings) \<Rightarrow> unit gcc_handler" where
  "read_setting r upd = bindp (on_stream r) (\<lambda>v. set_settings (upd v))"

text \<open>\<^verbatim>\<open>if (!Stream_CheckAndLogRequiredLength(s, n)) break;\<close> in a \<^verbatim>\<open>do { ... } while (0)\<close>: \<open>d\<close> is what
  follows the loop.\<close>

definition if_left :: "nat \<Rightarrow> 'a gcc_handler \<Rightarrow> 'a gcc_handler \<Rightarrow> 'a gcc_handler" where
  "if_left n d k = (\<lambda>(c, s). case Stream_CheckAndLogRequiredLength n s of
     Abort \<Rightarrow> Abort | Fail t \<Rightarrow> d (c, t) | Ret _ t \<Rightarrow> k (c, t))"

text \<open>\<^verbatim>\<open>goto fail\<close>: where \<open>h\<close> fails, \<open>cleanup\<close> runs before the function returns \<^verbatim>\<open>FALSE\<close>.\<close>

definition or_fail :: "unit gcc_handler \<Rightarrow> 'a gcc_handler \<Rightarrow> 'a gcc_handler" where
  "or_fail cleanup h = (\<lambda>cs. case h cs of
     Abort \<Rightarrow> Abort | Fail cs' \<Rightarrow> bindp cleanup (\<lambda>_. fail) cs' | Ret x cs' \<Rightarrow> Ret x cs')"

text \<open>A handler run on a stream of its own over the next \<open>n\<close> bytes of the packet.\<close>

definition on_block :: "u8 list \<Rightarrow> 'a gcc_handler \<Rightarrow> 'a gcc_handler" where
  "on_block bytes h = (\<lambda>(c, s). case h (c, Stream_StaticInit (\<lambda>_. False) bytes) of
     Abort \<Rightarrow> Abort | Fail (c', _) \<Rightarrow> Fail (c', s) | Ret x (c', _) \<Rightarrow> Ret x (c', s))"

text \<open>\<^verbatim>\<open>&mcs->channels[i]\<close> and \<^verbatim>\<open>&settings->MonitorDefArray[i]\<close>: an index outside of the array is an
  abort.\<close>

definition with_channel :: "nat \<Rightarrow> (rdpMcsChannel \<Rightarrow> rdpMcsChannel) \<Rightarrow> unit gcc_handler" where
  "with_channel i f = get_rdpMcs (\<lambda>m.
     bindp (winpr_assert (i < length (channels m))) (\<lambda>_.
     set_rdpMcs (\<lambda>m. m\<lparr>channels := (channels m)[i := f (channels m ! i)]\<rparr>)))"

definition with_monitor :: "nat \<Rightarrow> (rdpMonitor \<Rightarrow> rdpMonitor) \<Rightarrow> unit gcc_handler" where
  "with_monitor i f = get_settings (\<lambda>st.
     bindp (winpr_assert (i < length (MonitorDefArray st))) (\<lambda>_.
     set_settings (\<lambda>st. st\<lparr>MonitorDefArray := (MonitorDefArray st)[i := f (MonitorDefArray st ! i)]\<rparr>)))"

text \<open>\<^verbatim>\<open>for (UINT32 i = 0; i < n; i++)\<close> with the body \<open>f i\<close>.\<close>

fun for_upto :: "nat \<Rightarrow> nat \<Rightarrow> (nat \<Rightarrow> (unit, 's) prog) \<Rightarrow> (unit, 's) prog" where
  "for_upto i 0 f = ret ()"
| "for_upto i (Suc n) f = bindp (f i) (\<lambda>_. for_upto (Suc i) n f)"

end
