(* ===== verification/GccCore.thy ===== *)
theory GccCore
  imports Settings
begin

text \<open>
  The data blocks of \<^verbatim>\<open>libfreerdp/core/gcc.c\<close>, first part: the constants of the blocks, their
  header, the early capability flags, and the core data of client and server.
\<close>

unbundle bit_operations_syntax

section \<open>Constants\<close>

definition CS_CORE :: u16 where "CS_CORE = 0xC001"
definition CS_SECURITY :: u16 where "CS_SECURITY = 0xC002"
definition CS_NET :: u16 where "CS_NET = 0xC003"
definition CS_CLUSTER :: u16 where "CS_CLUSTER = 0xC004"
definition CS_MONITOR :: u16 where "CS_MONITOR = 0xC005"
definition CS_MCS_MSGCHANNEL :: u16 where "CS_MCS_MSGCHANNEL = 0xC006"
definition CS_MONITOR_EX :: u16 where "CS_MONITOR_EX = 0xC008"
definition CS_UNUSED1 :: u16 where "CS_UNUSED1 = 0xC00C"
definition CS_MULTITRANSPORT :: u16 where "CS_MULTITRANSPORT = 0xC00A"
definition SC_CORE :: u16 where "SC_CORE = 0x0C01"
definition SC_SECURITY :: u16 where "SC_SECURITY = 0x0C02"
definition SC_NET :: u16 where "SC_NET = 0x0C03"
definition SC_MCS_MSGCHANNEL :: u16 where "SC_MCS_MSGCHANNEL = 0x0C04"
definition SC_MULTITRANSPORT :: u16 where "SC_MULTITRANSPORT = 0x0C08"

definition RNS_UD_COLOR_4BPP :: u16 where "RNS_UD_COLOR_4BPP = 0xCA00"
definition RNS_UD_COLOR_8BPP :: u16 where "RNS_UD_COLOR_8BPP = 0xCA01"
definition RNS_UD_COLOR_16BPP_555 :: u16 where "RNS_UD_COLOR_16BPP_555 = 0xCA02"
definition RNS_UD_COLOR_16BPP_565 :: u16 where "RNS_UD_COLOR_16BPP_565 = 0xCA03"
definition RNS_UD_COLOR_24BPP :: u16 where "RNS_UD_COLOR_24BPP = 0xCA04"
definition RNS_UD_SAS_DEL :: u16 where "RNS_UD_SAS_DEL = 0xAA03"

definition RDP_VERSION_10_12 :: u32 where "RDP_VERSION_10_12 = 0x00080011"

definition RNS_UD_CS_SUPPORT_ERRINFO_PDU :: u32 where "RNS_UD_CS_SUPPORT_ERRINFO_PDU = 0x0001"
definition RNS_UD_CS_WANT_32BPP_SESSION :: u32 where "RNS_UD_CS_WANT_32BPP_SESSION = 0x0002"
definition RNS_UD_CS_SUPPORT_STATUSINFO_PDU :: u32 where "RNS_UD_CS_SUPPORT_STATUSINFO_PDU = 0x0004"
definition RNS_UD_CS_STRONG_ASYMMETRIC_KEYS :: u32 where "RNS_UD_CS_STRONG_ASYMMETRIC_KEYS = 0x0008"
definition RNS_UD_CS_RELATIVE_MOUSE_INPUT :: u32 where "RNS_UD_CS_RELATIVE_MOUSE_INPUT = 0x0010"
definition RNS_UD_CS_VALID_CONNECTION_TYPE :: u32 where "RNS_UD_CS_VALID_CONNECTION_TYPE = 0x0020"
definition RNS_UD_CS_SUPPORT_MONITOR_LAYOUT_PDU :: u32 where "RNS_UD_CS_SUPPORT_MONITOR_LAYOUT_PDU = 0x0040"
definition RNS_UD_CS_SUPPORT_NETCHAR_AUTODETECT :: u32 where "RNS_UD_CS_SUPPORT_NETCHAR_AUTODETECT = 0x0080"
definition RNS_UD_CS_SUPPORT_DYNVC_GFX_PROTOCOL :: u32 where "RNS_UD_CS_SUPPORT_DYNVC_GFX_PROTOCOL = 0x0100"
definition RNS_UD_CS_SUPPORT_DYNAMIC_TIME_ZONE :: u32 where "RNS_UD_CS_SUPPORT_DYNAMIC_TIME_ZONE = 0x0200"
definition RNS_UD_CS_SUPPORT_HEARTBEAT_PDU :: u32 where "RNS_UD_CS_SUPPORT_HEARTBEAT_PDU = 0x0400"
definition RNS_UD_CS_SUPPORT_SKIP_CHANNELJOIN :: u32 where "RNS_UD_CS_SUPPORT_SKIP_CHANNELJOIN = 0x0800"

definition RNS_UD_SC_EDGE_ACTIONS_SUPPORTED_V1 :: u32 where "RNS_UD_SC_EDGE_ACTIONS_SUPPORTED_V1 = 0x1"
definition RNS_UD_SC_DYNAMIC_DST_SUPPORTED :: u32 where "RNS_UD_SC_DYNAMIC_DST_SUPPORTED = 0x2"
definition RNS_UD_SC_EDGE_ACTIONS_SUPPORTED_V2 :: u32 where "RNS_UD_SC_EDGE_ACTIONS_SUPPORTED_V2 = 0x4"
definition RNS_UD_SC_SKIP_CHANNELJOIN_SUPPORTED :: u32 where "RNS_UD_SC_SKIP_CHANNELJOIN_SUPPORTED = 0x8"

named_theorems gcc_types "types of the data blocks"
named_theorems cs_flags "early capability flags of the client"
named_theorems sc_flags "early capability flags of the server"

lemmas [gcc_types] = CS_CORE_def CS_SECURITY_def CS_NET_def CS_CLUSTER_def CS_MONITOR_def
  CS_MCS_MSGCHANNEL_def CS_MONITOR_EX_def CS_UNUSED1_def CS_MULTITRANSPORT_def SC_CORE_def
  SC_SECURITY_def SC_NET_def SC_MCS_MSGCHANNEL_def SC_MULTITRANSPORT_def

lemmas [cs_flags] = RNS_UD_CS_SUPPORT_ERRINFO_PDU_def RNS_UD_CS_WANT_32BPP_SESSION_def
  RNS_UD_CS_SUPPORT_STATUSINFO_PDU_def RNS_UD_CS_STRONG_ASYMMETRIC_KEYS_def
  RNS_UD_CS_RELATIVE_MOUSE_INPUT_def RNS_UD_CS_VALID_CONNECTION_TYPE_def
  RNS_UD_CS_SUPPORT_MONITOR_LAYOUT_PDU_def RNS_UD_CS_SUPPORT_NETCHAR_AUTODETECT_def
  RNS_UD_CS_SUPPORT_DYNVC_GFX_PROTOCOL_def RNS_UD_CS_SUPPORT_DYNAMIC_TIME_ZONE_def
  RNS_UD_CS_SUPPORT_HEARTBEAT_PDU_def RNS_UD_CS_SUPPORT_SKIP_CHANNELJOIN_def

lemmas [sc_flags] = RNS_UD_SC_EDGE_ACTIONS_SUPPORTED_V1_def RNS_UD_SC_DYNAMIC_DST_SUPPORTED_def
  RNS_UD_SC_EDGE_ACTIONS_SUPPORTED_V2_def RNS_UD_SC_SKIP_CHANNELJOIN_SUPPORTED_def

text \<open>
  What the blocks need from elsewhere: the allocator, the conversions between UTF-16 and UTF-8, the
  certificate the security data carry (read from bytes, and written with the number of its bytes,
  \<open>Fail\<close> for a negative result), and the random bytes of the server (\<open>None\<close> where \<^verbatim>\<open>winpr_RAND\<close> fails).
\<close>

record gcc_env =
  mem :: "nat \<Rightarrow> bool"
  utf16_to_utf8 :: "u16 list \<Rightarrow> u8 list option"
  utf8_to_utf16 :: "u8 list \<Rightarrow> u16 list option"
  freerdp_certificate_read_server_cert :: "u8 list \<Rightarrow> bool"
  freerdp_certificate_write_server_cert :: "nat parser"
  winpr_RAND :: "nat \<Rightarrow> u8 list option"

section \<open>Block header\<close>

definition gcc_read_user_data_header :: "(u16 \<times> u16) parser" where
  "gcc_read_user_data_header =
     bindp (Stream_CheckAndLogRequiredLength 4) (\<lambda>_.
     bindp Stream_Read_UINT16 (\<lambda>typ.
     bindp Stream_Read_UINT16 (\<lambda>len.
     bindp (require (\<not> unat len < 4)) (\<lambda>_.
     bindp (Stream_CheckAndLogRequiredLength (unat len - 4)) (\<lambda>_.
     ret (typ, len))))))"

definition gcc_write_user_data_header :: "u16 \<Rightarrow> u16 \<Rightarrow> unit parser" where
  "gcc_write_user_data_header typ len =
     bindp (Stream_EnsureRemainingCapacity (4 + unat len)) (\<lambda>_.
     bindp (Stream_Write_UINT16_unchecked typ) (\<lambda>_.
     Stream_Write_UINT16_unchecked len))"

section \<open>Early capability flags\<close>

definition server_caps_mask :: u32 where
  "server_caps_mask = RNS_UD_SC_EDGE_ACTIONS_SUPPORTED_V1 OR RNS_UD_SC_DYNAMIC_DST_SUPPORTED OR
     RNS_UD_SC_EDGE_ACTIONS_SUPPORTED_V2 OR RNS_UD_SC_SKIP_CHANNELJOIN_SUPPORTED"

definition filterAndLogEarlyServerCapabilityFlags :: "u32 \<Rightarrow> u32" where
  "filterAndLogEarlyServerCapabilityFlags flags = flags AND server_caps_mask"

text \<open>\<^verbatim>\<open>if (b) flags |= bit;\<close>\<close>

definition or_if :: "bool \<Rightarrow> 'a::len word \<Rightarrow> 'a word \<Rightarrow> 'a word" where
  "or_if b f flags = (if b then flags OR f else flags)"

definition earlyServerCapsFromSettings :: "rdpSettings \<Rightarrow> u32" where
  "earlyServerCapsFromSettings st = filterAndLogEarlyServerCapabilityFlags
     (or_if (SupportSkipChannelJoin_s st) RNS_UD_SC_SKIP_CHANNELJOIN_SUPPORTED
     (or_if (SupportEdgeActionV2 st) RNS_UD_SC_EDGE_ACTIONS_SUPPORTED_V2
     (or_if (SupportDynamicTimeZone st) RNS_UD_SC_DYNAMIC_DST_SUPPORTED
     (or_if (SupportEdgeActionV1 st) RNS_UD_SC_EDGE_ACTIONS_SUPPORTED_V1 0))))"

definition client_caps_mask :: u32 where
  "client_caps_mask = RNS_UD_CS_SUPPORT_ERRINFO_PDU OR RNS_UD_CS_WANT_32BPP_SESSION OR
     RNS_UD_CS_SUPPORT_STATUSINFO_PDU OR RNS_UD_CS_STRONG_ASYMMETRIC_KEYS OR
     RNS_UD_CS_RELATIVE_MOUSE_INPUT OR RNS_UD_CS_VALID_CONNECTION_TYPE OR
     RNS_UD_CS_SUPPORT_MONITOR_LAYOUT_PDU OR RNS_UD_CS_SUPPORT_NETCHAR_AUTODETECT OR
     RNS_UD_CS_SUPPORT_DYNVC_GFX_PROTOCOL OR RNS_UD_CS_SUPPORT_DYNAMIC_TIME_ZONE OR
     RNS_UD_CS_SUPPORT_HEARTBEAT_PDU OR RNS_UD_CS_SUPPORT_SKIP_CHANNELJOIN"

definition filterAndLogEarlyClientCapabilityFlags :: "u32 \<Rightarrow> (u16, 's) prog" where
  "filterAndLogEarlyClientCapabilityFlags flags =
     (let filtered = flags AND client_caps_mask in
      bindp (winpr_assert (unat filtered \<le> UINT16_MAX)) (\<lambda>_. ret (ucast filtered)))"

definition earlyClientCapsFromSettings :: "rdpSettings \<Rightarrow> (u16, 's) prog" where
  "earlyClientCapsFromSettings st = filterAndLogEarlyClientCapabilityFlags
     (or_if (SupportSkipChannelJoin_s st) RNS_UD_CS_SUPPORT_SKIP_CHANNELJOIN
     (or_if (HasRelativeMouseEvent st) RNS_UD_CS_RELATIVE_MOUSE_INPUT
     (or_if (SupportAsymetricKeys st) RNS_UD_CS_STRONG_ASYMMETRIC_KEYS
     (or_if (SupportHeartbeatPdu st) RNS_UD_CS_SUPPORT_HEARTBEAT_PDU
     (or_if (SupportDynamicTimeZone st) RNS_UD_CS_SUPPORT_DYNAMIC_TIME_ZONE
     (or_if (SupportGraphicsPipeline st) RNS_UD_CS_SUPPORT_DYNVC_GFX_PROTOCOL
     (or_if (NetworkAutoDetect st) RNS_UD_CS_SUPPORT_NETCHAR_AUTODETECT
     (or_if (SupportMonitorLayoutPdu st) RNS_UD_CS_SUPPORT_MONITOR_LAYOUT_PDU
     (or_if (ConnectionType st \<noteq> 0) RNS_UD_CS_VALID_CONNECTION_TYPE
     (or_if (SupportStatusInfoPdu st) RNS_UD_CS_SUPPORT_STATUSINFO_PDU
     (or_if (ColorDepth st = 32) RNS_UD_CS_WANT_32BPP_SESSION
     (or_if (SupportErrorInfoPdu st) RNS_UD_CS_SUPPORT_ERRINFO_PDU 0))))))))))))"

definition has_flag :: "'a::len word \<Rightarrow> 'a word \<Rightarrow> bool" where
  "has_flag flags f \<longleftrightarrow> flags AND f \<noteq> 0"

text \<open>The assignments of \<^verbatim>\<open>updateEarlyClientCaps\<close>, in its order.\<close>

definition client_caps_applied :: "u32 \<Rightarrow> u32 \<Rightarrow> rdpSettings \<Rightarrow> rdpSettings" where
  "client_caps_applied flags connType st =
     (let st = (if SupportErrorInfoPdu st
                then st\<lparr>SupportErrorInfoPdu := has_flag flags RNS_UD_CS_SUPPORT_ERRINFO_PDU\<rparr> else st);
          st = (if SupportStatusInfoPdu st
                then st\<lparr>SupportStatusInfoPdu := has_flag flags RNS_UD_CS_SUPPORT_STATUSINFO_PDU\<rparr> else st);
          st = (if SupportAsymetricKeys st
                then st\<lparr>SupportAsymetricKeys := has_flag flags RNS_UD_CS_STRONG_ASYMMETRIC_KEYS\<rparr> else st);
          st = (if HasRelativeMouseEvent st
                then (if RdpVersion st \<ge> RDP_VERSION_10_12
                      then st\<lparr>HasRelativeMouseEvent := has_flag flags RNS_UD_CS_RELATIVE_MOUSE_INPUT\<rparr>
                      else st\<lparr>HasRelativeMouseEvent := False\<rparr>) else st);
          st = (if NetworkAutoDetect st
                then st\<lparr>NetworkAutoDetect := has_flag flags RNS_UD_CS_SUPPORT_NETCHAR_AUTODETECT\<rparr> else st);
          st = (if SupportSkipChannelJoin_s st
                then st\<lparr>SupportSkipChannelJoin_s := has_flag flags RNS_UD_CS_SUPPORT_SKIP_CHANNELJOIN\<rparr> else st);
          st = (if SupportMonitorLayoutPdu st
                then st\<lparr>SupportMonitorLayoutPdu := has_flag flags RNS_UD_CS_SUPPORT_MONITOR_LAYOUT_PDU\<rparr> else st);
          st = (if SupportHeartbeatPdu st
                then st\<lparr>SupportHeartbeatPdu := has_flag flags RNS_UD_CS_SUPPORT_HEARTBEAT_PDU\<rparr> else st);
          st = (if SupportGraphicsPipeline st
                then st\<lparr>SupportGraphicsPipeline := has_flag flags RNS_UD_CS_SUPPORT_DYNVC_GFX_PROTOCOL\<rparr> else st);
          st = (if SupportDynamicTimeZone st
                then st\<lparr>SupportDynamicTimeZone := has_flag flags RNS_UD_CS_SUPPORT_DYNAMIC_TIME_ZONE\<rparr> else st)
      in st\<lparr>ConnectionType := if has_flag flags RNS_UD_CS_VALID_CONNECTION_TYPE then connType else 0\<rparr>)"

definition updateEarlyClientCaps :: "u32 \<Rightarrow> u32 \<Rightarrow> unit gcc_handler" where
  "updateEarlyClientCaps flags connType =
     bindp (set_settings (client_caps_applied flags connType)) (\<lambda>_.
     bindp (filterAndLogEarlyClientCapabilityFlags flags) (\<lambda>_. ret ()))"

definition updateEarlyServerCaps :: "u32 \<Rightarrow> rdpSettings \<Rightarrow> rdpSettings" where
  "updateEarlyServerCaps flags st =
     st\<lparr>SupportEdgeActionV1 := SupportEdgeActionV1 st \<and> has_flag flags RNS_UD_SC_EDGE_ACTIONS_SUPPORTED_V1,
        SupportDynamicTimeZone := SupportDynamicTimeZone st \<and> has_flag flags RNS_UD_SC_DYNAMIC_DST_SUPPORTED,
        SupportEdgeActionV2 := SupportEdgeActionV2 st \<and> has_flag flags RNS_UD_SC_EDGE_ACTIONS_SUPPORTED_V2,
        SupportSkipChannelJoin_s :=
          SupportSkipChannelJoin_s st \<and> has_flag flags RNS_UD_SC_SKIP_CHANNELJOIN_SUPPORTED\<rparr>"

section \<open>Core data of the client\<close>

definition rdp_version_common :: "u32 \<Rightarrow> u32 \<Rightarrow> u32" where
  "rdp_version_common serverVersion clientVersion =
     (if serverVersion < clientVersion then serverVersion else clientVersion)"

definition ColorDepthToHighColor :: "u32 \<Rightarrow> u32" where
  "ColorDepthToHighColor bpp =
     (if bpp = 4 then 0x04 else if bpp = 8 then 0x08 else if bpp = 15 then 0x0F
      else if bpp = 16 then 0x10 else 0x18)"

text \<open>The optional fields. The result is what the three local variables hold after the \<^verbatim>\<open>do\<close> block:
  \<^verbatim>\<open>postBeta2ColorDepth\<close>, \<^verbatim>\<open>highColorDepth\<close> and \<^verbatim>\<open>connectionType\<close>.\<close>

definition client_core_optional :: "gcc_env \<Rightarrow> (u16 \<times> u16 \<times> u8) gcc_handler" where
  "client_core_optional env =
     if_left 2 (ret (0, 0, 0)) (bindp (on_stream Stream_Read_UINT16) (\<lambda>postBeta2ColorDepth.
     if_left 2 (ret (postBeta2ColorDepth, 0, 0)) (bindp (on_stream Stream_Read_UINT16) (\<lambda>clientProductId.
     if_left 4 (ret (postBeta2ColorDepth, 0, 0)) (bindp (on_stream Stream_Read_UINT32) (\<lambda>serialNumber.
     if_left 2 (ret (postBeta2ColorDepth, 0, 0)) (bindp (on_stream Stream_Read_UINT16) (\<lambda>highColorDepth.
     let d = ret (postBeta2ColorDepth, highColorDepth, 0) in
     if_left 2 d (bindp (read_setting Stream_Read_UINT16 (\<lambda>v st. st\<lparr>SupportedColorDepths := v\<rparr>)) (\<lambda>_.
     if_left 2 d (bindp (read_setting Stream_Read_UINT16 (\<lambda>v st. st\<lparr>EarlyCapabilityFlags := ucast v\<rparr>)) (\<lambda>_.
     if_left 64 d (bindp (on_stream (Stream_Read_UTF16_String_As_UTF8_Buffer (utf16_to_utf8 env) 32)) (\<lambda>str.
     bindp (on_settings (freerdp_settings_set_string (mem env) ClientProductId_update str)) (\<lambda>_.
     if_left 1 d (bindp (on_stream Stream_Read_UINT8) (\<lambda>connectionType.
     let d = ret (postBeta2ColorDepth, highColorDepth, connectionType) in
     if_left 1 d (bindp (on_stream (Stream_Seek 1)) (\<lambda>_.
     if_left 4 d (bindp (on_stream Stream_Read_UINT32) (\<lambda>serverSelectedProtocol.
     if_left 4 d (bindp (read_setting Stream_Read_UINT32 (\<lambda>v st. st\<lparr>DesktopPhysicalWidth := v\<rparr>)) (\<lambda>_.
     if_left 4 d (bindp (read_setting Stream_Read_UINT32 (\<lambda>v st. st\<lparr>DesktopPhysicalHeight := v\<rparr>)) (\<lambda>_.
     if_left 2 d (bindp (read_setting Stream_Read_UINT16 (\<lambda>v st. st\<lparr>DesktopOrientation := v\<rparr>)) (\<lambda>_.
     if_left 4 d (bindp (read_setting Stream_Read_UINT32 (\<lambda>v st. st\<lparr>DesktopScaleFactor := v\<rparr>)) (\<lambda>_.
     if_left 4 d (bindp (read_setting Stream_Read_UINT32 (\<lambda>v st. st\<lparr>DeviceScaleFactor := v\<rparr>)) (\<lambda>_.
     bindp (get_settings (\<lambda>st.
       if TransportDumpReplay_s st
       then set_settings (\<lambda>st. st\<lparr>SelectedProtocol_s := serverSelectedProtocol\<rparr>)
       else require (\<not> SelectedProtocol_s st \<noteq> serverSelectedProtocol))) (\<lambda>_.
     d))))))))))))))))))))))))))))))))"

text \<open>The color depth the client asks for, \<open>None\<close> where the reader refuses the block.\<close>

definition client_color_depth :: "u16 \<Rightarrow> u16 \<Rightarrow> u16 \<Rightarrow> u32 \<Rightarrow> u32 option" where
  "client_color_depth colorDepth postBeta2ColorDepth highColorDepth earlyFlags =
     (if highColorDepth > 0 then
        Some (if has_flag earlyFlags RNS_UD_CS_WANT_32BPP_SESSION then 32 else ucast highColorDepth)
      else if postBeta2ColorDepth > 0 then
        (if postBeta2ColorDepth = RNS_UD_COLOR_4BPP then Some 4
         else if postBeta2ColorDepth = RNS_UD_COLOR_8BPP then Some 8
         else if postBeta2ColorDepth = RNS_UD_COLOR_16BPP_555 then Some 15
         else if postBeta2ColorDepth = RNS_UD_COLOR_16BPP_565 then Some 16
         else if postBeta2ColorDepth = RNS_UD_COLOR_24BPP then Some 24
         else None)
      else
        (if colorDepth = RNS_UD_COLOR_4BPP then Some 4
         else if colorDepth = RNS_UD_COLOR_8BPP then Some 8
         else None))"

definition gcc_read_client_core_data :: "gcc_env \<Rightarrow> unit gcc_handler" where
  "gcc_read_client_core_data env =
     bindp (on_stream (Stream_CheckAndLogRequiredLength 128)) (\<lambda>_.
     bindp (read_setting Stream_Read_UINT32 (\<lambda>v st. st\<lparr>RdpVersion := rdp_version_common v (RdpVersion st)\<rparr>)) (\<lambda>_.
     bindp (read_setting Stream_Read_UINT16 (\<lambda>v st. st\<lparr>DesktopWidth := ucast v\<rparr>)) (\<lambda>_.
     bindp (get_settings (\<lambda>st. require (\<not> DesktopWidth st = 0))) (\<lambda>_.
     bindp (read_setting Stream_Read_UINT16 (\<lambda>v st. st\<lparr>DesktopHeight := ucast v\<rparr>)) (\<lambda>_.
     bindp (get_settings (\<lambda>st. require (\<not> DesktopHeight st = 0))) (\<lambda>_.
     bindp (on_stream Stream_Read_UINT16) (\<lambda>colorDepth.
     bindp (on_stream (Stream_Seek 2)) (\<lambda>_.
     bindp (read_setting Stream_Read_UINT32 (\<lambda>v st. st\<lparr>KeyboardLayout := v\<rparr>)) (\<lambda>_.
     bindp (read_setting Stream_Read_UINT32 (\<lambda>v st. st\<lparr>ClientBuild := v\<rparr>)) (\<lambda>_.
     bindp (on_stream (Stream_Read_UTF16_String_As_UTF8_Buffer (utf16_to_utf8 env) 16)) (\<lambda>str.
     bindp (on_settings (freerdp_settings_set_string (mem env) ClientHostname_update str)) (\<lambda>_.
     bindp (read_setting Stream_Read_UINT32 (\<lambda>v st. st\<lparr>KeyboardType := v\<rparr>)) (\<lambda>_.
     bindp (read_setting Stream_Read_UINT32 (\<lambda>v st. st\<lparr>KeyboardSubType := v\<rparr>)) (\<lambda>_.
     bindp (read_setting Stream_Read_UINT32 (\<lambda>v st. st\<lparr>KeyboardFunctionKey := v\<rparr>)) (\<lambda>_.
     bindp (set_settings freerdp_settings_sanitize_keyboard_type) (\<lambda>_.
     bindp (on_stream (Stream_Seek 64)) (\<lambda>_.
     bindp (client_core_optional env) (\<lambda>(postBeta2ColorDepth, highColorDepth, connectionType).
     get_settings (\<lambda>st.
     case client_color_depth colorDepth postBeta2ColorDepth highColorDepth (EarlyCapabilityFlags st) of
       None \<Rightarrow> fail
     | Some clientColorDepth \<Rightarrow>
         bindp (if clientColorDepth < ColorDepth st \<or> \<not> ServerMode_s st
                then set_settings (\<lambda>st. st\<lparr>ColorDepth := clientColorDepth\<rparr>) else ret ()) (\<lambda>_.
         updateEarlyClientCaps (EarlyCapabilityFlags st) (ucast connectionType)))))))))))))))))))))"

text \<open>The host name as it goes on the wire: at most 15 units and a terminator.\<close>

definition client_name_units :: "gcc_env \<Rightarrow> rdpSettings \<Rightarrow> u16 list" where
  "client_name_units env st =
     (let us = (case ClientHostname st of
                  None \<Rightarrow> []
                | Some h \<Rightarrow> (case utf8_to_utf16 env h of None \<Rightarrow> [] | Some us \<Rightarrow> us))
      in if length us \<ge> 16 then take 15 us @ [0] else us)"

definition gcc_write_client_core_data :: "gcc_env \<Rightarrow> rdpSettings \<Rightarrow> unit parser" where
  "gcc_write_client_core_data env st =
     bindp (gcc_write_user_data_header CS_CORE 234) (\<lambda>_.
     bindp (Stream_Write_UINT32_unchecked (RdpVersion st)) (\<lambda>_.
     bindp (asserting_cast_u16 (DesktopWidth st)) (\<lambda>w.
     bindp (Stream_Write_UINT16_unchecked w) (\<lambda>_.
     bindp (asserting_cast_u16 (DesktopHeight st)) (\<lambda>h.
     bindp (Stream_Write_UINT16_unchecked h) (\<lambda>_.
     bindp (Stream_Write_UINT16_unchecked RNS_UD_COLOR_8BPP) (\<lambda>_.
     bindp (Stream_Write_UINT16_unchecked RNS_UD_SAS_DEL) (\<lambda>_.
     bindp (Stream_Write_UINT32_unchecked (KeyboardLayout st)) (\<lambda>_.
     bindp (Stream_Write_UINT32_unchecked (ClientBuild st)) (\<lambda>_.
     bindp (Stream_EnsureRemainingCapacity (32 + 12 + 64 + 8)) (\<lambda>_.
     bindp (Stream_Write (wchar_bytes (client_name_units env st))) (\<lambda>_.
     bindp (Stream_Zero (32 - length (client_name_units env st) * 2)) (\<lambda>_.
     bindp (Stream_Write_UINT32_unchecked (KeyboardType st)) (\<lambda>_.
     bindp (Stream_Write_UINT32_unchecked (KeyboardSubType st)) (\<lambda>_.
     bindp (Stream_Write_UINT32_unchecked (KeyboardFunctionKey st)) (\<lambda>_.
     bindp (Stream_Zero 64) (\<lambda>_.
     bindp (Stream_Write_UINT16_unchecked RNS_UD_COLOR_8BPP) (\<lambda>_.
     bindp (Stream_Write_UINT16_unchecked 1) (\<lambda>_.
     bindp (Stream_Write_UINT32_unchecked 0) (\<lambda>_.
     bindp (earlyClientCapsFromSettings st) (\<lambda>earlyCapabilityFlags.
     bindp (winpr_assert (unat (ConnectionType st) \<le> 255)) (\<lambda>_.
     bindp (Stream_EnsureRemainingCapacity 6) (\<lambda>_.
     bindp (asserting_cast_u16 (ColorDepthToHighColor (ColorDepth st))) (\<lambda>highColorDepth.
     bindp (Stream_Write_UINT16_unchecked highColorDepth) (\<lambda>_.
     bindp (Stream_Write_UINT16_unchecked (SupportedColorDepths st)) (\<lambda>_.
     bindp (Stream_Write_UINT16_unchecked earlyCapabilityFlags) (\<lambda>_.
     bindp (Stream_EnsureRemainingCapacity (64 + 24)) (\<lambda>_.
     bindp (case ClientProductId st of
              Some str \<Rightarrow> bindp (Stream_Write_UTF16_String_From_UTF8 (utf8_to_utf16 env) 32 (take 32 str) True) (\<lambda>_. ret ())
            | None \<Rightarrow> Stream_Zero 64) (\<lambda>_.
     bindp (Stream_Write_UINT8_unchecked (ucast (ConnectionType st))) (\<lambda>_.
     bindp (Stream_Write_UINT8_unchecked 0) (\<lambda>_.
     bindp (Stream_Write_UINT32_unchecked (SelectedProtocol_s st)) (\<lambda>_.
     bindp (Stream_Write_UINT32_unchecked (DesktopPhysicalWidth st)) (\<lambda>_.
     bindp (Stream_Write_UINT32_unchecked (DesktopPhysicalHeight st)) (\<lambda>_.
     bindp (Stream_Write_UINT16_unchecked (DesktopOrientation st)) (\<lambda>_.
     bindp (Stream_Write_UINT32_unchecked (DesktopScaleFactor st)) (\<lambda>_.
     Stream_Write_UINT32_unchecked (DeviceScaleFactor st)))))))))))))))))))))))))))))))))))))"

section \<open>Core data of the server\<close>

definition gcc_read_server_core_data :: "unit gcc_handler" where
  "gcc_read_server_core_data =
     bindp (on_stream (Stream_CheckAndLogRequiredLength 4)) (\<lambda>_.
     bindp (read_setting Stream_Read_UINT32 (\<lambda>v st. st\<lparr>RdpVersion := rdp_version_common v (RdpVersion st)\<rparr>)) (\<lambda>_.
     bindp (on_stream Stream_GetRemainingLength) (\<lambda>rem.
     bindp (if rem \<ge> 4 then read_setting Stream_Read_UINT32 (\<lambda>v st. st\<lparr>RequestedProtocols_s := v\<rparr>)
            else ret ()) (\<lambda>_.
     bindp (on_stream Stream_GetRemainingLength) (\<lambda>rem.
     bindp (if rem \<ge> 4 then read_setting Stream_Read_UINT32 (\<lambda>v st. st\<lparr>EarlyCapabilityFlags := v\<rparr>)
            else ret ()) (\<lambda>_.
     set_settings (\<lambda>st. updateEarlyServerCaps (EarlyCapabilityFlags st) st)))))))"

definition gcc_write_server_core_data :: "rdpSettings \<Rightarrow> unit parser" where
  "gcc_write_server_core_data st =
     bindp (gcc_write_user_data_header SC_CORE 16) (\<lambda>_.
     bindp (Stream_Write_UINT32_unchecked (RdpVersion st)) (\<lambda>_.
     bindp (Stream_Write_UINT32_unchecked (RequestedProtocols_s st)) (\<lambda>_.
     Stream_Write_UINT32_unchecked (earlyServerCapsFromSettings st))))"

end
