(* ===== verification/Encryption.thy ===== *)
theory Encryption
  imports Prelude
begin

text \<open>
  The encryption methods and levels of RDP standard security, \<^verbatim>\<open>freerdp/settings_types.h\<close>.
\<close>

definition ENCRYPTION_METHOD_NONE :: u32 where "ENCRYPTION_METHOD_NONE = 0x00"
definition ENCRYPTION_METHOD_40BIT :: u32 where "ENCRYPTION_METHOD_40BIT = 0x01"
definition ENCRYPTION_METHOD_128BIT :: u32 where "ENCRYPTION_METHOD_128BIT = 0x02"
definition ENCRYPTION_METHOD_56BIT :: u32 where "ENCRYPTION_METHOD_56BIT = 0x08"
definition ENCRYPTION_METHOD_FIPS :: u32 where "ENCRYPTION_METHOD_FIPS = 0x10"
definition ENCRYPTION_LEVEL_NONE :: u32 where "ENCRYPTION_LEVEL_NONE = 0"
definition ENCRYPTION_LEVEL_LOW :: u32 where "ENCRYPTION_LEVEL_LOW = 1"
definition ENCRYPTION_LEVEL_CLIENT_COMPATIBLE :: u32 where "ENCRYPTION_LEVEL_CLIENT_COMPATIBLE = 2"
definition ENCRYPTION_LEVEL_HIGH :: u32 where "ENCRYPTION_LEVEL_HIGH = 3"
definition ENCRYPTION_LEVEL_FIPS :: u32 where "ENCRYPTION_LEVEL_FIPS = 4"

named_theorems encryption_consts "encryption methods and levels"

lemmas [encryption_consts] = ENCRYPTION_METHOD_NONE_def ENCRYPTION_METHOD_40BIT_def
  ENCRYPTION_METHOD_128BIT_def ENCRYPTION_METHOD_56BIT_def ENCRYPTION_METHOD_FIPS_def
  ENCRYPTION_LEVEL_NONE_def ENCRYPTION_LEVEL_LOW_def ENCRYPTION_LEVEL_CLIENT_COMPATIBLE_def
  ENCRYPTION_LEVEL_HIGH_def ENCRYPTION_LEVEL_FIPS_def

end
