(* ===== verification/Gcc.thy ===== *)
theory Gcc
  imports GccCore Encryption
begin

text \<open>
  The generic conference control of \<^verbatim>\<open>libfreerdp/core/gcc.c\<close>: the security, network, cluster, monitor,
  message channel and multitransport blocks, the loops over the blocks of a peer, and the conference
  create request and response that carry them. The core data are in \<open>GccCore\<close>.
\<close>

unbundle bit_operations_syntax

section \<open>Security data\<close>

definition gcc_read_client_security_data :: "unit gcc_handler" where
  "gcc_read_client_security_data =
     bindp (on_stream (Stream_CheckAndLogRequiredLength 8)) (\<lambda>_.
     get_settings (\<lambda>st.
     if UseRdpSecurityLayer_s st then
       bindp (read_setting Stream_Read_UINT32 (\<lambda>v st. st\<lparr>EncryptionMethods := v\<rparr>)) (\<lambda>_.
       get_settings (\<lambda>st.
       if EncryptionMethods st = ENCRYPTION_METHOD_NONE
       then read_setting Stream_Read_UINT32 (\<lambda>v st. st\<lparr>EncryptionMethods := v\<rparr>)
       else on_stream (Stream_Seek 4)))
     else on_stream (Stream_Seek 8)))"

definition gcc_write_client_security_data :: "rdpSettings \<Rightarrow> unit parser" where
  "gcc_write_client_security_data st =
     bindp (gcc_write_user_data_header CS_SECURITY 12) (\<lambda>_.
     if UseRdpSecurityLayer_s st then
       bindp (Stream_Write_UINT32_unchecked (EncryptionMethods st)) (\<lambda>_.
       Stream_Write_UINT32_unchecked 0)
     else
       bindp (Stream_Write_UINT32_unchecked 0) (\<lambda>_.
       Stream_Write_UINT32_unchecked (EncryptionMethods st)))"

definition known_encryption_method :: "u32 \<Rightarrow> bool" where
  "known_encryption_method method \<longleftrightarrow> method \<in> {ENCRYPTION_METHOD_NONE, ENCRYPTION_METHOD_40BIT,
     ENCRYPTION_METHOD_56BIT, ENCRYPTION_METHOD_128BIT, ENCRYPTION_METHOD_FIPS}"

definition valid_crypto_config :: "u32 \<Rightarrow> u32 \<Rightarrow> bool" where
  "valid_crypto_config level method =
     (if level = ENCRYPTION_LEVEL_NONE then method = ENCRYPTION_METHOD_NONE
      else if level = ENCRYPTION_LEVEL_FIPS then method = ENCRYPTION_METHOD_FIPS
      else if level = ENCRYPTION_LEVEL_LOW \<or> level = ENCRYPTION_LEVEL_HIGH \<or>
              level = ENCRYPTION_LEVEL_CLIENT_COMPATIBLE
      then method = ENCRYPTION_METHOD_40BIT \<or> method = ENCRYPTION_METHOD_56BIT \<or>
           method = ENCRYPTION_METHOD_128BIT \<or> method = ENCRYPTION_METHOD_FIPS
      else False)"

text \<open>The label \<^verbatim>\<open>fail\<close>; a failing setter is only logged there.\<close>

definition drop_server_secrets :: "gcc_env \<Rightarrow> unit gcc_handler" where
  "drop_server_secrets env =
     bindp (on_settings (freerdp_settings_set_pointer_len (mem env) ServerRandom_update ServerRandomLength_update 0)) (\<lambda>_.
     on_settings (freerdp_settings_set_pointer_len (mem env) ServerCertificate_update ServerCertificateLength_update 0))"

definition gcc_read_server_security_data :: "gcc_env \<Rightarrow> unit gcc_handler" where
  "gcc_read_server_security_data env =
     bindp (on_stream (Stream_CheckAndLogRequiredLength 8)) (\<lambda>_.
     bindp (on_stream Stream_Read_UINT32) (\<lambda>method.
     bindp (on_stream Stream_Read_UINT32) (\<lambda>level.
     bindp (require (known_encryption_method method)) (\<lambda>_.
     bindp (set_settings (\<lambda>st. st\<lparr>EncryptionMethods := method, EncryptionLevel := level\<rparr>)) (\<lambda>_.
     bindp (require (valid_crypto_config level method)) (\<lambda>_.
     if level = ENCRYPTION_LEVEL_NONE
     then set_settings (\<lambda>st. st\<lparr>UseRdpSecurityLayer_s := False\<rparr>)
     else
       bindp (on_stream (Stream_CheckAndLogRequiredLength 8)) (\<lambda>_.
       bindp (read_setting Stream_Read_UINT32 (\<lambda>v st. st\<lparr>ServerRandomLength := v\<rparr>)) (\<lambda>_.
       bindp (read_setting Stream_Read_UINT32 (\<lambda>v st. st\<lparr>ServerCertificateLength := v\<rparr>)) (\<lambda>_.
       get_settings (\<lambda>st.
       let rlen = unat (ServerRandomLength st); clen = unat (ServerCertificateLength st) in
       bindp (require (\<not> (ServerRandomLength st = 0 \<or> ServerCertificateLength st = 0))) (\<lambda>_.
       bindp (on_stream (Stream_CheckAndLogRequiredLength rlen)) (\<lambda>_.
       or_fail (drop_server_secrets env) (
         bindp (on_settings (freerdp_settings_set_pointer_len (mem env) ServerRandom_update ServerRandomLength_update rlen)) (\<lambda>_.
         bindp (read_setting (Stream_Read rlen) (\<lambda>v st. st\<lparr>ServerRandom := Some v\<rparr>)) (\<lambda>_.
         bindp (on_stream (Stream_CheckAndLogRequiredLength clen)) (\<lambda>_.
         bindp (on_settings (freerdp_settings_set_pointer_len (mem env) ServerCertificate_update ServerCertificateLength_update clen)) (\<lambda>_.
         bindp (on_stream (Stream_Read clen)) (\<lambda>data.
         bindp (set_settings (\<lambda>st. st\<lparr>ServerCertificate := Some data\<rparr>)) (\<lambda>_.
         require (freerdp_certificate_read_server_cert env data))))))))))))))))))))"

definition gcc_update_server_random :: "gcc_env \<Rightarrow> (unit, rdpSettings) prog" where
  "gcc_update_server_random env =
     bindp (freerdp_settings_set_pointer_len (mem env) ServerRandom_update ServerRandomLength_update 32) (\<lambda>_ st.
     case winpr_RAND env 32 of
       None \<Rightarrow> Fail st
     | Some bytes \<Rightarrow> Ret () (st\<lparr>ServerRandom := Some bytes\<rparr>))"

definition get_position :: "nat parser" where
  "get_position s = Ret (Stream_GetPosition s) s"

text \<open>What follows \<^verbatim>\<open>gcc_update_server_random\<close>; \<open>ServerRandom\<close> is then not null.\<close>

definition server_security_block :: "gcc_env \<Rightarrow> rdpSettings \<Rightarrow> unit parser" where
  "server_security_block env st =
     bindp get_position (\<lambda>posHeader.
     bindp (gcc_write_user_data_header SC_SECURITY 12) (\<lambda>_.
     bindp (Stream_Write_UINT32_unchecked (EncryptionMethods st)) (\<lambda>_.
     bindp (Stream_Write_UINT32_unchecked (EncryptionLevel st)) (\<lambda>_.
     if EncryptionMethods st = ENCRYPTION_METHOD_NONE then ret ()
     else
       bindp (Stream_EnsureRemainingCapacity (4 + unat (ServerRandomLength st))) (\<lambda>_.
       bindp (Stream_Write_UINT32_unchecked (ServerRandomLength st)) (\<lambda>_.
       bindp get_position (\<lambda>posCertLen.
       bindp (Stream_Seek 4) (\<lambda>_.
       bindp (Stream_Write (case ServerRandom st of None \<Rightarrow> [] | Some bytes \<Rightarrow> bytes)) (\<lambda>_.
       bindp (freerdp_certificate_write_server_cert env) (\<lambda>len.
       bindp get_position (\<lambda>endPos.
       bindp (winpr_assert (endPos \<ge> posHeader)) (\<lambda>_.
       bindp (winpr_assert (endPos - posHeader \<le> UINT16_MAX)) (\<lambda>_.
       bindp (Stream_SetPosition posHeader) (\<lambda>_.
       bindp (gcc_write_user_data_header SC_SECURITY (of_nat (endPos - posHeader))) (\<lambda>_.
       bindp (Stream_SetPosition posCertLen) (\<lambda>_.
       bindp (winpr_assert (len \<le> 2 ^ 32 - 1)) (\<lambda>_.
       bindp (Stream_Write_UINT32_unchecked (of_nat len)) (\<lambda>_.
       Stream_SetPosition endPos))))))))))))))))))"

definition gcc_write_server_security_data :: "gcc_env \<Rightarrow> unit gcc_handler" where
  "gcc_write_server_security_data env =
     bindp (on_settings (gcc_update_server_random env)) (\<lambda>_.
     get_settings (\<lambda>st. on_stream (server_security_block env st)))"

section \<open>Network data\<close>

definition read_channel_def :: "nat \<Rightarrow> unit gcc_handler" where
  "read_channel_def i =
     bindp (on_stream (Stream_Read (CHANNEL_NAME_LEN + 1))) (\<lambda>name.
     bindp (with_channel i (\<lambda>ch. ch\<lparr>Name := name\<rparr>)) (\<lambda>_.
     bindp (require (0 \<in> set name)) (\<lambda>_.
     bindp (on_stream Stream_Read_UINT32) (\<lambda>opts.
     get_rdpMcs (\<lambda>m.
     bindp (with_channel i (\<lambda>ch. ch\<lparr>options := opts, ChannelId := baseChannelId m\<rparr>)) (\<lambda>_.
     set_rdpMcs (\<lambda>m. m\<lparr>baseChannelId := baseChannelId m + 1\<rparr>)))))))"

definition gcc_read_client_network_data :: "unit gcc_handler" where
  "gcc_read_client_network_data =
     bindp (on_stream (Stream_CheckAndLogRequiredLength 4)) (\<lambda>_.
     bindp (on_stream Stream_Read_UINT32) (\<lambda>count.
     bindp (set_rdpMcs (\<lambda>m. m\<lparr>channelCount := count\<rparr>)) (\<lambda>_.
     bindp (on_stream (Stream_CheckAndLogRequiredLengthOfSize (unat count) 12)) (\<lambda>_.
     bindp (require (\<not> count > CHANNEL_MAX_COUNT)) (\<lambda>_.
     for_upto 0 (unat count) read_channel_def)))))"

text \<open>\<^verbatim>\<open>mcs->channelCount * 12 + 8\<close> is a \<^verbatim>\<open>UINT32\<close> product.\<close>

definition write_channel_def :: "rdpMcs \<Rightarrow> nat \<Rightarrow> unit parser" where
  "write_channel_def m i =
     bindp (winpr_assert (i < length (channels m))) (\<lambda>_.
     bindp (Stream_Write (take (CHANNEL_NAME_LEN + 1) (Name (channels m ! i)))) (\<lambda>_.
     Stream_Write_UINT32_unchecked (options (channels m ! i))))"

definition gcc_write_client_network_data :: "rdpMcs \<Rightarrow> unit parser" where
  "gcc_write_client_network_data m =
     (if channelCount m > 0 then
        let len = unat (channelCount m * 12 + 8) in
        bindp (winpr_assert (len \<le> UINT16_MAX)) (\<lambda>_.
        bindp (gcc_write_user_data_header CS_NET (of_nat len)) (\<lambda>_.
        bindp (Stream_Write_UINT32_unchecked (channelCount m)) (\<lambda>_.
        for_upto 0 (unat (channelCount m)) (write_channel_def m))))
      else ret ())"

definition read_channel_id :: "nat \<Rightarrow> unit gcc_handler" where
  "read_channel_id i =
     bindp (on_stream Stream_Read_UINT16) (\<lambda>channelId.
     with_channel i (\<lambda>ch. ch\<lparr>ChannelId := channelId\<rparr>))"

definition gcc_read_server_network_data :: "unit gcc_handler" where
  "gcc_read_server_network_data =
     bindp (on_stream (Stream_CheckAndLogRequiredLength 4)) (\<lambda>_.
     bindp (on_stream Stream_Read_UINT16) (\<lambda>io.
     bindp (set_rdpMcs (\<lambda>m. m\<lparr>IOChannelId := io\<rparr>)) (\<lambda>_.
     bindp (on_stream Stream_Read_UINT16) (\<lambda>count.
     bindp (set_rdpMcs (\<lambda>m. if ucast count \<noteq> channelCount m then m\<lparr>channelCount := ucast count\<rparr> else m)) (\<lambda>_.
     bindp (on_stream (Stream_CheckAndLogRequiredLengthOfSize (unat count) 2)) (\<lambda>_.
     bindp (get_rdpMcs (\<lambda>m. require (\<not> channelMaxCount m < ucast count))) (\<lambda>_.
     bindp (for_upto 0 (unat count) read_channel_id) (\<lambda>_.
     if count mod 2 = 1 then on_stream (Stream_SafeSeek 2) else ret ()))))))))"

definition write_channel_id :: "rdpMcs \<Rightarrow> nat \<Rightarrow> unit parser" where
  "write_channel_id m i =
     bindp (winpr_assert (i < length (channels m))) (\<lambda>_.
     Stream_Write_UINT16_unchecked (ChannelId (channels m ! i)))"

definition gcc_write_server_network_data :: "rdpMcs \<Rightarrow> unit parser" where
  "gcc_write_server_network_data m =
     (let n = unat (channelCount m); payloadLen = 8 + n * 2 + (if n mod 2 = 1 then 2 else 0) in
     bindp (winpr_assert (payloadLen \<le> UINT16_MAX)) (\<lambda>_.
     bindp (gcc_write_user_data_header SC_NET (of_nat payloadLen)) (\<lambda>_.
     bindp (Stream_Write_UINT16_unchecked MCS_GLOBAL_CHANNEL_ID) (\<lambda>_.
     bindp (asserting_cast_u16 (channelCount m)) (\<lambda>count.
     bindp (Stream_Write_UINT16_unchecked count) (\<lambda>_.
     bindp (for_upto 0 n (write_channel_id m)) (\<lambda>_.
     if n mod 2 = 1 then Stream_Write_UINT16_unchecked 0 else ret ())))))))"

section \<open>Cluster data\<close>

definition REDIRECTION_SUPPORTED :: u32 where "REDIRECTION_SUPPORTED = 0x01"
definition REDIRECTED_SESSIONID_FIELD_VALID :: u32 where "REDIRECTED_SESSIONID_FIELD_VALID = 0x02"
definition REDIRECTED_SMARTCARD :: u32 where "REDIRECTED_SMARTCARD = 0x40"
definition REDIRECTION_VERSION5 :: u32 where "REDIRECTION_VERSION5 = 0x04"
definition REDIRECTION_VERSION6 :: u32 where "REDIRECTION_VERSION6 = 0x05"

named_theorems cluster_flags "flags of the cluster data"

lemmas [cluster_flags] = REDIRECTION_SUPPORTED_def REDIRECTED_SESSIONID_FIELD_VALID_def
  REDIRECTED_SMARTCARD_def REDIRECTION_VERSION5_def REDIRECTION_VERSION6_def

definition gcc_read_client_cluster_data :: "unit gcc_handler" where
  "gcc_read_client_cluster_data =
     bindp (on_stream (Stream_CheckAndLogRequiredLength 8)) (\<lambda>_.
     bindp (read_setting Stream_Read_UINT32 (\<lambda>v st. st\<lparr>ClusterInfoFlags := v\<rparr>)) (\<lambda>_.
     bindp (on_stream Stream_Read_UINT32) (\<lambda>redirectedSessionId.
     bindp (set_settings (\<lambda>st.
       let flags = ClusterInfoFlags st;
           st = (if has_flag flags REDIRECTED_SESSIONID_FIELD_VALID
                 then st\<lparr>RedirectedSessionId := redirectedSessionId\<rparr> else st)
       in st\<lparr>ConsoleSession := has_flag flags REDIRECTED_SESSIONID_FIELD_VALID,
             RedirectSmartCards := has_flag flags REDIRECTED_SMARTCARD\<rparr>)) (\<lambda>_.
     on_stream (bindp Stream_GetRemainingLength (\<lambda>rem.
       if rem > 0 then Stream_Seek rem else ret ()))))))"

definition client_cluster_flags :: "rdpSettings \<Rightarrow> u32" where
  "client_cluster_flags st =
     (let flags = ClusterInfoFlags st;
          flags = or_if (ConsoleSession st \<or> RedirectedSessionId st \<noteq> 0) REDIRECTED_SESSIONID_FIELD_VALID flags;
          flags = or_if (RedirectSmartCards st \<and> SmartcardLogon st) REDIRECTED_SMARTCARD flags
      in if has_flag flags REDIRECTION_SUPPORTED
         then flags OR push_bit 2 (if SupportMultitransport st then REDIRECTION_VERSION6 else REDIRECTION_VERSION5)
         else flags)"

definition gcc_write_client_cluster_data :: "rdpSettings \<Rightarrow> unit parser" where
  "gcc_write_client_cluster_data st =
     bindp (gcc_write_user_data_header CS_CLUSTER 12) (\<lambda>_.
     bindp (Stream_Write_UINT32_unchecked (client_cluster_flags st)) (\<lambda>_.
     Stream_Write_UINT32_unchecked (RedirectedSessionId st)))"

section \<open>Monitor data\<close>

definition MONITOR_PRIMARY :: u32 where "MONITOR_PRIMARY = 1"

text \<open>\<^verbatim>\<open>1ll * right - left\<close> is computed in 64 bits.\<close>

definition read_monitor :: "nat \<Rightarrow> unit gcc_handler" where
  "read_monitor i =
     bindp (on_stream Stream_Read_UINT32) (\<lambda>leftX.
     bindp (on_stream Stream_Read_UINT32) (\<lambda>topY.
     bindp (on_stream Stream_Read_UINT32) (\<lambda>rightX.
     bindp (on_stream Stream_Read_UINT32) (\<lambda>bottomY.
     bindp (on_stream Stream_Read_UINT32) (\<lambda>flags.
     bindp (require (\<not> (sint leftX > sint rightX \<or> sint topY > sint bottomY))) (\<lambda>_.
     let w = sint rightX - sint leftX; h = sint bottomY - sint topY in
     bindp (require (\<not> (w \<ge> int INT32_MAX \<or> h \<ge> int INT32_MAX \<or> w < 0 \<or> h < 0))) (\<lambda>_.
     bindp (winpr_assert (w + 1 \<le> int INT32_MAX \<and> h + 1 \<le> int INT32_MAX)) (\<lambda>_.
     with_monitor i (\<lambda>cur. cur\<lparr>mon_x := leftX, mon_y := topY, mon_width := word_of_int (w + 1),
       mon_height := word_of_int (h + 1), is_primary := has_flag flags MONITOR_PRIMARY\<rparr>)))))))))"

definition gcc_read_client_monitor_data :: "unit gcc_handler" where
  "gcc_read_client_monitor_data =
     bindp (on_stream (Stream_CheckAndLogRequiredLength 8)) (\<lambda>_.
     bindp (read_setting Stream_Read_UINT32 (\<lambda>v st. st\<lparr>MonitorFlags := v\<rparr>)) (\<lambda>_.
     bindp (on_stream Stream_Read_UINT32) (\<lambda>announced.
     bindp (require (\<not> announced > 16)) (\<lambda>_.
     get_settings (\<lambda>st.
     let monitorCount = (if announced > MonitorDefArraySize st then MonitorDefArraySize st else announced) in
     bindp (on_stream (Stream_CheckAndLogRequiredLengthOfSize (unat monitorCount) 20)) (\<lambda>_.
     bindp (set_settings (\<lambda>st. st\<lparr>MonitorCount := monitorCount\<rparr>)) (\<lambda>_.
     for_upto 0 (unat monitorCount) read_monitor)))))))"

text \<open>The position of the first primary monitor; the array is indexed up to \<^verbatim>\<open>MonitorCount\<close>. The
  differences are \<^verbatim>\<open>INT32\<close> values, whose overflow C leaves undefined; here they wrap.\<close>

definition monitor_base :: "rdpSettings \<Rightarrow> u32 \<times> u32" where
  "monitor_base st =
     (case find is_primary (take (unat (MonitorCount st)) (MonitorDefArray st)) of
        None \<Rightarrow> (0, 0) | Some cur \<Rightarrow> (mon_x cur, mon_y cur))"

definition write_monitor :: "u32 \<times> u32 \<Rightarrow> rdpSettings \<Rightarrow> nat \<Rightarrow> unit parser" where
  "write_monitor base st i =
     bindp (winpr_assert (i < length (MonitorDefArray st))) (\<lambda>_.
     let cur = MonitorDefArray st ! i; leftX = mon_x cur - fst base; topY = mon_y cur - snd base;
         rightX = leftX + mon_width cur - 1; bottomY = topY + mon_height cur - 1 in
     bindp (Stream_Write_UINT32_unchecked leftX) (\<lambda>_.
     bindp (Stream_Write_UINT32_unchecked topY) (\<lambda>_.
     bindp (Stream_Write_UINT32_unchecked rightX) (\<lambda>_.
     bindp (Stream_Write_UINT32_unchecked bottomY) (\<lambda>_.
     Stream_Write_UINT32_unchecked (if is_primary cur then MONITOR_PRIMARY else 0))))))"

definition gcc_write_client_monitor_data :: "rdpSettings \<Rightarrow> unit parser" where
  "gcc_write_client_monitor_data st =
     (if MonitorCount st > 1 then
        let len = unat (20 * MonitorCount st + 12) in
        bindp (winpr_assert (len \<le> UINT16_MAX)) (\<lambda>_.
        bindp (gcc_write_user_data_header CS_MONITOR (of_nat len)) (\<lambda>_.
        bindp (Stream_Write_UINT32_unchecked (MonitorFlags st)) (\<lambda>_.
        bindp (Stream_Write_UINT32_unchecked (MonitorCount st)) (\<lambda>_.
        for_upto 0 (unat (MonitorCount st)) (write_monitor (monitor_base st) st)))))
      else ret ())"

definition read_monitor_attributes :: "nat \<Rightarrow> unit gcc_handler" where
  "read_monitor_attributes i =
     bindp (on_stream Stream_Read_UINT32) (\<lambda>pw.
     bindp (on_stream Stream_Read_UINT32) (\<lambda>ph.
     bindp (on_stream Stream_Read_UINT32) (\<lambda>ori.
     bindp (on_stream Stream_Read_UINT32) (\<lambda>desk.
     bindp (on_stream Stream_Read_UINT32) (\<lambda>dev.
     with_monitor i (\<lambda>cur. cur\<lparr>attributes := \<lparr>physicalWidth = pw, physicalHeight = ph, orientation = ori,
       desktopScaleFactor = desk, deviceScaleFactor = dev\<rparr>\<rparr>))))))"

definition gcc_read_client_monitor_extended_data :: "unit gcc_handler" where
  "gcc_read_client_monitor_extended_data =
     bindp (on_stream (Stream_CheckAndLogRequiredLength 12)) (\<lambda>_.
     bindp (read_setting Stream_Read_UINT32 (\<lambda>v st. st\<lparr>MonitorAttributeFlags := v\<rparr>)) (\<lambda>_.
     bindp (on_stream Stream_Read_UINT32) (\<lambda>monitorAttributeSize.
     bindp (on_stream Stream_Read_UINT32) (\<lambda>monitorCount.
     bindp (require (\<not> monitorAttributeSize \<noteq> 20)) (\<lambda>_.
     bindp (on_stream (Stream_CheckAndLogRequiredLengthOfSize (unat monitorCount) (unat monitorAttributeSize))) (\<lambda>_.
     bindp (get_settings (\<lambda>st. require (\<not> MonitorCount st \<noteq> monitorCount))) (\<lambda>_.
     bindp (set_settings (\<lambda>st. st\<lparr>HasMonitorAttributes := True\<rparr>)) (\<lambda>_.
     for_upto 0 (unat monitorCount) read_monitor_attributes))))))))"

definition write_monitor_attributes :: "rdpSettings \<Rightarrow> nat \<Rightarrow> unit parser" where
  "write_monitor_attributes st i =
     bindp (winpr_assert (i < length (MonitorDefArray st))) (\<lambda>_.
     let a = attributes (MonitorDefArray st ! i) in
     bindp (Stream_Write_UINT32_unchecked (physicalWidth a)) (\<lambda>_.
     bindp (Stream_Write_UINT32_unchecked (physicalHeight a)) (\<lambda>_.
     bindp (Stream_Write_UINT32_unchecked (orientation a)) (\<lambda>_.
     bindp (Stream_Write_UINT32_unchecked (desktopScaleFactor a)) (\<lambda>_.
     Stream_Write_UINT32_unchecked (deviceScaleFactor a))))))"

definition gcc_write_client_monitor_extended_data :: "rdpSettings \<Rightarrow> unit parser" where
  "gcc_write_client_monitor_extended_data st =
     (if HasMonitorAttributes st then
        let len = unat (20 * MonitorCount st + 16) in
        bindp (winpr_assert (len \<le> UINT16_MAX)) (\<lambda>_.
        bindp (gcc_write_user_data_header CS_MONITOR_EX (of_nat len)) (\<lambda>_.
        bindp (Stream_Write_UINT32_unchecked (MonitorAttributeFlags st)) (\<lambda>_.
        bindp (Stream_Write_UINT32_unchecked 20) (\<lambda>_.
        bindp (Stream_Write_UINT32_unchecked (MonitorCount st)) (\<lambda>_.
        for_upto 0 (unat (MonitorCount st)) (write_monitor_attributes st))))))
      else ret ())"

section \<open>Message channel and multitransport\<close>

definition gcc_read_client_message_channel_data :: "unit gcc_handler" where
  "gcc_read_client_message_channel_data =
     bindp (on_stream (Stream_CheckAndLogRequiredLength 4)) (\<lambda>_.
     bindp (on_stream Stream_Read_UINT32) (\<lambda>flags.
     set_rdpMcs (\<lambda>m. m\<lparr>mcs_flags := flags, messageChannelId := baseChannelId m,
                      baseChannelId := baseChannelId m + 1\<rparr>)))"

definition gcc_write_client_message_channel_data :: "rdpMcs \<Rightarrow> rdpSettings \<Rightarrow> unit parser" where
  "gcc_write_client_message_channel_data m st =
     (if NetworkAutoDetect st \<or> SupportHeartbeatPdu st \<or> SupportMultitransport st then
        bindp (gcc_write_user_data_header CS_MCS_MSGCHANNEL 8) (\<lambda>_.
        Stream_Write_UINT32_unchecked (mcs_flags m))
      else ret ())"

definition gcc_read_server_message_channel_data :: "unit gcc_handler" where
  "gcc_read_server_message_channel_data =
     bindp (on_stream (Stream_CheckAndLogRequiredLength 2)) (\<lambda>_.
     bindp (on_stream Stream_Read_UINT16) (\<lambda>channelId.
     set_rdpMcs (\<lambda>m. m\<lparr>messageChannelId := channelId\<rparr>)))"

definition gcc_write_server_message_channel_data :: "rdpMcs \<Rightarrow> unit parser" where
  "gcc_write_server_message_channel_data m =
     (if messageChannelId m = 0 then ret ()
      else bindp (gcc_write_user_data_header SC_MCS_MSGCHANNEL 6) (\<lambda>_.
           Stream_Write_UINT16_unchecked (messageChannelId m)))"

definition read_multitransport :: "unit gcc_handler" where
  "read_multitransport =
     bindp (on_stream (Stream_CheckAndLogRequiredLength 4)) (\<lambda>_.
     bindp (on_stream Stream_Read_UINT32) (\<lambda>remoteFlags.
     set_settings (\<lambda>st. st\<lparr>MultitransportFlags := MultitransportFlags st AND remoteFlags\<rparr>)))"

definition gcc_read_client_multitransport_channel_data :: "unit gcc_handler" where
  "gcc_read_client_multitransport_channel_data = read_multitransport"

definition gcc_read_server_multitransport_channel_data :: "unit gcc_handler" where
  "gcc_read_server_multitransport_channel_data = read_multitransport"

definition gcc_write_client_multitransport_channel_data :: "rdpSettings \<Rightarrow> unit parser" where
  "gcc_write_client_multitransport_channel_data st =
     bindp (gcc_write_user_data_header CS_MULTITRANSPORT 8) (\<lambda>_.
     Stream_Write_UINT32_unchecked (MultitransportFlags st))"

definition gcc_write_server_multitransport_channel_data :: "rdpSettings \<Rightarrow> unit parser" where
  "gcc_write_server_multitransport_channel_data st =
     bindp (gcc_write_user_data_header SC_MULTITRANSPORT 8) (\<lambda>_.
     Stream_Write_UINT32_unchecked (MultitransportFlags st))"

definition gcc_read_client_unused1_data :: "unit gcc_handler" where
  "gcc_read_client_unused1_data = on_stream (Stream_SafeSeek 2)"

section \<open>All blocks of a peer\<close>

text \<open>The \<^verbatim>\<open>switch\<close> over the type of a block, and the remaining length the code then logs.\<close>

definition client_block :: "gcc_env \<Rightarrow> u16 \<Rightarrow> unit gcc_handler" where
  "client_block env typ =
     bindp (if typ = CS_CORE then gcc_read_client_core_data env
            else if typ = CS_SECURITY then gcc_read_client_security_data
            else if typ = CS_NET then gcc_read_client_network_data
            else if typ = CS_CLUSTER then gcc_read_client_cluster_data
            else if typ = CS_MONITOR then gcc_read_client_monitor_data
            else if typ = CS_MCS_MSGCHANNEL then gcc_read_client_message_channel_data
            else if typ = CS_MONITOR_EX then gcc_read_client_monitor_extended_data
            else if typ = CS_UNUSED1 then gcc_read_client_unused1_data
            else if typ = 0xC009 \<or> typ = CS_MULTITRANSPORT then gcc_read_client_multitransport_channel_data
            else ret ()) (\<lambda>_.
     bindp (on_stream Stream_GetRemainingLength) (\<lambda>rem. ret ()))"

definition server_block :: "gcc_env \<Rightarrow> u16 \<Rightarrow> unit gcc_handler" where
  "server_block env typ =
     bindp (if typ = SC_CORE then gcc_read_server_core_data
            else if typ = SC_SECURITY then gcc_read_server_security_data env
            else if typ = SC_NET then gcc_read_server_network_data
            else if typ = SC_MCS_MSGCHANNEL then gcc_read_server_message_channel_data
            else if typ = SC_MULTITRANSPORT then gcc_read_server_multitransport_channel_data
            else ret ()) (\<lambda>_.
     bindp (on_stream Stream_GetRemainingLength) (\<lambda>rem. ret ()))"

text \<open>The bytes of a block, taken at the pointer before the stream moves on.\<close>

definition block_bytes :: "nat \<Rightarrow> u8 list parser" where
  "block_bytes n s = Ret (take n (drop (pointer s) (buffer s))) s"

text \<open>The loops. A block has at least the four bytes of its header, so \<^verbatim>\<open>length\<close> blocks are enough fuel
  for the first, and the bytes of the packet for the second, whose \<^verbatim>\<open>offset\<close> is a \<^verbatim>\<open>UINT16\<close> that can
  wrap; running out of fuel is an abort. The result of the first is \<^verbatim>\<open>gotMultitransport\<close>.\<close>

fun client_blocks :: "nat \<Rightarrow> gcc_env \<Rightarrow> bool \<Rightarrow> u16 \<Rightarrow> bool gcc_handler" where
  "client_blocks 0 env got len = (if len > 0 then abort else ret got)"
| "client_blocks (Suc fuel) env got len =
     (if len > 0 then
        bindp (on_stream gcc_read_user_data_header) (\<lambda>(typ, blockLength).
        let n = unat blockLength - 4 in
        bindp (on_stream (Stream_CheckAndLogRequiredLength n)) (\<lambda>_.
        bindp (on_stream (block_bytes n)) (\<lambda>bytes.
        bindp (on_stream (Stream_Seek n)) (\<lambda>_.
        bindp (on_block bytes (client_block env typ)) (\<lambda>_.
        client_blocks fuel env (got \<or> typ = 0xC009 \<or> typ = CS_MULTITRANSPORT)
          (if blockLength > len then 0 else len - blockLength))))))
      else ret got)"

definition gcc_read_client_data_blocks :: "gcc_env \<Rightarrow> u16 \<Rightarrow> unit gcc_handler" where
  "gcc_read_client_data_blocks env len =
     bindp (client_blocks (unat len) env False len) (\<lambda>gotMultitransport.
     if \<not> gotMultitransport
     then set_settings (\<lambda>st. st\<lparr>SupportMultitransport := False, MultitransportFlags := 0\<rparr>)
     else ret ())"

fun server_blocks :: "nat \<Rightarrow> gcc_env \<Rightarrow> u16 \<Rightarrow> u16 \<Rightarrow> unit gcc_handler" where
  "server_blocks 0 env offset len = (if offset < len then abort else ret ())"
| "server_blocks (Suc fuel) env offset len =
     (if offset < len then
        bindp (on_stream gcc_read_user_data_header) (\<lambda>(typ, blockLength).
        let n = unat blockLength - 4 in
        bindp (on_stream (block_bytes n)) (\<lambda>bytes.
        bindp (on_stream (Stream_SafeSeek n)) (\<lambda>_.
        bindp (on_block bytes (server_block env typ)) (\<lambda>_.
        server_blocks fuel env (offset + blockLength) len))))
      else ret ())"

definition gcc_read_server_data_blocks :: "gcc_env \<Rightarrow> u16 \<Rightarrow> unit gcc_handler" where
  "gcc_read_server_data_blocks env len = (\<lambda>(c, s). server_blocks (slength s + 1) env 0 len (c, s))"

definition gcc_write_client_data_blocks :: "gcc_env \<Rightarrow> rdpMcs \<Rightarrow> rdpSettings \<Rightarrow> unit parser" where
  "gcc_write_client_data_blocks env m st =
     bindp (gcc_write_client_core_data env st) (\<lambda>_.
     bindp (gcc_write_client_cluster_data st) (\<lambda>_.
     bindp (gcc_write_client_security_data st) (\<lambda>_.
     bindp (gcc_write_client_network_data m) (\<lambda>_.
     if has_flag (NegotiationFlags st) 1 then
       bindp (if UseMultimon st \<and> \<not> SpanMonitors st then
                bindp (gcc_write_client_monitor_data st) (\<lambda>_. gcc_write_client_monitor_extended_data st)
              else ret ()) (\<lambda>_.
       bindp (gcc_write_client_message_channel_data m st) (\<lambda>_.
       gcc_write_client_multitransport_channel_data st))
     else if UseMultimon st \<and> \<not> SpanMonitors st \<and> ForceMultimon st then
       bindp (gcc_write_client_monitor_data st) (\<lambda>_. gcc_write_client_monitor_extended_data st)
     else ret ()))))"

definition gcc_write_server_data_blocks :: "gcc_env \<Rightarrow> unit gcc_handler" where
  "gcc_write_server_data_blocks env =
     bindp (get_settings (\<lambda>st. on_stream (gcc_write_server_core_data st))) (\<lambda>_.
     bindp (get_rdpMcs (\<lambda>m. on_stream (gcc_write_server_network_data m))) (\<lambda>_.
     bindp (gcc_write_server_security_data env) (\<lambda>_.
     bindp (get_rdpMcs (\<lambda>m. on_stream (gcc_write_server_message_channel_data m))) (\<lambda>_.
     get_settings (\<lambda>st.
     if SupportMultitransport st \<and> MultitransportFlags st \<noteq> 0
     then on_stream (gcc_write_server_multitransport_channel_data st)
     else ret ())))))"

section \<open>Conference create request and response\<close>

definition t124_02_98_oid :: "u8 list" where "t124_02_98_oid = [0, 0, 20, 124, 0, 1]"
definition h221_cs_key :: "u8 list" where "h221_cs_key = [0x44, 0x75, 0x63, 0x61]"
definition h221_sc_key :: "u8 list" where "h221_sc_key = [0x4D, 0x63, 0x44, 0x6E]"

text \<open>Everything up to the length of the user data.\<close>

definition create_request_header :: "u16 parser" where
  "create_request_header =
     bindp per_read_choice (\<lambda>choice.
     bindp (per_read_object_identifier t124_02_98_oid) (\<lambda>_.
     bindp per_read_length (\<lambda>len.
     bindp per_read_choice (\<lambda>choice.
     bindp per_read_selection (\<lambda>selection.
     bindp (per_read_numeric_string 1) (\<lambda>_.
     bindp (per_read_padding 1) (\<lambda>_.
     bindp per_read_number_of_sets (\<lambda>number.
     bindp (require (\<not> number \<noteq> 1)) (\<lambda>_.
     bindp per_read_choice (\<lambda>choice.
     bindp (require (\<not> choice \<noteq> 0xC0)) (\<lambda>_.
     bindp (per_read_octet_string h221_cs_key 4) (\<lambda>_.
     per_read_length))))))))))))"

definition gcc_read_conference_create_request :: "gcc_env \<Rightarrow> unit gcc_handler" where
  "gcc_read_conference_create_request env =
     bindp (on_stream create_request_header) (\<lambda>len.
     bindp (on_stream (Stream_CheckAndLogRequiredLength (unat len))) (\<lambda>_.
     gcc_read_client_data_blocks env len))"

text \<open>\<open>userData\<close> is the content of the stream of that name up to its position.\<close>

definition gcc_write_conference_create_request :: "u8 list \<Rightarrow> unit parser" where
  "gcc_write_conference_create_request userData =
     bindp (per_write_choice 0) (\<lambda>_.
     bindp (per_write_object_identifier t124_02_98_oid) (\<lambda>_.
     bindp (winpr_assert (length userData \<le> UINT16_MAX - 14)) (\<lambda>_.
     bindp (per_write_length (of_nat (length userData) + 14)) (\<lambda>_.
     bindp (per_write_choice 0) (\<lambda>_.
     bindp (per_write_selection 0x08) (\<lambda>_.
     bindp (per_write_numeric_string [0x31] 1) (\<lambda>_.
     bindp (per_write_padding 1) (\<lambda>_.
     bindp (per_write_number_of_sets 1) (\<lambda>_.
     bindp (per_write_choice 0xC0) (\<lambda>_.
     bindp (per_write_octet_string h221_cs_key 4) (\<lambda>_.
     bindp (winpr_assert (length userData \<le> UINT16_MAX)) (\<lambda>_.
     per_write_octet_string userData 0))))))))))))"

definition create_response_header :: "u16 parser" where
  "create_response_header =
     bindp per_read_choice (\<lambda>choice.
     bindp (per_read_object_identifier t124_02_98_oid) (\<lambda>_.
     bindp per_read_length (\<lambda>len.
     bindp per_read_choice (\<lambda>choice.
     bindp (per_read_integer16 1001) (\<lambda>nodeID.
     bindp per_read_integer (\<lambda>tag.
     bindp (per_read_enumerated MCS_Result_enum_length) (\<lambda>result.
     bindp per_read_number_of_sets (\<lambda>number.
     bindp per_read_choice (\<lambda>choice.
     bindp (per_read_octet_string h221_sc_key 4) (\<lambda>_.
     per_read_length))))))))))"

definition gcc_read_conference_create_response :: "gcc_env \<Rightarrow> unit gcc_handler" where
  "gcc_read_conference_create_response env =
     bindp (on_stream create_response_header) (\<lambda>len. gcc_read_server_data_blocks env len)"

definition gcc_write_conference_create_response :: "u8 list \<Rightarrow> unit parser" where
  "gcc_write_conference_create_response userData =
     bindp (per_write_choice 0) (\<lambda>_.
     bindp (per_write_object_identifier t124_02_98_oid) (\<lambda>_.
     bindp (per_write_length 0x2A) (\<lambda>_.
     bindp (per_write_choice 0x14) (\<lambda>_.
     bindp (per_write_integer16 0x79F3 1001) (\<lambda>_.
     bindp (per_write_integer 1) (\<lambda>_.
     bindp (per_write_enumerated 0 MCS_Result_enum_length) (\<lambda>_.
     bindp (per_write_number_of_sets 1) (\<lambda>_.
     bindp (per_write_choice 0xC0) (\<lambda>_.
     bindp (per_write_octet_string h221_sc_key 4) (\<lambda>_.
     bindp (winpr_assert (length userData \<le> UINT16_MAX)) (\<lambda>_.
     per_write_octet_string userData 0)))))))))))"

end
