(* ===== verification/GccFacts.thy ===== *)
theory GccFacts
  imports Gcc
begin

text \<open>
  The readers of the conference data on arbitrary bytes. \<open>keeps I n k h\<close> is the judgement of \<open>Handler\<close>
  with an invariant: started in a state with \<open>I\<close> and \<open>n\<close> checked bytes ahead, \<open>h\<close> neither aborts nor
  leaves its packet, keeps \<open>I\<close> where it succeeds and where it fails, and has \<open>k\<close> checked bytes ahead
  where it succeeds. \<open>gcc_wf\<close> is what the arrays of the MCS state and of the settings promise.
\<close>

unbundle bit_operations_syntax

section \<open>Keeping an invariant inside a packet\<close>

definition keeps :: "('c \<Rightarrow> bool) \<Rightarrow> nat \<Rightarrow> nat \<Rightarrow> ('a, 'c \<times> wStream) prog \<Rightarrow> bool" where
  "keeps I n k h \<longleftrightarrow> (\<forall>B L p. triple (\<lambda>(c, s). I c \<and> window B L p n s) h
     (\<lambda>_ (c, s). I c \<and> window B L p k s) (\<lambda>(c, s). I c \<and> window B L p 0 s))"

named_theorems keeps_intros "handlers that keep an invariant and stay inside their packet"

lemma keepsI:
  assumes "\<And>B L p c s. I c \<Longrightarrow> window B L p n s \<Longrightarrow>
     case h (c, s) of Abort \<Rightarrow> False | Fail (c', t) \<Rightarrow> I c' \<and> window B L p 0 t
     | Ret x (c', t) \<Rightarrow> I c' \<and> window B L p k t"
  shows "keeps I n k h"
  unfolding keeps_def
proof (intro allI tripleI)
  fix B L p and cs :: "'a \<times> wStream" assume "case cs of (c, s) \<Rightarrow> I c \<and> window B L p n s"
  then show "case h cs of Abort \<Rightarrow> False | Fail t \<Rightarrow> (case t of (c, s) \<Rightarrow> I c \<and> window B L p 0 s)
      | Ret x t \<Rightarrow> (case t of (c, s) \<Rightarrow> I c \<and> window B L p k s)"
    using assms [of "fst cs" B L p "snd cs"] by (cases cs) (simp split: outcome.splits)
qed

lemma keepsD:
  assumes "keeps I n k h" and "I c" and "window B L p n s"
  shows "case h (c, s) of Abort \<Rightarrow> False | Fail (c', t) \<Rightarrow> I c' \<and> window B L p 0 t
     | Ret x (c', t) \<Rightarrow> I c' \<and> window B L p k t"
proof -
  from assms(1) have "triple (\<lambda>(c, s). I c \<and> window B L p n s) h
     (\<lambda>_ (c, s). I c \<and> window B L p k s) (\<lambda>(c, s). I c \<and> window B L p 0 s)" by (simp add: keeps_def)
  from tripleD [OF this, of "(c, s)"] assms(2,3) show ?thesis by (simp split: outcome.splits)
qed

lemma keeps_bindp:
  "keeps I n j h \<Longrightarrow> (\<And>x. keeps I j k (K x)) \<Longrightarrow> keeps I n k (bindp h K)"
  unfolding keeps_def by (blast intro: triple_bindp)

lemma keeps_pre: "keeps I n k h \<Longrightarrow> n \<le> n' \<Longrightarrow> keeps I n' k h"
  unfolding keeps_def by (intro allI, erule_tac x = B in allE, erule_tac x = L in allE, erule_tac x = p in allE)
    (rule triple_weaken, assumption, auto intro: window_mono)

lemma keeps_ret [keeps_intros]: "k \<le> n \<Longrightarrow> keeps I n k (ret x)"
  by (rule keepsI) (auto intro: window_mono)

lemma keeps_fail [keeps_intros]: "keeps I n k fail"
  by (rule keepsI) (auto intro: window_mono)

lemma keeps_require [keeps_intros]: "k \<le> n \<Longrightarrow> keeps I n k (require b)"
  by (rule keepsI) (auto intro: window_mono)

lemma keeps_require_bindp [keeps_intros]:
  "(b \<Longrightarrow> keeps I n k (K ())) \<Longrightarrow> keeps I n k (bindp (require b) K)"
  by (cases b) (auto simp: keeps_def triple_def intro: window_mono)

lemma keeps_assert_bindp [keeps_intros]:
  "b \<Longrightarrow> keeps I n k (K ()) \<Longrightarrow> keeps I n k (bindp (winpr_assert b) K)"
  by (simp add: keeps_def triple_def)

lemma keeps_if [keeps_intros]:
  "(b \<Longrightarrow> keeps I n k h) \<Longrightarrow> (\<not> b \<Longrightarrow> keeps I n k h') \<Longrightarrow> keeps I n k (if b then h else h')"
  by simp

lemma keeps_if_bindp [keeps_intros]:
  "(b \<Longrightarrow> keeps I n k (bindp h K)) \<Longrightarrow> (\<not> b \<Longrightarrow> keeps I n k (bindp h' K)) \<Longrightarrow>
     keeps I n k (bindp (if b then h else h') K)"
  by simp

lemma keeps_ret_bindp [keeps_intros]: "keeps I n k (K x) \<Longrightarrow> keeps I n k (bindp (ret x) K)"
  by simp

lemma keeps_case_prod [keeps_intros]:
  "(\<And>a b. keeps I n k (f a b)) \<Longrightarrow> keeps I n k (case x of (a, b) \<Rightarrow> f a b)"
  by (cases x) simp

lemma keeps_case_option [keeps_intros]:
  "(x = None \<Longrightarrow> keeps I n k h) \<Longrightarrow> (\<And>a. x = Some a \<Longrightarrow> keeps I n k (f a)) \<Longrightarrow>
     keeps I n k (case x of None \<Rightarrow> h | Some a \<Rightarrow> f a)"
  by (cases x) simp_all

lemma keeps_let [keeps_intros]: "keeps I n k (K v) \<Longrightarrow> keeps I n k (let y = v in K y)"
  by simp

subsection \<open>Stream operations\<close>

lemma keeps_stream:
  assumes "\<And>B L p. triple (window B L p n) m (\<lambda>x s. Q x \<and> window B L p j s) (window B L p 0)"
    and "\<And>x. Q x \<Longrightarrow> keeps I j k (K x)"
  shows "keeps I n k (bindp (on_stream m) K)"
proof (rule keepsI)
  fix B L p c s assume "I c" "window B L p n s"
  from tripleD [OF assms(1) this(2)] this(1)
  show "case bindp (on_stream m) K (c, s) of Abort \<Rightarrow> False | Fail (c', t) \<Rightarrow> I c' \<and> window B L p 0 t
      | Ret x (c', t) \<Rightarrow> I c' \<and> window B L p k t"
    using assms(2) keepsD [of I j k]
    by (cases "m s") (fastforce simp: on_stream_def bindp_def)+
qed

lemma keeps_check [keeps_intros]:
  "keeps I c k (K ()) \<Longrightarrow> keeps I n k (bindp (on_stream (Stream_CheckAndLogRequiredLength c)) K)"
  by (rule keeps_stream [where j = c and Q = "\<lambda>_. True"]) (auto simp: triple_def window_def stream_defs bindp_def)

lemma keeps_check_size [keeps_intros]:
  assumes "w > 0" and "keeps I (c * w) k (K ())"
  shows "keeps I n k (bindp (on_stream (Stream_CheckAndLogRequiredLengthOfSize c w)) K)"
proof (rule keeps_stream [where j = "c * w" and Q = "\<lambda>_. True"])
  fix B L p
  have "c * w \<le> r" if "\<not> r div w < c" for r
  proof -
    from that have "c * w \<le> r div w * w" by (simp add: not_less)
    also have "\<dots> \<le> r" by simp
    finally show ?thesis .
  qed
  then show "triple (window B L p n) (Stream_CheckAndLogRequiredLengthOfSize c w)
     (\<lambda>x s. True \<and> window B L p (c * w) s) (window B L p 0)"
    using assms(1) by (fastforce simp: triple_def window_def stream_defs bindp_def)
qed (use assms(2) in simp)

lemma keeps_seek [keeps_intros]:
  "w \<le> n \<Longrightarrow> keeps I (n - w) k (K ()) \<Longrightarrow> keeps I n k (bindp (on_stream (Stream_Seek w)) K)"
  by (rule keeps_stream [where j = "n - w" and Q = "\<lambda>_. True"]) (auto simp: triple_def window_def stream_defs bindp_def)

lemma keeps_seek_last [keeps_intros]: "w + k \<le> n \<Longrightarrow> keeps I n k (on_stream (Stream_Seek w))"
  by (rule keepsI) (auto simp: on_stream_def window_def stream_defs bindp_def)

lemma keeps_safeseek_last [keeps_intros]: "keeps I n 0 (on_stream (Stream_SafeSeek w))"
  by (rule keepsI) (auto simp: on_stream_def window_def stream_defs bindp_def)

lemma keeps_stream_read:
  "w \<le> n \<Longrightarrow> (\<And>x. keeps I (n - w) k (K x)) \<Longrightarrow> keeps I n k (bindp (on_stream (stream_read w d True)) K)"
  by (rule keeps_stream [where j = "n - w" and Q = "\<lambda>_. True"])
     (auto simp: triple_def window_def stream_defs bindp_def stream_read_def Let_def)

lemmas [keeps_intros] =
  keeps_stream_read [of 1 _ _ _ _ hd, folded stream_read_u8_def]
  keeps_stream_read [of 2 _ _ _ _ winpr_Data_Get_UINT16, folded stream_read_u16_le_def]
  keeps_stream_read [of 4 _ _ _ _ winpr_Data_Get_UINT32, folded stream_read_u32_le_def]

lemma keeps_Read [keeps_intros]:
  "w \<le> n \<Longrightarrow> (\<And>x. length x = w \<Longrightarrow> keeps I (n - w) k (K x)) \<Longrightarrow> keeps I n k (bindp (on_stream (Stream_Read w)) K)"
  by (rule keeps_stream [where j = "n - w" and Q = "\<lambda>x. length x = w"])
     (auto simp: triple_def window_def stream_defs bindp_def Stream_Read_def Stream_Peek_def)

lemma keeps_remaining [keeps_intros]:
  assumes "\<And>rem. n \<le> rem \<Longrightarrow> keeps I rem k (K rem)"
  shows "keeps I n k (bindp (on_stream Stream_GetRemainingLength) K)"
proof (rule keepsI)
  fix B L p c s assume w: "I c" "window B L p n s"
  then have "Stream_GetRemainingLength s = Ret (slength s - pointer s) s" and le: "n \<le> slength s - pointer s"
    by (auto simp: window_def stream_defs)
  moreover from w have "window B L p (slength s - pointer s) s" by (auto simp: window_def)
  from keepsD [OF assms [OF le] w(1) this]
  have "case K (slength s - pointer s) (c, s) of Abort \<Rightarrow> False | Fail (c', t) \<Rightarrow> I c' \<and> window B L p 0 t
      | Ret x (c', t) \<Rightarrow> I c' \<and> window B L p k t" .
  ultimately show "case bindp (on_stream Stream_GetRemainingLength) K (c, s) of Abort \<Rightarrow> False
      | Fail (c', t) \<Rightarrow> I c' \<and> window B L p 0 t | Ret x (c', t) \<Rightarrow> I c' \<and> window B L p k t"
    by (simp add: on_stream_def bindp_def)
qed

lemma keeps_reads_ok: "reads_ok n m \<Longrightarrow> (\<And>x. keeps I 0 k (K x)) \<Longrightarrow> keeps I n k (bindp (on_stream m) K)"
  by (rule keeps_stream [where j = 0 and Q = "\<lambda>_. True"]) (auto dest: reads_okD)

lemma keeps_reads_ok_last: "reads_ok n m \<Longrightarrow> keeps I n 0 (on_stream m)"
  using keeps_reads_ok [of n m I 0 ret] by (simp add: bindp_ret keeps_ret)

subsection \<open>State\<close>

lemma keeps_set_settings [keeps_intros]:
  assumes "\<And>m st. I (m, st) \<Longrightarrow> I (m, f st)"
  shows "k \<le> n \<Longrightarrow> keeps I n k (set_settings f)"
    and "keeps I n k (K ()) \<Longrightarrow> keeps I n k (bindp (set_settings f) K)"
  using assms
  by (auto simp: keeps_def triple_def set_settings_def on_state_def bindp_def intro: window_mono)

lemma keeps_set_rdpMcs [keeps_intros]:
  assumes "\<And>m st. I (m, st) \<Longrightarrow> I (f m, st)"
  shows "k \<le> n \<Longrightarrow> keeps I n k (set_rdpMcs f)"
    and "keeps I n k (K ()) \<Longrightarrow> keeps I n k (bindp (set_rdpMcs f) K)"
  using assms
  by (auto simp: keeps_def triple_def set_rdpMcs_def on_state_def bindp_def intro: window_mono)

lemma keeps_get_settings [keeps_intros]:
  "(\<And>m st. I (m, st) \<Longrightarrow> keeps I n k (K st)) \<Longrightarrow> keeps I n k (get_settings K)"
  by (fastforce simp: keeps_def triple_def get_settings_def)

lemma keeps_get_rdpMcs [keeps_intros]:
  "(\<And>m st. I (m, st) \<Longrightarrow> keeps I n k (K m)) \<Longrightarrow> keeps I n k (get_rdpMcs K)"
  by (fastforce simp: keeps_def triple_def get_rdpMcs_def)

lemma bindp_get: "bindp (get_settings K) L = get_settings (\<lambda>st. bindp (K st) L)"
  "bindp (get_rdpMcs K') L = get_rdpMcs (\<lambda>m. bindp (K' m) L)"
  by (rule ext, simp add: get_settings_def get_rdpMcs_def bindp_def split: prod.split)+

lemma keeps_get_settings_bindp [keeps_intros]:
  "(\<And>m st. I (m, st) \<Longrightarrow> keeps I n k (bindp (K st) L)) \<Longrightarrow> keeps I n k (bindp (get_settings K) L)"
  unfolding bindp_get by (rule keeps_get_settings)

lemma keeps_get_rdpMcs_bindp [keeps_intros]:
  "(\<And>m st. I (m, st) \<Longrightarrow> keeps I n k (bindp (K m) L)) \<Longrightarrow> keeps I n k (bindp (get_rdpMcs K) L)"
  unfolding bindp_get by (rule keeps_get_rdpMcs)

lemma keeps_on_settings [keeps_intros]:
  assumes "\<And>m st. I (m, st) \<Longrightarrow> case p st of Abort \<Rightarrow> False | Fail st' \<Rightarrow> I (m, st') | Ret _ st' \<Rightarrow> I (m, st')"
  shows "k \<le> n \<Longrightarrow> keeps I n k (on_settings p)"
    and "(\<And>x. keeps I n k (K x)) \<Longrightarrow> keeps I n k (bindp (on_settings p) K)"
proof -
  have keep: "keeps I n n (on_settings p)" for n
  proof (rule keepsI)
    fix B L p' c s assume w: "I c" "window B L p' n s"
    obtain m st where "c = (m, st)" by (cases c)
    with w assms [of m st] show "case on_settings p (c, s) of Abort \<Rightarrow> False
        | Fail (c', t) \<Rightarrow> I c' \<and> window B L p' 0 t | Ret x (c', t) \<Rightarrow> I c' \<and> window B L p' n t"
      by (cases "p st") (auto simp: on_settings_def intro: window_mono)
  qed
  show "k \<le> n \<Longrightarrow> keeps I n k (on_settings p)"
    using keeps_pre [OF keep [of k]] by blast
  show "(\<And>x. keeps I n k (K x)) \<Longrightarrow> keeps I n k (bindp (on_settings p) K)"
    by (rule keeps_bindp [OF keep])
qed

lemma keeps_read_setting:
  assumes "\<And>m st v. I (m, st) \<Longrightarrow> I (m, upd v st)" and "w \<le> n"
  shows "k \<le> n - w \<Longrightarrow> keeps I n k (read_setting (stream_read w d True) upd)"
    and "keeps I (n - w) k (K ()) \<Longrightarrow> keeps I n k (bindp (read_setting (stream_read w d True) upd) K)"
  unfolding read_setting_def bindp_assoc
  by (intro keeps_stream_read keeps_set_settings assms; assumption)+

lemmas [keeps_intros] =
  keeps_read_setting [where w = 2 and d = winpr_Data_Get_UINT16, folded stream_read_u16_le_def]
  keeps_read_setting [where w = 4 and d = winpr_Data_Get_UINT32, folded stream_read_u32_le_def]

lemma keeps_read_setting_Read [keeps_intros]:
  assumes "\<And>m st v. length v = w \<Longrightarrow> I (m, st) \<Longrightarrow> I (m, upd v st)" and "w \<le> n"
    and "keeps I (n - w) k (K ())"
  shows "keeps I n k (bindp (read_setting (Stream_Read w) upd) K)"
  unfolding read_setting_def bindp_assoc
  by (intro keeps_Read keeps_set_settings assms)

lemma keeps_if_left [keeps_intros]:
  assumes "keeps I w k h" and "keeps I 0 k d"
  shows "keeps I n k (if_left w d h)"
proof (rule keepsI)
  fix B L p c s assume w: "I c" "window B L p n s"
  then have *: "Stream_CheckAndLogRequiredLength w s = (if w \<le> slength s - pointer s then Ret () s else Fail s)"
    by (auto simp: window_def stream_defs bindp_def)
  show "case if_left w d h (c, s) of Abort \<Rightarrow> False | Fail (c', t) \<Rightarrow> I c' \<and> window B L p 0 t
      | Ret x (c', t) \<Rightarrow> I c' \<and> window B L p k t"
  proof (cases "w \<le> slength s - pointer s")
    case True
    then have "window B L p w s" using w(2) by (auto simp: window_def)
    from keepsD [OF assms(1) w(1) this] show ?thesis by (simp add: if_left_def * True)
  next
    case False
    have "window B L p 0 s" using w(2) by (rule window_mono) simp
    from keepsD [OF assms(2) w(1) this] show ?thesis by (simp add: if_left_def * False)
  qed
qed

lemma keeps_or_fail [keeps_intros]:
  assumes "keeps I n k h" and "keeps I 0 0 cleanup"
  shows "keeps I n k (or_fail cleanup h)"
proof (rule keepsI)
  fix B L p c s assume w: "I c" "window B L p n s"
  from keepsD [OF assms(1) this]
  show "case or_fail cleanup h (c, s) of Abort \<Rightarrow> False | Fail (c', t) \<Rightarrow> I c' \<and> window B L p 0 t
      | Ret x (c', t) \<Rightarrow> I c' \<and> window B L p k t"
  proof (cases "h (c, s)")
    case (Fail ct)
    obtain c' t where ct: "ct = (c', t)" by (cases ct)
    with Fail keepsD [OF assms(1) w] have "I c'" "window B L p 0 t" by simp_all
    from keepsD [OF assms(2) this] show ?thesis
      by (cases "cleanup (c', t)") (auto simp: or_fail_def Fail ct bindp_def)
  qed (auto simp: or_fail_def)
qed

text \<open>A block has a stream of its own; the packet stays where it is.\<close>

lemma keeps_on_block:
  assumes "keeps I 0 0 h" and "\<And>x. keeps I n k (K x)"
  shows "keeps I n k (bindp (on_block bytes h) K)"
proof (rule keeps_bindp [where j = n, OF keepsI])
  fix B L p c s assume w: "I c" "window B L p n s"
  let ?t = "Stream_StaticInit (\<lambda>_. False) bytes"
  have "window bytes (length bytes) 0 0 ?t" by (simp add: window_def Stream_StaticInit_def)
  from keepsD [OF assms(1) w(1) this] w(2)
  show "case on_block bytes h (c, s) of Abort \<Rightarrow> False | Fail (c', t) \<Rightarrow> I c' \<and> window B L p 0 t
      | Ret x (c', t) \<Rightarrow> I c' \<and> window B L p n t"
    by (cases "h (c, ?t)") (auto simp: on_block_def intro: window_mono)
qed (rule assms(2))

lemma keeps_for_upto:
  assumes "\<And>j x. i \<le> j \<Longrightarrow> j < i + n \<Longrightarrow> keeps I (w + x) x (f j)"
  shows "keeps I (n * w) 0 (for_upto i n f)"
  using assms
proof (induction n arbitrary: i)
  case 0
  show ?case by (simp add: keeps_ret)
next
  case (Suc n)
  have "keeps I (w + n * w) (n * w) (f i)" by (rule Suc.prems) simp_all
  moreover have "keeps I (n * w) 0 (for_upto (Suc i) n f)" by (rule Suc.IH) (auto intro: Suc.prems)
  ultimately show ?case by (simp add: keeps_bindp [where j = "n * w"])
qed

section \<open>What the arrays promise\<close>

text \<open>The MCS state has an array of 31 channels, with eight bytes for a name each; \<open>N\<close> monitors are
  allocated, and not more are in use.\<close>

definition gcc_wf :: "nat \<Rightarrow> rdpMcs \<times> rdpSettings \<Rightarrow> bool" where
  "gcc_wf N = (\<lambda>(m, st).
     channelMaxCount m = CHANNEL_MAX_COUNT \<and> length (channels m) = 31 \<and>
     (\<forall>ch \<in> set (channels m). length (Name ch) = CHANNEL_NAME_LEN + 1) \<and>
     length (MonitorDefArray st) = N \<and> unat (MonitorDefArraySize st) = N \<and> unat (MonitorCount st) \<le> N)"

lemma gcc_wf_simp:
  "gcc_wf N (m, st) \<longleftrightarrow> channelMaxCount m = CHANNEL_MAX_COUNT \<and> length (channels m) = 31 \<and>
     (\<forall>ch \<in> set (channels m). length (Name ch) = CHANNEL_NAME_LEN + 1) \<and>
     length (MonitorDefArray st) = N \<and> unat (MonitorDefArraySize st) = N \<and> unat (MonitorCount st) \<le> N"
  by (simp add: gcc_wf_def)

lemma keeps_with_channel [keeps_intros]:
  assumes "i < 31" and "\<And>ch. length (Name ch) = CHANNEL_NAME_LEN + 1 \<Longrightarrow> length (Name (f ch)) = CHANNEL_NAME_LEN + 1"
  shows "k \<le> n \<Longrightarrow> keeps (gcc_wf N) n k (with_channel i f)"
    and "keeps (gcc_wf N) n k (K ()) \<Longrightarrow> keeps (gcc_wf N) n k (bindp (with_channel i f) K)"
proof -
  have *: "gcc_wf N (m\<lparr>channels := (channels m)[i := f (channels m ! i)]\<rparr>, st)" if "gcc_wf N (m, st)" for m st
  proof -
    from that assms have "length (Name (f (channels m ! i))) = CHANNEL_NAME_LEN + 1"
      by (intro assms(2)) (simp add: gcc_wf_simp)
    with that show ?thesis
      by (auto simp: gcc_wf_simp dest!: subsetD [OF set_update_subset_insert])
  qed
  show "k \<le> n \<Longrightarrow> keeps (gcc_wf N) n k (with_channel i f)"
    unfolding with_channel_def using assms(1) *
    by (intro keeps_intros) (auto simp: gcc_wf_simp)
  show "keeps (gcc_wf N) n k (K ()) \<Longrightarrow> keeps (gcc_wf N) n k (bindp (with_channel i f) K)"
    unfolding with_channel_def bindp_get bindp_assoc using assms(1) *
    by (intro keeps_intros) (auto simp: gcc_wf_simp)
qed

lemma keeps_with_monitor [keeps_intros]:
  "i < N \<Longrightarrow> k \<le> n \<Longrightarrow> keeps (gcc_wf N) n k (with_monitor i f)"
  unfolding with_monitor_def by (intro keeps_intros) (auto simp: gcc_wf_simp)

section \<open>The readers\<close>

lemma filter_caps_ok: "bindp (filterAndLogEarlyClientCapabilityFlags flags) (\<lambda>_. ret ()) = ret ()"
proof -
  have "flags AND client_caps_mask \<le> client_caps_mask" by (rule word_and_le1)
  then have "unat (flags AND client_caps_mask) \<le> UINT16_MAX"
    by (simp add: client_caps_mask_def cs_flags word_le_nat_alt bounds_defs)
  then show ?thesis
    by (intro ext) (simp add: filterAndLogEarlyClientCapabilityFlags_def Let_def bindp_def)
qed

lemma keeps_filter_caps [keeps_intros]:
  "k \<le> n \<Longrightarrow> keeps I n k (bindp (filterAndLogEarlyClientCapabilityFlags flags) (\<lambda>_. ret ()))"
  unfolding filter_caps_ok by (rule keeps_ret)

text \<open>The fields the invariant reads are not among the ones the core, security and cluster blocks set.\<close>

lemma monitors_of_updates [simp]:
  "MonitorDefArray (client_caps_applied flags connType st) = MonitorDefArray st"
  "MonitorDefArraySize (client_caps_applied flags connType st) = MonitorDefArraySize st"
  "MonitorCount (client_caps_applied flags connType st) = MonitorCount st"
  "MonitorDefArray (updateEarlyServerCaps flags st) = MonitorDefArray st"
  "MonitorDefArraySize (updateEarlyServerCaps flags st) = MonitorDefArraySize st"
  "MonitorCount (updateEarlyServerCaps flags st) = MonitorCount st"
  "MonitorDefArray (freerdp_settings_sanitize_keyboard_type st) = MonitorDefArray st"
  "MonitorDefArraySize (freerdp_settings_sanitize_keyboard_type st) = MonitorDefArraySize st"
  "MonitorCount (freerdp_settings_sanitize_keyboard_type st) = MonitorCount st"
  by (simp_all add: client_caps_applied_def updateEarlyServerCaps_def
      freerdp_settings_sanitize_keyboard_type_def Let_def)

lemma reads_utf16 [reads_intros]: "reads_ok n (Stream_Read_UTF16_String_As_UTF8_Buffer conv w)"
  unfolding Stream_Read_UTF16_String_As_UTF8_Buffer_def
  by (intro reads_intros) (auto split: option.splits intro: reads_intros)

lemma keeps_utf16 [keeps_intros]:
  "w * 2 \<le> n \<Longrightarrow> (\<And>x. keeps I (n - w * 2) k (K x)) \<Longrightarrow>
     keeps I n k (bindp (on_stream (Stream_Read_UTF16_String_As_UTF8_Buffer conv w)) K)"
  by (rule keeps_stream [where j = "n - w * 2" and Q = "\<lambda>_. True"])
     (auto simp: triple_def window_def stream_defs bindp_def Stream_Read_def Stream_Peek_def
       Stream_Read_UTF16_String_As_UTF8_Buffer_def split: option.splits)

lemma keeps_client_core_optional:
  "keeps (gcc_wf N) n 0 (client_core_optional env)"
  unfolding client_core_optional_def Let_def
  by (intro keeps_intros) (simp_all add: gcc_wf_simp freerdp_settings_set_string_def)

lemma keeps_client_core: "keeps (gcc_wf N) 0 0 (gcc_read_client_core_data env)"
  unfolding gcc_read_client_core_data_def updateEarlyClientCaps_def
  by (intro keeps_intros keeps_bindp [OF keeps_client_core_optional])
     (simp_all add: gcc_wf_simp freerdp_settings_set_string_def)

lemma keeps_server_core: "keeps (gcc_wf N) 0 0 gcc_read_server_core_data"
  unfolding gcc_read_server_core_data_def
  by (intro keeps_intros) (simp_all add: gcc_wf_simp)

lemma keeps_client_security: "keeps (gcc_wf N) 0 0 gcc_read_client_security_data"
  unfolding gcc_read_client_security_data_def
  by (intro keeps_intros) (simp_all add: gcc_wf_simp)

lemma keeps_drop_server_secrets: "keeps (gcc_wf N) 0 0 (drop_server_secrets env)"
  unfolding drop_server_secrets_def
  by (intro keeps_intros) (simp_all add: gcc_wf_simp freerdp_settings_set_pointer_len_def)

lemma keeps_server_security: "keeps (gcc_wf N) 0 0 (gcc_read_server_security_data env)"
  unfolding gcc_read_server_security_data_def Let_def
  by (intro keeps_intros keeps_drop_server_secrets)
     (simp_all add: gcc_wf_simp freerdp_settings_set_pointer_len_def Let_def)

lemma keeps_read_channel_def: "i < 31 \<Longrightarrow> keeps (gcc_wf N) (12 + x) x (read_channel_def i)"
  unfolding read_channel_def_def
  by (intro keeps_intros) (simp_all add: gcc_wf_simp CHANNEL_NAME_LEN_def)

lemma keeps_client_network: "keeps (gcc_wf N) 0 0 gcc_read_client_network_data"
  unfolding gcc_read_client_network_data_def
  by (intro keeps_intros keeps_for_upto keeps_read_channel_def)
     (simp_all add: gcc_wf_simp CHANNEL_MAX_COUNT_def word_le_nat_alt not_less)

lemma keeps_read_channel_id: "i < 31 \<Longrightarrow> keeps (gcc_wf N) (2 + x) x (read_channel_id i)"
  unfolding read_channel_id_def by (intro keeps_intros) simp_all

lemma keeps_client_cluster: "keeps (gcc_wf N) 0 0 gcc_read_client_cluster_data"
  unfolding gcc_read_client_cluster_data_def
  by (intro keeps_intros keeps_reads_ok_last reads_intros) (simp_all add: gcc_wf_simp Let_def)

lemma keeps_read_monitor: "i < N \<Longrightarrow> keeps (gcc_wf N) (20 + x) x (read_monitor i)"
  unfolding read_monitor_def Let_def
  by (intro keeps_intros) simp_all

lemma keeps_read_monitor_attributes: "i < N \<Longrightarrow> keeps (gcc_wf N) (20 + x) x (read_monitor_attributes i)"
  unfolding read_monitor_attributes_def
  by (intro keeps_intros) simp_all

lemma keeps_server_network: "keeps (gcc_wf N) 0 0 gcc_read_server_network_data"
proof -
  have *: "unat count \<le> 31" if "\<not> CHANNEL_MAX_COUNT < (ucast (count :: u16) :: u32)" for count
  proof -
    have "unat count < 2 ^ 32" using unsigned_less [of count, where 'a = nat] by simp
    with that show ?thesis
      by (simp add: CHANNEL_MAX_COUNT_def word_less_nat_alt unsigned_ucast_eq take_bit_nat_eq_self not_less)
  qed
  show ?thesis
    unfolding gcc_read_server_network_data_def
    by (intro keeps_intros keeps_bindp [OF keeps_for_upto] keeps_read_channel_id)
      (auto simp: gcc_wf_simp dest!: *)
qed

lemma keeps_client_monitor: "keeps (gcc_wf N) 0 0 gcc_read_client_monitor_data"
  unfolding gcc_read_client_monitor_data_def Let_def
  by (intro keeps_intros keeps_for_upto keeps_read_monitor)
     (auto simp: gcc_wf_simp word_less_nat_alt split: if_splits)

lemma keeps_client_monitor_extended: "keeps (gcc_wf N) 0 0 gcc_read_client_monitor_extended_data"
  unfolding gcc_read_client_monitor_extended_data_def
  by (intro keeps_intros keeps_for_upto) (auto simp: gcc_wf_simp intro!: keeps_read_monitor_attributes)

lemma keeps_small_blocks:
  "keeps (gcc_wf N) 0 0 gcc_read_client_message_channel_data"
  "keeps (gcc_wf N) 0 0 gcc_read_server_message_channel_data"
  "keeps (gcc_wf N) 0 0 gcc_read_client_multitransport_channel_data"
  "keeps (gcc_wf N) 0 0 gcc_read_server_multitransport_channel_data"
  "keeps (gcc_wf N) 0 0 gcc_read_client_unused1_data"
  unfolding gcc_read_client_message_channel_data_def gcc_read_server_message_channel_data_def
    gcc_read_client_multitransport_channel_data_def gcc_read_server_multitransport_channel_data_def
    read_multitransport_def gcc_read_client_unused1_data_def
  by (intro keeps_intros; simp add: gcc_wf_simp)+

lemma keeps_client_block: "keeps (gcc_wf N) 0 0 (client_block env typ)"
  unfolding client_block_def
  by (rule keeps_bindp [where j = 0])
     (auto intro!: keeps_client_core keeps_client_security keeps_client_network keeps_client_cluster
       keeps_client_monitor keeps_client_monitor_extended keeps_small_blocks keeps_intros)

lemma keeps_server_block: "keeps (gcc_wf N) 0 0 (server_block env typ)"
  unfolding server_block_def
  by (rule keeps_bindp [where j = 0])
     (auto intro!: keeps_server_core keeps_server_security keeps_server_network keeps_small_blocks keeps_intros)

section \<open>The loops\<close>

text \<open>The header of a block announces at least itself, and the bytes that follow it are there.\<close>

lemma keeps_header:
  assumes "\<And>typ len. 4 \<le> unat len \<Longrightarrow> keeps I (unat len - 4) k (K (typ, len))"
  shows "keeps I n k (bindp (on_stream gcc_read_user_data_header) K)"
proof -
  have require: "on_stream (require b) = require b" "on_stream (ret x) = ret x" for b and x :: 'x
    by (rule ext, simp add: on_stream_def split: prod.split)+
  show ?thesis
    unfolding gcc_read_user_data_header_def on_stream_bindp bindp_assoc require
    by (intro keeps_intros) (simp_all add: assms not_less)
qed

lemma keeps_block_bytes [keeps_intros]:
  "(\<And>x. keeps I n k (K x)) \<Longrightarrow> keeps I n k (bindp (on_stream (block_bytes w)) K)"
  by (rule keeps_stream [where j = n and Q = "\<lambda>_. True"]) (auto simp: triple_def block_bytes_def intro: window_mono)

lemma keeps_client_blocks:
  "unat len \<le> fuel \<Longrightarrow> keeps (gcc_wf N) 0 0 (client_blocks fuel env got len)"
proof (induction fuel arbitrary: got len)
  case 0
  then have "len = 0" by (simp add: unat_eq_zero)
  then show ?case by (simp add: keeps_ret)
next
  case (Suc fuel)
  have step: "unat (if blockLength > len then 0 else len - blockLength) \<le> fuel"
    if "4 \<le> unat blockLength" "0 < len" for blockLength
    using that Suc.prems by (auto simp: unat_sub not_less word_le_nat_alt)
  show ?case
    unfolding client_blocks.simps Let_def
    by (intro keeps_if keeps_header, unfold prod.case)
       (intro keeps_intros keeps_on_block [OF keeps_client_block] Suc.IH [THEN keeps_pre] step; simp)+
qed

text \<open>One block of the server's loop: where the header is there, the stream has moved on by four
  bytes at least.\<close>

lemma header_steps:
  assumes "window B L p 0 s"
  shows "case gcc_read_user_data_header s of Abort \<Rightarrow> False | Fail t \<Rightarrow> window B L p 0 t
     | Ret (typ, len) t \<Rightarrow> p + 4 \<le> L \<and> window B L (p + 4) (unat len - 4) t"
  using assms
  by (auto simp: gcc_read_user_data_header_def window_def stream_defs bindp_def stream_read_u16_le_def
      stream_read_def Let_def)

lemma safeseek_window:
  "window B L p n s \<Longrightarrow> Stream_SafeSeek n s = Ret () (adv n s) \<and> window B L p 0 (adv n s)"
  by (auto simp: Stream_SafeSeek_def window_def stream_defs bindp_def adv_def)

lemma server_blocks_ok:
  assumes "gcc_wf N c" and "window B L p 0 s" and "L - p < fuel"
  shows "case server_blocks fuel env off len (c, s) of Abort \<Rightarrow> False
     | Fail (c', t) \<Rightarrow> gcc_wf N c' \<and> window B L p 0 t | Ret x (c', t) \<Rightarrow> gcc_wf N c' \<and> window B L p 0 t"
  using assms
proof (induction fuel arbitrary: c s p off)
  case (Suc fuel)
  show ?case
  proof (cases "off < len")
    case less: True
    show ?thesis
    proof (cases "gcc_read_user_data_header s")
      case (Ret x t)
      obtain ty bl where x: "x = (ty, bl)" by (cases x)
      let ?n = "unat bl - 4"
      from header_steps [OF Suc.prems(2)] Ret x
      have t: "p + 4 \<le> L" "window B L (p + 4) ?n t" by simp_all
      let ?bytes = "take ?n (drop (pointer t) (buffer t))" and ?u = "adv ?n t"
      have u: "Stream_SafeSeek ?n t = Ret () ?u" "window B L (p + 4) 0 ?u"
        using safeseek_window [OF t(2)] by simp_all
      have mono: "window B L (p + 4) 0 v \<Longrightarrow> window B L p 0 v" for v by (auto simp: window_def)
      have run: "server_blocks (Suc fuel) env off len (c, s) =
          bindp (on_block ?bytes (server_block env ty)) (\<lambda>_. server_blocks fuel env (off + bl) len) (c, ?u)"
        using less Ret x u by (simp add: on_stream_def bindp_def block_bytes_def Let_def)
      have blk: "case on_block ?bytes (server_block env ty) (c, ?u) of Abort \<Rightarrow> False
          | Fail (c', t) \<Rightarrow> gcc_wf N c' \<and> window B L (p + 4) 0 t
          | Ret x (c', t) \<Rightarrow> gcc_wf N c' \<and> window B L (p + 4) 0 t"
        using keepsD [OF keeps_on_block [OF keeps_server_block, where K = ret, OF keeps_ret] Suc.prems(1) u(2)]
        by (simp add: bindp_ret)
      show ?thesis
      proof (cases "on_block ?bytes (server_block env ty) (c, ?u)")
        case (Ret y ct)
        obtain c' v where ct: "ct = (c', v)" by (cases ct)
        with blk Ret have v: "gcc_wf N c'" "window B L (p + 4) 0 v" by simp_all
        from Suc.IH [OF this, of "off + bl"] t(1) Suc.prems(3)
        have "case server_blocks fuel env (off + bl) len (c', v) of Abort \<Rightarrow> False
            | Fail (c', t) \<Rightarrow> gcc_wf N c' \<and> window B L (p + 4) 0 t
            | Ret x (c', t) \<Rightarrow> gcc_wf N c' \<and> window B L (p + 4) 0 t" by simp
        then show ?thesis
          unfolding run using Ret ct by (auto simp: bindp_def mono split: outcome.splits)
      qed (unfold run, insert blk mono, auto simp: bindp_def)
    qed (use header_steps [OF Suc.prems(2)] Suc.prems(1) less in \<open>auto simp: on_stream_def bindp_def\<close>)
  qed (use Suc.prems in simp)
qed simp

lemma keeps_client_data: "keeps (gcc_wf N) 0 0 (gcc_read_client_data_blocks env len)"
  unfolding gcc_read_client_data_blocks_def
  by (rule keeps_bindp [OF keeps_client_blocks], simp, intro keeps_intros) (simp_all add: gcc_wf_simp)

lemma keeps_server_data: "keeps (gcc_wf N) 0 0 (gcc_read_server_data_blocks env len)"
proof (rule keepsI)
  fix B L p c s assume I: "gcc_wf N c" and w: "window B L p 0 s"
  then have "L - p < slength s + 1" by (simp add: window_def)
  from server_blocks_ok [OF I w this]
  show "case gcc_read_server_data_blocks env len (c, s) of Abort \<Rightarrow> False
      | Fail (c', t) \<Rightarrow> gcc_wf N c' \<and> window B L p 0 t | Ret x (c', t) \<Rightarrow> gcc_wf N c' \<and> window B L p 0 t"
    by (simp add: gcc_read_server_data_blocks_def)
qed

section \<open>The conference PDUs\<close>

lemma reads_create_headers [reads_intros]:
  "reads_ok 0 create_request_header" "reads_ok 0 create_response_header"
  unfolding create_request_header_def create_response_header_def
  by (intro reads_intros reads_call [OF reads_per_object_identifier] reads_call [OF reads_per_octet_string]
      reads_call [OF reads_per_numeric_string] reads_call [OF reads_per_padding])+

lemma keeps_create_request: "keeps (gcc_wf N) 0 0 (gcc_read_conference_create_request env)"
  unfolding gcc_read_conference_create_request_def
  by (intro keeps_reads_ok reads_create_headers keeps_intros keeps_client_data [THEN keeps_pre]) simp

lemma keeps_create_response: "keeps (gcc_wf N) 0 0 (gcc_read_conference_create_response env)"
  unfolding gcc_read_conference_create_response_def
  by (intro keeps_reads_ok reads_create_headers keeps_server_data)

text \<open>The judgement, for one run on a well-formed stream.\<close>

lemma keeps_inside:
  assumes "keeps I 0 0 h" and "I c" and "wf_stream s"
  shows "inside s (h (c, s))"
    and "h (c, s) = Ret x (c', t) \<Longrightarrow> I c'" and "h (c, s) = Fail (c', t) \<Longrightarrow> I c'"
proof -
  have "window (buffer s) (slength s) (pointer s) 0 s"
    using assms(3) by (simp add: window_def wf_stream_def)
  note run = keepsD [OF assms(1,2) this]
  show "inside s (h (c, s))"
    using run assms(3) by (cases "h (c, s)") (auto simp: inside_def window_def wf_stream_def)
  show "h (c, s) = Ret x (c', t) \<Longrightarrow> I c'" "h (c, s) = Fail (c', t) \<Longrightarrow> I c'"
    using run by simp_all
qed

end
