(* ===== verification/GccWire.thy ===== *)
theory GccWire
  imports GccFacts
begin

text \<open>
  The blocks of the conference data byte by byte. \<open>hparses h c bs ys x c'\<close> is \<open>parses\<close> for a handler: on
  a packet that goes on with \<open>bs @ ys\<close> it takes \<open>bs\<close>, and its state goes from \<open>c\<close> to \<open>c'\<close>.
  \<open>appends k m bs x\<close> is \<open>emits\<close> for a writer that makes room for itself, in a stream whose allocator
  grants what it asks for; \<open>k\<close> bounds by how much the buffer may grow.
\<close>

unbundle bit_operations_syntax

section \<open>Parsing handlers\<close>

definition hparses :: "('a, 'c \<times> wStream) prog \<Rightarrow> 'c \<Rightarrow> u8 list \<Rightarrow> u8 list \<Rightarrow> 'a \<Rightarrow> 'c \<Rightarrow> bool" where
  "hparses h c bs ys x c' \<longleftrightarrow>
     (\<forall>s. wf_stream s \<and> rest s = bs @ ys \<longrightarrow> h (c, s) = Ret x (c', adv (length bs) s))"

named_theorems hparse_intros "what the handlers accept"

lemma hparsesI:
  assumes "\<And>s. wf_stream s \<Longrightarrow> rest s = bs @ ys \<Longrightarrow> h (c, s) = Ret x (c', adv (length bs) s)"
  shows "hparses h c bs ys x c'"
  using assms by (simp add: hparses_def)

lemma hparsesD:
  "hparses h c bs ys x c' \<Longrightarrow> wf_stream s \<Longrightarrow> rest s = bs @ ys \<Longrightarrow> h (c, s) = Ret x (c', adv (length bs) s)"
  by (simp add: hparses_def)

lemma hparses_bindp:
  assumes h: "hparses h c as (bs @ ys) a c1" and k: "hparses (k a) c1 bs ys x c2"
  shows "hparses (bindp h k) c (as @ bs) ys x c2"
proof (rule hparsesI)
  fix s assume wf: "wf_stream s" and r: "rest s = (as @ bs) @ ys"
  then have "h (c, s) = Ret a (c1, adv (length as) s)" using h by (auto dest: hparsesD)
  moreover have "k a (c1, adv (length as) s) = Ret x (c2, adv (length bs) (adv (length as) s))"
    using k by (rule hparsesD) (use wf r in \<open>auto simp: wf_adv rest_adv\<close>)
  ultimately show "bindp h k (c, s) = Ret x (c2, adv (length (as @ bs)) s)" by simp
qed

lemma hparses_ret [hparse_intros]: "hparses (ret x) c [] ys x c"
  by (rule hparsesI) simp

lemma hparses_on_stream: "parses m bs ys x \<Longrightarrow> hparses (on_stream m) c bs ys x c"
  by (rule hparsesI) (simp add: on_stream_def parsesD)

lemma hparses_call: "parses m as (bs @ ys) a \<Longrightarrow> hparses (k a) c bs ys x c' \<Longrightarrow> hparses (bindp (on_stream m) k) c (as @ bs) ys x c'"
  by (rule hparses_bindp [OF hparses_on_stream])

text \<open>Rules for a call that takes no bytes.\<close>

lemma hparses_step:
  "(\<And>s. wf_stream s \<Longrightarrow> rest s = bs @ ys \<Longrightarrow> h (c, s) = Ret a (c1, s)) \<Longrightarrow> hparses (k a) c1 bs ys x c' \<Longrightarrow>
     hparses (bindp h k) c bs ys x c'"
  by (rule hparsesI) (simp add: hparsesD)

lemma hparses_check [hparse_intros]:
  "n \<le> length bs + length ys \<Longrightarrow> hparses (k ()) c bs ys x c' \<Longrightarrow>
     hparses (bindp (on_stream (Stream_CheckAndLogRequiredLength n)) k) c bs ys x c'"
  by (rule hparses_step) (simp_all add: on_stream_def check_wf)

lemma check_size_wf:
  assumes "wf_stream s" and "0 < w"
  shows "Stream_CheckAndLogRequiredLengthOfSize n w s = (if n * w \<le> length (rest s) then Ret () s else Fail s)"
proof -
  have "n \<le> r div w \<longleftrightarrow> n * w \<le> r" for r
    using assms(2) by (simp add: less_eq_div_iff_mult_less_eq)
  with assms show ?thesis
    by (auto simp: stream_defs bindp_def length_rest wf_stream_def not_less)
qed

lemma hparses_check_size [hparse_intros]:
  "0 < w \<Longrightarrow> n * w \<le> length bs + length ys \<Longrightarrow> hparses (k ()) c bs ys x c' \<Longrightarrow>
     hparses (bindp (on_stream (Stream_CheckAndLogRequiredLengthOfSize n w)) k) c bs ys x c'"
  by (rule hparses_step) (simp_all add: on_stream_def check_size_wf)

lemma hparses_remaining [hparse_intros]:
  "hparses (k (length bs + length ys)) c bs ys x c' \<Longrightarrow>
     hparses (bindp (on_stream Stream_GetRemainingLength) k) c bs ys x c'"
proof (rule hparses_step)
  fix s assume s: "wf_stream s" "rest s = bs @ ys"
  then have "slength s - pointer s = length bs + length ys" using length_rest [of s] by simp
  with s show "on_stream Stream_GetRemainingLength (c, s) = Ret (length bs + length ys) (c, s)"
    by (auto simp: on_stream_def stream_defs wf_stream_def)
qed

lemma hparses_require [hparse_intros]:
  "b \<Longrightarrow> hparses (k ()) c bs ys x c' \<Longrightarrow> hparses (bindp (require b) k) c bs ys x c'"
  by (simp add: hparses_def bindp_def)

lemma hparses_require_last [hparse_intros]: "b \<Longrightarrow> hparses (require b) c [] ys () c"
  by (rule hparsesI) simp

lemma hparses_assert [hparse_intros]:
  "b \<Longrightarrow> hparses (k ()) c bs ys x c' \<Longrightarrow> hparses (bindp (winpr_assert b) k) c bs ys x c'"
  by (simp add: hparses_def)

lemma hparses_ret_bindp [hparse_intros]:
  "hparses (k a) c bs ys x c' \<Longrightarrow> hparses (bindp (ret a) k) c bs ys x c'"
  by simp

lemma hparses_let [hparse_intros]: "hparses (k v) c bs ys x c' \<Longrightarrow> hparses (let y = v in k y) c bs ys x c'"
  by simp

lemma hparses_u8 [hparse_intros]:
  "hparses (k v) c bs ys x c' \<Longrightarrow> hparses (bindp (on_stream Stream_Read_UINT8) k) c (v # bs) ys x c'"
  using hparses_call [where m = Stream_Read_UINT8 and as = "[v]", OF parses_u8 [where k = ret, OF parses_ret, unfolded bindp_ret]]
  by simp

lemma hparses_u16 [hparse_intros]:
  "hparses (k v) c bs ys x c' \<Longrightarrow>
     hparses (bindp (on_stream Stream_Read_UINT16) k) c (winpr_Data_Write_UINT16 v @ bs) ys x c'"
  by (rule hparses_call) (rule parse_intros)

lemma hparses_u32 [hparse_intros]:
  "hparses (k v) c bs ys x c' \<Longrightarrow>
     hparses (bindp (on_stream Stream_Read_UINT32) k) c (winpr_Data_Write_UINT32 v @ bs) ys x c'"
  by (rule hparses_call) (rule parse_intros)

lemma hparses_seek [hparse_intros]:
  "length as = n \<Longrightarrow> hparses (k ()) c bs ys x c' \<Longrightarrow> hparses (bindp (on_stream (Stream_Seek n)) k) c (as @ bs) ys x c'"
  by (rule hparses_call [OF parses_seek])

lemma hparses_Read [hparse_intros]:
  "length as = n \<Longrightarrow> hparses (k as) c bs ys x c' \<Longrightarrow> hparses (bindp (on_stream (Stream_Read n)) k) c (as @ bs) ys x c'"
  by (rule hparses_call) (use parses_Read [where k = ret, OF _ parses_ret] in \<open>simp add: bindp_ret\<close>)

lemma hparses_set_settings [hparse_intros]:
  "hparses (k ()) (m, f st) bs ys x c' \<Longrightarrow> hparses (bindp (set_settings f) k) (m, st) bs ys x c'"
  by (rule hparses_step) (simp_all add: set_settings_def on_state_def)

lemma hparses_set_settings_last [hparse_intros]: "hparses (set_settings f) (m, st) [] ys () (m, f st)"
  by (rule hparsesI) (simp add: set_settings_def on_state_def)

lemma hparses_set_rdpMcs [hparse_intros]:
  "hparses (k ()) (f m, st) bs ys x c' \<Longrightarrow> hparses (bindp (set_rdpMcs f) k) (m, st) bs ys x c'"
  by (rule hparses_step) (simp_all add: set_rdpMcs_def on_state_def)

lemma hparses_set_rdpMcs_last [hparse_intros]: "hparses (set_rdpMcs f) (m, st) [] ys () (f m, st)"
  by (rule hparsesI) (simp add: set_rdpMcs_def on_state_def)

lemma hparses_get_settings [hparse_intros]:
  "hparses (K st) (m, st) bs ys x c' \<Longrightarrow> hparses (get_settings K) (m, st) bs ys x c'"
  "hparses (bindp (K st) k) (m, st) bs ys x c' \<Longrightarrow> hparses (bindp (get_settings K) k) (m, st) bs ys x c'"
  by (simp_all add: hparses_def get_settings_def bindp_def)

lemma hparses_get_rdpMcs [hparse_intros]:
  "hparses (K m) (m, st) bs ys x c' \<Longrightarrow> hparses (get_rdpMcs K) (m, st) bs ys x c'"
  "hparses (bindp (K m) k) (m, st) bs ys x c' \<Longrightarrow> hparses (bindp (get_rdpMcs K) k) (m, st) bs ys x c'"
  by (simp_all add: hparses_def get_rdpMcs_def bindp_def)

lemma hparses_read_setting [hparse_intros]:
  "hparses (k ()) (m, upd v st) bs ys x c' \<Longrightarrow>
     hparses (bindp (read_setting Stream_Read_UINT16 upd) k) (m, st) (winpr_Data_Write_UINT16 v @ bs) ys x c'"
  "hparses (k' ()) (m, upd' v' st) bs ys x c' \<Longrightarrow>
     hparses (bindp (read_setting Stream_Read_UINT32 upd') k') (m, st) (winpr_Data_Write_UINT32 v' @ bs) ys x c'"
  unfolding read_setting_def bindp_assoc by (intro hparse_intros; assumption)+

lemmas [hparse_intros] =
  hparses_u16 [where bs = "[]", simplified] hparses_u32 [where bs = "[]", simplified]
  hparses_read_setting(1) [where bs = "[]", simplified] hparses_read_setting(2) [where bs = "[]", simplified]

lemma hparses_read_setting_last [hparse_intros]:
  "hparses (read_setting Stream_Read_UINT32 upd) (m, st) (winpr_Data_Write_UINT32 v) ys () (m, upd v st)"
  using hparses_read_setting(2) [where k' = ret, OF hparses_ret] by (simp add: bindp_ret)

lemma hparses_if_left [hparse_intros]:
  "n \<le> length bs + length ys \<Longrightarrow> hparses h c bs ys x c' \<Longrightarrow> hparses (if_left n d h) c bs ys x c'"
  by (rule hparsesI) (simp add: if_left_def check_wf hparsesD)

lemma hparses_on_settings:
  "p st = Ret a st' \<Longrightarrow> hparses (k a) (m, st') bs ys x c' \<Longrightarrow> hparses (bindp (on_settings p) k) (m, st) bs ys x c'"
  by (rule hparses_step) (simp_all add: on_settings_def)

lemma hparses_with_channel [hparse_intros]:
  "i < length (channels m) \<Longrightarrow>
     hparses (k ()) (m\<lparr>channels := (channels m)[i := f (channels m ! i)]\<rparr>, st) bs ys x c' \<Longrightarrow>
     hparses (bindp (with_channel i f) k) (m, st) bs ys x c'"
  unfolding with_channel_def bindp_get bindp_assoc by (intro hparse_intros)

lemma hparses_with_monitor [hparse_intros]:
  "i < length (MonitorDefArray st) \<Longrightarrow>
     hparses (k ()) (m, st\<lparr>MonitorDefArray := (MonitorDefArray st)[i := f (MonitorDefArray st ! i)]\<rparr>) bs ys x c' \<Longrightarrow>
     hparses (bindp (with_monitor i f) k) (m, st) bs ys x c'"
  unfolding with_monitor_def bindp_get bindp_assoc by (intro hparse_intros)

lemma hparses_last: "hparses (bindp h ret) c bs ys x c' \<Longrightarrow> hparses h c bs ys x c'"
  by (simp only: bindp_ret)

text \<open>A block is read to its end, or what it leaves is skipped with it.\<close>

lemma hparses_on_block:
  assumes "hparses h c bs ys x c'" and "bytes = bs @ ys" and "length bytes \<le> SIZE_MAX"
    and "hparses (k x) c' as zs z c''"
  shows "hparses (bindp (on_block bytes h) k) c as zs z c''"
proof (rule hparses_step [where a = x])
  show "hparses (k x) c' as zs z c''" by (rule assms(4))
  fix s
  let ?t = "Stream_StaticInit (\<lambda>_. False) bytes"
  have "wf_stream ?t" "rest ?t = bs @ ys"
    using assms(2,3) by (simp_all add: Stream_StaticInit_def wf_stream_def rest_def)
  from hparsesD [OF assms(1) this] show "on_block bytes h (c, s) = Ret x (c', s)"
    by (simp add: on_block_def)
qed

section \<open>Writers that make room\<close>

definition appends :: "nat \<Rightarrow> 'a parser \<Rightarrow> u8 list \<Rightarrow> 'a \<Rightarrow> bool" where
  "appends k m bs x \<longleftrightarrow>
     (\<forall>s. pointer s \<le> Stream_Capacity s \<and> Stream_Capacity s + k \<le> SIZE_MAX \<and> (\<forall>n. grants s n) \<longrightarrow>
        (\<exists>t. m s = Ret x t \<and> pointer t \<le> Stream_Capacity t \<and> Stream_Capacity t \<le> Stream_Capacity s + k \<and>
             grants t = grants s \<and> written t = written s @ bs))"

named_theorems append_intros "what the writers that make room append"

lemma appendsI:
  assumes "\<And>s. pointer s \<le> Stream_Capacity s \<Longrightarrow> Stream_Capacity s + k \<le> SIZE_MAX \<Longrightarrow> (\<And>n. grants s n) \<Longrightarrow>
     \<exists>t. m s = Ret x t \<and> pointer t \<le> Stream_Capacity t \<and> Stream_Capacity t \<le> Stream_Capacity s + k \<and>
         grants t = grants s \<and> written t = written s @ bs"
  shows "appends k m bs x"
  using assms by (auto simp: appends_def)

lemma appendsE:
  assumes "appends k m bs x" and "pointer s \<le> Stream_Capacity s" and "Stream_Capacity s + k \<le> SIZE_MAX"
    and "\<And>n. grants s n"
  obtains t where "m s = Ret x t" and "pointer t \<le> Stream_Capacity t"
    and "Stream_Capacity t \<le> Stream_Capacity s + k" and "grants t = grants s" and "written t = written s @ bs"
  using assms by (auto simp: appends_def)

lemma appends_bindp:
  assumes m: "appends j m as a" and k: "appends k (K a) bs x"
  shows "appends (j + k) (bindp m K) (as @ bs) x"
proof (rule appendsI)
  fix s assume s: "pointer s \<le> Stream_Capacity s" "Stream_Capacity s + (j + k) \<le> SIZE_MAX" "\<And>n. grants s n"
  have j: "Stream_Capacity s + j \<le> SIZE_MAX" using s(2) by simp
  obtain t where t: "m s = Ret a t" "pointer t \<le> Stream_Capacity t" "Stream_Capacity t \<le> Stream_Capacity s + j"
      "grants t = grants s" "written t = written s @ as"
    by (rule appendsE [OF m s(1) j]) (use s(3) in auto)
  have k': "Stream_Capacity t + k \<le> SIZE_MAX" using t(3) s(2) by simp
  obtain u where u: "K a t = Ret x u" "pointer u \<le> Stream_Capacity u" "Stream_Capacity u \<le> Stream_Capacity t + k"
      "grants u = grants t" "written u = written t @ bs"
    by (rule appendsE [OF k t(2) k']) (use s(3) t(4) in auto)
  from t u show "\<exists>u. bindp m K s = Ret x u \<and> pointer u \<le> Stream_Capacity u \<and>
      Stream_Capacity u \<le> Stream_Capacity s + (j + k) \<and> grants u = grants s \<and> written u = written s @ (as @ bs)"
    by (intro exI [of _ u]) auto
qed

lemma appends_more: "appends k m bs x \<Longrightarrow> k \<le> k' \<Longrightarrow> appends k' m bs x"
  unfolding appends_def by (meson add_le_mono1 add_left_mono le_trans order_refl)

lemma appends_ret [append_intros]: "appends 0 (ret x) [] x"
  by (rule appendsI) auto

lemma appends_assert [append_intros]: "b \<Longrightarrow> appends k (K ()) bs x \<Longrightarrow> appends k (bindp (winpr_assert b) K) bs x"
  by (simp add: appends_def)

lemma appends_ensure:
  assumes m: "emits (K ()) bs x" and n: "length bs \<le> n"
  shows "appends (n + 128) (bindp (Stream_EnsureRemainingCapacity n) K) bs x"
proof (rule appendsI)
  fix s assume s: "pointer s \<le> Stream_Capacity s" "Stream_Capacity s + (n + 128) \<le> SIZE_MAX" "\<And>n. grants s n"
  let ?g = "grown_capacity (Stream_Capacity s + n)"
  have g: "Stream_Capacity s + n < ?g" "?g \<le> Stream_Capacity s + n + 128"
    by (simp_all add: grown_capacity_def)
  obtain t where t: "Stream_EnsureRemainingCapacity n s = Ret () t" "Stream_Capacity t \<le> Stream_Capacity s + (n + 128)"
    "room (length bs) t" "written t = written s" "grants t = grants s"
  proof
    let ?t = "if pointer s + n \<le> Stream_Capacity s then s
      else s\<lparr>buffer := buffer s @ replicate (?g - Stream_Capacity s) 0, slength := ?g, isOwner := True\<rparr>"
    show "Stream_EnsureRemainingCapacity n s = Ret () ?t" using s by (subst ensure_remaining_ok) auto
    show "Stream_Capacity ?t \<le> Stream_Capacity s + (n + 128)" "room (length bs) ?t" "written ?t = written s"
      "grants ?t = grants s"
      using g n s by (auto simp: Stream_Capacity_def room_def written_def)
  qed
  from m t(3) have "K () t = Ret x (put bs t)" by (rule emitsD)
  moreover have "pointer t + length bs \<le> Stream_Capacity t" using t(3) by (simp add: room_def)
  ultimately show "\<exists>t. bindp (Stream_EnsureRemainingCapacity n) K s = Ret x t \<and> pointer t \<le> Stream_Capacity t \<and>
      Stream_Capacity t \<le> Stream_Capacity s + (n + 128) \<and> grants t = grants s \<and> written t = written s @ bs"
    using t by (intro exI [of _ "put bs t"]) (simp add: written_put)
qed

end
