(* ===== verification/GccBlocks.thy ===== *)
theory GccBlocks
  imports GccWire
begin

text \<open>
  Every block of the conference data as the bytes its writer appends, and what its reader makes of
  them.
\<close>

unbundle bit_operations_syntax

section \<open>Headers\<close>

definition enc_block :: "u16 \<Rightarrow> u8 list \<Rightarrow> u8 list" where
  "enc_block ty bs = winpr_Data_Write_UINT16 ty @ winpr_Data_Write_UINT16 (of_nat (4 + length bs)) @ bs"

lemma length_enc_block [simp]: "length (enc_block ty bs) = 4 + length bs"
  by (simp add: enc_block_def)

lemma appends_block:
  assumes "emits body bs x" and "unat len = 4 + length bs"
  shows "appends (unat len + 132) (bindp (gcc_write_user_data_header ty len) (\<lambda>_. body)) (enc_block ty bs) x"
proof -
  have "of_nat (unat len) = len" by simp
  then have "len = of_nat (4 + length bs)" by (simp only: assms(2))
  then have "emits (bindp (Stream_Write_UINT16_unchecked ty) (\<lambda>_. bindp (Stream_Write_UINT16_unchecked len) (\<lambda>_. body)))
     (enc_block ty bs) x"
    unfolding enc_block_def by (auto intro!: emit_intros assms(1))
  from appends_ensure [where K = "\<lambda>_. bindp (Stream_Write_UINT16_unchecked ty)
      (\<lambda>_. bindp (Stream_Write_UINT16_unchecked len) (\<lambda>_. body))" and n = "4 + unat len", OF this]
  show ?thesis
    unfolding gcc_write_user_data_header_def bindp_assoc using assms(2) by (simp add: ac_simps)
qed

section \<open>Core data\<close>

definition client_caps_sent :: "rdpSettings \<Rightarrow> u32" where
  "client_caps_sent st =
     (or_if (SupportSkipChannelJoin_s st) RNS_UD_CS_SUPPORT_SKIP_CHANNELJOIN
     (or_if (HasRelativeMouseEvent st) RNS_UD_CS_RELATIVE_MOUSE_INPUT
     (or_if (SupportAsymetricKeys st) RNS_UD_CS_STRONG_ASYMMETRIC_KEYS
     (or_if (SupportHeartbeatPdu st) RNS_UD_CS_SUPPORT_HEARTBEAT_PDU
     (or_if (SupportDynamicTimeZone st) RNS_UD_CS_SUPPORT_DYNAMIC_TIME_ZONE
     (or_if (SupportGraphicsPipeline st) RNS_UD_CS_SUPPORT_DYNVC_GFX_PROTOCOL
     (or_if (NetworkAutoDetect st) RNS_UD_CS_SUPPORT_NETCHAR_AUTODETECT
     (or_if (SupportMonitorLayoutPdu st) RNS_UD_CS_SUPPORT_MONITOR_LAYOUT_PDU
     (or_if (ConnectionType st \<noteq> 0) RNS_UD_CS_VALID_CONNECTION_TYPE
     (or_if (SupportStatusInfoPdu st) RNS_UD_CS_SUPPORT_STATUSINFO_PDU
     (or_if (ColorDepth st = 32) RNS_UD_CS_WANT_32BPP_SESSION
     (or_if (SupportErrorInfoPdu st) RNS_UD_CS_SUPPORT_ERRINFO_PDU 0))))))))))))"

text \<open>The sum of flags is a word of bits, one for each capability.\<close>

lemma bit_or_if: "bit (or_if b f x) n \<longleftrightarrow> bit x n \<or> b \<and> bit f n"
  by (auto simp: or_if_def bit_simps)

lemma cs_flag_bits:
  "bit RNS_UD_CS_SUPPORT_ERRINFO_PDU n \<longleftrightarrow> n = 0" "bit RNS_UD_CS_WANT_32BPP_SESSION n \<longleftrightarrow> n = 1"
  "bit RNS_UD_CS_SUPPORT_STATUSINFO_PDU n \<longleftrightarrow> n = 2" "bit RNS_UD_CS_STRONG_ASYMMETRIC_KEYS n \<longleftrightarrow> n = 3"
  "bit RNS_UD_CS_RELATIVE_MOUSE_INPUT n \<longleftrightarrow> n = 4" "bit RNS_UD_CS_VALID_CONNECTION_TYPE n \<longleftrightarrow> n = 5"
  "bit RNS_UD_CS_SUPPORT_MONITOR_LAYOUT_PDU n \<longleftrightarrow> n = 6" "bit RNS_UD_CS_SUPPORT_NETCHAR_AUTODETECT n \<longleftrightarrow> n = 7"
  "bit RNS_UD_CS_SUPPORT_DYNVC_GFX_PROTOCOL n \<longleftrightarrow> n = 8" "bit RNS_UD_CS_SUPPORT_DYNAMIC_TIME_ZONE n \<longleftrightarrow> n = 9"
  "bit RNS_UD_CS_SUPPORT_HEARTBEAT_PDU n \<longleftrightarrow> n = 10" "bit RNS_UD_CS_SUPPORT_SKIP_CHANNELJOIN n \<longleftrightarrow> n = 11"
proof -
  have *: "bit (w :: u32) n \<longleftrightarrow> n = k" if "w = 2 ^ k" "k < 32" for w :: u32 and k
    using that by (auto simp: bit_simps)
  show "bit RNS_UD_CS_SUPPORT_ERRINFO_PDU n \<longleftrightarrow> n = 0" "bit RNS_UD_CS_WANT_32BPP_SESSION n \<longleftrightarrow> n = 1"
    "bit RNS_UD_CS_SUPPORT_STATUSINFO_PDU n \<longleftrightarrow> n = 2" "bit RNS_UD_CS_STRONG_ASYMMETRIC_KEYS n \<longleftrightarrow> n = 3"
    "bit RNS_UD_CS_RELATIVE_MOUSE_INPUT n \<longleftrightarrow> n = 4" "bit RNS_UD_CS_VALID_CONNECTION_TYPE n \<longleftrightarrow> n = 5"
    "bit RNS_UD_CS_SUPPORT_MONITOR_LAYOUT_PDU n \<longleftrightarrow> n = 6" "bit RNS_UD_CS_SUPPORT_NETCHAR_AUTODETECT n \<longleftrightarrow> n = 7"
    "bit RNS_UD_CS_SUPPORT_DYNVC_GFX_PROTOCOL n \<longleftrightarrow> n = 8" "bit RNS_UD_CS_SUPPORT_DYNAMIC_TIME_ZONE n \<longleftrightarrow> n = 9"
    "bit RNS_UD_CS_SUPPORT_HEARTBEAT_PDU n \<longleftrightarrow> n = 10" "bit RNS_UD_CS_SUPPORT_SKIP_CHANNELJOIN n \<longleftrightarrow> n = 11"
    by (intro *; simp add: cs_flags)+
qed

lemma bit_client_caps_sent: "bit (client_caps_sent st) n \<Longrightarrow> n < 12"
  by (auto simp: client_caps_sent_def bit_or_if cs_flag_bits)

lemma client_caps_sent_masked: "client_caps_sent st AND client_caps_mask = client_caps_sent st"
  by (rule bit_word_eqI) (auto simp: client_caps_sent_def client_caps_mask_def bit_or_if bit_simps cs_flag_bits)

lemma client_caps_sent_small: "unat (client_caps_sent st) < 65536"
proof -
  have "take_bit 16 (client_caps_sent st) = client_caps_sent st"
    by (rule bit_word_eqI) (auto simp: bit_take_bit_iff dest: bit_client_caps_sent)
  then have "unat (client_caps_sent st) = take_bit 16 (unat (client_caps_sent st))"
    by (metis unsigned_take_bit_eq)
  also have "\<dots> < 2 ^ 16" by (rule take_bit_nat_less_exp)
  finally show ?thesis by simp
qed

lemma early_client_caps: "earlyClientCapsFromSettings st = ret (ucast (client_caps_sent st))"
  using client_caps_sent_small [of st]
  by (intro ext) (simp add: earlyClientCapsFromSettings_def client_caps_sent_def [symmetric]
      filterAndLogEarlyClientCapabilityFlags_def client_caps_sent_masked Let_def bounds_defs)

lemma client_caps_back: "ucast (ucast (client_caps_sent st) :: u16) = client_caps_sent st"
  by (rule ucast_u16_back [OF client_caps_sent_small])

lemma has_flag_bit:
  fixes w :: "'a::len word"
  shows "(\<And>k. bit f k \<longleftrightarrow> k = n) \<Longrightarrow> has_flag w f \<longleftrightarrow> bit w n"
proof -
  assume f: "\<And>k. bit f k \<longleftrightarrow> k = n"
  have "w AND f = 0 \<longleftrightarrow> (\<forall>k. bit (w AND f) k = bit (0 :: 'a word) k)"
    by (auto intro: bit_word_eqI)
  then have "w AND f = 0 \<longleftrightarrow> \<not> bit w n" by (auto simp: bit_simps f)
  then show ?thesis by (simp add: has_flag_def)
qed

lemma client_caps_sent_flags:
  "has_flag (client_caps_sent st) RNS_UD_CS_SUPPORT_ERRINFO_PDU = SupportErrorInfoPdu st"
  "has_flag (client_caps_sent st) RNS_UD_CS_WANT_32BPP_SESSION = (ColorDepth st = 32)"
  "has_flag (client_caps_sent st) RNS_UD_CS_SUPPORT_STATUSINFO_PDU = SupportStatusInfoPdu st"
  "has_flag (client_caps_sent st) RNS_UD_CS_STRONG_ASYMMETRIC_KEYS = SupportAsymetricKeys st"
  "has_flag (client_caps_sent st) RNS_UD_CS_RELATIVE_MOUSE_INPUT = HasRelativeMouseEvent st"
  "has_flag (client_caps_sent st) RNS_UD_CS_VALID_CONNECTION_TYPE = (ConnectionType st \<noteq> 0)"
  "has_flag (client_caps_sent st) RNS_UD_CS_SUPPORT_MONITOR_LAYOUT_PDU = SupportMonitorLayoutPdu st"
  "has_flag (client_caps_sent st) RNS_UD_CS_SUPPORT_NETCHAR_AUTODETECT = NetworkAutoDetect st"
  "has_flag (client_caps_sent st) RNS_UD_CS_SUPPORT_DYNVC_GFX_PROTOCOL = SupportGraphicsPipeline st"
  "has_flag (client_caps_sent st) RNS_UD_CS_SUPPORT_DYNAMIC_TIME_ZONE = SupportDynamicTimeZone st"
  "has_flag (client_caps_sent st) RNS_UD_CS_SUPPORT_HEARTBEAT_PDU = SupportHeartbeatPdu st"
  "has_flag (client_caps_sent st) RNS_UD_CS_SUPPORT_SKIP_CHANNELJOIN = SupportSkipChannelJoin_s st"
  by (simp_all add: has_flag_bit [OF cs_flag_bits(1)] has_flag_bit [OF cs_flag_bits(2)]
      has_flag_bit [OF cs_flag_bits(3)] has_flag_bit [OF cs_flag_bits(4)] has_flag_bit [OF cs_flag_bits(5)]
      has_flag_bit [OF cs_flag_bits(6)] has_flag_bit [OF cs_flag_bits(7)] has_flag_bit [OF cs_flag_bits(8)]
      has_flag_bit [OF cs_flag_bits(9)] has_flag_bit [OF cs_flag_bits(10)] has_flag_bit [OF cs_flag_bits(11)]
      has_flag_bit [OF cs_flag_bits(12)] client_caps_sent_def bit_or_if cs_flag_bits)

text \<open>Strings in a field of \<open>2 * n\<close> bytes.\<close>

definition padded :: "nat \<Rightarrow> u16 list \<Rightarrow> u8 list" where
  "padded n us = wchar_bytes us @ replicate ((n - length us) * 2) 0"

lemma length_wchar_bytes [simp]: "length (wchar_bytes us) = 2 * length us"
  by (induction us) (simp_all add: wchar_bytes_def)

lemma length_padded [simp]: "length us \<le> n \<Longrightarrow> length (padded n us) = 2 * n"
  by (simp add: padded_def)

lemma wchars_zeros: "wchars (replicate (k * 2) 0) = replicate k 0"
  by (induction k) (simp_all add: winpr_Data_Get_UINT16_def shift_in_def)

lemma wchars_bytes: "wchars (wchar_bytes us @ bs) = us @ wchars bs"
proof (induction us)
  case (Cons u us)
  have "\<exists>lo hi. winpr_Data_Write_UINT16 u = [lo, hi] \<and> winpr_Data_Get_UINT16 [lo, hi] = u"
    using get_write_u16_le [of u "[]"] by (simp add: write_u16_le_bytes)
  with Cons show ?case by (auto simp: wchar_bytes_def)
qed (simp add: wchar_bytes_def)

lemma takeWhile_zeros: "takeWhile (\<lambda>w. w \<noteq> 0) (us @ replicate k 0) = takeWhile (\<lambda>w. w \<noteq> 0) us"
  by (induction us) (simp_all add: takeWhile_replicate)

lemma wchars_padded:
  "takeWhile (\<lambda>w. w \<noteq> 0) (wchars (padded n us)) = takeWhile (\<lambda>w. w \<noteq> 0) us"
  by (simp only: padded_def wchars_bytes wchars_zeros takeWhile_zeros)

definition client_product_units :: "gcc_env \<Rightarrow> rdpSettings \<Rightarrow> u16 list" where
  "client_product_units env st =
     (case ClientProductId st of
        None \<Rightarrow> []
      | Some str \<Rightarrow> if take 32 str = [] then [] else take 32 (the (utf8_to_utf16 env (take 32 str))))"

definition enc_client_core :: "gcc_env \<Rightarrow> rdpSettings \<Rightarrow> u8 list" where
  "enc_client_core env st =
     winpr_Data_Write_UINT32 (RdpVersion st) @
     winpr_Data_Write_UINT16 (ucast (DesktopWidth st)) @ winpr_Data_Write_UINT16 (ucast (DesktopHeight st)) @
     winpr_Data_Write_UINT16 RNS_UD_COLOR_8BPP @ winpr_Data_Write_UINT16 RNS_UD_SAS_DEL @
     winpr_Data_Write_UINT32 (KeyboardLayout st) @ winpr_Data_Write_UINT32 (ClientBuild st) @
     padded 16 (client_name_units env st) @
     winpr_Data_Write_UINT32 (KeyboardType st) @ winpr_Data_Write_UINT32 (KeyboardSubType st) @
     winpr_Data_Write_UINT32 (KeyboardFunctionKey st) @ replicate 64 0 @
     winpr_Data_Write_UINT16 RNS_UD_COLOR_8BPP @ winpr_Data_Write_UINT16 1 @ winpr_Data_Write_UINT32 0 @
     winpr_Data_Write_UINT16 (ucast (ColorDepthToHighColor (ColorDepth st))) @
     winpr_Data_Write_UINT16 (SupportedColorDepths st) @
     winpr_Data_Write_UINT16 (ucast (client_caps_sent st)) @
     padded 32 (client_product_units env st) @
     ucast (ConnectionType st) # 0 # winpr_Data_Write_UINT32 (SelectedProtocol_s st) @
     winpr_Data_Write_UINT32 (DesktopPhysicalWidth st) @ winpr_Data_Write_UINT32 (DesktopPhysicalHeight st) @
     winpr_Data_Write_UINT16 (DesktopOrientation st) @ winpr_Data_Write_UINT32 (DesktopScaleFactor st) @
     winpr_Data_Write_UINT32 (DeviceScaleFactor st)"

text \<open>What the client must have for its core data to be written.\<close>

definition client_core_writable :: "gcc_env \<Rightarrow> rdpSettings \<Rightarrow> bool" where
  "client_core_writable env st \<longleftrightarrow> unat (DesktopWidth st) \<le> UINT16_MAX \<and> unat (DesktopHeight st) \<le> UINT16_MAX \<and>
     unat (ConnectionType st) \<le> 255 \<and>
     (\<forall>str. ClientProductId st = Some str \<and> take 32 str \<noteq> [] \<longrightarrow> utf8_to_utf16 env (take 32 str) \<noteq> None)"

lemma length_client_name: "length (client_name_units env st) \<le> 16"
  by (simp add: client_name_units_def Let_def)

lemma length_client_product: "length (client_product_units env st) \<le> 32"
  by (simp add: client_product_units_def split: option.split)

lemma length_enc_client_core: "length (enc_client_core env st) = 230"
  by (simp add: enc_client_core_def length_client_name length_client_product)

lemma cast_u16_fits: "unat v \<le> UINT16_MAX \<Longrightarrow> asserting_cast_u16 v = ret (ucast v)"
  unfolding asserting_cast_u16_def by (rule ext) (simp add: ucast_u16_back bounds_defs)

lemma high_color_ok: "asserting_cast_u16 (ColorDepthToHighColor d) = ret (ucast (ColorDepthToHighColor d))"
  by (rule cast_u16_fits) (simp add: ColorDepthToHighColor_def bounds_defs)

lemma emits_product:
  assumes "client_core_writable env st" and "emits (k ()) bs x"
  shows "emits (bindp (case ClientProductId st of
              Some str \<Rightarrow> bindp (Stream_Write_UTF16_String_From_UTF8 (utf8_to_utf16 env) 32 (take 32 str) True) (\<lambda>_. ret ())
            | None \<Rightarrow> Stream_Zero 64) k) (padded 32 (client_product_units env st) @ bs) x"
proof (cases "ClientProductId st")
  case None
  then show ?thesis using emits_zero [where k = k and n = 64 and bs = bs and x = x, OF assms(2)]
    by (simp add: padded_def client_product_units_def wchar_bytes_def)
next
  case (Some str)
  let ?us = "client_product_units env st"
  have check: "emits (bindp (Stream_CheckAndLogRequiredCapacityOfSize 32 2) K) bs' x'"
    if "64 \<le> length bs'" "emits (K ()) bs' x'" for K bs' and x' :: 'a
  proof (rule emitsI)
    fix s assume r: "room (length bs') s"
    then have "Stream_CheckAndLogRequiredCapacityOfSize 32 2 s = Ret () s"
      using that(1) by (auto simp: stream_defs bindp_def room_def)
    with emitsD [OF that(2) r] show "bindp (Stream_CheckAndLogRequiredCapacityOfSize 32 2) K s = Ret x' (put bs' s)"
      by simp
  qed
  have body: "bindp (if take 32 str \<noteq> [] then
              (case utf8_to_utf16 env (take 32 str) of
                 None \<Rightarrow> fail
               | Some w \<Rightarrow> bindp (Stream_Write (wchar_bytes (take 32 w))) (\<lambda>_. ret (length (take 32 w))))
            else ret 0) K = bindp (Stream_Write (wchar_bytes ?us)) (\<lambda>_. K (length ?us))" for K
  proof (cases "take 32 str = []")
    case True
    then show ?thesis using Some
      by (intro ext) (simp add: client_product_units_def wchar_bytes_def Stream_Write_def bindp_def)
  next
    case False
    with assms(1) Some obtain w where "utf8_to_utf16 env (take 32 str) = Some w"
      unfolding client_core_writable_def by blast
    with False Some show ?thesis by (simp add: client_product_units_def bindp_assoc)
  qed
  have "padded 32 ?us @ bs = wchar_bytes ?us @ replicate ((32 - length ?us) * 2) 0 @ bs" by (simp add: padded_def)
  moreover have "64 \<le> length (padded 32 ?us @ bs)" by (simp add: length_client_product)
  ultimately show ?thesis
    unfolding Some option.case Stream_Write_UTF16_String_From_UTF8_def bindp_assoc if_True body
    by (auto intro!: check emit_intros assms(2) simp: bindp_assoc)
qed

lemma emits_client_core:
  assumes "client_core_writable env st"
  shows "appends 366 (gcc_write_client_core_data env st) (enc_block CS_CORE (enc_client_core env st)) ()"
proof -
  have "unat (ConnectionType st) \<le> 255" using assms by (simp add: client_core_writable_def)
  have casts: "asserting_cast_u16 (DesktopWidth st) = ret (ucast (DesktopWidth st))"
    "asserting_cast_u16 (DesktopHeight st) = ret (ucast (DesktopHeight st))"
    using assms by (auto simp: client_core_writable_def intro: cast_u16_fits)
  have zero: "32 - length (client_name_units env st) * 2 = (16 - length (client_name_units env st)) * 2"
    using length_client_name [of env st] by (simp add: diff_mult_distrib)
  note lens = length_enc_client_core [of env st]
  show ?thesis
    unfolding gcc_write_client_core_data_def casts bindp_left zero early_client_caps high_color_ok
    apply (rule appends_more [OF appends_block [where bs = "enc_client_core env st"]])
      apply (unfold enc_client_core_def padded_def [of 16] append_assoc)[1]
      apply (intro emit_intros emits_product assms \<open>unat (ConnectionType st) \<le> 255\<close>;
        simp add: length_client_name length_client_product)
     apply (simp_all add: lens)
    done
qed

text \<open>What a server with settings \<open>st\<close> makes of the core data of a client with settings \<open>cl\<close>; \<open>host\<close> and
  \<open>pid\<close> are the converted host name and product id.\<close>

definition received_depth :: "rdpSettings \<Rightarrow> u32" where
  "received_depth cl = (if ColorDepth cl = 32 then 32 else ColorDepthToHighColor (ColorDepth cl))"

definition sane_keyboard :: "u32 \<Rightarrow> u32" where
  "sane_keyboard ty = (if ty \<in> {1, 2, 3, 4, 5, 6, 7, 8} then ty else 4)"

definition depth_applied :: "u32 \<Rightarrow> rdpSettings \<Rightarrow> rdpSettings" where
  "depth_applied d st = (if d < ColorDepth st \<or> \<not> ServerMode_s st then st\<lparr>ColorDepth := d\<rparr> else st)"

definition core_received :: "rdpSettings \<Rightarrow> u8 list \<Rightarrow> u8 list \<Rightarrow> rdpSettings \<Rightarrow> rdpSettings" where
  "core_received cl host pid st = client_caps_applied (client_caps_sent cl) (ConnectionType cl)
     (depth_applied (received_depth cl) (st\<lparr>RdpVersion := rdp_version_common (RdpVersion cl) (RdpVersion st),
        DesktopWidth := DesktopWidth cl, DesktopHeight := DesktopHeight cl,
        KeyboardLayout := KeyboardLayout cl, ClientBuild := ClientBuild cl, ClientHostname := Some host,
        KeyboardSubType := KeyboardSubType cl, KeyboardFunctionKey := KeyboardFunctionKey cl,
        KeyboardType := sane_keyboard (KeyboardType cl),
        SupportedColorDepths := SupportedColorDepths cl, EarlyCapabilityFlags := client_caps_sent cl,
        ClientProductId := Some pid,
        DesktopPhysicalWidth := DesktopPhysicalWidth cl, DesktopPhysicalHeight := DesktopPhysicalHeight cl,
        DesktopOrientation := DesktopOrientation cl, DesktopScaleFactor := DesktopScaleFactor cl,
        DeviceScaleFactor := DeviceScaleFactor cl, SelectedProtocol_s := SelectedProtocol_s cl\<rparr>))"

lemma sanitize_eq: "freerdp_settings_sanitize_keyboard_type st = st\<lparr>KeyboardType := sane_keyboard (KeyboardType st)\<rparr>"
  by (auto simp: freerdp_settings_sanitize_keyboard_type_def sane_keyboard_def)

lemma parses_Read_last: "length as = n \<Longrightarrow> parses (Stream_Read n) as ys as"
  using parses_Read [where k = ret, OF _ parses_ret] by (simp add: bindp_ret)

lemma hparses_utf16 [hparse_intros]:
  assumes "length as = w * 2" and "conv (takeWhile (\<lambda>w. w \<noteq> 0) (wchars as)) = Some str"
    and "hparses (k str) c bs ys x c'"
  shows "hparses (bindp (on_stream (Stream_Read_UTF16_String_As_UTF8_Buffer conv w)) k) c (as @ bs) ys x c'"
proof (rule hparses_call [where a = str])
  show "hparses (k str) c bs ys x c'" by (rule assms(3))
  have "parses (bindp (Stream_Read (w * 2)) (\<lambda>bs. case conv (takeWhile (\<lambda>w. w \<noteq> 0) (wchars bs)) of
      None \<Rightarrow> fail | Some str \<Rightarrow> ret str)) (as @ []) (bs @ ys) str"
    using assms(1) by (rule parses_Read) (simp add: assms(2) parses_ret)
  then show "parses (Stream_Read_UTF16_String_As_UTF8_Buffer conv w) as (bs @ ys) str"
    unfolding Stream_Read_UTF16_String_As_UTF8_Buffer_def by (intro parses_check) (simp_all add: assms(1))
qed

lemma hparses_set_string [hparse_intros]:
  "gr (length val + 1) \<Longrightarrow> hparses (k ()) (m, key (\<lambda>_. Some val) st) bs ys x c' \<Longrightarrow>
     hparses (bindp (on_settings (freerdp_settings_set_string gr key val)) k) (m, st) bs ys x c'"
  by (rule hparses_on_settings) (simp_all add: freerdp_settings_set_string_def)

lemma hparses_seek_1 [hparse_intros]:
  "hparses (k ()) c bs ys x c' \<Longrightarrow> hparses (bindp (on_stream (Stream_Seek 1)) k) c (b # bs) ys x c'"
  using hparses_seek [of "[b]" 1] by simp

lemma hparses_same_protocol [hparse_intros]:
  assumes "SelectedProtocol_s st = p" and "hparses (k ()) (m, st\<lparr>SelectedProtocol_s := p\<rparr>) bs ys x c'"
  shows "hparses (bindp (get_settings (\<lambda>st.
       if TransportDumpReplay_s st then set_settings (\<lambda>st. st\<lparr>SelectedProtocol_s := p\<rparr>)
       else require (\<not> SelectedProtocol_s st \<noteq> p))) k) (m, st) bs ys x c'"
proof -
  have eq: "st\<lparr>SelectedProtocol_s := p\<rparr> = st" using assms(1) by simp
  have k: "hparses (k ()) (m, st) bs ys x c'" using assms(2) by (simp only: eq)
  show ?thesis
  proof (rule hparses_step [where a = "()"])
    show "hparses (k ()) (m, st) bs ys x c'" by (rule k)
    fix s
    show "get_settings (\<lambda>st. if TransportDumpReplay_s st then set_settings (\<lambda>st. st\<lparr>SelectedProtocol_s := p\<rparr>)
        else require (\<not> SelectedProtocol_s st \<noteq> p)) ((m, st), s) = Ret () ((m, st), s)"
      using assms(1) by (simp add: get_settings_def set_settings_def on_state_def eq)
  qed
qed

lemma hparses_eq: "hparses h c bs ys x c1 \<Longrightarrow> c1 = c2 \<Longrightarrow> hparses h c bs ys x c2"
  by simp

lemma high_color_word:
  "0 < (ucast (ColorDepthToHighColor d) :: u16)" "ucast (ucast (ColorDepthToHighColor d) :: u16) = ColorDepthToHighColor d"
  by (simp_all add: ColorDepthToHighColor_def)

lemma received_depth:
  "client_color_depth cd pb (ucast (ColorDepthToHighColor (ColorDepth cl))) (client_caps_sent cl) =
     Some (received_depth cl)"
  by (simp add: client_color_depth_def high_color_word received_depth_def client_caps_sent_flags)

definition enc_client_core_optional :: "gcc_env \<Rightarrow> rdpSettings \<Rightarrow> u8 list" where
  "enc_client_core_optional env st =
     winpr_Data_Write_UINT16 RNS_UD_COLOR_8BPP @ winpr_Data_Write_UINT16 1 @ winpr_Data_Write_UINT32 0 @
     winpr_Data_Write_UINT16 (ucast (ColorDepthToHighColor (ColorDepth st))) @
     winpr_Data_Write_UINT16 (SupportedColorDepths st) @
     winpr_Data_Write_UINT16 (ucast (client_caps_sent st)) @
     padded 32 (client_product_units env st) @
     ucast (ConnectionType st) # 0 # winpr_Data_Write_UINT32 (SelectedProtocol_s st) @
     winpr_Data_Write_UINT32 (DesktopPhysicalWidth st) @ winpr_Data_Write_UINT32 (DesktopPhysicalHeight st) @
     winpr_Data_Write_UINT16 (DesktopOrientation st) @ winpr_Data_Write_UINT32 (DesktopScaleFactor st) @
     winpr_Data_Write_UINT32 (DeviceScaleFactor st)"

lemma hparses_client_core_optional:
  assumes "utf16_to_utf8 env (takeWhile (\<lambda>w. w \<noteq> 0) (client_product_units env' cl)) = Some pid"
    and "mem env (length pid + 1)" and "SelectedProtocol_s st = SelectedProtocol_s cl"
  shows "hparses (client_core_optional env) (m, st) (enc_client_core_optional env' cl) ys
     (RNS_UD_COLOR_8BPP, ucast (ColorDepthToHighColor (ColorDepth cl)), ucast (ConnectionType cl))
     (m, st\<lparr>SupportedColorDepths := SupportedColorDepths cl, EarlyCapabilityFlags := client_caps_sent cl,
        ClientProductId := Some pid,
        DesktopPhysicalWidth := DesktopPhysicalWidth cl, DesktopPhysicalHeight := DesktopPhysicalHeight cl,
        DesktopOrientation := DesktopOrientation cl, DesktopScaleFactor := DesktopScaleFactor cl,
        DeviceScaleFactor := DeviceScaleFactor cl, SelectedProtocol_s := SelectedProtocol_s cl\<rparr>)"
proof -
  note lens = length_client_product
  show ?thesis
    unfolding client_core_optional_def enc_client_core_optional_def bindp_assoc Let_def
    apply (rule hparses_eq, intro hparse_intros)
       apply (use assms(2) in \<open>simp_all add: lens wchars_padded assms client_caps_back\<close>)
    apply (rule hparses_ret)
    done
qed

lemma enc_client_core_split:
  "enc_client_core env st =
     winpr_Data_Write_UINT32 (RdpVersion st) @
     winpr_Data_Write_UINT16 (ucast (DesktopWidth st)) @ winpr_Data_Write_UINT16 (ucast (DesktopHeight st)) @
     winpr_Data_Write_UINT16 RNS_UD_COLOR_8BPP @ winpr_Data_Write_UINT16 RNS_UD_SAS_DEL @
     winpr_Data_Write_UINT32 (KeyboardLayout st) @ winpr_Data_Write_UINT32 (ClientBuild st) @
     padded 16 (client_name_units env st) @
     winpr_Data_Write_UINT32 (KeyboardType st) @ winpr_Data_Write_UINT32 (KeyboardSubType st) @
     winpr_Data_Write_UINT32 (KeyboardFunctionKey st) @ replicate 64 0 @ enc_client_core_optional env st @ []"
  by (simp add: enc_client_core_def enc_client_core_optional_def)

lemma length_enc_client_core_optional: "length (enc_client_core_optional env st) = 102"
  by (simp add: enc_client_core_optional_def length_client_product)

text \<open>What follows the optional fields, which have given the three depths and the connection type.\<close>

lemma hparses_core_depth:
  assumes flags: "EarlyCapabilityFlags st = client_caps_sent cl"
  shows "hparses (case (pb, ucast (ColorDepthToHighColor (ColorDepth cl)) :: u16, ct) of
       (postBeta2ColorDepth, highColorDepth, connectionType) \<Rightarrow> get_settings (\<lambda>st.
     case client_color_depth cd postBeta2ColorDepth highColorDepth (EarlyCapabilityFlags st) of
       None \<Rightarrow> fail
     | Some clientColorDepth \<Rightarrow>
         bindp (if clientColorDepth < ColorDepth st \<or> \<not> ServerMode_s st
                then set_settings (\<lambda>st. st\<lparr>ColorDepth := clientColorDepth\<rparr>) else ret ()) (\<lambda>_.
         updateEarlyClientCaps (EarlyCapabilityFlags st) (ucast (connectionType :: u8))))) (m, st) [] ys ()
     (m, client_caps_applied (client_caps_sent cl) (ucast ct) (depth_applied (received_depth cl) st))"
  unfolding prod.case
proof (rule hparses_get_settings(1), unfold flags received_depth option.case)
  show "hparses (bindp (if received_depth cl < ColorDepth st \<or> \<not> ServerMode_s st
         then set_settings (\<lambda>st. st\<lparr>ColorDepth := received_depth cl\<rparr>) else ret ()) (\<lambda>_.
     updateEarlyClientCaps (client_caps_sent cl) (ucast ct))) (m, st) [] ys ()
     (m, client_caps_applied (client_caps_sent cl) (ucast ct) (depth_applied (received_depth cl) st))"
    unfolding depth_applied_def updateEarlyClientCaps_def filter_caps_ok
    by (cases "received_depth cl < ColorDepth st \<or> \<not> ServerMode_s st"; simp only: if_True if_False)
       (intro hparse_intros)+
qed

lemma hparses_client_core:
  assumes "client_core_writable env' cl" and "DesktopWidth cl \<noteq> 0" and "DesktopHeight cl \<noteq> 0"
    and "utf16_to_utf8 env (takeWhile (\<lambda>w. w \<noteq> 0) (client_name_units env' cl)) = Some host"
    and "utf16_to_utf8 env (takeWhile (\<lambda>w. w \<noteq> 0) (client_product_units env' cl)) = Some pid"
    and "mem env (length host + 1)" and "mem env (length pid + 1)"
    and "SelectedProtocol_s st = SelectedProtocol_s cl"
  shows "hparses (gcc_read_client_core_data env) (m, st) (enc_client_core env' cl) [] () (m, core_received cl host pid st)"
proof -
  have sizes: "ucast (ucast (DesktopWidth cl) :: u16) = DesktopWidth cl" "ucast (ucast (DesktopHeight cl) :: u16) = DesktopHeight cl"
    "ucast (ucast (ConnectionType cl) :: u8) = ConnectionType cl"
    using assms(1) by (auto simp: client_core_writable_def bounds_defs intro!: ucast_u16_back ucast_byte_back)
  have host: "utf16_to_utf8 env (takeWhile (\<lambda>w. w \<noteq> 0) (wchars (padded 16 (client_name_units env' cl)))) = Some host"
    using assms(4) by (simp only: wchars_padded)
  show ?thesis
    unfolding gcc_read_client_core_data_def enc_client_core_split sanitize_eq core_received_def
    by (intro hparse_intros host hparses_bindp [OF hparses_client_core_optional [OF assms(5,7)]]
          hparses_core_depth [THEN hparses_eq])
       (use assms(6) in \<open>simp_all add: host length_client_name assms sizes length_enc_client_core_optional\<close>)
qed

end
