(* ===== verification/GccPeers.thy ===== *)
theory GccPeers
  imports GccBlocks
begin

text \<open>
  The blocks behind the core data: what each writer appends and what the reader of the other side makes
  of it, and the loops of the readers over a list of blocks.
\<close>

unbundle bit_operations_syntax

section \<open>Loops over arrays\<close>

text \<open>The first \<open>j\<close> elements of an array changed.\<close>

definition upd_first :: "(nat \<Rightarrow> 'a \<Rightarrow> 'a) \<Rightarrow> nat \<Rightarrow> 'a list \<Rightarrow> 'a list" where
  "upd_first f j xs = map (\<lambda>i. if i < j then f i (xs ! i) else xs ! i) [0..<length xs]"

lemma upd_first_sel [simp]:
  "length (upd_first f j xs) = length xs" "upd_first f 0 xs = xs"
  "i < length xs \<Longrightarrow> upd_first f j xs ! i = (if i < j then f i (xs ! i) else xs ! i)"
  by (simp_all add: upd_first_def map_nth)

lemma upd_first_Suc: "j < length xs \<Longrightarrow> (upd_first f j xs)[j := f j (xs ! j)] = upd_first f (Suc j) xs"
  by (rule nth_equalityI) (auto simp: nth_list_update)

lemma hparses_for_upto:
  assumes "\<And>j ys. j < n \<Longrightarrow> hparses (f (i + j)) (C j) (B j) ys () (C (Suc j))"
  shows "hparses (for_upto i n f) (C 0) (concat (map B [0..<n])) ys () (C n)"
proof -
  have "hparses (for_upto (i + k) m f) (C k) (concat (map B [k..<k + m])) ys () (C (k + m))" if "k + m \<le> n" for k m
    using that
  proof (induction m arbitrary: k)
    case 0
    show ?case by (simp add: hparses_ret)
  next
    case (Suc m)
    have up: "[k..<k + Suc m] = k # [Suc k..<Suc k + m]" by (simp add: upt_conv_Cons)
    have "hparses (for_upto (i + Suc k) m f) (C (Suc k)) (concat (map B [Suc k..<Suc k + m])) ys () (C (Suc k + m))"
      using Suc.IH [of "Suc k"] Suc.prems by (simp del: upt_Suc)
    then have "hparses (bindp (f (i + k)) (\<lambda>_. for_upto (Suc (i + k)) m f)) (C k)
       (B k @ concat (map B [Suc k..<Suc k + m])) ys () (C (k + Suc m))"
      by (intro hparses_bindp [OF assms]) (use Suc.prems in simp_all)
    then show ?case unfolding up by (simp del: upt_Suc)
  qed
  from this [of 0 n] show ?thesis by simp
qed

lemma emits_for_upto:
  assumes "\<And>j. j < n \<Longrightarrow> emits (f (i + j)) (B j) ()"
  shows "emits (for_upto i n f) (concat (map B [0..<n])) ()"
proof -
  have "emits (for_upto (i + k) m f) (concat (map B [k..<k + m])) ()" if "k + m \<le> n" for k m
    using that
  proof (induction m arbitrary: k)
    case 0
    show ?case by (simp add: emits_ret)
  next
    case (Suc m)
    have up: "[k..<k + Suc m] = k # [Suc k..<Suc k + m]" by (simp add: upt_conv_Cons)
    have "emits (for_upto (i + Suc k) m f) (concat (map B [Suc k..<Suc k + m])) ()"
      using Suc.IH [of "Suc k"] Suc.prems by (simp del: upt_Suc)
    then have "emits (bindp (f (i + k)) (\<lambda>_. for_upto (Suc (i + k)) m f)) (B k @ concat (map B [Suc k..<Suc k + m])) ()"
      by (intro emits_bindp [OF assms]) (use Suc.prems in simp_all)
    then show ?case unfolding up by (simp del: upt_Suc)
  qed
  from this [of 0 n] show ?thesis by simp
qed

lemma length_concat_upt: "(\<And>j. j < n \<Longrightarrow> length (B j) = w) \<Longrightarrow> length (concat (map B [0..<n])) = n * w"
  by (induction n) (simp_all add: add.commute)

section \<open>Cluster and security data\<close>

definition enc_client_cluster :: "rdpSettings \<Rightarrow> u8 list" where
  "enc_client_cluster st =
     winpr_Data_Write_UINT32 (client_cluster_flags st) @ winpr_Data_Write_UINT32 (RedirectedSessionId st)"

definition cluster_received :: "rdpSettings \<Rightarrow> rdpSettings \<Rightarrow> rdpSettings" where
  "cluster_received cl st =
     (let flags = client_cluster_flags cl; st = st\<lparr>ClusterInfoFlags := flags\<rparr>;
          st = (if has_flag flags REDIRECTED_SESSIONID_FIELD_VALID
                then st\<lparr>RedirectedSessionId := RedirectedSessionId cl\<rparr> else st)
      in st\<lparr>ConsoleSession := has_flag flags REDIRECTED_SESSIONID_FIELD_VALID,
            RedirectSmartCards := has_flag flags REDIRECTED_SMARTCARD\<rparr>)"

lemma appends_client_cluster:
  "appends 144 (gcc_write_client_cluster_data st) (enc_block CS_CLUSTER (enc_client_cluster st)) ()"
  unfolding gcc_write_client_cluster_data_def
  by (rule appends_more [OF appends_block [where bs = "enc_client_cluster st"]], unfold enc_client_cluster_def)
     (intro emit_intros, simp_all)

lemma hparses_client_cluster:
  "hparses gcc_read_client_cluster_data (m, st) (enc_client_cluster cl) [] () (m, cluster_received cl st)"
proof -
  have last: "hparses (on_stream (bindp Stream_GetRemainingLength (\<lambda>rem. if rem > 0 then Stream_Seek rem else ret ())))
     c [] [] () c" for c :: "rdpMcs \<times> rdpSettings"
    by (rule hparses_on_stream, rule parsesI)
       (use length_rest in \<open>fastforce simp: stream_defs wf_stream_def bindp_def\<close>)
  show ?thesis
    unfolding gcc_read_client_cluster_data_def enc_client_cluster_def
    by (rule hparses_eq, intro hparse_intros, simp, rule last) (simp add: cluster_received_def Let_def)
qed

definition enc_client_security :: "rdpSettings \<Rightarrow> u8 list" where
  "enc_client_security st =
     (if UseRdpSecurityLayer_s st
      then winpr_Data_Write_UINT32 (EncryptionMethods st) @ winpr_Data_Write_UINT32 0
      else winpr_Data_Write_UINT32 0 @ winpr_Data_Write_UINT32 (EncryptionMethods st))"

definition security_received :: "rdpSettings \<Rightarrow> rdpSettings \<Rightarrow> rdpSettings" where
  "security_received cl st =
     (if UseRdpSecurityLayer_s st then st\<lparr>EncryptionMethods := EncryptionMethods cl\<rparr> else st)"

lemma appends_client_security:
  "appends 144 (gcc_write_client_security_data st) (enc_block CS_SECURITY (enc_client_security st)) ()"
  unfolding gcc_write_client_security_data_def
  by (rule appends_more [OF appends_block [where bs = "enc_client_security st"]])
     (cases "UseRdpSecurityLayer_s st"; auto simp: enc_client_security_def intro!: emit_intros)+

text \<open>The two fields are one value: whichever of them the client has filled, the server takes.\<close>

lemma hparses_client_security:
  "hparses gcc_read_client_security_data (m, st) (enc_client_security cl) [] () (m, security_received cl st)"
proof -
  have none: "ENCRYPTION_METHOD_NONE = 0" by (simp add: ENCRYPTION_METHOD_NONE_def)
  have field: "hparses (bindp (read_setting Stream_Read_UINT32 (\<lambda>v st. st\<lparr>EncryptionMethods := v\<rparr>)) (\<lambda>_.
       get_settings (\<lambda>st.
       if EncryptionMethods st = ENCRYPTION_METHOD_NONE
       then read_setting Stream_Read_UINT32 (\<lambda>v st. st\<lparr>EncryptionMethods := v\<rparr>)
       else on_stream (Stream_Seek 4)))) (m, st) (winpr_Data_Write_UINT32 a @ winpr_Data_Write_UINT32 b) [] ()
     (m, st\<lparr>EncryptionMethods := if a = 0 then b else a\<rparr>)" for a b
  proof (rule hparses_read_setting(2), rule hparses_get_settings(1))
    show "hparses (if EncryptionMethods (st\<lparr>EncryptionMethods := a\<rparr>) = ENCRYPTION_METHOD_NONE
       then read_setting Stream_Read_UINT32 (\<lambda>v st. st\<lparr>EncryptionMethods := v\<rparr>)
       else on_stream (Stream_Seek 4)) (m, st\<lparr>EncryptionMethods := a\<rparr>) (winpr_Data_Write_UINT32 b) [] ()
       (m, st\<lparr>EncryptionMethods := if a = 0 then b else a\<rparr>)"
    proof (cases "a = 0")
      case True
      then show ?thesis by (simp add: none hparses_read_setting_last [THEN hparses_eq])
    next
      case False
      then show ?thesis by (simp add: none hparses_on_stream [OF parses_seek])
    qed
  qed
  have two: "hparses gcc_read_client_security_data (m, st) (winpr_Data_Write_UINT32 a @ winpr_Data_Write_UINT32 b) [] ()
     (m, if UseRdpSecurityLayer_s st then st\<lparr>EncryptionMethods := if a = 0 then b else a\<rparr> else st)" for a b
    unfolding gcc_read_client_security_data_def
  proof (rule hparses_check, simp, rule hparses_get_settings(1), cases "UseRdpSecurityLayer_s st")
    case True
    show "hparses (if UseRdpSecurityLayer_s st then
         bindp (read_setting Stream_Read_UINT32 (\<lambda>v st. st\<lparr>EncryptionMethods := v\<rparr>)) (\<lambda>_.
         get_settings (\<lambda>st. if EncryptionMethods st = ENCRYPTION_METHOD_NONE
           then read_setting Stream_Read_UINT32 (\<lambda>v st. st\<lparr>EncryptionMethods := v\<rparr>)
           else on_stream (Stream_Seek 4))) else on_stream (Stream_Seek 8))
       (m, st) (winpr_Data_Write_UINT32 a @ winpr_Data_Write_UINT32 b) [] ()
       (m, if UseRdpSecurityLayer_s st then st\<lparr>EncryptionMethods := if a = 0 then b else a\<rparr> else st)"
      unfolding if_P [OF True] by (rule field)
  next
    case False
    then show "hparses (if UseRdpSecurityLayer_s st then
         bindp (read_setting Stream_Read_UINT32 (\<lambda>v st. st\<lparr>EncryptionMethods := v\<rparr>)) (\<lambda>_.
         get_settings (\<lambda>st. if EncryptionMethods st = ENCRYPTION_METHOD_NONE
           then read_setting Stream_Read_UINT32 (\<lambda>v st. st\<lparr>EncryptionMethods := v\<rparr>)
           else on_stream (Stream_Seek 4))) else on_stream (Stream_Seek 8))
       (m, st) (winpr_Data_Write_UINT32 a @ winpr_Data_Write_UINT32 b) [] ()
       (m, if UseRdpSecurityLayer_s st then st\<lparr>EncryptionMethods := if a = 0 then b else a\<rparr> else st)"
      by (simp add: hparses_on_stream [OF parses_seek])
  qed
  have zero: "(if e = 0 then 0 else e) = e" for e :: u32 by simp
  show ?thesis
    using two [of "EncryptionMethods cl" 0, unfolded zero] two [of 0 "EncryptionMethods cl"]
    by (auto simp: enc_client_security_def security_received_def split: if_splits)
qed

section \<open>Network data\<close>

definition enc_channel_def :: "rdpMcsChannel \<Rightarrow> u8 list" where
  "enc_channel_def ch = Name ch @ winpr_Data_Write_UINT32 (options ch)"

definition named_channels :: "rdpMcs \<Rightarrow> bool" where
  "named_channels m \<longleftrightarrow> channelCount m \<le> CHANNEL_MAX_COUNT \<and> length (channels m) = 31 \<and>
     (\<forall>ch \<in> set (channels m). length (Name ch) = 8 \<and> 0 \<in> set (Name ch))"

definition enc_client_network :: "rdpMcs \<Rightarrow> u8 list" where
  "enc_client_network m = winpr_Data_Write_UINT32 (channelCount m) @
     concat (map (\<lambda>i. enc_channel_def (channels m ! i)) [0..<unat (channelCount m)])"

lemma named_channelsD:
  assumes "named_channels m" and "i < unat (channelCount m)"
  shows "i < length (channels m)" "length (Name (channels m ! i)) = 8" "0 \<in> set (Name (channels m ! i))"
proof -
  have "unat (channelCount m) \<le> 31"
    using assms(1) by (simp add: named_channels_def CHANNEL_MAX_COUNT_def word_le_nat_alt)
  with assms show i: "i < length (channels m)" by (simp add: named_channels_def)
  with assms(1) have "channels m ! i \<in> set (channels m)" by simp
  with assms(1) show "length (Name (channels m ! i)) = 8" "0 \<in> set (Name (channels m ! i))"
    by (auto simp: named_channels_def)
qed

lemma named_channels_count: "named_channels m \<Longrightarrow> unat (channelCount m) \<le> 31"
  by (simp add: named_channels_def CHANNEL_MAX_COUNT_def word_le_nat_alt)

lemma length_enc_client_network:
  "named_channels m \<Longrightarrow> length (enc_client_network m) = 4 + unat (channelCount m) * 12"
  unfolding enc_client_network_def
  by (simp add: length_concat_upt [where w = 12] named_channelsD enc_channel_def_def)

lemma emits_channel_def:
  assumes "named_channels m" and "i < unat (channelCount m)"
  shows "emits (write_channel_def m i) (enc_channel_def (channels m ! i)) ()"
  unfolding write_channel_def_def enc_channel_def_def
  by (rule emits_assert, rule named_channelsD(1) [OF assms])
     (use named_channelsD [OF assms] in \<open>auto simp: CHANNEL_NAME_LEN_def intro!: emit_intros\<close>)

lemma appends_client_network:
  assumes "named_channels m"
  shows "appends 512 (gcc_write_client_network_data m)
     (if channelCount m > 0 then enc_block CS_NET (enc_client_network m) else []) ()"
proof (cases "channelCount m > 0")
  case False
  then show ?thesis
    using appends_more [OF appends_ret, of 512 "()"] by (simp add: gcc_write_client_network_data_def)
next
  case True
  have n: "unat (channelCount m) \<le> 31" by (rule named_channels_count [OF assms])
  have len: "unat (channelCount m * 12 + 8) = 8 + unat (channelCount m) * 12"
    using n by (simp add: unat_word_ariths)
  have body: "emits (bindp (Stream_Write_UINT32_unchecked (channelCount m)) (\<lambda>_.
      for_upto 0 (unat (channelCount m)) (write_channel_def m))) (enc_client_network m) ()"
    unfolding enc_client_network_def
    by (intro emit_intros emits_for_upto) (simp add: emits_channel_def [OF assms])
  have size: "unat (of_nat (8 + unat (channelCount m) * 12) :: u16) = 8 + unat (channelCount m) * 12"
    using n by (simp only: unat_of_nat, intro mod_less) simp
  show ?thesis
    unfolding gcc_write_client_network_data_def if_P [OF True] Let_def len
    by (rule appends_assert, use n in \<open>simp add: bounds_defs\<close>)
       (rule appends_more [OF appends_block [OF body]],
        use n length_enc_client_network [OF assms] size in \<open>simp_all\<close>)
qed

text \<open>The server takes the channels over and numbers them from its base.\<close>

definition channel_received :: "rdpMcs \<Rightarrow> u16 \<Rightarrow> nat \<Rightarrow> rdpMcsChannel \<Rightarrow> rdpMcsChannel" where
  "channel_received cl base i ch = ch\<lparr>Name := Name (channels cl ! i), options := options (channels cl ! i),
     ChannelId := base + of_nat i\<rparr>"

definition channels_taken :: "rdpMcs \<Rightarrow> nat \<Rightarrow> rdpMcs \<Rightarrow> rdpMcs" where
  "channels_taken cl n m = m\<lparr>channelCount := channelCount cl,
     channels := upd_first (channel_received cl (baseChannelId m)) n (channels m),
     baseChannelId := baseChannelId m + of_nat n\<rparr>"

definition network_received :: "rdpMcs \<Rightarrow> rdpMcs \<Rightarrow> rdpMcs" where
  "network_received cl m = channels_taken cl (unat (channelCount cl)) m"

lemma hparses_channel_def:
  assumes "named_channels cl" and "j < unat (channelCount cl)" and "length (channels m) = 31"
  shows "hparses (read_channel_def j) (channels_taken cl j m, st) (enc_channel_def (channels cl ! j)) ys ()
     (channels_taken cl (Suc j) m, st)"
proof -
  note ch = named_channelsD [OF assms(1,2)]
  have j: "j < length (channels m)" using ch(1) assms(1,3) by (simp add: named_channels_def)
  have up: "(upd_first (channel_received cl (baseChannelId m)) j (channels m))[j := (channels m ! j)\<lparr>
      Name := Name (channels cl ! j), options := options (channels cl ! j), ChannelId := baseChannelId m + of_nat j\<rparr>] =
      upd_first (channel_received cl (baseChannelId m)) (Suc j) (channels m)"
    using upd_first_Suc [OF j, of "channel_received cl (baseChannelId m)"] by (simp add: channel_received_def)
  show ?thesis
    unfolding read_channel_def_def enc_channel_def_def
    by (rule hparses_eq, intro hparse_intros)
       (use ch j in \<open>simp_all add: CHANNEL_NAME_LEN_def channels_taken_def up hparses_set_rdpMcs_last [THEN hparses_eq]\<close>)
qed

lemma hparses_client_network:
  assumes cl: "named_channels cl" and m: "length (channels m) = 31"
  shows "hparses gcc_read_client_network_data (m, st) (enc_client_network cl) [] () (network_received cl m, st)"
proof -
  have n: "unat (channelCount cl) \<le> 31" by (rule named_channels_count [OF cl])
  let ?n = "unat (channelCount cl)" and ?B = "\<lambda>i. enc_channel_def (channels cl ! i)"
  have len: "length (concat (map ?B [0..<?n])) = ?n * 12"
    by (rule length_concat_upt) (simp add: enc_channel_def_def named_channelsD [OF cl])
  have "hparses (for_upto 0 ?n read_channel_def) (channels_taken cl 0 m, st) (concat (map ?B [0..<?n])) [] ()
     (channels_taken cl ?n m, st)"
    by (rule hparses_for_upto [where C = "\<lambda>j. (channels_taken cl j m, st)"])
       (simp add: hparses_channel_def [OF cl _ m])
  moreover have "channels_taken cl 0 m = m\<lparr>channelCount := channelCount cl\<rparr>"
    by (simp add: channels_taken_def)
  ultimately have loop: "hparses (for_upto 0 ?n read_channel_def) (m\<lparr>channelCount := channelCount cl\<rparr>, st)
     (concat (map ?B [0..<?n])) [] () (network_received cl m, st)"
    by (simp add: network_received_def)
  have "\<not> channelCount cl > CHANNEL_MAX_COUNT" using cl by (simp add: named_channels_def not_less)
  then show ?thesis
    unfolding gcc_read_client_network_data_def enc_client_network_def
    by (intro hparse_intros loop) (simp_all add: len)
qed

text \<open>The way back: the ids.\<close>

definition enc_server_network :: "rdpMcs \<Rightarrow> u8 list" where
  "enc_server_network m = winpr_Data_Write_UINT16 MCS_GLOBAL_CHANNEL_ID @
     winpr_Data_Write_UINT16 (ucast (channelCount m)) @
     concat (map (\<lambda>i. winpr_Data_Write_UINT16 (ChannelId (channels m ! i))) [0..<unat (channelCount m)]) @
     (if unat (channelCount m) mod 2 = 1 then winpr_Data_Write_UINT16 0 else [])"

lemma length_enc_server_network:
  "length (enc_server_network m) = 4 + unat (channelCount m) * 2 + (if unat (channelCount m) mod 2 = 1 then 2 else 0)"
  unfolding enc_server_network_def by (simp add: length_concat_upt [where w = 2])

lemma emits_channel_ids:
  assumes "unat (channelCount m) \<le> length (channels m)" and "unat (channelCount m) \<le> 31"
  shows "emits (bindp (Stream_Write_UINT16_unchecked MCS_GLOBAL_CHANNEL_ID) (\<lambda>_.
     bindp (asserting_cast_u16 (channelCount m)) (\<lambda>count.
     bindp (Stream_Write_UINT16_unchecked count) (\<lambda>_.
     bindp (for_upto 0 (unat (channelCount m)) (write_channel_id m)) (\<lambda>_.
     if unat (channelCount m) mod 2 = 1 then Stream_Write_UINT16_unchecked 0 else ret ()))))) (enc_server_network m) ()"
proof -
  have cast: "asserting_cast_u16 (channelCount m) = ret (ucast (channelCount m))"
    using assms(2) by (intro cast_u16_fits) (simp add: bounds_defs)
  have ids: "emits (for_upto 0 (unat (channelCount m)) (write_channel_id m))
     (concat (map (\<lambda>i. winpr_Data_Write_UINT16 (ChannelId (channels m ! i))) [0..<unat (channelCount m)])) ()"
    by (rule emits_for_upto) (use assms(1) in \<open>auto simp: write_channel_id_def intro!: emit_intros\<close>)
  show ?thesis
    unfolding enc_server_network_def cast bindp_left
    by (cases "unat (channelCount m) mod 2 = 1"; simp only: if_True if_False append_Nil2)
       (intro emit_intros emits_bindp [OF ids]; simp add: bindp_ret ids)+
qed

lemma appends_server_network:
  assumes "unat (channelCount m) \<le> length (channels m)" and "unat (channelCount m) \<le> 31"
  shows "appends 208 (gcc_write_server_network_data m) (enc_block SC_NET (enc_server_network m)) ()"
proof -
  let ?n = "unat (channelCount m)"
  let ?len = "8 + ?n * 2 + (if ?n mod 2 = 1 then 2 else 0)"
  have small: "?len \<le> 72" using assms(2) by simp
  have size: "unat (of_nat ?len :: u16) = ?len"
    using small by (simp only: unat_of_nat, intro mod_less) simp
  have fits: "unat (of_nat ?len :: u16) = 4 + length (enc_server_network m)"
    using size length_enc_server_network [of m] by linarith
  have grow: "unat (of_nat ?len :: u16) + 132 \<le> 208" using size small by linarith
  show ?thesis
    unfolding gcc_write_server_network_data_def Let_def
  proof (rule appends_assert)
    show "?len \<le> UINT16_MAX" using small by (simp add: bounds_defs)
    show "appends 208 (bindp (gcc_write_user_data_header SC_NET (of_nat ?len)) (\<lambda>_.
        bindp (Stream_Write_UINT16_unchecked MCS_GLOBAL_CHANNEL_ID) (\<lambda>_.
        bindp (asserting_cast_u16 (channelCount m)) (\<lambda>count.
        bindp (Stream_Write_UINT16_unchecked count) (\<lambda>_.
        bindp (for_upto 0 ?n (write_channel_id m)) (\<lambda>_.
        if ?n mod 2 = 1 then Stream_Write_UINT16_unchecked 0 else ret ())))))) (enc_block SC_NET (enc_server_network m)) ()"
      by (rule appends_more [OF appends_block [OF emits_channel_ids [OF assms] fits] grow])
  qed
qed

lemma parses_safe_seek: "length bs = n \<Longrightarrow> parses (Stream_SafeSeek n) bs ys ()"
  unfolding Stream_SafeSeek_def by (intro parse_intros parses_seek) simp_all

text \<open>The client's channels with the ids of the server.\<close>

definition ids_received :: "rdpMcs \<Rightarrow> rdpMcs \<Rightarrow> rdpMcs" where
  "ids_received sv m = m\<lparr>IOChannelId := MCS_GLOBAL_CHANNEL_ID, channelCount := channelCount sv,
     channels := upd_first (\<lambda>i ch. ch\<lparr>ChannelId := ChannelId (channels sv ! i)\<rparr>) (unat (channelCount sv)) (channels m)\<rparr>"

lemma hparses_server_network:
  assumes sv: "unat (channelCount sv) \<le> 31" and m: "length (channels m) = 31" "channelMaxCount m = 31"
  shows "hparses gcc_read_server_network_data (m, st) (enc_server_network sv) [] () (ids_received sv m, st)"
proof -
  let ?n = "unat (channelCount sv)" and ?B = "\<lambda>i. winpr_Data_Write_UINT16 (ChannelId (channels sv ! i))"
  let ?f = "\<lambda>i ch. ch\<lparr>ChannelId := ChannelId (channels sv ! i)\<rparr>"
  let ?m = "m\<lparr>IOChannelId := MCS_GLOBAL_CHANNEL_ID, channelCount := channelCount sv\<rparr>"
  let ?C = "\<lambda>j. (?m\<lparr>channels := upd_first ?f j (channels m)\<rparr>, st)"
  have count: "ucast (ucast (channelCount sv) :: u16) = channelCount sv"
    using sv by (intro ucast_u16_back) simp
  have un: "unat (ucast (channelCount sv) :: u16) = ?n"
    using sv by (simp add: unsigned_ucast_eq take_bit_nat_eq_self_iff)
  have len: "length (concat (map ?B [0..<?n])) = ?n * 2" by (rule length_concat_upt) simp
  have step: "hparses (read_channel_id j) (?C j) (?B j) ys () (?C (Suc j))" if "j < ?n" for j ys
  proof -
    have j: "j < length (channels m)" using that sv m(1) by simp
    show ?thesis
      unfolding read_channel_id_def
      by (rule hparses_last, unfold bindp_assoc, rule hparses_eq, intro hparse_intros)
         (use j upd_first_Suc [OF j, of ?f] in \<open>simp_all add: hparses_ret\<close>)
  qed
  have loop: "hparses (for_upto 0 ?n read_channel_id) (?m, st) (concat (map ?B [0..<?n])) ys () (ids_received sv m, st)" for ys
    using hparses_for_upto [where C = ?C and i = 0 and B = ?B and n = ?n and f = read_channel_id] step
    by (simp add: ids_received_def)
  have big: "\<not> channelMaxCount m < channelCount sv"
    using sv m(2) by (simp add: not_less word_le_nat_alt)
  have same: "(if c \<noteq> channelCount m' then m'\<lparr>channelCount := c\<rparr> else m') = m'\<lparr>channelCount := c\<rparr>" for c m'
    by simp
  have "unat ((ucast (channelCount sv) :: u16) mod 2) = ?n mod 2" by (simp add: unat_mod_distrib un)
  then have odd: "(ucast (channelCount sv) :: u16) mod 2 = 1 \<longleftrightarrow> ?n mod 2 = 1"
    by (simp add: word_eq_iff_unsigned [where 'a = nat])
  have last: "hparses (if (ucast (channelCount sv) :: u16) mod 2 = 1 then on_stream (Stream_SafeSeek 2) else ret ())
     c (if ?n mod 2 = 1 then winpr_Data_Write_UINT16 0 else []) [] () c" for c :: "rdpMcs \<times> rdpSettings"
    using parses_safe_seek [of "winpr_Data_Write_UINT16 0" 2 "[]"]
    by (simp only: odd) (auto intro: hparses_on_stream hparses_ret)
  have loop': "hparses (for_upto 0 (unat (ucast (channelCount sv) :: u16)) read_channel_id)
     (m\<lparr>IOChannelId := MCS_GLOBAL_CHANNEL_ID, channelCount := ucast (ucast (channelCount sv) :: u16)\<rparr>, st)
     (concat (map ?B [0..<?n])) ys () (ids_received sv m, st)" for ys
    unfolding un count by (rule loop)
  show ?thesis
    unfolding gcc_read_server_network_data_def enc_server_network_def same
    by (intro hparse_intros hparses_bindp [OF loop'] last) (simp_all add: count un len big)
qed

section \<open>Message channel and multitransport\<close>

definition message_received :: "rdpMcs \<Rightarrow> rdpMcs \<Rightarrow> rdpMcs" where
  "message_received cl m = m\<lparr>mcs_flags := mcs_flags cl, messageChannelId := baseChannelId m,
     baseChannelId := baseChannelId m + 1\<rparr>"

definition wants_messages :: "rdpSettings \<Rightarrow> bool" where
  "wants_messages st \<longleftrightarrow> NetworkAutoDetect st \<or> SupportHeartbeatPdu st \<or> SupportMultitransport st"

lemma appends_client_message:
  "appends 140 (gcc_write_client_message_channel_data m st)
     (if wants_messages st then enc_block CS_MCS_MSGCHANNEL (winpr_Data_Write_UINT32 (mcs_flags m)) else []) ()"
proof (cases "wants_messages st")
  case True
  show ?thesis
    unfolding gcc_write_client_message_channel_data_def if_P [OF True] if_P [OF True [unfolded wants_messages_def]]
    by (rule appends_more [OF appends_block [where bs = "winpr_Data_Write_UINT32 (mcs_flags m)"]])
       (intro emit_intros, simp_all)
next
  case False
  then show ?thesis using appends_more [OF appends_ret, of 140 "()"]
    by (simp add: gcc_write_client_message_channel_data_def wants_messages_def)
qed

lemma hparses_client_message:
  "hparses gcc_read_client_message_channel_data (m, st) (winpr_Data_Write_UINT32 (mcs_flags cl)) [] ()
     (message_received cl m, st)"
  unfolding gcc_read_client_message_channel_data_def
  by (intro hparse_intros) (simp_all add: message_received_def hparses_set_rdpMcs_last [THEN hparses_eq])

lemma appends_server_message:
  "appends 138 (gcc_write_server_message_channel_data m)
     (if messageChannelId m = 0 then [] else enc_block SC_MCS_MSGCHANNEL (winpr_Data_Write_UINT16 (messageChannelId m))) ()"
proof (cases "messageChannelId m = 0")
  case False
  show ?thesis
    unfolding gcc_write_server_message_channel_data_def if_not_P [OF False]
    by (rule appends_more [OF appends_block [where bs = "winpr_Data_Write_UINT16 (messageChannelId m)"]])
       (intro emit_intros, simp_all)
next
  case True
  then show ?thesis using appends_more [OF appends_ret, of 138 "()"]
    by (simp add: gcc_write_server_message_channel_data_def)
qed

lemma hparses_server_message:
  "hparses gcc_read_server_message_channel_data (m, st) (winpr_Data_Write_UINT16 ch) [] () (m\<lparr>messageChannelId := ch\<rparr>, st)"
  unfolding gcc_read_server_message_channel_data_def
  by (intro hparse_intros) (simp_all add: hparses_set_rdpMcs_last [THEN hparses_eq])

lemma appends_multitransport:
  "appends 140 (gcc_write_client_multitransport_channel_data st)
     (enc_block CS_MULTITRANSPORT (winpr_Data_Write_UINT32 (MultitransportFlags st))) ()"
  "appends 140 (gcc_write_server_multitransport_channel_data st)
     (enc_block SC_MULTITRANSPORT (winpr_Data_Write_UINT32 (MultitransportFlags st))) ()"
  unfolding gcc_write_client_multitransport_channel_data_def gcc_write_server_multitransport_channel_data_def
  by (rule appends_more [OF appends_block [where bs = "winpr_Data_Write_UINT32 (MultitransportFlags st)"]],
      intro emit_intros, simp_all)+

lemma hparses_multitransport:
  "hparses read_multitransport (m, st) (winpr_Data_Write_UINT32 flags) [] ()
     (m, st\<lparr>MultitransportFlags := MultitransportFlags st AND flags\<rparr>)"
  unfolding read_multitransport_def
  by (intro hparse_intros) (simp_all add: hparses_set_settings_last [THEN hparses_eq])

section \<open>Monitors\<close>

text \<open>The position of a monitor relative to the primary one.\<close>

definition relative :: "u32 \<times> u32 \<Rightarrow> rdpMonitor \<Rightarrow> rdpMonitor" where
  "relative base mo = mo\<lparr>mon_x := mon_x mo - fst base, mon_y := mon_y mo - snd base\<rparr>"

text \<open>A span along one axis whose end is a signed word.\<close>

definition span_ok :: "u32 \<Rightarrow> u32 \<Rightarrow> bool" where
  "span_ok at width \<longleftrightarrow> 1 \<le> sint width \<and> sint at + sint width \<le> 2 ^ 31"

lemma span_end: "span_ok at width \<Longrightarrow> sint (at + width - 1) = sint at + sint width - 1"
proof -
  assume ok: "span_ok at width"
  have "at + width - 1 = word_of_int (sint at + sint width - 1)" by simp
  moreover have "- (2 ^ 31) \<le> sint at + sint width - 1" "sint at + sint width - 1 < 2 ^ 31"
    using ok sint_greater_eq [of at] by (simp_all add: span_ok_def)
  ultimately show ?thesis
    by (simp only: signed_of_int) (simp add: signed_take_bit_int_eq_self)
qed

definition enc_monitor :: "u32 \<times> u32 \<Rightarrow> rdpMonitor \<Rightarrow> u8 list" where
  "enc_monitor base mo = (let r = relative base mo in
     winpr_Data_Write_UINT32 (mon_x r) @ winpr_Data_Write_UINT32 (mon_y r) @
     winpr_Data_Write_UINT32 (mon_x r + mon_width r - 1) @ winpr_Data_Write_UINT32 (mon_y r + mon_height r - 1) @
     winpr_Data_Write_UINT32 (if is_primary mo then MONITOR_PRIMARY else 0))"

definition enc_client_monitors :: "rdpSettings \<Rightarrow> u8 list" where
  "enc_client_monitors st = winpr_Data_Write_UINT32 (MonitorFlags st) @ winpr_Data_Write_UINT32 (MonitorCount st) @
     concat (map (\<lambda>i. enc_monitor (monitor_base st) (MonitorDefArray st ! i)) [0..<unat (MonitorCount st)])"

lemma length_enc_monitors: "length (enc_client_monitors st) = 8 + unat (MonitorCount st) * 20"
  unfolding enc_client_monitors_def
  by (simp add: length_concat_upt [where w = 20] enc_monitor_def Let_def)

lemma emits_monitor:
  "i < length (MonitorDefArray st) \<Longrightarrow> emits (write_monitor base st i) (enc_monitor base (MonitorDefArray st ! i)) ()"
  unfolding write_monitor_def enc_monitor_def Let_def relative_def
  by (rule emits_assert) (auto intro!: emit_intros)

lemma appends_client_monitors:
  assumes n: "unat (MonitorCount st) \<le> 16" and len: "unat (MonitorCount st) \<le> length (MonitorDefArray st)"
  shows "appends 472 (gcc_write_client_monitor_data st)
     (if MonitorCount st > 1 then enc_block CS_MONITOR (enc_client_monitors st) else []) ()"
proof (cases "MonitorCount st > 1")
  case False
  then show ?thesis using appends_more [OF appends_ret, of 472 "()"] by (simp add: gcc_write_client_monitor_data_def)
next
  case True
  let ?n = "unat (MonitorCount st)"
  have eq: "unat (20 * MonitorCount st + 12) = ?n * 20 + 12"
    using n by (simp add: unat_word_ariths)
  have body: "emits (bindp (Stream_Write_UINT32_unchecked (MonitorFlags st)) (\<lambda>_.
      bindp (Stream_Write_UINT32_unchecked (MonitorCount st)) (\<lambda>_.
      for_upto 0 ?n (write_monitor (monitor_base st) st)))) (enc_client_monitors st) ()"
    unfolding enc_client_monitors_def
    by (intro emit_intros emits_for_upto) (use len in \<open>simp add: emits_monitor\<close>)
  have size: "unat (of_nat (?n * 20 + 12) :: u16) = ?n * 20 + 12"
    using n by (simp only: unat_of_nat, intro mod_less) simp
  show ?thesis
    unfolding gcc_write_client_monitor_data_def if_P [OF True] Let_def eq
    by (rule appends_assert, use n in \<open>simp add: bounds_defs\<close>)
       (rule appends_more [OF appends_block [OF body]], use n length_enc_monitors [of st] size in \<open>simp_all\<close>)
qed

definition monitor_received :: "rdpSettings \<Rightarrow> nat \<Rightarrow> rdpMonitor \<Rightarrow> rdpMonitor" where
  "monitor_received cl i mo = (let r = relative (monitor_base cl) (MonitorDefArray cl ! i) in
     mo\<lparr>mon_x := mon_x r, mon_y := mon_y r, mon_width := mon_width r, mon_height := mon_height r,
        is_primary := is_primary r\<rparr>)"

definition monitors_placed :: "rdpSettings \<Rightarrow> bool" where
  "monitors_placed st \<longleftrightarrow> unat (MonitorCount st) \<le> 16 \<and> unat (MonitorCount st) \<le> length (MonitorDefArray st) \<and>
     (\<forall>i < unat (MonitorCount st). let r = relative (monitor_base st) (MonitorDefArray st ! i) in
        span_ok (mon_x r) (mon_width r) \<and> span_ok (mon_y r) (mon_height r))"

definition monitors_taken :: "rdpSettings \<Rightarrow> nat \<Rightarrow> rdpSettings \<Rightarrow> rdpSettings" where
  "monitors_taken cl n st = st\<lparr>MonitorFlags := MonitorFlags cl, MonitorCount := MonitorCount cl,
     MonitorDefArray := upd_first (monitor_received cl) n (MonitorDefArray st)\<rparr>"

lemma hparses_monitor:
  assumes "monitors_placed cl" and "j < unat (MonitorCount cl)" and j: "j < length (MonitorDefArray st)"
  shows "hparses (read_monitor j) (m, monitors_taken cl j st) (enc_monitor (monitor_base cl) (MonitorDefArray cl ! j)) ys ()
     (m, monitors_taken cl (Suc j) st)"
proof -
  define r where "r = relative (monitor_base cl) (MonitorDefArray cl ! j)"
  have ok: "span_ok (mon_x r) (mon_width r)" "span_ok (mon_y r) (mon_height r)"
    using assms(1,2) by (auto simp: monitors_placed_def r_def Let_def)
  have small: "sint (mon_width r) < 2 ^ 31" "sint (mon_height r) < 2 ^ 31"
    using sint_lt [of "mon_width r"] sint_lt [of "mon_height r"] by simp_all
  have prim: "has_flag (if b then MONITOR_PRIMARY else 0) MONITOR_PRIMARY = b" for b
    by (simp add: has_flag_def MONITOR_PRIMARY_def)
  have up: "(upd_first (monitor_received cl) j (MonitorDefArray st))[j := (MonitorDefArray st ! j)\<lparr>
      mon_x := mon_x r, mon_y := mon_y r, mon_width := mon_width r, mon_height := mon_height r,
      is_primary := is_primary (MonitorDefArray cl ! j)\<rparr>] = upd_first (monitor_received cl) (Suc j) (MonitorDefArray st)"
    using upd_first_Suc [OF j, of "monitor_received cl"] by (simp add: monitor_received_def r_def Let_def relative_def)
  show ?thesis
    unfolding read_monitor_def enc_monitor_def r_def [symmetric] Let_def
    by (rule hparses_last, unfold bindp_assoc, rule hparses_eq, intro hparse_intros)
       (use ok small j up in \<open>simp_all add: span_end span_ok_def prim INT32_MAX_def monitors_taken_def hparses_ret\<close>)
qed

definition holds_monitors :: "rdpSettings \<Rightarrow> rdpSettings \<Rightarrow> bool" where
  "holds_monitors cl st \<longleftrightarrow> MonitorCount cl \<le> MonitorDefArraySize st \<and>
     unat (MonitorCount cl) \<le> length (MonitorDefArray st)"

lemma hparses_client_monitors:
  assumes cl: "monitors_placed cl" and st: "holds_monitors cl st"
  shows "hparses gcc_read_client_monitor_data (m, st) (enc_client_monitors cl) [] ()
     (m, monitors_taken cl (unat (MonitorCount cl)) st)"
proof -
  let ?n = "unat (MonitorCount cl)" and ?B = "\<lambda>i. enc_monitor (monitor_base cl) (MonitorDefArray cl ! i)"
  have loop: "hparses (for_upto 0 ?n read_monitor) (m, monitors_taken cl 0 st) (concat (map ?B [0..<?n])) [] ()
     (m, monitors_taken cl ?n st)"
    by (rule hparses_for_upto [where C = "\<lambda>j. (m, monitors_taken cl j st)"])
       (use st in \<open>simp add: hparses_monitor [OF cl] holds_monitors_def\<close>)
  have zero: "monitors_taken cl 0 st = st\<lparr>MonitorFlags := MonitorFlags cl, MonitorCount := MonitorCount cl\<rparr>"
    by (simp add: monitors_taken_def)
  have few: "\<not> MonitorCount cl > 16" "\<not> MonitorCount cl > MonitorDefArraySize st"
    using cl st by (auto simp: monitors_placed_def holds_monitors_def word_less_nat_alt word_le_nat_alt not_less)
  have len: "length (concat (map ?B [0..<?n])) = ?n * 20"
    by (rule length_concat_upt) (simp add: enc_monitor_def Let_def)
  show ?thesis
    unfolding gcc_read_client_monitor_data_def enc_client_monitors_def
    by (intro hparse_intros loop [unfolded zero])
       (use few in \<open>simp_all add: len loop [unfolded zero] hparse_intros\<close>)
qed

text \<open>The attributes, in the second block.\<close>

definition enc_attributes :: "MONITOR_ATTRIBUTES \<Rightarrow> u8 list" where
  "enc_attributes a = winpr_Data_Write_UINT32 (physicalWidth a) @ winpr_Data_Write_UINT32 (physicalHeight a) @
     winpr_Data_Write_UINT32 (orientation a) @ winpr_Data_Write_UINT32 (desktopScaleFactor a) @
     winpr_Data_Write_UINT32 (deviceScaleFactor a)"

definition enc_client_attributes :: "rdpSettings \<Rightarrow> u8 list" where
  "enc_client_attributes st = winpr_Data_Write_UINT32 (MonitorAttributeFlags st) @ winpr_Data_Write_UINT32 20 @
     winpr_Data_Write_UINT32 (MonitorCount st) @
     concat (map (\<lambda>i. enc_attributes (attributes (MonitorDefArray st ! i))) [0..<unat (MonitorCount st)])"

lemma length_enc_attributes: "length (enc_client_attributes st) = 12 + unat (MonitorCount st) * 20"
  unfolding enc_client_attributes_def
  by (simp add: length_concat_upt [where w = 20] enc_attributes_def)

lemma emits_attributes:
  "i < length (MonitorDefArray st) \<Longrightarrow>
     emits (write_monitor_attributes st i) (enc_attributes (attributes (MonitorDefArray st ! i))) ()"
  unfolding write_monitor_attributes_def enc_attributes_def Let_def
  by (rule emits_assert) (auto intro!: emit_intros)

lemma appends_client_attributes:
  assumes n: "unat (MonitorCount st) \<le> 16" and len: "unat (MonitorCount st) \<le> length (MonitorDefArray st)"
  shows "appends 472 (gcc_write_client_monitor_extended_data st)
     (if HasMonitorAttributes st then enc_block CS_MONITOR_EX (enc_client_attributes st) else []) ()"
proof (cases "HasMonitorAttributes st")
  case False
  then show ?thesis using appends_more [OF appends_ret, of 472 "()"]
    by (simp add: gcc_write_client_monitor_extended_data_def)
next
  case True
  let ?n = "unat (MonitorCount st)"
  have eq: "unat (20 * MonitorCount st + 16) = ?n * 20 + 16"
    using n by (simp add: unat_word_ariths)
  have body: "emits (bindp (Stream_Write_UINT32_unchecked (MonitorAttributeFlags st)) (\<lambda>_.
      bindp (Stream_Write_UINT32_unchecked 20) (\<lambda>_.
      bindp (Stream_Write_UINT32_unchecked (MonitorCount st)) (\<lambda>_.
      for_upto 0 ?n (write_monitor_attributes st))))) (enc_client_attributes st) ()"
    unfolding enc_client_attributes_def
    by (intro emit_intros emits_for_upto) (use len in \<open>simp add: emits_attributes\<close>)
  have size: "unat (of_nat (?n * 20 + 16) :: u16) = ?n * 20 + 16"
    using n by (simp only: unat_of_nat, intro mod_less) simp
  show ?thesis
    unfolding gcc_write_client_monitor_extended_data_def if_P [OF True] Let_def eq
    by (rule appends_assert, use n in \<open>simp add: bounds_defs\<close>)
       (rule appends_more [OF appends_block [OF body]], use n length_enc_attributes [of st] size in \<open>simp_all\<close>)
qed

definition attributes_taken :: "rdpSettings \<Rightarrow> nat \<Rightarrow> rdpSettings \<Rightarrow> rdpSettings" where
  "attributes_taken cl n st = st\<lparr>MonitorAttributeFlags := MonitorAttributeFlags cl, HasMonitorAttributes := True,
     MonitorDefArray := upd_first (\<lambda>i mo. mo\<lparr>attributes := attributes (MonitorDefArray cl ! i)\<rparr>) n (MonitorDefArray st)\<rparr>"

lemma hparses_client_attributes:
  assumes n: "unat (MonitorCount cl) \<le> 16" and count: "MonitorCount st = MonitorCount cl"
    and arr: "unat (MonitorCount cl) \<le> length (MonitorDefArray st)"
  shows "hparses gcc_read_client_monitor_extended_data (m, st) (enc_client_attributes cl) [] ()
     (m, attributes_taken cl (unat (MonitorCount cl)) st)"
proof -
  let ?n = "unat (MonitorCount cl)" and ?B = "\<lambda>i. enc_attributes (attributes (MonitorDefArray cl ! i))"
  let ?f = "\<lambda>i mo. mo\<lparr>attributes := attributes (MonitorDefArray cl ! i)\<rparr>"
  have step: "hparses (read_monitor_attributes j) (m, attributes_taken cl j st) (?B j) ys () (m, attributes_taken cl (Suc j) st)"
    if "j < ?n" for j ys
  proof -
    have j: "j < length (MonitorDefArray st)" using that arr by simp
    have eta: "\<lparr>physicalWidth = physicalWidth a, physicalHeight = physicalHeight a, orientation = orientation a,
       desktopScaleFactor = desktopScaleFactor a, deviceScaleFactor = deviceScaleFactor a\<rparr> = a" for a by simp
    show ?thesis
      unfolding read_monitor_attributes_def enc_attributes_def
      by (rule hparses_last, unfold bindp_assoc, rule hparses_eq, intro hparse_intros)
         (use j upd_first_Suc [OF j, of ?f] in \<open>simp_all add: attributes_taken_def hparses_ret eta\<close>)
  qed
  have loop: "hparses (for_upto 0 ?n read_monitor_attributes) (m, attributes_taken cl 0 st) (concat (map ?B [0..<?n])) [] ()
     (m, attributes_taken cl ?n st)"
    by (rule hparses_for_upto [where C = "\<lambda>j. (m, attributes_taken cl j st)"]) (simp add: step)
  have zero: "attributes_taken cl 0 st = st\<lparr>MonitorAttributeFlags := MonitorAttributeFlags cl, HasMonitorAttributes := True\<rparr>"
    by (simp add: attributes_taken_def)
  have len: "length (concat (map ?B [0..<?n])) = ?n * 20"
    by (rule length_concat_upt) (simp add: enc_attributes_def)
  show ?thesis
    unfolding gcc_read_client_monitor_extended_data_def enc_client_attributes_def
    by (intro hparse_intros loop [unfolded zero])
       (use count in \<open>simp_all add: len loop [unfolded zero] hparse_intros\<close>)
qed

end
