(* ===== verification/GccExchange.thy ===== *)
theory GccExchange
  imports GccPeers
begin

text \<open>
  The conference create request and response end to end: the blocks a client sends, the loop in which the
  server reads them, the answer of the server, and what the two have agreed on afterwards.
\<close>

unbundle bit_operations_syntax

section \<open>The loops\<close>

type_synonym blocks = "(u16 \<times> u8 list) list"

definition enc_blocks :: "blocks \<Rightarrow> u8 list" where
  "enc_blocks bl = concat (map (\<lambda>(ty, bs). enc_block ty bs) bl)"

lemma enc_blocks_simps [simp]:
  "enc_blocks [] = []" "enc_blocks ((ty, bs) # bl) = enc_block ty bs @ enc_blocks bl"
  "enc_blocks (bl @ bl') = enc_blocks bl @ enc_blocks bl'"
  by (simp_all add: enc_blocks_def)

text \<open>Every block is read to its end, in the state the blocks before it have left.\<close>

fun blocks_run :: "(u16 \<Rightarrow> unit gcc_handler) \<Rightarrow> rdpMcs \<times> rdpSettings \<Rightarrow> blocks \<Rightarrow> rdpMcs \<times> rdpSettings \<Rightarrow> bool" where
  "blocks_run h c [] c' = (c = c')"
| "blocks_run h c ((ty, bs) # bl) c' = (\<exists>c1. hparses (h ty) c bs [] () c1 \<and> blocks_run h c1 bl c')"

lemma blocks_run_append:
  "blocks_run h c (bl @ bl') c' \<longleftrightarrow> (\<exists>c1. blocks_run h c bl c1 \<and> blocks_run h c1 bl' c')"
  by (induction h c bl c' rule: blocks_run.induct) (auto simp: Let_def)

lemma hparses_block_header:
  assumes "4 + length bs \<le> UINT16_MAX" and "length bs \<le> length as + length ys"
    and "hparses (k (ty, of_nat (4 + length bs))) c as ys x c'"
  shows "hparses (bindp (on_stream gcc_read_user_data_header) k) c
     (winpr_Data_Write_UINT16 ty @ winpr_Data_Write_UINT16 (of_nat (4 + length bs)) @ as) ys x c'"
proof -
  have un: "unat (of_nat (4 + length bs) :: u16) = 4 + length bs"
    using assms(1) by (simp only: unat_of_nat, intro mod_less) (simp add: bounds_defs)
  have "parses gcc_read_user_data_header (winpr_Data_Write_UINT16 ty @ winpr_Data_Write_UINT16 (of_nat (4 + length bs)))
     (as @ ys) (ty, of_nat (4 + length bs))"
    unfolding gcc_read_user_data_header_def
    by (intro parse_intros) (use un assms(2) in \<open>simp_all add: parse_intros del: of_nat_add\<close>)
  from hparses_call [where k = k, OF this assms(3)] show ?thesis by simp
qed

lemma hparses_block_bytes:
  assumes "hparses (k bs) c (bs @ as) ys x c'" and "length bs = n"
  shows "hparses (bindp (on_stream (block_bytes n)) k) c (bs @ as) ys x c'"
proof (rule hparses_step [where a = bs])
  fix s :: wStream
  assume r: "rest s = (bs @ as) @ ys"
  have "take n (drop (pointer s) (buffer s)) = bs"
    by (subst drop_buffer) (simp add: r assms(2))
  then show "on_stream (block_bytes n) (c, s) = Ret bs (c, s)" by (simp add: on_stream_def block_bytes_def)
qed (rule assms(1))

lemma hparses_client_blocks:
  assumes "blocks_run (client_block env) c bl c'" and "length (enc_blocks bl) \<le> UINT16_MAX" and "length bl \<le> fuel"
  shows "hparses (client_blocks fuel env got (of_nat (length (enc_blocks bl)))) c (enc_blocks bl) ys
     (got \<or> (\<exists>(ty, bs) \<in> set bl. ty = 0xC009 \<or> ty = CS_MULTITRANSPORT)) c'"
  using assms
proof (induction bl arbitrary: c fuel got)
  case Nil
  then show ?case by (cases fuel) (simp_all add: hparses_ret)
next
  case (Cons b bl)
  obtain ty bs where b: "b = (ty, bs)" by (cases b)
  obtain c1 where c1: "hparses (client_block env ty) c bs [] () c1" and bl: "blocks_run (client_block env) c1 bl c'"
    using Cons.prems(1) by (auto simp: b)
  obtain fuel' where fuel: "fuel = Suc fuel'" "length bl \<le> fuel'" using Cons.prems(3) by (cases fuel) auto
  let ?n = "4 + length bs" and ?r = "length (enc_blocks bl)"
  have small: "?n + ?r \<le> UINT16_MAX" using Cons.prems(2) by (simp add: b)
  have un: "unat (of_nat k :: u16) = k" if "k \<le> UINT16_MAX" for k
    using that by (simp only: unat_of_nat, intro mod_less) (simp add: bounds_defs)
  have len: "(of_nat (?n + ?r) :: u16) > 0" "\<not> (of_nat ?n :: u16) > of_nat (?n + ?r)"
    "(of_nat (?n + ?r) :: u16) - of_nat ?n = of_nat ?r"
    using small un [of "?n + ?r"] un [of ?n]
    by (simp_all add: word_less_nat_alt not_less word_le_nat_alt del: of_nat_add) (simp add: of_nat_add)
  have IH: "hparses (client_blocks fuel' env (got \<or> ty = 0xC009 \<or> ty = CS_MULTITRANSPORT) (of_nat ?r)) c1
     (enc_blocks bl) ys ((got \<or> ty = 0xC009 \<or> ty = CS_MULTITRANSPORT) \<or>
        (\<exists>(ty, bs) \<in> set bl. ty = 0xC009 \<or> ty = CS_MULTITRANSPORT)) c'"
    by (rule Cons.IH [OF bl]) (use small fuel in simp_all)
  have n: "unat (of_nat ?n :: u16) - 4 = length bs" using un [of ?n] small by simp
  have total: "length (enc_blocks ((ty, bs) # bl)) = ?n + ?r" by simp
  have rest: "(if (of_nat ?n :: u16) > of_nat (?n + ?r) then 0 else of_nat (?n + ?r) - of_nat ?n) = (of_nat ?r :: u16)"
    using len by simp
  have got: "(got \<or> (\<exists>(ty, bs) \<in> set ((ty, bs) # bl). ty = 0xC009 \<or> ty = CS_MULTITRANSPORT)) =
     ((got \<or> ty = 0xC009 \<or> ty = CS_MULTITRANSPORT) \<or> (\<exists>(ty, bs) \<in> set bl. ty = 0xC009 \<or> ty = CS_MULTITRANSPORT))"
    by auto
  show ?case
    unfolding b total fuel client_blocks.simps if_P [OF len(1)] got
    unfolding enc_blocks_simps enc_block_def append_assoc
  proof (rule hparses_block_header, unfold prod.case Let_def n rest)
    show "hparses (bindp (on_stream (Stream_CheckAndLogRequiredLength (length bs))) (\<lambda>_.
       bindp (on_stream (block_bytes (length bs))) (\<lambda>bytes.
       bindp (on_stream (Stream_Seek (length bs))) (\<lambda>_.
       bindp (on_block bytes (client_block env ty)) (\<lambda>_.
       client_blocks fuel' env (got \<or> ty = 0xC009 \<or> ty = CS_MULTITRANSPORT) (of_nat ?r))))))
       c (bs @ enc_blocks bl) ys ((got \<or> ty = 0xC009 \<or> ty = CS_MULTITRANSPORT) \<or>
        (\<exists>(ty, bs) \<in> set bl. ty = 0xC009 \<or> ty = CS_MULTITRANSPORT)) c'"
      by (intro hparses_check hparses_block_bytes hparses_seek hparses_on_block [OF c1] IH)
         (use small in \<open>simp_all add: bounds_defs\<close>)
  qed (use small in simp_all)
qed

lemma length_blocks: "length bl \<le> length (enc_blocks bl)"
  by (induction bl) (auto simp: enc_blocks_def)

lemma hparses_client_data_blocks:
  assumes "blocks_run (client_block env) c bl (m, st)" and "length (enc_blocks bl) \<le> UINT16_MAX"
  shows "hparses (gcc_read_client_data_blocks env (of_nat (length (enc_blocks bl)))) c (enc_blocks bl) ys ()
     (m, if \<exists>(ty, bs) \<in> set bl. ty = 0xC009 \<or> ty = CS_MULTITRANSPORT then st
         else st\<lparr>SupportMultitransport := False, MultitransportFlags := 0\<rparr>)"
proof -
  have un: "unat (of_nat (length (enc_blocks bl)) :: u16) = length (enc_blocks bl)"
    using assms(2) by (simp only: unat_of_nat, intro mod_less) (simp add: bounds_defs)
  let ?got = "\<exists>(ty, bs) \<in> set bl. ty = 0xC009 \<or> ty = CS_MULTITRANSPORT"
  let ?k = "\<lambda>got. if \<not> got
      then set_settings (\<lambda>st. st\<lparr>SupportMultitransport := False, MultitransportFlags := 0\<rparr>) else ret ()"
  have "hparses (client_blocks (unat (of_nat (length (enc_blocks bl)) :: u16)) env False (of_nat (length (enc_blocks bl)))) c
     (enc_blocks bl) ([] @ ys) (False \<or> ?got) (m, st)"
    by (rule hparses_client_blocks [OF assms]) (simp add: un length_blocks)
  moreover have "hparses (?k (False \<or> ?got)) (m, st) [] ys ()
     (m, if ?got then st else st\<lparr>SupportMultitransport := False, MultitransportFlags := 0\<rparr>)"
    using hparses_set_settings_last [where f = "\<lambda>st. st\<lparr>SupportMultitransport := False, MultitransportFlags := 0\<rparr>"]
    by (cases ?got) (auto simp: hparses_ret)
  ultimately have "hparses (gcc_read_client_data_blocks env (of_nat (length (enc_blocks bl)))) c (enc_blocks bl @ []) ys ()
     (m, if ?got then st else st\<lparr>SupportMultitransport := False, MultitransportFlags := 0\<rparr>)"
    unfolding gcc_read_client_data_blocks_def by (rule hparses_bindp [where k = ?k])
  then show ?thesis by simp
qed

lemma hparses_server_blocks:
  assumes "blocks_run (server_block env) c bl c'" and "off + length (enc_blocks bl) \<le> UINT16_MAX" and "length bl \<le> fuel"
  shows "hparses (server_blocks fuel env (of_nat off) (of_nat (off + length (enc_blocks bl)))) c (enc_blocks bl) ys () c'"
  using assms
proof (induction bl arbitrary: c fuel off)
  case Nil
  then show ?case by (cases fuel) (simp_all add: hparses_ret)
next
  case (Cons b bl)
  obtain ty bs where b: "b = (ty, bs)" by (cases b)
  obtain c1 where c1: "hparses (server_block env ty) c bs [] () c1" and bl: "blocks_run (server_block env) c1 bl c'"
    using Cons.prems(1) by (auto simp: b)
  obtain fuel' where fuel: "fuel = Suc fuel'" "length bl \<le> fuel'" using Cons.prems(3) by (cases fuel) auto
  let ?n = "4 + length bs" and ?r = "length (enc_blocks bl)"
  have small: "off + (?n + ?r) \<le> UINT16_MAX" using Cons.prems(2) by (simp add: b)
  have un: "unat (of_nat k :: u16) = k" if "k \<le> UINT16_MAX" for k
    using that by (simp only: unat_of_nat, intro mod_less) (simp add: bounds_defs)
  have more: "(of_nat off :: u16) < of_nat (off + (?n + ?r))"
    using small un [of off] un [of "off + (?n + ?r)"] by (simp add: word_less_nat_alt del: of_nat_add)
  have IH: "hparses (server_blocks fuel' env (of_nat (off + ?n)) (of_nat ((off + ?n) + ?r))) c1 (enc_blocks bl) ys () c'"
    by (rule Cons.IH [OF bl]) (use small fuel in simp_all)
  have n: "unat (of_nat ?n :: u16) - 4 = length bs" using un [of ?n] small by simp
  have off: "(of_nat off :: u16) + of_nat ?n = of_nat (off + ?n)" "off + (?n + ?r) = (off + ?n) + ?r" by simp_all
  have total: "length (enc_blocks ((ty, bs) # bl)) = ?n + ?r" by simp
  show ?case
    unfolding b total fuel server_blocks.simps if_P [OF more]
    unfolding enc_blocks_simps enc_block_def append_assoc
  proof (rule hparses_block_header, unfold prod.case Let_def n off)
    show "hparses (bindp (on_stream (block_bytes (length bs))) (\<lambda>bytes.
       bindp (on_stream (Stream_SafeSeek (length bs))) (\<lambda>_.
       bindp (on_block bytes (server_block env ty)) (\<lambda>_.
       server_blocks fuel' env (of_nat (off + ?n)) (of_nat ((off + ?n) + ?r)))))) c (bs @ enc_blocks bl) ys () c'"
      by (intro hparses_block_bytes hparses_call [OF parses_safe_seek] hparses_on_block [OF c1] IH)
         (use small in \<open>simp_all add: bounds_defs\<close>)
  qed (use small in simp_all)
qed

lemma hparses_server_data_blocks:
  assumes "blocks_run (server_block env) c bl c'" and "length (enc_blocks bl) \<le> UINT16_MAX"
  shows "hparses (gcc_read_server_data_blocks env (of_nat (length (enc_blocks bl)))) c (enc_blocks bl) ys () c'"
proof (rule hparsesI)
  fix s assume s: "wf_stream s" "rest s = enc_blocks bl @ ys"
  have "length bl \<le> slength s + 1"
    using length_blocks [of bl] length_rest [OF s(1)] s(2) by simp
  from hparsesD [OF hparses_server_blocks [where off = 0, OF assms(1) _ this] s] assms(2)
  show "gcc_read_server_data_blocks env (of_nat (length (enc_blocks bl))) (c, s) = Ret () (c', adv (length (enc_blocks bl)) s)"
    by (simp add: gcc_read_server_data_blocks_def)
qed

section \<open>The conference PDUs\<close>

definition enc_create_request :: "u8 list \<Rightarrow> u8 list" where
  "enc_create_request userData =
     [0] @ enc_per_oid t124_02_98_oid @ enc_per_length (of_nat (length userData) + 14) @ [0, 0x08, 0, 0x10, 0, 1, 0xC0] @
     enc_per_octet_string 4 h221_cs_key @ enc_per_octet_string 0 userData"

definition enc_create_response :: "u8 list \<Rightarrow> u8 list" where
  "enc_create_response userData =
     [0] @ enc_per_oid t124_02_98_oid @ enc_per_length 0x2A @ [0x14] @ enc_per_integer16 1001 0x79F3 @
     enc_per_integer 1 @ [0, 1, 0xC0] @ enc_per_octet_string 4 h221_sc_key @ enc_per_octet_string 0 userData"

lemma emits_digit: "emits (per_write_numeric_string [0x31] 1) [0, 0x10] ()"
proof -
  have len: "length [0x31 :: u8] = 1" by simp
  have "enc_per_length (per_mlength 1 1) = [0]" "per_numeric_pair 0x31 0x30 = 0x10"
    by (simp_all add: per_mlength_def enc_per_length_def per_numeric_pair_def)
  moreover have "emits (per_write_numeric_string [0x31] 1)
     (enc_per_length (per_mlength 1 1) @ [per_numeric_pair 0x31 0x30]) ()"
    unfolding per_write_numeric_string_def per_write_numeric_pairs.simps bindp_assoc
    by (subst len, rule emits_per_length, rule emits_ensure, simp, rule emits_require, simp, rule emits_u8)
       (simp add: bounds_defs emits_ret)
  ultimately show ?thesis by simp
qed

lemma parses_digit: "parses (per_read_numeric_string 1) [0, 0x10] ys ()"
proof -
  have "parses (per_read_numeric_string 1) (enc_per_length 0 @ [0x10]) ys ()"
    unfolding per_read_numeric_string_def Let_def
    by (intro parse_intros parses_seek) (simp_all add: per_length_valid_def)
  then show ?thesis by (simp add: enc_per_length_def)
qed

lemma emits_create_request:
  assumes "length userData \<le> UINT16_MAX - 14"
  shows "emits (gcc_write_conference_create_request userData) (enc_create_request userData) ()"
proof -
  have "emits (gcc_write_conference_create_request userData)
     (0 # enc_per_oid t124_02_98_oid @ enc_per_length (of_nat (length userData) + 14) @ 0 # 0x08 # [0, 0x10] @
      replicate (unat (1 :: u16)) 0 @ 1 # 0xC0 # enc_per_octet_string 4 h221_cs_key @ enc_per_octet_string 0 userData) ()"
    unfolding gcc_write_conference_create_request_def
    by (intro emits_choice emits_bindp [OF emits_per_oid] emits_assert emits_per_length emits_selection
      emits_bindp [OF emits_digit] emits_padding emits_number_of_sets emits_bindp [OF emits_per_octet_string]
      emits_per_octet_string) (use assms in simp_all)
  then show ?thesis by (simp add: enc_create_request_def)
qed

lemma emits_create_response:
  assumes "length userData \<le> UINT16_MAX"
  shows "emits (gcc_write_conference_create_response userData) (enc_create_response userData) ()"
proof -
  have "emits (gcc_write_conference_create_response userData)
     (0 # enc_per_oid t124_02_98_oid @ enc_per_length 0x2A @ 0x14 # enc_per_integer16 1001 0x79F3 @
      enc_per_integer 1 @ 0 # 1 # 0xC0 # enc_per_octet_string 4 h221_sc_key @ enc_per_octet_string 0 userData) ()"
    unfolding gcc_write_conference_create_response_def
    by (intro emits_choice emits_bindp [OF emits_per_oid] emits_assert emits_per_length emits_per_integer16
      emits_per_integer emits_enumerated emits_number_of_sets emits_bindp [OF emits_per_octet_string]
      emits_per_octet_string) (use assms in simp_all)
  then show ?thesis by (simp add: enc_create_response_def)
qed

text \<open>The readers take the header and the length of the user data; the conference length is not looked at.\<close>

lemma parses_octets_header:
  assumes "length os < 0x8000"
  shows "parses per_read_length (enc_per_length (per_mlength (length os) 0)) ys (of_nat (length os))"
  using parses_per_length [of "of_nat (length os)"] assms
  by (simp add: per_mlength_def per_length_valid_def word_less_nat_alt unat_of_nat)

lemma parses_request_header:
  assumes "length userData < 0x8000 - 14"
  shows "\<exists>hd. enc_create_request userData = hd @ userData \<and>
     (\<forall>ys. parses create_request_header hd ys (of_nat (length userData)))"
proof (intro exI conjI allI)
  let ?hd = "0 # enc_per_oid t124_02_98_oid @ enc_per_length (of_nat (length userData) + 14) @ 0 # 0x08 # [0, 0x10] @
      [0] @ 1 # 0xC0 # enc_per_octet_string 4 h221_cs_key @ enc_per_length (per_mlength (length userData) 0)"
  show "enc_create_request userData = ?hd @ userData"
    by (simp add: enc_create_request_def enc_per_octet_string_def [of 0])
  fix ys
  have valid: "per_oid_valid t124_02_98_oid" "per_octet_string_valid 4 h221_cs_key"
    "per_length_valid (of_nat (length userData) + 14)"
    using assms by (simp_all add: per_oid_valid_def t124_02_98_oid_def per_octet_string_valid_def h221_cs_key_def
        per_length_valid_def word_less_nat_alt unat_word_ariths unat_of_nat)
  show "parses create_request_header ?hd ys (of_nat (length userData))"
    unfolding create_request_header_def
    by (intro parse_intros parses_bindp [OF parses_digit] parses_bindp [OF parses_per_oid]
        parses_bindp [OF parses_per_octet_string] parses_octets_header valid)
       (use assms in simp_all)
qed

lemma parses_response_header:
  assumes "length userData < 0x8000"
  shows "\<exists>hd. enc_create_response userData = hd @ userData \<and>
     (\<forall>ys. parses create_response_header hd ys (of_nat (length userData)))"
proof (intro exI conjI allI)
  let ?hd = "0 # enc_per_oid t124_02_98_oid @ enc_per_length 0x2A @ 0x14 # enc_per_integer16 1001 0x79F3 @
      enc_per_integer 1 @ 0 # 1 # 0xC0 # enc_per_octet_string 4 h221_sc_key @ enc_per_length (per_mlength (length userData) 0)"
  show "enc_create_response userData = ?hd @ userData"
    by (simp add: enc_create_response_def enc_per_octet_string_def [of 0])
  fix ys
  have valid: "per_oid_valid t124_02_98_oid" "per_octet_string_valid 4 h221_sc_key"
    "per_length_valid 0x2A" "per_integer_valid 1" "(1001 :: u16) \<le> 0x79F3" "unat (0 :: u8) < unat MCS_Result_enum_length"
    by (simp_all add: per_oid_valid_def t124_02_98_oid_def per_octet_string_valid_def h221_sc_key_def
        per_length_valid_def per_integer_valid_def MCS_Result_enum_length_def)
  show "parses create_response_header ?hd ys (of_nat (length userData))"
    unfolding create_response_header_def
    by (intro parse_intros parses_bindp [OF parses_per_oid]
        parses_bindp [OF parses_per_octet_string] parses_octets_header valid)
       (use assms in simp_all)
qed

section \<open>The data of a client\<close>

definition monitor_parts :: "rdpSettings \<Rightarrow> blocks" where
  "monitor_parts st =
     (if MonitorCount st > 1 then [(CS_MONITOR, enc_client_monitors st)] else []) @
     (if HasMonitorAttributes st then [(CS_MONITOR_EX, enc_client_attributes st)] else [])"

definition sends_monitors :: "rdpSettings \<Rightarrow> bool" where
  "sends_monitors st \<longleftrightarrow> UseMultimon st \<and> \<not> SpanMonitors st \<and> (has_flag (NegotiationFlags st) 1 \<or> ForceMultimon st)"

definition extended_parts :: "rdpMcs \<Rightarrow> rdpSettings \<Rightarrow> blocks" where
  "extended_parts m st = (if has_flag (NegotiationFlags st) 1
     then (if wants_messages st then [(CS_MCS_MSGCHANNEL, winpr_Data_Write_UINT32 (mcs_flags m))] else []) @
          [(CS_MULTITRANSPORT, winpr_Data_Write_UINT32 (MultitransportFlags st))] else [])"

definition client_parts :: "gcc_env \<Rightarrow> rdpMcs \<Rightarrow> rdpSettings \<Rightarrow> blocks" where
  "client_parts env m st =
     [(CS_CORE, enc_client_core env st), (CS_CLUSTER, enc_client_cluster st), (CS_SECURITY, enc_client_security st)] @
     (if channelCount m > 0 then [(CS_NET, enc_client_network m)] else []) @
     (if sends_monitors st then monitor_parts st else []) @ extended_parts m st"

definition client_sendable :: "gcc_env \<Rightarrow> rdpMcs \<Rightarrow> rdpSettings \<Rightarrow> bool" where
  "client_sendable env m st \<longleftrightarrow> client_core_writable env st \<and> named_channels m \<and> monitors_placed st"

lemma appends_monitor_parts:
  assumes "monitors_placed st"
  shows "appends 944 (bindp (gcc_write_client_monitor_data st) (\<lambda>_. gcc_write_client_monitor_extended_data st))
     (enc_blocks (monitor_parts st)) ()"
proof -
  have n: "unat (MonitorCount st) \<le> 16" "unat (MonitorCount st) \<le> length (MonitorDefArray st)"
    using assms by (auto simp: monitors_placed_def)
  have "enc_blocks (monitor_parts st) =
     (if MonitorCount st > 1 then enc_block CS_MONITOR (enc_client_monitors st) else []) @
     (if HasMonitorAttributes st then enc_block CS_MONITOR_EX (enc_client_attributes st) else [])"
    by (simp add: monitor_parts_def)
  then show ?thesis
    using appends_bindp [where K = "\<lambda>_. gcc_write_client_monitor_extended_data st",
      OF appends_client_monitors [OF n] appends_client_attributes [OF n]] by simp
qed

lemma appends_nothing: "appends k (ret ()) [] ()"
  by (rule appends_more [OF appends_ret]) simp

lemma appends_client_data:
  assumes "client_sendable env m st"
  shows "appends 2400 (gcc_write_client_data_blocks env m st) (enc_blocks (client_parts env m st)) ()"
proof -
  note ok = assms [unfolded client_sendable_def, THEN conjunct1]
    assms [unfolded client_sendable_def, THEN conjunct2, THEN conjunct1]
    assms [unfolded client_sendable_def, THEN conjunct2, THEN conjunct2]
  have net: "enc_blocks (if channelCount m > 0 then [(CS_NET, enc_client_network m)] else []) =
     (if channelCount m > 0 then enc_block CS_NET (enc_client_network m) else [])" by simp
  have ext: "appends 280 (bindp (gcc_write_client_message_channel_data m st) (\<lambda>_. gcc_write_client_multitransport_channel_data st))
     (enc_blocks (extended_parts m st)) ()" if "has_flag (NegotiationFlags st) 1"
    using appends_bindp [where K = "\<lambda>_. gcc_write_client_multitransport_channel_data st",
        OF appends_client_message [of m st] appends_multitransport(1)] that
    by (cases "wants_messages st") (simp_all add: extended_parts_def)
  have tail: "appends 1224
     (if has_flag (NegotiationFlags st) 1 then
       bindp (if UseMultimon st \<and> \<not> SpanMonitors st then
                bindp (gcc_write_client_monitor_data st) (\<lambda>_. gcc_write_client_monitor_extended_data st)
              else ret ()) (\<lambda>_.
       bindp (gcc_write_client_message_channel_data m st) (\<lambda>_.
       gcc_write_client_multitransport_channel_data st))
     else if UseMultimon st \<and> \<not> SpanMonitors st \<and> ForceMultimon st then
       bindp (gcc_write_client_monitor_data st) (\<lambda>_. gcc_write_client_monitor_extended_data st)
     else ret ()) (enc_blocks ((if sends_monitors st then monitor_parts st else []) @ extended_parts m st)) ()"
  proof (cases "has_flag (NegotiationFlags st) 1")
    case True
    have "appends 944 (if UseMultimon st \<and> \<not> SpanMonitors st then
                bindp (gcc_write_client_monitor_data st) (\<lambda>_. gcc_write_client_monitor_extended_data st)
              else ret ()) (enc_blocks (if sends_monitors st then monitor_parts st else [])) ()"
      using True appends_monitor_parts [OF ok(3)] appends_nothing by (simp add: sends_monitors_def)
    from appends_bindp [where K = "\<lambda>_. bindp (gcc_write_client_message_channel_data m st) (\<lambda>_.
        gcc_write_client_multitransport_channel_data st)", OF this ext [OF True]] True
    show ?thesis by simp
  next
    case False
    then have "extended_parts m st = []" by (simp add: extended_parts_def)
    with False show ?thesis
      using appends_more [OF appends_monitor_parts [OF ok(3)], of 1224] appends_nothing
      by (simp add: sends_monitors_def)
  qed
  show ?thesis
    unfolding gcc_write_client_data_blocks_def client_parts_def enc_blocks_simps(3) net append_assoc
    apply (rule appends_more)
     apply (simp only: enc_blocks_simps append_assoc append_Nil)
     apply (rule appends_bindp [OF emits_client_core [OF ok(1)]] appends_bindp [OF appends_client_cluster]
        appends_bindp [OF appends_client_security] appends_bindp [OF appends_client_network [OF ok(2)]]
        tail [unfolded enc_blocks_simps])+
    apply simp
    done
qed

section \<open>The server reads them\<close>

lemma client_block_runs:
  assumes "hparses h c bs [] () c'"
  shows "hparses (bindp h (\<lambda>_. bindp (on_stream Stream_GetRemainingLength) (\<lambda>rem. ret ()))) c bs [] () c'"
  using hparses_bindp [where bs = "[]" and ys = "[]" and k = "\<lambda>_. bindp (on_stream Stream_GetRemainingLength) (\<lambda>rem. ret ())"
      and h = h and as = bs and x = "()" and c = c and ?c1.0 = c' and ?c2.0 = c' and a = "()"] assms
  by (simp add: hparses_remaining hparses_ret)

lemma client_block_types:
  "hparses (gcc_read_client_core_data env) c bs [] () c' \<Longrightarrow> hparses (client_block env CS_CORE) c bs [] () c'"
  "hparses gcc_read_client_security_data c bs [] () c' \<Longrightarrow> hparses (client_block env CS_SECURITY) c bs [] () c'"
  "hparses gcc_read_client_network_data c bs [] () c' \<Longrightarrow> hparses (client_block env CS_NET) c bs [] () c'"
  "hparses gcc_read_client_cluster_data c bs [] () c' \<Longrightarrow> hparses (client_block env CS_CLUSTER) c bs [] () c'"
  "hparses gcc_read_client_monitor_data c bs [] () c' \<Longrightarrow> hparses (client_block env CS_MONITOR) c bs [] () c'"
  "hparses gcc_read_client_message_channel_data c bs [] () c' \<Longrightarrow> hparses (client_block env CS_MCS_MSGCHANNEL) c bs [] () c'"
  "hparses gcc_read_client_monitor_extended_data c bs [] () c' \<Longrightarrow> hparses (client_block env CS_MONITOR_EX) c bs [] () c'"
  "hparses read_multitransport c bs [] () c' \<Longrightarrow> hparses (client_block env CS_MULTITRANSPORT) c bs [] () c'"
  by (simp_all add: client_block_def gcc_types client_block_runs gcc_read_client_multitransport_channel_data_def)

text \<open>What a server in state \<open>(m, st)\<close> makes of all of it, block by block.\<close>

definition settings_received :: "rdpSettings \<Rightarrow> u8 list \<Rightarrow> u8 list \<Rightarrow> rdpSettings \<Rightarrow> rdpSettings" where
  "settings_received cl host pid st =
     (let st = security_received cl (cluster_received cl (core_received cl host pid st));
          st = (if sends_monitors cl \<and> MonitorCount cl > 1 then monitors_taken cl (unat (MonitorCount cl)) st else st);
          st = (if sends_monitors cl \<and> HasMonitorAttributes cl then attributes_taken cl (unat (MonitorCount cl)) st else st)
      in if has_flag (NegotiationFlags cl) 1
         then st\<lparr>MultitransportFlags := MultitransportFlags st AND MultitransportFlags cl\<rparr>
         else st\<lparr>SupportMultitransport := False, MultitransportFlags := 0\<rparr>)"

definition mcs_received :: "rdpMcs \<Rightarrow> rdpSettings \<Rightarrow> rdpMcs \<Rightarrow> rdpMcs" where
  "mcs_received clm cl m =
     (let m = (if channelCount clm > 0 then network_received clm m else m)
      in if has_flag (NegotiationFlags cl) 1 \<and> wants_messages cl then message_received clm m else m)"

definition server_ready :: "gcc_env \<Rightarrow> gcc_env \<Rightarrow> rdpSettings \<Rightarrow> u8 list \<Rightarrow> u8 list \<Rightarrow> rdpMcs \<Rightarrow> rdpSettings \<Rightarrow> bool" where
  "server_ready env env' cl host pid m st \<longleftrightarrow>
     utf16_to_utf8 env (takeWhile (\<lambda>w. w \<noteq> 0) (client_name_units env' cl)) = Some host \<and>
     utf16_to_utf8 env (takeWhile (\<lambda>w. w \<noteq> 0) (client_product_units env' cl)) = Some pid \<and>
     mem env (length host + 1) \<and> mem env (length pid + 1) \<and> SelectedProtocol_s st = SelectedProtocol_s cl \<and>
     DesktopWidth cl \<noteq> 0 \<and> DesktopHeight cl \<noteq> 0 \<and> length (channels m) = 31 \<and>
     (sends_monitors cl \<longrightarrow> holds_monitors cl st \<and> (HasMonitorAttributes cl \<longrightarrow> MonitorCount cl > 1))"

lemma monitor_fields_kept [simp]:
  "MonitorDefArray (core_received cl host pid st) = MonitorDefArray st"
  "MonitorDefArraySize (core_received cl host pid st) = MonitorDefArraySize st"
  "MonitorDefArray (cluster_received cl st) = MonitorDefArray st"
  "MonitorDefArraySize (cluster_received cl st) = MonitorDefArraySize st"
  "MonitorDefArray (security_received cl st) = MonitorDefArray st"
  "MonitorDefArraySize (security_received cl st) = MonitorDefArraySize st"
  by (simp_all add: core_received_def depth_applied_def cluster_received_def security_received_def Let_def)

lemma monitor_parts_run:
  assumes cl: "monitors_placed cl" and st: "holds_monitors cl st" "HasMonitorAttributes cl \<longrightarrow> MonitorCount cl > 1"
  shows "blocks_run (client_block env) (m, st) (monitor_parts cl)
     (m, let st = (if MonitorCount cl > 1 then monitors_taken cl (unat (MonitorCount cl)) st else st)
         in if HasMonitorAttributes cl then attributes_taken cl (unat (MonitorCount cl)) st else st)"
proof (cases "MonitorCount cl > 1")
  case True
  let ?st = "monitors_taken cl (unat (MonitorCount cl)) st"
  have "MonitorCount ?st = MonitorCount cl" "unat (MonitorCount cl) \<le> length (MonitorDefArray ?st)"
    using st(1) by (simp_all add: monitors_taken_def holds_monitors_def)
  moreover have "unat (MonitorCount cl) \<le> 16" using cl by (simp add: monitors_placed_def)
  ultimately have "hparses (client_block env CS_MONITOR_EX) (m, ?st) (enc_client_attributes cl) [] ()
     (m, attributes_taken cl (unat (MonitorCount cl)) ?st)"
    by (intro client_block_types hparses_client_attributes)
  moreover have "hparses (client_block env CS_MONITOR) (m, st) (enc_client_monitors cl) [] () (m, ?st)"
    by (intro client_block_types hparses_client_monitors cl st)
  ultimately show ?thesis using True by (auto simp: monitor_parts_def Let_def)
next
  case False
  with st(2) show ?thesis by (simp add: monitor_parts_def)
qed

lemma extended_parts_run:
  "blocks_run (client_block env) (m, st) (extended_parts clm cl)
     (if has_flag (NegotiationFlags cl) 1 \<and> wants_messages cl then message_received clm m else m,
      if has_flag (NegotiationFlags cl) 1
      then st\<lparr>MultitransportFlags := MultitransportFlags st AND MultitransportFlags cl\<rparr> else st)"
proof (cases "has_flag (NegotiationFlags cl) 1")
  case True
  have "hparses (client_block env CS_MCS_MSGCHANNEL) (m, st) (winpr_Data_Write_UINT32 (mcs_flags clm)) [] ()
     (message_received clm m, st)"
    by (intro client_block_types hparses_client_message)
  moreover have "hparses (client_block env CS_MULTITRANSPORT) (m0, st) (winpr_Data_Write_UINT32 (MultitransportFlags cl)) [] ()
     (m0, st\<lparr>MultitransportFlags := MultitransportFlags st AND MultitransportFlags cl\<rparr>)" for m0
    by (intro client_block_types hparses_multitransport)
  ultimately show ?thesis using True
    by (cases "wants_messages cl"; simp only: extended_parts_def) (force intro: exI)+
qed (simp add: extended_parts_def)

lemma client_parts_run:
  assumes cl: "client_sendable env' clm cl" and sv: "server_ready env env' cl host pid m st"
    and final: "(m', st') = (mcs_received clm cl m, settings_received cl host pid st)"
  shows "\<exists>st1. blocks_run (client_block env) (m, st) (client_parts env' clm cl) (m', st1) \<and>
     st' = (if has_flag (NegotiationFlags cl) 1 then st1 else st1\<lparr>SupportMultitransport := False, MultitransportFlags := 0\<rparr>)"
proof -
  note ok = cl [unfolded client_sendable_def] sv [unfolded server_ready_def]
  let ?st1 = "core_received cl host pid st"
  let ?st2 = "cluster_received cl ?st1"
  let ?st3 = "security_received cl ?st2"
  let ?m1 = "if channelCount clm > 0 then network_received clm m else m"
  let ?st4 = "if sends_monitors cl then (let st = (if MonitorCount cl > 1 then monitors_taken cl (unat (MonitorCount cl)) ?st3 else ?st3)
         in if HasMonitorAttributes cl then attributes_taken cl (unat (MonitorCount cl)) st else st) else ?st3"
  let ?m2 = "if has_flag (NegotiationFlags cl) 1 \<and> wants_messages cl then message_received clm ?m1 else ?m1"
  let ?st5 = "if has_flag (NegotiationFlags cl) 1
     then ?st4\<lparr>MultitransportFlags := MultitransportFlags ?st4 AND MultitransportFlags cl\<rparr> else ?st4"
  have core: "hparses (client_block env CS_CORE) (m, st) (enc_client_core env' cl) [] () (m, ?st1)"
    by (intro client_block_types hparses_client_core) (use ok in simp_all)
  have clu: "hparses (client_block env CS_CLUSTER) (m, ?st1) (enc_client_cluster cl) [] () (m, ?st2)"
    by (intro client_block_types hparses_client_cluster)
  have sec: "hparses (client_block env CS_SECURITY) (m, ?st2) (enc_client_security cl) [] () (m, ?st3)"
    by (intro client_block_types hparses_client_security)
  have first: "blocks_run (client_block env) (m, st)
     [(CS_CORE, enc_client_core env' cl), (CS_CLUSTER, enc_client_cluster cl), (CS_SECURITY, enc_client_security cl)] (m, ?st3)"
    using core clu sec by auto
  have "hparses (client_block env CS_NET) (m, ?st3) (enc_client_network clm) [] () (network_received clm m, ?st3)"
    by (intro client_block_types hparses_client_network) (use ok in simp_all)
  then have net: "blocks_run (client_block env) (m, ?st3)
     (if channelCount clm > 0 then [(CS_NET, enc_client_network clm)] else []) (?m1, ?st3)" by auto
  have mon: "blocks_run (client_block env) (?m1, ?st3) (if sends_monitors cl then monitor_parts cl else []) (?m1, ?st4)"
  proof (cases "sends_monitors cl")
    case True
    have "holds_monitors cl ?st3" using ok True by (simp add: holds_monitors_def)
    from monitor_parts_run [OF _ this] ok True show ?thesis by simp
  qed simp
  have ext: "blocks_run (client_block env) (?m1, ?st4) (extended_parts clm cl) (?m2, ?st5)"
    by (rule extended_parts_run)
  have run: "blocks_run (client_block env) (m, st) (client_parts env' clm cl) (?m2, ?st5)"
    unfolding client_parts_def using blocks_run_append first net mon ext by blast
  have "m' = ?m2" using final by (simp add: mcs_received_def Let_def)
  moreover have "st' = (if has_flag (NegotiationFlags cl) 1 then ?st5 else ?st5\<lparr>SupportMultitransport := False, MultitransportFlags := 0\<rparr>)"
    using final by (simp add: settings_received_def Let_def)
  ultimately show ?thesis using run by blast
qed

section \<open>The data of a server\<close>

definition enc_server_core :: "rdpSettings \<Rightarrow> u8 list" where
  "enc_server_core st = winpr_Data_Write_UINT32 (RdpVersion st) @
     winpr_Data_Write_UINT32 (RequestedProtocols_s st) @ winpr_Data_Write_UINT32 (earlyServerCapsFromSettings st)"

lemma appends_server_core:
  "appends 148 (gcc_write_server_core_data st) (enc_block SC_CORE (enc_server_core st)) ()"
  unfolding gcc_write_server_core_data_def
  by (rule appends_more [OF appends_block [where bs = "enc_server_core st"]], unfold enc_server_core_def)
     (intro emit_intros, simp_all)

definition server_core_received :: "rdpSettings \<Rightarrow> rdpSettings \<Rightarrow> rdpSettings" where
  "server_core_received sv st = updateEarlyServerCaps (earlyServerCapsFromSettings sv)
     (st\<lparr>RdpVersion := rdp_version_common (RdpVersion sv) (RdpVersion st),
        RequestedProtocols_s := RequestedProtocols_s sv, EarlyCapabilityFlags := earlyServerCapsFromSettings sv\<rparr>)"

lemma hparses_server_core:
  "hparses gcc_read_server_core_data (m, st) (enc_server_core sv) [] () (m, server_core_received sv st)"
proof -
  have field: "hparses (bindp (on_stream Stream_GetRemainingLength) (\<lambda>rem.
       bindp (if rem \<ge> 4 then read_setting Stream_Read_UINT32 upd else ret ()) k)) (m, st0)
       (winpr_Data_Write_UINT32 v @ bs) [] () c'"
    if "hparses (k ()) (m, upd v st0) bs [] () c'" for upd k st0 v bs and c'
    by (rule hparses_remaining) (simp add: hparses_read_setting(2) that)
  show ?thesis
    unfolding gcc_read_server_core_data_def enc_server_core_def server_core_received_def
    by (rule hparses_check, simp, rule hparses_read_setting(2), rule field,
        rule field [where bs = "[]", simplified append_Nil2], rule hparses_set_settings_last [THEN hparses_eq]) simp
qed

text \<open>Without encryption the security block carries no random; one is drawn all the same.\<close>

definition random_drawn :: "u8 list \<Rightarrow> rdpSettings \<Rightarrow> rdpSettings" where
  "random_drawn bytes st = st\<lparr>ServerRandom := Some bytes, ServerRandomLength := 32\<rparr>"

definition enc_server_security :: "rdpSettings \<Rightarrow> u8 list" where
  "enc_server_security st = winpr_Data_Write_UINT32 (EncryptionMethods st) @ winpr_Data_Write_UINT32 (EncryptionLevel st)"

lemma appends_server_security:
  assumes "EncryptionMethods st = ENCRYPTION_METHOD_NONE"
  shows "appends 144 (server_security_block env st) (enc_block SC_SECURITY (enc_server_security st)) ()"
proof -
  have body: "emits (bindp (Stream_Write_UINT32_unchecked (EncryptionMethods st)) (\<lambda>_.
     bindp (Stream_Write_UINT32_unchecked (EncryptionLevel st)) (\<lambda>_. ret ()))) (enc_server_security st) ()"
    unfolding enc_server_security_def by (intro emit_intros)
  have "server_security_block env st = bindp get_position (\<lambda>posHeader.
     bindp (gcc_write_user_data_header SC_SECURITY 12) (\<lambda>_.
     bindp (Stream_Write_UINT32_unchecked (EncryptionMethods st)) (\<lambda>_.
     bindp (Stream_Write_UINT32_unchecked (EncryptionLevel st)) (\<lambda>_. ret ()))))"
    using assms by (simp add: server_security_block_def)
  also have "\<dots> = bindp (gcc_write_user_data_header SC_SECURITY 12) (\<lambda>_.
     bindp (Stream_Write_UINT32_unchecked (EncryptionMethods st)) (\<lambda>_.
     bindp (Stream_Write_UINT32_unchecked (EncryptionLevel st)) (\<lambda>_. ret ())))"
    by (rule ext) (simp add: bindp_def get_position_def)
  finally show ?thesis
    using appends_more [OF appends_block [OF body], of 12 144 SC_SECURITY]
    by (simp add: enc_server_security_def)
qed

definition plain_received :: "rdpSettings \<Rightarrow> rdpSettings" where
  "plain_received st = st\<lparr>EncryptionMethods := ENCRYPTION_METHOD_NONE, EncryptionLevel := ENCRYPTION_LEVEL_NONE,
     UseRdpSecurityLayer_s := False\<rparr>"

lemma hparses_server_security:
  assumes "EncryptionMethods sv = ENCRYPTION_METHOD_NONE" and "EncryptionLevel sv = ENCRYPTION_LEVEL_NONE"
  shows "hparses (gcc_read_server_security_data env) (m, st) (enc_server_security sv) [] () (m, plain_received st)"
  unfolding gcc_read_server_security_data_def enc_server_security_def assms
  by (intro hparse_intros)
     (simp_all add: known_encryption_method_def valid_crypto_config_def plain_received_def
       hparses_set_settings_last [THEN hparses_eq])

definition server_parts :: "rdpMcs \<Rightarrow> rdpSettings \<Rightarrow> blocks" where
  "server_parts m st =
     [(SC_CORE, enc_server_core st), (SC_NET, enc_server_network m), (SC_SECURITY, enc_server_security st)] @
     (if messageChannelId m = 0 then [] else [(SC_MCS_MSGCHANNEL, winpr_Data_Write_UINT16 (messageChannelId m))]) @
     (if SupportMultitransport st \<and> MultitransportFlags st \<noteq> 0
      then [(SC_MULTITRANSPORT, winpr_Data_Write_UINT32 (MultitransportFlags st))] else [])"

end
