(* ===== verification/ConnState.thy ===== *)
theory ConnState
  imports McsPdu
begin

text \<open>
  The states of a connection, \<^verbatim>\<open>CONNECTION_STATE\<close> of \<^verbatim>\<open>include/freerdp/types.h\<close>, in the order
  the code compares them in, their names, and the results of a step of the connection
  (\<^verbatim>\<open>libfreerdp/core/state.c\<close>).
\<close>

section \<open>Connection states\<close>

datatype CONNECTION_STATE =
    CONNECTION_STATE_INITIAL
  | CONNECTION_STATE_NEGO
  | CONNECTION_STATE_NLA
  | CONNECTION_STATE_AAD
  | CONNECTION_STATE_MCS_CREATE_REQUEST
  | CONNECTION_STATE_MCS_CREATE_RESPONSE
  | CONNECTION_STATE_MCS_ERECT_DOMAIN
  | CONNECTION_STATE_MCS_ATTACH_USER
  | CONNECTION_STATE_MCS_ATTACH_USER_CONFIRM
  | CONNECTION_STATE_MCS_CHANNEL_JOIN_REQUEST
  | CONNECTION_STATE_MCS_CHANNEL_JOIN_RESPONSE
  | CONNECTION_STATE_RDP_SECURITY_COMMENCEMENT
  | CONNECTION_STATE_SECURE_SETTINGS_EXCHANGE
  | CONNECTION_STATE_CONNECT_TIME_AUTO_DETECT_REQUEST
  | CONNECTION_STATE_CONNECT_TIME_AUTO_DETECT_RESPONSE
  | CONNECTION_STATE_LICENSING
  | CONNECTION_STATE_MULTITRANSPORT_BOOTSTRAPPING_REQUEST
  | CONNECTION_STATE_MULTITRANSPORT_BOOTSTRAPPING_RESPONSE
  | CONNECTION_STATE_CAPABILITIES_EXCHANGE_DEMAND_ACTIVE
  | CONNECTION_STATE_CAPABILITIES_EXCHANGE_MONITOR_LAYOUT
  | CONNECTION_STATE_CAPABILITIES_EXCHANGE_CONFIRM_ACTIVE
  | CONNECTION_STATE_FINALIZATION_SYNC
  | CONNECTION_STATE_FINALIZATION_COOPERATE
  | CONNECTION_STATE_FINALIZATION_REQUEST_CONTROL
  | CONNECTION_STATE_FINALIZATION_PERSISTENT_KEY_LIST
  | CONNECTION_STATE_FINALIZATION_FONT_LIST
  | CONNECTION_STATE_FINALIZATION_CLIENT_SYNC
  | CONNECTION_STATE_FINALIZATION_CLIENT_COOPERATE
  | CONNECTION_STATE_FINALIZATION_CLIENT_GRANTED_CONTROL
  | CONNECTION_STATE_FINALIZATION_CLIENT_FONT_MAP
  | CONNECTION_STATE_ACTIVE

definition connection_states :: "CONNECTION_STATE list" where
  "connection_states =
    [CONNECTION_STATE_INITIAL, CONNECTION_STATE_NEGO, CONNECTION_STATE_NLA, CONNECTION_STATE_AAD,
     CONNECTION_STATE_MCS_CREATE_REQUEST, CONNECTION_STATE_MCS_CREATE_RESPONSE,
     CONNECTION_STATE_MCS_ERECT_DOMAIN, CONNECTION_STATE_MCS_ATTACH_USER,
     CONNECTION_STATE_MCS_ATTACH_USER_CONFIRM, CONNECTION_STATE_MCS_CHANNEL_JOIN_REQUEST,
     CONNECTION_STATE_MCS_CHANNEL_JOIN_RESPONSE, CONNECTION_STATE_RDP_SECURITY_COMMENCEMENT,
     CONNECTION_STATE_SECURE_SETTINGS_EXCHANGE, CONNECTION_STATE_CONNECT_TIME_AUTO_DETECT_REQUEST,
     CONNECTION_STATE_CONNECT_TIME_AUTO_DETECT_RESPONSE, CONNECTION_STATE_LICENSING,
     CONNECTION_STATE_MULTITRANSPORT_BOOTSTRAPPING_REQUEST,
     CONNECTION_STATE_MULTITRANSPORT_BOOTSTRAPPING_RESPONSE,
     CONNECTION_STATE_CAPABILITIES_EXCHANGE_DEMAND_ACTIVE,
     CONNECTION_STATE_CAPABILITIES_EXCHANGE_MONITOR_LAYOUT,
     CONNECTION_STATE_CAPABILITIES_EXCHANGE_CONFIRM_ACTIVE, CONNECTION_STATE_FINALIZATION_SYNC,
     CONNECTION_STATE_FINALIZATION_COOPERATE, CONNECTION_STATE_FINALIZATION_REQUEST_CONTROL,
     CONNECTION_STATE_FINALIZATION_PERSISTENT_KEY_LIST, CONNECTION_STATE_FINALIZATION_FONT_LIST,
     CONNECTION_STATE_FINALIZATION_CLIENT_SYNC, CONNECTION_STATE_FINALIZATION_CLIENT_COOPERATE,
     CONNECTION_STATE_FINALIZATION_CLIENT_GRANTED_CONTROL,
     CONNECTION_STATE_FINALIZATION_CLIENT_FONT_MAP, CONNECTION_STATE_ACTIVE]"

definition state_code :: "CONNECTION_STATE \<Rightarrow> nat" where
  "state_code st = position_of st connection_states"

primrec rdp_state_string :: "CONNECTION_STATE \<Rightarrow> string" where
  "rdp_state_string CONNECTION_STATE_INITIAL = ''CONNECTION_STATE_INITIAL''"
| "rdp_state_string CONNECTION_STATE_NEGO = ''CONNECTION_STATE_NEGO''"
| "rdp_state_string CONNECTION_STATE_NLA = ''CONNECTION_STATE_NLA''"
| "rdp_state_string CONNECTION_STATE_AAD = ''CONNECTION_STATE_AAD''"
| "rdp_state_string CONNECTION_STATE_MCS_CREATE_REQUEST = ''CONNECTION_STATE_MCS_CREATE_REQUEST''"
| "rdp_state_string CONNECTION_STATE_MCS_CREATE_RESPONSE = ''CONNECTION_STATE_MCS_CREATE_RESPONSE''"
| "rdp_state_string CONNECTION_STATE_MCS_ERECT_DOMAIN = ''CONNECTION_STATE_MCS_ERECT_DOMAIN''"
| "rdp_state_string CONNECTION_STATE_MCS_ATTACH_USER = ''CONNECTION_STATE_MCS_ATTACH_USER''"
| "rdp_state_string CONNECTION_STATE_MCS_ATTACH_USER_CONFIRM = ''CONNECTION_STATE_MCS_ATTACH_USER_CONFIRM''"
| "rdp_state_string CONNECTION_STATE_MCS_CHANNEL_JOIN_REQUEST = ''CONNECTION_STATE_MCS_CHANNEL_JOIN_REQUEST''"
| "rdp_state_string CONNECTION_STATE_MCS_CHANNEL_JOIN_RESPONSE = ''CONNECTION_STATE_MCS_CHANNEL_JOIN_RESPONSE''"
| "rdp_state_string CONNECTION_STATE_RDP_SECURITY_COMMENCEMENT = ''CONNECTION_STATE_RDP_SECURITY_COMMENCEMENT''"
| "rdp_state_string CONNECTION_STATE_SECURE_SETTINGS_EXCHANGE = ''CONNECTION_STATE_SECURE_SETTINGS_EXCHANGE''"
| "rdp_state_string CONNECTION_STATE_CONNECT_TIME_AUTO_DETECT_REQUEST = ''CONNECTION_STATE_CONNECT_TIME_AUTO_DETECT_REQUEST''"
| "rdp_state_string CONNECTION_STATE_CONNECT_TIME_AUTO_DETECT_RESPONSE = ''CONNECTION_STATE_CONNECT_TIME_AUTO_DETECT_RESPONSE''"
| "rdp_state_string CONNECTION_STATE_LICENSING = ''CONNECTION_STATE_LICENSING''"
| "rdp_state_string CONNECTION_STATE_MULTITRANSPORT_BOOTSTRAPPING_REQUEST = ''CONNECTION_STATE_MULTITRANSPORT_BOOTSTRAPPING_REQUEST''"
| "rdp_state_string CONNECTION_STATE_MULTITRANSPORT_BOOTSTRAPPING_RESPONSE = ''CONNECTION_STATE_MULTITRANSPORT_BOOTSTRAPPING_RESPONSE''"
| "rdp_state_string CONNECTION_STATE_CAPABILITIES_EXCHANGE_DEMAND_ACTIVE = ''CONNECTION_STATE_CAPABILITIES_EXCHANGE_DEMAND_ACTIVE''"
| "rdp_state_string CONNECTION_STATE_CAPABILITIES_EXCHANGE_MONITOR_LAYOUT = ''CONNECTION_STATE_CAPABILITIES_EXCHANGE_MONITOR_LAYOUT''"
| "rdp_state_string CONNECTION_STATE_CAPABILITIES_EXCHANGE_CONFIRM_ACTIVE = ''CONNECTION_STATE_CAPABILITIES_EXCHANGE_CONFIRM_ACTIVE''"
| "rdp_state_string CONNECTION_STATE_FINALIZATION_SYNC = ''CONNECTION_STATE_FINALIZATION_SYNC''"
| "rdp_state_string CONNECTION_STATE_FINALIZATION_COOPERATE = ''CONNECTION_STATE_FINALIZATION_COOPERATE''"
| "rdp_state_string CONNECTION_STATE_FINALIZATION_REQUEST_CONTROL = ''CONNECTION_STATE_FINALIZATION_REQUEST_CONTROL''"
| "rdp_state_string CONNECTION_STATE_FINALIZATION_PERSISTENT_KEY_LIST = ''CONNECTION_STATE_FINALIZATION_PERSISTENT_KEY_LIST''"
| "rdp_state_string CONNECTION_STATE_FINALIZATION_FONT_LIST = ''CONNECTION_STATE_FINALIZATION_FONT_LIST''"
| "rdp_state_string CONNECTION_STATE_FINALIZATION_CLIENT_SYNC = ''CONNECTION_STATE_FINALIZATION_CLIENT_SYNC''"
| "rdp_state_string CONNECTION_STATE_FINALIZATION_CLIENT_COOPERATE = ''CONNECTION_STATE_FINALIZATION_CLIENT_COOPERATE''"
| "rdp_state_string CONNECTION_STATE_FINALIZATION_CLIENT_GRANTED_CONTROL = ''CONNECTION_STATE_FINALIZATION_CLIENT_GRANTED_CONTROL''"
| "rdp_state_string CONNECTION_STATE_FINALIZATION_CLIENT_FONT_MAP = ''CONNECTION_STATE_FINALIZATION_CLIENT_FONT_MAP''"
| "rdp_state_string CONNECTION_STATE_ACTIVE = ''CONNECTION_STATE_ACTIVE''"

lemma position_of_inj: "x \<in> set xs \<Longrightarrow> position_of x xs = position_of y xs \<Longrightarrow> x = y"
  by (induction xs) (auto split: if_splits)

lemma connection_states_all: "st \<in> set connection_states"
  by (cases st) (simp_all add: connection_states_def)

lemma state_code_inj: "state_code a = state_code b \<Longrightarrow> a = b"
  unfolding state_code_def by (rule position_of_inj [OF connection_states_all])

text \<open>The enumerators compare as their values do.\<close>

instantiation CONNECTION_STATE :: linorder
begin

definition less_eq_CONNECTION_STATE :: "CONNECTION_STATE \<Rightarrow> CONNECTION_STATE \<Rightarrow> bool" where
  "a \<le> b \<longleftrightarrow> state_code a \<le> state_code b"

definition less_CONNECTION_STATE :: "CONNECTION_STATE \<Rightarrow> CONNECTION_STATE \<Rightarrow> bool" where
  "a < b \<longleftrightarrow> state_code a < state_code b"

instance
  by standard
    (auto simp: less_eq_CONNECTION_STATE_def less_CONNECTION_STATE_def intro: state_code_inj)

end

lemma state_codes:
  "state_code CONNECTION_STATE_MCS_CHANNEL_JOIN_REQUEST = 9"
  "state_code CONNECTION_STATE_MCS_CHANNEL_JOIN_RESPONSE = 10"
  "state_code CONNECTION_STATE_RDP_SECURITY_COMMENCEMENT = 11"
  by (simp_all add: state_code_def connection_states_def)

section \<open>Results of a step\<close>

datatype state_run_t =
    STATE_RUN_ACTIVE | STATE_RUN_REDIRECT | STATE_RUN_SUCCESS | STATE_RUN_FAILED
  | STATE_RUN_QUIT_SESSION | STATE_RUN_TRY_AGAIN | STATE_RUN_CONTINUE

primrec state_run_value :: "state_run_t \<Rightarrow> int" where
  "state_run_value STATE_RUN_ACTIVE = 2"
| "state_run_value STATE_RUN_REDIRECT = 1"
| "state_run_value STATE_RUN_SUCCESS = 0"
| "state_run_value STATE_RUN_FAILED = -1"
| "state_run_value STATE_RUN_QUIT_SESSION = -2"
| "state_run_value STATE_RUN_TRY_AGAIN = -23"
| "state_run_value STATE_RUN_CONTINUE = -24"

definition state_run_failed :: "state_run_t \<Rightarrow> bool" where
  "state_run_failed status =
     (case status of STATE_RUN_FAILED \<Rightarrow> True | STATE_RUN_QUIT_SESSION \<Rightarrow> True | _ \<Rightarrow> False)"

definition state_run_success :: "state_run_t \<Rightarrow> bool" where
  "state_run_success status =
     (if status = STATE_RUN_CONTINUE then True else state_run_value status \<ge> 0)"

definition state_run_continue :: "state_run_t \<Rightarrow> bool" where
  "state_run_continue status \<longleftrightarrow>
     status = STATE_RUN_TRY_AGAIN \<or> status = STATE_RUN_CONTINUE \<or> status = STATE_RUN_ACTIVE"

end
