(* ===== verification/Connection.thy ===== *)
theory Connection
  imports Mcs ConnState
begin

text \<open>
  The connection sequence of \<^verbatim>\<open>libfreerdp/core/connection.c\<close> as far as it is driven by the MCS
  layer: the state of an \<^verbatim>\<open>rdpRdp\<close> and its transitions, the exchange in which the client joins
  the channels one after the other and the server confirms them, and the finalization the
  client and the server send. The key exchange, the client info packet, the finalization PDUs
  and the event handlers of the application are parameters (\<open>hooks\<close>).
\<close>

unbundle bit_operations_syntax

section \<open>State\<close>

definition FINALIZE_SC_SYNCHRONIZE_PDU :: u32 where "FINALIZE_SC_SYNCHRONIZE_PDU = 0x01"
definition FINALIZE_DEACTIVATE_REACTIVATE :: u32 where "FINALIZE_DEACTIVATE_REACTIVATE = 0x200"

text \<open>The settings the sequence asks for, the flags of the finalization, and whether the peer
  (on a server that has one) is activated.\<close>

record 't rdpRdp =
  state :: CONNECTION_STATE
  rdp_context :: "'t rdpContext"
  finalize_sc_pdus :: u32
  monitor_layout_pdu :: bool
  activated :: "bool option"
  UseRdpSecurityLayer :: bool
  SupportSkipChannelJoin :: bool
  TransportDumpReplay :: bool
  BitmapCachePersistEnabled :: bool
  ServerMode :: bool

text \<open>
  What the sequence calls and what is not modelled here: the exchange of the client random
  under RDP encryption, the PDUs of other components, the reset of the drawing order state,
  and the subscribers of the events, which answer with a number.
\<close>

record 's hooks =
  exchange_client_random :: "(unit, 's) prog"
  rdp_send_client_info :: "(unit, 's) prog"
  rdp_send_client_synchronize_pdu :: "(unit, 's) prog"
  rdp_send_client_control_pdu :: "u16 \<Rightarrow> (unit, 's) prog"
  rdp_send_client_persistent_key_list_pdu :: "(unit, 's) prog"
  rdp_send_client_font_list_pdu :: "u16 \<Rightarrow> (unit, 's) prog"
  rdp_send_server_synchronize_pdu :: "(unit, 's) prog"
  rdp_send_server_control_cooperate_pdu :: "(unit, 's) prog"
  update_reset_state :: "'s \<Rightarrow> 's"
  PubSub_OnActivated :: "bool \<Rightarrow> 's \<Rightarrow> int"
  PubSub_OnConnectionStateChange :: "CONNECTION_STATE \<Rightarrow> bool \<Rightarrow> 's \<Rightarrow> int"

abbreviation rdp_mcs :: "'t rdpRdp \<Rightarrow> rdpMcs" where
  "rdp_mcs rdp \<equiv> mcs (rdp_context rdp)"

definition set_mcs :: "rdpMcs \<Rightarrow> 't rdpRdp \<Rightarrow> 't rdpRdp" where
  "set_mcs m rdp = rdp\<lparr>rdp_context := (rdp_context rdp)\<lparr>mcs := m\<rparr>\<rparr>"

definition on_mcs_state :: "(rdpMcs \<Rightarrow> rdpMcs) \<Rightarrow> (unit, 't rdpRdp) prog" where
  "on_mcs_state f rdp = Ret () (set_mcs (f (rdp_mcs rdp)) rdp)"

text \<open>A sender of the MCS layer, called from here.\<close>

definition on_context :: "('a, 't rdpContext) prog \<Rightarrow> ('a, 't rdpRdp) prog" where
  "on_context m rdp =
     (case m (rdp_context rdp) of
        Abort \<Rightarrow> Abort
      | Fail c \<Rightarrow> Fail (rdp\<lparr>rdp_context := c\<rparr>)
      | Ret x c \<Rightarrow> Ret x (rdp\<lparr>rdp_context := c\<rparr>))"

text \<open>A receiver of the MCS layer, and a step that does not look at the packet.\<close>

definition on_packet :: "'a mcs_handler \<Rightarrow> ('a, 't rdpRdp \<times> wStream) prog" where
  "on_packet h = (\<lambda>(rdp, s).
     case h (rdp_mcs rdp, s) of
       Abort \<Rightarrow> Abort
     | Fail (m, t) \<Rightarrow> Fail (set_mcs m rdp, t)
     | Ret x (m, t) \<Rightarrow> Ret x (set_mcs m rdp, t))"

definition on_rdp :: "('a, 't rdpRdp) prog \<Rightarrow> ('a, 't rdpRdp \<times> wStream) prog" where
  "on_rdp m = (\<lambda>(rdp, s).
     case m rdp of Abort \<Rightarrow> Abort | Fail r \<Rightarrow> Fail (r, s) | Ret x r \<Rightarrow> Ret x (r, s))"

section \<open>Transitions\<close>

definition rdp_get_state :: "'t rdpRdp \<Rightarrow> CONNECTION_STATE" where
  "rdp_get_state rdp = state rdp"

text \<open>The result of the state-changed event is only logged.\<close>

definition rdp_set_state :: "CONNECTION_STATE \<Rightarrow> (unit, 't rdpRdp) prog" where
  "rdp_set_state st rdp = Ret () (rdp\<lparr>state := st\<rparr>)"

definition rdp_finalize_reset_flags :: "bool \<Rightarrow> (unit, 't rdpRdp) prog" where
  "rdp_finalize_reset_flags clearAll rdp =
     Ret () (rdp\<lparr>finalize_sc_pdus := (if clearAll then 0 else finalize_sc_pdus rdp AND FINALIZE_DEACTIVATE_REACTIVATE),
                 monitor_layout_pdu := False\<rparr>)"

definition rdp_finalize_set_flag :: "u32 \<Rightarrow> (unit, 't rdpRdp) prog" where
  "rdp_finalize_set_flag flag rdp = Ret () (rdp\<lparr>finalize_sc_pdus := finalize_sc_pdus rdp OR flag\<rparr>)"

definition rdp_finalize_is_flag_set :: "'t rdpRdp \<Rightarrow> u32 \<Rightarrow> bool" where
  "rdp_finalize_is_flag_set rdp flag \<longleftrightarrow> finalize_sc_pdus rdp AND flag = flag"

fun rdp_is_active_peer_state :: "CONNECTION_STATE \<Rightarrow> bool" where
  "rdp_is_active_peer_state st =
     (st = CONNECTION_STATE_FINALIZATION_CLIENT_SYNC \<or>
      st = CONNECTION_STATE_FINALIZATION_CLIENT_COOPERATE \<or>
      st = CONNECTION_STATE_FINALIZATION_CLIENT_GRANTED_CONTROL \<or>
      st = CONNECTION_STATE_FINALIZATION_CLIENT_FONT_MAP \<or>
      st = CONNECTION_STATE_ACTIVE)"

fun rdp_is_active_client_state :: "CONNECTION_STATE \<Rightarrow> bool" where
  "rdp_is_active_client_state st =
     (st = CONNECTION_STATE_FINALIZATION_SYNC \<or>
      st = CONNECTION_STATE_FINALIZATION_COOPERATE \<or>
      st = CONNECTION_STATE_FINALIZATION_REQUEST_CONTROL \<or>
      st = CONNECTION_STATE_FINALIZATION_PERSISTENT_KEY_LIST \<or>
      st = CONNECTION_STATE_FINALIZATION_FONT_LIST \<or>
      st = CONNECTION_STATE_FINALIZATION_CLIENT_SYNC \<or>
      st = CONNECTION_STATE_FINALIZATION_CLIENT_COOPERATE \<or>
      st = CONNECTION_STATE_FINALIZATION_CLIENT_GRANTED_CONTROL \<or>
      st = CONNECTION_STATE_FINALIZATION_CLIENT_FONT_MAP \<or>
      st = CONNECTION_STATE_ACTIVE)"

definition rdp_is_active_state :: "'t rdpRdp \<Rightarrow> bool" where
  "rdp_is_active_state rdp =
     (if ServerMode rdp then rdp_is_active_peer_state (rdp_get_state rdp)
      else rdp_is_active_client_state (rdp_get_state rdp))"

definition rdp_has_reached_state :: "'t rdpRdp \<Rightarrow> CONNECTION_STATE \<Rightarrow> bool" where
  "rdp_has_reached_state rdp st = (\<not> rdp_get_state rdp < st)"

definition rdp_is_reached_state :: "'t rdpRdp \<Rightarrow> CONNECTION_STATE \<Rightarrow> bool" where
  "rdp_is_reached_state rdp st = (\<not> rdp_get_state rdp \<noteq> st)"

fun resets_orders :: "CONNECTION_STATE \<Rightarrow> bool" where
  "resets_orders st =
     (st = CONNECTION_STATE_FINALIZATION_SYNC \<or> st = CONNECTION_STATE_FINALIZATION_COOPERATE \<or>
      st = CONNECTION_STATE_FINALIZATION_REQUEST_CONTROL \<or>
      st = CONNECTION_STATE_FINALIZATION_PERSISTENT_KEY_LIST \<or>
      st = CONNECTION_STATE_FINALIZATION_FONT_LIST)"

definition rdp_client_transition_to_state ::
  "'t rdpRdp hooks \<Rightarrow> CONNECTION_STATE \<Rightarrow> (unit, 't rdpRdp) prog" where
  "rdp_client_transition_to_state H st =
     bindp (rdp_set_state st) (\<lambda>_.
     bindp (\<lambda>rdp.
       if resets_orders st then Ret () (update_reset_state H rdp)
       else if st = CONNECTION_STATE_CAPABILITIES_EXCHANGE_CONFIRM_ACTIVE then
         (if PubSub_OnActivated H (\<not> rdp_finalize_is_flag_set rdp FINALIZE_DEACTIVATE_REACTIVATE) rdp < 0
          then Fail rdp else Ret () rdp)
       else Ret () rdp) (\<lambda>_ rdp.
     if PubSub_OnConnectionStateChange H (rdp_get_state rdp) (rdp_is_active_state rdp) rdp < 0
     then Fail rdp else Ret () rdp))"

text \<open>\<^verbatim>\<open>client\<close> stays null below \<^verbatim>\<open>RDP_SECURITY_COMMENCEMENT\<close>; both tests look at the old state.\<close>

definition rdp_server_transition_to_state :: "CONNECTION_STATE \<Rightarrow> (unit, 't rdpRdp) prog" where
  "rdp_server_transition_to_state st rdp =
     (let cstate = rdp_get_state rdp;
          rdp' = (if cstate \<ge> CONNECTION_STATE_RDP_SECURITY_COMMENCEMENT \<and> \<not> rdp_is_active_peer_state cstate
                  then rdp\<lparr>activated := map_option (\<lambda>_. False) (activated rdp)\<rparr> else rdp)
      in rdp_set_state st rdp')"

section \<open>Joining the channels: the client\<close>

definition rdp_client_establish_keys :: "'t rdpRdp hooks \<Rightarrow> (unit, 't rdpRdp) prog" where
  "rdp_client_establish_keys H rdp =
     (if \<not> UseRdpSecurityLayer rdp then Ret () rdp
      else bindp (rdp_client_transition_to_state H CONNECTION_STATE_RDP_SECURITY_COMMENCEMENT) (\<lambda>_.
           exchange_client_random H) rdp)"

definition rdp_client_send_client_info_and_change_state :: "'t rdpRdp hooks \<Rightarrow> (unit, 't rdpRdp) prog" where
  "rdp_client_send_client_info_and_change_state H =
     bindp (rdp_client_establish_keys H) (\<lambda>_.
     bindp (rdp_client_transition_to_state H CONNECTION_STATE_SECURE_SETTINGS_EXCHANGE) (\<lambda>_.
     bindp (rdp_send_client_info H) (\<lambda>_.
     rdp_client_transition_to_state H CONNECTION_STATE_CONNECT_TIME_AUTO_DETECT_REQUEST)))"

text \<open>The loop over the first \<^verbatim>\<open>channelCount\<close> channels.\<close>

definition upd_channels :: "(nat \<Rightarrow> rdpMcsChannel \<Rightarrow> rdpMcsChannel) \<Rightarrow> rdpMcs \<Rightarrow> rdpMcs" where
  "upd_channels f m = m\<lparr>channels :=
     map (\<lambda>i. if i < unat (channelCount m) then f i (channels m ! i) else channels m ! i)
       [0..<length (channels m)]\<rparr>"

definition all_channels_joined :: "rdpMcs \<Rightarrow> rdpMcs" where
  "all_channels_joined m =
     upd_channels (\<lambda>_ c. c\<lparr>joined := True\<rparr>)
       (m\<lparr>userChannelJoined := True, globalChannelJoined := True, messageChannelJoined := True\<rparr>)"

definition rdp_client_skip_mcs_channel_join :: "'t rdpRdp hooks \<Rightarrow> (unit, 't rdpRdp) prog" where
  "rdp_client_skip_mcs_channel_join H =
     bindp (on_mcs_state all_channels_joined) (\<lambda>_. rdp_client_send_client_info_and_change_state H)"

definition rdp_client_join_channel :: "'t rdpRdp hooks \<Rightarrow> u16 \<Rightarrow> (unit, 't rdpRdp) prog" where
  "rdp_client_join_channel H chan =
     bindp (rdp_client_transition_to_state H CONNECTION_STATE_MCS_CHANNEL_JOIN_REQUEST) (\<lambda>_.
     bindp (on_context (mcs_send_channel_join_request chan)) (\<lambda>_.
     rdp_client_transition_to_state H CONNECTION_STATE_MCS_CHANNEL_JOIN_RESPONSE))"

text \<open>The first channel that is not joined, or \<^verbatim>\<open>channelCount\<close>.\<close>

fun first_unjoined :: "nat \<Rightarrow> rdpMcsChannel list \<Rightarrow> nat" where
  "first_unjoined 0 cs = 0"
| "first_unjoined (Suc n) [] = Suc n"
| "first_unjoined (Suc n) (c # cs) = (if joined c then Suc (first_unjoined n cs) else 0)"

text \<open>\<open>join_next H i\<close> asks for the channel with index \<open>i\<close> if there is one; the result is whether
  all channels have been joined.\<close>

definition join_next :: "'t rdpRdp hooks \<Rightarrow> nat \<Rightarrow> (bool, 't rdpRdp) prog" where
  "join_next H i rdp =
     (let m = rdp_mcs rdp in
      if i < unat (channelCount m)
      then bindp (rdp_client_join_channel H (ChannelId (channels m ! i))) (\<lambda>_. ret False) rdp
      else Ret True rdp)"

definition channel_confirmed :: "'t rdpRdp hooks \<Rightarrow> u16 \<Rightarrow> (bool, 't rdpRdp) prog" where
  "channel_confirmed H channelId rdp =
     (let m = rdp_mcs rdp in
      if \<not> userChannelJoined m then
        bindp (require (\<not> channelId \<noteq> userId m)) (\<lambda>_.
        bindp (on_mcs_state (\<lambda>m. m\<lparr>userChannelJoined := True\<rparr>)) (\<lambda>_.
        bindp (rdp_client_join_channel H MCS_GLOBAL_CHANNEL_ID) (\<lambda>_. ret True))) rdp
      else if \<not> globalChannelJoined m then
        bindp (require (\<not> channelId \<noteq> MCS_GLOBAL_CHANNEL_ID)) (\<lambda>_.
        bindp (on_mcs_state (\<lambda>m. m\<lparr>globalChannelJoined := True\<rparr>)) (\<lambda>_.
        if messageChannelId m \<noteq> 0
        then bindp (rdp_client_join_channel H (messageChannelId m)) (\<lambda>_. ret False)
        else join_next H 0)) rdp
      else if messageChannelId m \<noteq> 0 \<and> \<not> messageChannelJoined m then
        bindp (require (\<not> channelId \<noteq> messageChannelId m)) (\<lambda>_.
        bindp (on_mcs_state (\<lambda>m. m\<lparr>messageChannelJoined := True\<rparr>)) (\<lambda>_. join_next H 0)) rdp
      else
        (let i = first_unjoined (unat (channelCount m)) (channels m) in
         bindp (require (\<not> (i < unat (channelCount m) \<and> ChannelId (channels m ! i) \<noteq> channelId))) (\<lambda>_.
         bindp (on_mcs_state (upd_channels (\<lambda>j c. if j = i then c\<lparr>joined := True\<rparr> else c))) (\<lambda>_.
         join_next H (i + 1))) rdp))"

definition rdp_client_connect_mcs_channel_join_confirm ::
  "'t rdpRdp hooks \<Rightarrow> (unit, 't rdpRdp \<times> wStream) prog" where
  "rdp_client_connect_mcs_channel_join_confirm H =
     bindp (on_packet mcs_recv_channel_join_confirm) (\<lambda>channelId.
     on_rdp (bindp (channel_confirmed H channelId) (\<lambda>allJoined rdp.
       if userChannelJoined (rdp_mcs rdp) \<and> globalChannelJoined (rdp_mcs rdp) \<and> allJoined
       then rdp_client_send_client_info_and_change_state H rdp else Ret () rdp)))"

section \<open>Joining the channels: the server\<close>

definition rdp_server_accept_mcs_erect_domain_request :: "(unit, 't rdpRdp \<times> wStream) prog" where
  "rdp_server_accept_mcs_erect_domain_request =
     bindp (\<lambda>(rdp, s). winpr_assert (rdp_is_reached_state rdp CONNECTION_STATE_MCS_ERECT_DOMAIN) (rdp, s)) (\<lambda>_.
     bindp (on_packet mcs_recv_erect_domain_request) (\<lambda>_.
     on_rdp (rdp_server_transition_to_state CONNECTION_STATE_MCS_ATTACH_USER)))"

definition rdp_server_skip_mcs_channel_join :: "(unit, 't rdpRdp) prog" where
  "rdp_server_skip_mcs_channel_join =
     bindp (on_mcs_state all_channels_joined) (\<lambda>_.
     rdp_server_transition_to_state CONNECTION_STATE_RDP_SECURITY_COMMENCEMENT)"

definition rdp_server_accept_mcs_attach_user_request :: "(unit, 't rdpRdp \<times> wStream) prog" where
  "rdp_server_accept_mcs_attach_user_request =
     bindp (on_packet mcs_recv_attach_user_request) (\<lambda>_.
     bindp (on_rdp (rdp_server_transition_to_state CONNECTION_STATE_MCS_ATTACH_USER_CONFIRM)) (\<lambda>_.
     bindp (on_rdp (on_context mcs_send_attach_user_confirm)) (\<lambda>_.
     on_rdp (\<lambda>rdp. if SupportSkipChannelJoin rdp then rdp_server_skip_mcs_channel_join rdp
                   else rdp_server_transition_to_state CONNECTION_STATE_MCS_CHANNEL_JOIN_REQUEST rdp))))"

definition channel_joined :: "u16 \<Rightarrow> rdpMcs \<Rightarrow> rdpMcs" where
  "channel_joined channelId m =
     upd_channels (\<lambda>_ c. if ChannelId c = channelId then c\<lparr>joined := True\<rparr> else c)
       (m\<lparr>userChannelJoined := userChannelJoined m \<or> channelId = userId m,
          globalChannelJoined := globalChannelJoined m \<or> channelId = MCS_GLOBAL_CHANNEL_ID,
          messageChannelJoined := messageChannelJoined m \<or> channelId = messageChannelId m\<rparr>)"

definition rdp_server_accept_mcs_channel_join_request :: "(unit, 't rdpRdp \<times> wStream) prog" where
  "rdp_server_accept_mcs_channel_join_request =
     bindp (\<lambda>(rdp, s). winpr_assert (rdp_is_reached_state rdp CONNECTION_STATE_MCS_CHANNEL_JOIN_REQUEST) (rdp, s)) (\<lambda>_.
     bindp (\<lambda>(rdp, s). on_packet (mcs_recv_channel_join_request (TransportDumpReplay rdp)) (rdp, s)) (\<lambda>channelId.
     on_rdp (
       bindp (rdp_server_transition_to_state CONNECTION_STATE_MCS_CHANNEL_JOIN_RESPONSE) (\<lambda>_.
       bindp (on_context (mcs_send_channel_join_confirm channelId)) (\<lambda>_.
       bindp (on_mcs_state (channel_joined channelId)) (\<lambda>_ rdp.
         let m = rdp_mcs rdp;
             allJoined = (\<forall>i < unat (channelCount m). joined (channels m ! i))
         in rdp_server_transition_to_state
              (if userChannelJoined m \<and> globalChannelJoined m \<and>
                  (messageChannelId m = 0 \<or> messageChannelJoined m) \<and> allJoined
               then CONNECTION_STATE_RDP_SECURITY_COMMENCEMENT
               else CONNECTION_STATE_MCS_CHANNEL_JOIN_REQUEST) rdp)))))) "

section \<open>Finalization\<close>

definition CTRLACTION_REQUEST_CONTROL :: u16 where "CTRLACTION_REQUEST_CONTROL = 1"
definition CTRLACTION_COOPERATE :: u16 where "CTRLACTION_COOPERATE = 4"
definition FONTLIST_FIRST :: u16 where "FONTLIST_FIRST = 1"
definition FONTLIST_LAST :: u16 where "FONTLIST_LAST = 2"

definition rdp_client_connect_finalize :: "'t rdpRdp hooks \<Rightarrow> (unit, 't rdpRdp) prog" where
  "rdp_client_connect_finalize H =
     bindp (rdp_client_transition_to_state H CONNECTION_STATE_FINALIZATION_SYNC) (\<lambda>_.
     bindp (rdp_send_client_synchronize_pdu H) (\<lambda>_.
     bindp (rdp_client_transition_to_state H CONNECTION_STATE_FINALIZATION_COOPERATE) (\<lambda>_.
     bindp (rdp_send_client_control_pdu H CTRLACTION_COOPERATE) (\<lambda>_.
     bindp (rdp_client_transition_to_state H CONNECTION_STATE_FINALIZATION_REQUEST_CONTROL) (\<lambda>_.
     bindp (rdp_send_client_control_pdu H CTRLACTION_REQUEST_CONTROL) (\<lambda>_.
     bindp (\<lambda>rdp.
       if \<not> rdp_finalize_is_flag_set rdp FINALIZE_DEACTIVATE_REACTIVATE \<and> BitmapCachePersistEnabled rdp
       then bindp (rdp_client_transition_to_state H CONNECTION_STATE_FINALIZATION_PERSISTENT_KEY_LIST) (\<lambda>_.
            rdp_send_client_persistent_key_list_pdu H) rdp
       else Ret () rdp) (\<lambda>_.
     bindp (rdp_client_transition_to_state H CONNECTION_STATE_FINALIZATION_FONT_LIST) (\<lambda>_.
     bindp (rdp_send_client_font_list_pdu H (FONTLIST_FIRST OR FONTLIST_LAST)) (\<lambda>_.
     rdp_client_transition_to_state H CONNECTION_STATE_FINALIZATION_CLIENT_SYNC)))))))))"

definition rdp_server_send_sync :: "'t rdpRdp hooks \<Rightarrow> (unit, 't rdpRdp) prog" where
  "rdp_server_send_sync H =
     bindp (rdp_server_transition_to_state CONNECTION_STATE_FINALIZATION_CLIENT_SYNC) (\<lambda>_.
     bindp (rdp_send_server_synchronize_pdu H) (\<lambda>_.
     bindp (rdp_server_transition_to_state CONNECTION_STATE_FINALIZATION_CLIENT_COOPERATE) (\<lambda>_.
     bindp (rdp_send_server_control_cooperate_pdu H) (\<lambda>_.
     bindp (rdp_finalize_reset_flags False) (\<lambda>_.
     rdp_server_transition_to_state CONNECTION_STATE_FINALIZATION_SYNC)))))"

section \<open>The order in which the channels are joined\<close>

definition join_targets :: "rdpMcs \<Rightarrow> u16 list" where
  "join_targets m =
     [userId m, MCS_GLOBAL_CHANNEL_ID] @
     (if messageChannelId m \<noteq> 0 then [messageChannelId m] else []) @
     map ChannelId (take (unat (channelCount m)) (channels m))"

definition join_offset :: "rdpMcs \<Rightarrow> nat" where
  "join_offset m = (if messageChannelId m \<noteq> 0 then 3 else 2)"

text \<open>The state in which the first \<open>k\<close> targets are joined.\<close>

definition joined_upto :: "nat \<Rightarrow> rdpMcs \<Rightarrow> rdpMcs" where
  "joined_upto k m =
     upd_channels (\<lambda>i c. c\<lparr>joined := i + join_offset m < k\<rparr>)
       (m\<lparr>userChannelJoined := 1 \<le> k, globalChannelJoined := 2 \<le> k,
          messageChannelJoined := messageChannelId m \<noteq> 0 \<and> 3 \<le> k\<rparr>)"

text \<open>Channel ids the exchange can tell apart.\<close>

definition joinable :: "rdpMcs \<Rightarrow> bool" where
  "joinable m \<longleftrightarrow> unat (channelCount m) \<le> length (channels m) \<and> MCS_BASE_CHANNEL_ID \<le> userId m \<and>
     distinct (join_targets m) \<and> 0 \<notin> set (join_targets m)"

lemma upd_channels_sel [simp]:
  "userId (upd_channels f m) = userId m" "messageChannelId (upd_channels f m) = messageChannelId m"
  "userChannelJoined (upd_channels f m) = userChannelJoined m"
  "globalChannelJoined (upd_channels f m) = globalChannelJoined m"
  "messageChannelJoined (upd_channels f m) = messageChannelJoined m"
  "channelCount (upd_channels f m) = channelCount m"
  "length (channels (upd_channels f m)) = length (channels m)"
  by (simp_all add: upd_channels_def)

lemma nth_upd_channels:
  "i < length (channels m) \<Longrightarrow> channels (upd_channels f m) ! i =
     (if i < unat (channelCount m) then f i (channels m ! i) else channels m ! i)"
  by (simp add: upd_channels_def)

lemma joined_upto_sel [simp]:
  "userId (joined_upto k m) = userId m" "messageChannelId (joined_upto k m) = messageChannelId m"
  "userChannelJoined (joined_upto k m) = (1 \<le> k)" "globalChannelJoined (joined_upto k m) = (2 \<le> k)"
  "messageChannelJoined (joined_upto k m) = (messageChannelId m \<noteq> 0 \<and> 3 \<le> k)"
  "channelCount (joined_upto k m) = channelCount m"
  "length (channels (joined_upto k m)) = length (channels m)"
  by (simp_all add: joined_upto_def)

lemma nth_joined_upto:
  "i < length (channels m) \<Longrightarrow> channels (joined_upto k m) ! i =
     (if i < unat (channelCount m) then (channels m ! i)\<lparr>joined := i + join_offset m < k\<rparr> else channels m ! i)"
  by (simp add: joined_upto_def nth_upd_channels)

lemma length_join_targets:
  "unat (channelCount m) \<le> length (channels m) \<Longrightarrow>
     length (join_targets m) = join_offset m + unat (channelCount m)"
  by (simp add: join_targets_def join_offset_def)

lemma nth_join_targets:
  "unat (channelCount m) \<le> length (channels m) \<Longrightarrow> i < unat (channelCount m) \<Longrightarrow>
     join_targets m ! (join_offset m + i) = ChannelId (channels m ! i)"
  by (simp add: join_targets_def join_offset_def numeral_3_eq_3)

lemma first_join_targets:
  "join_targets m ! 0 = userId m" "join_targets m ! Suc 0 = MCS_GLOBAL_CHANNEL_ID"
  "messageChannelId m \<noteq> 0 \<Longrightarrow> join_targets m ! 2 = messageChannelId m"
  by (simp_all add: join_targets_def)

text \<open>Two states that agree on everything but the channel list, and on every channel.\<close>

lemma rdpMcs_channels_eqI:
  assumes "m\<lparr>channels := []\<rparr> = m'\<lparr>channels := []\<rparr>" and "length (channels m) = length (channels m')"
    and "\<And>i. i < length (channels m) \<Longrightarrow> channels m ! i = channels m' ! i"
  shows "m = m'"
proof -
  have "channels m = channels m'" using assms(2,3) by (rule nth_equalityI)
  moreover have "m = (m\<lparr>channels := []\<rparr>)\<lparr>channels := channels m\<rparr>" by simp
  moreover have "m' = (m'\<lparr>channels := []\<rparr>)\<lparr>channels := channels m'\<rparr>" by simp
  ultimately show ?thesis using assms(1) by metis
qed

lemma upd_channels_rest: "(upd_channels f m)\<lparr>channels := []\<rparr> = m\<lparr>channels := []\<rparr>"
  by (simp add: upd_channels_def)

lemma first_unjoined_eq:
  "j \<le> n \<Longrightarrow> n \<le> length cs \<Longrightarrow> (\<forall>i < j. joined (cs ! i)) \<Longrightarrow> (j < n \<longrightarrow> \<not> joined (cs ! j)) \<Longrightarrow>
     first_unjoined n cs = j"
proof (induction n cs arbitrary: j rule: first_unjoined.induct)
  case (3 n c cs)
  show ?case
  proof (cases j)
    case 0
    with "3.prems" show ?thesis by simp
  next
    case (Suc j')
    have "first_unjoined n cs = j'" by (rule "3.IH") (use "3.prems" Suc in force)+
    moreover have "joined c" using "3.prems" Suc by force
    ultimately show ?thesis using Suc by simp
  qed
qed simp_all

lemma first_unjoined_upto:
  assumes "unat (channelCount m) \<le> length (channels m)" and "join_offset m \<le> k"
    and "k \<le> join_offset m + unat (channelCount m)"
  shows "first_unjoined (unat (channelCount m)) (channels (joined_upto k m)) = k - join_offset m"
  using assms by (intro first_unjoined_eq) (auto simp: nth_joined_upto)

subsection \<open>The server marks what it confirms\<close>

lemma channel_joined_upto:
  assumes ok: "joinable m" and k: "k < length (join_targets m)"
  shows "channel_joined (join_targets m ! k) (joined_upto k m) = joined_upto (Suc k) m"
proof -
  have len: "unat (channelCount m) \<le> length (channels m)" and dist: "distinct (join_targets m)"
    and nz: "0 \<notin> set (join_targets m)"
    using ok by (simp_all add: joinable_def)
  have two: "0 < length (join_targets m)" "Suc 0 < length (join_targets m)"
    by (simp_all add: join_targets_def)
  have same: "(join_targets m ! k = join_targets m ! j) = (k = j)" if "j < length (join_targets m)" for j
    using dist k that by (simp add: nth_eq_iff_index_eq)
  have u: "(join_targets m ! k = userId m) = (k = 0)"
    using same [OF two(1)] by (simp only: first_join_targets)
  have g: "(join_targets m ! k = MCS_GLOBAL_CHANNEL_ID) = (k = Suc 0)"
    using same [OF two(2)] by (simp only: first_join_targets)
  have t0: "join_targets m ! k \<noteq> 0" using nz k by (metis nth_mem)
  have msg: "(join_targets m ! k = messageChannelId m) = (messageChannelId m \<noteq> 0 \<and> k = 2)"
  proof (cases "messageChannelId m = 0")
    case True
    with t0 show ?thesis by simp
  next
    case False
    then have "2 < length (join_targets m)" by (simp add: join_targets_def)
    with False same [of 2] show ?thesis by (simp add: first_join_targets)
  qed
  have ch: "(ChannelId (channels m ! i) = join_targets m ! k) = (k = join_offset m + i)"
    if "i < unat (channelCount m)" for i
    using same [of "join_offset m + i"] that len by (simp add: nth_join_targets length_join_targets eq_commute)
  have le_bits: "Suc 0 \<le> k \<or> k = 0" "(2 \<le> k \<or> k = Suc 0) = (Suc 0 \<le> k)"
    "(messageChannelId m \<noteq> 0 \<and> 3 \<le> k \<or> messageChannelId m \<noteq> 0 \<and> k = 2) =
     (messageChannelId m \<noteq> 0 \<and> 2 \<le> k)"
    by auto
  show ?thesis
  proof (rule rdpMcs_channels_eqI)
    show "(channel_joined (join_targets m ! k) (joined_upto k m))\<lparr>channels := []\<rparr> =
        (joined_upto (Suc k) m)\<lparr>channels := []\<rparr>"
      by (simp add: channel_joined_def upd_channels_rest joined_upto_def u g msg)
         (simp add: upd_channels_def le_bits)
    show "length (channels (channel_joined (join_targets m ! k) (joined_upto k m))) =
        length (channels (joined_upto (Suc k) m))"
      by (simp add: channel_joined_def)
  next
    fix i assume "i < length (channels (channel_joined (join_targets m ! k) (joined_upto k m)))"
    then have i: "i < length (channels m)" by (simp add: channel_joined_def)
    have lt: "(i + join_offset m < Suc k) = (i + join_offset m < k)" if "k \<noteq> join_offset m + i"
      using that by auto
    from i show "channels (channel_joined (join_targets m ! k) (joined_upto k m)) ! i =
        channels (joined_upto (Suc k) m) ! i"
      by (auto simp: channel_joined_def nth_upd_channels nth_joined_upto ch lt)
  qed
qed

subsection \<open>The client asks for the next\<close>

lemma joined_upto_flags:
  assumes "Suc k \<le> join_offset m"
  shows "joined_upto (Suc k) m = (joined_upto k m)\<lparr>userChannelJoined := True,
     globalChannelJoined := 1 \<le> k, messageChannelJoined := messageChannelId m \<noteq> 0 \<and> 2 \<le> k\<rparr>"
proof (rule rdpMcs_channels_eqI)
  show "(joined_upto (Suc k) m)\<lparr>channels := []\<rparr> = ((joined_upto k m)\<lparr>userChannelJoined := True,
     globalChannelJoined := 1 \<le> k, messageChannelJoined := messageChannelId m \<noteq> 0 \<and> 2 \<le> k\<rparr>)\<lparr>channels := []\<rparr>"
    by (simp add: joined_upto_def upd_channels_def)
qed (use assms in \<open>auto simp: nth_joined_upto\<close>)

lemma joined_upto_channel:
  assumes "join_offset m \<le> k"
  shows "joined_upto (Suc k) m =
     upd_channels (\<lambda>j c. if j = k - join_offset m then c\<lparr>joined := True\<rparr> else c) (joined_upto k m)"
proof (rule rdpMcs_channels_eqI)
  have o: "2 \<le> join_offset m" "messageChannelId m \<noteq> 0 \<Longrightarrow> join_offset m = 3"
    by (simp_all add: join_offset_def)
  then have "Suc 0 \<le> k" "2 \<le> k" "(messageChannelId m \<noteq> 0 \<and> 3 \<le> k) = (messageChannelId m \<noteq> 0)"
    "(messageChannelId m \<noteq> 0 \<and> 3 \<le> Suc k) = (messageChannelId m \<noteq> 0)"
    using assms by auto
  then show "(joined_upto (Suc k) m)\<lparr>channels := []\<rparr> = (upd_channels (\<lambda>j c. if j = k - join_offset m then c\<lparr>joined := True\<rparr> else c)
      (joined_upto k m))\<lparr>channels := []\<rparr>"
    by (simp add: upd_channels_rest) (simp add: joined_upto_def upd_channels_def)
next
  fix i assume "i < length (channels (joined_upto (Suc k) m))"
  then have i: "i < length (channels m)" by simp
  have lt: "(i + join_offset m < Suc k) = (i + join_offset m < k)" if "i \<noteq> k - join_offset m"
    using that assms by auto
  show "channels (joined_upto (Suc k) m) ! i =
      channels (upd_channels (\<lambda>j c. if j = k - join_offset m then c\<lparr>joined := True\<rparr> else c) (joined_upto k m)) ! i"
    using i assms by (auto simp: nth_upd_channels nth_joined_upto lt)
qed simp

text \<open>Subscribers that do not stop the connection, and a client info packet that is sent.\<close>

definition quiet :: "'t rdpRdp hooks \<Rightarrow> bool" where
  "quiet H \<longleftrightarrow> (\<forall>st a r. 0 \<le> PubSub_OnConnectionStateChange H st a r)"

definition info_sent :: "'t rdpRdp hooks \<Rightarrow> bool" where
  "info_sent H \<longleftrightarrow> (\<forall>r. \<exists>r'. rdp_send_client_info H r = Ret () r' \<and> rdp_mcs r' = rdp_mcs r)"

lemma client_transition:
  assumes "quiet H" and "\<not> resets_orders st" and "st \<noteq> CONNECTION_STATE_CAPABILITIES_EXCHANGE_CONFIRM_ACTIVE"
  shows "rdp_client_transition_to_state H st rdp = Ret () (rdp\<lparr>state := st\<rparr>)"
  using assms by (simp add: rdp_client_transition_to_state_def bindp_def rdp_set_state_def quiet_def not_less
      del: resets_orders.simps)

text \<open>A side whose transport queues the packets and whose allocator grants them.\<close>

definition wired :: "u8 list list rdpRdp \<Rightarrow> bool" where
  "wired rdp \<longleftrightarrow> WritePdu (rdp_context rdp) = Some queue_pdu \<and> (\<forall>n. heap (rdp_context rdp) n)"

definition sent :: "u8 list \<Rightarrow> u8 list list rdpRdp \<Rightarrow> u8 list list rdpRdp" where
  "sent bs rdp = rdp\<lparr>rdp_context := (rdp_context rdp)\<lparr>transport := transport (rdp_context rdp) @ [bs]\<rparr>\<rparr>"

lemma sent_sel [simp]:
  "rdp_mcs (sent bs rdp) = rdp_mcs rdp" "state (sent bs rdp) = state rdp" "wired (sent bs rdp) = wired rdp"
  "transport (rdp_context (sent bs rdp)) = transport (rdp_context rdp) @ [bs]"
  "UseRdpSecurityLayer (sent bs rdp) = UseRdpSecurityLayer rdp"
  "TransportDumpReplay (sent bs rdp) = TransportDumpReplay rdp"
  by (simp_all add: sent_def wired_def)

lemma set_mcs_sel [simp]:
  "rdp_mcs (set_mcs m rdp) = m" "state (set_mcs m rdp) = state rdp" "wired (set_mcs m rdp) = wired rdp"
  "transport (rdp_context (set_mcs m rdp)) = transport (rdp_context rdp)"
  "UseRdpSecurityLayer (set_mcs m rdp) = UseRdpSecurityLayer rdp"
  "TransportDumpReplay (set_mcs m rdp) = TransportDumpReplay rdp"
  by (simp_all add: set_mcs_def wired_def)

lemma set_mcs_same [simp]: "set_mcs (rdp_mcs rdp) rdp = rdp" "set_mcs m (set_mcs m' rdp) = set_mcs m rdp"
  by (simp_all add: set_mcs_def)

lemma state_wired [simp]: "wired (rdp\<lparr>state := st\<rparr>) = wired rdp"
  by (simp add: wired_def)

lemma client_join_channel:
  assumes "quiet H" and "wired rdp" and "MCS_BASE_CHANNEL_ID \<le> userId (rdp_mcs rdp)"
  shows "rdp_client_join_channel H chan rdp = Ret ()
     ((sent (enc_channel_join_request (userId (rdp_mcs rdp)) chan) rdp)\<lparr>state := CONNECTION_STATE_MCS_CHANNEL_JOIN_RESPONSE\<rparr>)"
proof -
  let ?uid = "userId (rdp_mcs rdp)"
  have "mcs_send_channel_join_request (snd (?uid, chan)) (rdp_context rdp) =
     Ret () ((rdp_context rdp)\<lparr>mcs := rdp_mcs rdp,
       transport := transport (rdp_context rdp) @ [enc_channel_join_request (fst (?uid, chan)) (snd (?uid, chan))]\<rparr>)"
    by (rule join_request.send_queue) (use assms in \<open>simp_all add: join_ready_def wired_def\<close>)
  then have "on_context (mcs_send_channel_join_request chan) (rdp\<lparr>state := st\<rparr>) =
     Ret () ((sent (enc_channel_join_request ?uid chan) rdp)\<lparr>state := st\<rparr>)" for st
    by (simp add: on_context_def sent_def)
  then show ?thesis
    by (simp add: rdp_client_join_channel_def bindp_def client_transition [OF assms(1)])
qed

text \<open>The client after it has joined \<open>k\<close> targets and asked for the next one.\<close>

definition asked :: "rdpMcs \<Rightarrow> nat \<Rightarrow> u8 list list rdpRdp \<Rightarrow> u8 list list rdpRdp" where
  "asked m k rdp =
     (sent (enc_channel_join_request (userId m) (join_targets m ! k)) (set_mcs (joined_upto k m) rdp))
       \<lparr>state := CONNECTION_STATE_MCS_CHANNEL_JOIN_RESPONSE\<rparr>"

lemma asked_set_mcs [simp]: "asked m k (set_mcs m' rdp) = asked m k rdp"
  by (simp add: asked_def)

lemma client_asks:
  assumes "joinable m" and "quiet H" and "wired rdp" and "rdp_mcs rdp = joined_upto k m"
  shows "rdp_client_join_channel H (join_targets m ! k) rdp = Ret () (asked m k rdp)"
  using client_join_channel [OF assms(2,3), of "join_targets m ! k"] assms(1,4)
  by (simp add: asked_def joinable_def) (metis set_mcs_same(1))

lemma join_next_step:
  assumes ok: "joinable m" and q: "quiet H" "wired rdp" and m: "rdp_mcs rdp = joined_upto k m"
    and k: "join_offset m \<le> k" "k \<le> length (join_targets m)"
  shows "join_next H (k - join_offset m) rdp =
     (if k < length (join_targets m) then Ret False (asked m k rdp) else Ret True rdp)"
proof -
  have len: "unat (channelCount m) \<le> length (channels m)" using ok by (simp add: joinable_def)
  show ?thesis
  proof (cases "k < length (join_targets m)")
    case True
    then have i: "k - join_offset m < unat (channelCount m)"
      using len k by (simp add: length_join_targets)
    then have "ChannelId (channels (joined_upto k m) ! (k - join_offset m)) = join_targets m ! k"
      using len k nth_join_targets [OF len i] by (simp add: nth_joined_upto)
    with i True client_asks [OF ok q m] show ?thesis
      by (simp add: join_next_def m bindp_def Let_def)
  next
    case False
    then have "\<not> k - join_offset m < unat (channelCount m)"
      using len k by (simp add: length_join_targets)
    with False show ?thesis by (simp add: join_next_def m)
  qed
qed

lemma channel_confirmed_step:
  assumes ok: "joinable m" and q: "quiet H" "wired rdp" and m: "rdp_mcs rdp = joined_upto k m"
    and k: "k < length (join_targets m)"
  shows "channel_confirmed H (join_targets m ! k) rdp =
     (if Suc k < length (join_targets m) then Ret (k = 0) (asked m (Suc k) rdp)
      else Ret True (set_mcs (joined_upto (Suc k) m) rdp))"
proof -
  have len: "unat (channelCount m) \<le> length (channels m)" using ok by (simp add: joinable_def)
  let ?r = "set_mcs (joined_upto (Suc k) m) rdp"
  have r: "wired ?r" "rdp_mcs ?r = joined_upto (Suc k) m"
    using q by simp_all
  note asks = client_asks [OF ok q(1) r(1,2)] and nxt = join_next_step [OF ok q(1) r(1,2)]
  have two: "Suc 0 < length (join_targets m)" by (simp add: join_targets_def)
  consider "k = 0" | "k = 1" "messageChannelId m \<noteq> 0" | "k = 1" "messageChannelId m = 0"
    | "k = 2" "messageChannelId m \<noteq> 0" | "join_offset m \<le> k"
  proof -
    have "k = 0 \<or> k = 1 \<or> (k = 2 \<and> messageChannelId m \<noteq> 0) \<or> join_offset m \<le> k"
      by (cases "messageChannelId m = 0") (auto simp: join_offset_def)
    then show thesis using that by blast
  qed
  then show ?thesis
  proof cases
    case 1
    have "(joined_upto k m)\<lparr>userChannelJoined := True\<rparr> = joined_upto (Suc k) m"
      using joined_upto_flags [of k m] 1 by (simp add: join_offset_def)
    with 1 asks two show ?thesis
      by (simp add: channel_confirmed_def m Let_def bindp_def on_mcs_state_def first_join_targets r)
  next
    case 2
    have "(joined_upto k m)\<lparr>globalChannelJoined := True\<rparr> = joined_upto (Suc k) m"
      using joined_upto_flags [of k m] 2 by (simp add: join_offset_def joined_upto_def upd_channels_def)
    moreover have "2 < length (join_targets m)" using 2 by (simp add: join_targets_def)
    ultimately show ?thesis using 2 asks
      by (simp add: channel_confirmed_def m Let_def bindp_def on_mcs_state_def first_join_targets
          first_join_targets(3) [unfolded numeral_2_eq_2] r numeral_2_eq_2)
  next
    case 3
    have "(joined_upto k m)\<lparr>globalChannelJoined := True\<rparr> = joined_upto (Suc k) m"
      using joined_upto_flags [of k m] 3 by (simp add: join_offset_def joined_upto_def upd_channels_def)
    with 3 nxt k show ?thesis
      by (simp add: channel_confirmed_def m Let_def bindp_def on_mcs_state_def first_join_targets r
          join_offset_def numeral_2_eq_2)
  next
    case 4
    have "(joined_upto k m)\<lparr>messageChannelJoined := True\<rparr> = joined_upto (Suc k) m"
      using joined_upto_flags [of k m] 4 by (simp add: join_offset_def joined_upto_def upd_channels_def)
    with 4 nxt k show ?thesis
      by (simp add: channel_confirmed_def m Let_def bindp_def on_mcs_state_def first_join_targets r
          join_offset_def)
  next
    case 5
    let ?i = "k - join_offset m"
    have i: "?i < unat (channelCount m)" using k 5 len by (simp add: length_join_targets)
    have first: "first_unjoined (unat (channelCount m)) (channels (joined_upto k m)) = ?i"
      by (rule first_unjoined_upto [OF len 5]) (use k len in \<open>simp add: length_join_targets\<close>)
    have id: "ChannelId (channels (joined_upto k m) ! ?i) = join_targets m ! k"
      using nth_join_targets [OF len i] i len 5 by (simp add: nth_joined_upto)
    have k3: "Suc 0 \<le> k" "2 \<le> k" "messageChannelId m \<noteq> 0 \<Longrightarrow> 3 \<le> k"
      using 5 by (auto simp: join_offset_def split: if_splits)
    have "channel_confirmed H (join_targets m ! k) rdp =
        bindp (on_mcs_state (upd_channels (\<lambda>j c. if j = ?i then c\<lparr>joined := True\<rparr> else c))) (\<lambda>_.
        join_next H (?i + 1)) rdp"
      using k3 by (auto simp: channel_confirmed_def m Let_def first id bindp_def)
    also have "\<dots> = join_next H (Suc k - join_offset m) ?r"
      using joined_upto_channel [OF 5] 5 by (simp add: bindp_def on_mcs_state_def m Suc_diff_le)
    finally show ?thesis using nxt 5 k k3 by (simp add: r)
  qed
qed

text \<open>A confirmation of any other channel than the one asked for is refused.\<close>

lemma channel_confirmed_wrong:
  assumes ok: "joinable m" and m: "rdp_mcs rdp = joined_upto k m" and k: "k < length (join_targets m)"
    and ne: "channelId \<noteq> join_targets m ! k"
  shows "channel_confirmed H channelId rdp = Fail rdp"
proof -
  have len: "unat (channelCount m) \<le> length (channels m)" using ok by (simp add: joinable_def)
  consider "k = 0" | "k = 1" | "k = 2" "messageChannelId m \<noteq> 0" | "join_offset m \<le> k"
  proof -
    have "k = 0 \<or> k = 1 \<or> (k = 2 \<and> messageChannelId m \<noteq> 0) \<or> join_offset m \<le> k"
      by (cases "messageChannelId m = 0") (auto simp: join_offset_def)
    then show thesis using that by blast
  qed
  then show ?thesis
  proof cases
    case 4
    let ?i = "k - join_offset m"
    have i: "?i < unat (channelCount m)" using k 4 len by (simp add: length_join_targets)
    have first: "first_unjoined (unat (channelCount m)) (channels (joined_upto k m)) = ?i"
      by (rule first_unjoined_upto [OF len 4]) (use k len in \<open>simp add: length_join_targets\<close>)
    have id: "ChannelId (channels (joined_upto k m) ! ?i) = join_targets m ! k"
      using nth_join_targets [OF len i] i len 4 by (simp add: nth_joined_upto)
    have k3: "Suc 0 \<le> k" "2 \<le> k" "messageChannelId m \<noteq> 0 \<Longrightarrow> 3 \<le> k"
      using 4 by (auto simp: join_offset_def split: if_splits)
    with ne i show ?thesis
      by (auto simp: channel_confirmed_def m Let_def first id bindp_def)
  qed (use ne in \<open>simp_all add: channel_confirmed_def m Let_def bindp_def first_join_targets\<close>)
qed

subsection \<open>One confirmation, one request\<close>

lemma client_sends_info:
  assumes "quiet H" and "info_sent H" and "\<not> UseRdpSecurityLayer rdp"
  shows "\<exists>rdp'. rdp_client_send_client_info_and_change_state H rdp = Ret () rdp' \<and>
     rdp_mcs rdp' = rdp_mcs rdp \<and> state rdp' = CONNECTION_STATE_CONNECT_TIME_AUTO_DETECT_REQUEST"
proof -
  obtain r' where r': "rdp_send_client_info H (rdp\<lparr>state := CONNECTION_STATE_SECURE_SETTINGS_EXCHANGE\<rparr>) = Ret () r'"
    "rdp_mcs r' = rdp_mcs rdp"
    using assms(2) by (fastforce simp: info_sent_def)
  then show ?thesis
    using assms(3)
    by (simp add: rdp_client_send_client_info_and_change_state_def rdp_client_establish_keys_def bindp_def
        client_transition [OF assms(1)])
qed

lemma asked_sel [simp]:
  "rdp_mcs (asked m k rdp) = joined_upto k m" "wired (asked m k rdp) = wired rdp"
  "state (asked m k rdp) = CONNECTION_STATE_MCS_CHANNEL_JOIN_RESPONSE"
  "UseRdpSecurityLayer (asked m k rdp) = UseRdpSecurityLayer rdp"
  "transport (rdp_context (asked m k rdp)) =
     transport (rdp_context rdp) @ [enc_channel_join_request (userId m) (join_targets m ! k)]"
  by (simp_all add: asked_def)

lemma client_handles_confirm:
  assumes ok: "joinable m" and H: "quiet H" "info_sent H" and rdp: "wired rdp" "\<not> UseRdpSecurityLayer rdp"
    and m: "rdp_mcs rdp = joined_upto k m" and k: "k < length (join_targets m)"
    and s: "wf_stream s" "rest s = enc_channel_join_confirm (userId m) (join_targets m ! k)"
  shows "\<exists>rdp'. rdp_client_connect_mcs_channel_join_confirm H (rdp, s) = Ret () (rdp', adv 15 s) \<and>
     (if Suc k < length (join_targets m) then rdp' = asked m (Suc k) rdp
      else rdp_mcs rdp' = joined_upto (Suc k) m \<and> state rdp' = CONNECTION_STATE_CONNECT_TIME_AUTO_DETECT_REQUEST)"
proof -
  have base: "MCS_BASE_CHANNEL_ID \<le> userId m" using ok by (simp add: joinable_def)
  have 1: "on_packet mcs_recv_channel_join_confirm (rdp, s) = Ret (join_targets m ! k) (rdp, adv 15 s)"
    using recv_channel_join_confirm [OF base s] by (simp add: on_packet_def)
  note step = channel_confirmed_step [OF ok H(1) rdp(1) m k]
  show ?thesis
  proof (cases "Suc k < length (join_targets m)")
    case True
    then show ?thesis
      using step by (auto simp: rdp_client_connect_mcs_channel_join_confirm_def bindp_def 1 on_rdp_def)
  next
    case False
    have two: "Suc 0 < length (join_targets m)" by (simp add: join_targets_def)
    with False k have "2 \<le> Suc k" by simp
    moreover obtain rdp' where "rdp_client_send_client_info_and_change_state H (set_mcs (joined_upto (Suc k) m) rdp) = Ret () rdp'"
      "rdp_mcs rdp' = joined_upto (Suc k) m" "state rdp' = CONNECTION_STATE_CONNECT_TIME_AUTO_DETECT_REQUEST"
      using client_sends_info [OF H, of "set_mcs (joined_upto (Suc k) m) rdp"] rdp(2) by auto
    ultimately show ?thesis
      using step False
      by (simp add: rdp_client_connect_mcs_channel_join_confirm_def bindp_def 1 on_rdp_def)
  qed
qed

text \<open>The server after it has confirmed the \<open>k\<close>-th target.\<close>

definition confirmed :: "rdpMcs \<Rightarrow> nat \<Rightarrow> u8 list list rdpRdp \<Rightarrow> u8 list list rdpRdp" where
  "confirmed m k rdp =
     (sent (enc_channel_join_confirm (userId m) (join_targets m ! k)) (set_mcs (joined_upto (Suc k) m) rdp))
       \<lparr>state := if Suc k = length (join_targets m) then CONNECTION_STATE_RDP_SECURITY_COMMENCEMENT
                 else CONNECTION_STATE_MCS_CHANNEL_JOIN_REQUEST\<rparr>"

lemma confirmed_sel [simp]:
  "rdp_mcs (confirmed m k rdp) = joined_upto (Suc k) m" "wired (confirmed m k rdp) = wired rdp"
  "state (confirmed m k rdp) = (if Suc k = length (join_targets m)
     then CONNECTION_STATE_RDP_SECURITY_COMMENCEMENT else CONNECTION_STATE_MCS_CHANNEL_JOIN_REQUEST)"
  "transport (rdp_context (confirmed m k rdp)) =
     transport (rdp_context rdp) @ [enc_channel_join_confirm (userId m) (join_targets m ! k)]"
  by (simp_all add: confirmed_def)

lemma all_joined_upto:
  assumes "joinable m" and "k < length (join_targets m)"
  shows "(userChannelJoined (joined_upto (Suc k) m) \<and> globalChannelJoined (joined_upto (Suc k) m) \<and>
      (messageChannelId (joined_upto (Suc k) m) = 0 \<or> messageChannelJoined (joined_upto (Suc k) m)) \<and>
      (\<forall>i < unat (channelCount (joined_upto (Suc k) m)). joined (channels (joined_upto (Suc k) m) ! i)))
     \<longleftrightarrow> Suc k = length (join_targets m)"
proof -
  have len: "unat (channelCount m) \<le> length (channels m)" using assms(1) by (simp add: joinable_def)
  have all: "(\<forall>i < unat (channelCount m). joined (channels (joined_upto (Suc k) m) ! i)) \<longleftrightarrow>
      (\<forall>i < unat (channelCount m). i + join_offset m < Suc k)"
    using len by (auto simp: nth_joined_upto)
  let ?n = "unat (channelCount m)"
  have A: "(\<forall>i < ?n. i + join_offset m < Suc k) \<longleftrightarrow> ?n = 0 \<or> ?n + join_offset m \<le> Suc k"
  proof (cases ?n)
    case (Suc n)
    then show ?thesis by (auto simp: less_Suc_eq_le)
  qed simp
  have K: "k < join_offset m + ?n" using assms(2) len by (simp add: length_join_targets)
  have L: "length (join_targets m) = join_offset m + ?n" by (rule length_join_targets [OF len])
  show ?thesis
    unfolding joined_upto_sel all A L using K
    by (cases "messageChannelId m = 0") (simp_all add: join_offset_def, arith+)
qed

lemma server_transition_early:
  assumes "state rdp < CONNECTION_STATE_RDP_SECURITY_COMMENCEMENT"
  shows "rdp_server_transition_to_state st rdp = Ret () (rdp\<lparr>state := st\<rparr>)"
  using assms by (simp add: rdp_server_transition_to_state_def rdp_get_state_def rdp_set_state_def
      not_le [symmetric])

lemma join_states_early:
  "CONNECTION_STATE_MCS_CHANNEL_JOIN_REQUEST < CONNECTION_STATE_RDP_SECURITY_COMMENCEMENT"
  "CONNECTION_STATE_MCS_CHANNEL_JOIN_RESPONSE < CONNECTION_STATE_RDP_SECURITY_COMMENCEMENT"
  by (simp_all add: less_CONNECTION_STATE_def state_codes)

lemma server_handles_request:
  assumes ok: "joinable m" and rdp: "wired rdp" "state rdp = CONNECTION_STATE_MCS_CHANNEL_JOIN_REQUEST"
    and m: "rdp_mcs rdp = joined_upto k m" and k: "k < length (join_targets m)"
    and s: "wf_stream s" "rest s = enc_channel_join_request (userId m) (join_targets m ! k)"
  shows "rdp_server_accept_mcs_channel_join_request (rdp, s) = Ret () (confirmed m k rdp, adv 12 s)"
proof -
  let ?t = "join_targets m ! k"
  have base: "MCS_BASE_CHANNEL_ID \<le> userId m" using ok by (simp add: joinable_def)
  have 1: "on_packet (mcs_recv_channel_join_request r) (rdp, s) = Ret ?t (rdp, adv 12 s)" for r
  proof -
    have "(x :: rdpMcs)\<lparr>userId := userId x\<rparr> = x" for x by simp
    from this [of "joined_upto k m"] have "(rdp_mcs rdp)\<lparr>userId := userId m\<rparr> = rdp_mcs rdp" by (simp add: m)
    with recv_channel_join_request [OF base s, of r "rdp_mcs rdp"] show ?thesis
      by (simp add: on_packet_def m [symmetric]) (simp add: m)
  qed
  let ?r = "rdp\<lparr>state := CONNECTION_STATE_MCS_CHANNEL_JOIN_RESPONSE\<rparr>"
  have "mcs_send_channel_join_confirm (snd (userId m, ?t)) (rdp_context rdp) =
     Ret () ((rdp_context rdp)\<lparr>mcs := rdp_mcs rdp,
       transport := transport (rdp_context rdp) @ [enc_channel_join_confirm (fst (userId m, ?t)) (snd (userId m, ?t))]\<rparr>)"
    by (rule join_confirm.send_queue) (use rdp m base in \<open>simp_all add: join_ready_def wired_def\<close>)
  then have 2: "on_context (mcs_send_channel_join_confirm ?t) ?r = Ret () (sent (enc_channel_join_confirm (userId m) ?t) ?r)"
    by (simp add: on_context_def sent_def)
  have 3: "on_mcs_state (channel_joined ?t) (sent bs ?r) = Ret () (set_mcs (joined_upto (Suc k) m) (sent bs ?r))" for bs
    using channel_joined_upto [OF ok k] m by (simp add: on_mcs_state_def)
  let ?e = "set_mcs (joined_upto (Suc k) m) (sent (enc_channel_join_confirm (userId m) ?t) ?r)"
  have 4: "rdp_server_transition_to_state st ?e = Ret () (?e\<lparr>state := st\<rparr>)" for st
    by (rule server_transition_early) (simp add: join_states_early)
  have 5: "?e\<lparr>state := if Suc k = length (join_targets m) then CONNECTION_STATE_RDP_SECURITY_COMMENCEMENT
      else CONNECTION_STATE_MCS_CHANNEL_JOIN_REQUEST\<rparr> = confirmed m k rdp"
    by (simp add: confirmed_def set_mcs_def sent_def)
  have 6: "rdp_server_transition_to_state CONNECTION_STATE_MCS_CHANNEL_JOIN_RESPONSE rdp = Ret () ?r"
    by (rule server_transition_early) (simp add: rdp(2) join_states_early)
  have 7: "rdp_mcs ?e = joined_upto (Suc k) m" by simp
  show ?thesis
    using rdp(2)
    by (simp add: rdp_server_accept_mcs_channel_join_request_def bindp_def rdp_is_reached_state_def
        rdp_get_state_def 1 on_rdp_def 6 2 3 Let_def 7 all_joined_upto [OF ok k] 4 5 del: set_mcs_sel joined_upto_sel)
qed

subsection \<open>The whole exchange\<close>

definition packet :: "u8 list \<Rightarrow> wStream" where
  "packet bs = Stream_StaticInit (\<lambda>_. True) bs"

lemma packet_wf: "length bs \<le> 1000 \<Longrightarrow> wf_stream (packet bs)" "rest (packet bs) = bs"
  by (simp_all add: packet_def Stream_StaticInit_def wf_stream_def rest_def bounds_defs)

text \<open>The last packet of the client goes to the server, and the answer of the server back.\<close>

definition join_round ::
  "u8 list list rdpRdp hooks \<Rightarrow> u8 list list rdpRdp \<times> u8 list list rdpRdp \<Rightarrow>
     (u8 list list rdpRdp \<times> u8 list list rdpRdp) option" where
  "join_round H cs =
     (case rdp_server_accept_mcs_channel_join_request
             (snd cs, packet (last (transport (rdp_context (fst cs))))) of
        Ret _ (server, _) \<Rightarrow>
          (case rdp_client_connect_mcs_channel_join_confirm H
                  (fst cs, packet (last (transport (rdp_context server)))) of
             Ret _ (client, _) \<Rightarrow> Some (client, server)
           | _ \<Rightarrow> None)
      | _ \<Rightarrow> None)"

fun join_rounds ::
  "nat \<Rightarrow> u8 list list rdpRdp hooks \<Rightarrow> u8 list list rdpRdp \<times> u8 list list rdpRdp \<Rightarrow>
     (u8 list list rdpRdp \<times> u8 list list rdpRdp) option" where
  "join_rounds 0 H cs = Some cs"
| "join_rounds (Suc n) H cs = (case join_rounds n H cs of None \<Rightarrow> None | Some cs' \<Rightarrow> join_round H cs')"

text \<open>Both sides after \<open>k\<close> rounds.\<close>

definition in_round :: "nat \<Rightarrow> rdpMcs \<Rightarrow> rdpMcs \<Rightarrow> u8 list list rdpRdp \<times> u8 list list rdpRdp \<Rightarrow> bool" where
  "in_round k m ms = (\<lambda>(client, server).
     wired client \<and> wired server \<and> \<not> UseRdpSecurityLayer client \<and>
     rdp_mcs client = joined_upto k m \<and> rdp_mcs server = joined_upto k ms \<and>
     state client = CONNECTION_STATE_MCS_CHANNEL_JOIN_RESPONSE \<and>
     state server = CONNECTION_STATE_MCS_CHANNEL_JOIN_REQUEST \<and>
     last (transport (rdp_context client)) = enc_channel_join_request (userId m) (join_targets m ! k))"

definition all_joined :: "rdpMcs \<Rightarrow> bool" where
  "all_joined m \<longleftrightarrow> userChannelJoined m \<and> globalChannelJoined m \<and>
     (messageChannelId m = 0 \<or> messageChannelJoined m) \<and>
     (\<forall>i < unat (channelCount m). joined (channels m ! i))"

lemma joined_upto_all:
  "joinable m \<Longrightarrow> all_joined (joined_upto (length (join_targets m)) m)"
proof -
  assume ok: "joinable m"
  obtain k where k: "length (join_targets m) = Suc k" by (cases "join_targets m") (auto simp: join_targets_def)
  with all_joined_upto [OF ok, of k] show ?thesis by (simp add: all_joined_def del: joined_upto_sel)
qed

lemma join_round_step:
  assumes m: "joinable m" "joinable ms" "join_targets ms = join_targets m" "userId ms = userId m"
    and H: "quiet H" "info_sent H" and at: "in_round k m ms cs" and k: "k < length (join_targets m)"
  shows "\<exists>cs'. join_round H cs = Some cs' \<and>
     (if Suc k < length (join_targets m) then in_round (Suc k) m ms cs'
      else rdp_mcs (fst cs') = joined_upto (Suc k) m \<and> rdp_mcs (snd cs') = joined_upto (Suc k) ms \<and>
           state (fst cs') = CONNECTION_STATE_CONNECT_TIME_AUTO_DETECT_REQUEST \<and>
           state (snd cs') = CONNECTION_STATE_RDP_SECURITY_COMMENCEMENT)"
proof -
  obtain client server where cs: "cs = (client, server)" by (cases cs)
  note c = at [unfolded in_round_def cs prod.case]
  let ?s = "packet (last (transport (rdp_context client)))"
  have 1: "rdp_server_accept_mcs_channel_join_request (server, ?s) = Ret () (confirmed ms k server, adv 12 ?s)"
    by (rule server_handles_request [OF m(2)]) (use c m k in \<open>auto simp: packet_wf\<close>)
  let ?t = "packet (enc_channel_join_confirm (userId m) (join_targets m ! k))"
  obtain client' where 2: "rdp_client_connect_mcs_channel_join_confirm H (client, ?t) = Ret () (client', adv 15 ?t)"
    and c': "if Suc k < length (join_targets m) then client' = asked m (Suc k) client
      else rdp_mcs client' = joined_upto (Suc k) m \<and> state client' = CONNECTION_STATE_CONNECT_TIME_AUTO_DETECT_REQUEST"
    using client_handles_confirm [OF m(1) H, of client k ?t] c k by (auto simp: packet_wf)
  have "join_round H cs = Some (client', confirmed ms k server)"
    using 1 2 m by (simp add: join_round_def cs)
  then show ?thesis
    using c c' m(3) k by (auto simp: in_round_def)
qed

lemma join_rounds_in_round:
  assumes m: "joinable m" "joinable ms" "join_targets ms = join_targets m" "userId ms = userId m"
    and H: "quiet H" "info_sent H" and at: "in_round 0 m ms cs"
  shows "k < length (join_targets m) \<Longrightarrow> \<exists>cs'. join_rounds k H cs = Some cs' \<and> in_round k m ms cs'"
proof (induction k)
  case 0
  with at show ?case by simp
next
  case (Suc k)
  then obtain cs' where "join_rounds k H cs = Some cs'" "in_round k m ms cs'" by auto
  with join_round_step [OF m H this(2)] Suc.prems show ?case by auto
qed

lemma join_rounds_finish:
  assumes m: "joinable m" "joinable ms" "join_targets ms = join_targets m" "userId ms = userId m"
    and H: "quiet H" "info_sent H" and at: "in_round 0 m ms cs"
  shows "\<exists>client server. join_rounds (length (join_targets m)) H cs = Some (client, server) \<and>
     all_joined (rdp_mcs client) \<and> all_joined (rdp_mcs server) \<and>
     state client = CONNECTION_STATE_CONNECT_TIME_AUTO_DETECT_REQUEST \<and>
     state server = CONNECTION_STATE_RDP_SECURITY_COMMENCEMENT"
proof -
  obtain k where k: "length (join_targets m) = Suc k" by (cases "join_targets m") (auto simp: join_targets_def)
  obtain cs' where cs': "join_rounds k H cs = Some cs'" "in_round k m ms cs'"
    using join_rounds_in_round [OF m H at, of k] k by auto
  obtain client server where "join_round H cs' = Some (client, server)"
      "rdp_mcs client = joined_upto (Suc k) m" "rdp_mcs server = joined_upto (Suc k) ms"
      "state client = CONNECTION_STATE_CONNECT_TIME_AUTO_DETECT_REQUEST"
      "state server = CONNECTION_STATE_RDP_SECURITY_COMMENCEMENT"
    using join_round_step [OF m H cs'(2)] k by auto
  moreover have "all_joined (joined_upto (Suc k) m)" "all_joined (joined_upto (Suc k) ms)"
    using joined_upto_all [OF m(1)] joined_upto_all [OF m(2)] m(3) k by simp_all
  ultimately show ?thesis using cs'(1) k by simp
qed

end
