(* ===== verification/GccAnswer.thy ===== *)
theory GccAnswer
  imports GccExchange Connection
begin

text \<open>
  The answer of the server: the blocks it writes, what the client makes of them, the sizes of both
  messages, and the two conference PDUs read from the wire.
\<close>

unbundle bit_operations_syntax

section \<open>Handlers that write\<close>

definition happends :: "nat \<Rightarrow> ('a, 'c \<times> wStream) prog \<Rightarrow> 'c \<Rightarrow> u8 list \<Rightarrow> 'a \<Rightarrow> 'c \<Rightarrow> bool" where
  "happends k h c bs x c' \<longleftrightarrow>
     (\<forall>s. pointer s \<le> Stream_Capacity s \<and> Stream_Capacity s + k \<le> SIZE_MAX \<and> (\<forall>n. grants s n) \<longrightarrow>
        (\<exists>t. h (c, s) = Ret x (c', t) \<and> pointer t \<le> Stream_Capacity t \<and> Stream_Capacity t \<le> Stream_Capacity s + k \<and>
             grants t = grants s \<and> written t = written s @ bs))"

lemma happends_on_stream: "appends k m bs x \<Longrightarrow> happends k (on_stream m) c bs x c"
  unfolding happends_def appends_def on_stream_def by (fastforce split: outcome.splits)

lemma happendsE:
  assumes "happends k h c bs x c'" and "pointer s \<le> Stream_Capacity s" and "Stream_Capacity s + k \<le> SIZE_MAX"
    and "\<And>n. grants s n"
  obtains t where "h (c, s) = Ret x (c', t)" and "pointer t \<le> Stream_Capacity t"
    and "Stream_Capacity t \<le> Stream_Capacity s + k" and "grants t = grants s" and "written t = written s @ bs"
  using assms by (auto simp: happends_def)

lemma happends_bindp:
  assumes h: "happends j h c as a c1" and k: "happends k (K a) c1 bs x c2"
  shows "happends (j + k) (bindp h K) c (as @ bs) x c2"
  unfolding happends_def
proof (intro allI impI, elim conjE)
  fix s assume s: "pointer s \<le> Stream_Capacity s" "Stream_Capacity s + (j + k) \<le> SIZE_MAX" "\<forall>n. grants s n"
  have j: "Stream_Capacity s + j \<le> SIZE_MAX" using s(2) by simp
  obtain t where t: "h (c, s) = Ret a (c1, t)" "pointer t \<le> Stream_Capacity t" "Stream_Capacity t \<le> Stream_Capacity s + j"
      "grants t = grants s" "written t = written s @ as"
    by (rule happendsE [OF h s(1) j]) (use s(3) in auto)
  have k': "Stream_Capacity t + k \<le> SIZE_MAX" using t(3) s(2) by simp
  obtain u where u: "K a (c1, t) = Ret x (c2, u)" "pointer u \<le> Stream_Capacity u"
      "Stream_Capacity u \<le> Stream_Capacity t + k" "grants u = grants t" "written u = written t @ bs"
    by (rule happendsE [OF k t(2) k']) (use s(3) t(4) in auto)
  from t u show "\<exists>u. bindp h K (c, s) = Ret x (c2, u) \<and> pointer u \<le> Stream_Capacity u \<and>
      Stream_Capacity u \<le> Stream_Capacity s + (j + k) \<and> grants u = grants s \<and> written u = written s @ (as @ bs)"
    by (intro exI [of _ u]) auto
qed

lemma happends_get:
  "happends k (K st) (m, st) bs x c' \<Longrightarrow> happends k (get_settings K) (m, st) bs x c'"
  "happends k (L m) (m, st) bs x c' \<Longrightarrow> happends k (get_rdpMcs L) (m, st) bs x c'"
  by (simp_all add: happends_def get_settings_def get_rdpMcs_def)

lemma happends_more: "happends k h c bs x c' \<Longrightarrow> k \<le> k' \<Longrightarrow> happends k' h c bs x c'"
  unfolding happends_def by (meson add_le_mono1 add_left_mono le_trans order_refl)

lemma happends_random:
  assumes "mem env 32" and "winpr_RAND env 32 = Some bytes"
  shows "happends 0 (on_settings (gcc_update_server_random env)) (m, st) [] () (m, random_drawn bytes st)"
  using assms
  by (simp add: happends_def on_settings_def gcc_update_server_random_def freerdp_settings_set_pointer_len_def
      random_drawn_def Let_def bindp_def)

lemma happends_server_security:
  assumes "EncryptionMethods st = ENCRYPTION_METHOD_NONE" and "mem env 32" and "winpr_RAND env 32 = Some bytes"
  shows "happends 144 (gcc_write_server_security_data env) (m, st) (enc_block SC_SECURITY (enc_server_security st)) ()
     (m, random_drawn bytes st)"
proof -
  have "EncryptionMethods (random_drawn bytes st) = ENCRYPTION_METHOD_NONE"
    "enc_server_security (random_drawn bytes st) = enc_server_security st"
    using assms(1) by (simp_all add: random_drawn_def enc_server_security_def)
  with happends_bindp [OF happends_random [OF assms(2,3)] happends_get(1) [OF happends_on_stream [OF appends_server_security]]]
  show ?thesis by (fastforce simp: gcc_write_server_security_data_def)
qed

lemma happends_server_data:
  assumes "EncryptionMethods st = ENCRYPTION_METHOD_NONE" and "mem env 32" and "winpr_RAND env 32 = Some bytes"
    and "unat (channelCount m) \<le> length (channels m)" and "unat (channelCount m) \<le> 31"
  shows "happends 800 (gcc_write_server_data_blocks env) (m, st) (enc_blocks (server_parts m st)) () (m, random_drawn bytes st)"
proof -
  let ?st = "random_drawn bytes st"
  have last: "happends 140 (get_settings (\<lambda>st. if SupportMultitransport st \<and> MultitransportFlags st \<noteq> 0
     then on_stream (gcc_write_server_multitransport_channel_data st) else ret ())) (m, ?st)
     (enc_blocks (if SupportMultitransport st \<and> MultitransportFlags st \<noteq> 0
      then [(SC_MULTITRANSPORT, winpr_Data_Write_UINT32 (MultitransportFlags st))] else [])) () (m, ?st)"
  proof (rule happends_get, cases "SupportMultitransport st \<and> MultitransportFlags st \<noteq> 0")
    case True
    then show "happends 140 (if SupportMultitransport ?st \<and> MultitransportFlags ?st \<noteq> 0
       then on_stream (gcc_write_server_multitransport_channel_data ?st) else ret ()) (m, ?st)
       (enc_blocks (if SupportMultitransport st \<and> MultitransportFlags st \<noteq> 0
        then [(SC_MULTITRANSPORT, winpr_Data_Write_UINT32 (MultitransportFlags st))] else [])) () (m, ?st)"
      using happends_on_stream [OF appends_multitransport(2) [of ?st]] by (simp add: random_drawn_def)
  next
    case False
    then show "happends 140 (if SupportMultitransport ?st \<and> MultitransportFlags ?st \<noteq> 0
       then on_stream (gcc_write_server_multitransport_channel_data ?st) else ret ()) (m, ?st)
       (enc_blocks (if SupportMultitransport st \<and> MultitransportFlags st \<noteq> 0
        then [(SC_MULTITRANSPORT, winpr_Data_Write_UINT32 (MultitransportFlags st))] else [])) () (m, ?st)"
      by (auto simp: random_drawn_def happends_def)
  qed
  have core: "happends 148 (get_settings (\<lambda>st. on_stream (gcc_write_server_core_data st))) (m, st)
      (enc_block SC_CORE (enc_server_core st)) () (m, st)"
    by (rule happends_get, rule happends_on_stream, rule appends_server_core)
  have net: "happends 208 (get_rdpMcs (\<lambda>m. on_stream (gcc_write_server_network_data m))) (m, st)
      (enc_block SC_NET (enc_server_network m)) () (m, st)"
    by (rule happends_get, rule happends_on_stream, rule appends_server_network [OF assms(4,5)])
  have message: "happends 138 (get_rdpMcs (\<lambda>m. on_stream (gcc_write_server_message_channel_data m))) (m, ?st)
      (if messageChannelId m = 0 then [] else enc_block SC_MCS_MSGCHANNEL (winpr_Data_Write_UINT16 (messageChannelId m))) () (m, ?st)"
    by (rule happends_get, rule happends_on_stream, rule appends_server_message)
  have msg: "enc_blocks (if messageChannelId m = 0 then [] else [(SC_MCS_MSGCHANNEL, winpr_Data_Write_UINT16 (messageChannelId m))]) =
     (if messageChannelId m = 0 then [] else enc_block SC_MCS_MSGCHANNEL (winpr_Data_Write_UINT16 (messageChannelId m)))"
    by simp
  show ?thesis
    unfolding gcc_write_server_data_blocks_def server_parts_def enc_blocks_simps append_assoc append_Nil msg
    by (rule happends_more, rule happends_bindp [OF core], rule happends_bindp [OF net],
        rule happends_bindp [OF happends_server_security [OF assms(1-3)]], rule happends_bindp [OF message], rule last) simp
qed

section \<open>The client reads the answer\<close>

lemma server_block_types:
  "hparses gcc_read_server_core_data c bs [] () c' \<Longrightarrow> hparses (server_block env SC_CORE) c bs [] () c'"
  "hparses (gcc_read_server_security_data env) c bs [] () c' \<Longrightarrow> hparses (server_block env SC_SECURITY) c bs [] () c'"
  "hparses gcc_read_server_network_data c bs [] () c' \<Longrightarrow> hparses (server_block env SC_NET) c bs [] () c'"
  "hparses gcc_read_server_message_channel_data c bs [] () c' \<Longrightarrow> hparses (server_block env SC_MCS_MSGCHANNEL) c bs [] () c'"
  "hparses read_multitransport c bs [] () c' \<Longrightarrow> hparses (server_block env SC_MULTITRANSPORT) c bs [] () c'"
  by (simp_all add: server_block_def gcc_types client_block_runs gcc_read_server_multitransport_channel_data_def)

text \<open>What a client in state \<open>(m, st)\<close> makes of the answer of a server in state \<open>(svm, sv)\<close>.\<close>

definition mcs_answered :: "rdpMcs \<Rightarrow> rdpMcs \<Rightarrow> rdpMcs" where
  "mcs_answered svm m = (let m = ids_received svm m
     in if messageChannelId svm = 0 then m else m\<lparr>messageChannelId := messageChannelId svm\<rparr>)"

definition settings_answered :: "rdpSettings \<Rightarrow> rdpSettings \<Rightarrow> rdpSettings" where
  "settings_answered sv st = (let st = plain_received (server_core_received sv st)
     in if SupportMultitransport sv \<and> MultitransportFlags sv \<noteq> 0
        then st\<lparr>MultitransportFlags := MultitransportFlags st AND MultitransportFlags sv\<rparr> else st)"

lemma server_parts_run:
  assumes sv: "EncryptionMethods sv = ENCRYPTION_METHOD_NONE" "EncryptionLevel sv = ENCRYPTION_LEVEL_NONE"
    and m: "unat (channelCount svm) \<le> 31" "length (channels m) = 31" "channelMaxCount m = 31"
  shows "blocks_run (server_block env) (m, st) (server_parts svm sv) (mcs_answered svm m, settings_answered sv st)"
proof -
  let ?m = "ids_received svm m" and ?st = "plain_received (server_core_received sv st)"
  have 1: "hparses (server_block env SC_CORE) (m, st) (enc_server_core sv) [] () (m, server_core_received sv st)"
    by (intro server_block_types hparses_server_core)
  have 2: "hparses (server_block env SC_NET) (m, server_core_received sv st) (enc_server_network svm) [] ()
     (?m, server_core_received sv st)"
    by (intro server_block_types hparses_server_network m)
  have 3: "hparses (server_block env SC_SECURITY) (?m, server_core_received sv st) (enc_server_security sv) [] () (?m, ?st)"
    by (intro server_block_types hparses_server_security sv)
  have 4: "blocks_run (server_block env) (?m, ?st) (if messageChannelId svm = 0 then []
     else [(SC_MCS_MSGCHANNEL, winpr_Data_Write_UINT16 (messageChannelId svm))]) (mcs_answered svm m, ?st)"
    using server_block_types(4) [OF hparses_server_message, of env ?m ?st "messageChannelId svm"]
    by (auto simp: mcs_answered_def Let_def)
  have 5: "blocks_run (server_block env) (m', ?st) (if SupportMultitransport sv \<and> MultitransportFlags sv \<noteq> 0
      then [(SC_MULTITRANSPORT, winpr_Data_Write_UINT32 (MultitransportFlags sv))] else []) (m', settings_answered sv st)" for m'
    using server_block_types(5) [OF hparses_multitransport, of env m' ?st "MultitransportFlags sv"]
    by (auto simp: settings_answered_def Let_def)
  have "blocks_run (server_block env) (m, st)
     [(SC_CORE, enc_server_core sv), (SC_NET, enc_server_network svm), (SC_SECURITY, enc_server_security sv)] (?m, ?st)"
    using 1 2 3 by auto
  with 4 5 show ?thesis unfolding server_parts_def blocks_run_append by blast
qed

section \<open>The PDUs on the wire\<close>

lemma length_enc_client_blocks:
  "length (enc_client_cluster st) = 8" "length (enc_client_security st) = 8" "length (enc_server_core st) = 12"
  "length (enc_server_security st) = 8"
  by (simp_all add: enc_client_cluster_def enc_client_security_def enc_server_core_def enc_server_security_def)

lemma length_client_parts:
  assumes "client_sendable env m st"
  shows "length (enc_blocks (client_parts env m st)) \<le> 1400"
proof -
  have m: "unat (channelCount m) \<le> 31" "named_channels m" "unat (MonitorCount st) \<le> 16"
    using assms named_channels_count [of m] by (simp_all add: client_sendable_def monitors_placed_def)
  have "length (enc_blocks (if channelCount m > 0 then [(CS_NET, enc_client_network m)] else [])) \<le> 380"
    using m length_enc_client_network [OF m(2)] by simp
  moreover have "length (enc_blocks (if sends_monitors st then monitor_parts st else [])) \<le> 668"
    using m by (simp add: monitor_parts_def length_enc_monitors length_enc_attributes)
  moreover have "length (enc_blocks (extended_parts m st)) \<le> 16"
    by (simp add: extended_parts_def)
  ultimately show ?thesis
    unfolding client_parts_def enc_blocks_simps(3)
    by (simp add: length_enc_client_core length_enc_client_blocks)
qed

lemma length_server_parts:
  assumes "unat (channelCount m) \<le> 31"
  shows "length (enc_blocks (server_parts m st)) \<le> 200"
  using assms length_enc_server_network [of m] by (simp add: server_parts_def length_enc_client_blocks)

lemma multitransport_sent:
  "(\<exists>(ty, bs) \<in> set (client_parts env m st). ty = 0xC009 \<or> ty = CS_MULTITRANSPORT) \<longleftrightarrow> has_flag (NegotiationFlags st) 1"
  by (cases "has_flag (NegotiationFlags st) 1"; cases "sends_monitors st"; cases "wants_messages st";
      auto simp: client_parts_def extended_parts_def monitor_parts_def gcc_types)

lemma hparses_create_request:
  assumes cl: "client_sendable env' clm cl" and sv: "server_ready env env' cl host pid m st"
  shows "hparses (gcc_read_conference_create_request env) (m, st)
     (enc_create_request (enc_blocks (client_parts env' clm cl))) ys ()
     (mcs_received clm cl m, settings_received cl host pid st)"
proof -
  let ?bl = "client_parts env' clm cl"
  have n: "length (enc_blocks ?bl) \<le> 1400" by (rule length_client_parts [OF cl])
  obtain st1 where run: "blocks_run (client_block env) (m, st) ?bl (mcs_received clm cl m, st1)"
    and st1: "settings_received cl host pid st = (if has_flag (NegotiationFlags cl) 1 then st1
        else st1\<lparr>SupportMultitransport := False, MultitransportFlags := 0\<rparr>)"
    using client_parts_run [OF cl sv refl] by auto
  have "length (enc_blocks ?bl) < 0x8000 - 14" using n by simp
  from parses_request_header [OF this] obtain hd where hd: "enc_create_request (enc_blocks ?bl) = hd @ enc_blocks ?bl"
      "\<And>ys. parses create_request_header hd ys (of_nat (length (enc_blocks ?bl)))" by blast
  have un: "unat (of_nat (length (enc_blocks ?bl)) :: u16) = length (enc_blocks ?bl)"
    using n by (simp only: unat_of_nat, intro mod_less) simp
  have "length (enc_blocks ?bl) \<le> UINT16_MAX" using n by (simp add: bounds_defs)
  from hparses_client_data_blocks [OF run this] st1
  have blocks: "hparses (gcc_read_client_data_blocks env (of_nat (length (enc_blocks ?bl)))) (m, st) (enc_blocks ?bl) ys ()
     (mcs_received clm cl m, settings_received cl host pid st)" for ys
    by (simp add: multitransport_sent)
  show ?thesis
    unfolding gcc_read_conference_create_request_def hd(1)
    by (rule hparses_call [where k = "\<lambda>len. bindp (on_stream (Stream_CheckAndLogRequiredLength (unat len)))
          (\<lambda>_. gcc_read_client_data_blocks env len)", OF hd(2)], rule hparses_check)
       (simp only: un, rule blocks)
qed

lemma hparses_create_response:
  assumes sv: "EncryptionMethods sv = ENCRYPTION_METHOD_NONE" "EncryptionLevel sv = ENCRYPTION_LEVEL_NONE"
    and m: "unat (channelCount svm) \<le> 31" "length (channels m) = 31" "channelMaxCount m = 31"
  shows "hparses (gcc_read_conference_create_response env) (m, st)
     (enc_create_response (enc_blocks (server_parts svm sv))) ys () (mcs_answered svm m, settings_answered sv st)"
proof -
  let ?bl = "server_parts svm sv"
  have n: "length (enc_blocks ?bl) \<le> 200" by (rule length_server_parts [OF m(1)])
  then have "length (enc_blocks ?bl) < 0x8000" by simp
  from parses_response_header [OF this] obtain hd where hd: "enc_create_response (enc_blocks ?bl) = hd @ enc_blocks ?bl"
      "\<And>ys. parses create_response_header hd ys (of_nat (length (enc_blocks ?bl)))" by blast
  have "length (enc_blocks ?bl) \<le> UINT16_MAX" using n by (simp add: bounds_defs)
  note blocks = hparses_server_data_blocks [OF server_parts_run [OF sv m] this]
  show ?thesis
    unfolding gcc_read_conference_create_response_def hd(1)
    by (rule hparses_call [where k = "gcc_read_server_data_blocks env", OF hd(2)], rule blocks)
qed

section \<open>What the two sides agree on\<close>

text \<open>Before the exchange: no id has been given out but the ones the constructor sets.\<close>

definition unjoined :: "rdpMcs \<Rightarrow> bool" where
  "unjoined m \<longleftrightarrow> \<not> userChannelJoined m \<and> \<not> globalChannelJoined m \<and> \<not> messageChannelJoined m \<and>
     (\<forall>ch \<in> set (channels m). \<not> joined ch)"

definition fresh_mcs :: "rdpMcs \<Rightarrow> bool" where
  "fresh_mcs m \<longleftrightarrow> baseChannelId m = MCS_GLOBAL_CHANNEL_ID + 1 \<and> messageChannelId m = 0 \<and>
     channelMaxCount m = 31 \<and> length (channels m) = 31 \<and> unjoined m"

lemma taken_ids:
  assumes "n \<le> length (channels m)"
  shows "map ChannelId (take n (upd_first (channel_received cl b) n (channels m))) = map (\<lambda>i. b + of_nat i) [0..<n]"
  using assms by (intro nth_equalityI) (auto simp: channel_received_def)

lemma answered_ids:
  assumes "n \<le> length (channels m)" and "n \<le> length (channels sv)"
  shows "map ChannelId (take n (upd_first (\<lambda>i ch. ch\<lparr>ChannelId := ChannelId (channels sv ! i)\<rparr>) n (channels m))) =
     map ChannelId (take n (channels sv))"
  using assms by (intro nth_equalityI) auto

text \<open>The server numbers the channels, then the message channel, then the user.\<close>

lemma server_ids:
  fixes cl :: rdpSettings
  assumes cl: "named_channels clm" and m: "fresh_mcs m" "channelCount m = 0"
  defines "m' \<equiv> mcs_received clm cl m"
  shows "channelCount m' = channelCount clm" and "length (channels m') = 31"
    and "map ChannelId (take (unat (channelCount clm)) (channels m')) = map (\<lambda>i. 1004 + of_nat i) [0..<unat (channelCount clm)]"
    and "messageChannelId m' = (if has_flag (NegotiationFlags cl) 1 \<and> wants_messages cl then 1004 + of_nat (unat (channelCount clm)) else 0)"
    and "baseChannelId m' = 1004 + of_nat (unat (channelCount clm)) +
       (if has_flag (NegotiationFlags cl) 1 \<and> wants_messages cl then 1 else 0)"
proof -
  have n: "unat (channelCount clm) \<le> 31" by (rule named_channels_count [OF cl])
  have b: "baseChannelId m = 1004" "messageChannelId m = 0" "length (channels m) = 31"
    using m by (simp_all add: fresh_mcs_def MCS_GLOBAL_CHANNEL_ID_def)
  have zero: "channelCount clm = 0" if "\<not> channelCount clm > 0" using that by (simp only: word_gt_0 not_not)
  note defs = m'_def mcs_received_def network_received_def channels_taken_def message_received_def Let_def
  show "channelCount m' = channelCount clm" "length (channels m') = 31"
    using b m zero by (auto simp: defs)
  show "map ChannelId (take (unat (channelCount clm)) (channels m')) = map (\<lambda>i. 1004 + of_nat i) [0..<unat (channelCount clm)]"
    using taken_ids [of "unat (channelCount clm)" m clm 1004] n b zero by (auto simp: defs)
  show "messageChannelId m' = (if has_flag (NegotiationFlags cl) 1 \<and> wants_messages cl then 1004 + of_nat (unat (channelCount clm)) else 0)"
    using b zero by (auto simp: defs)
  show "baseChannelId m' = 1004 + of_nat (unat (channelCount clm)) +
       (if has_flag (NegotiationFlags cl) 1 \<and> wants_messages cl then 1 else 0)"
    using b zero by (auto simp: defs)
qed

lemma client_ids:
  assumes "unat (channelCount sv) \<le> 31" and "length (channels sv) = 31" and "fresh_mcs m"
  shows "channelCount (mcs_answered sv m) = channelCount sv" and "length (channels (mcs_answered sv m)) = 31"
    and "map ChannelId (take (unat (channelCount sv)) (channels (mcs_answered sv m))) = map ChannelId (take (unat (channelCount sv)) (channels sv))"
    and "messageChannelId (mcs_answered sv m) = messageChannelId sv"
  using assms answered_ids [of "unat (channelCount sv)" m sv]
  by (auto simp: mcs_answered_def ids_received_def fresh_mcs_def Let_def)

lemma same_targets:
  "channelCount a = channelCount b \<Longrightarrow> messageChannelId a = messageChannelId b \<Longrightarrow> userId a = userId b \<Longrightarrow>
   map ChannelId (take (unat (channelCount b)) (channels a)) = map ChannelId (take (unat (channelCount b)) (channels b)) \<Longrightarrow>
     join_targets a = join_targets b"
  by (simp add: join_targets_def)

lemma numbered:
  assumes "k \<le> 40"
  shows "unat (1004 + of_nat k :: u16) = 1004 + k"
proof -
  have "(1004 + of_nat k :: u16) = of_nat (1004 + k)" by simp
  then have "unat (1004 + of_nat k :: u16) = (1004 + k) mod 2 ^ 16" by (simp only: unat_of_nat) simp
  also have "\<dots> = 1004 + k" using assms by (intro mod_less) simp
  finally show ?thesis .
qed

text \<open>The three sorts of ids do not meet.\<close>

lemma joinable_numbered:
  assumes "n \<le> 31" and "unat (channelCount m) = n" and "length (channels m) = 31"
    and ids: "map ChannelId (take n (channels m)) = map (\<lambda>i. 1004 + of_nat i) [0..<n]"
    and msg: "messageChannelId m = (if w then 1004 + of_nat n else 0)"
    and uid: "userId m = 1004 + of_nat n + (if w then 1 else 0)"
  shows "joinable m"
proof -
  have inj: "(1004 + of_nat i :: u16) = 1004 + of_nat j \<longleftrightarrow> i = j" if "i \<le> 40" "j \<le> 40" for i j
    using numbered [OF that(1)] numbered [OF that(2)] by (metis add_left_cancel)
  define u where "u = n + (if w then 1 else 0)"
  have u: "userId m = 1004 + of_nat u" "n \<le> u" "u \<le> 40" "w \<longrightarrow> n < u"
    using uid assms(1) by (auto simp: u_def add.assoc)
  have global: "MCS_GLOBAL_CHANNEL_ID \<noteq> (1004 + of_nat k :: u16)" "(1004 + of_nat k :: u16) \<noteq> 0" if "k \<le> 40" for k
  proof -
    have "unat MCS_GLOBAL_CHANNEL_ID = 1003" "unat (0 :: u16) = 0" by (simp_all add: MCS_GLOBAL_CHANNEL_ID_def)
    then have "unat MCS_GLOBAL_CHANNEL_ID \<noteq> unat (1004 + of_nat k :: u16)" "unat (1004 + of_nat k :: u16) \<noteq> unat (0 :: u16)"
      unfolding numbered [OF that] by simp_all
    then show "MCS_GLOBAL_CHANNEL_ID \<noteq> (1004 + of_nat k :: u16)" "(1004 + of_nat k :: u16) \<noteq> 0" by metis+
  qed
  have targets: "join_targets m = [1004 + of_nat u, MCS_GLOBAL_CHANNEL_ID] @ (if w then [1004 + of_nat n] else []) @
      map (\<lambda>i. 1004 + of_nat i) [0..<n]"
    using global(2) [of n] assms(1) by (auto simp: join_targets_def u(1) assms(2) ids msg)
  have "distinct (map (\<lambda>i. 1004 + of_nat i :: u16) [0..<n])"
    using inj assms(1) by (auto simp: distinct_map inj_on_def)
  then have "distinct (join_targets m)"
    unfolding targets using u assms(1) inj global by (auto simp: MCS_GLOBAL_CHANNEL_ID_def)
  moreover have "0 \<notin> set (join_targets m)"
    unfolding targets using u assms(1) global(2) by (fastforce simp: MCS_GLOBAL_CHANNEL_ID_def)
  moreover have "MCS_BASE_CHANNEL_ID \<le> userId m"
    using numbered [OF u(3)] by (simp add: u(1) MCS_BASE_CHANNEL_ID_def word_le_nat_alt)
  ultimately show ?thesis using assms(1-3) by (simp add: joinable_def)
qed

lemma set_upd_first: "ch \<in> set (upd_first f n xs) \<Longrightarrow> \<exists>i c. c \<in> set xs \<and> (ch = c \<or> ch = f i c)"
  by (auto simp: upd_first_def split: if_splits) (metis nth_mem)+

lemma unjoined_kept:
  "unjoined m \<Longrightarrow> unjoined (mcs_received clm cl m)" "unjoined m \<Longrightarrow> unjoined (mcs_answered sv m)"
  by (auto simp: unjoined_def mcs_received_def mcs_answered_def network_received_def channels_taken_def
      message_received_def ids_received_def channel_received_def Let_def dest!: set_upd_first split: if_splits)

lemma joined_upto_unjoined:
  assumes "unjoined m"
  shows "joined_upto 0 m = m"
proof (rule rdpMcs_channels_eqI)
  show "(joined_upto 0 m)\<lparr>channels := []\<rparr> = m\<lparr>channels := []\<rparr>"
    using assms by (simp add: joined_upto_def upd_channels_rest unjoined_def)
  fix i assume i: "i < length (channels (joined_upto 0 m))"
  then have "\<not> joined (channels m ! i)" using assms by (simp add: unjoined_def)
  with i show "channels (joined_upto 0 m) ! i = channels m ! i" by (simp add: nth_joined_upto)
qed simp

text \<open>All that the channel join phase relies on: the server \<open>s\<close> has numbered its channels and its message
  channel from 1004, the client \<open>m\<close> has taken its answer.\<close>

definition numbered_mcs :: "nat \<Rightarrow> bool \<Rightarrow> rdpMcs \<Rightarrow> bool" where
  "numbered_mcs n w m \<longleftrightarrow> n \<le> 31 \<and> unat (channelCount m) = n \<and> length (channels m) = 31 \<and> unjoined m \<and>
     map ChannelId (take n (channels m)) = map (\<lambda>i. 1004 + of_nat i) [0..<n] \<and>
     messageChannelId m = (if w then 1004 + of_nat n else 0)"

lemma numbered_received:
  fixes cl :: rdpSettings
  assumes "named_channels clm" and "fresh_mcs m" and "channelCount m = 0"
  defines "w \<equiv> has_flag (NegotiationFlags cl) 1 \<and> wants_messages cl"
  shows "numbered_mcs (unat (channelCount clm)) w (mcs_received clm cl m)"
  using server_ids [OF assms(1-3), of cl] named_channels_count [OF assms(1)] assms(2)
  by (simp add: numbered_mcs_def w_def unjoined_kept fresh_mcs_def)

lemma numbered_answered:
  assumes "numbered_mcs n w sv" and "fresh_mcs m"
  shows "numbered_mcs n w (mcs_answered sv m)"
  using assms client_ids [OF _ _ assms(2), of sv] by (auto simp: numbered_mcs_def unjoined_kept fresh_mcs_def)

lemma numbered_other [simp]:
  "numbered_mcs n w (m\<lparr>domainParameters := p\<rparr>) = numbered_mcs n w m"
  "numbered_mcs n w (m\<lparr>userId := u\<rparr>) = numbered_mcs n w m"
  "numbered_mcs n w (m\<lparr>baseChannelId := b\<rparr>) = numbered_mcs n w m"
  by (simp_all add: numbered_mcs_def unjoined_def)

lemma numbered_joinable:
  assumes "numbered_mcs n w m" and "userId m = 1004 + of_nat n + (if w then 1 else 0)"
  shows "joinable m" and "joined_upto 0 m = m"
  using assms by (auto simp: numbered_mcs_def intro!: joinable_numbered [where w = w] joined_upto_unjoined)

lemma numbered_targets:
  "numbered_mcs n w a \<Longrightarrow> numbered_mcs n w b \<Longrightarrow> userId a = userId b \<Longrightarrow> join_targets a = join_targets b"
  by (rule same_targets) (auto simp: numbered_mcs_def word_unat_eq_iff)

text \<open>The constructor and the client's initialization.\<close>

lemma mcs_new_fresh: "mcs_new g a b = Some m \<Longrightarrow> fresh_mcs m \<and> channelCount m = 0"
  by (auto simp: mcs_new_def fresh_mcs_def unjoined_def empty_channel_def CHANNEL_MAX_COUNT_def split: if_splits)

lemma initialized_channels:
  assumes "fresh_mcs m" and "\<forall>i < unat count. \<exists>d. defs i = Some d \<and> 7 \<le> length (def_name d)" and "count \<le> 31"
  obtains m' where "mcs_initialize_client_channels count defs m = Ret () m'" and "named_channels m'" and "fresh_mcs m'"
    and "channelCount m' = count" and "targetParameters m' = targetParameters m"
    and "minimumParameters m' = minimumParameters m" and "maximumParameters m' = maximumParameters m"
proof -
  have c: "(if count > channelMaxCount m then channelMaxCount m else count) = count"
    using assms(1,3) by (auto simp: fresh_mcs_def not_less)
  have n: "unat count \<le> 31" using assms(3) by (simp add: word_le_nat_alt)
  let ?ch = "map (\<lambda>d. empty_channel\<lparr>Name := take CHANNEL_NAME_LEN (def_name (the d)) @ [0], options := def_options (the d)\<rparr>)
      (map defs [0..<unat count]) @ replicate (unat (channelMaxCount m) - unat count) empty_channel"
  have "None \<notin> set (map defs [0..<unat count])" using assms(2) by fastforce
  then have run: "mcs_initialize_client_channels count defs m = Ret () (m\<lparr>channelCount := count, channels := ?ch\<rparr>)"
    by (simp add: mcs_initialize_client_channels_def c)
  have "\<forall>ch \<in> set ?ch. length (Name ch) = 8 \<and> 0 \<in> set (Name ch) \<and> \<not> joined ch"
    using assms(2) by (fastforce simp: empty_channel_def CHANNEL_NAME_LEN_def)
  moreover have "length ?ch = 31" using n assms(1) by (simp add: fresh_mcs_def)
  ultimately have ok: "named_channels (m\<lparr>channelCount := count, channels := ?ch\<rparr>)" "fresh_mcs (m\<lparr>channelCount := count, channels := ?ch\<rparr>)"
    using assms(1,3) by (auto simp: named_channels_def fresh_mcs_def unjoined_def CHANNEL_MAX_COUNT_def)
  show ?thesis by (rule that [OF run ok]) simp_all
qed

end
