(* ===== verification/McsConnect.thy ===== *)
theory McsConnect
  imports GccAnswer
begin

text \<open>
  The first exchange of the MCS connection, \<^verbatim>\<open>libfreerdp/core/mcs.c\<close>: the client sends the connect
  initial PDU with the conference create request in it, the server answers with the connect response.
  The senders build the data blocks, the conference PDU and the MCS PDU in streams of their own; the
  receivers read the domain parameters and hand the rest of the packet to the conference control.
\<close>

unbundle bit_operations_syntax

section \<open>Receiving\<close>

text \<open>A reader of domain parameters on one of the parameter fields of \<^verbatim>\<open>rdpMcs\<close>, and the merge, which
  does not touch the stream.\<close>

definition on_parameters ::
  "(rdpMcs \<Rightarrow> DomainParameters) \<Rightarrow> (DomainParameters \<Rightarrow> rdpMcs \<Rightarrow> rdpMcs) \<Rightarrow>
     ('a, DomainParameters \<times> wStream) prog \<Rightarrow> 'a gcc_handler" where
  "on_parameters field store h = (\<lambda>((m, st), s).
     case h (field m, s) of
       Abort \<Rightarrow> Abort
     | Fail (p, t) \<Rightarrow> Fail ((store p m, st), t)
     | Ret x (p, t) \<Rightarrow> Ret x ((store p m, st), t))"

definition off_stream :: "('a, DomainParameters) prog \<Rightarrow> ('a, DomainParameters \<times> wStream) prog" where
  "off_stream h = (\<lambda>(p, s). case h p of Abort \<Rightarrow> Abort | Fail p' \<Rightarrow> Fail (p', s) | Ret x p' \<Rightarrow> Ret x (p', s))"

definition skip_octet_string :: "unit parser" where
  "skip_octet_string =
     bindp ber_read_octet_string_tag (\<lambda>len.
     bindp (Stream_CheckAndLogRequiredLength len) (\<lambda>_. Stream_Seek len))"

definition mcs_recv_connect_initial :: "gcc_env \<Rightarrow> unit gcc_handler" where
  "mcs_recv_connect_initial env =
     bindp (on_stream tpkt_read_header) (\<lambda>tlength.
     bindp (on_stream (tpdu_read_data tlength)) (\<lambda>li.
     bindp (on_stream (ber_read_application_tag MCS_TYPE_CONNECT_INITIAL)) (\<lambda>len.
     bindp (on_stream skip_octet_string) (\<lambda>_.
     bindp (on_stream skip_octet_string) (\<lambda>_.
     bindp (on_stream ber_read_BOOL) (\<lambda>upwardFlag.
     bindp (on_parameters targetParameters (\<lambda>p m. m\<lparr>targetParameters := p\<rparr>) mcs_read_domain_parameters) (\<lambda>_.
     bindp (on_parameters minimumParameters (\<lambda>p m. m\<lparr>minimumParameters := p\<rparr>) mcs_read_domain_parameters) (\<lambda>_.
     bindp (on_parameters maximumParameters (\<lambda>p m. m\<lparr>maximumParameters := p\<rparr>) mcs_read_domain_parameters) (\<lambda>_.
     bindp (on_stream ber_read_octet_string_tag) (\<lambda>len.
     bindp (on_stream (Stream_CheckAndLogRequiredLength len)) (\<lambda>_.
     bindp (gcc_read_conference_create_request env) (\<lambda>_.
     bindp (get_rdpMcs (\<lambda>m. on_parameters domainParameters (\<lambda>p m. m\<lparr>domainParameters := p\<rparr>)
       (off_stream (mcs_merge_domain_parameters (targetParameters m) (minimumParameters m) (maximumParameters m))))) (\<lambda>_.
     on_stream (tpkt_ensure_stream_consumed (unat tlength)))))))))))))))"

definition mcs_recv_connect_response :: "gcc_env \<Rightarrow> unit gcc_handler" where
  "mcs_recv_connect_response env =
     bindp (on_stream tpkt_read_header) (\<lambda>tlength.
     bindp (on_stream (tpdu_read_data tlength)) (\<lambda>li.
     bindp (on_stream (ber_read_application_tag MCS_TYPE_CONNECT_RESPONSE)) (\<lambda>len.
     bindp (on_stream (ber_read_enumerated MCS_Result_enum_length)) (\<lambda>result.
     bindp (on_stream ber_read_integer) (\<lambda>calledConnectId.
     bindp (on_parameters domainParameters (\<lambda>p m. m\<lparr>domainParameters := p\<rparr>) mcs_read_domain_parameters) (\<lambda>_.
     bindp (on_stream ber_read_octet_string_tag) (\<lambda>len.
     bindp (gcc_read_conference_create_response env) (\<lambda>_.
     on_stream (tpkt_ensure_stream_consumed (unat tlength))))))))))"

section \<open>Sending\<close>

text \<open>A stream of \<open>n\<close> bytes filled by \<open>body\<close>, and \<open>k\<close> with the filled stream; it is freed on every path.\<close>

definition with_stream ::
  "nat \<Rightarrow> unit parser \<Rightarrow> (wStream \<Rightarrow> ('a, 't rdpContext) prog) \<Rightarrow> ('a, 't rdpContext) prog" where
  "with_stream n body k ctx =
     (case Stream_New (heap ctx) n of
        None \<Rightarrow> Fail ctx
      | Some s \<Rightarrow> (case body s of Abort \<Rightarrow> Abort | Fail _ \<Rightarrow> Fail ctx | Ret _ t \<Rightarrow> k t ctx))"

text \<open>The PDU behind its TPKT and TPDU headers, which are written when its length is known.\<close>

definition connect_pdu :: "unit parser \<Rightarrow> unit parser" where
  "connect_pdu body =
     bindp get_position (\<lambda>bm.
     bindp (Stream_Seek 7) (\<lambda>_.
     bindp body (\<lambda>_.
     bindp get_position (\<lambda>em.
     let len = em - bm in
     bindp (require (\<not> len > UINT16_MAX)) (\<lambda>_.
     bindp (Stream_SetPosition bm) (\<lambda>_.
     bindp (tpkt_write_header len) (\<lambda>_.
     bindp tpdu_write_data (\<lambda>_.
     bindp (Stream_SetPosition em) (\<lambda>_.
     Stream_SealLength)))))))))"

text \<open>\<open>st\<close> are the settings, which the client only reads here; \<open>count\<close> and \<open>defs\<close> are the channels among
  them. \<^verbatim>\<open>mcs_initialize_client_channels\<close> has no result.\<close>

definition mcs_send_connect_initial ::
  "gcc_env \<Rightarrow> u32 \<Rightarrow> (nat \<Rightarrow> CHANNEL_DEF option) \<Rightarrow> rdpSettings \<Rightarrow> (unit, 't rdpContext) prog" where
  "mcs_send_connect_initial env count defs st ctx0 =
     (case mcs_initialize_client_channels count defs (mcs ctx0) of
        Abort \<Rightarrow> Abort
      | Fail m \<Rightarrow> Fail (ctx0\<lparr>mcs := m\<rparr>)
      | Ret _ m \<Rightarrow>
          with_stream 512 (gcc_write_client_data_blocks env m st) (\<lambda>client_data.
          with_stream 1024 (gcc_write_conference_create_request (written client_data)) (\<lambda>gcc_CCrq ctx.
            case Stream_New (heap ctx) (1024 + (Stream_GetPosition gcc_CCrq + 7)) of
              None \<Rightarrow> Fail ctx
            | Some s \<Rightarrow> mcs_transmit (connect_pdu (mcs_write_connect_initial m (written gcc_CCrq))) s ctx))
          (ctx0\<lparr>mcs := m\<rparr>))"

text \<open>The server's blocks change its settings, so they are a part of the state here.\<close>

definition mcs_send_connect_response :: "gcc_env \<Rightarrow> (unit, 't rdpContext \<times> rdpSettings) prog" where
  "mcs_send_connect_response env = (\<lambda>(ctx, st).
     case Stream_New (heap ctx) 512 of
       None \<Rightarrow> Fail (ctx, st)
     | Some s \<Rightarrow>
         (case gcc_write_server_data_blocks env ((mcs ctx, st), s) of
            Abort \<Rightarrow> Abort
          | Fail ((m, st'), _) \<Rightarrow> Fail (ctx\<lparr>mcs := m\<rparr>, st')
          | Ret _ ((m, st'), server_data) \<Rightarrow>
              (case with_stream (512 + Stream_Capacity server_data)
                      (gcc_write_conference_create_response (written server_data)) (\<lambda>gcc_CCrsp ctx.
                    case Stream_New (heap ctx) (Stream_GetPosition gcc_CCrsp + 7 + 1024) of
                      None \<Rightarrow> Fail ctx
                    | Some s \<Rightarrow> mcs_transmit (connect_pdu (mcs_write_connect_response m (written gcc_CCrsp))) s ctx)
                    (ctx\<lparr>mcs := m\<rparr>) of
                 Abort \<Rightarrow> Abort
               | Fail ctx' \<Rightarrow> Fail (ctx', st')
               | Ret _ ctx' \<Rightarrow> Ret () (ctx', st'))))"

section \<open>The receivers keep the invariant\<close>

lemma keeps_on_parameters [keeps_intros]:
  assumes "\<And>m st p. I (m, st) \<Longrightarrow> I (store p m, st)" and "handler_ok h" and "\<And>x. keeps I 0 k (K x)"
  shows "keeps I 0 k (bindp (on_parameters field store h) K)"
proof (rule keeps_bindp [OF keepsI assms(3)])
  fix B L p and c :: "rdpMcs \<times> rdpSettings" and s assume c: "I c" "window B L p 0 s"
  obtain m st where m: "c = (m, st)" by (cases c)
  have "triple (\<lambda>(c, s). window B L p 0 s) h (\<lambda>_ (c, s). window B L p 0 s) (\<lambda>(c, s). window B L p 0 s)"
    using assms(2) by (simp add: handler_ok_def)
  from tripleD [OF this, of "(field m, s)"] c assms(1)
  show "case on_parameters field store h (c, s) of Abort \<Rightarrow> False | Fail (c', t) \<Rightarrow> I c' \<and> window B L p 0 t
      | Ret x (c', t) \<Rightarrow> I c' \<and> window B L p 0 t"
    by (auto simp: m on_parameters_def split: outcome.splits)
qed

lemma handler_read_field [handler_intros]: "handler_ok (read_field upd)"
  unfolding read_field_def
  by (intro handler_intros reads_ber_integer, rule handler_pure) simp

lemma handler_domain_parameters: "handler_ok mcs_read_domain_parameters"
  unfolding mcs_read_domain_parameters_def by (intro handler_intros reads_ber_sequence_tag)

lemma handler_off_stream: "(\<And>p. h p \<noteq> Abort) \<Longrightarrow> handler_ok (off_stream h)"
  by (rule handler_pure) (auto simp: off_stream_def split: outcome.splits)

lemma merge_total: "mcs_merge_domain_parameters target mn mx p \<noteq> Abort"
  by (auto simp: mcs_merge_domain_parameters_def bindp_def set_out_def)

lemma reads_skip_octet_string: "reads_ok 0 skip_octet_string"
  unfolding skip_octet_string_def by (intro reads_intros) simp

lemma keeps_connect_initial: "keeps (gcc_wf N) 0 0 (mcs_recv_connect_initial env)"
  unfolding mcs_recv_connect_initial_def
  by (intro keeps_reads_ok keeps_reads_ok_last keeps_intros keeps_bindp [OF keeps_create_request]
      reads_tpkt_header reads_tpdu_data reads_ber_application_tag reads_skip_octet_string reads_ber_BOOL
      reads_ber_octet_string_tag handler_domain_parameters handler_off_stream merge_total reads_check
      reads_ensure_consumed) (auto simp: gcc_wf_simp)

lemma keeps_connect_response: "keeps (gcc_wf N) 0 0 (mcs_recv_connect_response env)"
  unfolding mcs_recv_connect_response_def
  by (intro keeps_reads_ok keeps_reads_ok_last keeps_intros keeps_bindp [OF keeps_create_response]
      reads_tpkt_header reads_tpdu_data reads_ber_application_tag reads_ber_enumerated reads_ber_integer
      reads_ber_octet_string_tag handler_domain_parameters reads_ensure_consumed) (auto simp: gcc_wf_simp)

section \<open>The PDUs on the wire\<close>

lemma length_enc_domain_parameters: "length (enc_domain_parameters p) \<le> 52"
  using length_enc_domain_fields [of p]
  by (simp add: enc_domain_parameters_def enc_ber_sequence_def ber_sizeof_length_def)

lemma emits_connect_initial:
  assumes p: "domain_parameters_valid (targetParameters m)" "domain_parameters_valid (minimumParameters m)"
      "domain_parameters_valid (maximumParameters m)" and u: "length userData \<le> 0xF000"
  shows "emits_alloc (mcs_write_connect_initial m userData) (enc_connect_initial m userData) ()"
proof -
  let ?ds = "enc_domain_parameters (targetParameters m) @ enc_domain_parameters (minimumParameters m) @
      enc_domain_parameters (maximumParameters m) @ enc_ber_octet_string userData"
  let ?body = "enc_ber_octet_string [0x01] @ enc_ber_octet_string [0x01] @ enc_ber_BOOL True @ ?ds"
  have len: "ber_length_valid (length userData)" "ber_length_valid (length [1 :: u8])"
    using u by (simp_all add: ber_length_valid_def bounds_defs)
  have n: "ber_length_valid (length ?body)"
    using u length_enc_domain_parameters [of "targetParameters m"] length_enc_domain_parameters [of "minimumParameters m"]
      length_enc_domain_parameters [of "maximumParameters m"]
    by (simp add: ber_length_valid_def bounds_defs enc_ber_octet_string_def enc_ber_octet_string_tag_def
        enc_ber_BOOL_def ber_sizeof_length_def)
  have b: "emits_alloc (bindp (nonzero (ber_write_octet_string [0x01])) (\<lambda>_.
        bindp (nonzero (ber_write_octet_string [0x01])) (\<lambda>_.
        bindp (ber_write_BOOL True) (\<lambda>_.
        bindp (mcs_write_domain_parameters (targetParameters m)) (\<lambda>_.
        bindp (mcs_write_domain_parameters (minimumParameters m)) (\<lambda>_.
        bindp (mcs_write_domain_parameters (maximumParameters m)) (\<lambda>_.
        nonzero (ber_write_octet_string userData)))))))) ?body ()"
    by (rule emits_alloc_bindp [OF emits_alloc_emits [OF emits_octet_string [OF len(2)]]],
        rule emits_alloc_bindp [OF emits_alloc_emits [OF emits_octet_string [OF len(2)]]],
        rule emits_alloc_bindp [OF emits_alloc_emits [OF emits_BOOL_last]],
        rule emits_alloc_bindp [OF emits_domain_parameters [OF p(1)]],
        rule emits_alloc_bindp [OF emits_domain_parameters [OF p(2)]],
        rule emits_alloc_bindp [OF emits_domain_parameters [OF p(3)]],
        rule emits_alloc_emits [OF emits_octet_string [OF len(1)]])
  from wrapped_in_application [OF b n, of MCS_TYPE_CONNECT_INITIAL] show ?thesis
    by (simp add: mcs_write_connect_initial_def enc_connect_initial_def Let_def)
qed

lemma length_enc_connect:
  "length userData \<le> 0xF000 \<Longrightarrow> length (enc_connect_initial m userData) \<le> length userData + 200"
  "length userData \<le> 0xF000 \<Longrightarrow> length (enc_connect_response p userData) \<le> length userData + 200"
  using length_enc_domain_parameters [of "targetParameters m"] length_enc_domain_parameters [of "minimumParameters m"]
    length_enc_domain_parameters [of "maximumParameters m"] length_enc_domain_parameters [of p]
  by (simp_all add: enc_connect_initial_def enc_connect_response_def Let_def enc_ber_application_def
      enc_ber_octet_string_def enc_ber_octet_string_tag_def enc_ber_BOOL_def ber_sizeof_length_def
      enc_ber_enumerated_def ber_sizeof_integer_def)

text \<open>A PDU around its headers.\<close>

lemma emits_headers:
  assumes "len \<le> UINT16_MAX"
  shows "emits (bindp (tpkt_write_header len) (\<lambda>_. tpdu_write_data)) (enc_data_header len) ()"
proof -
  have "emits (bindp (tpdu_write_header 2 X224_TPDU_DATA) ret) (enc_tpdu 2 X224_TPDU_DATA @ []) ()"
    by (rule emits_tpdu_header [OF _ emits_ret]) simp
  then have "emits tpdu_write_data (enc_tpdu 2 X224_TPDU_DATA) ()"
    by (simp add: tpdu_write_data_def bindp_ret)
  from emits_tpkt [where k = "\<lambda>_. tpdu_write_data", OF assms this] show ?thesis
    by (simp add: enc_data_header_def)
qed

lemma connect_pdu_run:
  assumes body: "emits_alloc body bs ()" and new: "Stream_New g n = Some s" and g: "g n"
    and n: "7 + length bs \<le> n" "7 + length bs \<le> UINT16_MAX" "n \<le> SIZE_MAX"
  shows "\<exists>t. connect_pdu body s = Ret () t \<and> take (Stream_Length t) (buffer t) = enc_data_header (7 + length bs) @ bs"
proof -
  let ?len = "7 + length bs"
  have s: "s = \<lparr>buffer = replicate n 0, pointer = 0, slength = n, isOwner = True, grants = g\<rparr>"
    using new by (auto simp: Stream_New_def split: if_splits)
  let ?s7 = "s\<lparr>pointer := 7\<rparr>"
  let ?b = "put bs ?s7"
  let ?h = "put (enc_data_header ?len) (?b\<lparr>pointer := 0\<rparr>)"
  have pos: "get_position s = Ret 0 s" by (simp add: get_position_def Stream_GetPosition_def s)
  have seek: "Stream_Seek 7 s = Ret () ?s7" using n(1) by (simp add: stream_defs bindp_def s)
  have run: "body ?s7 = Ret () ?b"
    by (rule emits_allocD [OF body]) (use n g in \<open>simp_all add: room_def s Stream_Capacity_def\<close>)
  have stop: "get_position ?b = Ret ?len ?b" by (simp add: get_position_def Stream_GetPosition_def put_def)
  have b: "buffer ?b = replicate 7 0 @ bs @ replicate (n - ?len) 0"
    using n(1) by (simp add: put_def overwrite_def s min_def)
  have rewound: "Stream_SetPosition 0 ?b = Ret () (?b\<lparr>pointer := 0\<rparr>)" by (simp add: Stream_SetPosition_def)
  have "bindp (tpkt_write_header ?len) (\<lambda>_. tpdu_write_data) (?b\<lparr>pointer := 0\<rparr>) = Ret () ?h"
    by (rule emitsD [OF emits_headers [OF n(2)]]) (use n b in \<open>simp add: room_def Stream_Capacity_def\<close>)
  then have headers: "bindp (tpkt_write_header ?len) (\<lambda>_. bindp tpdu_write_data k) (?b\<lparr>pointer := 0\<rparr>) = k () ?h" for k :: "unit \<Rightarrow> unit parser"
    by (simp flip: bindp_assoc)
  have h: "buffer ?h = enc_data_header ?len @ bs @ replicate (n - ?len) 0"
    by (simp add: put_def [of "enc_data_header ?len"] overwrite_def b)
  have cap: "Stream_Capacity ?h = n" using n(1) by (simp add: Stream_Capacity_def h)
  have forth: "Stream_SetPosition ?len ?h = Ret () (?h\<lparr>pointer := ?len\<rparr>)"
    using n(1) cap by (simp add: Stream_SetPosition_def)
  have seal: "Stream_SealLength (?h\<lparr>pointer := ?len\<rparr>) = Ret () (?h\<lparr>pointer := ?len, slength := ?len\<rparr>)"
    using n(1) cap by (simp add: Stream_SealLength_def Stream_Capacity_def)
  have "connect_pdu body s = Ret () (?h\<lparr>pointer := ?len, slength := ?len\<rparr>)"
    unfolding connect_pdu_def Let_def using n(2)
    by (simp add: pos seek run stop rewound headers forth seal)
  moreover have "take (Stream_Length (?h\<lparr>pointer := ?len, slength := ?len\<rparr>)) (buffer (?h\<lparr>pointer := ?len, slength := ?len\<rparr>)) =
      enc_data_header ?len @ bs"
    by (simp add: Stream_Length_def h)
  ultimately show ?thesis by blast
qed

section \<open>The senders\<close>

definition fresh_stream :: "(nat \<Rightarrow> bool) \<Rightarrow> nat \<Rightarrow> wStream" where
  "fresh_stream g n = \<lparr>buffer = replicate n 0, pointer = 0, slength = n, isOwner = True, grants = g\<rparr>"

lemma new_stream: "g n \<Longrightarrow> 0 < n \<Longrightarrow> Stream_New g n = Some (fresh_stream g n)"
  by (simp add: Stream_New_def fresh_stream_def)

lemma with_stream_run:
  "body (fresh_stream (heap ctx) n) = Ret () t \<Longrightarrow> heap ctx n \<Longrightarrow> 0 < n \<Longrightarrow> with_stream n body k ctx = k t ctx"
  by (simp add: with_stream_def new_stream)

lemma appends_fresh:
  assumes "appends k m bs ()" and "\<And>n. g n" and "n + k \<le> SIZE_MAX"
  obtains t where "m (fresh_stream g n) = Ret () t" and "written t = bs" and "pointer t = length bs"
    and "Stream_Capacity t \<le> n + k"
proof -
  obtain t where t: "m (fresh_stream g n) = Ret () t" "pointer t \<le> Stream_Capacity t"
      "Stream_Capacity t \<le> Stream_Capacity (fresh_stream g n) + k" "written t = written (fresh_stream g n) @ bs"
    by (rule appendsE [OF assms(1), of "fresh_stream g n"])
       (use assms(2,3) in \<open>simp_all add: fresh_stream_def Stream_Capacity_def\<close>)
  have "length (written t) = pointer t" using t(2) by (simp add: written_def Stream_Capacity_def)
  with t show ?thesis by (intro that) (simp_all add: fresh_stream_def Stream_Capacity_def written_def)
qed

lemma emits_fresh:
  assumes "emits m bs ()" and "length bs \<le> n" and "n \<le> SIZE_MAX"
  obtains t where "m (fresh_stream g n) = Ret () t" and "written t = bs" and "pointer t = length bs"
proof -
  have room: "room (length bs) (fresh_stream g n)"
    using assms(2,3) by (simp add: room_def fresh_stream_def Stream_Capacity_def)
  show ?thesis
    by (rule that [OF emitsD [OF assms(1) room]])
       (use written_put [OF room] in \<open>simp_all add: fresh_stream_def written_def\<close>)
qed

text \<open>The last stream, which goes to the transport.\<close>

definition connect_packet :: "u8 list \<Rightarrow> u8 list" where
  "connect_packet bs = enc_data_header (7 + length bs) @ bs"

lemma transmit_queue:
  assumes "emits_alloc body bs ()" and "WritePdu ctx = Some queue_pdu" and "\<And>n. heap ctx n"
    and "7 + length bs \<le> n" and "7 + length bs \<le> UINT16_MAX" and "n \<le> SIZE_MAX"
  shows "(case Stream_New (heap ctx) n of None \<Rightarrow> Fail ctx | Some s \<Rightarrow> mcs_transmit (connect_pdu body) s ctx) =
     Ret () (ctx\<lparr>transport := transport ctx @ [connect_packet bs]\<rparr>)"
proof -
  have new: "Stream_New (heap ctx) n = Some (fresh_stream (heap ctx) n)"
    using assms(3,4) by (simp add: new_stream)
  from connect_pdu_run [OF assms(1) new assms(3-6)] new assms(2) show ?thesis
    by (auto simp: mcs_transmit_def transport_write_def queue_pdu_def connect_packet_def)
qed

lemma length_enc_create:
  "length ud \<le> 0x4000 \<Longrightarrow> length (enc_create_request ud) \<le> length ud + 32"
  "length ud \<le> 0x4000 \<Longrightarrow> length (enc_create_response ud) \<le> length ud + 32"
  by (simp_all add: enc_create_request_def enc_create_response_def enc_per_octet_string_def enc_per_length_def
      enc_per_integer_def h221_cs_key_def h221_sc_key_def)

text \<open>The PER writers make room for themselves.\<close>

lemma appends_per_octet:
  "appends 129 (per_write_choice c) [c] ()" "appends 129 (per_write_selection c) [c] ()"
  "appends 129 (per_write_number_of_sets c) [c] ()"
  unfolding per_write_choice_def per_write_selection_def per_write_number_of_sets_def
  using appends_ensure [where K = "\<lambda>_. Stream_Write_UINT8_unchecked c" and bs = "[c]" and n = 1]
  by (simp_all add: emit_intros)

lemma appends_per_length: "appends 130 (per_write_length len) (enc_per_length len) ()"
  unfolding per_write_length_def enc_per_length_def
  using appends_ensure [where K = "\<lambda>_. Stream_Write_UINT16_BE_unchecked (len OR 0x8000)" and n = 2
      and bs = "winpr_Data_Write_UINT16_BE (len OR 0x8000)" and x = "()"]
    appends_more [OF appends_ensure [where K = "\<lambda>_. Stream_Write_UINT8_unchecked (ucast len)" and n = 1
      and bs = "[ucast len]" and x = "()"], of 130]
  by (simp add: emit_intros)

lemma appends_per_oid: "appends 134 (per_write_object_identifier oid) (enc_per_oid oid) ()"
  unfolding per_write_object_identifier_def enc_per_oid_def Let_def
  by (rule appends_more [OF appends_ensure]) (intro emit_intros, simp_all)

lemma appends_per_octet_string:
  "appends (258 + length os) (per_write_octet_string os mn) (enc_per_octet_string mn os) ()"
proof -
  have "appends (length os + 128) (bindp (Stream_EnsureRemainingCapacity (length os)) (\<lambda>_. per_write_octets os)) os ()"
    by (rule appends_ensure) (simp_all add: emits_per_octets)
  from appends_bindp [where K = "\<lambda>_. bindp (Stream_EnsureRemainingCapacity (length os)) (\<lambda>_. per_write_octets os)",
      OF appends_per_length this]
  show ?thesis
    unfolding per_write_octet_string_def enc_per_octet_string_def by (rule appends_more) simp
qed

lemma appends_digit: "appends 259 (per_write_numeric_string [0x31] 1) [0, 0x10] ()"
proof -
  have "appends 129 (bindp (Stream_EnsureRemainingCapacity 1) (\<lambda>_. Stream_Write_UINT8_unchecked 0x10)) [0x10] ()"
    using appends_ensure [where K = "\<lambda>_. Stream_Write_UINT8_unchecked 0x10" and bs = "[0x10]" and n = 1]
    by (simp add: emit_intros)
  note pdu = appends_bindp [where K = "\<lambda>_. bindp (Stream_EnsureRemainingCapacity 1) (\<lambda>_. Stream_Write_UINT8_unchecked 0x10)",
      OF appends_per_length [of 0] this]
  have "(require True :: unit parser) = ret ()" by (rule ext) simp
  with pdu show ?thesis
    by (simp add: per_write_numeric_string_def enc_per_length_def per_mlength_def per_numeric_pair_def bindp_assoc bindp_ret bounds_defs)
qed

lemma appends_per_padding: "appends (128 + unat n) (per_write_padding n) (replicate (unat n) 0) ()"
  unfolding per_write_padding_def
  by (rule appends_more [OF appends_ensure]) (simp_all add: emit_intros)

lemma appends_create_request:
  assumes "length userData \<le> UINT16_MAX - 14"
  shows "appends (3000 + length userData) (gcc_write_conference_create_request userData) (enc_create_request userData) ()"
proof -
  have "appends (3000 + length userData) (gcc_write_conference_create_request userData)
     ([0] @ enc_per_oid t124_02_98_oid @ enc_per_length (of_nat (length userData) + 14) @ [0] @ [0x08] @ [0, 0x10] @
      replicate (unat (1 :: u16)) 0 @ [1] @ [0xC0] @ enc_per_octet_string 4 h221_cs_key @ enc_per_octet_string 0 userData) ()"
    unfolding gcc_write_conference_create_request_def
    by (rule appends_more, rule appends_bindp [OF appends_per_octet(1)], rule appends_bindp [OF appends_per_oid],
        rule appends_assert, rule assms, rule appends_bindp [OF appends_per_length],
        rule appends_bindp [OF appends_per_octet(1)], rule appends_bindp [OF appends_per_octet(2)],
        rule appends_bindp [OF appends_digit], rule appends_bindp [OF appends_per_padding],
        rule appends_bindp [OF appends_per_octet(3)], rule appends_bindp [OF appends_per_octet(1)],
        rule appends_bindp [OF appends_per_octet_string], rule appends_assert, use assms in simp,
        rule appends_per_octet_string) (simp add: h221_cs_key_def)
  then show ?thesis by (simp add: enc_create_request_def)
qed

lemma send_connect_initial:
  assumes ctx: "WritePdu ctx = Some queue_pdu" "\<And>n. heap ctx n"
    and init: "mcs_initialize_client_channels count defs (mcs ctx) = Ret () m" and ok: "client_sendable env m st"
    and p: "domain_parameters_valid (targetParameters m)" "domain_parameters_valid (minimumParameters m)"
      "domain_parameters_valid (maximumParameters m)"
  shows "mcs_send_connect_initial env count defs st ctx = Ret () (ctx\<lparr>mcs := m, transport := transport ctx @
     [connect_packet (enc_connect_initial m (enc_create_request (enc_blocks (client_parts env m st))))]\<rparr>)"
proof -
  let ?ctx = "ctx\<lparr>mcs := m\<rparr>" and ?ud = "enc_blocks (client_parts env m st)"
  let ?rq = "enc_create_request ?ud"
  have h: "\<And>n. heap ?ctx n" using ctx(2) by simp
  have n: "length ?ud \<le> 1400" by (rule length_client_parts [OF ok])
  obtain cd where cd: "gcc_write_client_data_blocks env m st (fresh_stream (heap ?ctx) 512) = Ret () cd" "written cd = ?ud"
    by (rule appends_fresh [OF appends_client_data [OF ok] h, of 512]) (simp_all add: bounds_defs)
  have "length ?ud \<le> UINT16_MAX - 14" using n by (simp add: bounds_defs)
  note rq = appends_create_request [OF this]
  obtain cc where cc: "gcc_write_conference_create_request ?ud (fresh_stream (heap ?ctx) 1024) = Ret () cc"
      "written cc = ?rq" "pointer cc = length ?rq"
    by (rule appends_fresh [OF rq h, of 1024]) (use n in \<open>simp_all add: bounds_defs\<close>)
  have small: "length ?rq \<le> 1432" using length_enc_create(1) [of ?ud] n by simp
  have len: "length (enc_connect_initial m ?rq) \<le> length ?rq + 200" using small by (intro length_enc_connect) simp
  have send: "(case Stream_New (heap ?ctx) (1024 + (Stream_GetPosition cc + 7)) of None \<Rightarrow> Fail ?ctx
      | Some s \<Rightarrow> mcs_transmit (connect_pdu (mcs_write_connect_initial m ?rq)) s ?ctx) =
     Ret () (?ctx\<lparr>transport := transport ?ctx @ [connect_packet (enc_connect_initial m ?rq)]\<rparr>)"
    by (rule transmit_queue [OF emits_connect_initial [OF p] _ h])
       (use small len ctx(1) cc(3) in \<open>simp_all add: bounds_defs Stream_GetPosition_def\<close>)
  show ?thesis
    unfolding mcs_send_connect_initial_def init outcome.case
    by (subst with_stream_run [where ctx = ?ctx and n = 512 and t = cd and body = "gcc_write_client_data_blocks env m st", OF cd(1)],
        simp add: ctx(2), simp, unfold cd(2),
        subst with_stream_run [where ctx = ?ctx and n = 1024 and t = cc and body = "gcc_write_conference_create_request ?ud", OF cc(1)],
        simp add: ctx(2), simp, unfold cc(2) send) simp
qed

lemma send_connect_response:
  assumes ctx: "WritePdu ctx = Some queue_pdu" "\<And>n. heap ctx n"
    and plain: "EncryptionMethods st = ENCRYPTION_METHOD_NONE"
    and env: "mem env 32" "winpr_RAND env 32 = Some bytes"
    and m: "unat (channelCount (mcs ctx)) \<le> length (channels (mcs ctx))" "unat (channelCount (mcs ctx)) \<le> 31"
    and p: "domain_parameters_valid (domainParameters (mcs ctx))"
  shows "mcs_send_connect_response env (ctx, st) = Ret () (ctx\<lparr>transport := transport ctx @
     [connect_packet (enc_connect_response (domainParameters (mcs ctx)) (enc_create_response (enc_blocks (server_parts (mcs ctx) st))))]\<rparr>,
     random_drawn bytes st)"
proof -
  let ?m = "mcs ctx" and ?ud = "enc_blocks (server_parts (mcs ctx) st)"
  let ?rs = "enc_create_response ?ud"
  have n: "length ?ud \<le> 200" by (rule length_server_parts [OF m(2)])
  obtain sd where sd: "gcc_write_server_data_blocks env ((?m, st), fresh_stream (heap ctx) 512) = Ret () ((?m, random_drawn bytes st), sd)"
      "written sd = ?ud" "Stream_Capacity sd \<le> 1312"
    by (rule happendsE [OF happends_server_data [OF plain env m], of "fresh_stream (heap ctx) 512"])
       (use ctx(2) in \<open>simp_all add: fresh_stream_def Stream_Capacity_def bounds_defs written_def\<close>)
  have new: "Stream_New (heap ctx) 512 = Some (fresh_stream (heap ctx) 512)" using ctx(2) by (simp add: new_stream)
  have "length ?ud \<le> UINT16_MAX" using n by (simp add: bounds_defs)
  note rs = emits_create_response [OF this]
  have small: "length ?rs \<le> 232" using length_enc_create(2) [of ?ud] n by simp
  obtain cc where cc: "gcc_write_conference_create_response ?ud (fresh_stream (heap ctx) (512 + Stream_Capacity sd)) = Ret () cc"
      "written cc = ?rs" "pointer cc = length ?rs"
    by (rule emits_fresh [OF rs, of "512 + Stream_Capacity sd"]) (use small sd(3) in \<open>simp_all add: bounds_defs\<close>)
  have len: "length (enc_connect_response (domainParameters ?m) ?rs) \<le> length ?rs + 200"
    using small by (intro length_enc_connect) simp
  have wide: "length ?rs \<le> 0xF000" using small by simp
  have send: "(case Stream_New (heap ctx) (Stream_GetPosition cc + 7 + 1024) of None \<Rightarrow> Fail ctx
      | Some s \<Rightarrow> mcs_transmit (connect_pdu (mcs_write_connect_response ?m ?rs)) s ctx) =
     Ret () (ctx\<lparr>transport := transport ctx @ [connect_packet (enc_connect_response (domainParameters ?m) ?rs)]\<rparr>)"
    by (rule transmit_queue [OF emits_connect_response [OF p wide] ctx])
       (use small len cc(3) in \<open>simp_all add: bounds_defs Stream_GetPosition_def\<close>)
  have same: "ctx\<lparr>mcs := ?m\<rparr> = ctx" by simp
  have "with_stream (512 + Stream_Capacity sd) (gcc_write_conference_create_response ?ud) (\<lambda>gcc_CCrsp ctx.
      case Stream_New (heap ctx) (Stream_GetPosition gcc_CCrsp + 7 + 1024) of None \<Rightarrow> Fail ctx
      | Some s \<Rightarrow> mcs_transmit (connect_pdu (mcs_write_connect_response ?m (written gcc_CCrsp))) s ctx) ctx =
     Ret () (ctx\<lparr>transport := transport ctx @ [connect_packet (enc_connect_response (domainParameters ?m) ?rs)]\<rparr>)"
    by (subst with_stream_run [where ctx = ctx and n = "512 + Stream_Capacity sd" and t = cc
          and body = "gcc_write_conference_create_response ?ud", OF cc(1)], simp add: ctx(2), simp, unfold cc(2), rule send)
  then show ?thesis
    unfolding mcs_send_connect_response_def prod.case new option.case sd(1) outcome.case same sd(2) by simp
qed

section \<open>The receivers on what was sent\<close>

lemma parses_unbind: "parses (bindp m ret) (bs @ []) ys x \<Longrightarrow> parses m bs ys x"
  by (simp add: bindp_ret)

lemma parses_connect_parts:
  "7 \<le> len \<Longrightarrow> len \<le> UINT16_MAX \<Longrightarrow> len - 4 \<le> length ys \<Longrightarrow> parses tpkt_read_header (enc_tpkt len) ys (of_nat len)"
  "6 \<le> unat l \<Longrightarrow> parses (tpdu_read_data l) (enc_tpdu 2 X224_TPDU_DATA) ys 2"
  "ber_length_valid n \<Longrightarrow> parses (ber_read_application_tag tag) (enc_ber_application tag n) ys n"
  "parses ber_read_BOOL (enc_ber_BOOL b) ys b"
  "unat e < unat count \<Longrightarrow> parses (ber_read_enumerated count) (enc_ber_enumerated e) ys e"
  "ber_length_valid n \<Longrightarrow> parses ber_read_octet_string_tag (enc_ber_octet_string_tag n) ys n"
      apply (rule parses_unbind, rule parses_tpkt; simp add: parses_ret)
     apply (rule parses_unbind, rule parses_tpdu_data [OF _ parses_ret], assumption)
    apply (rule parses_unbind, rule parses_ber_application [OF _ parses_ret], assumption)
   apply (rule parses_unbind, rule parses_ber_BOOL [OF parses_ret])
  apply (rule parses_unbind, rule parses_ber_enumerated [OF _ parses_ret], assumption)
  apply (rule parses_unbind, rule parses_ber_octet_string_tag [OF _ parses_ret], assumption)
  done

lemma parses_skip_octet_string:
  "ber_length_valid (length bs) \<Longrightarrow> parses skip_octet_string (enc_ber_octet_string bs) ys ()"
  unfolding skip_octet_string_def enc_ber_octet_string_def
  by (intro parses_ber_octet_string_tag parses_check parses_seek) simp_all

lemma hparses_on_parameters:
  assumes "domain_parameters_valid p" and "hparses (k ()) (store p m, st) bs ys x c'"
  shows "hparses (bindp (on_parameters field store mcs_read_domain_parameters) k) (m, st) (enc_domain_parameters p @ bs) ys x c'"
proof (rule hparses_bindp [where k = k, OF hparsesI assms(2)])
  fix s assume "wf_stream s" "rest s = enc_domain_parameters p @ bs @ ys"
  from read_domain_parameters [OF assms(1) this]
  show "on_parameters field store mcs_read_domain_parameters ((m, st), s) =
      Ret () ((store p m, st), adv (length (enc_domain_parameters p)) s)"
    by (simp add: on_parameters_def)
qed

lemma hparses_consumed: "hparses (on_stream (tpkt_ensure_stream_consumed (unat (tlength :: u16)))) c [] [] () c"
  using unsigned_less [of tlength, where 'a = nat]
  by (intro hparses_on_stream parses_ensure_consumed) (simp add: bounds_defs)

lemma hparses_then_consumed:
  assumes "hparses h c bs [] () c'"
  shows "hparses (bindp h (\<lambda>_. on_stream (tpkt_ensure_stream_consumed (unat (tlength :: u16))))) c bs [] () c'"
  using hparses_bindp [where k = "\<lambda>_. on_stream (tpkt_ensure_stream_consumed (unat tlength))" and bs = "[]" and ys = "[]",
    OF _ hparses_consumed] assms by simp

lemma hparses_connect_headers:
  assumes "7 + length bs \<le> UINT16_MAX" and "\<And>tlength. hparses (k tlength 2) c bs [] x c'"
  shows "hparses (bindp (on_stream tpkt_read_header) (\<lambda>tlength. bindp (on_stream (tpdu_read_data tlength)) (k tlength))) c
     (connect_packet bs) [] x c'"
proof -
  let ?len = "7 + length bs"
  have un: "unat (of_nat ?len :: u16) = ?len"
    using assms(1) by (simp only: unat_of_nat, intro mod_less) (simp add: bounds_defs)
  have two: "length (enc_tpdu 2 X224_TPDU_DATA) = 3" by (simp add: enc_tpdu_def)
  have "hparses (bindp (on_stream (tpdu_read_data (of_nat ?len))) (k (of_nat ?len))) c (enc_tpdu 2 X224_TPDU_DATA @ bs) [] x c'"
    by (rule hparses_call [where k = "k (of_nat ?len)", OF parses_connect_parts(2) assms(2)]) (simp only: un)
  then have "hparses (bindp (on_stream tpkt_read_header) (\<lambda>tlength. bindp (on_stream (tpdu_read_data tlength)) (k tlength))) c
     (enc_tpkt ?len @ enc_tpdu 2 X224_TPDU_DATA @ bs) [] x c'"
    by (intro hparses_call [where k = "\<lambda>tlength. bindp (on_stream (tpdu_read_data tlength)) (k tlength)", OF parses_connect_parts(1)])
       (use assms(1) two in simp_all)
  then show ?thesis by (simp add: connect_packet_def enc_data_header_def)
qed

text \<open>The parameters of the client, and what the merge makes of them.\<close>

definition parameters_received :: "rdpMcs \<Rightarrow> rdpMcs \<Rightarrow> rdpMcs" where
  "parameters_received clm m = m\<lparr>targetParameters := targetParameters clm,
     minimumParameters := minimumParameters clm, maximumParameters := maximumParameters clm\<rparr>"

definition initial_received :: "rdpMcs \<Rightarrow> rdpSettings \<Rightarrow> rdpMcs \<Rightarrow> rdpMcs" where
  "initial_received clm cl m = (mcs_received clm cl (parameters_received clm m))
     \<lparr>domainParameters := merged (targetParameters clm) (maximumParameters clm)\<rparr>"

lemma mcs_received_parameters:
  "targetParameters (mcs_received clm cl m) = targetParameters m"
  "minimumParameters (mcs_received clm cl m) = minimumParameters m"
  "maximumParameters (mcs_received clm cl m) = maximumParameters m"
  by (simp_all add: mcs_received_def network_received_def channels_taken_def message_received_def Let_def)

lemma hparses_connect_initial:
  assumes cl: "client_sendable env' clm cl" and sv: "server_ready env env' cl host pid m st"
    and p: "domain_parameters_valid (targetParameters clm)" "domain_parameters_valid (minimumParameters clm)"
      "domain_parameters_valid (maximumParameters clm)"
    and merge: "mergeable (targetParameters clm) (minimumParameters clm) (maximumParameters clm)"
  shows "hparses (mcs_recv_connect_initial env) (m, st)
     (connect_packet (enc_connect_initial clm (enc_create_request (enc_blocks (client_parts env' clm cl))))) [] ()
     (initial_received clm cl m, settings_received cl host pid st)"
proof -
  let ?rq = "enc_create_request (enc_blocks (client_parts env' clm cl))"
  let ?m = "parameters_received clm m"
  have rq: "length ?rq \<le> 1432"
    using length_enc_create(1) [of "enc_blocks (client_parts env' clm cl)"] length_client_parts [OF cl] by simp
  have len: "length (enc_connect_initial clm ?rq) \<le> 1632" using length_enc_connect(1) [of ?rq clm] rq by simp
  have valid: "ber_length_valid (length ?rq)" "ber_length_valid (length [1 :: u8])"
    using rq by (simp_all add: ber_length_valid_def bounds_defs)
  have small: "7 + length (enc_connect_initial clm ?rq) \<le> UINT16_MAX" using len by (simp add: bounds_defs)
  have ready: "server_ready env env' cl host pid ?m st" using sv by (simp add: server_ready_def parameters_received_def)
  have "hparses (get_rdpMcs (\<lambda>m. on_parameters domainParameters (\<lambda>p m. m\<lparr>domainParameters := p\<rparr>)
       (off_stream (mcs_merge_domain_parameters (targetParameters m) (minimumParameters m) (maximumParameters m)))))
       (mcs_received clm cl ?m, st') [] [] () (initial_received clm cl m, st')" for st'
    using merge_succeeds [OF merge]
    by (intro hparses_get_rdpMcs hparsesI)
       (simp add: on_parameters_def off_stream_def initial_received_def mcs_received_parameters parameters_received_def)
  note last = hparses_then_consumed [OF this]
  have create: "hparses (bindp (gcc_read_conference_create_request env) (\<lambda>_.
       bindp (get_rdpMcs (\<lambda>m. on_parameters domainParameters (\<lambda>p m. m\<lparr>domainParameters := p\<rparr>)
       (off_stream (mcs_merge_domain_parameters (targetParameters m) (minimumParameters m) (maximumParameters m)))))
       (\<lambda>_. on_stream (tpkt_ensure_stream_consumed (unat (tlength :: u16)))))) (?m, st) (?rq @ []) [] ()
       (initial_received clm cl m, settings_received cl host pid st)" for tlength
    by (rule hparses_bindp [OF hparses_create_request [OF cl ready] last])
  let ?body = "enc_ber_octet_string [0x01] @ enc_ber_octet_string [0x01] @ enc_ber_BOOL True @
      enc_domain_parameters (targetParameters clm) @ enc_domain_parameters (minimumParameters clm) @
      enc_domain_parameters (maximumParameters clm) @ enc_ber_octet_string_tag (length ?rq) @ ?rq @ []"
  have body: "enc_connect_initial clm ?rq = enc_ber_application MCS_TYPE_CONNECT_INITIAL (length ?body) @ ?body"
    by (simp add: enc_connect_initial_def Let_def enc_ber_octet_string_def)
  have "length ?body \<le> length (enc_connect_initial clm ?rq)" unfolding body by simp
  then have n: "ber_length_valid (length ?body)" using len by (simp only: ber_length_valid_def bounds_defs)
  show ?thesis
    unfolding mcs_recv_connect_initial_def
    by (rule hparses_connect_headers [OF small], unfold body,
        rule hparses_call, rule parses_connect_parts(3) [OF n],
        rule hparses_call, rule parses_skip_octet_string [OF valid(2)],
        rule hparses_call, rule parses_skip_octet_string [OF valid(2)],
        rule hparses_call, rule parses_connect_parts(4),
        rule hparses_on_parameters [OF p(1)], rule hparses_on_parameters [OF p(2)], rule hparses_on_parameters [OF p(3)],
        rule hparses_call, rule parses_connect_parts(6) [OF valid(1)], rule hparses_check, simp)
       (rule create [unfolded parameters_received_def])
qed

definition response_received :: "rdpMcs \<Rightarrow> rdpMcs \<Rightarrow> rdpMcs" where
  "response_received sv m = mcs_answered sv (m\<lparr>domainParameters := domainParameters sv\<rparr>)"

lemma hparses_connect_response:
  assumes plain: "EncryptionMethods sv = ENCRYPTION_METHOD_NONE" "EncryptionLevel sv = ENCRYPTION_LEVEL_NONE"
    and m: "unat (channelCount svm) \<le> 31" "length (channels m) = 31" "channelMaxCount m = 31"
    and p: "domain_parameters_valid (domainParameters svm)"
  shows "hparses (mcs_recv_connect_response env) (m, st)
     (connect_packet (enc_connect_response (domainParameters svm) (enc_create_response (enc_blocks (server_parts svm sv))))) [] ()
     (response_received svm m, settings_answered sv st)"
proof -
  let ?rs = "enc_create_response (enc_blocks (server_parts svm sv))" and ?p = "domainParameters svm"
  have rs: "length ?rs \<le> 232"
    using length_enc_create(2) [of "enc_blocks (server_parts svm sv)"] length_server_parts [OF m(1), of sv] by simp
  have len: "length (enc_connect_response ?p ?rs) \<le> 432" using length_enc_connect(2) [of ?rs ?p] rs by simp
  have small: "7 + length (enc_connect_response ?p ?rs) \<le> UINT16_MAX" using len by (simp add: bounds_defs)
  have valid: "ber_length_valid (length ?rs)" "ber_integer_valid 0" "unat (0 :: u8) < unat MCS_Result_enum_length"
    using rs by (simp_all add: ber_length_valid_def bounds_defs ber_integer_valid_def MCS_Result_enum_length_def)
  have m': "length (channels (m\<lparr>domainParameters := ?p\<rparr>)) = 31" "channelMaxCount (m\<lparr>domainParameters := ?p\<rparr>) = 31"
    using m by simp_all
  let ?body = "enc_ber_enumerated 0 @ enc_ber_integer 0 @ enc_domain_parameters ?p @
      enc_ber_octet_string_tag (length ?rs) @ ?rs"
  have body: "enc_connect_response ?p ?rs = enc_ber_application MCS_TYPE_CONNECT_RESPONSE (length ?body) @ ?body"
    by (simp add: enc_connect_response_def Let_def enc_ber_octet_string_def)
  have "length ?body \<le> length (enc_connect_response ?p ?rs)" unfolding body by simp
  then have n: "ber_length_valid (length ?body)" using len by (simp only: ber_length_valid_def bounds_defs)
  show ?thesis
    unfolding mcs_recv_connect_response_def response_received_def
    by (rule hparses_connect_headers [OF small], unfold body,
        rule hparses_call, rule parses_connect_parts(3) [OF n],
        rule hparses_call, rule parses_connect_parts(5) [OF valid(3)],
        rule hparses_call, rule ber_integer.rd_parses [OF valid(2)],
        rule hparses_on_parameters [OF p],
        rule hparses_call, rule parses_connect_parts(6) [OF valid(1)])
       (rule hparses_then_consumed, rule hparses_create_response [OF plain m(1) m'])
qed

section \<open>The exchange\<close>

text \<open>One round of the connect PDUs between a client and a server whose transports queue what they are
  given and deliver the packet last queued; \<open>None\<close> where a step fails or aborts.\<close>

type_synonym peer = "u8 list list rdpContext \<times> rdpSettings"

definition connect_exchange ::
  "gcc_env \<Rightarrow> gcc_env \<Rightarrow> u32 \<Rightarrow> (nat \<Rightarrow> CHANNEL_DEF option) \<Rightarrow> peer \<Rightarrow> peer \<Rightarrow> (peer \<times> peer) option" where
  "connect_exchange cenv senv count defs = (\<lambda>(cctx, cl) (sctx, st).
     case mcs_send_connect_initial cenv count defs cl cctx of
       Ret _ cctx \<Rightarrow>
         (case mcs_recv_connect_initial senv ((mcs sctx, st), Stream_StaticInit (heap sctx) (last (transport cctx))) of
            Ret _ ((m, st), _) \<Rightarrow>
              (case mcs_send_connect_response senv (sctx\<lparr>mcs := m\<rparr>, st) of
                 Ret _ (sctx, st) \<Rightarrow>
                   (case mcs_recv_connect_response cenv ((mcs cctx, cl), Stream_StaticInit (heap cctx) (last (transport sctx))) of
                      Ret _ ((m, cl), _) \<Rightarrow> Some ((cctx\<lparr>mcs := m\<rparr>, cl), (sctx, st))
                    | _ \<Rightarrow> None)
               | _ \<Rightarrow> None)
          | _ \<Rightarrow> None)
     | _ \<Rightarrow> None)"

lemma hparses_packet:
  assumes "hparses h c bs [] x c'" and "length bs \<le> SIZE_MAX"
  shows "\<exists>t. h (c, Stream_StaticInit g bs) = Ret x (c', t)"
  using hparsesD [OF assms(1), of "Stream_StaticInit g bs"] assms(2)
  by (auto simp: Stream_StaticInit_def wf_stream_def rest_def)

text \<open>The parameters the constructor sets can be sent, and the merge accepts them.\<close>

lemma mcs_new_parameters:
  assumes "mcs_new g a b = Some m"
  shows "domain_parameters_valid (targetParameters m)" "domain_parameters_valid (minimumParameters m)"
    "domain_parameters_valid (maximumParameters m)"
    "mergeable (targetParameters m) (minimumParameters m) (maximumParameters m)"
    "domain_parameters_valid (merged (targetParameters m) (maximumParameters m))"
  using assms
  by (auto simp: mcs_new_def mcs_init_domain_parameters_def domain_parameters_valid_def domain_parameter_list_def
      ber_integer_valid_def mergeable_def merged_def split: if_splits)

definition connectable :: "gcc_env \<Rightarrow> gcc_env \<Rightarrow> u32 \<Rightarrow> (nat \<Rightarrow> CHANNEL_DEF option) \<Rightarrow> peer \<Rightarrow> peer \<Rightarrow> bool" where
  "connectable cenv senv count defs = (\<lambda>(cctx, cl) (sctx, st).
     (\<exists>g a b. mcs_new g a b = Some (mcs cctx)) \<and> (\<exists>g a b. mcs_new g a b = Some (mcs sctx)) \<and>
     WritePdu cctx = Some queue_pdu \<and> (\<forall>n. heap cctx n) \<and> WritePdu sctx = Some queue_pdu \<and> (\<forall>n. heap sctx n) \<and>
     count \<le> 31 \<and> (\<forall>i < unat count. \<exists>d. defs i = Some d \<and> 7 \<le> length (def_name d)) \<and>
     client_core_writable cenv cl \<and> monitors_placed cl \<and>
     (\<exists>host pid. server_ready senv cenv cl host pid (mcs sctx) st) \<and>
     \<not> UseRdpSecurityLayer_s st \<and> EncryptionMethods st = ENCRYPTION_METHOD_NONE \<and>
     EncryptionLevel st = ENCRYPTION_LEVEL_NONE \<and> mem senv 32 \<and> winpr_RAND senv 32 \<noteq> None)"

lemma security_of_updates [simp]:
  "UseRdpSecurityLayer_s (client_caps_applied flags ct st) = UseRdpSecurityLayer_s st"
  "EncryptionMethods (client_caps_applied flags ct st) = EncryptionMethods st"
  "EncryptionLevel (client_caps_applied flags ct st) = EncryptionLevel st"
  by (simp_all add: client_caps_applied_def Let_def)

lemma plain_settings_received:
  assumes "\<not> UseRdpSecurityLayer_s st"
  shows "EncryptionMethods (settings_received cl host pid st) = EncryptionMethods st"
    "EncryptionLevel (settings_received cl host pid st) = EncryptionLevel st"
proof -
  have core: "UseRdpSecurityLayer_s (core_received cl host pid st) = UseRdpSecurityLayer_s st"
    "EncryptionMethods (core_received cl host pid st) = EncryptionMethods st"
    "EncryptionLevel (core_received cl host pid st) = EncryptionLevel st"
    by (simp_all add: core_received_def depth_applied_def)
  have cluster: "UseRdpSecurityLayer_s (cluster_received cl st) = UseRdpSecurityLayer_s st"
    "EncryptionMethods (cluster_received cl st) = EncryptionMethods st"
    "EncryptionLevel (cluster_received cl st) = EncryptionLevel st" for st
    by (simp_all add: cluster_received_def Let_def)
  have monitors: "EncryptionMethods (monitors_taken cl n st) = EncryptionMethods st"
    "EncryptionLevel (monitors_taken cl n st) = EncryptionLevel st"
    "EncryptionMethods (attributes_taken cl n st) = EncryptionMethods st"
    "EncryptionLevel (attributes_taken cl n st) = EncryptionLevel st" for n st
    by (simp_all add: monitors_taken_def attributes_taken_def)
  show "EncryptionMethods (settings_received cl host pid st) = EncryptionMethods st"
    "EncryptionLevel (settings_received cl host pid st) = EncryptionLevel st"
    using assms by (simp_all add: settings_received_def security_received_def Let_def core cluster monitors)
qed

text \<open>Both sides hold the client's channels under the server's ids.\<close>

lemma channels_agree:
  assumes "i < unat (channelCount m)" and "named_channels m" and "length (channels (initial_received m cl sm)) = 31"
  defines "sv \<equiv> initial_received m cl sm"
  shows "Name (channels sv ! i) = Name (channels m ! i)" "options (channels sv ! i) = options (channels m ! i)"
    "Name (channels (response_received sv m) ! i) = Name (channels sv ! i)"
    "options (channels (response_received sv m) ! i) = options (channels sv ! i)"
    "ChannelId (channels (response_received sv m) ! i) = ChannelId (channels sv ! i)"
    "channelCount sv = channelCount m" "channelCount (response_received sv m) = channelCount m"
proof -
  have i: "i < 31" "i < length (channels m)"
    using assms(1,2) named_channels_count [of m] by (simp_all add: named_channels_def)
  have pos: "channelCount m > 0" using assms(1) by (auto simp: word_less_nat_alt)
  show c: "channelCount sv = channelCount m"
    using pos by (simp add: sv_def initial_received_def mcs_received_def network_received_def channels_taken_def
        message_received_def parameters_received_def Let_def)
  show "channelCount (response_received sv m) = channelCount m"
    by (simp add: response_received_def mcs_answered_def ids_received_def Let_def c)
  have len: "length (channels sm) = 31"
    using assms(3) pos by (simp add: initial_received_def mcs_received_def network_received_def channels_taken_def
        message_received_def parameters_received_def Let_def split: if_splits)
  show s: "Name (channels sv ! i) = Name (channels m ! i)" "options (channels sv ! i) = options (channels m ! i)"
    using pos i len assms(1) by (simp_all add: sv_def initial_received_def mcs_received_def network_received_def
        channels_taken_def message_received_def parameters_received_def Let_def channel_received_def)
  have "channels (response_received sv m) ! i = (channels m ! i)\<lparr>ChannelId := ChannelId (channels sv ! i)\<rparr>"
    using i assms(1) by (simp add: response_received_def mcs_answered_def ids_received_def Let_def c)
  then show "Name (channels (response_received sv m) ! i) = Name (channels sv ! i)"
    "options (channels (response_received sv m) ! i) = options (channels sv ! i)"
    "ChannelId (channels (response_received sv m) ! i) = ChannelId (channels sv ! i)" by (simp_all add: s)
qed

lemma connect_exchange_runs:
  fixes cctx sctx :: "u8 list list rdpContext"
  assumes "connectable cenv senv count defs (cctx, cl) (sctx, st)"
  obtains m host pid bytes w where "named_channels m" and "channelCount m = count"
    and "numbered_mcs (unat count) w (initial_received m cl (mcs sctx))"
    and "numbered_mcs (unat count) w (response_received (initial_received m cl (mcs sctx)) m)"
    and "baseChannelId (initial_received m cl (mcs sctx)) = 1004 + of_nat (unat count) + (if w then 1 else 0)"
    and "\<exists>q r. connect_exchange cenv senv count defs (cctx, cl) (sctx, st) =
      Some ((cctx\<lparr>mcs := response_received (initial_received m cl (mcs sctx)) m, transport := transport cctx @ [q]\<rparr>,
             settings_answered (settings_received cl host pid st) cl),
            (sctx\<lparr>mcs := initial_received m cl (mcs sctx), transport := transport sctx @ [r]\<rparr>,
             random_drawn bytes (settings_received cl host pid st)))"
proof -
  have c: "WritePdu cctx = Some queue_pdu" "\<And>n. heap cctx n" "WritePdu sctx = Some queue_pdu" "\<And>n. heap sctx n"
    "count \<le> 31" "\<forall>i < unat count. \<exists>d. defs i = Some d \<and> 7 \<le> length (def_name d)"
    "client_core_writable cenv cl" "monitors_placed cl" "\<not> UseRdpSecurityLayer_s st"
    "EncryptionMethods st = ENCRYPTION_METHOD_NONE" "EncryptionLevel st = ENCRYPTION_LEVEL_NONE" "mem senv 32"
    using assms by (auto simp: connectable_def)
  obtain g a b g' a' b' host pid bytes where new: "mcs_new g a b = Some (mcs cctx)" "mcs_new g' a' b' = Some (mcs sctx)"
      and ready: "server_ready senv cenv cl host pid (mcs sctx) st" and bytes: "winpr_RAND senv 32 = Some bytes"
    using assms by (auto simp: connectable_def)
  obtain m where init: "mcs_initialize_client_channels count defs (mcs cctx) = Ret () m" and m: "named_channels m" "fresh_mcs m"
      "channelCount m = count" "targetParameters m = targetParameters (mcs cctx)"
      "minimumParameters m = minimumParameters (mcs cctx)" "maximumParameters m = maximumParameters (mcs cctx)"
    using initialized_channels [OF _ c(6,5)] mcs_new_fresh [OF new(1)] by metis
  have ok: "client_sendable cenv m cl" using c m(1) by (simp add: client_sendable_def)
  note params = mcs_new_parameters [OF new(1), folded m(4-6)]
  let ?sm = "initial_received m cl (mcs sctx)" and ?st = "settings_received cl host pid st"
  let ?q = "connect_packet (enc_connect_initial m (enc_create_request (enc_blocks (client_parts cenv m cl))))"
  let ?r = "connect_packet (enc_connect_response (domainParameters ?sm) (enc_create_response (enc_blocks (server_parts ?sm ?st))))"
  have sfresh: "fresh_mcs (parameters_received m (mcs sctx))" "channelCount (parameters_received m (mcs sctx)) = 0"
    using mcs_new_fresh [OF new(2)] by (simp_all add: parameters_received_def fresh_mcs_def unjoined_def)
  let ?n = "unat count" and ?w = "has_flag (NegotiationFlags cl) 1 \<and> wants_messages cl"
  have sn: "numbered_mcs ?n ?w ?sm"
    using numbered_received [OF m(1) sfresh, of cl] m(3) by (simp add: initial_received_def)
  have base: "baseChannelId ?sm = 1004 + of_nat ?n + (if ?w then 1 else 0)"
    using server_ids(5) [OF m(1) sfresh, of cl] m(3) by (simp add: initial_received_def)
  have plain: "EncryptionMethods ?st = ENCRYPTION_METHOD_NONE" "EncryptionLevel ?st = ENCRYPTION_LEVEL_NONE"
    using c plain_settings_received [of st cl host pid] by simp_all
  have cm: "length (channels m) = 31" "channelMaxCount m = 31" using m(2) by (simp_all add: fresh_mcs_def)
  have sm: "unat (channelCount ?sm) \<le> length (channels ?sm)" "unat (channelCount ?sm) \<le> 31"
    using sn by (auto simp: numbered_mcs_def)
  have dp: "domain_parameters_valid (domainParameters ?sm)" using params(5) by (simp add: initial_received_def)
  have "fresh_mcs (m\<lparr>domainParameters := domainParameters ?sm\<rparr>)" using m(2) by (simp add: fresh_mcs_def unjoined_def)
  then have cn: "numbered_mcs ?n ?w (response_received ?sm m)"
    unfolding response_received_def by (rule numbered_answered [OF sn])
  note send1 = send_connect_initial [OF c(1,2) init ok params(1-3)]
  have q: "length ?q \<le> SIZE_MAX"
    using length_enc_connect(1) [of "enc_create_request (enc_blocks (client_parts cenv m cl))" m]
      length_enc_create(1) [of "enc_blocks (client_parts cenv m cl)"] length_client_parts [OF ok]
    by (simp add: connect_packet_def bounds_defs)
  obtain t where recv1: "mcs_recv_connect_initial senv ((mcs sctx, st), Stream_StaticInit (heap sctx) ?q) = Ret () ((?sm, ?st), t)"
    using hparses_packet [OF hparses_connect_initial [OF ok ready params(1-4)] q] by blast
  let ?sctx = "sctx\<lparr>mcs := ?sm\<rparr>"
  have send2: "mcs_send_connect_response senv (?sctx, ?st) =
      Ret () (?sctx\<lparr>transport := transport sctx @ [?r]\<rparr>, random_drawn bytes ?st)"
    using send_connect_response [of ?sctx ?st senv bytes] c plain(1) bytes sm dp by simp
  have r: "length ?r \<le> SIZE_MAX"
    using length_enc_connect(2) [of "enc_create_response (enc_blocks (server_parts ?sm ?st))" "domainParameters ?sm"]
      length_enc_create(2) [of "enc_blocks (server_parts ?sm ?st)"] length_server_parts [OF sm(2), of ?st]
    by (simp add: connect_packet_def bounds_defs)
  obtain t' where recv2: "mcs_recv_connect_response cenv ((m, cl), Stream_StaticInit (heap cctx) ?r) =
      Ret () ((response_received ?sm m, settings_answered ?st cl), t')"
    using hparses_packet [OF hparses_connect_response [OF plain sm(2) cm dp] r] by blast
  have "connect_exchange cenv senv count defs (cctx, cl) (sctx, st) =
      Some ((cctx\<lparr>mcs := response_received ?sm m, transport := transport cctx @ [?q]\<rparr>, settings_answered ?st cl),
            (sctx\<lparr>mcs := ?sm, transport := transport sctx @ [?r]\<rparr>, random_drawn bytes ?st))"
    by (simp add: connect_exchange_def send1 recv1 send2 recv2)
  then show ?thesis by (intro that [OF m(1,3) sn cn base]) blast
qed

end
