(* ===== verification/GccLimits.thy ===== *)
theory GccLimits
  imports GccAnswer
begin

text \<open>
  What the conference data may hold: the capabilities two sides agree on, the encryption settings a client
  takes from a server, and the announcements a server refuses.
\<close>

unbundle bit_operations_syntax

section \<open>Handlers that refuse\<close>

definition hfails :: "('a, 'c \<times> wStream) prog \<Rightarrow> 'c \<Rightarrow> u8 list \<Rightarrow> u8 list \<Rightarrow> 'c \<Rightarrow> bool" where
  "hfails h c bs ys c' \<longleftrightarrow> (\<forall>s. wf_stream s \<and> rest s = bs @ ys \<longrightarrow> (\<exists>t. h (c, s) = Fail (c', t)))"

lemma hfailsD: "hfails h c bs ys c' \<Longrightarrow> wf_stream s \<Longrightarrow> rest s = bs @ ys \<Longrightarrow> \<exists>t. h (c, s) = Fail (c', t)"
  by (simp add: hfails_def)

lemma hfails_bindp:
  assumes "hparses h c as (bs @ ys) a c1" and "hfails (k a) c1 bs ys c2"
  shows "hfails (bindp h k) c (as @ bs) ys c2"
  unfolding hfails_def
proof (intro allI impI, elim conjE)
  fix s assume s: "wf_stream s" "rest s = (as @ bs) @ ys"
  then have "h (c, s) = Ret a (c1, adv (length as) s)" using assms(1) by (auto dest: hparsesD)
  moreover have "\<exists>t. k a (c1, adv (length as) s) = Fail (c2, t)"
    by (rule hfailsD [OF assms(2)]) (use s in \<open>auto simp: wf_adv rest_adv\<close>)
  ultimately show "\<exists>t. bindp h k (c, s) = Fail (c2, t)" by auto
qed

lemma hfails_stop: "hfails h c bs ys c' \<Longrightarrow> hfails (bindp h k) c bs ys c'"
  unfolding hfails_def by fastforce

lemma hfails_require: "\<not> b \<Longrightarrow> hfails (require b) c bs ys c" "\<not> b \<Longrightarrow> hfails (bindp (require b) k) c bs ys c"
  by (simp_all add: hfails_def require_def bindp_def)

lemma hfails_or_fail:
  assumes "hfails h c bs ys c1" and "\<And>t. \<exists>u. cleanup (c1, t) = Ret () (c2, u)"
  shows "hfails (or_fail cleanup h) c bs ys c2"
  unfolding hfails_def
proof (intro allI impI, elim conjE)
  fix s assume "wf_stream s" "rest s = bs @ ys"
  then obtain t where "h (c, s) = Fail (c1, t)" using hfailsD [OF assms(1)] by blast
  with assms(2) [of t] show "\<exists>u. or_fail cleanup h (c, s) = Fail (c2, u)" by (auto simp: or_fail_def)
qed

lemma hparses_or_fail: "hparses h c bs ys x c' \<Longrightarrow> hparses (or_fail cleanup h) c bs ys x c'"
  by (simp add: hparses_def or_fail_def)

text \<open>A call that takes no bytes.\<close>

lemma hfails_step:
  "(\<And>s. wf_stream s \<Longrightarrow> rest s = bs @ ys \<Longrightarrow> h (c, s) = Ret a (c1, s)) \<Longrightarrow> hfails (k a) c1 bs ys c' \<Longrightarrow>
     hfails (bindp h k) c bs ys c'"
  unfolding hfails_def by fastforce

lemma hfails_check:
  "n \<le> length bs + length ys \<Longrightarrow> hfails (k ()) c bs ys c' \<Longrightarrow>
     hfails (bindp (on_stream (Stream_CheckAndLogRequiredLength n)) k) c bs ys c'"
  by (rule hfails_step) (simp_all add: on_stream_def check_wf)

lemma hfails_u32:
  "hfails (k v) c bs ys c' \<Longrightarrow> hfails (bindp (on_stream Stream_Read_UINT32) k) c (winpr_Data_Write_UINT32 v @ bs) ys c'"
  by (rule hfails_bindp [OF hparses_on_stream]) (rule parse_intros)

lemma hfails_set:
  "hfails (k ()) (m, f st) bs ys c' \<Longrightarrow> hfails (bindp (set_settings f) k) (m, st) bs ys c'"
  "hfails (k ()) (g m, st) bs ys c' \<Longrightarrow> hfails (bindp (set_rdpMcs g) k) (m, st) bs ys c'"
  by (rule hfails_step, simp_all add: set_settings_def set_rdpMcs_def on_state_def)+

lemma hfails_get: "hfails (K st) (m, st) bs ys c' \<Longrightarrow> hfails (get_settings K) (m, st) bs ys c'"
  by (simp add: hfails_def get_settings_def)

lemma hfails_on_settings:
  "p st = Ret a st' \<Longrightarrow> hfails (k a) (m, st') bs ys c' \<Longrightarrow> hfails (bindp (on_settings p) k) (m, st) bs ys c'"
  by (rule hfails_step) (simp_all add: on_settings_def)

section \<open>Capabilities\<close>

text \<open>Each step of \<^verbatim>\<open>updateEarlyClientCaps\<close> is a conjunction.\<close>

lemma cap_steps:
  fixes st :: rdpSettings
  shows
  "(if SupportErrorInfoPdu st then st\<lparr>SupportErrorInfoPdu := v\<rparr> else st) = st\<lparr>SupportErrorInfoPdu := SupportErrorInfoPdu st \<and> v\<rparr>"
  "(if SupportStatusInfoPdu st then st\<lparr>SupportStatusInfoPdu := v\<rparr> else st) = st\<lparr>SupportStatusInfoPdu := SupportStatusInfoPdu st \<and> v\<rparr>"
  "(if SupportAsymetricKeys st then st\<lparr>SupportAsymetricKeys := v\<rparr> else st) = st\<lparr>SupportAsymetricKeys := SupportAsymetricKeys st \<and> v\<rparr>"
  "(if NetworkAutoDetect st then st\<lparr>NetworkAutoDetect := v\<rparr> else st) = st\<lparr>NetworkAutoDetect := NetworkAutoDetect st \<and> v\<rparr>"
  "(if SupportSkipChannelJoin_s st then st\<lparr>SupportSkipChannelJoin_s := v\<rparr> else st) = st\<lparr>SupportSkipChannelJoin_s := SupportSkipChannelJoin_s st \<and> v\<rparr>"
  "(if SupportMonitorLayoutPdu st then st\<lparr>SupportMonitorLayoutPdu := v\<rparr> else st) = st\<lparr>SupportMonitorLayoutPdu := SupportMonitorLayoutPdu st \<and> v\<rparr>"
  "(if SupportHeartbeatPdu st then st\<lparr>SupportHeartbeatPdu := v\<rparr> else st) = st\<lparr>SupportHeartbeatPdu := SupportHeartbeatPdu st \<and> v\<rparr>"
  "(if SupportGraphicsPipeline st then st\<lparr>SupportGraphicsPipeline := v\<rparr> else st) = st\<lparr>SupportGraphicsPipeline := SupportGraphicsPipeline st \<and> v\<rparr>"
  "(if SupportDynamicTimeZone st then st\<lparr>SupportDynamicTimeZone := v\<rparr> else st) = st\<lparr>SupportDynamicTimeZone := SupportDynamicTimeZone st \<and> v\<rparr>"
  "(if HasRelativeMouseEvent st then (if RdpVersion st \<ge> RDP_VERSION_10_12 then st\<lparr>HasRelativeMouseEvent := v\<rparr>
     else st\<lparr>HasRelativeMouseEvent := False\<rparr>) else st) =
   st\<lparr>HasRelativeMouseEvent := HasRelativeMouseEvent st \<and> RdpVersion st \<ge> RDP_VERSION_10_12 \<and> v\<rparr>"
  by simp_all

lemma depth_applied_conj: "depth_applied d st = st\<lparr>ColorDepth := if d < ColorDepth st \<or> \<not> ServerMode_s st then d else ColorDepth st\<rparr>"
  by (simp add: depth_applied_def)

lemmas core_received_conj = core_received_def client_caps_applied_def [unfolded cap_steps] depth_applied_conj

text \<open>A capability is left to the server exactly when the client announced it too.\<close>

lemma caps_received:
  "SupportErrorInfoPdu (core_received cl host pid st) = (SupportErrorInfoPdu st \<and> SupportErrorInfoPdu cl)"
  "SupportStatusInfoPdu (core_received cl host pid st) = (SupportStatusInfoPdu st \<and> SupportStatusInfoPdu cl)"
  "SupportAsymetricKeys (core_received cl host pid st) = (SupportAsymetricKeys st \<and> SupportAsymetricKeys cl)"
  "NetworkAutoDetect (core_received cl host pid st) = (NetworkAutoDetect st \<and> NetworkAutoDetect cl)"
  "SupportSkipChannelJoin_s (core_received cl host pid st) = (SupportSkipChannelJoin_s st \<and> SupportSkipChannelJoin_s cl)"
  "SupportMonitorLayoutPdu (core_received cl host pid st) = (SupportMonitorLayoutPdu st \<and> SupportMonitorLayoutPdu cl)"
  "SupportHeartbeatPdu (core_received cl host pid st) = (SupportHeartbeatPdu st \<and> SupportHeartbeatPdu cl)"
  "SupportGraphicsPipeline (core_received cl host pid st) = (SupportGraphicsPipeline st \<and> SupportGraphicsPipeline cl)"
  "SupportDynamicTimeZone (core_received cl host pid st) = (SupportDynamicTimeZone st \<and> SupportDynamicTimeZone cl)"
  by (simp_all add: core_received_conj client_caps_sent_flags Let_def)

lemma relative_mouse_received:
  "HasRelativeMouseEvent (core_received cl host pid st) =
     (HasRelativeMouseEvent st \<and> HasRelativeMouseEvent cl \<and>
      RDP_VERSION_10_12 \<le> rdp_version_common (RdpVersion cl) (RdpVersion st))"
  by (auto simp: core_received_conj client_caps_sent_flags Let_def)

lemma display_received:
  "RdpVersion (core_received cl host pid st) = min (RdpVersion cl) (RdpVersion st)"
  "DesktopWidth (core_received cl host pid st) = DesktopWidth cl"
  "DesktopHeight (core_received cl host pid st) = DesktopHeight cl"
  "ConnectionType (core_received cl host pid st) = ConnectionType cl"
  "ColorDepth (core_received cl host pid st) =
     (if received_depth cl < ColorDepth st \<or> \<not> ServerMode_s st then received_depth cl else ColorDepth st)"
  by (simp_all add: core_received_conj client_caps_sent_flags rdp_version_common_def Let_def)

section \<open>The encryption a server demands\<close>

definition secrets_received :: "u32 \<Rightarrow> u32 \<Rightarrow> u8 list \<Rightarrow> u8 list \<Rightarrow> rdpSettings \<Rightarrow> rdpSettings" where
  "secrets_received method level random cert st = st\<lparr>EncryptionMethods := method, EncryptionLevel := level,
     ServerRandomLength := of_nat (length random), ServerCertificateLength := of_nat (length cert),
     ServerRandom := Some random, ServerCertificate := Some cert\<rparr>"

definition secrets_dropped :: "u32 \<Rightarrow> u32 \<Rightarrow> rdpSettings \<Rightarrow> rdpSettings" where
  "secrets_dropped method level st = st\<lparr>EncryptionMethods := method, EncryptionLevel := level,
     ServerRandomLength := 0, ServerCertificateLength := 0, ServerRandom := None, ServerCertificate := None\<rparr>"

lemma valid_config_known: "valid_crypto_config level method \<Longrightarrow> known_encryption_method method"
  by (auto simp: valid_crypto_config_def known_encryption_method_def split: if_splits)

lemma security_refused:
  assumes "\<not> valid_crypto_config level method"
  shows "\<exists>st'. hfails (gcc_read_server_security_data env) (m, st)
      (winpr_Data_Write_UINT32 method @ winpr_Data_Write_UINT32 level @ bs) ys (m, st') \<and>
     UseRdpSecurityLayer_s st' = UseRdpSecurityLayer_s st \<and> ServerRandom st' = ServerRandom st \<and>
     ServerCertificate st' = ServerCertificate st"
proof (cases "known_encryption_method method")
  case False
  have "hfails (gcc_read_server_security_data env) (m, st)
      (winpr_Data_Write_UINT32 method @ winpr_Data_Write_UINT32 level @ bs) ys (m, st)"
    unfolding gcc_read_server_security_data_def
    by (rule hfails_check, simp, rule hfails_u32, rule hfails_u32, rule hfails_require(2) [OF False])
  then show ?thesis by blast
next
  case True
  have "hfails (gcc_read_server_security_data env) (m, st)
      (winpr_Data_Write_UINT32 method @ winpr_Data_Write_UINT32 level @ bs) ys
      (m, st\<lparr>EncryptionMethods := method, EncryptionLevel := level\<rparr>)"
    unfolding gcc_read_server_security_data_def
    by (rule hfails_check, simp, rule hfails_u32, rule hfails_u32, rule hfails_step [where a = "()"], simp add: True,
        rule hfails_set(1), rule hfails_require(2) [OF assms])
  then show ?thesis by (intro exI [of _ "st\<lparr>EncryptionMethods := method, EncryptionLevel := level\<rparr>"] conjI) simp_all
qed

lemma security_none:
  "hparses (gcc_read_server_security_data env) (m, st)
     (winpr_Data_Write_UINT32 ENCRYPTION_METHOD_NONE @ winpr_Data_Write_UINT32 ENCRYPTION_LEVEL_NONE) ys () (m, plain_received st)"
  unfolding gcc_read_server_security_data_def
  by (intro hparse_intros)
     (simp_all add: known_encryption_method_def valid_crypto_config_def plain_received_def
       hparses_set_settings_last [THEN hparses_eq])

text \<open>The random and the certificate; \<open>k\<close> is what follows once both are there.\<close>

definition enc_secrets :: "u8 list \<Rightarrow> u8 list \<Rightarrow> u8 list" where
  "enc_secrets random cert = winpr_Data_Write_UINT32 (of_nat (length random)) @
     winpr_Data_Write_UINT32 (of_nat (length cert)) @ random @ cert"

definition secret_ok :: "gcc_env \<Rightarrow> u8 list \<Rightarrow> bool" where
  "secret_ok env bs \<longleftrightarrow> bs \<noteq> [] \<and> length bs \<le> 2 ^ 32 - 1 \<and> mem env (length bs)"

lemma set_pointer_len:
  "secret_ok env bs \<Longrightarrow> freerdp_settings_set_pointer_len (mem env) key lenKey (length bs) st =
     Ret () (lenKey (\<lambda>_. of_nat (length bs)) (key (\<lambda>_. Some (replicate (length bs) 0)) (lenKey (\<lambda>_. 0) (key (\<lambda>_. None) st))))"
  by (simp add: secret_ok_def freerdp_settings_set_pointer_len_def Let_def)

lemma secret_length: "secret_ok env bs \<Longrightarrow> unat (of_nat (length bs) :: u32) = length bs"
  by (simp add: secret_ok_def unat_of_nat)

lemma secret_nonzero: "secret_ok env bs \<Longrightarrow> (of_nat (length bs) :: u32) \<noteq> 0"
  using secret_length [of env bs] by (auto simp: secret_ok_def)

lemma hparses_read_secret:
  "hparses (k ()) (m, st\<lparr>ServerRandom := Some as\<rparr>) bs ys x c' \<Longrightarrow> length as = n \<Longrightarrow>
     hparses (bindp (read_setting (Stream_Read n) (\<lambda>v st. st\<lparr>ServerRandom := Some v\<rparr>)) k) (m, st) (as @ bs) ys x c'"
  unfolding read_setting_def bindp_assoc by (intro hparses_Read hparses_set_settings)

lemma security_secrets:
  assumes ok: "valid_crypto_config level method" "level \<noteq> ENCRYPTION_LEVEL_NONE"
    and s: "secret_ok env random" "secret_ok env cert" and cert: "freerdp_certificate_read_server_cert env cert"
  shows "hparses (gcc_read_server_security_data env) (m, st)
     (winpr_Data_Write_UINT32 method @ winpr_Data_Write_UINT32 level @ enc_secrets random cert) ys ()
     (m, secrets_received method level random cert st)"
proof -
  note un = secret_length [OF s(1)] secret_length [OF s(2)]
  let ?st = "st\<lparr>EncryptionMethods := method, EncryptionLevel := level,
     ServerRandomLength := of_nat (length random), ServerCertificateLength := of_nat (length cert)\<rparr>"
  let ?st1 = "?st\<lparr>ServerRandom := Some (replicate (length random) 0)\<rparr>"
  have sel: "unat (ServerRandomLength ?st) = length random" "unat (ServerCertificateLength ?st) = length cert"
    by (simp_all add: un)
  have set1: "freerdp_settings_set_pointer_len (mem env) ServerRandom_update ServerRandomLength_update (length random) ?st = Ret () ?st1"
    by (simp add: set_pointer_len [OF s(1)])
  show ?thesis
    unfolding gcc_read_server_security_data_def enc_secrets_def
    by (rule hparses_check, simp, rule hparses_u32, rule hparses_u32, rule hparses_require, rule valid_config_known [OF ok(1)],
        rule hparses_set_settings, rule hparses_require [OF ok(1)], simp only: if_not_P [OF ok(2)],
        rule hparses_check, simp, rule hparses_read_setting(2), rule hparses_read_setting(2), rule hparses_get_settings(1),
        rule hparses_let, rule hparses_let, unfold sel,
        rule hparses_require, simp add: secret_nonzero [OF s(1)] secret_nonzero [OF s(2)],
        rule hparses_check, simp, rule hparses_or_fail, rule hparses_on_settings, rule set1,
        rule hparses_read_secret [OF _ refl], rule hparses_check, simp, rule hparses_on_settings, rule set_pointer_len [OF s(2)],
        rule hparses_last, unfold bindp_assoc, rule hparses_Read [where bs = "[]", simplified], simp,
        rule hparses_set_settings, rule hparses_require [OF cert], rule hparses_ret [THEN hparses_eq])
       (simp add: secrets_received_def)
qed

section \<open>Too many channels\<close>

text \<open>The count is stored before it is looked at; no channel is touched, whatever follows.\<close>

lemma too_many_channels:
  assumes "31 < count"
  shows "hfails gcc_read_client_network_data (m, st) (winpr_Data_Write_UINT32 count @ bs) ys (m\<lparr>channelCount := count\<rparr>, st)"
proof -
  let ?c = "(m\<lparr>channelCount := count\<rparr>, st)"
  have refuse: "\<not> \<not> count > CHANNEL_MAX_COUNT" using assms by (simp add: CHANNEL_MAX_COUNT_def)
  have size: "hfails (bindp (on_stream (Stream_CheckAndLogRequiredLengthOfSize (unat count) 12)) (\<lambda>_.
      bindp (require (\<not> count > CHANNEL_MAX_COUNT)) (\<lambda>_. for_upto 0 (unat count) read_channel_def))) ?c bs ys ?c"
    unfolding hfails_def
  proof (intro allI impI)
    fix s :: wStream assume "wf_stream s \<and> rest s = bs @ ys"
    then show "\<exists>t. bindp (on_stream (Stream_CheckAndLogRequiredLengthOfSize (unat count) 12)) (\<lambda>_.
      bindp (require (\<not> count > CHANNEL_MAX_COUNT)) (\<lambda>_. for_upto 0 (unat count) read_channel_def)) (?c, s) = Fail (?c, t)"
      using refuse check_size_wf [of s 12 "unat count"] by (simp add: on_stream_def bindp_def require_def)
  qed
  show ?thesis
    unfolding gcc_read_client_network_data_def
    by (rule hfails_check, simp, rule hfails_u32, rule hfails_set(2), rule size)
qed

end
