(* ===== verification/RingBuffer.thy ===== *)
theory RingBuffer
  imports Stream
begin

text \<open>
  The growing byte ring of \<^verbatim>\<open>libfreerdp/utils/ringbuffer.c\<close>: its state and operations, the
  invariant under which its head and tail pointers describe a queue of bytes, the queue it
  implements, and the locale \<open>byte_queue\<close> in which the users of the ring are verified.
\<close>

section \<open>State and operations\<close>

text \<open>The allocation is the list \<open>rb_buffer\<close>; fresh memory, which the code never reads, is zero.
  \<open>grant n\<close> says whether the allocator answers a request for \<open>n\<close> bytes.\<close>

record RingBuffer =
  initialSize :: nat
  freeSize :: nat
  rb_size :: nat
  readPtr :: nat
  writePtr :: nat
  rb_buffer :: "u8 list"

type_synonym 'a ring = "('a, RingBuffer) prog"

definition ringbuffer_init :: "(nat \<Rightarrow> bool) \<Rightarrow> nat \<Rightarrow> RingBuffer option" where
  "ringbuffer_init grant initial =
     (if \<not> grant initial then None
      else Some \<lparr>initialSize = initial, freeSize = initial, rb_size = initial, readPtr = 0,
                 writePtr = 0, rb_buffer = replicate initial 0\<rparr>)"

definition ringbuffer_used :: "RingBuffer \<Rightarrow> nat" where
  "ringbuffer_used rb = rb_size rb - freeSize rb"

definition ringbuffer_capacity :: "RingBuffer \<Rightarrow> nat" where
  "ringbuffer_capacity rb = rb_size rb"

definition ringbuffer_destroy :: "RingBuffer \<Rightarrow> RingBuffer" where
  "ringbuffer_destroy rb = rb\<lparr>rb_buffer := []\<rparr>"

text \<open>\<^verbatim>\<open>realloc\<close> keeps the bytes that fit; \<open>fresh n bs\<close> is a new block that starts with \<open>bs\<close>.\<close>

definition resize :: "nat \<Rightarrow> u8 list \<Rightarrow> u8 list" where
  "resize n buf = take n buf @ replicate (n - length buf) 0"

definition fresh :: "nat \<Rightarrow> u8 list \<Rightarrow> u8 list" where
  "fresh n bs = overwrite 0 bs (replicate n 0)"

definition ringbuffer_realloc :: "(nat \<Rightarrow> bool) \<Rightarrow> nat \<Rightarrow> unit ring" where
  "ringbuffer_realloc grant targetSize rb =
     (if \<not> grant targetSize then Fail rb
      else
        let rb' =
          (if writePtr rb = readPtr rb then
             rb\<lparr>readPtr := 0, writePtr := 0, rb_buffer := resize targetSize (rb_buffer rb)\<rparr>
           else if writePtr rb \<ge> readPtr rb \<and> writePtr rb < targetSize then
             rb\<lparr>rb_buffer := resize targetSize (rb_buffer rb)\<rparr>
           else
             rb\<lparr>rb_buffer :=
                  (if readPtr rb < writePtr rb
                   then fresh targetSize (take (ringbuffer_used rb) (drop (readPtr rb) (rb_buffer rb)))
                   else fresh targetSize (take (rb_size rb - readPtr rb) (drop (readPtr rb) (rb_buffer rb)) @
                                          take (writePtr rb) (rb_buffer rb))),
                writePtr := rb_size rb - freeSize rb, readPtr := 0\<rparr>)
        in Ret () (rb'\<lparr>freeSize := freeSize rb + targetSize - rb_size rb, rb_size := targetSize\<rparr>))"

definition ringbuffer_write :: "(nat \<Rightarrow> bool) \<Rightarrow> u8 list \<Rightarrow> unit ring" where
  "ringbuffer_write grant bs =
     bindp (\<lambda>rb. if freeSize rb \<le> length bs
                 then ringbuffer_realloc grant (rb_size rb + length bs) rb else Ret () rb) (\<lambda>_ rb.
       let sz = length bs;
           toWrite = (if rb_size rb - writePtr rb < sz then rb_size rb - writePtr rb else sz);
           buf = overwrite (writePtr rb) (take toWrite bs) (rb_buffer rb);
           buf' = overwrite 0 (drop toWrite bs) buf
       in Ret () (rb\<lparr>rb_buffer := buf', writePtr := (writePtr rb + sz) mod rb_size rb,
                     freeSize := freeSize rb - sz\<rparr>))"

text \<open>The result is the offset of the linear block of \<open>sz\<close> bytes the caller may fill.\<close>

definition ringbuffer_ensure_linear_write :: "(nat \<Rightarrow> bool) \<Rightarrow> nat \<Rightarrow> nat ring" where
  "ringbuffer_ensure_linear_write grant sz =
     bindp (\<lambda>rb. if freeSize rb < sz
                 then ringbuffer_realloc grant (rb_size rb + sz - freeSize rb + 32) rb else Ret () rb) (\<lambda>_ rb.
       let rb1 = (if writePtr rb = readPtr rb then rb\<lparr>writePtr := 0, readPtr := 0\<rparr> else rb) in
       if writePtr rb1 + sz < rb_size rb1 then Ret (writePtr rb1) rb1
       else
         let n = writePtr rb1 - readPtr rb1;
             rb2 = rb1\<lparr>rb_buffer := overwrite 0 (take n (drop (readPtr rb1) (rb_buffer rb1))) (rb_buffer rb1),
                       readPtr := 0, writePtr := rb_size rb1 - freeSize rb1\<rparr>
         in Ret (writePtr rb2) rb2)"

definition ringbuffer_commit_written_bytes :: "nat \<Rightarrow> unit ring" where
  "ringbuffer_commit_written_bytes sz rb =
     (if sz < 1 then Ret () rb
      else if writePtr rb + sz > rb_size rb then Fail rb
      else Ret () (rb\<lparr>writePtr := (writePtr rb + sz) mod rb_size rb, freeSize := freeSize rb - sz\<rparr>))"

text \<open>The one or two chunks of the array; their number is the status the code returns.\<close>

definition ringbuffer_peek :: "RingBuffer \<Rightarrow> nat \<Rightarrow> u8 list list" where
  "ringbuffer_peek rb sz =
     (if sz < 1 then []
      else
        let remaining = (if rb_size rb - freeSize rb < sz then rb_size rb - freeSize rb else sz);
            toRead = (if readPtr rb + remaining > rb_size rb then rb_size rb - readPtr rb else remaining);
            rest = remaining - toRead
        in (if toRead > 0 then [take toRead (drop (readPtr rb) (rb_buffer rb))] else []) @
           (if rest > 0 then [take rest (rb_buffer rb)] else []))"

text \<open>The result of the shrinking \<^verbatim>\<open>realloc\<close> is not looked at.\<close>

definition ringbuffer_commit_read_bytes :: "(nat \<Rightarrow> bool) \<Rightarrow> nat \<Rightarrow> unit ring" where
  "ringbuffer_commit_read_bytes grant sz rb =
     (if sz < 1 then Ret () rb
      else if \<not> rb_size rb - freeSize rb \<ge> sz then Abort
      else
        let rb' = rb\<lparr>readPtr := (readPtr rb + sz) mod rb_size rb, freeSize := freeSize rb + sz\<rparr> in
        if rb_size rb' \<noteq> initialSize rb' \<and> ringbuffer_used rb' < initialSize rb' div 2
        then (case ringbuffer_realloc grant (initialSize rb') rb' of
                Abort \<Rightarrow> Abort | Fail t \<Rightarrow> Ret () t | Ret _ t \<Rightarrow> Ret () t)
        else Ret () rb')"

section \<open>The queue of bytes a ring stands for\<close>

definition rb_content :: "RingBuffer \<Rightarrow> u8 list" where
  "rb_content rb =
     map (\<lambda>i. rb_buffer rb ! ((readPtr rb + i) mod rb_size rb)) [0..<ringbuffer_used rb]"

text \<open>At least one byte stays free, so that equal pointers mean an empty ring.\<close>

definition rb_inv :: "RingBuffer \<Rightarrow> bool" where
  "rb_inv rb \<longleftrightarrow> length (rb_buffer rb) = rb_size rb \<and> readPtr rb < rb_size rb \<and>
     writePtr rb < rb_size rb \<and> 0 < freeSize rb \<and> freeSize rb \<le> rb_size rb \<and> 0 < initialSize rb \<and>
     ringbuffer_used rb = (if readPtr rb \<le> writePtr rb then writePtr rb - readPtr rb
                           else rb_size rb - readPtr rb + writePtr rb)"

lemma length_rb_content [simp]: "length (rb_content rb) = ringbuffer_used rb"
  by (simp add: rb_content_def)

lemma mod_wrap: "(a :: nat) < n \<Longrightarrow> b \<le> n \<Longrightarrow> (a + b) mod n = (if a + b < n then a + b else a + b - n)"
  by (auto simp: le_mod_geq not_less)

lemma nth_rb_content:
  assumes "rb_inv rb" and "i < ringbuffer_used rb"
  shows "rb_content rb ! i = rb_buffer rb !
     (if readPtr rb + i < rb_size rb then readPtr rb + i else readPtr rb + i - rb_size rb)"
proof -
  have "readPtr rb < rb_size rb" "i \<le> rb_size rb"
    using assms by (auto simp: rb_inv_def ringbuffer_used_def)
  then show ?thesis using assms(2) by (simp add: rb_content_def mod_wrap)
qed

lemma nth_overwrite:
  "p + length bs \<le> length buf \<Longrightarrow> j < length buf \<Longrightarrow>
     overwrite p bs buf ! j = (if p \<le> j \<and> j < p + length bs then bs ! (j - p) else buf ! j)"
  by (auto simp: overwrite_def nth_append)

lemma length_overwrite_le: "p + length bs \<le> length buf \<Longrightarrow> length (overwrite p bs buf) = length buf"
  by (simp add: overwrite_def)

lemma length_resize [simp]: "length (resize n buf) = n"
  by (simp add: resize_def)

lemma nth_resize: "i < n \<Longrightarrow> i < length buf \<Longrightarrow> resize n buf ! i = buf ! i"
  by (simp add: resize_def nth_append)

lemma length_fresh: "length bs \<le> n \<Longrightarrow> length (fresh n bs) = n"
  by (simp add: fresh_def length_overwrite_le)

lemma nth_fresh: "i < length bs \<Longrightarrow> length bs \<le> n \<Longrightarrow> fresh n bs ! i = bs ! i"
  by (simp add: fresh_def nth_overwrite)

lemma rb_content_eqI:
  assumes "rb_inv rb" and "length xs = ringbuffer_used rb"
    and "\<And>i. i < ringbuffer_used rb \<Longrightarrow> rb_buffer rb !
       (if readPtr rb + i < rb_size rb then readPtr rb + i else readPtr rb + i - rb_size rb) = xs ! i"
  shows "rb_content rb = xs"
  using assms by (intro nth_equalityI) (simp_all add: nth_rb_content)

section \<open>Every operation keeps the queue\<close>

text \<open>What a ring keeps when it is reallocated.\<close>

definition rb_same :: "RingBuffer \<Rightarrow> RingBuffer \<Rightarrow> bool" where
  "rb_same rb rb' \<longleftrightarrow> rb_inv rb' \<and> rb_content rb' = rb_content rb \<and> initialSize rb' = initialSize rb"

lemma rb_same_refl: "rb_inv rb \<Longrightarrow> rb_same rb rb"
  by (simp add: rb_same_def)

lemma rb_sameI:
  assumes "rb_inv rb" and "rb_inv rb'" and "initialSize rb' = initialSize rb"
    and "ringbuffer_used rb' = ringbuffer_used rb"
    and "\<And>i. i < ringbuffer_used rb \<Longrightarrow> rb_content rb' ! i = rb_content rb ! i"
  shows "rb_same rb rb'"
  using assms unfolding rb_same_def by (intro conjI nth_equalityI) simp_all

lemma realloc_Fail: "\<not> grant target \<Longrightarrow> ringbuffer_realloc grant target rb = Fail rb"
  by (simp add: ringbuffer_realloc_def)

lemma realloc_ok:
  assumes inv: "rb_inv rb" and used: "ringbuffer_used rb < target" and g: "grant target"
  shows "\<exists>rb'. ringbuffer_realloc grant target rb = Ret () rb' \<and> rb_same rb rb' \<and>
     rb_size rb' = target \<and> freeSize rb' = target - ringbuffer_used rb"
proof -
  let ?u = "ringbuffer_used rb" and ?r = "readPtr rb" and ?w = "writePtr rb"
    and ?n = "rb_size rb" and ?b = "rb_buffer rb"
  have i: "length ?b = ?n" "?r < ?n" "?w < ?n" "0 < freeSize rb" "freeSize rb \<le> ?n" "0 < initialSize rb"
    and u: "?u = (if ?r \<le> ?w then ?w - ?r else ?n - ?r + ?w)"
    using inv by (simp_all add: rb_inv_def)
  have free: "freeSize rb + target - ?n = target - ?u" "?n - freeSize rb = ?u"
    using i used by (auto simp: ringbuffer_used_def)
  consider "?w = ?r" | "?r < ?w" "?w < target" | "?r < ?w" "target \<le> ?w" | "?w < ?r"
    by linarith
  then show ?thesis
  proof cases
    case 1
    let ?rb = "rb\<lparr>readPtr := 0, writePtr := 0, rb_buffer := resize target ?b,
                  freeSize := target - ?u, rb_size := target\<rparr>"
    from 1 u have 0: "?u = 0" by simp
    have "rb_same rb ?rb"
      by (rule rb_sameI [OF inv]) (use i used 0 in \<open>auto simp: rb_inv_def ringbuffer_used_def\<close>)
    moreover have "ringbuffer_realloc grant target rb = Ret () ?rb"
      using 1 g free by (simp add: ringbuffer_realloc_def Let_def)
    ultimately show ?thesis by auto
  next
    case 2
    let ?rb = "rb\<lparr>rb_buffer := resize target ?b, freeSize := target - ?u, rb_size := target\<rparr>"
    from 2 u have uw: "?u = ?w - ?r" by simp
    have inv': "rb_inv ?rb" using i used 2 uw by (auto simp: rb_inv_def ringbuffer_used_def)
    have u': "ringbuffer_used ?rb = ?u" using used by (simp add: ringbuffer_used_def)
    have "rb_same rb ?rb"
    proof (rule rb_sameI [OF inv inv'])
      fix j assume j: "j < ?u"
      then have lt: "?r + j < target" "?r + j < ?n" using uw 2 i by auto
      have "rb_content ?rb ! j = resize target ?b ! (?r + j)"
        using nth_rb_content [OF inv', of j] u' j lt by simp
      also have "\<dots> = ?b ! (?r + j)" using lt i by (simp add: nth_resize)
      also have "\<dots> = rb_content rb ! j" using nth_rb_content [OF inv j] uw j 2 i by auto
      finally show "rb_content ?rb ! j = rb_content rb ! j" .
    qed (use u' in simp_all)
    moreover have "ringbuffer_realloc grant target rb = Ret () ?rb"
      using 2 g free by (simp add: ringbuffer_realloc_def Let_def)
    ultimately show ?thesis by auto
  next
    case 3
    let ?d = "take ?u (drop ?r ?b)"
    let ?rb = "rb\<lparr>rb_buffer := fresh target ?d, writePtr := ?u, readPtr := 0,
                  freeSize := target - ?u, rb_size := target\<rparr>"
    from 3 u have uw: "?u = ?w - ?r" by simp
    then have ld: "length ?d = ?u" using i by simp
    have inv': "rb_inv ?rb" using i used ld by (auto simp: rb_inv_def ringbuffer_used_def length_fresh)
    have u': "ringbuffer_used ?rb = ?u" using used by (simp add: ringbuffer_used_def)
    have "rb_same rb ?rb"
    proof (rule rb_sameI [OF inv inv'])
      fix j assume j: "j < ?u"
      then have "rb_content ?rb ! j = ?d ! j"
        using nth_rb_content [OF inv', of j] u' ld used by (simp add: nth_fresh del: length_append)
      also have "\<dots> = rb_content rb ! j" using nth_rb_content [OF inv j] uw j 3 i by auto
      finally show "rb_content ?rb ! j = rb_content rb ! j" .
    qed (use u' in simp_all)
    moreover have "ringbuffer_realloc grant target rb = Ret () ?rb"
      using 3 g free by (simp add: ringbuffer_realloc_def Let_def)
    ultimately show ?thesis by auto
  next
    case 4
    let ?d = "take (?n - ?r) (drop ?r ?b) @ take ?w ?b"
    let ?rb = "rb\<lparr>rb_buffer := fresh target ?d, writePtr := ?u, readPtr := 0,
                  freeSize := target - ?u, rb_size := target\<rparr>"
    from 4 u have uw: "?u = ?n - ?r + ?w" by simp
    then have ld: "length ?d = ?u" using i by simp
    have inv': "rb_inv ?rb" using i used ld by (auto simp: rb_inv_def ringbuffer_used_def length_fresh)
    have u': "ringbuffer_used ?rb = ?u" using used by (simp add: ringbuffer_used_def)
    have "rb_same rb ?rb"
    proof (rule rb_sameI [OF inv inv'])
      fix j assume j: "j < ?u"
      then have "rb_content ?rb ! j = ?d ! j"
        using nth_rb_content [OF inv', of j] u' ld used by (simp add: nth_fresh del: length_append)
      also have "\<dots> = rb_content rb ! j" using nth_rb_content [OF inv j] uw j 4 i
        by (auto simp: nth_append add.commute)
      finally show "rb_content ?rb ! j = rb_content rb ! j" .
    qed (use u' in simp_all)
    moreover have "ringbuffer_realloc grant target rb = Ret () ?rb"
      using 4 g free by (simp add: ringbuffer_realloc_def Let_def)
    ultimately show ?thesis by auto
  qed
qed

text \<open>The part of a write after the ring has been made large enough.\<close>

definition ring_store :: "u8 list \<Rightarrow> RingBuffer \<Rightarrow> RingBuffer" where
  "ring_store bs rb =
     (let sz = length bs;
          toWrite = (if rb_size rb - writePtr rb < sz then rb_size rb - writePtr rb else sz)
      in rb\<lparr>rb_buffer := overwrite 0 (drop toWrite bs) (overwrite (writePtr rb) (take toWrite bs) (rb_buffer rb)),
            writePtr := (writePtr rb + sz) mod rb_size rb, freeSize := freeSize rb - sz\<rparr>)"

lemma ringbuffer_write_store:
  "ringbuffer_write grant bs =
     bindp (\<lambda>rb. if freeSize rb \<le> length bs
                 then ringbuffer_realloc grant (rb_size rb + length bs) rb else Ret () rb)
           (\<lambda>_ rb. Ret () (ring_store bs rb))"
  by (simp add: ringbuffer_write_def ring_store_def Let_def)

lemma nth_ring_store:
  assumes "writePtr rb < rb_size rb" and "length bs \<le> rb_size rb" and "length (rb_buffer rb) = rb_size rb"
    and "j < rb_size rb"
  shows "rb_buffer (ring_store bs rb) ! j =
     (if writePtr rb \<le> j \<and> j < writePtr rb + length bs then bs ! (j - writePtr rb)
      else if j + rb_size rb < writePtr rb + length bs then bs ! (j + rb_size rb - writePtr rb)
      else rb_buffer rb ! j)"
proof (cases "rb_size rb - writePtr rb < length bs")
  case True
  let ?t = "rb_size rb - writePtr rb"
  have "rb_buffer (ring_store bs rb) = overwrite 0 (drop ?t bs) (overwrite (writePtr rb) (take ?t bs) (rb_buffer rb))"
    using True by (simp add: ring_store_def Let_def)
  moreover have "length (overwrite (writePtr rb) (take ?t bs) (rb_buffer rb)) = rb_size rb"
    using assms True by (simp add: length_overwrite_le)
  ultimately show ?thesis using assms True by (auto simp: nth_overwrite min_def add.commute)
next
  case False
  then have "rb_buffer (ring_store bs rb) = overwrite (writePtr rb) bs (rb_buffer rb)"
    by (simp add: ring_store_def Let_def overwrite_def)
  with False assms show ?thesis by (auto simp: nth_overwrite)
qed

lemma ring_store_ok:
  assumes inv: "rb_inv rb" and room: "length bs < freeSize rb"
  shows "rb_inv (ring_store bs rb)" and "rb_content (ring_store bs rb) = rb_content rb @ bs"
    and "initialSize (ring_store bs rb) = initialSize rb"
proof -
  let ?rb = "ring_store bs rb" and ?u = "ringbuffer_used rb" and ?r = "readPtr rb" and ?w = "writePtr rb"
    and ?n = "rb_size rb" and ?b = "rb_buffer rb" and ?k = "length bs"
  have i: "length ?b = ?n" "?r < ?n" "?w < ?n" "0 < freeSize rb" "freeSize rb \<le> ?n" "0 < initialSize rb"
    and u: "?u = (if ?r \<le> ?w then ?w - ?r else ?n - ?r + ?w)" and uf: "?u = ?n - freeSize rb"
    using inv by (simp_all add: rb_inv_def ringbuffer_used_def)
  have sel: "readPtr ?rb = ?r" "rb_size ?rb = ?n" "initialSize ?rb = initialSize rb"
    "freeSize ?rb = freeSize rb - ?k" "writePtr ?rb = (if ?w + ?k < ?n then ?w + ?k else ?w + ?k - ?n)"
    using i room by (simp_all add: ring_store_def Let_def mod_wrap)
  have l: "length (rb_buffer ?rb) = ?n"
    using i room by (auto simp: ring_store_def Let_def overwrite_def min_def)
  have used: "ringbuffer_used ?rb = ?u + ?k" using i room by (simp add: ringbuffer_used_def sel)
  show inv': "rb_inv ?rb" unfolding rb_inv_def used unfolding sel using i l room u uf by auto
  show "initialSize ?rb = initialSize rb" by (rule sel)
  show "rb_content ?rb = rb_content rb @ bs"
  proof (rule rb_content_eqI [OF inv'])
    show "length (rb_content rb @ bs) = ringbuffer_used ?rb" by (simp add: used)
    fix j assume "j < ringbuffer_used ?rb"
    then have j: "j < ?u + ?k" by (simp add: used)
    let ?p = "if ?r + j < ?n then ?r + j else ?r + j - ?n"
    have p: "?p < ?n" using i j uf room by auto
    have "rb_buffer ?rb ! ?p = (rb_content rb @ bs) ! j"
    proof (cases "j < ?u")
      case True
      then have "rb_buffer ?rb ! ?p = ?b ! ?p"
        using nth_ring_store [OF i(3) _ i(1) p, of bs] i u uf room by (auto split: if_splits)
      with True nth_rb_content [OF inv True] show ?thesis by (simp add: nth_append)
    next
      case False
      then have "rb_buffer ?rb ! ?p = bs ! (j - ?u)"
        using nth_ring_store [OF i(3) _ i(1) p, of bs] i u uf room j by (auto simp: add.commute split: if_splits)
      with False show ?thesis by (simp add: nth_append)
    qed
    then show "rb_buffer ?rb ! (if readPtr ?rb + j < rb_size ?rb then readPtr ?rb + j
        else readPtr ?rb + j - rb_size ?rb) = (rb_content rb @ bs) ! j"
      by (simp only: sel)
  qed
qed

lemma ringbuffer_write_spec:
  assumes inv: "rb_inv rb"
  shows "ringbuffer_write grant bs rb = Fail rb \<and> \<not> grant (rb_size rb + length bs) \<and> freeSize rb \<le> length bs \<or>
     (\<exists>rb'. ringbuffer_write grant bs rb = Ret () rb' \<and> rb_inv rb' \<and>
            rb_content rb' = rb_content rb @ bs \<and> initialSize rb' = initialSize rb)"
proof (cases "freeSize rb \<le> length bs")
  case False
  with ring_store_ok [OF inv, of bs] show ?thesis
    by (simp add: ringbuffer_write_store bindp_def)
next
  case True
  have i: "0 < freeSize rb" "freeSize rb \<le> rb_size rb" using inv by (simp_all add: rb_inv_def)
  show ?thesis
  proof (cases "grant (rb_size rb + length bs)")
    case False
    with True show ?thesis by (simp add: ringbuffer_write_store bindp_def realloc_Fail)
  next
    case g: True
    have used: "ringbuffer_used rb < rb_size rb + length bs" using i by (simp add: ringbuffer_used_def)
    obtain rb' where r: "ringbuffer_realloc grant (rb_size rb + length bs) rb = Ret () rb'" "rb_same rb rb'"
        "freeSize rb' = rb_size rb + length bs - ringbuffer_used rb"
      using realloc_ok [of rb "rb_size rb + length bs" grant, OF inv used g] by blast
    have "length bs < freeSize rb'" using r(3) i by (simp add: ringbuffer_used_def)
    with r ring_store_ok [of rb' bs] True show ?thesis
      by (simp add: ringbuffer_write_store bindp_def rb_same_def)
  qed
qed

lemma ringbuffer_peek_spec:
  assumes inv: "rb_inv rb"
  shows "concat (ringbuffer_peek rb n) = take n (rb_content rb)" and "length (ringbuffer_peek rb n) \<le> 2"
    and "\<forall>c \<in> set (ringbuffer_peek rb n). c \<noteq> []"
proof -
  let ?u = "ringbuffer_used rb" and ?r = "readPtr rb" and ?n = "rb_size rb" and ?b = "rb_buffer rb"
  have i: "length ?b = ?n" "?r < ?n" "?u \<le> ?n"
    using inv by (auto simp: rb_inv_def ringbuffer_used_def)
  let ?m = "min n ?u"
  have m: "(if ?n - freeSize rb < n then ?n - freeSize rb else n) = ?m"
    by (auto simp: ringbuffer_used_def)
  show "length (ringbuffer_peek rb n) \<le> 2" by (simp add: ringbuffer_peek_def Let_def)
  show "\<forall>c \<in> set (ringbuffer_peek rb n). c \<noteq> []"
    using i by (auto simp: ringbuffer_peek_def Let_def split: if_splits)
  show "concat (ringbuffer_peek rb n) = take n (rb_content rb)"
  proof (rule nth_equalityI)
    have c: "concat (ringbuffer_peek rb n) =
        take (if ?r + ?m > ?n then ?n - ?r else ?m) (drop ?r ?b) @
        take (?m - (if ?r + ?m > ?n then ?n - ?r else ?m)) ?b" if "0 < n"
      using that unfolding ringbuffer_peek_def Let_def m by auto
    show len: "length (concat (ringbuffer_peek rb n)) = length (take n (rb_content rb))"
    proof (cases "n = 0")
      case False
      with c i show ?thesis by auto
    qed (simp add: ringbuffer_peek_def)
    fix j assume j: "j < length (concat (ringbuffer_peek rb n))"
    then have ju: "j < ?u" "j < n" "0 < n" using len by auto
    have "concat (ringbuffer_peek rb n) ! j = ?b ! (if ?r + j < ?n then ?r + j else ?r + j - ?n)"
      unfolding c [OF ju(3)] using i ju by (auto simp: nth_append add.commute)
    then show "concat (ringbuffer_peek rb n) ! j = take n (rb_content rb) ! j"
      using nth_rb_content [OF inv ju(1)] ju by simp
  qed
qed

text \<open>Dropping bytes at the head, before the ring is shrunk.\<close>

lemma ring_drop:
  fixes rb sz
  defines "rb' \<equiv> rb\<lparr>readPtr := (readPtr rb + sz) mod rb_size rb, freeSize := freeSize rb + sz\<rparr>"
  assumes inv: "rb_inv rb" and sz: "sz \<le> ringbuffer_used rb"
  shows "rb_inv rb'" and "rb_content rb' = drop sz (rb_content rb)" and "initialSize rb' = initialSize rb"
proof -
  let ?u = "ringbuffer_used rb" and ?r = "readPtr rb" and ?w = "writePtr rb" and ?n = "rb_size rb" and ?b = "rb_buffer rb"
  have i: "length ?b = ?n" "?r < ?n" "?w < ?n" "0 < freeSize rb" "freeSize rb \<le> ?n" "0 < initialSize rb"
    and u: "?u = (if ?r \<le> ?w then ?w - ?r else ?n - ?r + ?w)" and uf: "?u = ?n - freeSize rb"
    using inv by (simp_all add: rb_inv_def ringbuffer_used_def)
  have sel: "readPtr rb' = (if ?r + sz < ?n then ?r + sz else ?r + sz - ?n)" "rb_size rb' = ?n"
    "freeSize rb' = freeSize rb + sz" "rb_buffer rb' = ?b" "writePtr rb' = ?w" "initialSize rb' = initialSize rb"
    using i sz uf by (simp_all add: rb'_def mod_wrap)
  have used: "ringbuffer_used rb' = ?u - sz" by (simp add: ringbuffer_used_def sel)
  show inv': "rb_inv rb'" unfolding rb_inv_def used unfolding sel using i sz u uf by auto
  show "initialSize rb' = initialSize rb" by (rule sel)
  show "rb_content rb' = drop sz (rb_content rb)"
  proof (rule rb_content_eqI [OF inv'])
    show "length (drop sz (rb_content rb)) = ringbuffer_used rb'" by (simp add: used)
    fix j assume "j < ringbuffer_used rb'"
    then have j: "j + sz < ?u" by (simp add: used)
    have eq: "(if readPtr rb' + j < ?n then readPtr rb' + j else readPtr rb' + j - ?n) =
        (if ?r + (j + sz) < ?n then ?r + (j + sz) else ?r + (j + sz) - ?n)"
      unfolding sel using i j uf by auto
    show "rb_buffer rb' ! (if readPtr rb' + j < rb_size rb' then readPtr rb' + j else readPtr rb' + j - rb_size rb')
        = drop sz (rb_content rb) ! j"
      unfolding sel(2,4) eq nth_rb_content [OF inv j, symmetric] using j by (simp add: add.commute)
  qed
qed

lemma ringbuffer_commit_read_spec:
  assumes inv: "rb_inv rb" and sz: "sz \<le> ringbuffer_used rb"
  shows "\<exists>rb'. ringbuffer_commit_read_bytes grant sz rb = Ret () rb' \<and> rb_inv rb' \<and>
     rb_content rb' = drop sz (rb_content rb) \<and> initialSize rb' = initialSize rb"
proof (cases "sz = 0")
  case True
  with inv show ?thesis by (simp add: ringbuffer_commit_read_bytes_def)
next
  case False
  let ?rb = "rb\<lparr>readPtr := (readPtr rb + sz) mod rb_size rb, freeSize := freeSize rb + sz\<rparr>"
  note d = ring_drop [OF inv sz]
  show ?thesis
  proof (cases "rb_size ?rb \<noteq> initialSize ?rb \<and> ringbuffer_used ?rb < initialSize ?rb div 2 \<and> grant (initialSize ?rb)")
    case True
    then have "ringbuffer_used ?rb < initialSize ?rb" "grant (initialSize ?rb)" by auto
    from realloc_ok [where grant = grant, OF d(1) this] obtain rb' where
      "ringbuffer_realloc grant (initialSize ?rb) ?rb = Ret () rb'" "rb_same ?rb rb'" by blast
    with True False sz d show ?thesis
      by (auto simp: ringbuffer_commit_read_bytes_def Let_def ringbuffer_used_def rb_same_def)
  next
    case no: False
    then have "ringbuffer_commit_read_bytes grant sz rb = Ret () ?rb"
      using False sz by (auto simp: ringbuffer_commit_read_bytes_def Let_def ringbuffer_used_def realloc_Fail)
    with d show ?thesis by auto
  qed
qed

section \<open>Writing in place\<close>

text \<open>What a caller does with the block it was given.\<close>

definition ring_fill :: "nat \<Rightarrow> u8 list \<Rightarrow> RingBuffer \<Rightarrow> RingBuffer" where
  "ring_fill off bs rb = rb\<lparr>rb_buffer := overwrite off bs (rb_buffer rb)\<rparr>"

definition linear_write :: "(nat \<Rightarrow> bool) \<Rightarrow> u8 list \<Rightarrow> unit ring" where
  "linear_write grant bs =
     bindp (ringbuffer_ensure_linear_write grant (length bs)) (\<lambda>off rb.
       ringbuffer_commit_written_bytes (length bs) (ring_fill off bs rb))"

text \<open>Moving the bytes to the front of the block.\<close>

lemma compact_ok:
  fixes rb
  defines "n \<equiv> writePtr rb - readPtr rb"
  defines "rb' \<equiv> rb\<lparr>rb_buffer := overwrite 0 (take n (drop (readPtr rb) (rb_buffer rb))) (rb_buffer rb),
                     readPtr := 0, writePtr := rb_size rb - freeSize rb\<rparr>"
  assumes inv: "rb_inv rb" and le: "readPtr rb \<le> writePtr rb"
  shows "rb_same rb rb'"
proof -
  have i: "length (rb_buffer rb) = rb_size rb" "readPtr rb < rb_size rb" "writePtr rb < rb_size rb"
    "0 < freeSize rb" "freeSize rb \<le> rb_size rb" "0 < initialSize rb"
    and u: "ringbuffer_used rb = n" and uf: "n = rb_size rb - freeSize rb"
    using inv le by (auto simp: rb_inv_def ringbuffer_used_def n_def)
  have nr: "n + readPtr rb \<le> rb_size rb" using i le by (simp add: n_def)
  have u': "ringbuffer_used rb' = n" by (simp add: ringbuffer_used_def rb'_def uf)
  have inv': "rb_inv rb'"
    unfolding rb_inv_def u' using i nr uf by (simp add: rb'_def length_overwrite_le)
  show ?thesis
  proof (rule rb_sameI [OF inv inv'])
    fix j assume j: "j < ringbuffer_used rb"
    then have jn: "j < ringbuffer_used rb'" by (simp add: u u')
    have "rb_content rb' ! j = rb_buffer rb' ! j"
      using nth_rb_content [OF inv' jn] u' jn nr by (simp add: rb'_def)
    also have "\<dots> = rb_buffer rb ! (readPtr rb + j)"
      using j i nr by (simp add: rb'_def nth_overwrite u)
    also have "\<dots> = rb_content rb ! j"
      using nth_rb_content [OF inv j] j nr by (simp add: u)
    finally show "rb_content rb' ! j = rb_content rb ! j" .
  qed (simp_all add: u u', simp add: rb'_def)
qed

lemma ring_store_linear:
  assumes "rb_inv rb" and "writePtr rb + length bs < rb_size rb"
  shows "ringbuffer_commit_written_bytes (length bs) (ring_fill (writePtr rb) bs rb) = Ret () (ring_store bs rb)"
  using assms by (auto simp: ringbuffer_commit_written_bytes_def ring_fill_def ring_store_def Let_def
      overwrite_def rb_inv_def)

lemma reset_empty:
  assumes "rb_inv rb" and "writePtr rb = readPtr rb"
  shows "rb_same rb (rb\<lparr>writePtr := 0, readPtr := 0\<rparr>)"
  using assms by (auto simp: rb_same_def rb_inv_def rb_content_def ringbuffer_used_def)

text \<open>What the ring looks like when it hands out a block.\<close>

lemma ensure_linear_ok:
  assumes inv: "rb_inv rb" and room: "sz < freeSize rb"
  shows "\<exists>rb'. ringbuffer_ensure_linear_write grant sz rb = Ret (writePtr rb') rb' \<and> rb_same rb rb' \<and>
     writePtr rb' + sz < rb_size rb' \<and> freeSize rb' = freeSize rb"
proof -
  let ?rb = "if writePtr rb = readPtr rb then rb\<lparr>writePtr := 0, readPtr := 0\<rparr> else rb"
  have same: "rb_same rb ?rb" using reset_empty [OF inv] rb_same_refl [OF inv] by simp
  then have inv1: "rb_inv ?rb" and c1: "rb_content ?rb = rb_content rb" "initialSize ?rb = initialSize rb"
    by (simp_all add: rb_same_def)
  have f: "freeSize ?rb = freeSize rb" "rb_size ?rb = rb_size rb" by simp_all
  show ?thesis
  proof (cases "writePtr ?rb + sz < rb_size ?rb")
    case True
    then have "ringbuffer_ensure_linear_write grant sz rb = Ret (writePtr ?rb) ?rb"
      using room by (simp add: ringbuffer_ensure_linear_write_def bindp_def Let_def)
    with True same f show ?thesis by blast
  next
    case False
    have le: "readPtr ?rb \<le> writePtr ?rb"
      using inv1 False room f unfolding rb_inv_def by (auto simp: ringbuffer_used_def split: if_splits)
    let ?n = "writePtr ?rb - readPtr ?rb"
    let ?rb2 = "?rb\<lparr>rb_buffer := overwrite 0 (take ?n (drop (readPtr ?rb) (rb_buffer ?rb))) (rb_buffer ?rb),
                    readPtr := 0, writePtr := rb_size ?rb - freeSize ?rb\<rparr>"
    have "rb_same ?rb ?rb2" by (rule compact_ok [OF inv1 le])
    with c1 have s2: "rb_same rb ?rb2" by (simp add: rb_same_def)
    have "ringbuffer_ensure_linear_write grant sz rb = Ret (writePtr ?rb2) ?rb2"
      using room False by (simp add: ringbuffer_ensure_linear_write_def bindp_def Let_def)
    moreover have "writePtr ?rb2 + sz < rb_size ?rb2"
      using room inv by (auto simp: rb_inv_def)
    moreover have "freeSize ?rb2 = freeSize rb" by simp
    ultimately show ?thesis using s2 by blast
  qed
qed

lemma linear_write_spec:
  assumes inv: "rb_inv rb" and ne: "freeSize rb \<noteq> length bs"
    and g: "grant (rb_size rb + length bs - freeSize rb + 32)"
  shows "\<exists>rb'. linear_write grant bs rb = Ret () rb' \<and> rb_inv rb' \<and> rb_content rb' = rb_content rb @ bs"
proof -
  have step: "\<exists>rb'. bindp (ringbuffer_ensure_linear_write grant (length bs)) (\<lambda>off rb.
       ringbuffer_commit_written_bytes (length bs) (ring_fill off bs rb)) r = Ret () rb' \<and> rb_inv rb' \<and>
       rb_content rb' = rb_content r @ bs" if r: "rb_inv r" "length bs < freeSize r" for r
  proof -
    obtain rb1 where e: "ringbuffer_ensure_linear_write grant (length bs) r = Ret (writePtr rb1) rb1"
      and s: "rb_same r rb1" "writePtr rb1 + length bs < rb_size rb1" "freeSize rb1 = freeSize r"
      using ensure_linear_ok [where grant = grant, OF r] by blast
    from s(1) have i1: "rb_inv rb1" "rb_content rb1 = rb_content r" by (simp_all add: rb_same_def)
    from ring_store_linear [OF i1(1) s(2)] ring_store_ok [OF i1(1), of bs] s(3) r(2) i1(2) e
    show ?thesis by (simp add: bindp_def)
  qed
  show ?thesis
  proof (cases "freeSize rb < length bs")
    case False
    with ne step [OF inv] show ?thesis by (simp add: linear_write_def)
  next
    case True
    let ?t = "rb_size rb + length bs - freeSize rb + 32"
    have "ringbuffer_used rb < ?t" using True by (simp add: ringbuffer_used_def)
    from realloc_ok [where grant = grant, OF inv this g] obtain rb1 where
      r1: "ringbuffer_realloc grant ?t rb = Ret () rb1" "rb_same rb rb1" "freeSize rb1 = ?t - ringbuffer_used rb"
      by blast
    have "freeSize rb \<le> rb_size rb" using inv by (simp add: rb_inv_def)
    then have f: "length bs < freeSize rb1" using r1(3) True by (simp add: ringbuffer_used_def)
    have "ringbuffer_ensure_linear_write grant (length bs) rb = ringbuffer_ensure_linear_write grant (length bs) rb1"
      using r1(1) True f by (simp add: ringbuffer_ensure_linear_write_def bindp_def)
    then have "linear_write grant bs rb = linear_write grant bs rb1" by (simp add: linear_write_def bindp_def)
    with step [of rb1] f r1(2) show ?thesis by (simp add: linear_write_def rb_same_def)
  qed
qed

text \<open>Filling the ring to its last byte: the bytes are appended, but the two positions meet, as in an empty ring.\<close>

lemma linear_write_fills:
  assumes inv: "rb_inv rb" and full: "freeSize rb = length bs"
  shows "\<exists>rb'. linear_write grant bs rb = Ret () rb' \<and> freeSize rb' = 0 \<and> readPtr rb' = writePtr rb' \<and>
     readPtr rb' < rb_size rb' \<and> rb_size rb' = rb_size rb \<and> length (rb_buffer rb') = rb_size rb \<and>
     initialSize rb' = initialSize rb \<and> rb_content rb' = rb_content rb @ bs \<and>
     (readPtr rb \<le> writePtr rb \<longrightarrow> readPtr rb' = 0)"
proof -
  let ?n = "rb_size rb" and ?r = "readPtr rb" and ?w = "writePtr rb" and ?b = "rb_buffer rb" and ?u = "ringbuffer_used rb"
  have i: "length ?b = ?n" "?r < ?n" "?w < ?n" "0 < length bs" "length bs \<le> ?n"
    and u: "?u = (if ?r \<le> ?w then ?w - ?r else ?n - ?r + ?w)" and un: "?u = ?n - length bs"
    using inv full by (simp_all add: rb_inv_def ringbuffer_used_def)
  show ?thesis
  proof (cases "?r \<le> ?w")
    case True
    let ?b' = "overwrite ?u bs (overwrite 0 (take ?u (drop ?r ?b)) ?b)"
    let ?rb = "rb\<lparr>rb_buffer := ?b', readPtr := 0, writePtr := 0, freeSize := 0\<rparr>"
    from True u have uw: "?u = ?w - ?r" by simp
    have len: "length (overwrite 0 (take ?u (drop ?r ?b)) ?b) = ?n" "length (take ?u (drop ?r ?b)) = ?u"
      using i uw by (simp_all add: length_overwrite_le)
    have b': "length ?b' = ?n" using i un len by (subst length_overwrite_le) simp_all
    let ?rb1 = "rb\<lparr>rb_buffer := overwrite 0 (take ?u (drop ?r ?b)) ?b, readPtr := 0, writePtr := ?u\<rparr>"
    have ensure: "ringbuffer_ensure_linear_write grant (length bs) rb = Ret ?u ?rb1"
    proof (cases "?w = ?r")
      case True
      with uw un i have "?u = 0" "length bs = ?n" by simp_all
      with True i full show ?thesis
        by (simp add: ringbuffer_ensure_linear_write_def bindp_def Let_def ringbuffer_used_def overwrite_def)
    next
      case False
      then have "\<not> ?w + length bs < ?n" using i un uw by simp
      with False full uw un show ?thesis
        by (simp add: ringbuffer_ensure_linear_write_def bindp_def Let_def)
    qed
    have run: "linear_write grant bs rb = Ret () ?rb"
      unfolding linear_write_def bindp_def ensure using i un full
      by (simp add: ring_fill_def ringbuffer_commit_written_bytes_def)
    have "rb_content ?rb = rb_content rb @ bs"
    proof (rule nth_equalityI)
      show "length (rb_content ?rb) = length (rb_content rb @ bs)" using i un by (simp add: ringbuffer_used_def full)
      fix j assume "j < length (rb_content ?rb)"
      then have j: "j < ?n" by (simp add: ringbuffer_used_def)
      have "rb_content ?rb ! j = ?b' ! j" using j by (simp add: rb_content_def ringbuffer_used_def)
      also have "\<dots> = (rb_content rb @ bs) ! j"
      proof (cases "j < ?u")
        case True
        then have "?b' ! j = ?b ! (?r + j)" using j i un len uw by (simp add: nth_overwrite)
        moreover have "?r + j < ?n" using True uw i by simp
        ultimately show ?thesis using nth_rb_content [OF inv True] True by (simp add: nth_append)
      next
        case False
        then show ?thesis using j i un len by (simp add: nth_overwrite nth_append)
      qed
      finally show "rb_content ?rb ! j = (rb_content rb @ bs) ! j" .
    qed
    with run i b' True show ?thesis by (intro exI [of _ ?rb]) simp
  next
    case False
    let ?rb = "rb\<lparr>rb_buffer := overwrite ?w bs ?b, writePtr := ?r, freeSize := 0\<rparr>"
    from False u un i have gap: "length bs = ?r - ?w" "?w + length bs = ?r" by auto
    have run: "linear_write grant bs rb = Ret () ?rb"
      using i full False gap
      by (auto simp: linear_write_def ringbuffer_ensure_linear_write_def bindp_def Let_def ring_fill_def
          ringbuffer_commit_written_bytes_def)
    have "rb_content ?rb = rb_content rb @ bs"
    proof (rule nth_equalityI)
      show "length (rb_content ?rb) = length (rb_content rb @ bs)" using i un by (simp add: ringbuffer_used_def full)
      fix j assume "j < length (rb_content ?rb)"
      then have j: "j < ?n" by (simp add: ringbuffer_used_def)
      define k where "k = (if ?r + j < ?n then ?r + j else ?r + j - ?n)"
      have k: "k < ?n" using j i by (auto simp: k_def)
      have "rb_content ?rb ! j = overwrite ?w bs ?b ! k"
        using j i mod_wrap [of ?r ?n j] by (simp add: rb_content_def ringbuffer_used_def k_def)
      also have "\<dots> = (if ?w \<le> k \<and> k < ?r then bs ! (k - ?w) else ?b ! k)"
        using k i gap by (simp add: nth_overwrite)
      also have "\<dots> = (rb_content rb @ bs) ! j"
      proof (cases "j < ?u")
        case True
        then have "\<not> (?w \<le> k \<and> k < ?r)" using u False i by (auto simp: k_def)
        moreover have "rb_content rb ! j = ?b ! k" using nth_rb_content [OF inv True] by (simp add: k_def)
        ultimately show ?thesis using True by (simp only: if_False nth_append length_rb_content if_True)
      next
        case no: False
        then have "?w \<le> k \<and> k < ?r" "k - ?w = j - ?u" using u False i j by (auto simp: k_def)
        with no show ?thesis by (simp only: if_True nth_append length_rb_content if_False simp_thms)
      qed
      finally show "rb_content ?rb ! j = (rb_content rb @ bs) ! j" .
    qed
    with run i gap False show ?thesis by (intro exI [of _ ?rb]) (simp add: length_overwrite_le)
  qed
qed

text \<open>The next write grows the ring, which takes the full ring for an empty one and restarts it at its first byte.\<close>

lemma write_into_full:
  assumes full: "freeSize rb = 0" "readPtr rb = writePtr rb" "length (rb_buffer rb) = rb_size rb"
    and g: "grant (rb_size rb + length bs)"
  shows "\<exists>rb'. ringbuffer_write grant bs rb = Ret () rb' \<and> ringbuffer_used rb' = ringbuffer_used rb + length bs \<and>
     (\<forall>k \<le> rb_size rb + length bs. concat (ringbuffer_peek rb' k) =
        take k (bs @ drop (length bs) (rb_buffer rb) @ replicate (min (length bs) (rb_size rb)) 0))"
proof -
  let ?n = "rb_size rb" and ?l = "length bs"
  let ?buf = "bs @ drop ?l (rb_buffer rb) @ replicate (min ?l ?n) 0"
  let ?rb = "rb\<lparr>rb_buffer := ?buf, readPtr := 0, writePtr := ?l mod (?n + ?l), freeSize := 0, rb_size := ?n + ?l\<rparr>"
  let ?grown = "rb\<lparr>readPtr := 0, writePtr := 0, rb_buffer := resize (?n + ?l) (rb_buffer rb), freeSize := ?l, rb_size := ?n + ?l\<rparr>"
  have "ringbuffer_realloc grant (?n + ?l) rb = Ret () ?grown"
    using full g by (simp add: ringbuffer_realloc_def Let_def)
  moreover have "?l - (?l - ?n) = min ?l ?n" by simp
  then have "overwrite 0 bs (resize (?n + ?l) (rb_buffer rb)) = ?buf"
    using full(3) by (simp only: overwrite_def resize_def) simp
  ultimately have w: "ringbuffer_write grant bs rb = Ret () ?rb"
    using full by (simp add: ringbuffer_write_def bindp_def Let_def) (simp add: overwrite_def)
  have "concat (ringbuffer_peek ?rb k) = take k ?buf" if "k \<le> ?n + ?l" for k
    using that by (auto simp: ringbuffer_peek_def Let_def)
  with w full show ?thesis by (intro exI [of _ ?rb]) (simp add: ringbuffer_used_def)
qed

text \<open>Reading all of a full ring: its content is the array from the read position on.\<close>

lemma peek_full:
  assumes "freeSize rb = 0" and "readPtr rb < rb_size rb" and "length (rb_buffer rb) = rb_size rb"
  shows "concat (ringbuffer_peek rb (rb_size rb)) = rb_content rb"
    and "rb_content rb = drop (readPtr rb) (rb_buffer rb) @ take (readPtr rb) (rb_buffer rb)"
proof -
  show c: "rb_content rb = drop (readPtr rb) (rb_buffer rb) @ take (readPtr rb) (rb_buffer rb)"
    using assms mod_wrap [of "readPtr rb" "rb_size rb"]
    by (intro nth_equalityI) (auto simp: ringbuffer_used_def rb_content_def nth_append add.commute)
  show "concat (ringbuffer_peek rb (rb_size rb)) = rb_content rb"
    using assms by (auto simp: c ringbuffer_peek_def Let_def)
qed

lemma full_ring_restarts:
  assumes inv: "rb_inv rb" and full: "freeSize rb = length bs" and g: "grant (rb_size rb + length xs)"
  defines "n \<equiv> rb_size rb" and "q \<equiv> rb_content rb @ bs"
  shows "\<exists>full rb' p. linear_write grant bs rb = Ret () full \<and> concat (ringbuffer_peek full n) = q \<and>
     ringbuffer_write grant xs full = Ret () rb' \<and> ringbuffer_used rb' = n + length xs \<and>
     p < n \<and> (readPtr rb \<le> writePtr rb \<longrightarrow> p = 0) \<and>
     concat (ringbuffer_peek rb' (n + length xs)) =
       xs @ drop (length xs) (drop (n - p) q @ take (n - p) q) @ replicate (min (length xs) n) 0"
proof -
  obtain f where "linear_write grant bs rb = Ret () f \<and> freeSize f = 0 \<and> readPtr f = writePtr f \<and>
     readPtr f < rb_size f \<and> rb_size f = rb_size rb \<and> length (rb_buffer f) = rb_size rb \<and>
     initialSize f = initialSize rb \<and> rb_content f = rb_content rb @ bs \<and> (readPtr rb \<le> writePtr rb \<longrightarrow> readPtr f = 0)"
    using linear_write_fills [OF inv full, of grant] by (elim exE)
  then have f: "linear_write grant bs rb = Ret () f" "freeSize f = 0" "readPtr f = writePtr f" "readPtr f < n"
    "rb_size f = n" "length (rb_buffer f) = n" "rb_content f = q" "readPtr rb \<le> writePtr rb \<longrightarrow> readPtr f = 0"
    unfolding n_def q_def by (elim conjE, assumption | simp)+
  have "grant (rb_size f + length xs)" using g f(5) by (simp add: n_def)
  from write_into_full [where grant = grant, OF f(2,3) _ this] f obtain rb' where
    w: "ringbuffer_write grant xs f = Ret () rb'" "ringbuffer_used rb' = n + length xs"
      "\<And>k. k \<le> n + length xs \<Longrightarrow> concat (ringbuffer_peek rb' k) =
        take k (xs @ drop (length xs) (rb_buffer f) @ replicate (min (length xs) n) 0)"
    by (auto simp: ringbuffer_used_def)
  have all: "concat (ringbuffer_peek f n) = q" and q: "q = drop (readPtr f) (rb_buffer f) @ take (readPtr f) (rb_buffer f)"
    using peek_full [of f] f by simp_all
  have "drop (n - readPtr f) q @ take (n - readPtr f) q = rb_buffer f" using f by (simp add: q)
  moreover have "concat (ringbuffer_peek rb' (n + length xs)) =
      xs @ drop (length xs) (rb_buffer f) @ replicate (min (length xs) n) 0"
    using w(3) [of "n + length xs"] f(6) by (simp add: min_def)
  ultimately show ?thesis using f(1,4,8) w(1,2) all by (intro exI [of _ f] exI [of _ rb'] exI [of _ "readPtr f"]) simp
qed

section \<open>The interface the users of a ring rely on\<close>

locale byte_queue =
  fixes content :: "'s \<Rightarrow> u8 list" and inv :: "'s \<Rightarrow> bool" and used :: "'s \<Rightarrow> nat"
    and enqueue :: "u8 list \<Rightarrow> (unit, 's) prog" and peek :: "'s \<Rightarrow> nat \<Rightarrow> u8 list list"
    and consume :: "nat \<Rightarrow> (unit, 's) prog"
  assumes used: "inv s \<Longrightarrow> used s = length (content s)"
    and enqueue: "inv s \<Longrightarrow> (case enqueue bs s of Abort \<Rightarrow> False | Fail s' \<Rightarrow> s' = s
        | Ret _ s' \<Rightarrow> inv s' \<and> content s' = content s @ bs)"
    and peek: "inv s \<Longrightarrow> concat (peek s n) = take n (content s)"
    and consume: "inv s \<Longrightarrow> n \<le> length (content s) \<Longrightarrow>
        (case consume n s of Abort \<Rightarrow> False | Fail _ \<Rightarrow> False | Ret _ s' \<Rightarrow> inv s' \<and> content s' = drop n (content s))"
begin

lemma peek_all: "inv s \<Longrightarrow> concat (peek s (used s)) = content s"
  by (simp add: peek used)

text \<open>Passing on the first bytes that were peeked and consuming as many keeps the order.\<close>

lemma consume_peeked:
  assumes "inv s" and "n \<le> length (concat (peek s (used s)))"
  shows "\<exists>s'. consume n s = Ret () s' \<and> inv s' \<and> content s = take n (concat (peek s (used s))) @ content s'"
proof -
  have n: "n \<le> length (content s)" using assms peek_all by simp
  with consume [OF assms(1) n] show ?thesis
    by (cases "consume n s") (auto simp: peek_all [OF assms(1)])
qed

end

interpretation ring: byte_queue rb_content rb_inv ringbuffer_used "ringbuffer_write grant" ringbuffer_peek
  "ringbuffer_commit_read_bytes grant" for grant
proof
  fix rb assume inv: "rb_inv rb"
  show "ringbuffer_used rb = length (rb_content rb)" by simp
  show "case ringbuffer_write grant bs rb of Abort \<Rightarrow> False | Fail s' \<Rightarrow> s' = rb
      | Ret _ s' \<Rightarrow> rb_inv s' \<and> rb_content s' = rb_content rb @ bs" for bs
    using ringbuffer_write_spec [OF inv, of grant bs] by auto
  show "concat (ringbuffer_peek rb n) = take n (rb_content rb)" for n
    by (rule ringbuffer_peek_spec [OF inv])
  show "case ringbuffer_commit_read_bytes grant n rb of Abort \<Rightarrow> False | Fail _ \<Rightarrow> False
      | Ret _ s' \<Rightarrow> rb_inv s' \<and> rb_content s' = drop n (rb_content rb)" if "n \<le> length (rb_content rb)" for n
    using ringbuffer_commit_read_spec [OF inv, of n grant] that by auto
qed

section \<open>Every run of the ring is a run of a queue\<close>

text \<open>
  A client stores bytes, looks at the next ones, or gives up the ones it has read. \<open>ring_run\<close>
  lets the ring answer a sequence of such requests and collects what the client saw; an abort
  is \<open>None\<close>, and a request the ring refuses changes nothing. \<open>queue_run\<close> is the same client of
  a plain queue of bytes, in which giving up more than there is stops the program.
\<close>

datatype ring_op = Store "u8 list" | Look nat | Give_up nat

fun ring_run :: "(nat \<Rightarrow> bool) \<Rightarrow> ring_op list \<Rightarrow> RingBuffer \<Rightarrow> (u8 list list \<times> RingBuffer) option" where
  "ring_run grant [] rb = Some ([], rb)"
| "ring_run grant (Store bs # ops) rb =
     (case ringbuffer_write grant bs rb of
        Abort \<Rightarrow> None | Fail rb' \<Rightarrow> ring_run grant ops rb' | Ret _ rb' \<Rightarrow> ring_run grant ops rb')"
| "ring_run grant (Look n # ops) rb =
     map_option (\<lambda>(outs, rb'). (concat (ringbuffer_peek rb n) # outs, rb')) (ring_run grant ops rb)"
| "ring_run grant (Give_up n # ops) rb =
     (case ringbuffer_commit_read_bytes grant n rb of
        Abort \<Rightarrow> None | Fail rb' \<Rightarrow> ring_run grant ops rb' | Ret _ rb' \<Rightarrow> ring_run grant ops rb')"

fun queue_run :: "ring_op list \<Rightarrow> u8 list \<Rightarrow> (u8 list list \<times> u8 list) option" where
  "queue_run [] q = Some ([], q)"
| "queue_run (Store bs # ops) q = queue_run ops (q @ bs)"
| "queue_run (Look n # ops) q = map_option (\<lambda>(outs, q'). (take n q # outs, q')) (queue_run ops q)"
| "queue_run (Give_up n # ops) q = (if n \<le> length q then queue_run ops (drop n q) else None)"

lemma ringbuffer_init_inv:
  assumes "0 < n" and "grant n"
  obtains rb where "ringbuffer_init grant n = Some rb" and "rb_inv rb" and "rb_content rb = []"
  using assms by (auto simp: ringbuffer_init_def rb_inv_def rb_content_def ringbuffer_used_def)

lemma ringbuffer_commit_read_aborts:
  "ringbuffer_used rb < n \<Longrightarrow> ringbuffer_commit_read_bytes grant n rb = Abort"
  by (auto simp: ringbuffer_commit_read_bytes_def ringbuffer_used_def)

lemma ring_run_queue:
  assumes g: "\<And>n. grant n"
  shows "rb_inv rb \<Longrightarrow>
     map_option (\<lambda>(outs, rb'). (outs, rb_content rb')) (ring_run grant ops rb) = queue_run ops (rb_content rb)"
proof (induction ops arbitrary: rb)
  case Nil
  then show ?case by simp
next
  case (Cons op ops)
  show ?case
  proof (cases op)
    case (Store bs)
    have "grant (rb_size rb + length bs)" by (rule g)
    with Store Cons.IH ringbuffer_write_spec [OF Cons.prems, of grant bs] show ?thesis by auto
  next
    case (Look n)
    from Cons.IH [OF Cons.prems] have "queue_run ops (rb_content rb) =
        map_option (\<lambda>(outs, rb'). (outs, rb_content rb')) (ring_run grant ops rb)" by simp
    with Look ringbuffer_peek_spec(1) [OF Cons.prems, of n] show ?thesis
      by (simp add: option.map_comp comp_def split_def)
  next
    case (Give_up n)
    show ?thesis
    proof (cases "n \<le> ringbuffer_used rb")
      case True
      with Give_up Cons.IH ringbuffer_commit_read_spec [OF Cons.prems True, of grant] show ?thesis by auto
    next
      case False
      with Give_up show ?thesis by (simp add: ringbuffer_commit_read_aborts)
    qed
  qed
qed

end
