(* ===== verification/BufferedBio.thy ===== *)
theory BufferedBio
  imports RingBuffer
begin

text \<open>
  The two BIO layers under a TLS connection in \<^verbatim>\<open>libfreerdp/core/tcp.c\<close>: the simple socket BIO
  that calls \<^verbatim>\<open>_send\<close>, and the buffered BIO above it, which keeps what the socket does not take
  in a ring. The locale \<open>bio_contract\<close> is what the buffered BIO relies on from the BIO below;
  the simple socket BIO is shown to provide it, whatever the kernel answers.
\<close>

section \<open>The BIO below\<close>

text \<open>The operations of a BIO the buffered one calls, over the state \<open>'b\<close> of that BIO.
  \<open>BIO_read\<close> returns the status and the bytes it stored.\<close>

record 'b BIO =
  BIO_write :: "u8 list \<Rightarrow> 'b \<Rightarrow> int \<times> 'b"
  BIO_read :: "nat \<Rightarrow> 'b \<Rightarrow> (int \<times> u8 list) \<times> 'b"
  BIO_should_retry :: "'b \<Rightarrow> bool"
  BIO_should_write :: "'b \<Rightarrow> bool"
  BIO_should_read :: "'b \<Rightarrow> bool"
  BIO_ctrl :: "int \<Rightarrow> int \<Rightarrow> 'b \<Rightarrow> int \<times> 'b"

section \<open>The buffered BIO\<close>

record 'b bufferedBio =
  readBlocked :: bool
  writeBlocked :: bool
  xmitBuffer :: RingBuffer
  flag_read :: bool
  flag_write :: bool
  flag_should_retry :: bool
  next_bio :: 'b

datatype send_exit = SentAll | WouldBlock | FatalError

text \<open>The inner loop sends one chunk. Where the BIO below asks for a retry but not for a
  write the loop tries again at once, so it may never end: the value is then \<open>None\<close>.\<close>

partial_function (option) send_chunk ::
  "'b BIO \<Rightarrow> u8 list \<Rightarrow> nat \<Rightarrow> 'b \<Rightarrow> (send_exit \<times> nat \<times> 'b) option" where
  "send_chunk io chunk committed b =
     (if chunk = [] then Some (SentAll, committed, b)
      else
        let wr = min INT32_MAX (length chunk);
            (status, b') = BIO_write io (take wr chunk) b
        in if status \<le> 0 then
             (if \<not> BIO_should_retry io b' then Some (FatalError, committed, b')
              else if BIO_should_write io b' then Some (WouldBlock, committed, b')
              else send_chunk io chunk committed b')
           else send_chunk io (drop (nat status) chunk) (committed + nat status) b')"

fun send_chunks :: "'b BIO \<Rightarrow> u8 list list \<Rightarrow> nat \<Rightarrow> 'b \<Rightarrow> (send_exit \<times> nat \<times> 'b) option" where
  "send_chunks io [] committed b = Some (SentAll, committed, b)"
| "send_chunks io (c # cs) committed b =
     (case send_chunk io c committed b of
        None \<Rightarrow> None
      | Some (SentAll, n, b') \<Rightarrow> send_chunks io cs n b'
      | Some r \<Rightarrow> Some r)"

text \<open>\<open>buf\<close> is \<open>None\<close> for a null pointer; \<open>grant\<close> is the allocator of the ring.\<close>

definition transport_bio_buffered_write ::
  "(nat \<Rightarrow> bool) \<Rightarrow> 'b BIO \<Rightarrow> u8 list option \<Rightarrow> int \<Rightarrow> 'b bufferedBio \<Rightarrow> (int, 'b bufferedBio) outcome option" where
  "transport_bio_buffered_write grant io buf num bio =
     (if num < 0 then Some (Ret num bio)
      else
        let bio1 = bio\<lparr>writeBlocked := False, flag_write := False\<rparr>;
            appended = (if buf \<noteq> None \<and> num > 0
                        then ringbuffer_write grant (take (nat num) (the buf)) (xmitBuffer bio1)
                        else Ret () (xmitBuffer bio1))
        in case appended of
             Abort \<Rightarrow> Some Abort
           | Fail rb \<Rightarrow> Some (Ret (-1) (bio1\<lparr>xmitBuffer := rb\<rparr>))
           | Ret _ rb \<Rightarrow>
               (case send_chunks io (ringbuffer_peek rb (ringbuffer_used rb)) 0 (next_bio bio1) of
                  None \<Rightarrow> None
                | Some (e, committed, b') \<Rightarrow>
                    let bio2 = bio1\<lparr>xmitBuffer := rb, next_bio := b'\<rparr>;
                        (ret, bio3) =
                          (case e of
                             SentAll \<Rightarrow> (num, bio2)
                           | WouldBlock \<Rightarrow> (num, bio2\<lparr>flag_write := True, writeBlocked := True\<rparr>)
                           | FatalError \<Rightarrow> (-1, bio2\<lparr>flag_should_retry := False\<rparr>))
                    in case ringbuffer_commit_read_bytes grant committed rb of
                         Abort \<Rightarrow> Some Abort
                       | Fail rb' \<Rightarrow> Some (Ret ret (bio3\<lparr>xmitBuffer := rb'\<rparr>))
                       | Ret _ rb' \<Rightarrow> Some (Ret ret (bio3\<lparr>xmitBuffer := rb'\<rparr>))))"

definition transport_bio_buffered_read ::
  "'b BIO \<Rightarrow> nat \<Rightarrow> 'b bufferedBio \<Rightarrow> (int \<times> u8 list) \<times> 'b bufferedBio" where
  "transport_bio_buffered_read io sz bio =
     (let ((status, bytes), b') = BIO_read io sz (next_bio bio);
          bio1 = bio\<lparr>readBlocked := False, flag_read := False, next_bio := b'\<rparr>
      in if status \<le> 0 then
           (if \<not> BIO_should_retry io b'
            then ((status, bytes), bio1\<lparr>flag_should_retry := False\<rparr>)
            else if BIO_should_read io b'
            then ((status, bytes), bio1\<lparr>flag_should_retry := True, flag_read := True, readBlocked := True\<rparr>)
            else ((status, bytes), bio1\<lparr>flag_should_retry := True\<rparr>))
         else ((status, bytes), bio1))"

text \<open>The commands the buffered BIO answers itself; every other one goes to the BIO below.\<close>

datatype bio_cmd =
    BIO_CTRL_FLUSH | BIO_CTRL_WPENDING | BIO_CTRL_PENDING | BIO_C_READ_BLOCKED | BIO_C_WRITE_BLOCKED
  | BIO_other int

definition transport_bio_buffered_ctrl ::
  "(nat \<Rightarrow> bool) \<Rightarrow> 'b BIO \<Rightarrow> bio_cmd \<Rightarrow> int \<Rightarrow> 'b bufferedBio \<Rightarrow> (int, 'b bufferedBio) outcome option" where
  "transport_bio_buffered_ctrl grant io cmd arg1 bio =
     (case cmd of
        BIO_CTRL_FLUSH \<Rightarrow>
          (if ringbuffer_used (xmitBuffer bio) = 0 then Some (Ret 1 bio)
           else (case transport_bio_buffered_write grant io None 0 bio of
                   None \<Rightarrow> None
                 | Some (Ret st bio') \<Rightarrow> Some (Ret (if st \<ge> 0 then 1 else -1) bio')
                 | Some r \<Rightarrow> Some r))
      | BIO_CTRL_WPENDING \<Rightarrow> Some (Ret (int (ringbuffer_used (xmitBuffer bio))) bio)
      | BIO_CTRL_PENDING \<Rightarrow> Some (Ret 0 bio)
      | BIO_C_READ_BLOCKED \<Rightarrow> Some (Ret (if readBlocked bio then 1 else 0) bio)
      | BIO_C_WRITE_BLOCKED \<Rightarrow> Some (Ret (if writeBlocked bio then 1 else 0) bio)
      | BIO_other c \<Rightarrow> (let (st, b') = BIO_ctrl io c arg1 (next_bio bio) in Some (Ret st (bio\<lparr>next_bio := b'\<rparr>))))"

definition transport_bio_buffered_new :: "(nat \<Rightarrow> bool) \<Rightarrow> nat \<Rightarrow> 'b \<Rightarrow> 'b bufferedBio option" where
  "transport_bio_buffered_new grant sizeof_socket b =
     (if \<not> grant sizeof_socket then None
      else map_option (\<lambda>rb. \<lparr>readBlocked = False, writeBlocked = False, xmitBuffer = rb,
             flag_read = False, flag_write = False, flag_should_retry = True, next_bio = b\<rparr>)
           (ringbuffer_init grant 0x10000))"

text \<open>What the TLS layer above does with the BIO: writing bytes and flushing what is held.\<close>

datatype bio_request = Send "u8 list" | Flush

fun request_bytes :: "bio_request \<Rightarrow> u8 list" where
  "request_bytes (Send bs) = bs"
| "request_bytes Flush = []"

fun bio_serve :: "(nat \<Rightarrow> bool) \<Rightarrow> 'b BIO \<Rightarrow> bio_request \<Rightarrow> 'b bufferedBio \<Rightarrow> (int, 'b bufferedBio) outcome option" where
  "bio_serve grant io (Send bs) bio = transport_bio_buffered_write grant io (Some bs) (int (length bs)) bio"
| "bio_serve grant io Flush bio = transport_bio_buffered_ctrl grant io BIO_CTRL_FLUSH 0 bio"

fun bio_run :: "(nat \<Rightarrow> bool) \<Rightarrow> 'b BIO \<Rightarrow> bio_request list \<Rightarrow> 'b bufferedBio \<Rightarrow> 'b bufferedBio option" where
  "bio_run grant io [] bio = Some bio"
| "bio_run grant io (r # rs) bio =
     (case bio_serve grant io r bio of
        Some (Ret _ bio') \<Rightarrow> bio_run grant io rs bio'
      | Some (Fail bio') \<Rightarrow> bio_run grant io rs bio'
      | _ \<Rightarrow> None)"

section \<open>What the buffered BIO relies on\<close>

text \<open>
  \<open>out b\<close> are the bytes the BIO below has taken so far, in order. A write takes a prefix of
  what it is given, as long as the status says, and a write that takes nothing and may be
  retried asks for a write.
\<close>

locale bio_contract =
  fixes io :: "'b BIO" and out :: "'b \<Rightarrow> u8 list"
  assumes wrote: "BIO_write io bs b = (n, b') \<Longrightarrow> n \<le> int (length bs) \<and> out b' = out b @ take (nat n) bs"
    and blocks: "BIO_write io bs b = (n, b') \<Longrightarrow> n \<le> 0 \<Longrightarrow> BIO_should_retry io b' \<Longrightarrow> BIO_should_write io b'"
begin

lemma send_chunk_ok:
  "\<exists>e k b'. send_chunk io c n b = Some (e, n + k, b') \<and> k \<le> length c \<and> out b' = out b @ take k c \<and>
     (e = SentAll \<longrightarrow> k = length c)"
proof (induction "length c" arbitrary: c n b rule: less_induct)
  case less
  show ?case
  proof (cases "c = []")
    case True
    then show ?thesis by (simp add: send_chunk.simps)
  next
    case False
    let ?wr = "min INT32_MAX (length c)"
    obtain st b1 where w: "BIO_write io (take ?wr c) b = (st, b1)" by (cases "BIO_write io (take ?wr c) b")
    note o = wrote [OF w]
    show ?thesis
    proof (cases "st \<le> 0")
      case True
      with o blocks [OF w] w False show ?thesis
        by (cases "BIO_should_retry io b1") (force simp: send_chunk.simps [of io c n b])+
    next
      case st: False
      have k: "nat st \<le> length c" "0 < nat st" using o st by auto
      have "length (drop (nat st) c) < length c" using k by auto
      from less [OF this, of "n + nat st" b1] obtain e m b2 where
        r: "send_chunk io (drop (nat st) c) (n + nat st) b1 = Some (e, n + nat st + m, b2)"
          "m \<le> length (drop (nat st) c)" "out b2 = out b1 @ take m (drop (nat st) c)"
          "e = SentAll \<longrightarrow> m = length (drop (nat st) c)" by blast
      have "out b2 = out b @ take (nat st + m) c"
        using r(3) o st by (simp add: take_add min_def split: if_splits)
      moreover have "send_chunk io c n b = Some (e, n + (nat st + m), b2)"
        using r(1) w st False by (simp add: send_chunk.simps [of io c n b] add.assoc)
      moreover have "nat st + m \<le> length c" "e = SentAll \<longrightarrow> nat st + m = length c" using r k by auto
      ultimately show ?thesis by blast
    qed
  qed
qed

lemma send_chunks_ok:
  "\<exists>e k b'. send_chunks io cs n b = Some (e, n + k, b') \<and> k \<le> length (concat cs) \<and>
     out b' = out b @ take k (concat cs) \<and> (e = SentAll \<longrightarrow> k = length (concat cs))"
proof (induction cs arbitrary: n b)
  case Nil
  show ?case by simp
next
  case (Cons c cs)
  obtain e k b1 where c: "send_chunk io c n b = Some (e, n + k, b1)" "k \<le> length c"
      "out b1 = out b @ take k c" "e = SentAll \<longrightarrow> k = length c"
    using send_chunk_ok by blast
  show ?case
  proof (cases "e = SentAll")
    case True
    obtain e' m b2 where "send_chunks io cs (n + k) b1 = Some (e', n + k + m, b2)" "m \<le> length (concat cs)"
        "out b2 = out b1 @ take m (concat cs)" "e' = SentAll \<longrightarrow> m = length (concat cs)"
      using Cons.IH by blast
    with c True show ?thesis by (intro exI [of _ e'] exI [of _ "k + m"] exI [of _ b2]) simp
  next
    case False
    with c show ?thesis by (intro exI [of _ e] exI [of _ k] exI [of _ b1]) (cases e, simp_all)
  qed
qed

text \<open>The stream of bytes the connection has written: what went out and what is still held.\<close>

lemma buffered_write_ok:
  fixes buf :: "u8 list option"
  assumes inv: "rb_inv (xmitBuffer bio)" and num: "0 \<le> num"
  defines "data \<equiv> (case buf of None \<Rightarrow> [] | Some bs \<Rightarrow> take (nat num) bs)"
  shows "\<exists>st bio'. transport_bio_buffered_write grant io buf num bio = Some (Ret st bio') \<and>
     rb_inv (xmitBuffer bio') \<and> (st = num \<or> st = -1) \<and>
     (\<exists>sent. out (next_bio bio') = out (next_bio bio) @ sent \<and>
        (sent @ rb_content (xmitBuffer bio') = rb_content (xmitBuffer bio) @ data \<or>
         \<not> grant (rb_size (xmitBuffer bio) + length data) \<and> st = -1 \<and>
         bio' = bio\<lparr>writeBlocked := False, flag_write := False\<rparr>)) \<and>
     (st = num \<and> \<not> writeBlocked bio' \<longrightarrow> rb_content (xmitBuffer bio') = [])"
proof -
  let ?bio1 = "bio\<lparr>writeBlocked := False, flag_write := False\<rparr>"
  let ?app = "if buf \<noteq> None \<and> num > 0 then ringbuffer_write grant (take (nat num) (the buf)) (xmitBuffer bio)
              else Ret () (xmitBuffer bio)"
  have app: "?app = Fail (xmitBuffer bio) \<and> \<not> grant (rb_size (xmitBuffer bio) + length data) \<or>
      (\<exists>rb. ?app = Ret () rb \<and> rb_inv rb \<and> rb_content rb = rb_content (xmitBuffer bio) @ data)"
  proof (cases "buf \<noteq> None \<and> num > 0")
    case True
    then show ?thesis using ringbuffer_write_spec [OF inv, of grant "take (nat num) (the buf)"]
      by (auto simp: data_def)
  next
    case False
    then show ?thesis using inv num by (auto simp: data_def split: option.splits)
  qed
  then consider (failed) "?app = Fail (xmitBuffer bio)" "\<not> grant (rb_size (xmitBuffer bio) + length data)"
    | (written) rb where "?app = Ret () rb" "rb_inv rb" "rb_content rb = rb_content (xmitBuffer bio) @ data"
    by blast
  then show ?thesis
  proof cases
    case failed
    then have "transport_bio_buffered_write grant io buf num bio = Some (Ret (-1) ?bio1)"
      using num by (cases buf; cases "0 < num") (simp_all add: transport_bio_buffered_write_def Let_def)
    with inv num failed(2) show ?thesis by (intro exI [of _ "-1"] exI [of _ ?bio1]) auto
  next
    case written
    let ?cs = "ringbuffer_peek rb (ringbuffer_used rb)"
    obtain e k b' where c: "send_chunks io ?cs 0 (next_bio bio) = Some (e, 0 + k, b')"
        "k \<le> length (concat ?cs)" "out b' = out (next_bio bio) @ take k (concat ?cs)"
        "e = SentAll \<longrightarrow> k = length (concat ?cs)"
      using send_chunks_ok by blast
    obtain rb' where r: "ringbuffer_commit_read_bytes grant k rb = Ret () rb'" "rb_inv rb'"
        "rb_content rb = take k (concat ?cs) @ rb_content rb'"
      using ring.consume_peeked [OF written(2) c(2)] by blast
    have all: "concat ?cs = rb_content rb" by (rule ring.peek_all [OF written(2)])
    have empty: "rb_content rb' = []" if "e = SentAll"
      using r(3) c(4) all that by simp
    let ?st = "case e of SentAll \<Rightarrow> num | WouldBlock \<Rightarrow> num | FatalError \<Rightarrow> -1"
    let ?bio2 = "?bio1\<lparr>xmitBuffer := rb, next_bio := b'\<rparr>"
    let ?bio3 = "(case e of SentAll \<Rightarrow> ?bio2 | WouldBlock \<Rightarrow> ?bio2\<lparr>flag_write := True, writeBlocked := True\<rparr>
        | FatalError \<Rightarrow> ?bio2\<lparr>flag_should_retry := False\<rparr>)\<lparr>xmitBuffer := rb'\<rparr>"
    have run: "transport_bio_buffered_write grant io buf num bio = Some (Ret ?st ?bio3)"
      using written(1) num c(1) r(1)
      by (cases e; cases buf; cases "0 < num") (simp_all add: transport_bio_buffered_write_def Let_def)
    have sel: "next_bio ?bio3 = b'" "xmitBuffer ?bio3 = rb'" "writeBlocked ?bio3 = (e = WouldBlock)"
      by (cases e; simp)+
    show ?thesis
    proof (intro exI conjI)
      show "transport_bio_buffered_write grant io buf num bio = Some (Ret ?st ?bio3)" by (rule run)
      show "rb_inv (xmitBuffer ?bio3)" by (simp add: sel r(2))
      show "?st = num \<or> ?st = -1" by (cases e) simp_all
      show "out (next_bio ?bio3) = out (next_bio bio) @ take k (concat ?cs)" by (simp add: sel c(3))
      show "take k (concat ?cs) @ rb_content (xmitBuffer ?bio3) = rb_content (xmitBuffer bio) @ data \<or>
          \<not> grant (rb_size (xmitBuffer bio) + length data) \<and> ?st = -1 \<and> ?bio3 = bio\<lparr>writeBlocked := False, flag_write := False\<rparr>"
        using r(3) written(3) by (simp add: sel)
      show "?st = num \<and> \<not> writeBlocked ?bio3 \<longrightarrow> rb_content (xmitBuffer ?bio3) = []"
        using empty num by (cases e) (simp_all add: sel)
    qed
  qed
qed

lemma bio_serve_ok:
  assumes inv: "rb_inv (xmitBuffer bio)" and g: "\<And>n. grant n"
  shows "\<exists>st bio'. bio_serve grant io r bio = Some (Ret st bio') \<and> rb_inv (xmitBuffer bio') \<and>
     out (next_bio bio') @ rb_content (xmitBuffer bio') =
       out (next_bio bio) @ rb_content (xmitBuffer bio) @ request_bytes r \<and>
     (\<exists>sent. out (next_bio bio') = out (next_bio bio) @ sent)"
proof -
  have w: "\<exists>st bio'. transport_bio_buffered_write grant io buf num bio = Some (Ret st bio') \<and>
      rb_inv (xmitBuffer bio') \<and> out (next_bio bio') @ rb_content (xmitBuffer bio') =
        out (next_bio bio) @ rb_content (xmitBuffer bio) @ bs \<and>
      (\<exists>sent. out (next_bio bio') = out (next_bio bio) @ sent)"
    if n: "0 \<le> num" and bs: "bs = (case buf of None \<Rightarrow> [] | Some bs \<Rightarrow> take (nat num) bs)" for num buf bs
  proof -
    have gg: "grant (rb_size (xmitBuffer bio) + length (case buf of None \<Rightarrow> [] | Some bs \<Rightarrow> take (nat num) bs))"
      by (rule g)
    from buffered_write_ok [OF inv n, of grant buf] gg bs show ?thesis
      by (elim exE conjE disjE) auto
  qed
  show ?thesis
  proof (cases r)
    case (Send bs)
    with w [of "int (length bs)" bs "Some bs"] show ?thesis by simp
  next
    case Flush
    show ?thesis
    proof (cases "ringbuffer_used (xmitBuffer bio) = 0")
      case True
      with Flush inv show ?thesis by (simp add: transport_bio_buffered_ctrl_def)
    next
      case False
      with Flush w [of 0 "[]" None] show ?thesis by (auto simp: transport_bio_buffered_ctrl_def)
    qed
  qed
qed

lemma bio_run_ok:
  assumes g: "\<And>n. grant n"
  shows "rb_inv (xmitBuffer bio) \<Longrightarrow>
     \<exists>bio'. bio_run grant io rs bio = Some bio' \<and> rb_inv (xmitBuffer bio') \<and>
       out (next_bio bio') @ rb_content (xmitBuffer bio') =
         out (next_bio bio) @ rb_content (xmitBuffer bio) @ concat (map request_bytes rs)"
proof (induction rs arbitrary: bio)
  case Nil
  then show ?case by simp
next
  case (Cons r rs)
  from bio_serve_ok [where r = r and grant = grant, OF Cons.prems g] obtain st bio1 where
    1: "bio_serve grant io r bio = Some (Ret st bio1)" "rb_inv (xmitBuffer bio1)"
      "out (next_bio bio1) @ rb_content (xmitBuffer bio1) =
         out (next_bio bio) @ rb_content (xmitBuffer bio) @ request_bytes r" by blast
  from Cons.IH [OF 1(2)] obtain bio2 where "bio_run grant io rs bio1 = Some bio2" "rb_inv (xmitBuffer bio2)"
      "out (next_bio bio2) @ rb_content (xmitBuffer bio2) =
         (out (next_bio bio1) @ rb_content (xmitBuffer bio1)) @ concat (map request_bytes rs)" by auto
  with 1 show ?case by simp
qed

end

section \<open>A BIO below that breaks the contract\<close>

text \<open>Where a write is to be retried but the BIO below does not ask for one, the sending loop
  calls it again at once, and never returns if nothing changes.\<close>

definition bio_stuck :: "'b BIO \<Rightarrow> bool" where
  "bio_stuck io \<longleftrightarrow> (\<forall>bs b. BIO_write io bs b = (-1, b) \<and> BIO_should_retry io b \<and> \<not> BIO_should_write io b)"

lemma send_chunk_returns:
  assumes "send_chunk io c n b = Some y" and "bio_stuck io"
  shows "c = []"
proof -
  have "bio_stuck io \<longrightarrow> c = []"
  proof (rule send_chunk.raw_induct [where P = "\<lambda>io c n b y. bio_stuck io \<longrightarrow> c = []", OF _ assms(1)], rule impI)
    fix f and io :: "'a BIO" and c n b y
    assume ih: "\<And>io c n b y. f io c n b = Some y \<Longrightarrow> bio_stuck io \<longrightarrow> c = []" and io: "bio_stuck io"
      and body: "(if c = [] then Some (SentAll, n, b)
        else let wr = min INT32_MAX (length c); (status, b') = BIO_write io (take wr c) b
          in if status \<le> 0
             then if \<not> BIO_should_retry io b' then Some (FatalError, n, b')
                  else if BIO_should_write io b' then Some (WouldBlock, n, b') else f io c n b'
             else f io (drop (nat status) c) (n + nat status) b') = Some y"
    have st: "BIO_write io bs b = (-1, b)" "BIO_should_retry io b" "\<not> BIO_should_write io b" for bs
      using io by (simp_all add: bio_stuck_def)
    show "c = []"
    proof (rule ccontr)
      assume c: "c \<noteq> []"
      with body st have "f io c n b = Some y" by (simp add: Let_def)
      with ih io c show False by blast
    qed
  qed
  with assms(2) show ?thesis by simp
qed

lemma send_chunk_stuck:
  assumes "bio_stuck io" and "c \<noteq> []"
  shows "send_chunk io c n b = None"
proof (rule ccontr)
  assume "send_chunk io c n b \<noteq> None"
  then obtain y where "send_chunk io c n b = Some y" by auto
  from send_chunk_returns [OF this assms(1)] assms(2) show False by simp
qed

lemma send_chunks_stuck:
  assumes "bio_stuck io" and "\<forall>c \<in> set cs. c \<noteq> []" and "cs \<noteq> []"
  shows "send_chunks io cs n b = None"
  using assms by (cases cs) (simp_all add: send_chunk_stuck)

lemma buffered_write_stuck:
  assumes io: "bio_stuck io" and inv: "rb_inv (xmitBuffer bio)" and g: "\<And>k. grant k" and bs: "bs \<noteq> []"
  shows "transport_bio_buffered_write grant io (Some bs) (int (length bs)) bio = None"
proof -
  have "grant (rb_size (xmitBuffer bio) + length bs)" by (rule g)
  with ringbuffer_write_spec [OF inv, of grant bs] obtain rb where
    rb: "ringbuffer_write grant bs (xmitBuffer bio) = Ret () rb" "rb_inv rb"
      "rb_content rb = rb_content (xmitBuffer bio) @ bs" by blast
  let ?cs = "ringbuffer_peek rb (ringbuffer_used rb)"
  have "concat ?cs \<noteq> []" using ring.peek_all [OF rb(2)] rb(3) bs by simp
  then have ne: "?cs \<noteq> []" by auto
  have "send_chunks io ?cs 0 (next_bio bio) = None"
    by (rule send_chunks_stuck [OF io ringbuffer_peek_spec(3) [OF rb(2)] ne])
  with rb(1) bs show ?thesis by (simp add: transport_bio_buffered_write_def Let_def)
qed

section \<open>The simple socket BIO\<close>

text \<open>
  A socket: the kernel answers the \<open>n\<close>-th call of \<^verbatim>\<open>_send\<close> either with the most it will take,
  or with an error; \<open>wire\<close> are the bytes it has taken. What \<^verbatim>\<open>WSAGetLastError\<close> reports after a call
  that did not fail is left over from any earlier call of the thread, so it comes with the answer.
\<close>

datatype kernel_answer = Takes nat int | Errs int

record socket =
  kernel :: "nat \<Rightarrow> kernel_answer"
  calls :: nat
  wire :: "u8 list"

text \<open>The status and \<^verbatim>\<open>WSAGetLastError\<close>.\<close>

definition socket_send :: "u8 list \<Rightarrow> socket \<Rightarrow> (int \<times> int) \<times> socket" where
  "socket_send bs s =
     (case kernel s (calls s) of
        Takes k e \<Rightarrow> (let n = min k (length bs) in
                    ((int n, e), s\<lparr>calls := calls s + 1, wire := wire s @ take n bs\<rparr>))
      | Errs e \<Rightarrow> ((-1, e), s\<lparr>calls := calls s + 1\<rparr>))"

definition WSAEINTR :: int where "WSAEINTR = 10004"
definition WSAEWOULDBLOCK :: int where "WSAEWOULDBLOCK = 10035"
definition WSAEINPROGRESS :: int where "WSAEINPROGRESS = 10036"
definition WSAEALREADY :: int where "WSAEALREADY = 10037"

record simpleBio =
  simple_socket :: socket
  simple_read :: bool
  simple_write :: bool
  simple_retry :: bool

text \<open>\<open>buf\<close> is \<open>None\<close> for a null pointer. The error is looked at when nothing was taken, also
  where the call did not fail.\<close>

definition transport_bio_simple_write :: "u8 list option \<Rightarrow> simpleBio \<Rightarrow> int \<times> simpleBio" where
  "transport_bio_simple_write buf bio =
     (case buf of
        None \<Rightarrow> (0, bio)
      | Some bs \<Rightarrow>
          let ((status, error), s) = socket_send bs (simple_socket bio);
              bio1 = bio\<lparr>simple_write := False, simple_socket := s\<rparr>
          in if status \<le> 0 then
               (if error = WSAEWOULDBLOCK \<or> error = WSAEINTR \<or> error = WSAEINPROGRESS \<or> error = WSAEALREADY
                then (status, bio1\<lparr>simple_write := True, simple_retry := True\<rparr>)
                else (status, bio1\<lparr>simple_retry := False\<rparr>))
             else (status, bio1))"

text \<open>The simple BIO as the BIO below, whose buffer is never null; reading and control do not matter to the writer.\<close>

definition simple_bio :: "(nat \<Rightarrow> simpleBio \<Rightarrow> (int \<times> u8 list) \<times> simpleBio) \<Rightarrow>
    (int \<Rightarrow> int \<Rightarrow> simpleBio \<Rightarrow> int \<times> simpleBio) \<Rightarrow> simpleBio BIO" where
  "simple_bio rd ctl =
     \<lparr>BIO_write = (\<lambda>bs. transport_bio_simple_write (Some bs)), BIO_read = rd,
      BIO_should_retry = simple_retry, BIO_should_write = simple_write, BIO_should_read = simple_read,
      BIO_ctrl = ctl\<rparr>"

interpretation simple: bio_contract "simple_bio rd ctl" "\<lambda>b. wire (simple_socket b)" for rd ctl
proof
  fix bs b n b' assume w: "BIO_write (simple_bio rd ctl) bs b = (n, b')"
  then show "n \<le> int (length bs) \<and> wire (simple_socket b') = wire (simple_socket b) @ take (nat n) bs"
    by (auto simp: simple_bio_def transport_bio_simple_write_def socket_send_def Let_def
        split: kernel_answer.splits prod.splits if_splits)
  show "n \<le> 0 \<Longrightarrow> BIO_should_retry (simple_bio rd ctl) b' \<Longrightarrow> BIO_should_write (simple_bio rd ctl) b'"
    using w by (auto simp: simple_bio_def transport_bio_simple_write_def Let_def
        split: prod.splits if_splits)
qed

end
