(* ===== verification/Nego.thy ===== *)
theory Nego
  imports Handler Encryption
begin

text \<open>
  The protocol security negotiation of \<^verbatim>\<open>libfreerdp/core/nego.c\<close> and \<^verbatim>\<open>nego.h\<close>: the client walks down
  the security protocols it may use, asks the server for each of them in turn, and connects the
  one that is agreed on; the server reads the request and answers it. The transport under the
  negotiation is the record \<open>net\<close> of the functions of \<^verbatim>\<open>transport.c\<close> it calls.
\<close>

unbundle bit_operations_syntax

section \<open>Protocols, messages and states\<close>

definition PROTOCOL_RDP :: u32 where "PROTOCOL_RDP = 0"
definition PROTOCOL_SSL :: u32 where "PROTOCOL_SSL = 1"
definition PROTOCOL_HYBRID :: u32 where "PROTOCOL_HYBRID = 2"
definition PROTOCOL_RDSTLS :: u32 where "PROTOCOL_RDSTLS = 4"
definition PROTOCOL_HYBRID_EX :: u32 where "PROTOCOL_HYBRID_EX = 8"
definition PROTOCOL_RDSAAD :: u32 where "PROTOCOL_RDSAAD = 0x10"
definition PROTOCOL_FAILED_NEGO :: u32 where "PROTOCOL_FAILED_NEGO = 0x80000000"

definition SSL_REQUIRED_BY_SERVER :: u32 where "SSL_REQUIRED_BY_SERVER = 1"
definition SSL_NOT_ALLOWED_BY_SERVER :: u32 where "SSL_NOT_ALLOWED_BY_SERVER = 2"
definition SSL_CERT_NOT_ON_SERVER :: u32 where "SSL_CERT_NOT_ON_SERVER = 3"
definition INCONSISTENT_FLAGS :: u32 where "INCONSISTENT_FLAGS = 4"
definition HYBRID_REQUIRED_BY_SERVER :: u32 where "HYBRID_REQUIRED_BY_SERVER = 5"
definition SSL_WITH_USER_AUTH_REQUIRED_BY_SERVER :: u32 where "SSL_WITH_USER_AUTH_REQUIRED_BY_SERVER = 6"

datatype NEGO_STATE =
    NEGO_STATE_INITIAL | NEGO_STATE_RDSTLS | NEGO_STATE_AAD | NEGO_STATE_EXT | NEGO_STATE_NLA
  | NEGO_STATE_TLS | NEGO_STATE_RDP | NEGO_STATE_FAIL | NEGO_STATE_FINAL

primrec nego_state_string :: "NEGO_STATE \<Rightarrow> string" where
  "nego_state_string NEGO_STATE_INITIAL = ''NEGO_STATE_INITIAL''"
| "nego_state_string NEGO_STATE_RDSTLS = ''NEGO_STATE_RDSTLS''"
| "nego_state_string NEGO_STATE_AAD = ''NEGO_STATE_AAD''"
| "nego_state_string NEGO_STATE_EXT = ''NEGO_STATE_EXT''"
| "nego_state_string NEGO_STATE_NLA = ''NEGO_STATE_NLA''"
| "nego_state_string NEGO_STATE_TLS = ''NEGO_STATE_TLS''"
| "nego_state_string NEGO_STATE_RDP = ''NEGO_STATE_RDP''"
| "nego_state_string NEGO_STATE_FAIL = ''NEGO_STATE_FAIL''"
| "nego_state_string NEGO_STATE_FINAL = ''NEGO_STATE_FINAL''"

definition TYPE_RDP_NEG_REQ :: u8 where "TYPE_RDP_NEG_REQ = 1"
definition TYPE_RDP_NEG_RSP :: u8 where "TYPE_RDP_NEG_RSP = 2"
definition TYPE_RDP_NEG_FAILURE :: u8 where "TYPE_RDP_NEG_FAILURE = 3"
definition TYPE_RDP_CORRELATION_INFO :: u8 where "TYPE_RDP_CORRELATION_INFO = 6"

definition EXTENDED_CLIENT_DATA_SUPPORTED :: u8 where "EXTENDED_CLIENT_DATA_SUPPORTED = 1"
definition DYNVC_GFX_PROTOCOL_SUPPORTED :: u8 where "DYNVC_GFX_PROTOCOL_SUPPORTED = 2"
definition RESTRICTED_ADMIN_MODE_SUPPORTED :: u8 where "RESTRICTED_ADMIN_MODE_SUPPORTED = 8"
definition REDIRECTED_AUTHENTICATION_MODE_SUPPORTED :: u8 where
  "REDIRECTED_AUTHENTICATION_MODE_SUPPORTED = 0x10"

definition RESTRICTED_ADMIN_MODE_REQUIRED :: u8 where "RESTRICTED_ADMIN_MODE_REQUIRED = 1"
definition REDIRECTED_AUTHENTICATION_MODE_REQUIRED :: u8 where
  "REDIRECTED_AUTHENTICATION_MODE_REQUIRED = 2"
definition CORRELATION_INFO_PRESENT :: u8 where "CORRELATION_INFO_PRESENT = 8"

definition PRECONNECTION_PDU_V2_MIN_SIZE :: u32 where "PRECONNECTION_PDU_V2_MIN_SIZE = 18"
definition PRECONNECTION_PDU_V2 :: u32 where "PRECONNECTION_PDU_V2 = 2"
definition DEFAULT_COOKIE_MAX_LENGTH :: u32 where "DEFAULT_COOKIE_MAX_LENGTH = 0xFF"
definition TPDU_CONNECTION_REQUEST_LENGTH :: nat where "TPDU_CONNECTION_REQUEST_LENGTH = 11"
definition TPDU_CONNECTION_CONFIRM_LENGTH :: nat where "TPDU_CONNECTION_CONFIRM_LENGTH = 11"

definition FREERDP_ERROR_SUCCESS :: u32 where "FREERDP_ERROR_SUCCESS = 0"
definition FREERDP_ERROR_TLS_CONNECT_FAILED :: u32 where "FREERDP_ERROR_TLS_CONNECT_FAILED = 0x20008"
definition FREERDP_ERROR_SECURITY_NEGO_CONNECT_FAILED :: u32 where
  "FREERDP_ERROR_SECURITY_NEGO_CONNECT_FAILED = 0x2000C"
definition FREERDP_ERROR_CONNECT_HYBRID_REQUIRED_BY_SERVER :: u32 where
  "FREERDP_ERROR_CONNECT_HYBRID_REQUIRED_BY_SERVER = 0x2001E"

definition ENCRYPTION_METHODS_ALL :: u32 where
  "ENCRYPTION_METHODS_ALL = ENCRYPTION_METHOD_40BIT OR ENCRYPTION_METHOD_56BIT OR
     ENCRYPTION_METHOD_128BIT OR ENCRYPTION_METHOD_FIPS"

named_theorems nego_consts "protocol and message constants"

lemmas [nego_consts] = PROTOCOL_RDP_def PROTOCOL_SSL_def PROTOCOL_HYBRID_def PROTOCOL_RDSTLS_def
  PROTOCOL_HYBRID_EX_def PROTOCOL_RDSAAD_def PROTOCOL_FAILED_NEGO_def SSL_REQUIRED_BY_SERVER_def
  SSL_NOT_ALLOWED_BY_SERVER_def SSL_CERT_NOT_ON_SERVER_def INCONSISTENT_FLAGS_def
  HYBRID_REQUIRED_BY_SERVER_def SSL_WITH_USER_AUTH_REQUIRED_BY_SERVER_def TYPE_RDP_NEG_REQ_def
  TYPE_RDP_NEG_RSP_def TYPE_RDP_NEG_FAILURE_def TYPE_RDP_CORRELATION_INFO_def
  EXTENDED_CLIENT_DATA_SUPPORTED_def DYNVC_GFX_PROTOCOL_SUPPORTED_def
  RESTRICTED_ADMIN_MODE_SUPPORTED_def REDIRECTED_AUTHENTICATION_MODE_SUPPORTED_def
  RESTRICTED_ADMIN_MODE_REQUIRED_def REDIRECTED_AUTHENTICATION_MODE_REQUIRED_def
  CORRELATION_INFO_PRESENT_def

section \<open>State\<close>

text \<open>The settings the negotiation reads and writes.\<close>

record nego_settings =
  FreeRDP_RequestedProtocols :: u32
  FreeRDP_SelectedProtocol :: u32
  FreeRDP_NegotiationFlags :: u32
  FreeRDP_UseRdpSecurityLayer :: bool
  FreeRDP_EncryptionMethods :: u32
  FreeRDP_EncryptionLevel :: u32
  FreeRDP_TcpConnectTimeout :: u32
  FreeRDP_SupportGraphicsPipeline :: bool
  FreeRDP_TlsSecurity :: bool
  FreeRDP_NlaSecurity :: bool
  FreeRDP_ExtSecurity :: bool
  FreeRDP_RdstlsSecurity :: bool
  FreeRDP_RdpSecurity :: bool
  FreeRDP_LocalConnection :: bool
  has_RdpServerRsaKey :: bool

text \<open>\<open>'t\<close> is the state of the transport and of the context it belongs to; \<open>grants_mem\<close> is the
  allocator. \<open>RoutingToken\<close> and \<open>cookie\<close> are \<open>None\<close> for a null pointer; \<open>EnabledProtocols\<close> is the
  array of 32 flags, indexed by protocol number.\<close>

record 't rdpNego =
  port :: u16
  nego_flags :: u32
  hostname :: "u8 list"
  cookie :: "u8 list option"
  RoutingToken :: "u8 list option"
  RoutingTokenLength :: u32
  SendPreconnectionPdu :: bool
  PreconnectionId :: u32
  PreconnectionBlob :: "u8 list option"
  nego_state :: NEGO_STATE
  TcpConnected :: bool
  SecurityConnected :: bool
  CookieMaxLength :: u32
  sendNegoData :: bool
  SelectedProtocol :: u32
  RequestedProtocols :: u32
  failureCode :: u32
  NegotiateSecurityLayer :: bool
  EnabledProtocols :: "nat \<Rightarrow> bool"
  RestrictedAdminModeRequired :: bool
  RestrictedAdminModeSupported :: bool
  RemoteCredsGuardRequired :: bool
  RemoteCredsGuardActive :: bool
  RemoteCredsGuardSupported :: bool
  GatewayEnabled :: bool
  GatewayBypassLocal :: bool
  ConnectChildSession :: bool
  nego_settings :: nego_settings
  net_state :: 't
  grants_mem :: "nat \<Rightarrow> bool"

record 't net =
  transport_set_gateway_enabled :: "bool \<Rightarrow> 't \<Rightarrow> 't"
  transport_connect :: "u8 list \<Rightarrow> u16 \<Rightarrow> u32 \<Rightarrow> 't \<Rightarrow> bool \<times> 't"
  transport_connect_childsession :: "'t \<Rightarrow> bool \<times> 't"
  transport_disconnect :: "'t \<Rightarrow> 't"
  net_write :: "wStream \<Rightarrow> 't \<Rightarrow> int \<times> 't"
  transport_read_pdu :: "wStream \<Rightarrow> 't \<Rightarrow> (int \<times> wStream) \<times> 't"
  transport_connect_aad :: "'t \<Rightarrow> bool \<times> 't"
  transport_connect_rdstls :: "'t \<Rightarrow> bool \<times> 't"
  transport_connect_nla :: "bool \<Rightarrow> 't \<Rightarrow> bool \<times> 't"
  transport_connect_tls :: "'t \<Rightarrow> bool \<times> 't"
  transport_connect_rdp :: "'t \<Rightarrow> bool \<times> 't"
  freerdp_get_last_error :: "'t \<Rightarrow> u32"
  freerdp_set_last_error :: "u32 \<Rightarrow> 't \<Rightarrow> 't"
  ConvertUtf8ToWCharAlloc :: "u8 list \<Rightarrow> u16 list option \<times> nat"

definition enabled :: "u32 \<Rightarrow> 't rdpNego \<Rightarrow> bool" where
  "enabled p nego = EnabledProtocols nego (unat p)"

definition enable :: "u32 \<Rightarrow> bool \<Rightarrow> 't rdpNego \<Rightarrow> 't rdpNego" where
  "enable p b nego = nego\<lparr>EnabledProtocols := (EnabledProtocols nego)(unat p := b)\<rparr>"

definition nego_set_state :: "NEGO_STATE \<Rightarrow> 't rdpNego \<Rightarrow> 't rdpNego" where
  "nego_set_state st nego = nego\<lparr>nego_state := st\<rparr>"

definition nego_get_state :: "'t rdpNego \<Rightarrow> NEGO_STATE" where
  "nego_get_state nego = nego_state nego"

definition nego_set_selected_protocol :: "u32 \<Rightarrow> 't rdpNego \<Rightarrow> 't rdpNego" where
  "nego_set_selected_protocol p nego = nego\<lparr>SelectedProtocol := p\<rparr>"

definition nego_set_requested_protocols :: "u32 \<Rightarrow> 't rdpNego \<Rightarrow> 't rdpNego" where
  "nego_set_requested_protocols p nego = nego\<lparr>RequestedProtocols := p\<rparr>"

text \<open>A function of the transport that reports success, and one that only changes it.\<close>

definition on_net :: "('t \<Rightarrow> 'a \<times> 't) \<Rightarrow> ('a, 't rdpNego) prog" where
  "on_net f nego = (let (x, t) = f (net_state nego) in Ret x (nego\<lparr>net_state := t\<rparr>))"

definition upd_net :: "('t \<Rightarrow> 't) \<Rightarrow> (unit, 't rdpNego) prog" where
  "upd_net f nego = Ret () (nego\<lparr>net_state := f (net_state nego)\<rparr>)"

definition upd_nego :: "('t rdpNego \<Rightarrow> 't rdpNego) \<Rightarrow> (unit, 't rdpNego) prog" where
  "upd_nego f nego = Ret () (f nego)"

section \<open>Connecting\<close>

text \<open>Every connect function of the transport stores its result in \<^verbatim>\<open>TcpConnected\<close>.\<close>

definition tcp_result :: "('t \<Rightarrow> bool \<times> 't) \<Rightarrow> (unit, 't rdpNego) prog" where
  "tcp_result f = bindp (on_net f) (\<lambda>b. upd_nego (\<lambda>n. n\<lparr>TcpConnected := b\<rparr>))"

definition nego_tcp_connect :: "'t net \<Rightarrow> (unit, 't rdpNego) prog" where
  "nego_tcp_connect T =
     bindp (\<lambda>nego.
       let direct = tcp_result (transport_connect T (hostname nego) (port nego)
                      (FreeRDP_TcpConnectTimeout (nego_settings nego)))
       in if TcpConnected nego then Ret () nego
          else if GatewayEnabled nego then
            bindp (if GatewayBypassLocal nego
                   then bindp (upd_net (transport_set_gateway_enabled T False)) (\<lambda>_. direct)
                   else ret ()) (\<lambda>_ nego.
              if \<not> TcpConnected nego
              then bindp (upd_net (transport_set_gateway_enabled T True)) (\<lambda>_. direct) nego
              else Ret () nego) nego
          else if ConnectChildSession nego then tcp_result (transport_connect_childsession T) nego
          else direct nego) (\<lambda>_ nego.
     require (TcpConnected nego) nego)"

definition security_result :: "('t \<Rightarrow> bool \<times> 't) \<Rightarrow> (unit, 't rdpNego) prog" where
  "security_result f =
     bindp (on_net f) (\<lambda>b.
     bindp (upd_nego (\<lambda>n. n\<lparr>SecurityConnected := b\<rparr>)) (\<lambda>_. require b))"

definition nego_try_connect :: "'t net \<Rightarrow> (unit, 't rdpNego) prog" where
  "nego_try_connect T nego =
     (let p = SelectedProtocol nego in
      if p = PROTOCOL_RDSAAD then security_result (transport_connect_aad T) nego
      else if p = PROTOCOL_RDSTLS then security_result (transport_connect_rdstls T) nego
      else if p = PROTOCOL_HYBRID then security_result (transport_connect_nla T False) nego
      else if p = PROTOCOL_HYBRID_EX then security_result (transport_connect_nla T True) nego
      else if p = PROTOCOL_SSL then security_result (transport_connect_tls T) nego
      else if p = PROTOCOL_RDP then security_result (transport_connect_rdp T) nego
      else Fail nego)"

definition nego_security_connect :: "'t net \<Rightarrow> (unit, 't rdpNego) prog" where
  "nego_security_connect T nego =
     (if \<not> TcpConnected nego then Fail (nego\<lparr>SecurityConnected := False\<rparr>)
      else if \<not> SecurityConnected nego then nego_try_connect T nego
      else Ret () nego)"

definition nego_transport_connect :: "'t net \<Rightarrow> (unit, 't rdpNego) prog" where
  "nego_transport_connect T =
     bindp (nego_tcp_connect T) (\<lambda>_ nego.
       if TcpConnected nego \<and> \<not> NegotiateSecurityLayer nego then nego_security_connect T nego
       else require (TcpConnected nego) nego)"

definition nego_transport_disconnect :: "'t net \<Rightarrow> (unit, 't rdpNego) prog" where
  "nego_transport_disconnect T =
     bindp (\<lambda>nego. if TcpConnected nego then upd_net (transport_disconnect T) nego else Ret () nego) (\<lambda>_.
     upd_nego (\<lambda>n. n\<lparr>TcpConnected := False, SecurityConnected := False\<rparr>))"

definition nego_disconnect :: "'t net \<Rightarrow> (unit, 't rdpNego) prog" where
  "nego_disconnect T =
     bindp (upd_nego (nego_set_state NEGO_STATE_INITIAL)) (\<lambda>_. nego_transport_disconnect T)"

section \<open>Sending\<close>

text \<open>
  A PDU is written into a stream of its own and handed to the transport. \<open>send_pdu T n body\<close>
  allocates a stream of \<open>n\<close> bytes and runs \<open>body\<close> on it; where \<open>body\<close> fails nothing is sent.
\<close>

definition send_pdu :: "'t net \<Rightarrow> nat \<Rightarrow> unit parser \<Rightarrow> (unit, 't rdpNego) prog" where
  "send_pdu T n body nego =
     (case Stream_New (grants_mem nego) n of
        None \<Rightarrow> Fail nego
      | Some s \<Rightarrow>
          (case body s of
             Abort \<Rightarrow> Abort
           | Fail _ \<Rightarrow> Fail nego
           | Ret _ s' \<Rightarrow> bindp (on_net (net_write T s')) (\<lambda>status. require (status \<ge> 0)) nego))"

definition le_bytes :: "u16 list \<Rightarrow> u8 list" where
  "le_bytes ws = concat (map winpr_Data_Write_UINT16 ws)"

definition nego_send_preconnection_pdu :: "'t net \<Rightarrow> (unit, 't rdpNego) prog" where
  "nego_send_preconnection_pdu T =
     bindp (nego_tcp_connect T) (\<lambda>_ nego.
       let (wszPCB, len) = (case PreconnectionBlob nego of None \<Rightarrow> (None, 0)
                            | Some blob \<Rightarrow> ConvertUtf8ToWCharAlloc T blob)
       in if PreconnectionBlob nego \<noteq> None \<and> len > UINT16_MAX - 1 then Fail nego
          else
            let cchPCB = (if PreconnectionBlob nego \<noteq> None then (of_nat len :: u16) + 1 else 0);
                cbSize = PRECONNECTION_PDU_V2_MIN_SIZE + ucast cchPCB * 2
            in send_pdu T (unat cbSize)
                 (bindp (Stream_Write_UINT32_unchecked cbSize) (\<lambda>_.
                  bindp (Stream_Write_UINT32_unchecked 0) (\<lambda>_.
                  bindp (Stream_Write_UINT32_unchecked PRECONNECTION_PDU_V2) (\<lambda>_.
                  bindp (Stream_Write_UINT32_unchecked (PreconnectionId nego)) (\<lambda>_.
                  bindp (Stream_Write_UINT16_unchecked cchPCB) (\<lambda>_.
                  bindp (case wszPCB of None \<Rightarrow> ret ()
                         | Some ws \<Rightarrow> Stream_Write (take (unat cchPCB * 2) (le_bytes (ws @ [0])))) (\<lambda>_.
                  Stream_SealLength))))))) nego)"

definition ascii :: "string \<Rightarrow> u8 list" where
  "ascii str = map (\<lambda>c. of_nat (of_char c)) str"

definition cookie_prefix :: "u8 list" where
  "cookie_prefix = ascii ''Cookie: mstshash=''"

definition crlf :: "u8 list" where "crlf = [0x0D, 0x0A]"

definition write_token_or_cookie :: "'t rdpNego \<Rightarrow> unit parser" where
  "write_token_or_cookie nego =
     (case RoutingToken nego of
        Some token \<Rightarrow>
          bindp (Stream_EnsureRemainingCapacity (length token)) (\<lambda>_.
          bindp (Stream_Write token) (\<lambda>_.
          if length token > 2 \<and> drop (length token - 2) token = crlf then ret ()
          else bindp (Stream_EnsureRemainingCapacity 2) (\<lambda>_.
               bindp (Stream_Write_UINT8_unchecked 0x0D) (\<lambda>_. Stream_Write_UINT8_unchecked 0x0A))))
      | None \<Rightarrow>
          (case cookie nego of
             None \<Rightarrow> ret ()
           | Some c \<Rightarrow>
               let text = take (unat (CookieMaxLength nego)) c in
               bindp (Stream_EnsureRemainingCapacity 17) (\<lambda>_.
               bindp (Stream_Write cookie_prefix) (\<lambda>_.
               bindp (Stream_EnsureRemainingCapacity (length text)) (\<lambda>_.
               bindp (Stream_Write text) (\<lambda>_.
               bindp (Stream_EnsureRemainingCapacity 2) (\<lambda>_.
               bindp (Stream_Write_UINT8_unchecked 0x0D) (\<lambda>_. Stream_Write_UINT8_unchecked 0x0A))))))))"

definition request_flags :: "'t rdpNego \<Rightarrow> u8" where
  "request_flags nego =
     (if RestrictedAdminModeRequired nego then RESTRICTED_ADMIN_MODE_REQUIRED else 0) OR
     (if RemoteCredsGuardRequired nego then REDIRECTED_AUTHENTICATION_MODE_REQUIRED else 0)"

definition write_nego_request :: "'t rdpNego \<Rightarrow> unit parser" where
  "write_nego_request nego =
     (if RequestedProtocols nego > PROTOCOL_RDP \<or> sendNegoData nego then
        bindp (Stream_EnsureRemainingCapacity 8) (\<lambda>_.
        bindp (Stream_Write_UINT8_unchecked TYPE_RDP_NEG_REQ) (\<lambda>_.
        bindp (Stream_Write_UINT8_unchecked (request_flags nego)) (\<lambda>_.
        bindp (Stream_Write_UINT16_unchecked 8) (\<lambda>_.
        Stream_Write_UINT32_unchecked (RequestedProtocols nego)))))
      else ret ())"

text \<open>The headers are written last, in front of what was written behind their place.\<close>

definition nego_request_body :: "'t rdpNego \<Rightarrow> unit parser" where
  "nego_request_body nego s =
     (let bm = Stream_GetPosition s in
      bindp (Stream_SafeZero TPDU_CONNECTION_REQUEST_LENGTH) (\<lambda>_.
      bindp (write_token_or_cookie nego) (\<lambda>_.
      bindp (write_nego_request nego) (\<lambda>_ t.
        let em = Stream_GetPosition t in
        bindp (require (\<not> (em < 5 \<or> em > UINT16_MAX))) (\<lambda>_.
        bindp (Stream_SetPosition bm) (\<lambda>_.
        bindp (tpkt_write_header em) (\<lambda>_.
        bindp (tpdu_write_connection_request (of_nat em - 5)) (\<lambda>_.
        bindp (Stream_SetPosition em) (\<lambda>_. Stream_SealLength))))) t))) s)"

definition nego_send_negotiation_request :: "'t net \<Rightarrow> (unit, 't rdpNego) prog" where
  "nego_send_negotiation_request T nego = send_pdu T 512 (nego_request_body nego) nego"

section \<open>Receiving the answer of the server\<close>

type_synonym ('a, 't) nego_handler = "('a, 't rdpNego \<times> wStream) prog"

text \<open>A bounds check that sets the state when it fails.\<close>

definition check_or_fail :: "nat \<Rightarrow> (unit, 't) nego_handler" where
  "check_or_fail n = (\<lambda>(nego, s).
     case Stream_CheckAndLogRequiredLength n s of
       Abort \<Rightarrow> Abort
     | Fail t \<Rightarrow> Fail (nego_set_state NEGO_STATE_FAIL nego, t)
     | Ret _ t \<Rightarrow> Ret () (nego, t))"

text \<open>A required mode the server does not support makes the code return \<open>-1\<close> from a function
  of type \<^verbatim>\<open>BOOL\<close>, which its caller takes for success.\<close>

definition nego_process_negotiation_response :: "(unit, 't) nego_handler" where
  "nego_process_negotiation_response =
     bindp (check_or_fail 7) (\<lambda>_.
     bindp (on_stream Stream_Read_UINT8) (\<lambda>flags.
     bindp (on_state (\<lambda>n. n\<lparr>nego_flags := ucast flags\<rparr>)) (\<lambda>_. \<lambda>(nego, s).
       if flags AND RESTRICTED_ADMIN_MODE_SUPPORTED = 0 \<and> RestrictedAdminModeRequired nego then Ret () (nego, s)
       else if flags AND REDIRECTED_AUTHENTICATION_MODE_SUPPORTED = 0 \<and> RemoteCredsGuardRequired nego
       then Ret () (nego, s)
       else
         bindp (on_stream Stream_Read_UINT16) (\<lambda>len.
           if len \<noteq> 8 then bindp (on_state (nego_set_state NEGO_STATE_FAIL)) (\<lambda>_. fail)
           else
             bindp (on_stream Stream_Read_UINT32) (\<lambda>p.
             on_state (\<lambda>n. nego_set_state NEGO_STATE_FINAL (nego_set_selected_protocol p n)))) (nego, s))))"

definition nego_disable_all_except :: "u32 \<Rightarrow> 't rdpNego \<Rightarrow> 't rdpNego" where
  "nego_disable_all_except what nego =
     nego\<lparr>EnabledProtocols := (\<lambda>x. if x < 32 \<and> x \<noteq> unat what then False else EnabledProtocols nego x)\<rparr>"

definition failure_update :: "u32 \<Rightarrow> 't rdpNego \<Rightarrow> 't rdpNego" where
  "failure_update code nego =
     (let n = nego\<lparr>failureCode := code\<rparr> in
      if code = SSL_REQUIRED_BY_SERVER then nego_disable_all_except PROTOCOL_SSL n
      else if code = SSL_NOT_ALLOWED_BY_SERVER
      then (nego_disable_all_except PROTOCOL_RDP n)\<lparr>sendNegoData := True\<rparr>
      else if code = SSL_CERT_NOT_ON_SERVER then n\<lparr>sendNegoData := True\<rparr>
      else if code = HYBRID_REQUIRED_BY_SERVER then nego_disable_all_except PROTOCOL_HYBRID n
      else n)"

definition nego_process_negotiation_failure :: "(unit, 't) nego_handler" where
  "nego_process_negotiation_failure =
     bindp (on_stream (Stream_CheckAndLogRequiredLength 7)) (\<lambda>_.
     bindp (on_stream Stream_Read_UINT8) (\<lambda>flags.
     bindp (require (\<not> flags \<noteq> 0)) (\<lambda>_.
     bindp (on_stream Stream_Read_UINT16) (\<lambda>len.
     bindp (require (\<not> len \<noteq> 8)) (\<lambda>_.
     bindp (on_stream Stream_Read_UINT32) (\<lambda>code.
     bindp (on_state (failure_update code)) (\<lambda>_.
     on_state (nego_set_state NEGO_STATE_FAIL))))))))"

definition negotiable :: "u32 list" where
  "negotiable = [PROTOCOL_RDP, PROTOCOL_SSL, PROTOCOL_HYBRID, PROTOCOL_RDSTLS, PROTOCOL_HYBRID_EX, PROTOCOL_RDSAAD]"

text \<open>The check of the selected protocol against the enabled ones.\<close>

definition check_selected :: "'t rdpNego \<Rightarrow> 't rdpNego" where
  "check_selected nego =
     (let p = SelectedProtocol nego in
      if p \<noteq> 0 then
        (if \<exists>flag \<in> set negotiable. p = flag \<and> enabled flag nego then nego
         else nego_set_state NEGO_STATE_FAIL nego)
      else if \<not> enabled PROTOCOL_RDP nego then nego_set_state NEGO_STATE_FAIL nego
      else nego)"

definition nego_recv :: "(unit, 't) nego_handler" where
  "nego_recv =
     bindp (on_stream tpkt_read_header) (\<lambda>len.
     bindp (on_stream (tpdu_read_connection_confirm len)) (\<lambda>li.
     bindp (
       if li > 6 then
         bindp (on_stream Stream_Read_UINT8) (\<lambda>type.
           if type = TYPE_RDP_NEG_RSP then
             bindp nego_process_negotiation_response (\<lambda>_. on_state check_selected)
           else if type = TYPE_RDP_NEG_FAILURE then nego_process_negotiation_failure
           else fail)
       else if li = 6 then
         on_state (\<lambda>n. nego_set_state (if \<not> enabled PROTOCOL_RDP n then NEGO_STATE_FAIL else NEGO_STATE_FINAL) n)
       else on_state (nego_set_state NEGO_STATE_FAIL)) (\<lambda>_.
     on_stream (tpkt_ensure_stream_consumed (unat len)))))"

definition nego_recv_response :: "'t net \<Rightarrow> (unit, 't rdpNego) prog" where
  "nego_recv_response T nego =
     (case Stream_New (grants_mem nego) 1024 of
        None \<Rightarrow> Fail nego
      | Some s \<Rightarrow>
          bindp (on_net (transport_read_pdu T s)) (\<lambda>(status, s') nego.
            if status < 0 then Fail nego
            else (case nego_recv (nego, s') of
                    Abort \<Rightarrow> Abort
                  | Fail (n, _) \<Rightarrow> Fail n
                  | Ret _ (n, _) \<Rightarrow> Ret () n)) nego)"

section \<open>The attempts of the client\<close>

text \<open>One attempt: connect, ask, and wait for the answer; if any of these fails the negotiation
  has failed, and if the server refuses, \<open>fallback\<close> picks what is tried on a new connection.\<close>

definition attempt :: "'t net \<Rightarrow> u32 \<Rightarrow> ('t rdpNego \<Rightarrow> NEGO_STATE) option \<Rightarrow> (unit, 't rdpNego) prog" where
  "attempt T requested fallback nego =
     (case bindp (upd_nego (\<lambda>n. n\<lparr>RequestedProtocols := requested\<rparr>)) (\<lambda>_.
           bindp (nego_transport_connect T) (\<lambda>_.
           bindp (nego_send_negotiation_request T) (\<lambda>_. nego_recv_response T))) nego of
        Abort \<Rightarrow> Abort
      | Fail n \<Rightarrow> Ret () (nego_set_state NEGO_STATE_FAIL n)
      | Ret _ n \<Rightarrow>
          (case fallback of
             None \<Rightarrow> Ret () n
           | Some pick \<Rightarrow>
               if nego_get_state n \<noteq> NEGO_STATE_FINAL
               then bindp (nego_transport_disconnect T) (\<lambda>_. upd_nego (\<lambda>m. nego_set_state (pick m) m)) n
               else Ret () n))"

fun first_enabled :: "(u32 \<times> NEGO_STATE) list \<Rightarrow> 't rdpNego \<Rightarrow> NEGO_STATE" where
  "first_enabled [] nego = NEGO_STATE_FAIL"
| "first_enabled ((p, st) # ps) nego = (if enabled p nego then st else first_enabled ps nego)"

definition nego_attempt_rdstls :: "'t net \<Rightarrow> (unit, 't rdpNego) prog" where
  "nego_attempt_rdstls T = attempt T (PROTOCOL_RDSTLS OR PROTOCOL_SSL) (Some (first_enabled
     [(PROTOCOL_HYBRID_EX, NEGO_STATE_EXT), (PROTOCOL_HYBRID, NEGO_STATE_NLA),
      (PROTOCOL_SSL, NEGO_STATE_TLS), (PROTOCOL_RDP, NEGO_STATE_RDP)]))"

definition nego_attempt_rdsaad :: "'t net \<Rightarrow> (unit, 't rdpNego) prog" where
  "nego_attempt_rdsaad T = attempt T PROTOCOL_RDSAAD (Some (first_enabled
     [(PROTOCOL_HYBRID_EX, NEGO_STATE_EXT), (PROTOCOL_HYBRID, NEGO_STATE_NLA),
      (PROTOCOL_SSL, NEGO_STATE_TLS), (PROTOCOL_RDP, NEGO_STATE_RDP)]))"

definition nego_attempt_ext :: "'t net \<Rightarrow> (unit, 't rdpNego) prog" where
  "nego_attempt_ext T = attempt T (PROTOCOL_HYBRID OR PROTOCOL_SSL OR PROTOCOL_HYBRID_EX) (Some (first_enabled
     [(PROTOCOL_HYBRID, NEGO_STATE_NLA), (PROTOCOL_SSL, NEGO_STATE_TLS), (PROTOCOL_RDP, NEGO_STATE_RDP)]))"

definition nego_attempt_nla :: "'t net \<Rightarrow> (unit, 't rdpNego) prog" where
  "nego_attempt_nla T = attempt T (PROTOCOL_HYBRID OR PROTOCOL_SSL) (Some (first_enabled
     [(PROTOCOL_SSL, NEGO_STATE_TLS), (PROTOCOL_RDP, NEGO_STATE_RDP)]))"

definition nego_attempt_tls :: "'t net \<Rightarrow> (unit, 't rdpNego) prog" where
  "nego_attempt_tls T = attempt T PROTOCOL_SSL (Some (first_enabled [(PROTOCOL_RDP, NEGO_STATE_RDP)]))"

definition nego_attempt_rdp :: "'t net \<Rightarrow> (unit, 't rdpNego) prog" where
  "nego_attempt_rdp T = attempt T PROTOCOL_RDP None"

definition nego_send :: "'t net \<Rightarrow> (unit, 't rdpNego) prog" where
  "nego_send T nego =
     (case nego_get_state nego of
        NEGO_STATE_AAD \<Rightarrow> nego_attempt_rdsaad T nego
      | NEGO_STATE_RDSTLS \<Rightarrow> nego_attempt_rdstls T nego
      | NEGO_STATE_EXT \<Rightarrow> nego_attempt_ext T nego
      | NEGO_STATE_NLA \<Rightarrow> nego_attempt_nla T nego
      | NEGO_STATE_TLS \<Rightarrow> nego_attempt_tls T nego
      | NEGO_STATE_RDP \<Rightarrow> nego_attempt_rdp T nego
      | _ \<Rightarrow> Ret () nego)"

definition nego_failure_to_error :: "u32 \<Rightarrow> u32" where
  "nego_failure_to_error code =
     (if code = SSL_CERT_NOT_ON_SERVER then FREERDP_ERROR_TLS_CONNECT_FAILED
      else if code = HYBRID_REQUIRED_BY_SERVER then FREERDP_ERROR_CONNECT_HYBRID_REQUIRED_BY_SERVER
      else FREERDP_ERROR_SECURITY_NEGO_CONNECT_FAILED)"

definition nego_rdp_neg_fail_str :: "u32 \<Rightarrow> string" where
  "nego_rdp_neg_fail_str what =
     (if what = SSL_REQUIRED_BY_SERVER then ''SSL_REQUIRED_BY_SERVER''
      else if what = SSL_NOT_ALLOWED_BY_SERVER then ''SSL_NOT_ALLOWED_BY_SERVER''
      else if what = SSL_CERT_NOT_ON_SERVER then ''SSL_CERT_NOT_ON_SERVER''
      else if what = INCONSISTENT_FLAGS then ''INCONSISTENT_FLAGS''
      else if what = HYBRID_REQUIRED_BY_SERVER then ''HYBRID_REQUIRED_BY_SERVER''
      else if what = SSL_WITH_USER_AUTH_REQUIRED_BY_SERVER then ''SSL_WITH_USER_AUTH_REQUIRED_BY_SERVER''
      else ''UNKNOWN'')"

definition freerdp_set_last_error_if_not :: "'t net \<Rightarrow> u32 \<Rightarrow> 't \<Rightarrow> 't" where
  "freerdp_set_last_error_if_not T err t =
     (if freerdp_get_last_error T t = FREERDP_ERROR_SUCCESS then freerdp_set_last_error T err t else t)"

text \<open>The loop: \<open>None\<close> where it does not end.\<close>

partial_function (option) nego_loop :: "'t net \<Rightarrow> 't rdpNego \<Rightarrow> (unit, 't rdpNego) outcome option" where
  "nego_loop T nego =
     (case nego_send T nego of
        Abort \<Rightarrow> Some Abort
      | Fail n \<Rightarrow> Some (Fail n)
      | Ret _ n \<Rightarrow>
          if nego_get_state n = NEGO_STATE_FAIL then
            Some (Fail (nego_set_state NEGO_STATE_FINAL
              (if failureCode n \<noteq> 0
               then n\<lparr>net_state := freerdp_set_last_error_if_not T (nego_failure_to_error (failureCode n)) (net_state n)\<rparr>
               else n)))
          else if nego_get_state n \<noteq> NEGO_STATE_FINAL then nego_loop T n
          else Some (Ret () n))"

definition initial_state :: "'t rdpNego \<Rightarrow> NEGO_STATE" where
  "initial_state nego = first_enabled
     [(PROTOCOL_RDSAAD, NEGO_STATE_AAD), (PROTOCOL_RDSTLS, NEGO_STATE_RDSTLS), (PROTOCOL_HYBRID_EX, NEGO_STATE_EXT),
      (PROTOCOL_HYBRID, NEGO_STATE_NLA), (PROTOCOL_SSL, NEGO_STATE_TLS), (PROTOCOL_RDP, NEGO_STATE_RDP)] nego"

text \<open>Without negotiation only the highest enabled protocol is left, and it is selected.\<close>

definition select_highest :: "(unit, 't rdpNego) prog" where
  "select_highest nego =
     (let none = fold (\<lambda>p. enable p False) negotiable nego;
          only = (\<lambda>ps sel. Ret () (nego_set_selected_protocol sel (fold (\<lambda>p. enable p True) ps none)))
      in case nego_get_state nego of
           NEGO_STATE_AAD \<Rightarrow> only [PROTOCOL_RDSAAD] PROTOCOL_RDSAAD
         | NEGO_STATE_RDSTLS \<Rightarrow> only [PROTOCOL_RDSTLS] PROTOCOL_RDSTLS
         | NEGO_STATE_EXT \<Rightarrow> only [PROTOCOL_HYBRID_EX, PROTOCOL_HYBRID] PROTOCOL_HYBRID_EX
         | NEGO_STATE_NLA \<Rightarrow> only [PROTOCOL_HYBRID] PROTOCOL_HYBRID
         | NEGO_STATE_TLS \<Rightarrow> only [PROTOCOL_SSL] PROTOCOL_SSL
         | NEGO_STATE_RDP \<Rightarrow> only [PROTOCOL_RDP] PROTOCOL_RDP
         | _ \<Rightarrow> Fail none)"

definition nego_start :: "'t net \<Rightarrow> (unit, 't rdpNego) prog" where
  "nego_start T nego =
     (if nego_get_state nego \<noteq> NEGO_STATE_INITIAL then Ret () nego
      else
        bindp (upd_nego (\<lambda>n. nego_set_state (initial_state n) n)) (\<lambda>_ n.
        if nego_get_state n = NEGO_STATE_FAIL then Fail n
        else
          bindp (if \<not> NegotiateSecurityLayer n then select_highest else ret ()) (\<lambda>_.
          bindp (nego_tcp_connect T) (\<lambda>_ n.
          if SendPreconnectionPdu n then
            (case nego_send_preconnection_pdu T n of
               Fail m \<Rightarrow> Fail (nego_set_state NEGO_STATE_FINAL m)
             | r \<Rightarrow> r)
          else Ret () n)) n) nego)"

definition nego_update_settings_from_state :: "(unit, 't rdpNego) prog" where
  "nego_update_settings_from_state nego =
     Ret () (nego\<lparr>nego_settings := (nego_settings nego)\<lparr>
       FreeRDP_RequestedProtocols := RequestedProtocols nego,
       FreeRDP_SelectedProtocol := SelectedProtocol nego,
       FreeRDP_NegotiationFlags := nego_flags nego\<rparr>\<rparr>)"

definition use_rdp_security :: "'t rdpNego \<Rightarrow> 't rdpNego" where
  "use_rdp_security nego =
     (if SelectedProtocol nego = PROTOCOL_RDP
      then nego\<lparr>nego_settings := (nego_settings nego)\<lparr>
             FreeRDP_UseRdpSecurityLayer := True,
             FreeRDP_EncryptionMethods :=
               (if FreeRDP_EncryptionMethods (nego_settings nego) = 0 then ENCRYPTION_METHODS_ALL
                else FreeRDP_EncryptionMethods (nego_settings nego))\<rparr>\<rparr>
      else nego)"

definition nego_connect :: "'t net \<Rightarrow> 't rdpNego \<Rightarrow> (unit, 't rdpNego) outcome option" where
  "nego_connect T nego =
     (let finish = bindp nego_update_settings_from_state (\<lambda>_.
                   bindp (upd_nego use_rdp_security) (\<lambda>_. nego_security_connect T))
      in case nego_start T nego of
           Abort \<Rightarrow> Some Abort
         | Fail n \<Rightarrow> Some (Fail n)
         | Ret _ n \<Rightarrow>
             if \<not> NegotiateSecurityLayer n then Some (finish (nego_set_state NEGO_STATE_FINAL n))
             else (case nego_loop T n of
                     Some (Ret _ m) \<Rightarrow> Some (finish m)
                   | r \<Rightarrow> r))"

section \<open>The server side\<close>

text \<open>The setters report whether the copy could be allocated.\<close>

definition nego_set_routing_token :: "u8 list \<Rightarrow> 't rdpNego \<Rightarrow> bool \<times> 't rdpNego" where
  "nego_set_routing_token token nego =
     (if length token = 0 then (False, nego)
      else
        let n = nego\<lparr>RoutingTokenLength := of_nat (length token), RoutingToken := None\<rparr>
        in if grants_mem nego (length token) then (True, n\<lparr>RoutingToken := Some token\<rparr>) else (False, n))"

definition nego_set_cookie :: "u8 list option \<Rightarrow> 't rdpNego \<Rightarrow> bool \<times> 't rdpNego" where
  "nego_set_cookie c nego =
     (let n = nego\<lparr>cookie := None\<rparr> in
      case c of
        None \<Rightarrow> (True, n)
      | Some text \<Rightarrow> if grants_mem nego (length text + 1) then (True, n\<lparr>cookie := Some text\<rparr>) else (False, n))"

text \<open>The search for the end of the line. Each step consumes one byte, so the number of bytes
  that remain is enough fuel.\<close>

fun find_crlf :: "nat \<Rightarrow> u16 \<Rightarrow> u16 parser" where
  "find_crlf 0 seen = ret seen"
| "find_crlf (Suc n) seen =
     bindp Stream_GetRemainingLength (\<lambda>rem.
     if rem \<ge> 2 then
       bindp Stream_Read_UINT16 (\<lambda>w.
         if w = 0x0A0D then ret w else bindp (Stream_Rewind 1) (\<lambda>_. find_crlf n w))
     else ret seen)"

definition UINT32_MAX :: nat where "UINT32_MAX = 4294967295"

text \<open>The line that starts at \<open>pos\<close>; its end is overwritten with zeros in the packet.\<close>

definition read_line :: "bool \<Rightarrow> nat \<Rightarrow> nat \<Rightarrow> (unit, 't) nego_handler" where
  "read_line isToken pos remain =
     bindp (on_stream (find_crlf remain 0)) (\<lambda>w.
     bindp (
       if w = 0x0A0D then
         bindp (on_stream (Stream_Rewind 2)) (\<lambda>_ (nego, s).
           let len = pointer s - pos in
           bindp (on_stream (Stream_Write_UINT16_unchecked 0)) (\<lambda>_ (nego, s).
             let str = take len (drop pos (buffer s)) in
             if len > UINT32_MAX then Fail (nego, s)
             else if 0 \<in> set str then Ret False (nego, s)
             else if 0x0A \<in> set str \<or> 0x0D \<in> set str then Fail (nego, s)
             else
               let (ok, n) = (if isToken then nego_set_routing_token str nego else nego_set_cookie (Some str) nego)
               in Ret ok (n, s)) (nego, s))
       else ret False) (\<lambda>result.
     if \<not> result then bindp (on_stream (Stream_SetPosition pos)) (\<lambda>_. fail) else ret ()))"

definition nego_read_request_token_or_cookie :: "(unit, 't) nego_handler" where
  "nego_read_request_token_or_cookie =
     bindp (on_stream Stream_GetRemainingLength) (\<lambda>remain (nego, s).
       let pos = Stream_GetPosition s; bytes = drop pos (buffer s) in
       if remain < 15 then Ret () (nego, s)
       else if remain < 17 \<or> take 17 bytes \<noteq> cookie_prefix then
         (if take 13 bytes \<noteq> ascii ''Cookie: msts='' \<and> take 4 bytes \<noteq> ascii ''tsv:'' \<and>
             take 6 bytes \<noteq> ascii ''mth://''
          then Ret () (nego, s)
          else read_line True pos remain (nego, s))
       else if remain < 19 then Ret () (nego, s)
       else bindp (on_stream (Stream_Seek 17)) (\<lambda>_. read_line False pos remain) (nego, s))"

definition nego_process_correlation_info :: "(unit, 't) nego_handler" where
  "nego_process_correlation_info =
     on_stream (
       bindp (Stream_CheckAndLogRequiredLength 36) (\<lambda>_.
       bindp Stream_Read_UINT8 (\<lambda>type.
       bindp (require (\<not> type \<noteq> TYPE_RDP_CORRELATION_INFO)) (\<lambda>_.
       bindp Stream_Read_UINT8 (\<lambda>flags.
       bindp (require (\<not> flags \<noteq> 0)) (\<lambda>_.
       bindp Stream_Read_UINT16 (\<lambda>len.
       bindp (require (\<not> len \<noteq> 36)) (\<lambda>_.
       bindp (Stream_Read 16) (\<lambda>correlationId.
       bindp (require (\<not> (correlationId ! 0 = 0 \<or> correlationId ! 0 = 0xF4))) (\<lambda>_.
       bindp (require (0x0D \<notin> set correlationId)) (\<lambda>_.
       Stream_Seek 16)))))))))))"

definition nego_process_negotiation_request :: "(unit, 't) nego_handler" where
  "nego_process_negotiation_request =
     bindp (on_stream (Stream_CheckAndLogRequiredLength 7)) (\<lambda>_.
     bindp (on_stream Stream_Read_UINT8) (\<lambda>flags.
     bindp (require (\<not> flags AND NOT (RESTRICTED_ADMIN_MODE_REQUIRED OR
              REDIRECTED_AUTHENTICATION_MODE_REQUIRED OR CORRELATION_INFO_PRESENT) \<noteq> 0)) (\<lambda>_.
     bindp (\<lambda>(nego, s).
       require (flags AND RESTRICTED_ADMIN_MODE_REQUIRED \<noteq> 0 \<longrightarrow> RestrictedAdminModeSupported nego) (nego, s)) (\<lambda>_.
     bindp (\<lambda>(nego, s).
       if flags AND REDIRECTED_AUTHENTICATION_MODE_REQUIRED \<noteq> 0 then
         (if RemoteCredsGuardSupported nego then Ret () (nego\<lparr>RemoteCredsGuardActive := True\<rparr>, s)
          else require (flags AND RESTRICTED_ADMIN_MODE_REQUIRED \<noteq> 0) (nego, s))
       else Ret () (nego, s)) (\<lambda>_.
     bindp (on_stream Stream_Read_UINT16) (\<lambda>len.
     bindp (require (\<not> len \<noteq> 8)) (\<lambda>_.
     bindp (on_stream Stream_Read_UINT32) (\<lambda>p.
     bindp (on_state (nego_set_requested_protocols p)) (\<lambda>_.
     bindp (if flags AND CORRELATION_INFO_PRESENT \<noteq> 0 then nego_process_correlation_info else ret ()) (\<lambda>_.
     on_state (nego_set_state NEGO_STATE_FINAL)))))))))))"

definition nego_read_request :: "(unit, 't) nego_handler" where
  "nego_read_request =
     bindp (on_stream tpkt_read_header) (\<lambda>len.
     bindp (on_stream (tpdu_read_connection_request len)) (\<lambda>li.
     bindp (on_stream Stream_GetRemainingLength) (\<lambda>rem.
     bindp (require (\<not> unat li \<noteq> rem + 6)) (\<lambda>_.
     bindp nego_read_request_token_or_cookie (\<lambda>_.
     bindp (on_stream Stream_GetRemainingLength) (\<lambda>rem.
     bindp (if rem \<ge> 8 then
              bindp (on_stream Stream_Read_UINT8) (\<lambda>type.
              bindp (require (\<not> type \<noteq> TYPE_RDP_NEG_REQ)) (\<lambda>_. nego_process_negotiation_request))
            else ret ()) (\<lambda>_.
     on_stream (tpkt_ensure_stream_consumed (unat len)))))))))"

definition response_flags :: "'t rdpNego \<Rightarrow> u8" where
  "response_flags nego =
     EXTENDED_CLIENT_DATA_SUPPORTED OR
     (if FreeRDP_SupportGraphicsPipeline (nego_settings nego) then DYNVC_GFX_PROTOCOL_SUPPORTED else 0) OR
     (if RestrictedAdminModeSupported nego then RESTRICTED_ADMIN_MODE_SUPPORTED else 0) OR
     (if RemoteCredsGuardSupported nego then REDIRECTED_AUTHENTICATION_MODE_SUPPORTED else 0)"

definition nego_response_body :: "'t rdpNego \<Rightarrow> unit parser" where
  "nego_response_body nego s =
     (let bm = Stream_GetPosition s;
          failed = SelectedProtocol nego AND PROTOCOL_FAILED_NEGO \<noteq> 0;
          len = TPDU_CONNECTION_CONFIRM_LENGTH + 8
      in
      bindp (Stream_SafeZero TPDU_CONNECTION_CONFIRM_LENGTH) (\<lambda>_.
      bindp (Stream_Write_UINT8_unchecked (if failed then TYPE_RDP_NEG_FAILURE else TYPE_RDP_NEG_RSP)) (\<lambda>_.
      bindp (Stream_Write_UINT8_unchecked (if failed then 0 else response_flags nego)) (\<lambda>_.
      bindp (Stream_Write_UINT16_unchecked 8) (\<lambda>_.
      bindp (Stream_Write_UINT32_unchecked
              (if failed then SelectedProtocol nego AND NOT PROTOCOL_FAILED_NEGO else SelectedProtocol nego)) (\<lambda>_ t.
        let em = Stream_GetPosition t in
        bindp (Stream_SetPosition bm) (\<lambda>_.
        bindp (tpkt_write_header len) (\<lambda>_.
        bindp (tpdu_write_connection_confirm (of_nat len - 5)) (\<lambda>_.
        bindp (Stream_SetPosition em) (\<lambda>_. Stream_SealLength)))) t))))) s)"

text \<open>What the server makes of the protocol it has selected.\<close>

definition security_settings ::
  "bool \<Rightarrow> bool \<Rightarrow> bool \<Rightarrow> bool \<Rightarrow> bool \<Rightarrow> nego_settings \<Rightarrow> nego_settings" where
  "security_settings tls nla ext rdstls rdp st =
     st\<lparr>FreeRDP_TlsSecurity := tls, FreeRDP_NlaSecurity := nla, FreeRDP_ExtSecurity := ext,
        FreeRDP_RdstlsSecurity := rdstls, FreeRDP_RdpSecurity := rdp, FreeRDP_UseRdpSecurityLayer := rdp,
        FreeRDP_EncryptionLevel := (if rdp then FreeRDP_EncryptionLevel st else ENCRYPTION_LEVEL_NONE)\<rparr>"

definition apply_selected_protocol :: "(unit, 't rdpNego) prog" where
  "apply_selected_protocol nego =
     (let p = SelectedProtocol nego;
          st = (nego_settings nego)\<lparr>FreeRDP_RequestedProtocols := RequestedProtocols nego,
                                    FreeRDP_SelectedProtocol := p\<rparr>;
          done_with = (\<lambda>st. Ret () (nego\<lparr>nego_settings := st\<rparr>))
      in if p = PROTOCOL_RDP then
           (let st1 = security_settings False False False (FreeRDP_RdstlsSecurity st) True st;
                st2 = (if FreeRDP_EncryptionLevel st1 = ENCRYPTION_LEVEL_NONE
                       then st1\<lparr>FreeRDP_EncryptionLevel := ENCRYPTION_LEVEL_CLIENT_COMPATIBLE\<rparr> else st1)
            in if FreeRDP_LocalConnection st2
               then done_with (st2\<lparr>FreeRDP_UseRdpSecurityLayer := False, FreeRDP_EncryptionLevel := ENCRYPTION_LEVEL_NONE\<rparr>)
               else if \<not> has_RdpServerRsaKey st2 then Fail (nego\<lparr>nego_settings := st2\<rparr>)
               else done_with st2)
         else if p = PROTOCOL_SSL then done_with (security_settings True False False False False st)
         else if p = PROTOCOL_HYBRID then done_with (security_settings True True True False False st)
         else if p = PROTOCOL_RDSTLS then done_with (security_settings True False False True False st)
         else done_with st)"

definition nego_send_negotiation_response :: "'t net \<Rightarrow> (unit, 't rdpNego) prog" where
  "nego_send_negotiation_response T nego =
     bindp (send_pdu T 512 (nego_response_body nego)) (\<lambda>_. apply_selected_protocol) nego"

section \<open>Creation and configuration\<close>

definition nego_init :: "'t rdpNego \<Rightarrow> 't rdpNego" where
  "nego_init nego = nego_set_state NEGO_STATE_INITIAL
     (nego\<lparr>RequestedProtocols := PROTOCOL_RDP, CookieMaxLength := DEFAULT_COOKIE_MAX_LENGTH,
           sendNegoData := False, nego_flags := 0, failureCode := 0\<rparr>)"

definition nego_new :: "(nat \<Rightarrow> bool) \<Rightarrow> nat \<Rightarrow> nego_settings \<Rightarrow> 't \<Rightarrow> 't rdpNego option" where
  "nego_new grant sizeof_nego st t =
     (if \<not> grant sizeof_nego then None
      else Some (nego_init \<lparr>port = 0, nego_flags = 0, hostname = [], cookie = None, RoutingToken = None,
        RoutingTokenLength = 0, SendPreconnectionPdu = False, PreconnectionId = 0, PreconnectionBlob = None,
        nego_state = NEGO_STATE_INITIAL, TcpConnected = False, SecurityConnected = False, CookieMaxLength = 0,
        sendNegoData = False, SelectedProtocol = 0, RequestedProtocols = 0, failureCode = 0,
        NegotiateSecurityLayer = False, EnabledProtocols = (\<lambda>_. False), RestrictedAdminModeRequired = False,
        RestrictedAdminModeSupported = False, RemoteCredsGuardRequired = False, RemoteCredsGuardActive = False,
        RemoteCredsGuardSupported = False, GatewayEnabled = False, GatewayBypassLocal = False,
        ConnectChildSession = False, nego_settings = st, net_state = t, grants_mem = grant\<rparr>))"

definition nego_set_target :: "u8 list \<Rightarrow> u16 \<Rightarrow> 't rdpNego \<Rightarrow> 't rdpNego" where
  "nego_set_target host p nego = nego\<lparr>hostname := host, port := p\<rparr>"

definition nego_set_negotiation_enabled :: "bool \<Rightarrow> 't rdpNego \<Rightarrow> 't rdpNego" where
  "nego_set_negotiation_enabled b nego = nego\<lparr>NegotiateSecurityLayer := b\<rparr>"

definition nego_set_restricted_admin_mode_required :: "bool \<Rightarrow> 't rdpNego \<Rightarrow> 't rdpNego" where
  "nego_set_restricted_admin_mode_required b nego = nego\<lparr>RestrictedAdminModeRequired := b\<rparr>"

definition nego_set_restricted_admin_mode_supported :: "bool \<Rightarrow> 't rdpNego \<Rightarrow> 't rdpNego" where
  "nego_set_restricted_admin_mode_supported b nego = nego\<lparr>RestrictedAdminModeSupported := b\<rparr>"

definition nego_set_RCG_required :: "bool \<Rightarrow> 't rdpNego \<Rightarrow> 't rdpNego" where
  "nego_set_RCG_required b nego = nego\<lparr>RemoteCredsGuardRequired := b\<rparr>"

definition nego_set_RCG_supported :: "bool \<Rightarrow> 't rdpNego \<Rightarrow> 't rdpNego" where
  "nego_set_RCG_supported b nego = nego\<lparr>RemoteCredsGuardSupported := b\<rparr>"

definition nego_enable_rdp :: "bool \<Rightarrow> 't rdpNego \<Rightarrow> 't rdpNego" where "nego_enable_rdp = enable PROTOCOL_RDP"
definition nego_enable_tls :: "bool \<Rightarrow> 't rdpNego \<Rightarrow> 't rdpNego" where "nego_enable_tls = enable PROTOCOL_SSL"
definition nego_enable_nla :: "bool \<Rightarrow> 't rdpNego \<Rightarrow> 't rdpNego" where "nego_enable_nla = enable PROTOCOL_HYBRID"
definition nego_enable_rdstls :: "bool \<Rightarrow> 't rdpNego \<Rightarrow> 't rdpNego" where
  "nego_enable_rdstls = enable PROTOCOL_RDSTLS"
definition nego_enable_ext :: "bool \<Rightarrow> 't rdpNego \<Rightarrow> 't rdpNego" where
  "nego_enable_ext = enable PROTOCOL_HYBRID_EX"

text \<open>\<open>aad_is_supported\<close> is a property of the build.\<close>

definition nego_enable_aad :: "bool \<Rightarrow> bool \<Rightarrow> 't rdpNego \<Rightarrow> 't rdpNego" where
  "nego_enable_aad aad_is_supported b nego = (if aad_is_supported then enable PROTOCOL_RDSAAD b nego else nego)"

definition nego_set_childsession_enabled :: "bool \<Rightarrow> 't rdpNego \<Rightarrow> 't rdpNego" where
  "nego_set_childsession_enabled b nego = nego\<lparr>ConnectChildSession := b\<rparr>"

definition nego_set_gateway_enabled :: "bool \<Rightarrow> 't rdpNego \<Rightarrow> 't rdpNego" where
  "nego_set_gateway_enabled b nego = nego\<lparr>GatewayEnabled := b\<rparr>"

definition nego_set_gateway_bypass_local :: "bool \<Rightarrow> 't rdpNego \<Rightarrow> 't rdpNego" where
  "nego_set_gateway_bypass_local b nego = nego\<lparr>GatewayBypassLocal := b\<rparr>"

definition nego_set_cookie_max_length :: "u32 \<Rightarrow> 't rdpNego \<Rightarrow> 't rdpNego" where
  "nego_set_cookie_max_length n nego = nego\<lparr>CookieMaxLength := n\<rparr>"

definition nego_set_send_preconnection_pdu :: "bool \<Rightarrow> 't rdpNego \<Rightarrow> 't rdpNego" where
  "nego_set_send_preconnection_pdu b nego = nego\<lparr>SendPreconnectionPdu := b\<rparr>"

definition nego_set_preconnection_id :: "u32 \<Rightarrow> 't rdpNego \<Rightarrow> 't rdpNego" where
  "nego_set_preconnection_id n nego = nego\<lparr>PreconnectionId := n\<rparr>"

definition nego_set_preconnection_blob :: "u8 list option \<Rightarrow> 't rdpNego \<Rightarrow> 't rdpNego" where
  "nego_set_preconnection_blob blob nego = nego\<lparr>PreconnectionBlob := blob\<rparr>"

definition nego_get_selected_protocol :: "'t rdpNego \<Rightarrow> u32" where
  "nego_get_selected_protocol nego = SelectedProtocol nego"

definition nego_get_requested_protocols :: "'t rdpNego \<Rightarrow> u32" where
  "nego_get_requested_protocols nego = RequestedProtocols nego"

definition nego_get_remoteCredentialGuard :: "'t rdpNego \<Rightarrow> bool" where
  "nego_get_remoteCredentialGuard nego = RemoteCredsGuardActive nego"

definition nego_get_routing_token :: "'t rdpNego \<Rightarrow> u8 list option \<times> u32" where
  "nego_get_routing_token nego = (RoutingToken nego, RoutingTokenLength nego)"

end
