(* ===== verification/NegoFacts.thy ===== *)
theory NegoFacts
  imports Nego
begin

text \<open>
  What the negotiation of \<^verbatim>\<open>Nego\<close> guarantees: the readers stay inside their packet, the loop of
  the client ends, and what it connects is what was agreed on.
\<close>

unbundle bit_operations_syntax

section \<open>The answer is read inside its packet\<close>

lemma tpdu_header_length:
  "tpdu_read_header len s = Ret (X224_TPDU_CONNECTION_CONFIRM, li) t \<Longrightarrow> window B L p 0 s \<Longrightarrow>
     pointer t = pointer s + 7"
  unfolding tpdu_read_header_def
  by (auto simp: stream_defs bindp_def stream_read_u8_def stream_read_def Let_def window_def tpdu_codes
      split: if_splits outcome.splits)

lemma wrapped_rest: "(SIZE_MAX + 1 + unat (li :: u8) - 6) mod (SIZE_MAX + 1) \<ge> unat li - 6"
proof (cases "unat li \<ge> 6")
  case True
  then have "SIZE_MAX + 1 + unat li - 6 = (unat li - 6) + (SIZE_MAX + 1)" by simp
  then have "(SIZE_MAX + 1 + unat li - 6) mod (SIZE_MAX + 1) = (unat li - 6) mod (SIZE_MAX + 1)"
    by (simp only: mod_add_self2)
  moreover have "unat li < 256" using unsigned_less [of li] by simp
  ultimately show ?thesis by (simp add: SIZE_MAX_def)
qed simp

text \<open>Behind the header the length indicator minus the six bytes of the header are there.\<close>

lemma connection_confirm_window:
  "triple (window B L p 0) (tpdu_read_connection_confirm len)
     (\<lambda>li. window B L p (unat li - 6)) (window B L p 0)"
proof (rule tripleI)
  fix s assume w: "window B L p 0 s"
  then have r: "case tpdu_read_header len s of Abort \<Rightarrow> False | Fail t \<Rightarrow> window B L p 0 t | Ret x t \<Rightarrow> window B L p 0 t"
    by (intro tripleD [OF reads_okD [OF reads_tpdu_header]])
  show "case tpdu_read_connection_confirm len s of Abort \<Rightarrow> False | Fail t \<Rightarrow> window B L p 0 t
      | Ret li t \<Rightarrow> window B L p (unat li - 6) t"
  proof (cases "tpdu_read_header len s")
    case (Ret x t)
    obtain code li where x: "x = (code, li)" by (cases x)
    show ?thesis
    proof (cases "code = X224_TPDU_CONNECTION_CONFIRM")
      case True
      with Ret x w have "pointer t = pointer s + 7" by (auto intro: tpdu_header_length)
      with Ret x True r wrapped_rest [of li] show ?thesis
        by (auto simp: tpdu_read_connection_confirm_def bindp_def Stream_GetPosition_def Let_def
            stream_defs window_def)
    qed (use r in \<open>simp add: Ret x tpdu_read_connection_confirm_def bindp_def Stream_GetPosition_def\<close>)
  qed (use r in \<open>simp_all add: tpdu_read_connection_confirm_def bindp_def Stream_GetPosition_def\<close>)
qed

lemma handler_reads_connection_confirm:
  "(\<And>li. handler_reads (unat li - 6) (k li)) \<Longrightarrow>
     handler_reads 0 (bindp (on_stream (tpdu_read_connection_confirm len)) k)"
  by (rule handler_reads_step [OF connection_confirm_window])

lemma handler_reads_check_or_fail [handler_reads_intros]:
  assumes "handler_reads c (k ())"
  shows "handler_reads n (bindp (check_or_fail c) k)"
  unfolding handler_reads_def
proof (intro allI, rule triple_bindp)
  fix B L p
  show "triple (\<lambda>(_, s). window B L p n s) (check_or_fail c) (\<lambda>_ (_, s). window B L p c s) (\<lambda>(_, s). window B L p 0 s)"
    by (auto simp: check_or_fail_def triple_def window_def stream_defs bindp_def)
  show "triple (\<lambda>(_, s). window B L p c s) (k x) (\<lambda>_ (_, s). window B L p 0 s) (\<lambda>(_, s). window B L p 0 s)" for x
    using assms by (simp add: handler_reads_def)
qed

lemma response_reads: "handler_reads n nego_process_negotiation_response"
proof -
  let ?rest = "bindp (on_stream Stream_Read_UINT16) (\<lambda>len.
           if len \<noteq> 8 then bindp (on_state (nego_set_state NEGO_STATE_FAIL)) (\<lambda>_. fail)
           else
             bindp (on_stream Stream_Read_UINT32) (\<lambda>p.
             on_state (\<lambda>n. nego_set_state NEGO_STATE_FINAL (nego_set_selected_protocol p n))))
     :: (unit, 'a) nego_handler"
  have "handler_reads 6 ?rest" by (intro handler_reads_intros) simp_all
  then have "handler_reads 6 (\<lambda>(nego, s).
       if flags AND RESTRICTED_ADMIN_MODE_SUPPORTED = 0 \<and> RestrictedAdminModeRequired nego then Ret () (nego, s)
       else if flags AND REDIRECTED_AUTHENTICATION_MODE_SUPPORTED = 0 \<and> RemoteCredsGuardRequired nego
       then Ret () (nego, s) else ?rest (nego, s))" for flags :: u8
    unfolding handler_reads_def triple_def by (auto intro: window_mono)
  then show ?thesis
    unfolding nego_process_negotiation_response_def
    by (intro handler_reads_intros) simp_all
qed

lemma failure_reads: "handler_reads n nego_process_negotiation_failure"
  unfolding nego_process_negotiation_failure_def by (intro handler_reads_intros) simp_all

lemma nego_recv_ok: "handler_ok nego_recv"
  unfolding nego_recv_def handler_reads_0
proof (rule handler_reads_call [OF reads_tpkt_header], rule handler_reads_connection_confirm)
  fix len :: u16 and li :: u8
  let ?k = "if li > 6 then
         bindp (on_stream Stream_Read_UINT8) (\<lambda>type.
           if type = TYPE_RDP_NEG_RSP then
             bindp nego_process_negotiation_response (\<lambda>_. on_state check_selected)
           else if type = TYPE_RDP_NEG_FAILURE then nego_process_negotiation_failure
           else fail)
       else if li = 6 then
         on_state (\<lambda>n. nego_set_state (if \<not> enabled PROTOCOL_RDP n then NEGO_STATE_FAIL else NEGO_STATE_FINAL) n)
       else on_state (nego_set_state NEGO_STATE_FAIL) :: (unit, 'a) nego_handler"
  have "handler_reads (unat li - 6) ?k"
  proof (intro handler_reads_if)
    assume "li > 6"
    then have "1 \<le> unat li - 6" by (simp add: word_less_nat_alt)
    then show "handler_reads (unat li - 6) (bindp (on_stream Stream_Read_UINT8) (\<lambda>type.
           if type = TYPE_RDP_NEG_RSP then
             bindp nego_process_negotiation_response (\<lambda>_. on_state check_selected)
           else if type = TYPE_RDP_NEG_FAILURE then nego_process_negotiation_failure
           else fail) :: (unit, 'a) nego_handler)"
      by (intro handler_reads_intros handler_reads_bindp [OF response_reads] failure_reads)
  qed (rule handler_reads_intros)+
  then show "handler_reads (unat li - 6) (bindp ?k (\<lambda>_. on_stream (tpkt_ensure_stream_consumed (unat len))))"
    by (rule handler_reads_bindp) (rule handler_reads_on_stream [OF reads_ensure_consumed])
qed
section \<open>The negotiation ends\<close>

text \<open>A check that has passed, and a read that has returned.\<close>

lemma check_Ret: "Stream_CheckAndLogRequiredLength n s = Ret x t \<Longrightarrow> t = s \<and> pointer s + n \<le> slength s"
  by (auto simp: stream_defs bindp_def split: if_splits)

lemma read_u8_Ret: "Stream_Read_UINT8 s = Ret x t \<Longrightarrow> pointer t = pointer s + 1 \<and> slength t = slength s"
  by (auto simp: stream_defs bindp_def stream_read_u8_def stream_read_def Let_def split: if_splits)

lemma on_stream_Ret: "on_stream m (c, s) = Ret x (c', t) \<longleftrightarrow> c' = c \<and> m s = Ret x t"
  by (auto simp: on_stream_def split: outcome.splits)

lemma check_or_fail_Ret: "check_or_fail n (c, s) = Ret x (c', t) \<longleftrightarrow> c' = c \<and> Stream_CheckAndLogRequiredLength n s = Ret x t"
  by (auto simp: check_or_fail_def split: outcome.splits)

lemma on_state_apply [simp]: "on_state f (c, s) = Ret () (f c, s)"
  by (simp add: on_state_def)

lemma on_state_bindp: "bindp (on_state f) k (c, s) = k () (f c, s)"
  by (simp add: bindp_def)

lemma nego_upd_sel [simp]:
  "nego_state (nego_set_state st n) = st" "EnabledProtocols (nego_set_state st n) = EnabledProtocols n"
  "SelectedProtocol (nego_set_state st n) = SelectedProtocol n"
  "nego_state (nego_set_selected_protocol p n) = nego_state n"
  "SelectedProtocol (nego_set_selected_protocol p n) = p"
  "EnabledProtocols (nego_set_selected_protocol p n) = EnabledProtocols n"
  "enabled p (nego_set_state st n) = enabled p n" "enabled p (nego_set_selected_protocol q n) = enabled p n"
  by (simp_all add: nego_set_state_def nego_set_selected_protocol_def enabled_def)

lemma response_Ret:
  assumes r: "nego_process_negotiation_response (n, s) = Ret x (m, t)"
  shows "EnabledProtocols m = EnabledProtocols n"
    and "nego_state m = NEGO_STATE_FINAL \<or> pointer t < slength t"
proof -
  from r obtain s1 flags s2 where
    s1: "Stream_CheckAndLogRequiredLength 7 s = Ret () s1" and s2: "Stream_Read_UINT8 s1 = Ret flags s2" and
    rest: "(let n' = n\<lparr>nego_flags := ucast flags\<rparr> in
       if flags AND RESTRICTED_ADMIN_MODE_SUPPORTED = 0 \<and> RestrictedAdminModeRequired n' then Ret () (n', s2)
       else if flags AND REDIRECTED_AUTHENTICATION_MODE_SUPPORTED = 0 \<and> RemoteCredsGuardRequired n'
       then Ret () (n', s2)
       else bindp (on_stream Stream_Read_UINT16) (\<lambda>len.
           if len \<noteq> 8 then bindp (on_state (nego_set_state NEGO_STATE_FAIL)) (\<lambda>_. fail)
           else bindp (on_stream Stream_Read_UINT32) (\<lambda>p.
             on_state (\<lambda>n. nego_set_state NEGO_STATE_FINAL (nego_set_selected_protocol p n)))) (n', s2)) = Ret x (m, t)"
    unfolding nego_process_negotiation_response_def
    by (elim bindp_RetE) (auto simp: on_stream_Ret check_or_fail_Ret on_state_bindp Let_def)
  have left: "pointer s2 < slength s2"
    using check_Ret [OF s1] read_u8_Ret [OF s2] by auto
  from rest have "EnabledProtocols m = EnabledProtocols n \<and> (nego_state m = NEGO_STATE_FINAL \<or> pointer t < slength t)"
    using left by (auto simp: Let_def on_stream_Ret on_state_bindp split: if_splits elim!: bindp_RetE)
  then show "EnabledProtocols m = EnabledProtocols n"
    and "nego_state m = NEGO_STATE_FINAL \<or> pointer t < slength t" by simp_all
qed

text \<open>Protocols are only ever taken out of the enabled ones.\<close>

definition narrows :: "'t rdpNego \<Rightarrow> 't rdpNego \<Rightarrow> bool" where
  "narrows n m \<longleftrightarrow> (\<forall>i. EnabledProtocols m i \<longrightarrow> EnabledProtocols n i)"

text \<open>What an answer that was accepted leaves selected: an enabled protocol, or what was selected
  before if the server answered without one and the standard security of RDP is enabled.\<close>

definition agreed :: "'t rdpNego \<Rightarrow> 't rdpNego \<Rightarrow> bool" where
  "agreed n m \<longleftrightarrow>
     SelectedProtocol m \<in> set negotiable \<and> enabled (SelectedProtocol m) m \<or>
     SelectedProtocol m = SelectedProtocol n \<and> enabled PROTOCOL_RDP m"

lemma ensure_consumed_Ret: "tpkt_ensure_stream_consumed len s = Ret x t \<Longrightarrow> t = s \<and> pointer s = slength s"
  by (auto simp: tpkt_ensure_stream_consumed_def stream_defs bindp_def split: if_splits)

lemma check_selected_state:
  "EnabledProtocols (check_selected n) = EnabledProtocols n"
  "SelectedProtocol (check_selected n) = SelectedProtocol n"
  "nego_state (check_selected n) = nego_state n \<and> SelectedProtocol n \<in> set negotiable \<and> enabled (SelectedProtocol n) n
     \<or> nego_state (check_selected n) = NEGO_STATE_FAIL"
  by (auto simp: check_selected_def Let_def negotiable_def nego_consts)

lemma failure_Ret:
  assumes "nego_process_negotiation_failure (n, s) = Ret x (m, t)"
  shows "narrows n m" and "nego_state m = NEGO_STATE_FAIL"
proof -
  from assms obtain code where m: "m = nego_set_state NEGO_STATE_FAIL (failure_update code n)"
    unfolding nego_process_negotiation_failure_def
    by (elim bindp_RetE) (auto simp: on_stream_Ret split: if_splits)
  show "narrows n m"
    by (auto simp: m narrows_def failure_update_def nego_disable_all_except_def Let_def split: if_splits)
  show "nego_state m = NEGO_STATE_FAIL" by (simp add: m)
qed

lemma nego_recv_Ret:
  assumes r: "nego_recv (n, s) = Ret x (m, t)"
  shows "narrows n m" and "nego_state m = NEGO_STATE_FAIL \<or> nego_state m = NEGO_STATE_FINAL \<and> agreed n m"
proof -
  from r obtain li :: u8 and s1 t1 y where step:
    "(if li > 6 then
         bindp (on_stream Stream_Read_UINT8) (\<lambda>type.
           if type = TYPE_RDP_NEG_RSP then
             bindp nego_process_negotiation_response (\<lambda>_. on_state check_selected)
           else if type = TYPE_RDP_NEG_FAILURE then nego_process_negotiation_failure
           else fail)
       else if li = 6 then
         on_state (\<lambda>n. nego_set_state (if \<not> enabled PROTOCOL_RDP n then NEGO_STATE_FAIL else NEGO_STATE_FINAL) n)
       else on_state (nego_set_state NEGO_STATE_FAIL)) (n, s1) = Ret y (m, t1)"
    and e: "pointer t1 = slength t1"
    unfolding nego_recv_def
    by (elim bindp_RetE, clarsimp simp: on_stream_Ret split del: if_split)
       (drule ensure_consumed_Ret, rule that, assumption, simp)
  consider (response) s2 k where "nego_process_negotiation_response (n, s2) = Ret () (k, t1)" "m = check_selected k"
    | (failure) s2 where "nego_process_negotiation_failure (n, s2) = Ret y (m, t1)"
    | (bare) "m = nego_set_state (if \<not> enabled PROTOCOL_RDP n then NEGO_STATE_FAIL else NEGO_STATE_FINAL) n"
    | (short) "m = nego_set_state NEGO_STATE_FAIL n"
    using step by (auto split: if_splits elim!: bindp_RetE simp: on_stream_Ret)
  then have "narrows n m \<and> (nego_state m = NEGO_STATE_FAIL \<or> nego_state m = NEGO_STATE_FINAL \<and> agreed n m)"
  proof cases
    case response
    with response_Ret [OF response(1)] check_selected_state [of k] e show ?thesis
      by (auto simp: narrows_def agreed_def enabled_def)
  next
    case failure
    with failure_Ret [OF failure] show ?thesis by simp
  qed (auto simp: narrows_def agreed_def)
  then show "narrows n m" and "nego_state m = NEGO_STATE_FAIL \<or> nego_state m = NEGO_STATE_FINAL \<and> agreed n m"
    by simp_all
qed

subsection \<open>What the transport does not touch\<close>

text \<open>\<open>kept f k r\<close>: a run that ended in \<open>r\<close> left a state whose part \<open>f\<close> is \<open>k\<close>.\<close>

definition kept :: "('s \<Rightarrow> 'k) \<Rightarrow> 'k \<Rightarrow> ('a, 's) outcome \<Rightarrow> bool" where
  "kept f k r \<longleftrightarrow> (case r of Abort \<Rightarrow> True | Fail t \<Rightarrow> f t = k | Ret _ t \<Rightarrow> f t = k)"

named_theorems kept_intros "runs that leave a part of the state as it is"

lemma keptD: "kept f k (Ret x t) \<Longrightarrow> f t = k" "kept f k (Fail t) \<Longrightarrow> f t = k"
  by (simp_all add: kept_def)

lemma kept_bindp [kept_intros]:
  assumes "kept f k (m s)" and "\<And>x t. f t = k \<Longrightarrow> kept f k (c x t)"
  shows "kept f k (bindp m c s)"
  using assms by (cases "m s") (simp_all add: kept_def)

lemma kept_if [kept_intros]: "(b \<Longrightarrow> kept f k r) \<Longrightarrow> (\<not> b \<Longrightarrow> kept f k r') \<Longrightarrow> kept f k (if b then r else r')"
  by simp

lemma kept_if_fun [kept_intros]: "(b \<Longrightarrow> kept f k (m s)) \<Longrightarrow> (\<not> b \<Longrightarrow> kept f k (m' s)) \<Longrightarrow> kept f k ((if b then m else m') s)"
  by simp

lemma kept_basic [kept_intros]:
  "f s = k \<Longrightarrow> kept f k (Ret x s)" "f s = k \<Longrightarrow> kept f k (Fail s)" "kept f k Abort"
  "f s = k \<Longrightarrow> kept f k (require b s)"
  by (simp_all add: kept_def)

definition agreement :: "'t rdpNego \<Rightarrow> (nat \<Rightarrow> bool) \<times> u32 \<times> NEGO_STATE \<times> bool" where
  "agreement n = (EnabledProtocols n, SelectedProtocol n, nego_state n, NegotiateSecurityLayer n)"

lemma kept_net [kept_intros]:
  "agreement n = k \<Longrightarrow> kept agreement k (on_net g n)"
  "agreement n = k \<Longrightarrow> kept agreement k (upd_net h n)"
  "agreement (u n) = k \<Longrightarrow> kept agreement k (upd_nego u n)"
  by (simp_all add: kept_def agreement_def on_net_def upd_net_def upd_nego_def split_beta Let_def)

lemma agreement_upd [simp]:
  "agreement (n\<lparr>TcpConnected := b\<rparr>) = agreement n" "agreement (n\<lparr>SecurityConnected := b\<rparr>) = agreement n"
  "agreement (n\<lparr>RequestedProtocols := p\<rparr>) = agreement n"
  by (simp_all add: agreement_def)

lemma kept_tcp_result [kept_intros]: "agreement n = k \<Longrightarrow> kept agreement k (tcp_result g n)"
  unfolding tcp_result_def by (intro kept_intros) simp_all

lemma kept_security_result [kept_intros]: "agreement n = k \<Longrightarrow> kept agreement k (security_result g n)"
  unfolding security_result_def by (intro kept_intros) simp_all

lemma kept_tcp_connect [kept_intros]: "agreement n = k \<Longrightarrow> kept agreement k (nego_tcp_connect T n)"
  unfolding nego_tcp_connect_def Let_def by (intro kept_intros)

lemma kept_security_connect [kept_intros]: "agreement n = k \<Longrightarrow> kept agreement k (nego_security_connect T n)"
  unfolding nego_security_connect_def nego_try_connect_def Let_def by (intro kept_intros) simp_all

lemma kept_transport [kept_intros]:
  "agreement n = k \<Longrightarrow> kept agreement k (nego_transport_connect T n)"
  "agreement n = k \<Longrightarrow> kept agreement k (nego_transport_disconnect T n)"
  unfolding nego_transport_connect_def nego_transport_disconnect_def by (intro kept_intros; simp)+

lemma kept_send_pdu [kept_intros]: "agreement n = k \<Longrightarrow> kept agreement k (send_pdu T l body n)"
  unfolding send_pdu_def by (auto split: option.split outcome.split intro!: kept_intros)

lemma kept_send_request [kept_intros]: "agreement n = k \<Longrightarrow> kept agreement k (nego_send_negotiation_request T n)"
  unfolding nego_send_negotiation_request_def by (intro kept_intros)

lemma kept_preconnection [kept_intros]: "agreement n = k \<Longrightarrow> kept agreement k (nego_send_preconnection_pdu T n)"
  unfolding nego_send_preconnection_pdu_def Let_def split_beta by (intro kept_intros)

subsection \<open>One attempt\<close>

lemma narrows_refl: "narrows n n" by (simp add: narrows_def)

lemma narrows_trans: "narrows n m \<Longrightarrow> narrows m l \<Longrightarrow> narrows n l" by (simp add: narrows_def)

lemma recv_response_Ret:
  assumes "nego_recv_response T n = Ret x m"
  shows "narrows n m" and "nego_state m = NEGO_STATE_FAIL \<or> nego_state m = NEGO_STATE_FINAL \<and> agreed n m"
proof -
  from assms obtain s t y u where r: "nego_recv (n\<lparr>net_state := u\<rparr>, s) = Ret y (m, t)"
    unfolding nego_recv_response_def
    by (auto simp: on_net_def bindp_def split: option.splits prod.splits if_splits outcome.splits)
  from nego_recv_Ret [OF r] show "narrows n m"
    and "nego_state m = NEGO_STATE_FAIL \<or> nego_state m = NEGO_STATE_FINAL \<and> agreed n m"
    by (auto simp: narrows_def agreed_def)
qed

lemma attempt_asks:
  assumes "bindp (upd_nego (\<lambda>n. n\<lparr>RequestedProtocols := p\<rparr>)) (\<lambda>_.
           bindp (nego_transport_connect T) (\<lambda>_.
           bindp (nego_send_negotiation_request T) (\<lambda>_. nego_recv_response T))) n = Ret x m"
  shows "narrows n m" and "nego_state m = NEGO_STATE_FAIL \<or> nego_state m = NEGO_STATE_FINAL \<and> agreed n m"
proof -
  from assms obtain n1 n2 y where
    1: "nego_transport_connect T (n\<lparr>RequestedProtocols := p\<rparr>) = Ret () n1" and
    2: "nego_send_negotiation_request T n1 = Ret () n2" and r: "nego_recv_response T n2 = Ret y m"
    by (auto elim!: bindp_RetE simp: upd_nego_def)
  have "agreement n2 = agreement n"
    using kept_transport(1) [OF refl, of "n\<lparr>RequestedProtocols := p\<rparr>" T] kept_send_request [OF refl, of n1 T]
    by (simp add: 1 2 kept_def)
  with recv_response_Ret [OF r] show "narrows n m"
    and "nego_state m = NEGO_STATE_FAIL \<or> nego_state m = NEGO_STATE_FINAL \<and> agreed n m"
    by (auto simp: agreement_def narrows_def agreed_def)
qed


lemma transport_disconnect_Ret:
  "\<exists>m. nego_transport_disconnect T n = Ret () m \<and> agreement m = agreement n"
  unfolding nego_transport_disconnect_def
  by (auto simp: bindp_def upd_net_def upd_nego_def agreement_def)

lemma enabled_agreement: "agreement n = agreement m \<Longrightarrow> enabled p n = enabled p m"
  by (simp add: agreement_def enabled_def)

lemma first_enabled_cong: "EnabledProtocols n = EnabledProtocols m \<Longrightarrow> first_enabled ps n = first_enabled ps m"
  by (induction ps n rule: first_enabled.induct) (auto simp: enabled_def)

text \<open>Where an attempt may lead: it has failed, or the protocols were agreed on, or the next
  attempt is chosen from \<open>ps\<close>.\<close>

lemma attempt_Ret:
  assumes r: "attempt T p (Some (first_enabled ps)) n = Ret x m"
  shows "nego_state m = NEGO_STATE_FAIL \<or>
    narrows n m \<and> (nego_state m = NEGO_STATE_FINAL \<and> agreed n m \<or> nego_state m = first_enabled ps m)"
proof (cases "bindp (upd_nego (\<lambda>n. n\<lparr>RequestedProtocols := p\<rparr>)) (\<lambda>_.
           bindp (nego_transport_connect T) (\<lambda>_.
           bindp (nego_send_negotiation_request T) (\<lambda>_. nego_recv_response T))) n")
  case (Ret y k)
  note k = attempt_asks [OF Ret]
  show ?thesis
  proof (cases "nego_state k = NEGO_STATE_FINAL")
    case True
    with r Ret k show ?thesis by (auto simp: attempt_def nego_get_state_def)
  next
    case False
    obtain l where l: "nego_transport_disconnect T k = Ret () l" "agreement l = agreement k"
      using transport_disconnect_Ret by blast
    with r Ret False have m: "m = nego_set_state (first_enabled ps l) l"
      by (simp add: attempt_def nego_get_state_def upd_nego_def)
    from k(1) l(2) have "narrows n m" by (simp add: m narrows_def agreement_def)
    moreover have "nego_state m = first_enabled ps m"
      by (simp add: m) (rule first_enabled_cong, simp)
    ultimately show ?thesis by blast
  qed
qed (use r in \<open>auto simp: attempt_def\<close>)

lemma attempt_rdp_Ret:
  assumes r: "nego_attempt_rdp T n = Ret x m"
  shows "nego_state m = NEGO_STATE_FAIL \<or> narrows n m \<and> nego_state m = NEGO_STATE_FINAL \<and> agreed n m"
proof (cases "bindp (upd_nego (\<lambda>n. n\<lparr>RequestedProtocols := PROTOCOL_RDP\<rparr>)) (\<lambda>_.
           bindp (nego_transport_connect T) (\<lambda>_.
           bindp (nego_send_negotiation_request T) (\<lambda>_. nego_recv_response T))) n")
  case (Ret y k)
  with r attempt_asks [OF Ret] show ?thesis by (auto simp: nego_attempt_rdp_def attempt_def)
qed (use r in \<open>auto simp: nego_attempt_rdp_def attempt_def\<close>)

subsection \<open>The loop\<close>

text \<open>Every attempt that is not the last one is followed by an attempt with a weaker protocol.\<close>

primrec strength :: "NEGO_STATE \<Rightarrow> nat" where
  "strength NEGO_STATE_AAD = 5"
| "strength NEGO_STATE_RDSTLS = 5"
| "strength NEGO_STATE_EXT = 4"
| "strength NEGO_STATE_NLA = 3"
| "strength NEGO_STATE_TLS = 2"
| "strength NEGO_STATE_RDP = 1"
| "strength NEGO_STATE_INITIAL = 0"
| "strength NEGO_STATE_FAIL = 0"
| "strength NEGO_STATE_FINAL = 0"

text \<open>The number of attempts that may still come.\<close>

definition settled :: "'t rdpNego \<Rightarrow> 't rdpNego \<Rightarrow> bool" where
  "settled n m \<longleftrightarrow> nego_state m = NEGO_STATE_FAIL \<or>
     narrows n m \<and> (nego_state m = NEGO_STATE_FINAL \<and> agreed n m \<or>
       0 < strength (nego_state m) \<and> strength (nego_state m) < strength (nego_state n))"

lemma first_enabled_mem: "first_enabled ps n = NEGO_STATE_FAIL \<or> first_enabled ps n \<in> snd ` set ps"
  by (induction ps n rule: first_enabled.induct) auto

lemma attempt_settled:
  assumes "attempt T p (Some (first_enabled ps)) n = Ret x m"
    and "\<forall>st \<in> snd ` set ps. 0 < strength st \<and> strength st < strength (nego_state n)"
  shows "settled n m"
  using attempt_Ret [OF assms(1)] first_enabled_mem [of ps m] assms(2) unfolding settled_def by metis

lemma nego_send_Ret:
  assumes r: "nego_send T n = Ret x m" and active: "0 < strength (nego_state n)"
  shows "settled n m"
proof (cases "nego_state n")
  case NEGO_STATE_RDP
  with r attempt_rdp_Ret [of T n x m] show ?thesis
    by (auto simp: nego_send_def nego_get_state_def settled_def)
qed (use r active in \<open>simp_all add: nego_send_def nego_get_state_def nego_attempt_rdsaad_def nego_attempt_rdstls_def
      nego_attempt_ext_def nego_attempt_nla_def nego_attempt_tls_def\<close>; erule attempt_settled, simp)+

lemma nego_loop_returns:
  "0 < strength (nego_state n) \<Longrightarrow> \<exists>r. nego_loop T n = Some r"
proof (induction "strength (nego_state n)" arbitrary: n rule: less_induct)
  case less
  show ?case
  proof (cases "nego_send T n")
    case (Ret x m)
    from nego_send_Ret [OF Ret less.prems] less.hyps [of m] Ret show ?thesis
      by (subst nego_loop.simps) (auto simp: nego_get_state_def settled_def)
  qed (subst nego_loop.simps, simp)+
qed

lemma agreed_no_rdp:
  "agreed n m \<Longrightarrow> \<not> enabled PROTOCOL_RDP m \<Longrightarrow> SelectedProtocol m \<in> set negotiable \<and> enabled (SelectedProtocol m) m"
  by (simp add: agreed_def)

lemma narrows_enabled: "narrows n m \<Longrightarrow> enabled p m \<Longrightarrow> enabled p n"
  by (simp add: narrows_def enabled_def)

lemma nego_loop_selects:
  assumes "nego_loop T n = Some (Ret x m)" and "0 < strength (nego_state n)" and "\<not> enabled PROTOCOL_RDP n"
  shows "SelectedProtocol m \<in> set negotiable \<and> enabled (SelectedProtocol m) n"
  using assms
proof (induction "strength (nego_state n)" arbitrary: n rule: less_induct)
  case less
  show ?case
  proof (cases "nego_send T n")
    case (Ret y k)
    note k = nego_send_Ret [OF Ret less.prems(2)]
    from less.prems(1) Ret have loop: "nego_state k \<noteq> NEGO_STATE_FAIL"
      "if nego_state k = NEGO_STATE_FINAL then m = k else nego_loop T k = Some (Ret x m)"
      by (subst (asm) nego_loop.simps, simp add: nego_get_state_def split: if_splits)+
    show ?thesis
    proof (cases "nego_state k = NEGO_STATE_FINAL")
      case True
      with k loop have "m = k" "narrows n m" "agreed n m" by (auto simp: settled_def)
      with less.prems(3) show ?thesis
        using agreed_no_rdp [of n m] narrows_enabled [of n m] by blast
    next
      case False
      with k loop have l: "nego_loop T k = Some (Ret x m)" "narrows n k"
        "0 < strength (nego_state k)" "strength (nego_state k) < strength (nego_state n)"
        by (auto simp: settled_def)
      with less.prems(3) have "\<not> enabled PROTOCOL_RDP k" using narrows_enabled by blast
      with less.hyps [OF l(4) l(1) l(3)] show ?thesis using narrows_enabled [OF l(2)] by blast
    qed
  qed (use less.prems(1) in \<open>subst (asm) nego_loop.simps, simp\<close>)+
qed

subsection \<open>The connection\<close>

lemma initial_state_cases:
  "initial_state n = NEGO_STATE_FAIL \<or> 0 < strength (initial_state n)"
  using first_enabled_mem [of _ n] by (auto simp: initial_state_def)

lemma enable_state [simp]: "nego_state (enable p b n) = nego_state n"
  by (simp add: enable_def)

lemma fold_enable_state: "nego_state (fold (\<lambda>p. enable p b) ps n) = nego_state n"
  by (induction ps arbitrary: n) simp_all

lemma select_highest_state: "select_highest n = Ret x m \<Longrightarrow> nego_state m = nego_state n"
  by (auto simp: select_highest_def Let_def fold_enable_state nego_get_state_def split: NEGO_STATE.splits)

lemma nego_start_state:
  assumes "nego_start T n = Ret x m" and "nego_state n = NEGO_STATE_INITIAL"
  shows "0 < strength (nego_state m)"
    and "NegotiateSecurityLayer n \<Longrightarrow> EnabledProtocols m = EnabledProtocols n \<and> NegotiateSecurityLayer m"
proof -
  let ?n = "nego_set_state (initial_state n) n"
  from assms initial_state_cases [of n] have st: "0 < strength (nego_state ?n)"
    by (auto simp: nego_start_def nego_get_state_def upd_nego_def bindp_def)
  from assms st obtain k1 k2 y where
    1: "(if \<not> NegotiateSecurityLayer ?n then select_highest else ret ()) ?n = Ret () k1" and
    2: "nego_tcp_connect T k1 = Ret () k2" and
    3: "(if SendPreconnectionPdu k2 then
            (case nego_send_preconnection_pdu T k2 of
               Fail m \<Rightarrow> Fail (nego_set_state NEGO_STATE_FINAL m)
             | r \<Rightarrow> r) else Ret () k2) = Ret y m"
    by (auto simp: nego_start_def nego_get_state_def upd_nego_def elim!: bindp_RetE split: if_splits)
  have k1: "nego_state k1 = nego_state ?n"
    using 1 by (auto split: if_splits dest: select_highest_state)
  have "agreement k2 = agreement k1"
    using kept_tcp_connect [OF refl, of k1 T] by (simp add: 2 kept_def)
  moreover have "agreement m = agreement k2"
    using kept_preconnection [OF refl, of k2 T] 3
    by (auto simp: kept_def split: if_splits outcome.splits)
  ultimately have a: "agreement m = agreement k1" by simp
  with k1 st show "0 < strength (nego_state m)" by (simp add: agreement_def)
  show "EnabledProtocols m = EnabledProtocols n \<and> NegotiateSecurityLayer m" if "NegotiateSecurityLayer n"
    using 1 a that by (auto simp: agreement_def nego_set_state_def)
qed

lemma nego_start_other: "nego_state n \<noteq> NEGO_STATE_INITIAL \<Longrightarrow> nego_start T n = Ret () n"
  by (simp add: nego_start_def nego_get_state_def)

lemma nego_loop_settled:
  "nego_state n = NEGO_STATE_FAIL \<or> nego_state n = NEGO_STATE_FINAL \<Longrightarrow> \<exists>r. nego_loop T n = Some r"
  by (subst nego_loop.simps) (auto simp: nego_send_def nego_get_state_def)

lemma strength_zero: "strength st = 0 \<longleftrightarrow> st \<in> {NEGO_STATE_INITIAL, NEGO_STATE_FAIL, NEGO_STATE_FINAL}"
  by (cases st) simp_all

lemma started_loop_returns: "nego_state n \<noteq> NEGO_STATE_INITIAL \<Longrightarrow> \<exists>r. nego_loop T n = Some r"
  using nego_loop_returns [of n T] nego_loop_settled [of n T] strength_zero [of "nego_state n"] by auto

lemma nego_start_not_initial: "nego_start T n = Ret x m \<Longrightarrow> nego_state m \<noteq> NEGO_STATE_INITIAL"
  using nego_start_state(1) [of T n x m] nego_start_other [of n T]
  by (cases "nego_state n = NEGO_STATE_INITIAL") auto

lemma nego_connect_defined: "\<exists>r. nego_connect T n = Some r"
proof (cases "nego_start T n")
  case (Ret x m)
  from started_loop_returns [OF nego_start_not_initial [OF Ret]] obtain r where "nego_loop T m = Some r" ..
  with Ret show ?thesis by (simp add: nego_connect_def Let_def split: outcome.split)
qed (simp_all add: nego_connect_def Let_def)

lemma security_result_Ret: "security_result g n = Ret x m \<Longrightarrow> SecurityConnected m"
  by (auto simp: security_result_def bindp_def on_net_def upd_nego_def Let_def split: prod.splits if_splits)

lemma security_connect_Ret: "nego_security_connect T n = Ret x m \<Longrightarrow> SecurityConnected m"
  by (auto simp: nego_security_connect_def nego_try_connect_def Let_def split: if_splits dest: security_result_Ret)

lemma nego_connect_selected:
  assumes r: "nego_connect T n = Some (Ret x m)" and init: "nego_state n = NEGO_STATE_INITIAL"
    and neg: "NegotiateSecurityLayer n" and rdp: "\<not> enabled PROTOCOL_RDP n"
  shows "SelectedProtocol m \<in> set negotiable \<and> enabled (SelectedProtocol m) n \<and> SecurityConnected m"
proof -
  obtain y k where k: "nego_start T n = Ret y k"
    using r by (cases "nego_start T n") (simp_all add: nego_connect_def Let_def)
  note st = nego_start_state(1) [OF k init] nego_start_state(2) [OF k init neg]
  obtain z l where l: "nego_loop T k = Some (Ret z l)" and
    fin: "bindp nego_update_settings_from_state (\<lambda>_.
            bindp (upd_nego use_rdp_security) (\<lambda>_. nego_security_connect T)) l = Ret x m"
    using r st by (auto simp: nego_connect_def Let_def k split: option.splits outcome.splits)
  obtain l' where l': "nego_security_connect T l' = Ret x m" "agreement l' = agreement l"
    using fin by (auto simp: nego_update_settings_from_state_def upd_nego_def use_rdp_security_def
        agreement_def elim!: bindp_RetE split: if_splits)
  have "agreement m = agreement l"
    using kept_security_connect [OF l'(2), of T] by (simp add: l'(1) kept_def)
  moreover have "SelectedProtocol l \<in> set negotiable \<and> enabled (SelectedProtocol l) k"
    using nego_loop_selects [OF l st(1)] rdp st(2) by (simp add: enabled_def)
  ultimately show ?thesis
    using security_connect_Ret [OF l'(1)] st(2) by (simp add: agreement_def enabled_def)
qed

end
