(* ===== verification/NegoWire.thy ===== *)
theory NegoWire
  imports NegoFacts
begin

text \<open>
  The messages of the negotiation on the wire: the bytes a client sends and what a server reads
  from them, and the bytes of the answer and what the client makes of it.
\<close>

unbundle bit_operations_syntax

section \<open>The bytes of the request\<close>

definition token_bytes :: "'t rdpNego \<Rightarrow> u8 list" where
  "token_bytes nego =
     (case RoutingToken nego of
        Some token \<Rightarrow> token @ (if length token > 2 \<and> drop (length token - 2) token = crlf then [] else crlf)
      | None \<Rightarrow>
          (case cookie nego of
             None \<Rightarrow> []
           | Some c \<Rightarrow> cookie_prefix @ take (unat (CookieMaxLength nego)) c @ crlf))"

definition nego_req_bytes :: "'t rdpNego \<Rightarrow> u8 list" where
  "nego_req_bytes nego =
     (if RequestedProtocols nego > PROTOCOL_RDP \<or> sendNegoData nego
      then TYPE_RDP_NEG_REQ # request_flags nego # winpr_Data_Write_UINT16 8 @
        winpr_Data_Write_UINT32 (RequestedProtocols nego)
      else [])"

definition request_length :: "'t rdpNego \<Rightarrow> nat" where
  "request_length nego = TPDU_CONNECTION_REQUEST_LENGTH + length (token_bytes nego) + length (nego_req_bytes nego)"

definition enc_request :: "'t rdpNego \<Rightarrow> u8 list" where
  "enc_request nego =
     enc_tpkt (request_length nego) @ enc_tpdu (of_nat (request_length nego - 5)) X224_TPDU_CONNECTION_REQUEST @
     token_bytes nego @ nego_req_bytes nego"

lemma length_header [simp]: "length (enc_tpdu len X224_TPDU_CONNECTION_REQUEST) = 7"
  "length (enc_tpdu len X224_TPDU_CONNECTION_CONFIRM) = 7"
  by (simp_all add: enc_tpdu_def tpdu_codes)

lemma length_enc_request: "length (enc_request nego) = request_length nego"
  by (simp add: enc_request_def request_length_def TPKT_HEADER_LENGTH_def TPDU_CONNECTION_REQUEST_LENGTH_def)

lemma length_cookie_prefix [simp]: "length cookie_prefix = 17"
  by (simp add: cookie_prefix_def ascii_def)

lemma length_crlf [simp]: "length crlf = 2"
  by (simp add: crlf_def)

lemma emits_crlf: "emits (bindp (Stream_Write_UINT8_unchecked 0x0D) (\<lambda>_. Stream_Write_UINT8_unchecked 0x0A)) crlf ()"
  unfolding crlf_def by (intro emit_intros)

lemma emits_token: "emits (write_token_or_cookie nego) (token_bytes nego) ()"
proof (cases "RoutingToken nego")
  case (Some token)
  have "emits (if length token > 2 \<and> drop (length token - 2) token = crlf then ret ()
          else bindp (Stream_EnsureRemainingCapacity 2) (\<lambda>_.
               bindp (Stream_Write_UINT8_unchecked 0x0D) (\<lambda>_. Stream_Write_UINT8_unchecked 0x0A)))
     (if length token > 2 \<and> drop (length token - 2) token = crlf then [] else crlf) ()"
    by (simp add: emits_ret emits_ensure emits_crlf)
  with Some show ?thesis
    by (auto simp: write_token_or_cookie_def token_bytes_def bindp_ret
        intro!: emits_ensure emits_write_bindp emits_write emits_crlf)
next
  case None
  show ?thesis
  proof (cases "cookie nego")
    case None
    with \<open>RoutingToken nego = None\<close> show ?thesis by (simp add: write_token_or_cookie_def token_bytes_def emits_ret)
  next
    case (Some c)
    have "emits (bindp (Stream_EnsureRemainingCapacity 2) (\<lambda>_.
               bindp (Stream_Write_UINT8_unchecked 0x0D) (\<lambda>_. Stream_Write_UINT8_unchecked 0x0A))) crlf ()"
      by (simp add: emits_ensure emits_crlf)
    with \<open>RoutingToken nego = None\<close> Some show ?thesis
      by (auto simp: write_token_or_cookie_def token_bytes_def Let_def intro!: emits_ensure emits_write_bindp)
  qed
qed

lemma emits_nego_req: "emits (write_nego_request nego) (nego_req_bytes nego) ()"
  unfolding write_nego_request_def nego_req_bytes_def
  by (auto intro!: emit_intros)

lemma put_back:
  assumes "room (length (h @ bs)) s" and "length z = length h"
  shows "put h ((put (z @ bs) s)\<lparr>pointer := pointer s\<rparr>) = (put (h @ bs) s)\<lparr>pointer := pointer s + length h\<rparr>"
  using assms by (auto simp: put_def overwrite_def room_def Stream_Capacity_def)

lemma request_body_writes:
  assumes s: "pointer s = 0" and room: "room (request_length nego) s" and len: "request_length nego \<le> UINT16_MAX"
  shows "nego_request_body nego s =
    (if request_length nego \<le> 260 then Ret () ((put (enc_request nego) s)\<lparr>slength := request_length nego\<rparr>) else Abort)"
proof -
  let ?n = "request_length nego" and ?body = "token_bytes nego @ nego_req_bytes nego"
  let ?k = "\<lambda>_ :: unit. \<lambda>t.
        let em = Stream_GetPosition t in
        bindp (require (\<not> (em < 5 \<or> em > UINT16_MAX))) (\<lambda>_.
        bindp (Stream_SetPosition 0) (\<lambda>_.
        bindp (tpkt_write_header em) (\<lambda>_.
        bindp (tpdu_write_connection_request (of_nat em - 5)) (\<lambda>_.
        bindp (Stream_SetPosition em) (\<lambda>_. Stream_SealLength))))) t"
  have n: "?n = 11 + length ?body"
    by (simp add: request_length_def TPDU_CONNECTION_REQUEST_LENGTH_def)
  have "emits (bindp (Stream_SafeZero TPDU_CONNECTION_REQUEST_LENGTH) (\<lambda>_.
      bindp (write_token_or_cookie nego) (\<lambda>_. write_nego_request nego))) (replicate 11 0 @ ?body) ()"
    unfolding Stream_SafeZero_def bindp_assoc TPDU_CONNECTION_REQUEST_LENGTH_def
    by (intro emits_check emits_zero emits_bindp [OF emits_token] emits_nego_req) simp
  then have 1: "bindp (Stream_SafeZero TPDU_CONNECTION_REQUEST_LENGTH) (\<lambda>_.
      bindp (write_token_or_cookie nego) (\<lambda>_. write_nego_request nego)) s = Ret () (put (replicate 11 0 @ ?body) s)"
    using room by (intro emitsD) (simp_all add: n)
  have body: "nego_request_body nego s =
     bindp (bindp (Stream_SafeZero TPDU_CONNECTION_REQUEST_LENGTH) (\<lambda>_.
      bindp (write_token_or_cookie nego) (\<lambda>_. write_nego_request nego))) ?k s"
    by (simp add: nego_request_body_def bindp_assoc Stream_GetPosition_def s Let_def)
  let ?t = "put (replicate 11 0 @ ?body) s"
  have li: "unat (of_nat ?n - 5 :: u16) = ?n - 5"
  proof -
    have "(of_nat ?n - 5 :: u16) = of_nat (?n - 5)" using n by (simp add: of_nat_diff)
    then show ?thesis using len by (simp add: unat_of_nat take_bit_nat_eq_self UINT16_MAX_def)
  qed
  have hdr: "emits (tpkt_write_header ?n) (enc_tpkt ?n) ()"
    using emits_tpkt [OF len, of ret "[]" "()"] by (simp add: emits_ret bindp_ret)
  have t: "room 11 (?t\<lparr>pointer := 0\<rparr>)" "pointer ?t = ?n" "Stream_Capacity ?t = Stream_Capacity s"
    using room s by (simp_all add: n room_def Stream_Capacity_def put_def)
  have body1: "nego_request_body nego s = ?k () ?t" unfolding body using 1 by (rule bindp_Ret)
  let ?hdrs = "bindp (tpkt_write_header ?n) (\<lambda>_. tpdu_write_connection_request (of_nat ?n - 5))"
  have k: "?k () ?t = bindp ?hdrs (\<lambda>_. bindp (Stream_SetPosition ?n) (\<lambda>_. Stream_SealLength)) (?t\<lparr>pointer := 0\<rparr>)"
    using len t n by (simp add: bindp_assoc Stream_GetPosition_def Stream_SetPosition_def bindp_def [of "require _"]
        bindp_def [of "Stream_SetPosition 0"] Let_def)
  note body2 = trans [OF body1 k]
  show ?thesis
  proof (cases "?n \<le> 260")
    case True
    let ?h = "enc_tpkt ?n @ enc_tpdu (of_nat ?n - 5) X224_TPDU_CONNECTION_REQUEST"
    have h: "length ?h = 11" by (simp add: TPKT_HEADER_LENGTH_def)
    have "emits ?hdrs ?h ()"
      using True li emits_tpdu_header [of "of_nat ?n - 5" ret "[]" "()" X224_TPDU_CONNECTION_REQUEST]
      by (intro emits_bindp [OF hdr]) (simp add: tpdu_write_connection_request_def emits_ret bindp_ret)
    then have "?hdrs (?t\<lparr>pointer := 0\<rparr>) = Ret () (put ?h (?t\<lparr>pointer := 0\<rparr>))"
      using t(1) by (intro emitsD) (simp_all add: TPKT_HEADER_LENGTH_def)
    moreover have "put ?h (?t\<lparr>pointer := 0\<rparr>) = (put (enc_request nego) s)\<lparr>pointer := 11\<rparr>"
      using put_back [of ?h ?body s "replicate 11 0"] room s
      by (simp add: enc_request_def n of_nat_diff TPKT_HEADER_LENGTH_def)
    ultimately have h2: "?hdrs (?t\<lparr>pointer := 0\<rparr>) = Ret () ((put (enc_request nego) s)\<lparr>pointer := 11\<rparr>)" by simp
    have "bindp (Stream_SetPosition ?n) (\<lambda>_. Stream_SealLength) ((put (enc_request nego) s)\<lparr>pointer := 11\<rparr>) =
        Ret () ((put (enc_request nego) s)\<lparr>slength := ?n\<rparr>)"
      using room s by (simp add: bindp_def Stream_SetPosition_def Stream_SealLength_def length_enc_request room_def
          Stream_Capacity_def put_def)
    with True show ?thesis unfolding body2 bindp_Ret [where m = ?hdrs, OF h2] by simp
  next
    case False
    have "tpkt_write_header ?n (?t\<lparr>pointer := 0\<rparr>) = Ret () (put (enc_tpkt ?n) (?t\<lparr>pointer := 0\<rparr>))"
      using t(1) by (intro emitsD [OF hdr] room_less [OF t(1)]) (simp add: TPKT_HEADER_LENGTH_def)
    moreover have "tpdu_write_connection_request (of_nat ?n - 5) (put (enc_tpkt ?n) (?t\<lparr>pointer := 0\<rparr>)) = Abort"
    proof -
      have "room 7 (put (enc_tpkt ?n) (?t\<lparr>pointer := 0\<rparr>))"
        using room_put [of "enc_tpkt ?n" 7 "?t\<lparr>pointer := 0\<rparr>"] t(1) by (simp add: TPKT_HEADER_LENGTH_def)
      then show ?thesis using False li
        by (auto simp: tpdu_write_connection_request_def tpdu_write_header_def stream_defs bindp_def room_def)
    qed
    ultimately have "?hdrs (?t\<lparr>pointer := 0\<rparr>) = Abort" by simp
    with False show ?thesis unfolding body2 by simp
  qed
qed

text \<open>The stream that is handed to the transport, and what becomes of a request.\<close>

definition request_stream :: "'t rdpNego \<Rightarrow> wStream" where
  "request_stream nego =
     \<lparr>buffer = enc_request nego @ replicate (512 - request_length nego) 0, pointer = request_length nego,
      slength = request_length nego, isOwner = True, grants = grants_mem nego\<rparr>"

lemma nego_request_spec:
  assumes "grants_mem nego 512" and "request_length nego \<le> 512"
  shows "nego_send_negotiation_request T nego =
    (if request_length nego \<le> 260
     then bindp (on_net (net_write T (request_stream nego))) (\<lambda>status. require (status \<ge> 0)) nego
     else Abort)"
proof -
  let ?s = "\<lparr>buffer = replicate 512 0, pointer = 0, slength = 512, isOwner = True, grants = grants_mem nego\<rparr>"
  have room: "room (request_length nego) ?s"
    using assms(2) by (simp add: room_def Stream_Capacity_def SIZE_MAX_def)
  have "nego_request_body nego ?s = (if request_length nego \<le> 260
      then Ret () ((put (enc_request nego) ?s)\<lparr>slength := request_length nego\<rparr>) else Abort)"
    by (rule request_body_writes [OF _ room]) (use assms(2) in \<open>simp_all add: UINT16_MAX_def\<close>)
  moreover have "(put (enc_request nego) ?s)\<lparr>slength := request_length nego\<rparr> = request_stream nego"
    by (simp add: put_def overwrite_def request_stream_def length_enc_request)
  moreover have "Stream_New (grants_mem nego) 512 = Some ?s"
    using assms(1) by (simp add: Stream_New_def)
  ultimately show ?thesis
    by (simp add: nego_send_negotiation_request_def send_pdu_def)
qed

section \<open>The server reads the request\<close>

lemma read_u16_le_wf:
  "wf_stream s \<Longrightarrow> rest s = a # b # bs \<Longrightarrow>
     Stream_Read_UINT16 s = Ret (winpr_Data_Get_UINT16 [a, b]) (adv 2 s)"
  unfolding stream_read_u16_le_def
  by (rule read_wf) (simp_all add: winpr_Data_Get_UINT16_def)

lemma remaining_wf: "wf_stream s \<Longrightarrow> Stream_GetRemainingLength s = Ret (length (rest s)) s"
  by (auto simp: stream_defs length_rest wf_stream_def)

lemma write_get_u16_le: "winpr_Data_Write_UINT16 (winpr_Data_Get_UINT16 [a, b]) = [a, b]"
proof -
  have "ucast (shift_in (shift_in 0 b) a :: u16) = a"
    and "ucast (drop_bit 8 (shift_in (shift_in 0 b) a :: u16)) = b"
    by (rule bit_word_eqI, auto simp: shift_in_def bit_simps dest: bit_imp_le_length)+
  then show ?thesis by (simp add: write_u16_le_bytes winpr_Data_Get_UINT16_def)
qed

lemma le_word_crlf: "winpr_Data_Get_UINT16 [a, b] = 0x0A0D \<longleftrightarrow> a = 0x0D \<and> b = 0x0A"
proof
  assume "winpr_Data_Get_UINT16 [a, b] = 0x0A0D"
  then have "[a, b] = winpr_Data_Write_UINT16 0x0A0D" using write_get_u16_le [of a b] by simp
  then show "a = 0x0D \<and> b = 0x0A" by (simp add: write_u16_le_bytes)
next
  assume "a = 0x0D \<and> b = 0x0A"
  then show "winpr_Data_Get_UINT16 [a, b] = 0x0A0D" by (simp add: winpr_Data_Get_UINT16_def shift_in_def)
qed

lemma find_crlf_found:
  assumes "wf_stream s" and "rest s = c @ crlf @ ys" and "0x0D \<notin> set c" and "length c < n"
  shows "find_crlf n seen s = Ret 0x0A0D (adv (length c + 2) s)"
  using assms
proof (induction c arbitrary: n seen s)
  case Nil
  then obtain n' where n: "n = Suc n'" by (cases n) auto
  from Nil have "rest s = 0x0D # 0x0A # ys" by (simp add: crlf_def)
  moreover have "winpr_Data_Get_UINT16 [0x0D, 0x0A] = 0x0A0D" by (simp add: le_word_crlf)
  ultimately show ?case
    using Nil.prems(1) n by (simp add: bindp_def remaining_wf read_u16_le_wf)
next
  case (Cons a c)
  then obtain n' where n: "n = Suc n'" by (cases n) auto
  obtain b cs where bcs: "c @ crlf @ ys = b # cs" by (cases c) (auto simp: crlf_def)
  have a: "winpr_Data_Get_UINT16 [a, b] \<noteq> 0x0A0D" using Cons.prems(3) by (auto simp: le_word_crlf)
  have "find_crlf n' w (adv 1 s) = Ret 0x0A0D (adv (length c + 2) (adv 1 s))" for w
    by (rule Cons.IH) (use Cons.prems n in \<open>auto simp: wf_adv rest_adv\<close>)
  moreover have "Stream_Rewind 1 (adv 2 s) = Ret () (adv 1 s)" by (simp add: Stream_Rewind_def adv_def)
  ultimately show ?case
    using Cons.prems a n bcs
    by (simp add: bindp_def remaining_wf read_u16_le_wf)
qed

lemma on_stream_step: "m s = Ret x t \<Longrightarrow> bindp (on_stream m) k (c, s) = k x (c, t)"
  by (simp add: on_stream_def bindp_def)

text \<open>The line that starts at \<open>pos\<close> and that ends behind \<open>c\<close>.\<close>

definition line_from :: "nat \<Rightarrow> wStream \<Rightarrow> u8 list \<Rightarrow> u8 list" where
  "line_from pos s c = take (pointer s - pos) (drop pos (buffer s)) @ c"

definition one_line :: "u8 list \<Rightarrow> bool" where
  "one_line line \<longleftrightarrow> 0 \<notin> set line \<and> 0x0A \<notin> set line \<and> 0x0D \<notin> set line"

lemma take_overwrite:
  assumes "p \<le> k" and "k \<le> length b"
  shows "take (k - p) (drop p (overwrite k zs b)) = take (k - p) (drop p b)"
proof -
  have "length (take k b) = k" using assms(2) by simp
  then have "drop p (overwrite k zs b) = drop p (take k b) @ zs @ drop (k + length zs) b"
    using assms(1) by (simp add: overwrite_def)
  moreover have "length (drop p (take k b)) = k - p" using assms(2) by simp
  ultimately have "take (k - p) (drop p (overwrite k zs b)) = drop p (take k b)" by simp
  also have "\<dots> = take (k - p) (drop p b)" by (rule drop_take)
  finally show ?thesis .
qed

lemma take_line:
  assumes "wf_stream s" and "rest s = c @ ys" and "pos \<le> pointer s"
  shows "take (pointer s + length c - pos) (drop pos (overwrite (pointer s + length c) zs (buffer s))) = line_from pos s c"
proof -
  have b: "take (length c) (drop (pointer s) (buffer s)) = c"
    by (subst drop_buffer) (simp add: assms(2))
  have "pointer s + length c + length ys = slength s" "slength s \<le> length (buffer s)"
    using rest_prefix_bound [OF assms(1,2)] assms(1) by (simp_all add: wf_stream_def)
  then have k: "pointer s + length c \<le> length (buffer s)" by linarith
  have "take (pointer s + length c - pos) (drop pos (overwrite (pointer s + length c) zs (buffer s))) =
      take (pointer s + length c - pos) (drop pos (buffer s))"
    by (rule take_overwrite [OF _ k]) (use assms(3) in simp)
  also have "\<dots> = take (pointer s - pos) (drop pos (buffer s)) @ take (length c) (drop (pointer s) (buffer s))"
    using assms(3) take_add [of "pointer s - pos" "length c" "drop pos (buffer s)"] by simp
  finally show ?thesis by (simp add: b line_from_def)
qed

definition store_line :: "bool \<Rightarrow> u8 list \<Rightarrow> 't rdpNego \<Rightarrow> bool \<times> 't rdpNego" where
  "store_line isToken line nego =
     (if isToken then nego_set_routing_token line nego else nego_set_cookie (Some line) nego)"

lemma read_line_found:
  assumes s: "wf_stream s" "rest s = c @ crlf @ ys" and c: "length c < remain" "pos \<le> pointer s"
    and line: "one_line (line_from pos s c)" "length (line_from pos s c) \<le> UINT32_MAX"
    and store: "store_line isToken (line_from pos s c) nego = (True, nego')"
  shows "read_line isToken pos remain (nego, s) = Ret () (nego', put [0, 0] (adv (length c) s))"
proof -
  let ?t = "put [0, 0] (adv (length c) s)"
  have found: "find_crlf remain 0 s = Ret 0x0A0D (adv (length c + 2) s)"
    by (rule find_crlf_found [OF s _ c(1)]) (use line(1) in \<open>auto simp: one_line_def line_from_def\<close>)
  have len: "length (line_from pos s c) = pointer s + length c - pos"
    using s(1) c(2) by (auto simp: line_from_def wf_stream_def)
  have room: "room 2 (adv (length c) s)"
    using rest_prefix_bound [OF s] s(1) by (simp add: room_def Stream_Capacity_def wf_stream_def)
  then have w: "Stream_Write_UINT16_unchecked 0 (adv (length c) s) = Ret () ?t"
    using emitsD [OF emits_store, of "[0, 0]"]
    by (simp add: Stream_Write_UINT16_unchecked_def le_zero numeral_2_eq_2)
  have str: "take (pointer s + length c - pos) (drop pos (buffer ?t)) = line_from pos s c"
    using take_line [OF s c(2)] by (simp add: put_def)
  have r: "Stream_Rewind 2 (adv (length c + 2) s) = Ret () (adv (length c) s)"
    by (simp add: Stream_Rewind_def adv_def)
  show ?thesis
    unfolding read_line_def on_stream_step [where m = "find_crlf remain 0", OF found]
    using line store str len
    by (cases isToken) (simp_all add: bindp_assoc on_stream_step [where m = "Stream_Rewind 2", OF r, simplified] on_stream_step [where m = "Stream_Write_UINT16_unchecked 0", OF w] one_line_def store_line_def Let_def split_beta)
qed

lemma wf_put:
  assumes "wf_stream s" and "rest s = as @ bs @ ys" and "length zs = length bs"
  shows "wf_stream (put zs (adv (length as) s))" and "rest (put zs (adv (length as) s)) = ys"
proof -
  let ?k = "pointer s + length as"
  have n: "?k + length bs + length ys = slength s" "slength s \<le> length (buffer s)" "length (buffer s) \<le> SIZE_MAX"
    using rest_prefix_bound [of s "as @ bs" ys] assms(1,2) by (simp_all add: wf_stream_def)
  show "wf_stream (put zs (adv (length as) s))"
    using n assms(3) by (simp add: wf_stream_def put_def)
  have "drop (?k + length zs) (overwrite ?k zs (buffer s)) = drop (?k + length zs) (buffer s)"
    using n by (simp add: overwrite_def)
  then have "rest (put zs (adv (length as) s)) = rest (adv (length (as @ bs)) s)"
    using assms(3) by (simp add: rest_def put_def add.assoc)
  also have "\<dots> = ys" using assms(2) by (simp add: rest_adv)
  finally show "rest (put zs (adv (length as) s)) = ys" .
qed

lemma read_cookie:
  assumes s: "wf_stream s" "rest s = cookie_prefix @ c @ crlf @ ys"
    and c: "one_line c" "length c + 17 \<le> UINT32_MAX" and g: "grants_mem nego (18 + length c)"
  shows "nego_read_request_token_or_cookie (nego, s) =
    Ret () (nego\<lparr>cookie := Some (cookie_prefix @ c)\<rparr>, put [0, 0] (adv (17 + length c) s))"
proof -
  let ?u = "adv 17 s"
  have u: "wf_stream ?u" "rest ?u = c @ crlf @ ys"
    using s by (simp_all add: wf_adv rest_adv)
  have pre: "take 17 (drop (pointer s) (buffer s)) = cookie_prefix"
    by (subst drop_buffer) (simp add: s(2))
  then have line: "line_from (pointer s) ?u c = cookie_prefix @ c"
    by (simp add: line_from_def)
  have one: "one_line (cookie_prefix @ c)"
    using c(1) by (auto simp: one_line_def cookie_prefix_def ascii_def)
  have "read_line False (pointer s) (length (rest s)) (nego, ?u) =
      Ret () (nego\<lparr>cookie := Some (cookie_prefix @ c)\<rparr>, put [0, 0] (adv (length c) ?u))"
    by (rule read_line_found [OF u])
       (use one c(2) g s(2) in \<open>simp_all add: line store_line_def nego_set_cookie_def UINT32_MAX_def Let_def\<close>)
  moreover have "Stream_Seek 17 s = Ret () ?u" using s by (intro seek_wf) simp_all
  ultimately show ?thesis
    using s pre by (simp add: nego_read_request_token_or_cookie_def bindp_def on_stream_def remaining_wf
        Stream_GetPosition_def Let_def)
qed

lemma read_no_line:
  assumes "wf_stream s" and "length (rest s) < 15"
  shows "nego_read_request_token_or_cookie (nego, s) = Ret () (nego, s)"
  using assms by (simp add: nego_read_request_token_or_cookie_def bindp_def on_stream_def remaining_wf Let_def)

lemma read_u32_le_wf:
  "wf_stream s \<Longrightarrow> rest s = winpr_Data_Write_UINT32 v @ bs \<Longrightarrow> Stream_Read_UINT32 s = Ret v (adv 4 s)"
  unfolding stream_read_u32_le_def by (rule read_wf) simp_all

lemma read_u16_le_write_wf:
  "wf_stream s \<Longrightarrow> rest s = winpr_Data_Write_UINT16 v @ bs \<Longrightarrow> Stream_Read_UINT16 s = Ret v (adv 2 s)"
  unfolding stream_read_u16_le_def by (rule read_wf) simp_all

definition with_request :: "'t rdpNego \<Rightarrow> 't rdpNego \<Rightarrow> 't rdpNego" where
  "with_request cl srv = nego_set_state NEGO_STATE_FINAL (nego_set_requested_protocols (RequestedProtocols cl)
     (if RemoteCredsGuardRequired cl then srv\<lparr>RemoteCredsGuardActive := True\<rparr> else srv))"

lemma process_request:
  assumes s: "wf_stream s" "rest s = request_flags cl # winpr_Data_Write_UINT16 8 @
      winpr_Data_Write_UINT32 (RequestedProtocols cl)"
    and ra: "RestrictedAdminModeRequired cl \<longrightarrow> RestrictedAdminModeSupported srv"
    and rcg: "RemoteCredsGuardRequired cl \<longrightarrow> RemoteCredsGuardSupported srv"
  shows "nego_process_negotiation_request (srv, s) = Ret () (with_request cl srv, adv 7 s)"
proof -
  have s1: "wf_stream (adv 1 s)" "rest (adv 1 s) = winpr_Data_Write_UINT16 8 @
      winpr_Data_Write_UINT32 (RequestedProtocols cl)"
    and s3: "wf_stream (adv 3 s)" "rest (adv 3 s) = winpr_Data_Write_UINT32 (RequestedProtocols cl) @ []"
    using s by (simp_all add: wf_adv rest_adv)
  show ?thesis
    using ra rcg read_u8_wf(1) [OF s] read_u16_le_write_wf [OF s1] read_u32_le_wf [OF s3] s
    by (auto simp: nego_process_negotiation_request_def bindp_def on_stream_def check_wf request_flags_def
        nego_consts with_request_def numeral_3_eq_3)
qed

lemma ensure_consumed_wf:
  "wf_stream s \<Longrightarrow> rest s = [] \<Longrightarrow> len \<le> UINT16_MAX \<Longrightarrow> tpkt_ensure_stream_consumed len s = Ret () s"
  using parsesD [OF parses_ensure_consumed, of len s] by simp

lemma unat_small: "n \<le> UINT16_MAX \<Longrightarrow> unat (of_nat n :: u16) = n" "n \<le> 255 \<Longrightarrow> unat (of_nat n :: u8) = n"
  by (simp_all add: unat_of_nat take_bit_nat_eq_self UINT16_MAX_def)

lemma request_header:
  assumes s: "wf_stream s" "rest s = enc_tpkt len @ enc_tpdu (of_nat (len - 5)) X224_TPDU_CONNECTION_REQUEST @ ys"
    and len: "len = 11 + length ys" "len \<le> 260"
  shows "tpkt_read_header s = Ret (of_nat len) (adv 4 s)"
    and "tpdu_read_connection_request (of_nat len) (adv 4 s) = Ret (of_nat (len - 5)) (adv 11 s)"
proof -
  let ?li = "of_nat (len - 5) :: u16"
  have li: "unat ?li = len - 5" "unat (of_nat len :: u16) = len"
    using len by (intro unat_small(1), simp add: UINT16_MAX_def)+
  have byte: "ucast ?li = (of_nat (len - 5) :: u8)"
    using ucast_le_byte [of ?li] li(1) len unat_small(2) [of "len - 5"] by (simp add: word_unat_eq_iff del: of_nat_diff)
  have "parses (bindp tpkt_read_header ret) (enc_tpkt len @ []) (enc_tpdu ?li X224_TPDU_CONNECTION_REQUEST @ ys) (of_nat len)"
    by (rule parses_tpkt) (use len in \<open>simp_all add: UINT16_MAX_def parses_ret\<close>)
  from parsesD [OF this, of s] s show "tpkt_read_header s = Ret (of_nat len) (adv 4 s)"
    by (simp add: bindp_ret TPKT_HEADER_LENGTH_def)
  have "parses (tpdu_read_connection_request (of_nat len)) (enc_tpdu ?li X224_TPDU_CONNECTION_REQUEST @ []) ys (ucast ?li)"
    unfolding tpdu_read_connection_request_def
    by (rule parses_tpdu_header) (use len li in \<open>simp_all add: parses_ret parses_require\<close>)
  from parsesD [OF this, of "adv 4 s"] s
  show "tpdu_read_connection_request (of_nat len) (adv 4 s) = Ret (of_nat (len - 5)) (adv 11 s)"
    by (simp add: wf_adv rest_adv TPKT_HEADER_LENGTH_def byte)
qed

text \<open>What the server makes of the request of a client without a routing token.\<close>

definition with_line :: "'t rdpNego \<Rightarrow> 't rdpNego \<Rightarrow> 't rdpNego" where
  "with_line cl srv =
     (case cookie cl of
        None \<Rightarrow> srv
      | Some c \<Rightarrow> srv\<lparr>cookie := Some (cookie_prefix @ take (unat (CookieMaxLength cl)) c)\<rparr>)"

definition received :: "'t rdpNego \<Rightarrow> 't rdpNego \<Rightarrow> 't rdpNego" where
  "received cl srv =
     (if RequestedProtocols cl > PROTOCOL_RDP \<or> sendNegoData cl then with_request cl (with_line cl srv)
      else with_line cl srv)"

text \<open>Client and server fit: no token, a cookie of one line, and the modes the client insists on are
  supported.\<close>

definition compatible :: "'t rdpNego \<Rightarrow> 't rdpNego \<Rightarrow> bool" where
  "compatible cl srv \<longleftrightarrow>
     RoutingToken cl = None \<and> request_length cl \<le> 260 \<and>
     (\<forall>c. cookie cl = Some c \<longrightarrow> one_line (take (unat (CookieMaxLength cl)) c) \<and>
        grants_mem srv (18 + length (take (unat (CookieMaxLength cl)) c))) \<and>
     (RestrictedAdminModeRequired cl \<longrightarrow> RestrictedAdminModeSupported srv) \<and>
     (RemoteCredsGuardRequired cl \<longrightarrow> RemoteCredsGuardSupported srv)"

lemma read_token_bytes:
  assumes "wf_stream s" and "rest s = token_bytes cl @ nego_req_bytes cl" and "compatible cl srv"
  shows "\<exists>t. nego_read_request_token_or_cookie (srv, s) = Ret () (with_line cl srv, t) \<and>
    wf_stream t \<and> rest t = nego_req_bytes cl"
proof (cases "cookie cl")
  case None
  then have r: "rest s = nego_req_bytes cl" and w: "with_line cl srv = srv"
    using assms(2,3) by (simp_all add: compatible_def token_bytes_def with_line_def)
  moreover have "length (nego_req_bytes cl) < 15" by (simp add: nego_req_bytes_def)
  ultimately show ?thesis using read_no_line [OF assms(1), of srv] assms(1) by simp
next
  case (Some c)
  let ?c = "take (unat (CookieMaxLength cl)) c"
  have r: "rest s = cookie_prefix @ ?c @ crlf @ nego_req_bytes cl"
    using assms(2,3) Some by (simp add: compatible_def token_bytes_def)
  have len: "length ?c + 17 \<le> UINT32_MAX"
    using assms(3) Some by (auto simp: compatible_def request_length_def token_bytes_def UINT32_MAX_def)
  have "nego_read_request_token_or_cookie (srv, s) =
      Ret () (with_line cl srv, put [0, 0] (adv (17 + length ?c) s))"
    using read_cookie [OF assms(1) r _ len, of srv] assms(3) Some by (simp add: compatible_def with_line_def)
  moreover have "wf_stream (put [0, 0] (adv (17 + length ?c) s)) \<and> rest (put [0, 0] (adv (17 + length ?c) s)) = nego_req_bytes cl"
    using wf_put [of s "cookie_prefix @ ?c" crlf "nego_req_bytes cl" "[0, 0]"] assms(1) r by simp
  ultimately show ?thesis by blast
qed

lemma with_line_sel [simp]:
  "RestrictedAdminModeSupported (with_line cl srv) = RestrictedAdminModeSupported srv"
  "RemoteCredsGuardSupported (with_line cl srv) = RemoteCredsGuardSupported srv"
  by (simp_all add: with_line_def split: option.split)

lemma read_request:
  assumes s: "wf_stream s" "rest s = enc_request cl" and fit: "compatible cl srv"
  shows "\<exists>t. nego_read_request (srv, s) = Ret () (received cl srv, t)"
proof -
  let ?ys = "token_bytes cl @ nego_req_bytes cl" and ?n = "request_length cl"
  have n: "?n = 11 + length ?ys" "?n \<le> 260"
    using fit by (simp_all add: request_length_def TPDU_CONNECTION_REQUEST_LENGTH_def compatible_def)
  note hdr = request_header [OF s(1) s(2) [unfolded enc_request_def] n]
  have s11: "wf_stream (adv 11 s)" "rest (adv 11 s) = ?ys"
    using s by (simp_all add: wf_adv rest_adv length_enc_request n) (simp add: enc_request_def TPKT_HEADER_LENGTH_def)
  have li: "unat (of_nat (?n - 5) :: u8) = length ?ys + 6"
    using n unat_small(2) [of "?n - 5"] by (simp del: of_nat_diff)
  obtain t where t: "nego_read_request_token_or_cookie (srv, adv 11 s) = Ret () (with_line cl srv, t)"
    "wf_stream t" "rest t = nego_req_bytes cl"
    using read_token_bytes [OF s11 fit] by blast
  have len: "unat (of_nat ?n :: u16) \<le> UINT16_MAX"
    using n unat_small(1) [of ?n] by (simp add: UINT16_MAX_def)
  show ?thesis
  proof (cases "RequestedProtocols cl > PROTOCOL_RDP \<or> sendNegoData cl")
    case False
    then have "rest t = []" using t(3) by (simp add: nego_req_bytes_def)
    with False hdr s11 li t len show ?thesis
      by (simp add: nego_read_request_def bindp_def on_stream_def remaining_wf ensure_consumed_wf received_def)
  next
    case True
    then have r: "rest t = TYPE_RDP_NEG_REQ # request_flags cl # winpr_Data_Write_UINT16 8 @
        winpr_Data_Write_UINT32 (RequestedProtocols cl)" using t(3) by (simp add: nego_req_bytes_def)
    have t1: "wf_stream (adv 1 t)" "rest (adv 1 t) = request_flags cl # winpr_Data_Write_UINT16 8 @
        winpr_Data_Write_UINT32 (RequestedProtocols cl)"
      and t8: "wf_stream (adv 8 t)" "rest (adv 8 t) = []"
      using t(2) r by (simp_all add: wf_adv rest_adv)
    have "nego_process_negotiation_request (with_line cl srv, adv 1 t) =
        Ret () (with_request cl (with_line cl srv), adv 7 (adv 1 t))"
      by (rule process_request [OF t1]) (use fit in \<open>simp_all add: compatible_def\<close>)
    moreover have "length (rest t) = 8" by (simp add: r)
    ultimately show ?thesis using True hdr s11 li t(1,2) len read_u8_wf(1) [OF t(2) r] t8
      by (simp add: nego_read_request_def bindp_def on_stream_def remaining_wf ensure_consumed_wf received_def)
  qed
qed

section \<open>The answer\<close>

definition response_code :: "'t rdpNego \<Rightarrow> u32" where
  "response_code srv =
     (if SelectedProtocol srv AND PROTOCOL_FAILED_NEGO \<noteq> 0 then SelectedProtocol srv AND NOT PROTOCOL_FAILED_NEGO
      else SelectedProtocol srv)"

definition response_bytes :: "'t rdpNego \<Rightarrow> u8 list" where
  "response_bytes srv =
     (if SelectedProtocol srv AND PROTOCOL_FAILED_NEGO \<noteq> 0 then [TYPE_RDP_NEG_FAILURE, 0]
      else [TYPE_RDP_NEG_RSP, response_flags srv]) @
     winpr_Data_Write_UINT16 8 @ winpr_Data_Write_UINT32 (response_code srv)"

definition enc_response :: "'t rdpNego \<Rightarrow> u8 list" where
  "enc_response srv = enc_tpkt 19 @ enc_tpdu 14 X224_TPDU_CONNECTION_CONFIRM @ response_bytes srv"

lemma length_response [simp]: "length (response_bytes srv) = 8" "length (enc_response srv) = 19"
  by (simp_all add: response_bytes_def enc_response_def TPKT_HEADER_LENGTH_def)

lemma response_body_writes:
  assumes s: "pointer s = 0" and room: "room 19 s"
  shows "nego_response_body srv s = Ret () ((put (enc_response srv) s)\<lparr>slength := 19\<rparr>)"
proof -
  let ?failed = "SelectedProtocol srv AND PROTOCOL_FAILED_NEGO \<noteq> 0"
  let ?k = "\<lambda>_ :: unit. \<lambda>t.
        let em = Stream_GetPosition t in
        bindp (Stream_SetPosition 0) (\<lambda>_.
        bindp (tpkt_write_header 19) (\<lambda>_.
        bindp (tpdu_write_connection_confirm 14) (\<lambda>_.
        bindp (Stream_SetPosition em) (\<lambda>_. Stream_SealLength)))) t"
  let ?w = "bindp (Stream_SafeZero TPDU_CONNECTION_CONFIRM_LENGTH) (\<lambda>_.
      bindp (Stream_Write_UINT8_unchecked (if ?failed then TYPE_RDP_NEG_FAILURE else TYPE_RDP_NEG_RSP)) (\<lambda>_.
      bindp (Stream_Write_UINT8_unchecked (if ?failed then 0 else response_flags srv)) (\<lambda>_.
      bindp (Stream_Write_UINT16_unchecked 8) (\<lambda>_. Stream_Write_UINT32_unchecked (response_code srv)))))"
  let ?h = "enc_tpkt 19 @ enc_tpdu 14 X224_TPDU_CONNECTION_CONFIRM"
  let ?t = "put (replicate 11 0 @ response_bytes srv) s"
  let ?hdrs = "bindp (tpkt_write_header 19) (\<lambda>_. tpdu_write_connection_confirm 14)"
  have "emits ?w (replicate 11 0 @ (if ?failed then TYPE_RDP_NEG_FAILURE else TYPE_RDP_NEG_RSP) #
      (if ?failed then 0 else response_flags srv) # winpr_Data_Write_UINT16 8 @
      winpr_Data_Write_UINT32 (response_code srv)) ()"
    unfolding Stream_SafeZero_def bindp_assoc TPDU_CONNECTION_CONFIRM_LENGTH_def
    by (intro emit_intros) simp
  then have "emits ?w (replicate 11 0 @ response_bytes srv) ()"
    by (auto simp: response_bytes_def split: if_splits)
  then have 1: "?w s = Ret () ?t" using room by (intro emitsD) simp_all
  have "nego_response_body srv s = bindp ?w ?k s"
    by (simp add: nego_response_body_def bindp_assoc Stream_GetPosition_def s Let_def response_code_def
        TPDU_CONNECTION_CONFIRM_LENGTH_def)
  also have "\<dots> = ?k () ?t" using 1 by (rule bindp_Ret)
  also have "\<dots> = bindp ?hdrs (\<lambda>_. bindp (Stream_SetPosition 19) (\<lambda>_. Stream_SealLength)) (?t\<lparr>pointer := 0\<rparr>)"
    using s by (simp add: bindp_assoc Stream_GetPosition_def Stream_SetPosition_def
        bindp_def [of "Stream_SetPosition 0"] Let_def)
  finally have body: "nego_response_body srv s =
      bindp ?hdrs (\<lambda>_. bindp (Stream_SetPosition 19) (\<lambda>_. Stream_SealLength)) (?t\<lparr>pointer := 0\<rparr>)" .
  have "emits ?hdrs ?h ()"
    using emits_tpdu_header [of 14 ret "[]" "()" X224_TPDU_CONNECTION_CONFIRM] emits_tpkt [of 19 ret "[]" "()"]
    by (intro emits_bindp) (simp_all add: tpdu_write_connection_confirm_def emits_ret bindp_ret UINT16_MAX_def)
  moreover have "room 11 (?t\<lparr>pointer := 0\<rparr>)"
    using room s by (simp add: room_def Stream_Capacity_def put_def)
  ultimately have "?hdrs (?t\<lparr>pointer := 0\<rparr>) = Ret () (put ?h (?t\<lparr>pointer := 0\<rparr>))"
    by (intro emitsD) (simp_all add: TPKT_HEADER_LENGTH_def)
  also have "put ?h (?t\<lparr>pointer := 0\<rparr>) = (put (enc_response srv) s)\<lparr>pointer := 11\<rparr>"
    using put_back [of ?h "response_bytes srv" s "replicate 11 0"] room s
    by (simp add: enc_response_def TPKT_HEADER_LENGTH_def)
  finally have h: "?hdrs (?t\<lparr>pointer := 0\<rparr>) = Ret () ((put (enc_response srv) s)\<lparr>pointer := 11\<rparr>)" .
  have "bindp (Stream_SetPosition 19) (\<lambda>_. Stream_SealLength) ((put (enc_response srv) s)\<lparr>pointer := 11\<rparr>) =
      Ret () ((put (enc_response srv) s)\<lparr>slength := 19\<rparr>)"
    using room s by (simp add: bindp_def Stream_SetPosition_def Stream_SealLength_def room_def
        Stream_Capacity_def put_def)
  then show ?thesis unfolding body bindp_Ret [where m = ?hdrs, OF h] .
qed

text \<open>What the client makes of the answer.\<close>

definition lacks_mode :: "'t rdpNego \<Rightarrow> 't rdpNego \<Rightarrow> bool" where
  "lacks_mode srv cl \<longleftrightarrow>
     RestrictedAdminModeRequired cl \<and> \<not> RestrictedAdminModeSupported srv \<or>
     RemoteCredsGuardRequired cl \<and> \<not> RemoteCredsGuardSupported srv"

definition answered :: "'t rdpNego \<Rightarrow> 't rdpNego \<Rightarrow> 't rdpNego" where
  "answered srv cl =
     (if SelectedProtocol srv AND PROTOCOL_FAILED_NEGO \<noteq> 0
      then nego_set_state NEGO_STATE_FAIL (failure_update (response_code srv) cl)
      else check_selected (nego_set_state NEGO_STATE_FINAL (nego_set_selected_protocol (response_code srv)
             (cl\<lparr>nego_flags := ucast (response_flags srv)\<rparr>))))"

lemma response_flags_modes:
  "response_flags srv AND RESTRICTED_ADMIN_MODE_SUPPORTED = 0 \<longleftrightarrow> \<not> RestrictedAdminModeSupported srv"
  "response_flags srv AND REDIRECTED_AUTHENTICATION_MODE_SUPPORTED = 0 \<longleftrightarrow> \<not> RemoteCredsGuardSupported srv"
  by (simp_all add: response_flags_def nego_consts)

lemma confirm_header:
  assumes s: "wf_stream s" "rest s = enc_tpkt 19 @ enc_tpdu 14 X224_TPDU_CONNECTION_CONFIRM @ ys" and ys: "length ys = 8"
  shows "tpkt_read_header s = Ret 19 (adv 4 s)"
    and "tpdu_read_connection_confirm 19 (adv 4 s) = Ret 14 (adv 11 s)"
proof -
  have "parses (bindp tpkt_read_header ret) (enc_tpkt 19 @ []) (enc_tpdu 14 X224_TPDU_CONNECTION_CONFIRM @ ys) (of_nat 19)"
    by (rule parses_tpkt) (use ys in \<open>simp_all add: UINT16_MAX_def parses_ret\<close>)
  from parsesD [OF this, of s] s show "tpkt_read_header s = Ret 19 (adv 4 s)"
    by (simp add: bindp_ret TPKT_HEADER_LENGTH_def)
  have "parses (bindp (tpdu_read_header 19) ret) (enc_tpdu 14 X224_TPDU_CONNECTION_CONFIRM @ []) ys (X224_TPDU_CONNECTION_CONFIRM, ucast (14 :: u16))"
    by (rule parses_tpdu_header) (simp_all add: parses_ret)
  from parsesD [OF this, of "adv 4 s"] s
  have "tpdu_read_header 19 (adv 4 s) = Ret (X224_TPDU_CONNECTION_CONFIRM, 14) (adv 11 s)"
    by (simp add: wf_adv rest_adv TPKT_HEADER_LENGTH_def bindp_ret)
  moreover have "wf_stream (adv 11 s)" "rest (adv 11 s) = ys"
    using s ys by (simp_all add: wf_adv rest_adv TPKT_HEADER_LENGTH_def)
  ultimately show "tpdu_read_connection_confirm 19 (adv 4 s) = Ret 14 (adv 11 s)"
    using ys by (simp add: tpdu_read_connection_confirm_def bindp_def Stream_GetPosition_def check_wf SIZE_MAX_def)
qed

lemma process_response:
  assumes s: "wf_stream s" "rest s = response_flags srv # winpr_Data_Write_UINT16 8 @ winpr_Data_Write_UINT32 p"
  shows "nego_process_negotiation_response (cl, s) =
    (let n = cl\<lparr>nego_flags := ucast (response_flags srv)\<rparr> in
     if lacks_mode srv cl then Ret () (n, adv 1 s)
     else Ret () (nego_set_state NEGO_STATE_FINAL (nego_set_selected_protocol p n), adv 7 s))"
proof -
  have s1: "wf_stream (adv 1 s)" "rest (adv 1 s) = winpr_Data_Write_UINT16 8 @ winpr_Data_Write_UINT32 p"
    and s3: "wf_stream (adv 3 s)" "rest (adv 3 s) = winpr_Data_Write_UINT32 p @ []"
    using s by (simp_all add: wf_adv rest_adv)
  show ?thesis
    using read_u8_wf(1) [OF s] read_u16_le_write_wf [OF s1] read_u32_le_wf [OF s3] s
    by (auto simp: nego_process_negotiation_response_def bindp_def on_stream_def check_or_fail_def check_wf
        response_flags_modes lacks_mode_def Let_def numeral_3_eq_3)
qed

lemma process_failure:
  assumes s: "wf_stream s" "rest s = 0 # winpr_Data_Write_UINT16 8 @ winpr_Data_Write_UINT32 code"
  shows "nego_process_negotiation_failure (cl, s) =
    Ret () (nego_set_state NEGO_STATE_FAIL (failure_update code cl), adv 7 s)"
proof -
  have s1: "wf_stream (adv 1 s)" "rest (adv 1 s) = winpr_Data_Write_UINT16 8 @ winpr_Data_Write_UINT32 code"
    and s3: "wf_stream (adv 3 s)" "rest (adv 3 s) = winpr_Data_Write_UINT32 code @ []"
    using s by (simp_all add: wf_adv rest_adv)
  show ?thesis
    using read_u8_wf(1) [OF s] read_u16_le_write_wf [OF s1] read_u32_le_wf [OF s3] s
    by (simp add: nego_process_negotiation_failure_def bindp_def on_stream_def check_wf numeral_3_eq_3)
qed

lemma recv_response:
  assumes s: "wf_stream s" "rest s = enc_response srv"
  shows "nego_recv (cl, s) =
    (if SelectedProtocol srv AND PROTOCOL_FAILED_NEGO = 0 \<and> lacks_mode srv cl
     then Fail (check_selected (cl\<lparr>nego_flags := ucast (response_flags srv)\<rparr>), adv 13 s)
     else Ret () (answered srv cl, adv 19 s))"
proof -
  note hdr = confirm_header [OF s(1) s(2) [unfolded enc_response_def] length_response(1)]
  have r: "rest (adv 11 s) = response_bytes srv" and wf: "wf_stream (adv 11 s)" "wf_stream (adv 12 s)"
    "wf_stream (adv 13 s)" "wf_stream (adv 19 s)"
    using s by (simp_all add: wf_adv rest_adv) (simp add: enc_response_def TPKT_HEADER_LENGTH_def)
  have r19: "rest (adv 19 s) = []" "rest (adv 13 s) \<noteq> []"
    using s by (simp_all add: rest_adv flip: length_0_conv)
  then have e: "tpkt_ensure_stream_consumed 19 (adv 19 s) = Ret () (adv 19 s)"
    "tpkt_ensure_stream_consumed 19 (adv 13 s) = Fail (adv 13 s)"
    using wf by (simp_all add: ensure_consumed_wf UINT16_MAX_def tpkt_ensure_stream_consumed_def bindp_def remaining_wf)
  have r12: "rest (adv 12 s) = drop 1 (rest (adv 11 s))" by (simp add: rest_adv)
  show ?thesis
  proof (cases "SelectedProtocol srv AND PROTOCOL_FAILED_NEGO = 0")
    case True
    then have r11: "rest (adv 11 s) = TYPE_RDP_NEG_RSP # response_flags srv # winpr_Data_Write_UINT16 8 @
        winpr_Data_Write_UINT32 (response_code srv)" by (simp add: r response_bytes_def)
    have "rest (adv 12 s) = response_flags srv # winpr_Data_Write_UINT16 8 @ winpr_Data_Write_UINT32 (response_code srv)"
      using r12 r11 by simp
    note p = process_response [OF wf(2) this, of cl]
    show ?thesis using True hdr read_u8_wf(1) [OF wf(1) r11] p e
      by (simp add: nego_recv_def bindp_def on_stream_def answered_def Let_def)
  next
    case False
    then have r11: "rest (adv 11 s) = TYPE_RDP_NEG_FAILURE # 0 # winpr_Data_Write_UINT16 8 @
        winpr_Data_Write_UINT32 (response_code srv)" by (simp add: r response_bytes_def)
    have "rest (adv 12 s) = 0 # winpr_Data_Write_UINT16 8 @ winpr_Data_Write_UINT32 (response_code srv)"
      using r12 r11 by simp
    note p = process_failure [OF wf(2) this, of cl]
    show ?thesis using False hdr read_u8_wf(1) [OF wf(1) r11] p e
      by (simp add: nego_recv_def bindp_def on_stream_def answered_def Let_def TYPE_RDP_NEG_FAILURE_def TYPE_RDP_NEG_RSP_def)
  qed
qed

definition response_stream :: "'t rdpNego \<Rightarrow> wStream" where
  "response_stream srv =
     \<lparr>buffer = enc_response srv @ replicate 493 0, pointer = 19, slength = 19, isOwner = True, grants = grants_mem srv\<rparr>"

lemma nego_response_spec:
  assumes "grants_mem srv 512"
  shows "nego_send_negotiation_response T srv =
    bindp (bindp (on_net (net_write T (response_stream srv))) (\<lambda>status. require (status \<ge> 0)))
      (\<lambda>_. apply_selected_protocol) srv"
proof -
  let ?s = "\<lparr>buffer = replicate 512 0, pointer = 0, slength = 512, isOwner = True, grants = grants_mem srv\<rparr>"
  have "nego_response_body srv ?s = Ret () ((put (enc_response srv) ?s)\<lparr>slength := 19\<rparr>)"
    by (rule response_body_writes) (simp_all add: room_def Stream_Capacity_def SIZE_MAX_def)
  moreover have "(put (enc_response srv) ?s)\<lparr>slength := 19\<rparr> = response_stream srv"
    by (simp add: put_def overwrite_def response_stream_def)
  moreover have "Stream_New (grants_mem srv) 512 = Some ?s" using assms by (simp add: Stream_New_def)
  ultimately show ?thesis
    by (simp add: nego_send_negotiation_response_def send_pdu_def bindp_def)
qed

end
