(* ===== verification/NegoRun.thy ===== *)
theory NegoRun
  imports NegoWire
begin

text \<open>
  Complete negotiations over any transport that delivers the answers of the server: a client that is
  refused the protocol it was offered and whose next attempt is confirmed without a protocol, and a
  client that gets what it asked for.
\<close>

unbundle bit_operations_syntax

section \<open>Transports that deliver\<close>

text \<open>A transport on which every connection is made and every packet goes out, and whose reads return one by one the
  packets \<open>inbox\<close> still holds, over any number of connections.\<close>

definition delivers :: "'t net \<Rightarrow> ('t \<Rightarrow> u8 list list) \<Rightarrow> bool" where
  "delivers T inbox \<longleftrightarrow>
     (\<forall>b t. inbox (transport_set_gateway_enabled T b t) = inbox t) \<and>
     (\<forall>h p n t. fst (transport_connect T h p n t) \<and> inbox (snd (transport_connect T h p n t)) = inbox t) \<and>
     (\<forall>t. fst (transport_connect_childsession T t) \<and> inbox (snd (transport_connect_childsession T t)) = inbox t) \<and>
     (\<forall>t. inbox (transport_disconnect T t) = inbox t) \<and>
     (\<forall>s t. 0 \<le> fst (net_write T s t) \<and> inbox (snd (net_write T s t)) = inbox t) \<and>
     (\<forall>s t p ps. inbox t = p # ps \<and> length p \<le> UINT16_MAX \<longrightarrow>
        (case transport_read_pdu T s t of ((status, s'), t') \<Rightarrow>
           0 \<le> status \<and> wf_stream s' \<and> rest s' = p \<and> inbox t' = ps))"

text \<open>The security layers of a transport that can all be set up.\<close>

definition secures :: "'t net \<Rightarrow> bool" where
  "secures T \<longleftrightarrow> (\<forall>t. fst (transport_connect_tls T t) \<and> fst (transport_connect_rdstls T t) \<and>
     fst (transport_connect_aad T t) \<and> (\<forall>b. fst (transport_connect_nla T b t)))"

lemma delivers_steps:
  assumes "delivers T inbox"
  shows "inbox (transport_set_gateway_enabled T b t) = inbox t"
    "\<exists>t'. transport_connect T h p n t = (True, t') \<and> inbox t' = inbox t"
    "\<exists>t'. transport_connect_childsession T t = (True, t') \<and> inbox t' = inbox t"
    "inbox (transport_disconnect T t) = inbox t"
    "\<exists>st t'. net_write T s t = (st, t') \<and> 0 \<le> st \<and> inbox t' = inbox t"
    "inbox t = q # qs \<Longrightarrow> length q \<le> UINT16_MAX \<Longrightarrow>
       \<exists>st s' t'. transport_read_pdu T s t = ((st, s'), t') \<and> 0 \<le> st \<and> wf_stream s' \<and> rest s' = q \<and> inbox t' = qs"
proof -
  note d = assms [unfolded delivers_def]
  show "inbox (transport_set_gateway_enabled T b t) = inbox t" "inbox (transport_disconnect T t) = inbox t"
    using d by blast+
  show "\<exists>t'. transport_connect T h p n t = (True, t') \<and> inbox t' = inbox t"
    using d by (metis (full_types) prod.collapse)
  show "\<exists>t'. transport_connect_childsession T t = (True, t') \<and> inbox t' = inbox t"
    using d by (metis (full_types) prod.collapse)
  show "\<exists>st t'. net_write T s t = (st, t') \<and> 0 \<le> st \<and> inbox t' = inbox t"
    using d by (metis prod.collapse)
  show "\<exists>st s' t'. transport_read_pdu T s t = ((st, s'), t') \<and> 0 \<le> st \<and> wf_stream s' \<and> rest s' = q \<and> inbox t' = qs"
    if "inbox t = q # qs" "length q \<le> UINT16_MAX"
  proof -
    obtain st s' t' where r: "transport_read_pdu T s t = ((st, s'), t')" by (cases "transport_read_pdu T s t") auto
    from d have "\<forall>s t p ps. inbox t = p # ps \<and> length p \<le> UINT16_MAX \<longrightarrow>
        (case transport_read_pdu T s t of ((status, s'), t') \<Rightarrow>
           0 \<le> status \<and> wf_stream s' \<and> rest s' = p \<and> inbox t' = ps)" by (elim conjE)
    from this [rule_format, OF conjI, OF that, of s] r show ?thesis by simp
  qed
qed

lemma delivered_connect:
  assumes T: "delivers T inbox"
  shows "\<exists>t. nego_tcp_connect T n = Ret () (n\<lparr>net_state := t, TcpConnected := True\<rparr>) \<and> inbox t = inbox (net_state n)"
proof (cases "TcpConnected n")
  case True
  have "n = n\<lparr>net_state := net_state n, TcpConnected := True\<rparr>" using True by simp
  with True show ?thesis
    by (intro exI [of _ "net_state n"]) (simp add: nego_tcp_connect_def bindp_def Let_def)
next
  case no: False
  have direct: "\<exists>t. tcp_result (transport_connect T h p c) m = Ret () (m\<lparr>net_state := t, TcpConnected := True\<rparr>) \<and>
      inbox t = inbox (net_state m)" for h p c and m :: "'a rdpNego"
    using delivers_steps(2) [OF T, of h p c "net_state m"] by (auto simp: tcp_result_def bindp_def on_net_def upd_nego_def)
  consider "\<not> GatewayEnabled n" "\<not> ConnectChildSession n" | "\<not> GatewayEnabled n" "ConnectChildSession n"
    | "GatewayEnabled n" by blast
  then show ?thesis
  proof cases
    case 1
    from direct [of "hostname n" "port n" "FreeRDP_TcpConnectTimeout (nego_settings n)" n] no 1 show ?thesis
      by (auto simp: nego_tcp_connect_def bindp_def Let_def)
  next
    case 2
    with no delivers_steps(3) [OF T, of "net_state n"] show ?thesis
      by (auto simp: nego_tcp_connect_def bindp_def Let_def tcp_result_def on_net_def upd_nego_def)
  next
    case 3
    let ?m = "\<lambda>b. n\<lparr>net_state := transport_set_gateway_enabled T b (net_state n)\<rparr>"
    from direct [of "hostname n" "port n" "FreeRDP_TcpConnectTimeout (nego_settings n)" "?m (\<not> GatewayBypassLocal n)"]
      no 3 delivers_steps(1) [OF T] show ?thesis
      by (cases "GatewayBypassLocal n") (auto simp: nego_tcp_connect_def bindp_def Let_def upd_net_def)
  qed
qed

lemma delivered_ask:
  assumes T: "delivers T inbox" and n: "NegotiateSecurityLayer n" "grants_mem n 512" "grants_mem n 1024"
    "length (token_bytes n) \<le> 241" "inbox (net_state n) = p # ps" "length p \<le> UINT16_MAX"
  shows "\<exists>t s. wf_stream s \<and> rest s = p \<and> inbox t = ps \<and>
    bindp (upd_nego (\<lambda>n. n\<lparr>RequestedProtocols := q\<rparr>)) (\<lambda>_.
           bindp (nego_transport_connect T) (\<lambda>_.
           bindp (nego_send_negotiation_request T) (\<lambda>_. nego_recv_response T))) n =
    (case nego_recv (n\<lparr>RequestedProtocols := q, net_state := t, TcpConnected := True\<rparr>, s) of
       Abort \<Rightarrow> Abort | Fail (m, _) \<Rightarrow> Fail m | Ret _ (m, _) \<Rightarrow> Ret () m)"
proof -
  let ?n = "\<lambda>t. n\<lparr>RequestedProtocols := q, net_state := t, TcpConnected := True\<rparr>"
  obtain t1 where 1: "nego_transport_connect T (n\<lparr>RequestedProtocols := q\<rparr>) = Ret () (?n t1)" "inbox t1 = p # ps"
    using delivered_connect [OF T, of "n\<lparr>RequestedProtocols := q\<rparr>"] n by (auto simp: nego_transport_connect_def bindp_def)
  have "token_bytes (?n t1) = token_bytes n" by (simp add: token_bytes_def cong: option.case_cong)
  then have "request_length (?n t1) \<le> 260"
    using n by (simp add: request_length_def nego_req_bytes_def TPDU_CONNECTION_REQUEST_LENGTH_def)
  then have "nego_send_negotiation_request T (?n t1) =
      bindp (on_net (net_write T (request_stream (?n t1)))) (\<lambda>status. require (status \<ge> 0)) (?n t1)"
    using nego_request_spec [of "?n t1" T] n by simp
  moreover obtain st t2 where "net_write T (request_stream (?n t1)) t1 = (st, t2)" "0 \<le> st" and t2: "inbox t2 = inbox t1"
    using delivers_steps(5) [OF T] by blast
  moreover have swap: "n\<lparr>RequestedProtocols := q, TcpConnected := True, net_state := t\<rparr> = ?n t" for t by (cases n) simp
  ultimately have 2: "nego_send_negotiation_request T (?n t1) = Ret () (?n t2)" "inbox t2 = p # ps"
    using 1(2) by (simp_all add: bindp_def on_net_def)
  obtain s0 where s0: "Stream_New (grants_mem n) 1024 = Some s0" using n by (simp add: Stream_New_def)
  obtain st s t3 where 3: "transport_read_pdu T s0 t2 = ((st, s), t3)" "0 \<le> st" "wf_stream s" "rest s = p" "inbox t3 = ps"
    using delivers_steps(6) [OF T 2(2) n(6), of s0] by blast
  have "nego_recv_response T (?n t2) =
     (case nego_recv (?n t3, s) of Abort \<Rightarrow> Abort | Fail (m, _) \<Rightarrow> Fail m | Ret _ (m, _) \<Rightarrow> Ret () m)"
    using s0 3 by (simp add: nego_recv_response_def bindp_def on_net_def) (simp only: swap)
  with 1 2 3 show ?thesis
    by (intro exI [of _ t3] exI [of _ s]) (simp add: bindp_def upd_nego_def cong: outcome.case_cong)
qed

lemma delivered_disconnect:
  assumes "delivers T inbox"
  shows "\<exists>t. nego_transport_disconnect T n = Ret () (n\<lparr>net_state := t, TcpConnected := False, SecurityConnected := False\<rparr>) \<and>
     inbox t = inbox (net_state n)"
proof (cases "TcpConnected n")
  case True
  with delivers_steps(4) [OF assms, of "net_state n"] show ?thesis
    by (intro exI [of _ "transport_disconnect T (net_state n)"])
      (simp add: nego_transport_disconnect_def bindp_def upd_net_def upd_nego_def)
qed (intro exI [of _ "net_state n"], simp add: nego_transport_disconnect_def bindp_def upd_nego_def)

lemma delivered_start:
  assumes "delivers T inbox" and "nego_state n = NEGO_STATE_INITIAL" and "NegotiateSecurityLayer n"
    and "\<not> SendPreconnectionPdu n" and "initial_state n \<noteq> NEGO_STATE_FAIL"
  shows "\<exists>t. nego_start T n = Ret () (n\<lparr>nego_state := initial_state n, net_state := t, TcpConnected := True\<rparr>) \<and>
     inbox t = inbox (net_state n)"
  using delivered_connect [OF assms(1), of "n\<lparr>nego_state := initial_state n\<rparr>"] assms(2-5)
  by (auto simp: nego_start_def nego_get_state_def upd_nego_def bindp_def nego_set_state_def)

text \<open>The end of a negotiation that settled on a protocol the transport can secure.\<close>

lemma secured_finish:
  assumes "secures T" and "TcpConnected n" and "SelectedProtocol n \<in> set negotiable" and "SelectedProtocol n \<noteq> PROTOCOL_RDP"
  shows "\<exists>m. bindp nego_update_settings_from_state (\<lambda>_. bindp (upd_nego use_rdp_security) (\<lambda>_. nego_security_connect T)) n = Ret () m \<and>
     SelectedProtocol m = SelectedProtocol n \<and> SecurityConnected m"
proof -
  let ?n = "n\<lparr>nego_settings := (nego_settings n)\<lparr>FreeRDP_RequestedProtocols := RequestedProtocols n,
       FreeRDP_SelectedProtocol := SelectedProtocol n, FreeRDP_NegotiationFlags := nego_flags n\<rparr>\<rparr>"
  have ok: "\<exists>m. security_result f ?n = Ret () m \<and> SelectedProtocol m = SelectedProtocol n \<and> SecurityConnected m"
    if "\<And>t. fst (f t)" for f
    using that [of "net_state n"] by (cases "f (net_state n)") (simp add: security_result_def bindp_def on_net_def upd_nego_def)
  let ?p = "SelectedProtocol n"
  let ?f = "if ?p = PROTOCOL_RDSAAD then transport_connect_aad T else if ?p = PROTOCOL_RDSTLS then transport_connect_rdstls T
    else if ?p = PROTOCOL_HYBRID then transport_connect_nla T False else if ?p = PROTOCOL_HYBRID_EX then transport_connect_nla T True
    else transport_connect_tls T"
  have "nego_try_connect T ?n = security_result ?f ?n"
    using assms(3,4) by (simp add: nego_try_connect_def negotiable_def Let_def) blast
  moreover have "\<forall>t. fst (?f t)" using assms(1) by (simp add: secures_def)
  ultimately have "\<exists>f. (\<forall>t. fst (f t)) \<and> nego_try_connect T ?n = security_result f ?n" by blast
  then have "\<exists>m. nego_try_connect T ?n = Ret () m \<and> SelectedProtocol m = SelectedProtocol n \<and> SecurityConnected m"
    using ok by metis
  then have "\<exists>m. nego_security_connect T ?n = Ret () m \<and> SelectedProtocol m = SelectedProtocol n \<and> SecurityConnected m"
    using assms(2) by (auto simp: nego_security_connect_def)
  with assms(4) show ?thesis
    by (simp add: bindp_def nego_update_settings_from_state_def upd_nego_def use_rdp_security_def)
qed

section \<open>A refused protocol\<close>

text \<open>The connection confirm of a server that knows nothing of the negotiation.\<close>

definition bare_confirm :: "u8 list" where
  "bare_confirm = [3, 0, 0, 11, 6, 0xD0, 0, 0, 0, 0, 0]"

lemma bare_confirm_enc: "bare_confirm = enc_tpkt 11 @ enc_tpdu 6 X224_TPDU_CONNECTION_CONFIRM @ []"
  by (simp add: bare_confirm_def enc_tpkt_def enc_tpdu_def tpdu_codes write_u16_be_bytes)
     (simp add: numeral_eq_Suc)

lemma length_bare_confirm: "length bare_confirm = 11"
  by (simp add: bare_confirm_def)

lemma recv_bare:
  assumes s: "wf_stream s" "rest s = bare_confirm"
  shows "nego_recv (cl, s) =
    Ret () (nego_set_state (if \<not> enabled PROTOCOL_RDP cl then NEGO_STATE_FAIL else NEGO_STATE_FINAL) cl, adv 11 s)"
proof -
  have "parses (bindp tpkt_read_header ret) (enc_tpkt 11 @ []) (enc_tpdu 6 X224_TPDU_CONNECTION_CONFIRM) (of_nat 11)"
    by (rule parses_tpkt) (simp_all add: UINT16_MAX_def parses_ret)
  from parsesD [OF this, of s] s have 1: "tpkt_read_header s = Ret 11 (adv 4 s)"
    by (simp add: bindp_ret TPKT_HEADER_LENGTH_def bare_confirm_enc)
  have "parses (bindp (tpdu_read_header 11) ret) (enc_tpdu 6 X224_TPDU_CONNECTION_CONFIRM @ []) [] (X224_TPDU_CONNECTION_CONFIRM, ucast (6 :: u16))"
    by (rule parses_tpdu_header) (simp_all add: parses_ret)
  from parsesD [OF this, of "adv 4 s"] s
  have 2: "tpdu_read_header 11 (adv 4 s) = Ret (X224_TPDU_CONNECTION_CONFIRM, 6) (adv 11 s)"
    by (simp add: wf_adv rest_adv TPKT_HEADER_LENGTH_def bindp_ret bare_confirm_enc)
  have 3: "wf_stream (adv 11 s)" "rest (adv 11 s) = []"
    using s by (simp_all add: wf_adv rest_adv bare_confirm_def)
  show ?thesis
    using 1 2 3 by (simp add: nego_recv_def tpdu_read_connection_confirm_def bindp_def on_stream_def
        Stream_GetPosition_def check_wf SIZE_MAX_def ensure_consumed_wf UINT16_MAX_def)
qed

text \<open>A client that has enabled NLA and the standard security and none of the other protocols.\<close>

definition nla_and_rdp_only :: "'t rdpNego \<Rightarrow> bool" where
  "nla_and_rdp_only nego \<longleftrightarrow> (\<forall>p \<in> set negotiable. enabled p nego = (p = PROTOCOL_HYBRID \<or> p = PROTOCOL_RDP))"

text \<open>A client that may send its request: no preconnection PDU, a request that fits the length indicator, and an
  allocator that grants its two streams.\<close>

definition ready_to_ask :: "'t rdpNego \<Rightarrow> bool" where
  "ready_to_ask nego \<longleftrightarrow> nego_state nego = NEGO_STATE_INITIAL \<and> NegotiateSecurityLayer nego \<and>
     \<not> SendPreconnectionPdu nego \<and> length (token_bytes nego) \<le> 241 \<and> grants_mem nego 512 \<and> grants_mem nego 1024"

lemma refused_then_confirmed:
  assumes T: "delivers T inbox" "secures T" and n: "ready_to_ask n" "nla_and_rdp_only n" "\<not> lacks_mode srv n"
    and p: "SelectedProtocol srv \<in> set negotiable" "\<not> enabled (SelectedProtocol srv) n"
    and i: "inbox (net_state n) = enc_response srv # bare_confirm # ps"
  shows "\<exists>m. nego_connect T n = Some (Ret () m) \<and> SelectedProtocol m = SelectedProtocol srv \<and> SecurityConnected m"
proof -
  let ?p = "SelectedProtocol srv"
  note r = n(1) [unfolded ready_to_ask_def]
  have en: "enabled PROTOCOL_RDP n" "enabled PROTOCOL_HYBRID n" "\<not> enabled PROTOCOL_SSL n" "\<not> enabled PROTOCOL_RDSTLS n"
    "\<not> enabled PROTOCOL_HYBRID_EX n" "\<not> enabled PROTOCOL_RDSAAD n"
    using n(2) by (simp_all add: nla_and_rdp_only_def negotiable_def nego_consts)
  have p0: "?p \<noteq> 0" "?p \<noteq> PROTOCOL_RDP" "?p AND PROTOCOL_FAILED_NEGO = 0"
    using p en(1) by (auto simp: negotiable_def nego_consts)
  have st: "initial_state n = NEGO_STATE_NLA" using en by (simp add: initial_state_def)
  obtain t1 where start: "nego_start T n = Ret () (n\<lparr>nego_state := NEGO_STATE_NLA, net_state := t1, TcpConnected := True\<rparr>)"
      "inbox t1 = enc_response srv # bare_confirm # ps"
    using delivered_start [OF T(1), of n] r st i by auto
  let ?n1 = "n\<lparr>nego_state := NEGO_STATE_NLA, net_state := t1, TcpConnected := True\<rparr>"
  have tok: "token_bytes ?n1 = token_bytes n" by (simp add: token_bytes_def cong: option.case_cong)
  obtain t2 s2 where ask1: "wf_stream s2" "rest s2 = enc_response srv" "inbox t2 = bare_confirm # ps"
    "bindp (upd_nego (\<lambda>n. n\<lparr>RequestedProtocols := PROTOCOL_HYBRID OR PROTOCOL_SSL\<rparr>)) (\<lambda>_.
           bindp (nego_transport_connect T) (\<lambda>_.
           bindp (nego_send_negotiation_request T) (\<lambda>_. nego_recv_response T))) ?n1 =
    (case nego_recv (?n1\<lparr>RequestedProtocols := PROTOCOL_HYBRID OR PROTOCOL_SSL, net_state := t2, TcpConnected := True\<rparr>, s2) of
       Abort \<Rightarrow> Abort | Fail (m, _) \<Rightarrow> Fail m | Ret _ (m, _) \<Rightarrow> Ret () m)"
    using delivered_ask [OF T(1), of ?n1 "enc_response srv" "bare_confirm # ps" "PROTOCOL_HYBRID OR PROTOCOL_SSL"] r start(2) tok
    by (auto simp: UINT16_MAX_def)
  let ?n2 = "?n1\<lparr>RequestedProtocols := PROTOCOL_HYBRID OR PROTOCOL_SSL, net_state := t2, TcpConnected := True\<rparr>"
  let ?n3 = "?n2\<lparr>nego_flags := ucast (response_flags srv), SelectedProtocol := ?p, nego_state := NEGO_STATE_FAIL\<rparr>"
  have "check_selected (?n2\<lparr>nego_flags := ucast (response_flags srv), SelectedProtocol := ?p, nego_state := NEGO_STATE_FINAL\<rparr>) = ?n3"
    using p p0 by (auto simp: check_selected_def enabled_def nego_set_state_def)
  then have "answered srv ?n2 = ?n3"
    using p0 by (simp add: answered_def response_code_def nego_set_state_def nego_set_selected_protocol_def)
  then have recv1: "nego_recv (?n2, s2) = Ret () (?n3, adv 19 s2)"
    using recv_response [OF ask1(1,2), of ?n2] n(3) by (simp add: lacks_mode_def)
  have a1: "bindp (upd_nego (\<lambda>n. n\<lparr>RequestedProtocols := PROTOCOL_HYBRID OR PROTOCOL_SSL\<rparr>)) (\<lambda>_.
           bindp (nego_transport_connect T) (\<lambda>_.
           bindp (nego_send_negotiation_request T) (\<lambda>_. nego_recv_response T))) ?n1 = Ret () ?n3"
    by (simp only: ask1(4) recv1 outcome.case prod.case)
  obtain t3 where d: "nego_transport_disconnect T ?n3 = Ret () (?n3\<lparr>net_state := t3, TcpConnected := False, SecurityConnected := False\<rparr>)"
    and t3: "inbox t3 = bare_confirm # ps"
    using delivered_disconnect [OF T(1), of ?n3] ask1(3) by auto
  have "nego_send T ?n1 = attempt T (PROTOCOL_HYBRID OR PROTOCOL_SSL) (Some (first_enabled
      [(PROTOCOL_SSL, NEGO_STATE_TLS), (PROTOCOL_RDP, NEGO_STATE_RDP)])) ?n1"
    by (simp add: nego_send_def nego_get_state_def nego_attempt_nla_def)
  also have "\<dots> = bindp (nego_transport_disconnect T) (\<lambda>_. upd_nego (\<lambda>m. nego_set_state (first_enabled
      [(PROTOCOL_SSL, NEGO_STATE_TLS), (PROTOCOL_RDP, NEGO_STATE_RDP)] m) m)) ?n3"
    by (simp only: attempt_def a1 outcome.case option.case nego_get_state_def) simp
  also have "\<dots> = Ret () (?n3\<lparr>net_state := t3, TcpConnected := False, SecurityConnected := False, nego_state := NEGO_STATE_RDP\<rparr>)"
    using en unfolding bindp_def d outcome.case by (simp add: upd_nego_def nego_set_state_def enabled_def)
  finally have first: "nego_send T ?n1 =
      Ret () (?n3\<lparr>net_state := t3, TcpConnected := False, SecurityConnected := False, nego_state := NEGO_STATE_RDP\<rparr>)" .
  let ?n4 = "?n3\<lparr>net_state := t3, TcpConnected := False, SecurityConnected := False, nego_state := NEGO_STATE_RDP\<rparr>"
  have tok4: "token_bytes ?n4 = token_bytes n" by (simp add: token_bytes_def cong: option.case_cong)
  obtain t5 s5 where ask2: "wf_stream s5" "rest s5 = bare_confirm"
    "bindp (upd_nego (\<lambda>n. n\<lparr>RequestedProtocols := PROTOCOL_RDP\<rparr>)) (\<lambda>_.
           bindp (nego_transport_connect T) (\<lambda>_.
           bindp (nego_send_negotiation_request T) (\<lambda>_. nego_recv_response T))) ?n4 =
    (case nego_recv (?n4\<lparr>RequestedProtocols := PROTOCOL_RDP, net_state := t5, TcpConnected := True\<rparr>, s5) of
       Abort \<Rightarrow> Abort | Fail (m, _) \<Rightarrow> Fail m | Ret _ (m, _) \<Rightarrow> Ret () m)"
    using delivered_ask [OF T(1), of ?n4 bare_confirm ps PROTOCOL_RDP] r t3 tok4
    by (auto simp: UINT16_MAX_def length_bare_confirm)
  let ?n5 = "?n4\<lparr>RequestedProtocols := PROTOCOL_RDP, net_state := t5, TcpConnected := True, nego_state := NEGO_STATE_FINAL\<rparr>"
  have recv2: "nego_recv (?n4\<lparr>RequestedProtocols := PROTOCOL_RDP, net_state := t5, TcpConnected := True\<rparr>, s5) = Ret () (?n5, adv 11 s5)"
    using en(1) by (simp only: recv_bare [OF ask2(1,2)]) (simp add: enabled_def nego_set_state_def)
  have a2: "bindp (upd_nego (\<lambda>n. n\<lparr>RequestedProtocols := PROTOCOL_RDP\<rparr>)) (\<lambda>_.
           bindp (nego_transport_connect T) (\<lambda>_.
           bindp (nego_send_negotiation_request T) (\<lambda>_. nego_recv_response T))) ?n4 = Ret () ?n5"
    by (simp only: ask2(3) recv2 outcome.case prod.case)
  have "nego_send T ?n4 = attempt T PROTOCOL_RDP None ?n4"
    by (simp add: nego_send_def nego_get_state_def nego_attempt_rdp_def)
  also have "\<dots> = Ret () ?n5" by (simp only: attempt_def a2 outcome.case option.case)
  finally have "nego_send T ?n4 = Ret () ?n5" .
  then have "nego_loop T ?n4 = Some (Ret () ?n5)" by (subst nego_loop.simps) (simp add: nego_get_state_def)
  then have loop: "nego_loop T ?n1 = Some (Ret () ?n5)" using first by (subst nego_loop.simps) (simp add: nego_get_state_def)
  obtain m where "bindp nego_update_settings_from_state (\<lambda>_. bindp (upd_nego use_rdp_security) (\<lambda>_. nego_security_connect T)) ?n5 = Ret () m"
    "SelectedProtocol m = ?p" "SecurityConnected m"
    using secured_finish [OF T(2), of ?n5] p p0 by auto
  with start loop r show ?thesis by (simp add: nego_connect_def Let_def)
qed

section \<open>Two clients and a server\<close>

text \<open>A transport that connects and delivers the given packets one by one.\<close>

definition scripted_read :: "wStream \<Rightarrow> u8 list list \<Rightarrow> (int \<times> wStream) \<times> u8 list list" where
  "scripted_read s ps =
     (case ps of [] \<Rightarrow> ((-1, s), []) | p # ps \<Rightarrow> ((1, Stream_StaticInit (grants s) p), ps))"

definition scripted :: "u8 list list net" where
  "scripted = \<lparr>transport_set_gateway_enabled = \<lambda>_ t. t, transport_connect = \<lambda>_ _ _ t. (True, t),
     transport_connect_childsession = \<lambda>t. (True, t), transport_disconnect = \<lambda>t. t,
     net_write = \<lambda>_ t. (1, t), transport_read_pdu = scripted_read,
     transport_connect_aad = \<lambda>t. (True, t), transport_connect_rdstls = \<lambda>t. (True, t),
     transport_connect_nla = \<lambda>_ t. (True, t), transport_connect_tls = \<lambda>t. (True, t),
     transport_connect_rdp = \<lambda>t. (True, t), freerdp_get_last_error = \<lambda>_. 0,
     freerdp_set_last_error = \<lambda>_ t. t, ConvertUtf8ToWCharAlloc = \<lambda>_. (None, 0)\<rparr>"

text \<open>A client that may use NLA or the standard security of RDP, and a server that selects TLS.\<close>

definition nla_or_rdp :: "u8 list list \<Rightarrow> u8 list list rdpNego" where
  "nla_or_rdp ps = nego_set_negotiation_enabled True (nego_enable_nla True (nego_enable_rdp True
     (the (nego_new (\<lambda>_. True) 1 \<lparr>FreeRDP_RequestedProtocols = 0, FreeRDP_SelectedProtocol = 0,
        FreeRDP_NegotiationFlags = 0, FreeRDP_UseRdpSecurityLayer = False, FreeRDP_EncryptionMethods = 0,
        FreeRDP_EncryptionLevel = 0, FreeRDP_TcpConnectTimeout = 15000, FreeRDP_SupportGraphicsPipeline = False,
        FreeRDP_TlsSecurity = False, FreeRDP_NlaSecurity = True, FreeRDP_ExtSecurity = False,
        FreeRDP_RdstlsSecurity = False, FreeRDP_RdpSecurity = True, FreeRDP_LocalConnection = False,
        has_RdpServerRsaKey = False\<rparr> ps))))"

text \<open>A server that selects TLS.\<close>

definition tls_server :: "u8 list list rdpNego" where
  "tls_server = nego_set_selected_protocol PROTOCOL_SSL (nla_or_rdp [])"

lemma wf_StaticInit: "length p \<le> SIZE_MAX \<Longrightarrow> wf_stream (Stream_StaticInit g p)" "rest (Stream_StaticInit g p) = p"
  by (simp_all add: Stream_StaticInit_def wf_stream_def rest_def)

lemma scripted_delivers: "delivers scripted (\<lambda>ps. ps)" "secures scripted"
  by (auto simp: delivers_def secures_def scripted_def scripted_read_def wf_StaticInit SIZE_MAX_def UINT16_MAX_def)

lemma nla_or_rdp_sel [simp]:
  "EnabledProtocols (nla_or_rdp ps) = (\<lambda>_. False)(0 := True, 2 := True)" "nego_state (nla_or_rdp ps) = NEGO_STATE_INITIAL"
  "NegotiateSecurityLayer (nla_or_rdp ps)" "grants_mem (nla_or_rdp ps) = (\<lambda>_. True)" "net_state (nla_or_rdp ps) = ps"
  "RoutingToken (nla_or_rdp ps) = None" "cookie (nla_or_rdp ps) = None" "SelectedProtocol (nla_or_rdp ps) = 0"
  "GatewayEnabled (nla_or_rdp ps) = False" "ConnectChildSession (nla_or_rdp ps) = False"
  "SendPreconnectionPdu (nla_or_rdp ps) = False" "TcpConnected (nla_or_rdp ps) = False"
  "SecurityConnected (nla_or_rdp ps) = False" "failureCode (nla_or_rdp ps) = 0" "sendNegoData (nla_or_rdp ps) = False"
  "RestrictedAdminModeRequired (nla_or_rdp ps) = False" "RemoteCredsGuardRequired (nla_or_rdp ps) = False"
  by (simp_all add: nla_or_rdp_def nego_new_def nego_init_def nego_set_state_def nego_set_negotiation_enabled_def
      nego_enable_nla_def nego_enable_rdp_def enable_def nego_consts fun_upd_twist)

text \<open>A client that may use TLS alone, and gets it.\<close>

definition tls_client :: "u8 list list \<Rightarrow> u8 list list rdpNego" where
  "tls_client ps = nego_enable_tls True (nego_enable_nla False (nego_enable_rdp False (nla_or_rdp ps)))"

lemma tls_client_sel [simp]:
  "EnabledProtocols (tls_client ps) = (\<lambda>_. False)(1 := True)" "nego_state (tls_client ps) = NEGO_STATE_INITIAL"
  "NegotiateSecurityLayer (tls_client ps)" "grants_mem (tls_client ps) = (\<lambda>_. True)" "net_state (tls_client ps) = ps"
  "RoutingToken (tls_client ps) = None" "cookie (tls_client ps) = None"
  "GatewayEnabled (tls_client ps) = False" "ConnectChildSession (tls_client ps) = False"
  "SendPreconnectionPdu (tls_client ps) = False" "TcpConnected (tls_client ps) = False"
  "SecurityConnected (tls_client ps) = False"
  "RestrictedAdminModeRequired (tls_client ps) = False" "RemoteCredsGuardRequired (tls_client ps) = False"
  by (auto simp: tls_client_def nego_enable_nla_def nego_enable_rdp_def nego_enable_tls_def enable_def nego_consts fun_eq_iff)

lemma tls_run_connects:
  "\<exists>m. nego_connect scripted (tls_client [enc_response tls_server]) = Some (Ret () m) \<and>
     SelectedProtocol m = PROTOCOL_SSL"
proof -
  let ?n0 = "tls_client [enc_response tls_server]"
  note T = scripted_delivers(1)
  have srv: "SelectedProtocol tls_server = 1" by (simp add: tls_server_def nego_consts)
  have "initial_state ?n0 = NEGO_STATE_TLS" by (simp add: initial_state_def enabled_def nego_consts)
  then obtain t1 where start: "nego_start scripted ?n0 =
      Ret () (?n0\<lparr>nego_state := NEGO_STATE_TLS, net_state := t1, TcpConnected := True\<rparr>)" "t1 = [enc_response tls_server]"
    using delivered_start [OF T, of ?n0] by auto
  let ?n1 = "?n0\<lparr>nego_state := NEGO_STATE_TLS, net_state := t1, TcpConnected := True\<rparr>"
  let ?ask = "bindp (upd_nego (\<lambda>n. n\<lparr>RequestedProtocols := PROTOCOL_SSL\<rparr>)) (\<lambda>_.
           bindp (nego_transport_connect scripted) (\<lambda>_.
           bindp (nego_send_negotiation_request scripted) (\<lambda>_. nego_recv_response scripted)))"
  obtain t2 s where ask: "wf_stream s" "rest s = enc_response tls_server"
    "?ask ?n1 = (case nego_recv (?n1\<lparr>RequestedProtocols := PROTOCOL_SSL, net_state := t2, TcpConnected := True\<rparr>, s) of
       Abort \<Rightarrow> Abort | Fail (m, _) \<Rightarrow> Fail m | Ret _ (m, _) \<Rightarrow> Ret () m)"
    using delivered_ask [OF T, of ?n1 "enc_response tls_server" "[]" PROTOCOL_SSL] start(2)
    by (auto simp: token_bytes_def UINT16_MAX_def)
  let ?n2 = "?n1\<lparr>RequestedProtocols := PROTOCOL_SSL, net_state := t2, TcpConnected := True\<rparr>"
  let ?n3 = "?n2\<lparr>nego_flags := ucast (response_flags tls_server), SelectedProtocol := PROTOCOL_SSL, nego_state := NEGO_STATE_FINAL\<rparr>"
  have "nego_recv (?n2, s) = Ret () (?n3, adv 19 s)"
    by (subst recv_response [OF ask(1,2)])
       (simp_all add: srv lacks_mode_def answered_def check_selected_def response_code_def
        negotiable_def enabled_def nego_consts nego_set_state_def nego_set_selected_protocol_def)
  then have a: "?ask ?n1 = Ret () ?n3" by (simp only: ask(3) outcome.case prod.case)
  have "nego_send scripted ?n1 = attempt scripted PROTOCOL_SSL (Some (first_enabled [(PROTOCOL_RDP, NEGO_STATE_RDP)])) ?n1"
    by (simp add: nego_send_def nego_get_state_def nego_attempt_tls_def)
  also have "\<dots> = Ret () ?n3" by (simp only: attempt_def a outcome.case option.case nego_get_state_def) simp
  finally have "nego_loop scripted ?n1 = Some (Ret () ?n3)"
    by (subst nego_loop.simps) (simp add: nego_get_state_def)
  moreover obtain m where "bindp nego_update_settings_from_state (\<lambda>_. bindp (upd_nego use_rdp_security) (\<lambda>_. nego_security_connect scripted)) ?n3 = Ret () m"
    "SelectedProtocol m = PROTOCOL_SSL"
    using secured_finish [OF scripted_delivers(2), of ?n3] by (auto simp: negotiable_def nego_consts)
  ultimately show ?thesis using start(1) by (simp add: nego_connect_def Let_def)
qed

text \<open>A client that asks for NLA or TLS with a cookie.\<close>

definition asking_client :: "u8 list list rdpNego" where
  "asking_client = (nla_or_rdp [])\<lparr>cookie := Some (ascii ''ann''), RequestedProtocols := 3\<rparr>"

lemma asking_client_sel:
  "cookie asking_client = Some (ascii ''ann'')" "RequestedProtocols asking_client = 3"
  "RoutingToken asking_client = None" "grants_mem asking_client = (\<lambda>_. True)"
  "\<not> RestrictedAdminModeRequired asking_client" "\<not> RemoteCredsGuardRequired asking_client"
  "CookieMaxLength asking_client = 255"
  by (simp_all add: asking_client_def nla_or_rdp_def nego_new_def nego_init_def DEFAULT_COOKIE_MAX_LENGTH_def
      nego_set_negotiation_enabled_def nego_enable_nla_def nego_enable_rdp_def enable_def nego_set_state_def)

end
