(* ===== verification/NegoServer.thy ===== *)
theory NegoServer
  imports NegoFacts
begin

text \<open>
  Memory safety of the server side of the negotiation, which overwrites the end of the line it
  reads in the packet.
\<close>

unbundle bit_operations_syntax

section \<open>The server stays inside the request\<close>

text \<open>The server overwrites the end of the line it reads, so the packet changes, but not its size.
  \<open>span N L p n s\<close> is \<open>window\<close> for the sizes alone.\<close>

definition span :: "nat \<Rightarrow> nat \<Rightarrow> nat \<Rightarrow> nat \<Rightarrow> wStream \<Rightarrow> bool" where
  "span N L p n s \<longleftrightarrow> length (buffer s) = N \<and> slength s = L \<and> L \<le> N \<and> p \<le> pointer s \<and> pointer s + n \<le> L"

definition handler_span :: "('a, 'm \<times> wStream) prog \<Rightarrow> bool" where
  "handler_span m \<longleftrightarrow> (\<forall>N L p. triple (\<lambda>(c, s). span N L p 0 s) m
     (\<lambda>_ (c, s). span N L p 0 s) (\<lambda>(c, s). span N L p 0 s))"

named_theorems span_intros "handlers that stay inside their packet and keep its size"

lemma window_span: "window (buffer s) L p 0 s \<longleftrightarrow> span (length (buffer s)) L p 0 s"
  by (auto simp: window_def span_def)

lemma window_span': "window B L p 0 s \<Longrightarrow> span (length B) L p 0 s"
  by (auto simp: window_def span_def)

lemma handler_span_ok [span_intros]:
  fixes m :: "('a, 'm \<times> wStream) prog"
  assumes "handler_ok m"
  shows "handler_span m"
proof (unfold handler_span_def, intro allI tripleI, clarsimp)
  fix N L p s and c :: 'm assume sp: "span N L p 0 s"
  then have w: "window (buffer s) L p 0 s" and N: "N = length (buffer s)" by (auto simp: window_span span_def)
  have "triple (\<lambda>(c, t). window (buffer s) L p 0 t) m
     (\<lambda>_ (c, t). window (buffer s) L p 0 t) (\<lambda>(c, t). window (buffer s) L p 0 t)"
    using assms by (simp add: handler_ok_def)
  then have "case m (c, s) of Abort \<Rightarrow> False
      | Fail t \<Rightarrow> (case t of (c, t) \<Rightarrow> window (buffer s) L p 0 t)
      | Ret x t \<Rightarrow> (case t of (c, t) \<Rightarrow> window (buffer s) L p 0 t)"
    by (rule tripleD) (simp add: w)
  then show "case m (c, s) of Abort \<Rightarrow> False | Fail (c, t) \<Rightarrow> span N L p 0 t | Ret x (c, t) \<Rightarrow> span N L p 0 t"
    by (cases "m (c, s)") (auto simp: N window_span')
qed

lemma handler_span_bindp:
  "handler_span m \<Longrightarrow> (\<And>x. handler_span (k x)) \<Longrightarrow> handler_span (bindp m k)"
  unfolding handler_span_def by (blast intro: triple_bindp)

lemma find_crlf_span:
  assumes "span N L p 0 s"
  shows "case find_crlf n seen s of Abort \<Rightarrow> False | Fail t \<Rightarrow> False
    | Ret w t \<Rightarrow> span N L p 0 t \<and> (w = 0x0A0D \<longrightarrow> seen = 0x0A0D \<or> p + 2 \<le> pointer t)"
  using assms
proof (induction n arbitrary: seen s)
  case 0
  then show ?case by simp
next
  case (Suc n)
  have rem: "Stream_GetRemainingLength s = Ret (L - pointer s) s"
    using Suc.prems by (auto simp: span_def stream_defs)
  show ?case
  proof (cases "L - pointer s \<ge> 2")
    case True
    moreover from this have "2 \<le> length (buffer s) - pointer s" using Suc.prems by (auto simp: span_def)
    ultimately obtain w where r: "Stream_Read_UINT16 s = Ret w (adv 2 s)"
      using Suc.prems by (auto simp: span_def stream_read_u16_le_def stream_read_def stream_defs bindp_def Let_def adv_def)
    have "Stream_Rewind 1 (adv 2 s) = Ret () (adv 1 s)" by (simp add: Stream_Rewind_def adv_def)
    moreover have "span N L p 0 (adv 1 s)" "span N L p 0 (adv 2 s)" "p + 2 \<le> pointer (adv 2 s)"
      using Suc.prems True by (auto simp: span_def)
    ultimately show ?thesis using True rem r Suc.IH [of "adv 1 s" w]
      by (auto simp: bindp_def split: outcome.splits)
  next
    case False
    with Suc.prems rem show ?thesis by (simp add: bindp_def)
  qed
qed

lemma read_line_span:
  assumes "span N L pos 0 s"
  shows "case read_line isToken pos remain (c, s) of Abort \<Rightarrow> False
    | Fail (_, t) \<Rightarrow> span N L pos 0 t | Ret _ (_, t) \<Rightarrow> span N L pos 0 t"
proof -
  obtain w t where f: "find_crlf remain 0 s = Ret w t" and t: "span N L pos 0 t"
    and w: "w = 0x0A0D \<longrightarrow> pos + 2 \<le> pointer t"
    using find_crlf_span [OF assms, where n = remain and seen = 0] 
    by (cases "find_crlf remain 0 s") auto
  have rewound: "Stream_SetPosition pos u = Ret () (u\<lparr>pointer := pos\<rparr>) \<and> span N L pos 0 (u\<lparr>pointer := pos\<rparr>)"
    if "span N L pos 0 u" for u
    using that by (auto simp: span_def Stream_SetPosition_def Stream_Capacity_def)
  show ?thesis
  proof (cases "w = 0x0A0D")
    case False
    with f t rewound [OF t] show ?thesis by (simp add: read_line_def bindp_def on_stream_def)
  next
    case True
    let ?u = "t\<lparr>pointer := pointer t - 2\<rparr>" and ?v = "put [0, 0] (t\<lparr>pointer := pointer t - 2\<rparr>)"
    have r: "Stream_Rewind 2 t = Ret () ?u" using w True by (simp add: Stream_Rewind_def)
    have wr: "Stream_Write_UINT16_unchecked 0 ?u = Ret () ?v"
      using t w True by (auto simp: Stream_Write_UINT16_unchecked_def le_zero stream_store_def stream_defs bindp_def span_def)
    have v: "span N L pos 0 ?v"
      using t w True by (auto simp: span_def put_def overwrite_def)
    show ?thesis
      using f True r wr v rewound [OF v]
      by (auto simp: read_line_def bindp_def on_stream_def Let_def split_beta split: prod.splits)
  qed
qed

lemma spanI:
  assumes "\<And>N L p c s. span N L p 0 s \<Longrightarrow> case m (c, s) of Abort \<Rightarrow> False
    | Fail (_, t) \<Rightarrow> span N L p 0 t | Ret _ (_, t) \<Rightarrow> span N L p 0 t"
  shows "handler_span m"
proof (unfold handler_span_def, intro allI tripleI, clarsimp)
  fix N L p c s assume "span N L p 0 s"
  from assms [OF this, of c] show "case m (c, s) of Abort \<Rightarrow> False | Fail (c, t) \<Rightarrow> span N L p 0 t
    | Ret x (c, t) \<Rightarrow> span N L p 0 t" .
qed

lemma span_from: "span N L q 0 t \<Longrightarrow> p \<le> q \<Longrightarrow> span N L p 0 t"
  by (auto simp: span_def)

lemma token_or_cookie_span: "handler_span nego_read_request_token_or_cookie"
proof (rule spanI)
  fix N L p s and c :: "'a rdpNego"
  assume sp: "span N L p 0 s"
  let ?rem = "slength s - pointer s"
  have rem: "Stream_GetRemainingLength s = Ret ?rem s"
    using sp by (auto simp: span_def stream_defs)
  have here: "span N L (pointer s) 0 s" "p \<le> pointer s" using sp by (auto simp: span_def)
  have seek: "Stream_Seek 17 s = Ret () (adv 17 s)" "span N L (pointer s) 0 (adv 17 s)" if "\<not> ?rem < 19"
    using that sp by (auto simp: span_def stream_defs bindp_def adv_def)
  have line: "case read_line isToken (pointer s) ?rem (c, t) of Abort \<Rightarrow> False
    | Fail (_, t) \<Rightarrow> span N L p 0 t | Ret _ (_, t) \<Rightarrow> span N L p 0 t"
    if "span N L (pointer s) 0 t" for isToken t
    using read_line_span [OF that, of isToken ?rem c] span_from [OF _ here(2)]
    by (auto split: outcome.splits)
  show "case nego_read_request_token_or_cookie (c, s) of Abort \<Rightarrow> False
    | Fail (_, t) \<Rightarrow> span N L p 0 t | Ret _ (_, t) \<Rightarrow> span N L p 0 t"
    using sp line [OF here(1)] line [OF seek(2)] seek(1)
    by (simp add: nego_read_request_token_or_cookie_def on_stream_def bindp_def rem Let_def Stream_GetPosition_def)
qed

lemma correlation_ok: "handler_ok nego_process_correlation_info"
  unfolding nego_process_correlation_info_def
  by (intro handler_on_stream reads_intros) simp_all

lemma request_ok: "handler_ok nego_process_negotiation_request"
  unfolding nego_process_negotiation_request_def handler_reads_0
  apply (intro handler_reads_intros)
   apply simp
  apply (rule handler_reads_keep, simp)
  apply (rule handler_reads_keep, simp)
  apply (intro handler_reads_intros handler_reads_bindp [OF handler_reads_if] handler_reads_weaken [OF correlation_ok])
   apply simp_all
  done

lemma handler_reads_remaining:
  "(\<And>rem. handler_reads rem (k rem)) \<Longrightarrow> handler_reads n (bindp (on_stream Stream_GetRemainingLength) k)"
  by (rule handler_reads_step [where k = "\<lambda>rem. rem"]) (auto simp: triple_def window_def stream_defs)

lemma reads_remaining: "reads_ok n Stream_GetRemainingLength"
  by (auto simp: reads_ok_def triple_def window_def stream_defs)

lemma nego_read_request_span: "handler_span nego_read_request"
proof -
  have tail: "handler_ok (bindp (on_stream Stream_GetRemainingLength) (\<lambda>rem.
     bindp (if rem \<ge> 8 then
              bindp (on_stream Stream_Read_UINT8) (\<lambda>type.
              bindp (require (\<not> type \<noteq> TYPE_RDP_NEG_REQ)) (\<lambda>_. nego_process_negotiation_request))
            else ret ()) (\<lambda>_.
     on_stream (tpkt_ensure_stream_consumed (unat len)))) :: (unit, 'a) nego_handler)" for len :: u16
    unfolding handler_reads_0
    by (rule handler_reads_remaining, intro handler_reads_bindp [OF handler_reads_if] handler_reads_intros
        handler_reads_weaken [OF request_ok] handler_reads_on_stream reads_ensure_consumed) simp
  show ?thesis
    unfolding nego_read_request_def
    by (rule handler_span_bindp, rule handler_span_ok, rule handler_on_stream, rule reads_tpkt_header,
        rule handler_span_bindp, rule handler_span_ok, rule handler_on_stream, rule reads_tpdu_connection_request,
        rule handler_span_bindp, rule handler_span_ok, rule handler_on_stream, rule reads_remaining,
        rule handler_span_bindp, rule handler_span_ok, rule handler_require,
        rule handler_span_bindp, rule token_or_cookie_span, rule handler_span_ok, rule tail)
qed

text \<open>A run that ends without an abort, in a packet of the same size.\<close>

definition inside_span :: "wStream \<Rightarrow> ('a, 'm \<times> wStream) outcome \<Rightarrow> bool" where
  "inside_span s r \<longleftrightarrow>
     (case r of
        Abort \<Rightarrow> False
      | Fail (_, t) \<Rightarrow> wf_stream t \<and> length (buffer t) = length (buffer s) \<and> slength t = slength s \<and> pointer s \<le> pointer t
      | Ret _ (_, t) \<Rightarrow> wf_stream t \<and> length (buffer t) = length (buffer s) \<and> slength t = slength s \<and> pointer s \<le> pointer t)"

lemma handler_inside_span:
  assumes "handler_span h" and "wf_stream s"
  shows "inside_span s (h (c, s))"
proof -
  have "triple (\<lambda>(c, t). span (length (buffer s)) (slength s) (pointer s) 0 t) h
     (\<lambda>_ (c, t). span (length (buffer s)) (slength s) (pointer s) 0 t)
     (\<lambda>(c, t). span (length (buffer s)) (slength s) (pointer s) 0 t)"
    using assms(1) by (simp add: handler_span_def)
  moreover have "case (c, s) of (c, t) \<Rightarrow> span (length (buffer s)) (slength s) (pointer s) 0 t"
    using assms(2) by (auto simp: span_def wf_stream_def)
  ultimately have "case h (c, s) of Abort \<Rightarrow> False
      | Fail t \<Rightarrow> (case t of (c, t) \<Rightarrow> span (length (buffer s)) (slength s) (pointer s) 0 t)
      | Ret x t \<Rightarrow> (case t of (c, t) \<Rightarrow> span (length (buffer s)) (slength s) (pointer s) 0 t)"
    by (rule tripleD)
  with assms(2) show ?thesis
    by (cases "h (c, s)") (auto simp: inside_span_def span_def wf_stream_def)
qed

end
