(* ===== verification/BitStream.thy ===== *)
theory BitStream
  imports Prelude
begin

text \<open>
  The bit streams of \<^verbatim>\<open>winpr/include/winpr/bitstream.h\<close> and
  \<^verbatim>\<open>libwinpr/utils/collections/BitStream.c\<close>, which the bulk compressors read and write, most
  significant bit first, through a window of 32 bits. \<open>reads_at\<close> and \<open>writes_at\<close> say what the
  window holds; each operation has one lemma that keeps them.
\<close>

unbundle bit_operations_syntax

section \<open>State and operations\<close>

text \<open>\<^verbatim>\<open>pointer\<close> is kept as its offset from \<^verbatim>\<open>buffer\<close>.\<close>

record wBitStream =
  bs_buffer :: "u8 list"
  bs_pointer :: nat
  bs_position :: u32
  bs_length :: u32
  bs_capacity :: u32
  bs_mask :: u32
  bs_offset :: u32
  bs_prefetch :: u32
  bs_accumulator :: u32

text \<open>The byte \<open>i\<close> behind the pointer, moved to its place in the window; bytes behind the capacity
  are not read.\<close>

definition window_byte :: "wBitStream \<Rightarrow> nat \<Rightarrow> nat \<Rightarrow> u32" where
  "window_byte bs i shift =
     (if bs_pointer bs + i < unat (bs_capacity bs) then push_bit shift (ucast (bs_buffer bs ! (bs_pointer bs + i)))
      else 0)"

definition BitStream_Prefetch :: "wBitStream \<Rightarrow> wBitStream" where
  "BitStream_Prefetch bs = bs\<lparr>bs_prefetch :=
     window_byte bs 4 24 OR window_byte bs 5 16 OR window_byte bs 6 8 OR window_byte bs 7 0\<rparr>"

definition BitStream_Fetch :: "wBitStream \<Rightarrow> wBitStream" where
  "BitStream_Fetch bs = BitStream_Prefetch (bs\<lparr>bs_accumulator :=
     window_byte bs 0 24 OR window_byte bs 1 16 OR window_byte bs 2 8 OR window_byte bs 3 0\<rparr>)"

definition store_byte :: "nat \<Rightarrow> nat \<Rightarrow> wBitStream \<Rightarrow> wBitStream" where
  "store_byte i shift bs =
     (if bs_pointer bs + i < unat (bs_capacity bs)
      then bs\<lparr>bs_buffer := (bs_buffer bs)[bs_pointer bs + i := ucast (drop_bit shift (bs_accumulator bs) AND 0xFF)]\<rparr>
      else bs)"

definition BitStream_Flush :: "wBitStream \<Rightarrow> wBitStream" where
  "BitStream_Flush bs = store_byte 3 0 (store_byte 2 8 (store_byte 1 16 (store_byte 0 24 bs)))"

text \<open>Shifting \<open>n\<close> bits out of the accumulator and the same number in from the prefetched word.\<close>

definition shift_in_bits :: "nat \<Rightarrow> wBitStream \<Rightarrow> wBitStream" where
  "shift_in_bits n bs =
     (let mask = push_bit n 1 - 1 in
      bs\<lparr>bs_mask := mask,
         bs_accumulator := bs_accumulator bs OR (drop_bit (32 - n) (bs_prefetch bs) AND mask),
         bs_prefetch := push_bit n (bs_prefetch bs)\<rparr>)"

definition BitStream_Shift :: "nat \<Rightarrow> wBitStream \<Rightarrow> wBitStream" where
  "BitStream_Shift nbits bs =
     (if nbits = 0 then bs
      else if nbits < 32 then
        (let bs1 = bs\<lparr>bs_accumulator := push_bit nbits (bs_accumulator bs),
                      bs_position := bs_position bs + of_nat nbits,
                      bs_offset := bs_offset bs + of_nat nbits\<rparr>;
             bs2 = shift_in_bits nbits bs1
         in if bs_offset bs1 < 32 then bs2
            else
              (let bs3 = BitStream_Prefetch (bs2\<lparr>bs_offset := bs_offset bs2 - 32, bs_pointer := bs_pointer bs2 + 4\<rparr>)
               in if bs_offset bs3 \<noteq> 0 then shift_in_bits (unat (bs_offset bs3)) bs3 else bs3))
      else bs)"

definition BitStream_Shift32 :: "wBitStream \<Rightarrow> wBitStream" where
  "BitStream_Shift32 bs = BitStream_Shift 16 (BitStream_Shift 16 bs)"

definition BitStream_Write_Bits :: "u32 \<Rightarrow> nat \<Rightarrow> wBitStream \<Rightarrow> wBitStream" where
  "BitStream_Write_Bits bits nbits bs =
     (let bs1 = bs\<lparr>bs_position := bs_position bs + of_nat nbits, bs_offset := bs_offset bs + of_nat nbits\<rparr>;
          off = bs_offset bs1
      in if off < 32
         then bs1\<lparr>bs_accumulator := bs_accumulator bs1 OR push_bit (32 - unat off) bits\<rparr>
         else
           (let off = off - 32;
                mask = push_bit (nbits - unat off) 1 - 1;
                bs2 = BitStream_Flush (bs1\<lparr>bs_offset := off, bs_mask := mask,
                        bs_accumulator := bs_accumulator bs1 OR (drop_bit (unat off) bits AND mask)\<rparr>);
                bs3 = bs2\<lparr>bs_accumulator := 0, bs_pointer := bs_pointer bs2 + 4\<rparr>
            in if off \<noteq> 0
               then (let mask = push_bit (unat off) 1 - 1 in
                     bs3\<lparr>bs_mask := mask, bs_accumulator := push_bit (32 - unat off) (bits AND mask)\<rparr>)
               else bs3))"

definition BitStream_GetRemainingLength :: "wBitStream \<Rightarrow> u32" where
  "BitStream_GetRemainingLength bs = bs_length bs - bs_position bs"

definition BitStream_Attach :: "u8 list \<Rightarrow> u32 \<Rightarrow> wBitStream \<Rightarrow> wBitStream" where
  "BitStream_Attach buf capacity bs = bs\<lparr>bs_position := 0, bs_buffer := buf, bs_offset := 0, bs_accumulator := 0,
     bs_pointer := 0, bs_capacity := capacity, bs_length := capacity * 8\<rparr>"

definition BitStream_New :: "(nat \<Rightarrow> bool) \<Rightarrow> nat \<Rightarrow> wBitStream option" where
  "BitStream_New grant sizeof_bs =
     (if grant sizeof_bs
      then Some \<lparr>bs_buffer = [], bs_pointer = 0, bs_position = 0, bs_length = 0, bs_capacity = 0, bs_mask = 0,
             bs_offset = 0, bs_prefetch = 0, bs_accumulator = 0\<rparr>
      else None)"

text \<open>The loop runs once even for \<open>nbits = 0\<close>, and then 2 to the 32 times: \<^verbatim>\<open>nbits\<close> wraps.\<close>

fun reverse_bits_loop :: "nat \<Rightarrow> u32 \<Rightarrow> u32 \<Rightarrow> u32" where
  "reverse_bits_loop 0 bits rbits = rbits"
| "reverse_bits_loop (Suc n) bits rbits = reverse_bits_loop n (drop_bit 1 bits) (push_bit 1 (rbits OR (bits AND 1)))"

definition ReverseBits32 :: "u32 \<Rightarrow> u32 \<Rightarrow> u32" where
  "ReverseBits32 bits nbits =
     drop_bit 1 (reverse_bits_loop (if nbits = 0 then 4294967296 else unat nbits) bits 0)"

section \<open>Reading\<close>

text \<open>The bits of a list of bytes, most significant bit first, and no bits behind its end.\<close>

definition sbit :: "u8 list \<Rightarrow> nat \<Rightarrow> bool" where
  "sbit buf k \<longleftrightarrow> k div 8 < length buf \<and> bit (buf ! (k div 8)) (7 - k mod 8)"

definition reads_at :: "u8 list \<Rightarrow> nat \<Rightarrow> wBitStream \<Rightarrow> bool" where
  "reads_at buf p bs \<longleftrightarrow>
     bs_buffer bs = buf \<and> length buf < 2 ^ 29 \<and> bs_capacity bs = of_nat (length buf) \<and>
     bs_length bs = of_nat (8 * length buf) \<and> bs_pointer bs = 4 * (p div 32) \<and> bs_position bs = of_nat p \<and>
     bs_offset bs = of_nat (p mod 32) \<and>
     (\<forall>i < 32. bit (bs_accumulator bs) i = sbit buf (p + 31 - i)) \<and>
     (\<forall>i < 32. bit (bs_prefetch bs) i = (p mod 32 \<le> i \<and> sbit buf (p + 63 - i)))"

lemma capacity_unat: "length buf < 2 ^ 29 \<Longrightarrow> unat (of_nat (length buf) :: u32) = length buf"
  by (simp add: unat_of_nat take_bit_nat_eq_self)

lemma byte_split: "d < 8 \<Longrightarrow> (8 * x + d) div 8 = x \<and> (8 * x + d) mod 8 = d" for d x :: nat
  by simp

lemma window_byte_bit:
  assumes "bs_capacity bs = of_nat (length (bs_buffer bs))" and "length (bs_buffer bs) < 2 ^ 29" and "shift \<le> 24" and "i < 32"
  shows "bit (window_byte bs j shift) i =
    (shift \<le> i \<and> i < shift + 8 \<and> sbit (bs_buffer bs) (8 * (bs_pointer bs + j) + 7 + shift - i))"
proof (cases "shift \<le> i \<and> i < shift + 8")
  case True
  define d where "d = 7 + shift - i"
  have d: "8 * (bs_pointer bs + j) + 7 + shift - i = 8 * (bs_pointer bs + j) + d" "d < 8" "7 - d = i - shift"
    using True unfolding d_def by linarith+
  have "(8 * (bs_pointer bs + j) + d) div 8 = bs_pointer bs + j" "(8 * (bs_pointer bs + j) + d) mod 8 = d"
    using byte_split [OF d(2)] by blast+
  with True d show ?thesis
    using assms capacity_unat [OF assms(2)] by (auto simp: window_byte_def sbit_def bit_simps)
next
  case False
  then show ?thesis
    using assms(4) by (auto simp: window_byte_def bit_simps dest: bit_imp_le_length)
qed

lemma window_bits:
  assumes "bs_capacity bs = of_nat (length (bs_buffer bs))" and "length (bs_buffer bs) < 2 ^ 29" and "i < 32"
  shows "bit (window_byte bs j 24 OR window_byte bs (j + 1) 16 OR window_byte bs (j + 2) 8 OR window_byte bs (j + 3) 0) i =
    sbit (bs_buffer bs) (8 * (bs_pointer bs + j) + 31 - i)"
proof -
  note b = window_byte_bit [OF assms(1,2) _ assms(3)]
  have e: "8 * (bs_pointer bs + (j + d)) + 7 + (24 - 8 * d) - i = 8 * (bs_pointer bs + j) + 31 - i" if "d \<le> 3" for d
    using that by simp
  note e = e [of 0, simplified] e [of 1, simplified] e [of 2, simplified] e [of 3, simplified]
  consider "24 \<le> i" | "16 \<le> i" "i < 24" | "8 \<le> i" "i < 16" | "i < 8" by linarith
  then show ?thesis
    by cases (use assms(3) e in \<open>simp_all add: bit_or_iff b\<close>)
qed


lemma prefetch_sel [simp]:
  "bs_buffer (BitStream_Prefetch bs) = bs_buffer bs" "bs_pointer (BitStream_Prefetch bs) = bs_pointer bs"
  "bs_position (BitStream_Prefetch bs) = bs_position bs" "bs_length (BitStream_Prefetch bs) = bs_length bs"
  "bs_capacity (BitStream_Prefetch bs) = bs_capacity bs" "bs_offset (BitStream_Prefetch bs) = bs_offset bs"
  "bs_accumulator (BitStream_Prefetch bs) = bs_accumulator bs"
  by (simp_all add: BitStream_Prefetch_def)

lemma prefetch_bits:
  assumes "bs_capacity bs = of_nat (length (bs_buffer bs))" and "length (bs_buffer bs) < 2 ^ 29" and "i < 32"
  shows "bit (bs_prefetch (BitStream_Prefetch bs)) i = sbit (bs_buffer bs) (8 * bs_pointer bs + 63 - i)"
  using window_bits [OF assms, of 4] assms(3) by (simp add: BitStream_Prefetch_def algebra_simps)

lemma fetch_reads:
  assumes "length buf < 2 ^ 29"
  shows "reads_at buf 0 (BitStream_Fetch (BitStream_Attach buf (of_nat (length buf)) bs))"
proof -
  define a where "a = BitStream_Attach buf (of_nat (length buf)) bs"
  have a: "bs_buffer a = buf" "bs_capacity a = of_nat (length (bs_buffer a))" "bs_pointer a = 0" "bs_position a = 0"
    "bs_offset a = 0" "bs_length a = of_nat (8 * length buf)" "length (bs_buffer a) < 2 ^ 29"
    using assms by (simp_all add: a_def BitStream_Attach_def)
  define w where "w = window_byte a 0 24 OR window_byte a 1 16 OR window_byte a 2 8 OR window_byte a 3 0"
  have "bit w i = sbit buf (31 - i)" if "i < 32" for i
    using window_bits [OF a(2,7) that, of 0] that by (simp add: w_def a(1,3) numeral_2_eq_2 numeral_3_eq_3)
  moreover have "bit (bs_prefetch (BitStream_Prefetch (a\<lparr>bs_accumulator := w\<rparr>))) i = sbit buf (63 - i)" if "i < 32" for i
    using prefetch_bits [of "a\<lparr>bs_accumulator := w\<rparr>" i] a that by simp
  moreover have "BitStream_Fetch a = BitStream_Prefetch (a\<lparr>bs_accumulator := w\<rparr>)"
    by (simp add: BitStream_Fetch_def w_def)
  ultimately show ?thesis
    using assms a by (simp add: reads_at_def flip: a_def)
qed

lemma low_mask_bit: "n < 32 \<Longrightarrow> bit (push_bit n 1 - 1 :: u32) i = (i < n)"
  using push_bit_eq_mult [of n "1 :: u32"] by (auto simp: bit_mask_iff simp flip: mask_eq_exp_minus_1)

text \<open>Shifting \<open>n\<close> bits in fills the low end of the accumulator from the high end of the prefetched word.\<close>

lemma shift_in_bits_bits:
  assumes "0 < n" and "n < 32" and "i < 32"
  shows "bit (bs_accumulator (shift_in_bits n bs)) i =
      (bit (bs_accumulator bs) i \<or> i < n \<and> bit (bs_prefetch bs) (i + 32 - n))"
    and "bit (bs_prefetch (shift_in_bits n bs)) i = (n \<le> i \<and> bit (bs_prefetch bs) (i - n))"
  using assms low_mask_bit [of n i] by (auto simp: shift_in_bits_def Let_def bit_simps algebra_simps)

lemma shift_in_sel [simp]:
  "bs_buffer (shift_in_bits n bs) = bs_buffer bs" "bs_pointer (shift_in_bits n bs) = bs_pointer bs"
  "bs_position (shift_in_bits n bs) = bs_position bs" "bs_length (shift_in_bits n bs) = bs_length bs"
  "bs_capacity (shift_in_bits n bs) = bs_capacity bs" "bs_offset (shift_in_bits n bs) = bs_offset bs"
  by (simp_all add: shift_in_bits_def Let_def)

lemma shift_reads:
  assumes r: "reads_at buf p bs" and n: "0 < n" "n < 32"
  shows "reads_at buf (p + n) (BitStream_Shift n bs)"
proof -
  define a where "a = bs\<lparr>bs_accumulator := push_bit n (bs_accumulator bs),
    bs_position := bs_position bs + of_nat n, bs_offset := bs_offset bs + of_nat n\<rparr>"
  define e where "e = p mod 32 + n"
  have e: "e < 64" "p + n = 32 * (p div 32) + e" using n by (simp_all add: e_def)
  have off: "bs_offset a = of_nat e" and lt: "bs_offset a < 32 \<longleftrightarrow> e < 32"
    using r e(1) by (simp_all add: a_def e_def reads_at_def word_less_nat_alt unat_of_nat take_bit_nat_eq_self flip: of_nat_add)
  define s where "s = shift_in_bits n a"
  have racc: "bit (bs_accumulator bs) i = sbit buf (p + 31 - i)" if "i < 32" for i
    using r that by (simp add: reads_at_def)
  have rpre: "bit (bs_prefetch bs) i = (p mod 32 \<le> i \<and> sbit buf (p + 63 - i))" if "i < 32" for i
    using r that by (simp add: reads_at_def)
  have ap: "bs_accumulator a = push_bit n (bs_accumulator bs)" "bs_prefetch a = bs_prefetch bs"
    by (simp_all add: a_def)
  have acc: "bit (bs_accumulator s) i = ((n \<le> i \<or> e \<le> i + 32) \<and> sbit buf (p + n + 31 - i))" if i: "i < 32" for i
  proof (cases "n \<le> i")
    case True
    then have "p + 31 - (i - n) = p + n + 31 - i" "i - n < 32" using i by simp_all
    then show ?thesis
      using shift_in_bits_bits(1) [OF n i, of a] racc [of "i - n"] True i by (simp add: s_def ap bit_simps)
  next
    case False
    then have "p + 63 - (i + 32 - n) = p + n + 31 - i" "i + 32 - n < 32" "p mod 32 \<le> i + 32 - n \<longleftrightarrow> e \<le> i + 32"
      using i n(2) e_def by auto
    then show ?thesis
      using shift_in_bits_bits(1) [OF n i, of a] rpre [of "i + 32 - n"] False by (simp add: s_def ap bit_simps)
  qed
  have pre: "bit (bs_prefetch s) i = (e \<le> i \<and> sbit buf (p + n + 63 - i))" if i: "i < 32" for i
  proof (cases "n \<le> i")
    case True
    then have "p + 63 - (i - n) = p + n + 63 - i" "i - n < 32" "p mod 32 \<le> i - n \<longleftrightarrow> e \<le> i"
      using i e_def by auto
    then show ?thesis
      using shift_in_bits_bits(2) [OF n i, of a] rpre [of "i - n"] True by (simp add: s_def ap)
  next
    case False
    then show ?thesis using shift_in_bits_bits(2) [OF n i, of a] by (simp add: s_def e_def)
  qed
  have sel: "bs_buffer s = buf" "bs_capacity s = of_nat (length buf)" "bs_length s = of_nat (8 * length buf)"
    "length buf < 2 ^ 29" "bs_pointer s = 4 * (p div 32)" "bs_position s = of_nat (p + n)" "bs_offset s = of_nat e"
    using r off by (simp_all add: s_def a_def reads_at_def)
  show ?thesis
  proof (cases "e < 32")
    case True
    then have "BitStream_Shift n bs = s" "(p + n) div 32 = p div 32" "(p + n) mod 32 = e"
      using n lt e(2) by (simp_all add: BitStream_Shift_def Let_def s_def flip: a_def)
    then show ?thesis using acc pre sel True by (simp add: reads_at_def)
  next
    case False
    define d where "d = e - 32"
    have d: "d < 32" "(p + n) div 32 = p div 32 + 1" "(p + n) mod 32 = d" "p + n = 32 * (p div 32 + 1) + d"
      using False e by (auto simp: d_def le_mod_geq)
    define b where "b = BitStream_Prefetch (s\<lparr>bs_offset := bs_offset s - 32, bs_pointer := bs_pointer s + 4\<rparr>)"
    have "e = d + 32" using False by (simp add: d_def)
    then have bo: "bs_offset b = of_nat d" "unat (of_nat d :: u32) = d"
      using sel(7) d(1) by (simp_all add: b_def unat_of_nat take_bit_nat_eq_self)
    have bp: "bit (bs_prefetch b) i = sbit buf (p + n - d + 63 - i)" if "i < 32" for i
      using prefetch_bits [of "s\<lparr>bs_offset := bs_offset s - 32, bs_pointer := bs_pointer s + 4\<rparr>" i] sel that d(4)
      by (simp add: b_def)
    have S: "BitStream_Shift n bs = (if bs_offset b \<noteq> 0 then shift_in_bits (unat (bs_offset b)) b else b)"
      using n lt False by (simp add: BitStream_Shift_def Let_def b_def s_def flip: a_def)
    have ba: "bs_accumulator b = bs_accumulator s" and bsel: "bs_buffer b = buf" "bs_capacity b = of_nat (length buf)"
      "bs_length b = of_nat (8 * length buf)" "bs_pointer b = 4 * (p div 32 + 1)" "bs_position b = of_nat (p + n)"
      using sel by (simp_all add: b_def)
    show ?thesis
    proof (cases "d = 0")
      case True
      then have "BitStream_Shift n bs = b" "e = 32" using S bo False e(1) by (simp_all add: d_def)
      then show ?thesis using acc bp ba bsel bo sel(4) d True by (simp add: reads_at_def)
    next
      case d0: False
      then have T: "BitStream_Shift n bs = shift_in_bits d b" using S bo d(1) by (auto simp: word_less_nat_alt)
      have "bit (bs_accumulator (shift_in_bits d b)) i = sbit buf (p + n + 31 - i)" if i: "i < 32" for i
      proof (cases "i < d")
        case True
        then have "p + n - d + 63 - (i + 32 - d) = p + n + 31 - i" "i + 32 - d < 32" using d(1,4) by simp_all
        then show ?thesis
          using shift_in_bits_bits(1) [OF _ d(1) i, of b] d0 acc [OF i] bp [of "i + 32 - d"] ba True by auto
      next
        case ge: False
        then have "e \<le> i + 32" by (simp add: d_def)
        then show ?thesis using shift_in_bits_bits(1) [OF _ d(1) i, of b] d0 acc [OF i] ba ge by simp
      qed
      moreover have "bit (bs_prefetch (shift_in_bits d b)) i = (d \<le> i \<and> sbit buf (p + n + 63 - i))" if i: "i < 32" for i
      proof (cases "d \<le> i")
        case True
        then have "p + n - d + 63 - (i - d) = p + n + 63 - i" using d(4) i by linarith
        then show ?thesis using shift_in_bits_bits(2) [OF _ d(1) i, of b] d0 bp [of "i - d"] i True by simp
      next
        case le: False
        then show ?thesis using shift_in_bits_bits(2) [OF _ d(1) i, of b] d0 by simp
      qed
      ultimately show ?thesis using T bsel bo sel(4) d by (simp add: reads_at_def)
    qed
  qed
qed

text \<open>The \<open>n\<close> bits of a code, most significant first; the top of the accumulator is the code the
  stream holds at the position read.\<close>

definition code_bits :: "nat \<Rightarrow> nat \<Rightarrow> bool list" where
  "code_bits n c = map (\<lambda>j. bit c (n - 1 - j)) [0..<n]"

lemma length_code_bits [simp]: "length (code_bits n c) = n"
  by (simp add: code_bits_def)

lemma nth_code_bits: "j < n \<Longrightarrow> code_bits n c ! j = bit c (n - 1 - j)"
  by (simp add: code_bits_def)

definition holds_at :: "u8 list \<Rightarrow> nat \<Rightarrow> bool list \<Rightarrow> bool" where
  "holds_at buf p bits \<longleftrightarrow> (\<forall>k < length bits. sbit buf (p + k) = bits ! k)"

lemma holds_at_append: "holds_at buf p (xs @ ys) \<longleftrightarrow> holds_at buf p xs \<and> holds_at buf (p + length xs) ys"
proof -
  have "holds_at buf (p + length xs) ys" if "holds_at buf p (xs @ ys)"
    unfolding holds_at_def
  proof (intro allI impI)
    fix k assume "k < length ys"
    then show "sbit buf (p + length xs + k) = ys ! k"
      using that [unfolded holds_at_def, rule_format, of "length xs + k"] by (simp add: add.assoc)
  qed
  moreover have "sbit buf (p + k) = (xs @ ys) ! k"
    if "holds_at buf p xs" "holds_at buf (p + length xs) ys" "k < length (xs @ ys)" for k
    using that [unfolded holds_at_def] by (cases "k < length xs") (auto simp: nth_append dest!: spec [of _ "k - length xs"])
  ultimately show ?thesis by (auto simp: holds_at_def nth_append)
qed

lemma top_code:
  assumes r: "reads_at buf p bs" and h: "holds_at buf p (code_bits n c)" and n: "n \<le> 32" and c: "c < 2 ^ n"
  shows "unat (bs_accumulator bs) div 2 ^ (32 - n) = c"
proof -
  have "bit (drop_bit (32 - n) (unat (bs_accumulator bs))) i = bit c i" for i
  proof (cases "i < n")
    case True
    then have "bit (bs_accumulator bs) (32 - n + i) = sbit buf (p + (n - 1 - i))"
      using r n by (simp add: reads_at_def)
    also have "\<dots> = bit c i"
      using h [unfolded holds_at_def, rule_format, of "n - 1 - i"] True by (simp add: nth_code_bits)
    finally show ?thesis by (simp add: bit_simps bit_unsigned_iff)
  next
    case False
    then have "\<not> bit (bs_accumulator bs) (32 - n + i)" using n bit_imp_le_length [of "bs_accumulator bs" "32 - n + i"] by auto
    moreover have "\<not> bit c i"
      using False c by (metis bit_take_bit_iff take_bit_nat_eq_self)
    ultimately show ?thesis by (simp add: bit_simps bit_unsigned_iff)
  qed
  then show ?thesis by (simp add: bit_eq_iff flip: drop_bit_eq_div)
qed

lemma remaining_bits:
  assumes "reads_at buf p bs" and "p \<le> 8 * length buf"
  shows "unat (BitStream_GetRemainingLength bs) = 8 * length buf - p"
proof -
  have "of_nat (8 * length buf - p) = (of_nat (8 * length buf) - of_nat p :: u32)"
    using assms(2) by (rule of_nat_diff)
  then have "BitStream_GetRemainingLength bs = of_nat (8 * length buf - p)"
    using assms(1) by (simp add: BitStream_GetRemainingLength_def reads_at_def)
  moreover have "length buf < 2 ^ 29" using assms(1) by (simp add: reads_at_def)
  then have "8 * length buf - p < 2 ^ 32" by simp
  ultimately show ?thesis by (simp add: unat_of_nat take_bit_nat_eq_self)
qed

section \<open>Writing\<close>

definition writes_at :: "nat \<Rightarrow> nat \<Rightarrow> bool list \<Rightarrow> wBitStream \<Rightarrow> bool" where
  "writes_at room cap bits bs \<longleftrightarrow>
     length (bs_buffer bs) = room \<and> cap \<le> room \<and> cap < 2 ^ 29 \<and> bs_capacity bs = of_nat cap \<and>
     bs_pointer bs = 4 * (length bits div 32) \<and> bs_position bs = of_nat (length bits) \<and>
     bs_offset bs = of_nat (length bits mod 32) \<and>
     (\<forall>k < 32 * (length bits div 32). k div 8 < cap \<longrightarrow> sbit (bs_buffer bs) k = bits ! k) \<and>
     (\<forall>i < 32. bit (bs_accumulator bs) i =
        (31 - i < length bits mod 32 \<and> bits ! (32 * (length bits div 32) + 31 - i)))"

lemma attach_writes:
  assumes "cap \<le> length buf" and "cap < 2 ^ 29"
  shows "writes_at (length buf) cap [] (BitStream_Attach buf (of_nat cap) bs)"
  using assms by (simp add: writes_at_def BitStream_Attach_def)


text \<open>A flush stores the accumulator in the four bytes at the pointer, as far as they are within the
  capacity.\<close>

lemma store_byte_sel [simp]:
  "bs_pointer (store_byte i s bs) = bs_pointer bs" "bs_position (store_byte i s bs) = bs_position bs"
  "bs_capacity (store_byte i s bs) = bs_capacity bs" "bs_offset (store_byte i s bs) = bs_offset bs"
  "bs_accumulator (store_byte i s bs) = bs_accumulator bs"
  "length (bs_buffer (store_byte i s bs)) = length (bs_buffer bs)"
  by (simp_all add: store_byte_def)

lemma flush_sel [simp]:
  "bs_pointer (BitStream_Flush bs) = bs_pointer bs" "bs_position (BitStream_Flush bs) = bs_position bs"
  "bs_capacity (BitStream_Flush bs) = bs_capacity bs" "bs_offset (BitStream_Flush bs) = bs_offset bs"
  "bs_accumulator (BitStream_Flush bs) = bs_accumulator bs"
  "length (bs_buffer (BitStream_Flush bs)) = length (bs_buffer bs)"
  by (simp_all add: BitStream_Flush_def)

lemma nth_store_byte:
  "j < length (bs_buffer bs) \<Longrightarrow> bs_buffer (store_byte i s bs) ! j =
    (if j = bs_pointer bs + i \<and> j < unat (bs_capacity bs) then ucast (drop_bit s (bs_accumulator bs) AND 0xFF)
     else bs_buffer bs ! j)"
  by (simp add: store_byte_def nth_list_update)

lemma byte_of_word: "bit (ucast (drop_bit s (w :: u32) AND 0xFF) :: u8) j \<longleftrightarrow> j < 8 \<and> bit w (s + j)"
proof -
  have e: "(0xFF :: u32) = mask 8" by (simp add: mask_eq_exp_minus_1)
  have "bit (0xFF :: u32) i \<longleftrightarrow> i < 8" for i unfolding e by (auto simp: bit_mask_iff)
  then show ?thesis by (auto simp: bit_simps)
qed

lemma flush_byte:
  assumes "d < length (bs_buffer bs)"
  shows "bs_buffer (BitStream_Flush bs) ! d =
    (if bs_pointer bs \<le> d \<and> d < bs_pointer bs + 4 \<and> d < unat (bs_capacity bs)
     then ucast (drop_bit (24 - 8 * (d - bs_pointer bs)) (bs_accumulator bs) AND 0xFF) else bs_buffer bs ! d)"
proof -
  consider "d = bs_pointer bs" | "d = bs_pointer bs + 1" | "d = bs_pointer bs + 2" | "d = bs_pointer bs + 3"
    | "d < bs_pointer bs \<or> bs_pointer bs + 3 < d" by linarith
  then show ?thesis
    by cases (use assms in \<open>auto simp: BitStream_Flush_def nth_store_byte\<close>)
qed

lemma byte_offset: "c < 4 \<Longrightarrow> r < 8 \<Longrightarrow> 24 - 8 * c + 7 - r = 31 - (8 * (p + c) + r - 8 * p)" for c r p :: nat
  by simp

lemma flush_bits:
  assumes "unat (bs_capacity bs) \<le> length (bs_buffer bs)"
  shows "sbit (bs_buffer (BitStream_Flush bs)) k =
    (if bs_pointer bs \<le> k div 8 \<and> k div 8 < bs_pointer bs + 4 \<and> k div 8 < unat (bs_capacity bs)
     then bit (bs_accumulator bs) (31 - (k - 8 * bs_pointer bs)) else sbit (bs_buffer bs) k)"
proof (cases "k div 8 < length (bs_buffer bs)")
  case True
  have eq: "24 - 8 * (k div 8 - bs_pointer bs) + 7 - k mod 8 = 31 - (k - 8 * bs_pointer bs)"
    if "bs_pointer bs \<le> k div 8" "k div 8 < bs_pointer bs + 4"
    using that byte_offset [of "k div 8 - bs_pointer bs" "k mod 8" "bs_pointer bs"] by simp
  have "bit (bs_accumulator bs) (24 - 8 * (k div 8 - bs_pointer bs) + 7 - k mod 8) =
      bit (bs_accumulator bs) (31 - (k - 8 * bs_pointer bs))"
    if "bs_pointer bs \<le> k div 8" "k div 8 < bs_pointer bs + 4"
    using eq [OF that] by (rule arg_cong)
  then show ?thesis
    using True by (auto simp: sbit_def flush_byte byte_of_word)
next
  case False
  then show ?thesis using assms by (auto simp: sbit_def)
qed


lemma write_bits_writes:
  assumes w: "writes_at room cap bits bs" and n: "0 < n" "n < 32" and b: "unat b < 2 ^ n"
  shows "writes_at room cap (bits @ code_bits n (unat b)) (BitStream_Write_Bits b n bs)"
proof -
  define l where "l = length bits"
  define a where "a = bs\<lparr>bs_position := bs_position bs + of_nat n, bs_offset := bs_offset bs + of_nat n\<rparr>"
  define e where "e = l mod 32 + n"
  have e: "e < 64" "l + n = 32 * (l div 32) + e" using n by (simp_all add: e_def)
  have off: "bs_offset a = of_nat e" and une: "unat (of_nat e :: u32) = e" and lt: "bs_offset a < 32 \<longleftrightarrow> e < 32"
    using w e(1) by (simp_all add: a_def e_def l_def writes_at_def word_less_nat_alt unat_of_nat take_bit_nat_eq_self flip: of_nat_add)
  have acc: "bit (bs_accumulator bs) i = (31 - i < l mod 32 \<and> bits ! (32 * (l div 32) + 31 - i))" if "i < 32" for i
    using w that by (simp add: writes_at_def l_def)
  have old: "sbit (bs_buffer bs) k = bits ! k" if "k < 32 * (l div 32)" "k div 8 < cap" for k
    using w that by (simp add: writes_at_def l_def)
  have bb: "\<not> bit b i" if "n \<le> i" for i
    using b that bit_take_bit_iff [of n "unat b" i] by (auto simp: take_bit_nat_eq_self bit_unsigned_iff dest: bit_imp_possible_bit)
  define bits' where "bits' = bits @ code_bits n (unat b)"
  have new: "bits' ! (l + j) = bit b (n - 1 - j)" if "j < n" for j
    using that n by (simp add: bits'_def l_def nth_append nth_code_bits bit_unsigned_iff)
  have app: "bits' ! k = bits ! k" if "k < l" for k
    using that by (simp add: bits'_def nth_append l_def)
  have len: "length bits' = l + n" by (simp add: bits'_def l_def)
  have old': "sbit (bs_buffer bs) k = bits' ! k" if "k < 32 * (l div 32)" "k div 8 < cap" for k
    using old [OF that] app [of k] that(1) by simp
  have sel: "length (bs_buffer bs) = room" "cap \<le> room" "cap < 2 ^ 29" "bs_capacity bs = of_nat cap"
    "bs_pointer bs = 4 * (l div 32)" "bs_position a = of_nat (l + n)"
    using w by (simp_all add: writes_at_def l_def a_def)
  show ?thesis
  proof (cases "e < 32")
    case True
    then have "BitStream_Write_Bits b n bs = a\<lparr>bs_accumulator := bs_accumulator a OR push_bit (32 - e) b\<rparr>"
      using lt off une by (simp add: BitStream_Write_Bits_def Let_def flip: a_def)
    moreover have "bit (bs_accumulator bs OR push_bit (32 - e) b) i =
        (31 - i < e \<and> bits' ! (32 * (l div 32) + 31 - i))" if i: "i < 32" for i
    proof -
      consider "31 - i < l mod 32" | "l mod 32 \<le> 31 - i" "31 - i < e" | "e \<le> 31 - i" by linarith
      then show ?thesis
      proof cases
        case 1
        then have "32 * (l div 32) + 31 - i < l" "31 - i < e" "n \<le> i - (32 - e)"
          using i True mult_div_mod_eq [of 32 l] unfolding e_def by linarith+
        then show ?thesis using acc [OF i] bb 1 app by (auto simp: bit_simps)
      next
        case 2
        define j where "j = 31 - i - l mod 32"
        have ij: "i + l mod 32 + j = 31" using 2 i unfolding j_def by linarith
        have ei: "32 - e \<le> i" "j < n" using ij 2(2) i e_def by linarith+
        have "n - 1 - j = i - (32 - e)" using ij ei True e_def by linarith
        moreover have "32 * (l div 32) + 31 - i = l + j" using ij mult_div_mod_eq [of 32 l] by linarith
        moreover note ei
        ultimately show ?thesis using acc [OF i] new [of j] 2 i by (simp add: bit_simps)
      next
        case 3
        then show ?thesis using acc [OF i] True i e_def by (auto simp: bit_simps)
      qed
    qed
    moreover have "(l + n) div 32 = l div 32" "(l + n) mod 32 = e" using True e(2) by simp_all
    ultimately show ?thesis
      using sel off old' len by (simp add: writes_at_def a_def flip: bits'_def)
  next
    case False
    define d where "d = e - 32"
    have d: "e = d + 32" "d < n" "d < 32" "n - d < 32" "n - d = 32 - l mod 32 \<or> l mod 32 = 0"
      using False e_def n(2) mod_less_divisor [of 32 l] unfolding d_def by linarith+
    have offd: "bs_offset a - 32 = of_nat d" and und: "unat (of_nat d :: u32) = d"
      using off d(1,3) by (simp_all add: unat_of_nat take_bit_nat_eq_self)
    define mm :: u32 where "mm = push_bit (n - d) 1 - 1"
    define a2 where "a2 = a\<lparr>bs_offset := of_nat d, bs_mask := mm,
      bs_accumulator := bs_accumulator a OR (drop_bit d b AND mm)\<rparr>"
    define b3 where "b3 = (BitStream_Flush a2)\<lparr>bs_accumulator := 0, bs_pointer := bs_pointer a2 + 4\<rparr>"
    have W: "BitStream_Write_Bits b n bs = (if d \<noteq> 0 then b3\<lparr>bs_mask := push_bit d 1 - 1,
        bs_accumulator := push_bit (32 - d) (b AND (push_bit d 1 - 1))\<rparr> else b3)"
      using lt False und by (simp add: BitStream_Write_Bits_def Let_def offd a2_def b3_def mm_def word_less_nat_alt flip: a_def)
        (auto simp: unat_eq_0)
    have nd: "n - d = 32 - l mod 32" using d(1) e_def by linarith
    have l: "l = 32 * (l div 32) + l mod 32" by simp
    have acc2: "bit (bs_accumulator a2) i = bits' ! (32 * (l div 32) + 31 - i)" if i: "i < 32" for i
    proof (cases "31 - i < l mod 32")
      case True
      then have "32 * (l div 32) + 31 - i < l" "\<not> i < n - d" using i l nd by linarith+
      then show ?thesis
        using acc [OF i] app low_mask_bit [OF d(4), of i] True by (simp add: a2_def a_def mm_def bit_simps)
    next
      case False
      define j where "j = 31 - i - l mod 32"
      have ij: "i + l mod 32 + j = 31" using False i unfolding j_def by linarith
      have "i < n - d" "j < n" "n - 1 - j = d + i" using ij nd d(2) by linarith+
      moreover have "32 * (l div 32) + 31 - i = l + j" using ij l by linarith
      ultimately show ?thesis
        using acc [OF i] new [of j] low_mask_bit [OF d(4), of i] False by (simp add: a2_def a_def mm_def bit_simps)
    qed
    have a2: "bs_pointer a2 = 4 * (l div 32)" "bs_buffer a2 = bs_buffer bs" "unat (bs_capacity a2) = cap"
      using sel by (simp_all add: a2_def a_def unat_of_nat take_bit_nat_eq_self)
    have buf: "sbit (bs_buffer b3) k = bits' ! k" if k: "k < 32 * (l div 32 + 1)" "k div 8 < cap" for k
    proof (cases "k < 32 * (l div 32)")
      case True
      then have "k div 8 < 4 * (l div 32)" by (intro less_mult_imp_div_less) simp
      then show ?thesis using flush_bits [of a2 k] a2 sel(1,2) old' [OF True k(2)] by (simp add: b3_def)
    next
      case False
      define c where "c = k - 32 * (l div 32)"
      define i where "i = 31 - c"
      have c: "k = 32 * (l div 32) + c" "c < 32" using False k(1) unfolding c_def by simp_all
      have "i < 32" "32 * (l div 32) + 31 - i = k" using c unfolding i_def by linarith+
      moreover have "4 * (l div 32) \<le> k div 8" "k div 8 < 4 * (l div 32) + 4"
        using False k(1) less_mult_imp_div_less [of k "4 * (l div 32) + 4" 8] div_le_mono [of "32 * (l div 32)" k 8]
        by simp_all
      ultimately show ?thesis
        using flush_bits [of a2 k] a2 sel(1,2) acc2 [of i] k(2) by (simp add: b3_def i_def c_def)
    qed
    have low: "bit (push_bit (32 - d) (b AND (push_bit d 1 - 1))) i = (31 - i < d \<and> bits' ! (32 * (l div 32 + 1) + 31 - i))"
      if i: "i < 32" and "d \<noteq> 0" for i
    proof (cases "31 - i < d")
      case True
      define j where "j = 63 - i - l mod 32"
      have ij: "i + l mod 32 + j = 63" using i mod_less_divisor [of 32 l] unfolding j_def by linarith
      have "32 - d \<le> i" "j < n" "n - 1 - j = i - (32 - d)" "i - (32 - d) < d" using ij True nd d(1-3) i by linarith+
      moreover have "32 * (l div 32) + 63 - i = l + j" using ij l by linarith
      then have "32 * (l div 32 + 1) + 31 - i = l + j" by simp
      ultimately show ?thesis using new [of j] low_mask_bit [OF d(3)] True i by (simp add: bit_simps)
    next
      case False
      then have "\<not> 32 - d \<le> i" using i by linarith
      then show ?thesis using False by (simp add: bit_simps)
    qed
    have b3: "length (bs_buffer b3) = room" "bs_capacity b3 = of_nat cap" "bs_pointer b3 = 4 * (l div 32 + 1)"
      "bs_position b3 = of_nat (l + n)" "bs_offset b3 = of_nat d" "bs_accumulator b3 = 0"
      using sel by (simp_all add: b3_def a2_def) (simp_all add: a_def)
    have "(l + n) div 32 = l div 32 + 1" "(l + n) mod 32 = d" using d(1,3) e(2) by simp_all
    then show ?thesis
      using b3 sel(2,3) buf low len by (simp add: W writes_at_def flip: bits'_def)
  qed
qed


text \<open>After the last flush the buffer holds all the bits written.\<close>

lemma flush_holds:
  assumes w: "writes_at room cap bits bs" and len: "length bits \<le> 8 * cap"
  shows "holds_at (bs_buffer (BitStream_Flush bs)) 0 bits" and "length (bs_buffer (BitStream_Flush bs)) = room"
proof -
  define q where "q = length bits div 32"
  have l: "length bits = 32 * q + length bits mod 32" by (simp add: q_def)
  have cap: "unat (bs_capacity bs) = cap" "cap \<le> length (bs_buffer bs)" "bs_pointer bs = 4 * q"
    using w by (simp_all add: writes_at_def q_def unat_of_nat take_bit_nat_eq_self)
  have "sbit (bs_buffer (BitStream_Flush bs)) k = bits ! k" if k: "k < length bits" for k
  proof -
    have kc: "k div 8 < cap" using k len by (intro less_mult_imp_div_less) simp
    show ?thesis
    proof (cases "k < 32 * q")
      case True
      then have "k div 8 < 4 * q" by (intro less_mult_imp_div_less) simp
      then show ?thesis
        using flush_bits [of bs k] cap w True kc by (simp add: writes_at_def q_def)
    next
      case False
      define c where "c = k - 32 * q"
      have c: "k = 32 * q + c" "c < length bits mod 32" using False k l unfolding c_def by linarith+
      have "c < 32" using c(2) mod_less_divisor [of 32 "length bits"] by linarith
      moreover have "4 * q \<le> k div 8" "k div 8 < 4 * q + 4"
        using c(1) \<open>c < 32\<close> less_mult_imp_div_less [of k "4 * q + 4" 8] div_le_mono [of "32 * q" k 8] by simp_all
      moreover have "bit (bs_accumulator bs) (31 - c) = (31 - (31 - c) < length bits mod 32 \<and> bits ! (32 * q + 31 - (31 - c)))"
        using w by (simp add: writes_at_def q_def)
      moreover have "31 - (31 - c) = c" "32 * q + 31 - (31 - c) = k" using \<open>c < 32\<close> c(1) by linarith+
      ultimately show ?thesis
        using flush_bits [of bs k] cap kc c by simp
    qed
  qed
  then show "holds_at (bs_buffer (BitStream_Flush bs)) 0 bits" by (simp add: holds_at_def)
  show "length (bs_buffer (BitStream_Flush bs)) = room" using w by (simp add: writes_at_def)
qed

lemma holds_at_take:
  assumes "length bits \<le> 8 * m" and h: "holds_at buf 0 bits"
  shows "holds_at (take m buf) 0 bits"
  unfolding holds_at_def
proof (intro allI impI)
  fix k assume k: "k < length bits"
  then have "k div 8 < m" using assms(1) by (intro less_mult_imp_div_less) simp
  then show "sbit (take m buf) (0 + k) = bits ! k"
    using h k by (simp add: holds_at_def sbit_def)
qed

lemma writes_position: "writes_at room cap bits bs \<Longrightarrow> length bits < 2 ^ 32 \<Longrightarrow> unat (bs_position bs) = length bits"
  by (simp add: writes_at_def unat_of_nat take_bit_nat_eq_self)

end
