(* ===== verification/MppcCodes.thy ===== *)
theory MppcCodes
  imports BitStream
begin

text \<open>
  The codes of MPPC bulk compression, \<^verbatim>\<open>libfreerdp/codec/mppc.c\<close>: how a literal, a copy offset and a match
  length are told apart by the leading bits of the window (the decoders of \<^verbatim>\<open>mppc_decompress\<close>) and how
  \<^verbatim>\<open>mppc_compress\<close> picks the bits to write. The decoders take a 32-bit window; the tests of its leading bits
  are stated as quotients of its value, so that every decoder is read back from the bits written.
\<close>

unbundle bit_operations_syntax

section \<open>The decoders\<close>

text \<open>Each decoder returns the value and the number of bits it takes, the literal decoder nothing when
  the token is a copy, the others the error code.\<close>

definition decode_literal :: "u32 \<Rightarrow> (u8 \<times> nat) option" where
  "decode_literal accumulator =
     (if accumulator AND 0x80000000 = 0 then Some (ucast (drop_bit 24 (accumulator AND 0x7F000000)), 8)
      else if accumulator AND 0xC0000000 = 0x80000000
      then Some (ucast (drop_bit 23 (accumulator AND 0x3F800000) + 0x80), 9)
      else None)"

definition decode_offset :: "u32 \<Rightarrow> u32 \<Rightarrow> int + u32 \<times> nat" where
  "decode_offset level acc =
     (if level \<noteq> 0 then
        (if acc AND 0xF8000000 = 0xF8000000 then Inr (drop_bit 21 acc AND 0x3F, 11)
         else if acc AND 0xF8000000 = 0xF0000000 then Inr ((drop_bit 19 acc AND 0xFF) + 64, 13)
         else if acc AND 0xF0000000 = 0xE0000000 then Inr ((drop_bit 17 acc AND 0x7FF) + 320, 15)
         else if acc AND 0xE0000000 = 0xC0000000 then Inr ((drop_bit 13 acc AND 0xFFFF) + 2368, 19)
         else Inl (-1001))
      else
        (if acc AND 0xF0000000 = 0xF0000000 then Inr (drop_bit 22 acc AND 0x3F, 10)
         else if acc AND 0xF0000000 = 0xE0000000 then Inr ((drop_bit 20 acc AND 0xFF) + 64, 12)
         else if acc AND 0xE0000000 = 0xC0000000 then Inr ((drop_bit 16 acc AND 0x1FFF) + 320, 16)
         else Inl (-1002)))"

definition decode_length :: "u32 \<Rightarrow> u32 \<Rightarrow> int + u32 \<times> nat" where
  "decode_length level acc =
     (if acc AND 0x80000000 = 0 then Inr (3, 1)
      else if acc AND 0xC0000000 = 0x80000000 then Inr ((drop_bit 28 acc AND 0x0003) + 0x0004, 4)
      else if acc AND 0xE0000000 = 0xC0000000 then Inr ((drop_bit 26 acc AND 0x0007) + 0x0008, 6)
      else if acc AND 0xF0000000 = 0xE0000000 then Inr ((drop_bit 24 acc AND 0x000F) + 0x0010, 8)
      else if acc AND 0xF8000000 = 0xF0000000 then Inr ((drop_bit 22 acc AND 0x001F) + 0x0020, 10)
      else if acc AND 0xFC000000 = 0xF8000000 then Inr ((drop_bit 20 acc AND 0x003F) + 0x0040, 12)
      else if acc AND 0xFE000000 = 0xFC000000 then Inr ((drop_bit 18 acc AND 0x007F) + 0x0080, 14)
      else if acc AND 0xFF000000 = 0xFE000000 then Inr ((drop_bit 16 acc AND 0x00FF) + 0x0100, 16)
      else if acc AND 0xFF800000 = 0xFF000000 then Inr ((drop_bit 14 acc AND 0x01FF) + 0x0200, 18)
      else if acc AND 0xFFC00000 = 0xFF800000 then Inr ((drop_bit 12 acc AND 0x03FF) + 0x0400, 20)
      else if acc AND 0xFFE00000 = 0xFFC00000 then Inr ((drop_bit 10 acc AND 0x07FF) + 0x0800, 22)
      else if acc AND 0xFFF00000 = 0xFFE00000 then Inr ((drop_bit 8 acc AND 0x0FFF) + 0x1000, 24)
      else if acc AND 0xFFF80000 = 0xFFF00000 \<and> level \<noteq> 0 then Inr ((drop_bit 6 acc AND 0x1FFF) + 0x2000, 26)
      else if acc AND 0xFFFC0000 = 0xFFF80000 \<and> level \<noteq> 0 then Inr ((drop_bit 4 acc AND 0x3FFF) + 0x4000, 28)
      else if acc AND 0xFFFE0000 = 0xFFFC0000 \<and> level \<noteq> 0 then Inr ((drop_bit 2 acc AND 0x7FFF) + 0x8000, 30)
      else Inl (-1003))"

text \<open>A test of the top bits of the window is a test of the quotient, and a field is a remainder.\<close>

lemma top_test:
  assumes "m = push_bit k (mask (32 - k))" and "v = push_bit k (of_nat c)" and "c < 2 ^ (32 - k)" and "k \<le> 32"
  shows "(acc :: u32) AND m = v \<longleftrightarrow> unat acc div 2 ^ k = c"
proof -
  have "acc AND m = push_bit k (drop_bit k acc)"
    using assms(1,4) by (auto simp: bit_eq_iff bit_simps)
  moreover have "push_bit k (drop_bit k acc) = push_bit k (of_nat c) \<longleftrightarrow> drop_bit k acc = of_nat c"
  proof
    assume h: "push_bit k (drop_bit k acc) = push_bit k (of_nat c)"
    show "drop_bit k acc = of_nat c"
    proof (rule bit_word_eqI)
      fix i assume "i < LENGTH(32)"
      show "bit (drop_bit k acc) i = bit (of_nat c :: u32) i"
      proof (cases "i + k < 32")
        case True
        then show ?thesis using arg_cong [OF h, of "\<lambda>w. bit w (i + k)"] by (simp add: bit_simps)
      next
        case False
        then have "\<not> bit acc (k + i)" using bit_imp_le_length [of acc "k + i"] by auto
        moreover have "\<not> bit c i"
        proof -
          have "32 - k \<le> i" using False by linarith
          then have "c < 2 ^ i" using assms(3) power_increasing [of "32 - k" i "2 :: nat"] by linarith
          then show ?thesis by (simp add: bit_iff_odd)
        qed
        ultimately show ?thesis by (simp add: bit_simps)
      qed
    qed
  qed simp
  moreover have "drop_bit k acc = of_nat c \<longleftrightarrow> unat acc div 2 ^ k = c"
  proof -
    have "c < 2 ^ 32" using assms(3) power_increasing [of "32 - k" 32 "2 :: nat"] by simp
    then have "unat (of_nat c :: u32) = c" by (simp add: unat_of_nat take_bit_nat_eq_self)
    then show ?thesis by (metis drop_bit_eq_div unat_drop_bit_eq word_unat_eq_iff)
  qed
  ultimately show ?thesis using assms(2) by simp
qed

lemma field_value: "unat (drop_bit k (acc :: u32) AND mask m) = unat acc div 2 ^ k mod 2 ^ m"
  unfolding take_bit_eq_mask [symmetric]
  by (simp only: unsigned_take_bit_eq unat_drop_bit_eq) (simp only: take_bit_eq_mod drop_bit_eq_div)

lemma top_value:
  assumes "j + k = 32" and "m = push_bit k (mask j)" and "v = push_bit k (of_nat c)" and "c < 2 ^ j" and "d = 2 ^ k"
  shows "(acc :: u32) AND m = v \<longleftrightarrow> unat acc div d = c"
proof -
  have "j = 32 - k" using assms(1) by simp
  then show ?thesis using top_test [of m k v c acc] assms by simp
qed

lemma field_word:
  assumes "f = mask m" and "d = 2 ^ k" and "r = 2 ^ m"
  shows "drop_bit k (acc :: u32) AND f = of_nat (unat acc div d mod r)"
  using field_value [of k acc m] assms by (metis of_nat_unat ucast_id)

lemma top_tests:
  fixes acc :: u32
  shows "acc AND 0x80000000 = 0 \<longleftrightarrow> unat acc div 2147483648 = 0"
    and "acc AND 0xC0000000 = 0x80000000 \<longleftrightarrow> unat acc div 1073741824 = 2"
    and "acc AND 0xE0000000 = 0xC0000000 \<longleftrightarrow> unat acc div 536870912 = 6"
    and "acc AND 0xF0000000 = 0xE0000000 \<longleftrightarrow> unat acc div 268435456 = 14"
    and "acc AND 0xF0000000 = 0xF0000000 \<longleftrightarrow> unat acc div 268435456 = 15"
    and "acc AND 0xF8000000 = 0xF0000000 \<longleftrightarrow> unat acc div 134217728 = 30"
    and "acc AND 0xF8000000 = 0xF8000000 \<longleftrightarrow> unat acc div 134217728 = 31"
    and "acc AND 0xFC000000 = 0xF8000000 \<longleftrightarrow> unat acc div 67108864 = 62"
    and "acc AND 0xFE000000 = 0xFC000000 \<longleftrightarrow> unat acc div 33554432 = 126"
    and "acc AND 0xFF000000 = 0xFE000000 \<longleftrightarrow> unat acc div 16777216 = 254"
    and "acc AND 0xFF800000 = 0xFF000000 \<longleftrightarrow> unat acc div 8388608 = 510"
    and "acc AND 0xFFC00000 = 0xFF800000 \<longleftrightarrow> unat acc div 4194304 = 1022"
    and "acc AND 0xFFE00000 = 0xFFC00000 \<longleftrightarrow> unat acc div 2097152 = 2046"
    and "acc AND 0xFFF00000 = 0xFFE00000 \<longleftrightarrow> unat acc div 1048576 = 4094"
    and "acc AND 0xFFF80000 = 0xFFF00000 \<longleftrightarrow> unat acc div 524288 = 8190"
    and "acc AND 0xFFFC0000 = 0xFFF80000 \<longleftrightarrow> unat acc div 262144 = 16382"
    and "acc AND 0xFFFE0000 = 0xFFFC0000 \<longleftrightarrow> unat acc div 131072 = 32766"
  by ((rule top_value [where k = 31 and j = 1]; simp add: mask_eq_exp_minus_1),
      (rule top_value [where k = 30 and j = 2]; simp add: mask_eq_exp_minus_1),
      (rule top_value [where k = 29 and j = 3]; simp add: mask_eq_exp_minus_1),
      (rule top_value [where k = 28 and j = 4]; simp add: mask_eq_exp_minus_1),
      (rule top_value [where k = 28 and j = 4]; simp add: mask_eq_exp_minus_1),
      (rule top_value [where k = 27 and j = 5]; simp add: mask_eq_exp_minus_1),
      (rule top_value [where k = 27 and j = 5]; simp add: mask_eq_exp_minus_1),
      (rule top_value [where k = 26 and j = 6]; simp add: mask_eq_exp_minus_1),
      (rule top_value [where k = 25 and j = 7]; simp add: mask_eq_exp_minus_1),
      (rule top_value [where k = 24 and j = 8]; simp add: mask_eq_exp_minus_1),
      (rule top_value [where k = 23 and j = 9]; simp add: mask_eq_exp_minus_1),
      (rule top_value [where k = 22 and j = 10]; simp add: mask_eq_exp_minus_1),
      (rule top_value [where k = 21 and j = 11]; simp add: mask_eq_exp_minus_1),
      (rule top_value [where k = 20 and j = 12]; simp add: mask_eq_exp_minus_1),
      (rule top_value [where k = 19 and j = 13]; simp add: mask_eq_exp_minus_1),
      (rule top_value [where k = 18 and j = 14]; simp add: mask_eq_exp_minus_1),
      (rule top_value [where k = 17 and j = 15]; simp add: mask_eq_exp_minus_1))

lemma field_words:
  fixes acc :: u32
  shows "drop_bit 2 acc AND 0x7FFF = of_nat (unat acc div 4 mod 32768)"
    and "drop_bit 4 acc AND 0x3FFF = of_nat (unat acc div 16 mod 16384)"
    and "drop_bit 6 acc AND 0x1FFF = of_nat (unat acc div 64 mod 8192)"
    and "drop_bit 8 acc AND 0x0FFF = of_nat (unat acc div 256 mod 4096)"
    and "drop_bit 10 acc AND 0x07FF = of_nat (unat acc div 1024 mod 2048)"
    and "drop_bit 12 acc AND 0x03FF = of_nat (unat acc div 4096 mod 1024)"
    and "drop_bit 13 acc AND 0xFFFF = of_nat (unat acc div 8192 mod 65536)"
    and "drop_bit 14 acc AND 0x01FF = of_nat (unat acc div 16384 mod 512)"
    and "drop_bit 16 acc AND 0x1FFF = of_nat (unat acc div 65536 mod 8192)"
    and "drop_bit 16 acc AND 0x00FF = of_nat (unat acc div 65536 mod 256)"
    and "drop_bit 17 acc AND 0x7FF = of_nat (unat acc div 131072 mod 2048)"
    and "drop_bit 18 acc AND 0x007F = of_nat (unat acc div 262144 mod 128)"
    and "drop_bit 19 acc AND 0xFF = of_nat (unat acc div 524288 mod 256)"
    and "drop_bit 20 acc AND 0xFF = of_nat (unat acc div 1048576 mod 256)"
    and "drop_bit 20 acc AND 0x003F = of_nat (unat acc div 1048576 mod 64)"
    and "drop_bit 21 acc AND 0x3F = of_nat (unat acc div 2097152 mod 64)"
    and "drop_bit 22 acc AND 0x3F = of_nat (unat acc div 4194304 mod 64)"
    and "drop_bit 22 acc AND 0x001F = of_nat (unat acc div 4194304 mod 32)"
    and "drop_bit 24 acc AND 0x000F = of_nat (unat acc div 16777216 mod 16)"
    and "drop_bit 26 acc AND 0x0007 = of_nat (unat acc div 67108864 mod 8)"
    and "drop_bit 28 acc AND 0x0003 = of_nat (unat acc div 268435456 mod 4)"
  by ((rule field_word [where m = 15]; simp add: mask_eq_exp_minus_1),
      (rule field_word [where m = 14]; simp add: mask_eq_exp_minus_1),
      (rule field_word [where m = 13]; simp add: mask_eq_exp_minus_1),
      (rule field_word [where m = 12]; simp add: mask_eq_exp_minus_1),
      (rule field_word [where m = 11]; simp add: mask_eq_exp_minus_1),
      (rule field_word [where m = 10]; simp add: mask_eq_exp_minus_1),
      (rule field_word [where m = 16]; simp add: mask_eq_exp_minus_1),
      (rule field_word [where m = 9]; simp add: mask_eq_exp_minus_1),
      (rule field_word [where m = 13]; simp add: mask_eq_exp_minus_1),
      (rule field_word [where m = 8]; simp add: mask_eq_exp_minus_1),
      (rule field_word [where m = 11]; simp add: mask_eq_exp_minus_1),
      (rule field_word [where m = 7]; simp add: mask_eq_exp_minus_1),
      (rule field_word [where m = 8]; simp add: mask_eq_exp_minus_1),
      (rule field_word [where m = 8]; simp add: mask_eq_exp_minus_1),
      (rule field_word [where m = 6]; simp add: mask_eq_exp_minus_1),
      (rule field_word [where m = 6]; simp add: mask_eq_exp_minus_1),
      (rule field_word [where m = 6]; simp add: mask_eq_exp_minus_1),
      (rule field_word [where m = 5]; simp add: mask_eq_exp_minus_1),
      (rule field_word [where m = 4]; simp add: mask_eq_exp_minus_1),
      (rule field_word [where m = 3]; simp add: mask_eq_exp_minus_1),
      (rule field_word [where m = 2]; simp add: mask_eq_exp_minus_1))

lemma field_sum:
  assumes "0 < r" and "r + b < 2 ^ 32" and "w = of_nat b"
  shows "unat (of_nat (x mod r) + w :: u32) = x mod r + b"
proof -
  have "x mod r + b < 2 ^ 32" using mod_less_divisor [OF assms(1), of x] assms(2) by linarith
  then have "unat (of_nat (x mod r + b) :: u32) = x mod r + b"
    unfolding unat_of_nat by (simp add: take_bit_nat_eq_self del: of_nat_add)
  then show ?thesis by (simp add: assms(3))
qed

lemma field_sums:
  fixes x :: nat
  shows "unat (of_nat (x mod 4) + 4 :: u32) = x mod 4 + 4"
    and "unat (of_nat (x mod 8) + 8 :: u32) = x mod 8 + 8"
    and "unat (of_nat (x mod 16) + 16 :: u32) = x mod 16 + 16"
    and "unat (of_nat (x mod 32) + 32 :: u32) = x mod 32 + 32"
    and "unat (of_nat (x mod 64) + 64 :: u32) = x mod 64 + 64"
    and "unat (of_nat (x mod 128) + 128 :: u32) = x mod 128 + 128"
    and "unat (of_nat (x mod 256) + 64 :: u32) = x mod 256 + 64"
    and "unat (of_nat (x mod 256) + 256 :: u32) = x mod 256 + 256"
    and "unat (of_nat (x mod 512) + 512 :: u32) = x mod 512 + 512"
    and "unat (of_nat (x mod 1024) + 1024 :: u32) = x mod 1024 + 1024"
    and "unat (of_nat (x mod 2048) + 320 :: u32) = x mod 2048 + 320"
    and "unat (of_nat (x mod 2048) + 2048 :: u32) = x mod 2048 + 2048"
    and "unat (of_nat (x mod 4096) + 4096 :: u32) = x mod 4096 + 4096"
    and "unat (of_nat (x mod 8192) + 320 :: u32) = x mod 8192 + 320"
    and "unat (of_nat (x mod 8192) + 8192 :: u32) = x mod 8192 + 8192"
    and "unat (of_nat (x mod 16384) + 16384 :: u32) = x mod 16384 + 16384"
    and "unat (of_nat (x mod 32768) + 32768 :: u32) = x mod 32768 + 32768"
    and "unat (of_nat (x mod 65536) + 2368 :: u32) = x mod 65536 + 2368"
  by (rule field_sum; simp)+

definition in_code :: "int + u32 \<times> nat \<Rightarrow> bool" where
  "in_code r \<longleftrightarrow> (case r of Inl _ \<Rightarrow> True | Inr (len, n) \<Rightarrow> 3 \<le> unat len \<and> 0 < n \<and> n < 32)"

lemma in_code_if: "(c \<Longrightarrow> in_code x) \<Longrightarrow> in_code y \<Longrightarrow> in_code (if c then x else y)"
  by simp

lemma decode_length_in: "in_code (decode_length level acc)"
  unfolding decode_length_def
  by (intro in_code_if; simp add: in_code_def field_words field_sums)

lemma decode_length_pos: "decode_length level acc = Inr (len, n) \<Longrightarrow> 3 \<le> unat len \<and> 0 < n \<and> n < 32"
  using decode_length_in [of level acc] by (simp add: in_code_def)

section \<open>The encoders\<close>

text \<open>The accumulator and the number of bits of it that are written; \<open>None\<close> where no branch of the
  source applies, and then nothing is written.\<close>

definition literal_code :: "u8 \<Rightarrow> u32 \<times> nat" where
  "literal_code b =
     (let accumulator = ucast b :: u32 in
      if accumulator < 0x80 then (accumulator, 8) else (0x100 OR (accumulator AND 0x7F), 9))"

definition offset_code :: "u32 \<Rightarrow> u32 \<Rightarrow> (u32 \<times> nat) option" where
  "offset_code level offset =
     (if level \<noteq> 0 then
        (if offset < 64 then Some (0x07C0 OR (offset AND 0x003F), 11)
         else if offset \<ge> 64 \<and> offset < 320 then Some (0x1E00 OR ((offset - 64) AND 0x00FF), 13)
         else if offset \<ge> 320 \<and> offset < 2368 then Some (0x7000 OR ((offset - 320) AND 0x07FF), 15)
         else Some (0x060000 OR ((offset - 2368) AND 0xFFFF), 19))
      else
        (if offset < 64 then Some (0x03C0 OR (offset AND 0x003F), 10)
         else if offset \<ge> 64 \<and> offset < 320 then Some (0x0E00 OR ((offset - 64) AND 0x00FF), 12)
         else if offset \<ge> 320 \<and> offset < 8192 then Some (0xC000 OR ((offset - 320) AND 0x1FFF), 16)
         else None))"

definition length_code :: "u32 \<Rightarrow> u32 \<Rightarrow> (u32 \<times> nat) option" where
  "length_code level len =
     (if len = 3 then Some (0, 1)
      else if len \<ge> 4 \<and> len < 8 then Some (0x0008 OR (len AND 0x0003), 4)
      else if len \<ge> 8 \<and> len < 16 then Some (0x0030 OR (len AND 0x0007), 6)
      else if len \<ge> 16 \<and> len < 32 then Some (0x00E0 OR (len AND 0x000F), 8)
      else if len \<ge> 32 \<and> len < 64 then Some (0x03C0 OR (len AND 0x001F), 10)
      else if len \<ge> 64 \<and> len < 128 then Some (0x0F80 OR (len AND 0x003F), 12)
      else if len \<ge> 128 \<and> len < 256 then Some (0x3F00 OR (len AND 0x007F), 14)
      else if len \<ge> 256 \<and> len < 512 then Some (0xFE00 OR (len AND 0x00FF), 16)
      else if len \<ge> 512 \<and> len < 1024 then Some (0x3FC00 OR (len AND 0x01FF), 18)
      else if len \<ge> 1024 \<and> len < 2048 then Some (0xFF800 OR (len AND 0x03FF), 20)
      else if len \<ge> 2048 \<and> len < 4096 then Some (0x3FF000 OR (len AND 0x07FF), 22)
      else if len \<ge> 4096 \<and> len < 8192 then Some (0xFFE000 OR (len AND 0x0FFF), 24)
      else if (len \<ge> 8192 \<and> len < 16384) \<and> level \<noteq> 0 then Some (0x3FFC000 OR (len AND 0x1FFF), 26)
      else if (len \<ge> 16384 \<and> len < 32768) \<and> level \<noteq> 0 then Some (0xFFF8000 OR (len AND 0x3FFF), 28)
      else if (len \<ge> 32768 \<and> len < 65536) \<and> level \<noteq> 0 then Some (0x3FFF0000 OR (len AND 0x7FFF), 30)
      else None)"

section \<open>Decoding what was encoded\<close>

text \<open>An accumulator is a prefix with a field below it.\<close>

lemma or_field:
  assumes "f = mask m" and "c = push_bit m (of_nat p)" and "p * 2 ^ m + 2 ^ m \<le> 2 ^ 32" and "r = 2 ^ m"
  shows "unat (c OR (x AND f) :: u32) = p * r + unat x mod r"
proof -
  have "c AND (x AND f) = 0"
    by (rule bit_word_eqI) (auto simp: assms(1,2) bit_simps)
  then have "c OR (x AND f) = c + (x AND f)" by (rule disjunctive_add_eq_or [symmetric])
  moreover have "x AND f = of_nat (unat x mod r)"
    using field_word [OF assms(1), of 1 0 r x] assms(4) by simp
  moreover have "c = of_nat (p * r)" by (simp add: assms(2,4) push_bit_eq_mult)
  ultimately have "c OR (x AND f) = of_nat (p * r + unat x mod r)" by simp
  moreover have "p * r + unat x mod r < 2 ^ 32"
    using mod_less_divisor [of "2 ^ m" "unat x"] assms(3,4) by (intro less_le_trans [OF _ assms(3)]) simp
  ultimately show ?thesis
    by (simp add: unat_of_nat take_bit_nat_eq_self del: of_nat_add of_nat_mult)
qed

lemma read_code:
  assumes h: "unat acc div 2 ^ (32 - n) = unat w" and w: "w = (c OR (y AND f) :: u32)"
    and c: "f = mask m" "c = push_bit m (of_nat p)" "p * 2 ^ m + 2 ^ m \<le> 2 ^ 32"
    and r: "r = 2 ^ m" "D = 2 ^ (32 - n)" "K = D * r"
  shows "unat acc div K = p" and "unat acc div D mod r = unat y mod r"
proof -
  have e: "unat acc div D = p * r + unat y mod r"
    using h or_field [OF c r(1), of y] w r(2) by simp
  then have "unat acc div K = (p * r + unat y mod r) div r" by (simp add: r(3) div_mult2_eq)
  then show "unat acc div K = p" by (simp add: r(1))
  show "unat acc div D mod r = unat y mod r" by (simp add: e)
qed

text \<open>The tests of shorter prefixes follow from the longest.\<close>

lemma coarser: "A div D = q \<Longrightarrow> K mod D = 0 \<Longrightarrow> A div K = q div (K div D)" for A D K q :: nat
  by (metis div_mult2_eq mod_0_imp_dvd dvd_mult_div_cancel)

lemma finer: "A div K = p \<Longrightarrow> K mod k = 0 \<Longrightarrow> c div (K div k) \<noteq> p \<Longrightarrow> A div k \<noteq> c" for A K k c p :: nat
  by (metis div_mult2_eq mod_0_imp_dvd dvd_mult_div_cancel)

lemma length_sum:
  assumes "r \<le> unat len" and "unat len < 2 * r"
  shows "of_nat (unat len mod r) + of_nat r = (len :: u32)"
proof -
  have "unat len mod r + r = unat len" using assms by (simp add: le_mod_geq)
  then have "of_nat (unat len mod r + r) = len" by (metis of_nat_unat ucast_id)
  then show ?thesis by simp
qed

lemma offset_decoded_64K:
  assumes "offset_code level offset = Some (w, n)" and "unat acc div 2 ^ (32 - n) = unat w" and "level \<noteq> 0" and "offset < 65536"
  shows "decode_literal acc = None \<and> decode_offset level acc = Inr (offset, n)"
proof -
  consider "offset < 64" | "64 \<le> offset \<and> offset < 320" | "320 \<le> offset \<and> offset < 2368" | "2368 \<le> offset"
    using assms by (fastforce simp: offset_code_def not_less split: if_splits)
  then show ?thesis
  proof cases
    case 1
    then have w: "w = (0x07C0 OR (offset AND 0x003F))" "n = 11"
      using assms(1) assms(3) by (auto simp: offset_code_def word_less_nat_alt word_le_nat_alt)
    have y: "unat offset < 64" using 1 by (auto simp: word_less_nat_alt word_le_nat_alt)
    note read = read_code [OF assms(2) w(1), where m = 6 and p = 31 and K = 134217728 and D = 2097152 and r = 64]
    have d: "unat acc div 134217728 = 31" and f: "unat acc div 2097152 mod 64 = unat offset mod 64"
      by (rule read; simp add: w(2) mask_eq_exp_minus_1)+
    show ?thesis
      by (simp add: decode_literal_def decode_offset_def top_tests field_words d f mod_less [OF y] coarser [OF d] finer [OF d] w(2) assms(3))
  next
    case 2
    then have w: "w = (0x1E00 OR ((offset - 64) AND 0x00FF))" "n = 13"
      using assms(1) assms(3) by (auto simp: offset_code_def word_less_nat_alt word_le_nat_alt)
    have y: "unat (offset - 64) < 256" using 2 unat_sub [of 64 offset] by (auto simp: word_less_nat_alt word_le_nat_alt)
    note read = read_code [OF assms(2) w(1), where m = 8 and p = 30 and K = 134217728 and D = 524288 and r = 256]
    have d: "unat acc div 134217728 = 30" and f: "unat acc div 524288 mod 256 = unat (offset - 64) mod 256"
      by (rule read; simp add: w(2) mask_eq_exp_minus_1)+
    show ?thesis
      by (simp add: decode_literal_def decode_offset_def top_tests field_words d f mod_less [OF y] coarser [OF d] finer [OF d] w(2) assms(3))
  next
    case 3
    then have w: "w = (0x7000 OR ((offset - 320) AND 0x07FF))" "n = 15"
      using assms(1) assms(3) by (auto simp: offset_code_def word_less_nat_alt word_le_nat_alt)
    have y: "unat (offset - 320) < 2048" using 3 unat_sub [of 320 offset] by (auto simp: word_less_nat_alt word_le_nat_alt)
    note read = read_code [OF assms(2) w(1), where m = 11 and p = 14 and K = 268435456 and D = 131072 and r = 2048]
    have d: "unat acc div 268435456 = 14" and f: "unat acc div 131072 mod 2048 = unat (offset - 320) mod 2048"
      by (rule read; simp add: w(2) mask_eq_exp_minus_1)+
    show ?thesis
      by (simp add: decode_literal_def decode_offset_def top_tests field_words d f mod_less [OF y] coarser [OF d] finer [OF d] w(2) assms(3))
  next
    case 4
    then have w: "w = (0x060000 OR ((offset - 2368) AND 0xFFFF))" "n = 19"
      using assms(1) assms(3) by (auto simp: offset_code_def word_less_nat_alt word_le_nat_alt)
    have y: "unat (offset - 2368) < 65536" using 4 assms(4) unat_sub [of 2368 offset] by (auto simp: word_less_nat_alt word_le_nat_alt)
    note read = read_code [OF assms(2) w(1), where m = 16 and p = 6 and K = 536870912 and D = 8192 and r = 65536]
    have d: "unat acc div 536870912 = 6" and f: "unat acc div 8192 mod 65536 = unat (offset - 2368) mod 65536"
      by (rule read; simp add: w(2) mask_eq_exp_minus_1)+
    show ?thesis
      by (simp add: decode_literal_def decode_offset_def top_tests field_words d f mod_less [OF y] coarser [OF d] finer [OF d] w(2) assms(3))
  qed
qed

lemma offset_decoded_8K:
  assumes "offset_code level offset = Some (w, n)" and "unat acc div 2 ^ (32 - n) = unat w" and "level = 0"
  shows "decode_literal acc = None \<and> decode_offset level acc = Inr (offset, n)"
proof -
  consider "offset < 64" | "64 \<le> offset \<and> offset < 320" | "320 \<le> offset \<and> offset < 8192"
    using assms by (fastforce simp: offset_code_def not_less split: if_splits)
  then show ?thesis
  proof cases
    case 1
    then have w: "w = (0x03C0 OR (offset AND 0x003F))" "n = 10"
      using assms(1) assms(3) by (auto simp: offset_code_def word_less_nat_alt word_le_nat_alt)
    have y: "unat offset < 64" using 1 by (auto simp: word_less_nat_alt word_le_nat_alt)
    note read = read_code [OF assms(2) w(1), where m = 6 and p = 15 and K = 268435456 and D = 4194304 and r = 64]
    have d: "unat acc div 268435456 = 15" and f: "unat acc div 4194304 mod 64 = unat offset mod 64"
      by (rule read; simp add: w(2) mask_eq_exp_minus_1)+
    show ?thesis
      by (simp add: decode_literal_def decode_offset_def top_tests field_words d f mod_less [OF y] coarser [OF d] finer [OF d] w(2) assms(3))
  next
    case 2
    then have w: "w = (0x0E00 OR ((offset - 64) AND 0x00FF))" "n = 12"
      using assms(1) assms(3) by (auto simp: offset_code_def word_less_nat_alt word_le_nat_alt)
    have y: "unat (offset - 64) < 256" using 2 unat_sub [of 64 offset] by (auto simp: word_less_nat_alt word_le_nat_alt)
    note read = read_code [OF assms(2) w(1), where m = 8 and p = 14 and K = 268435456 and D = 1048576 and r = 256]
    have d: "unat acc div 268435456 = 14" and f: "unat acc div 1048576 mod 256 = unat (offset - 64) mod 256"
      by (rule read; simp add: w(2) mask_eq_exp_minus_1)+
    show ?thesis
      by (simp add: decode_literal_def decode_offset_def top_tests field_words d f mod_less [OF y] coarser [OF d] finer [OF d] w(2) assms(3))
  next
    case 3
    then have w: "w = (0xC000 OR ((offset - 320) AND 0x1FFF))" "n = 16"
      using assms(1) assms(3) by (auto simp: offset_code_def word_less_nat_alt word_le_nat_alt)
    have y: "unat (offset - 320) < 8192" using 3 unat_sub [of 320 offset] by (auto simp: word_less_nat_alt word_le_nat_alt)
    note read = read_code [OF assms(2) w(1), where m = 13 and p = 6 and K = 536870912 and D = 65536 and r = 8192]
    have d: "unat acc div 536870912 = 6" and f: "unat acc div 65536 mod 8192 = unat (offset - 320) mod 8192"
      by (rule read; simp add: w(2) mask_eq_exp_minus_1)+
    show ?thesis
      by (simp add: decode_literal_def decode_offset_def top_tests field_words d f mod_less [OF y] coarser [OF d] finer [OF d] w(2) assms(3))
  qed
qed

lemma length_decoded_short:
  assumes "length_code level len = Some (w, n)" and "unat acc div 2 ^ (32 - n) = unat w" and "4 \<le> len" and "len < 64"
  shows "decode_length level acc = Inr (len, n)"
proof -
  consider "4 \<le> len \<and> len < 8" | "8 \<le> len \<and> len < 16" | "16 \<le> len \<and> len < 32" | "32 \<le> len \<and> len < 64"
    using assms(3,4) by atomize_elim (auto simp: word_less_nat_alt word_le_nat_alt)
  then show ?thesis
  proof cases
    case 1
    then have "len \<noteq> 3" by auto
    with 1 have w: "w = (0x0008 OR (len AND 0x0003))" "n = 4"
      using assms(1) by (auto simp: length_code_def word_less_nat_alt word_le_nat_alt)
    note read = read_code [OF assms(2) w(1), where m = 2 and p = 2 and K = 1073741824 and D = 268435456 and r = 4]
    have d: "unat acc div 1073741824 = 2" and f: "unat acc div 268435456 mod 4 = unat len mod 4"
      by (rule read; simp add: w(2) mask_eq_exp_minus_1)+
    have "of_nat (unat len mod 4) + 4 = len"
      using 1 length_sum [of 4 len] by (simp add: word_less_nat_alt word_le_nat_alt)
    then show ?thesis by (simp add: decode_length_def top_tests field_words d f coarser [OF d] w(2))
  next
    case 2
    then have "len \<noteq> 3" by auto
    with 2 have w: "w = (0x0030 OR (len AND 0x0007))" "n = 6"
      using assms(1) by (auto simp: length_code_def word_less_nat_alt word_le_nat_alt)
    note read = read_code [OF assms(2) w(1), where m = 3 and p = 6 and K = 536870912 and D = 67108864 and r = 8]
    have d: "unat acc div 536870912 = 6" and f: "unat acc div 67108864 mod 8 = unat len mod 8"
      by (rule read; simp add: w(2) mask_eq_exp_minus_1)+
    have "of_nat (unat len mod 8) + 8 = len"
      using 2 length_sum [of 8 len] by (simp add: word_less_nat_alt word_le_nat_alt)
    then show ?thesis by (simp add: decode_length_def top_tests field_words d f coarser [OF d] w(2))
  next
    case 3
    then have "len \<noteq> 3" by auto
    with 3 have w: "w = (0x00E0 OR (len AND 0x000F))" "n = 8"
      using assms(1) by (auto simp: length_code_def word_less_nat_alt word_le_nat_alt)
    note read = read_code [OF assms(2) w(1), where m = 4 and p = 14 and K = 268435456 and D = 16777216 and r = 16]
    have d: "unat acc div 268435456 = 14" and f: "unat acc div 16777216 mod 16 = unat len mod 16"
      by (rule read; simp add: w(2) mask_eq_exp_minus_1)+
    have "of_nat (unat len mod 16) + 16 = len"
      using 3 length_sum [of 16 len] by (simp add: word_less_nat_alt word_le_nat_alt)
    then show ?thesis by (simp add: decode_length_def top_tests field_words d f coarser [OF d] w(2))
  next
    case 4
    then have "len \<noteq> 3" by auto
    with 4 have w: "w = (0x03C0 OR (len AND 0x001F))" "n = 10"
      using assms(1) by (auto simp: length_code_def word_less_nat_alt word_le_nat_alt)
    note read = read_code [OF assms(2) w(1), where m = 5 and p = 30 and K = 134217728 and D = 4194304 and r = 32]
    have d: "unat acc div 134217728 = 30" and f: "unat acc div 4194304 mod 32 = unat len mod 32"
      by (rule read; simp add: w(2) mask_eq_exp_minus_1)+
    have "of_nat (unat len mod 32) + 32 = len"
      using 4 length_sum [of 32 len] by (simp add: word_less_nat_alt word_le_nat_alt)
    then show ?thesis by (simp add: decode_length_def top_tests field_words d f coarser [OF d] w(2))
  qed
qed

lemma length_decoded_medium:
  assumes "length_code level len = Some (w, n)" and "unat acc div 2 ^ (32 - n) = unat w" and "64 \<le> len" and "len < 1024"
  shows "decode_length level acc = Inr (len, n)"
proof -
  consider "64 \<le> len \<and> len < 128" | "128 \<le> len \<and> len < 256" | "256 \<le> len \<and> len < 512" | "512 \<le> len \<and> len < 1024"
    using assms(3,4) by atomize_elim (auto simp: word_less_nat_alt word_le_nat_alt)
  then show ?thesis
  proof cases
    case 1
    then have "len \<noteq> 3" by auto
    with 1 have w: "w = (0x0F80 OR (len AND 0x003F))" "n = 12"
      using assms(1) by (auto simp: length_code_def word_less_nat_alt word_le_nat_alt)
    note read = read_code [OF assms(2) w(1), where m = 6 and p = 62 and K = 67108864 and D = 1048576 and r = 64]
    have d: "unat acc div 67108864 = 62" and f: "unat acc div 1048576 mod 64 = unat len mod 64"
      by (rule read; simp add: w(2) mask_eq_exp_minus_1)+
    have "of_nat (unat len mod 64) + 64 = len"
      using 1 length_sum [of 64 len] by (simp add: word_less_nat_alt word_le_nat_alt)
    then show ?thesis by (simp add: decode_length_def top_tests field_words d f coarser [OF d] w(2))
  next
    case 2
    then have "len \<noteq> 3" by auto
    with 2 have w: "w = (0x3F00 OR (len AND 0x007F))" "n = 14"
      using assms(1) by (auto simp: length_code_def word_less_nat_alt word_le_nat_alt)
    note read = read_code [OF assms(2) w(1), where m = 7 and p = 126 and K = 33554432 and D = 262144 and r = 128]
    have d: "unat acc div 33554432 = 126" and f: "unat acc div 262144 mod 128 = unat len mod 128"
      by (rule read; simp add: w(2) mask_eq_exp_minus_1)+
    have "of_nat (unat len mod 128) + 128 = len"
      using 2 length_sum [of 128 len] by (simp add: word_less_nat_alt word_le_nat_alt)
    then show ?thesis by (simp add: decode_length_def top_tests field_words d f coarser [OF d] w(2))
  next
    case 3
    then have "len \<noteq> 3" by auto
    with 3 have w: "w = (0xFE00 OR (len AND 0x00FF))" "n = 16"
      using assms(1) by (auto simp: length_code_def word_less_nat_alt word_le_nat_alt)
    note read = read_code [OF assms(2) w(1), where m = 8 and p = 254 and K = 16777216 and D = 65536 and r = 256]
    have d: "unat acc div 16777216 = 254" and f: "unat acc div 65536 mod 256 = unat len mod 256"
      by (rule read; simp add: w(2) mask_eq_exp_minus_1)+
    have "of_nat (unat len mod 256) + 256 = len"
      using 3 length_sum [of 256 len] by (simp add: word_less_nat_alt word_le_nat_alt)
    then show ?thesis by (simp add: decode_length_def top_tests field_words d f coarser [OF d] w(2))
  next
    case 4
    then have "len \<noteq> 3" by auto
    with 4 have w: "w = (0x3FC00 OR (len AND 0x01FF))" "n = 18"
      using assms(1) by (auto simp: length_code_def word_less_nat_alt word_le_nat_alt)
    note read = read_code [OF assms(2) w(1), where m = 9 and p = 510 and K = 8388608 and D = 16384 and r = 512]
    have d: "unat acc div 8388608 = 510" and f: "unat acc div 16384 mod 512 = unat len mod 512"
      by (rule read; simp add: w(2) mask_eq_exp_minus_1)+
    have "of_nat (unat len mod 512) + 512 = len"
      using 4 length_sum [of 512 len] by (simp add: word_less_nat_alt word_le_nat_alt)
    then show ?thesis by (simp add: decode_length_def top_tests field_words d f coarser [OF d] w(2))
  qed
qed

lemma length_decoded_long:
  assumes "length_code level len = Some (w, n)" and "unat acc div 2 ^ (32 - n) = unat w" and "1024 \<le> len" and "len < 8192"
  shows "decode_length level acc = Inr (len, n)"
proof -
  consider "1024 \<le> len \<and> len < 2048" | "2048 \<le> len \<and> len < 4096" | "4096 \<le> len \<and> len < 8192"
    using assms(3,4) by atomize_elim (auto simp: word_less_nat_alt word_le_nat_alt)
  then show ?thesis
  proof cases
    case 1
    then have "len \<noteq> 3" by auto
    with 1 have w: "w = (0xFF800 OR (len AND 0x03FF))" "n = 20"
      using assms(1) by (auto simp: length_code_def word_less_nat_alt word_le_nat_alt)
    note read = read_code [OF assms(2) w(1), where m = 10 and p = 1022 and K = 4194304 and D = 4096 and r = 1024]
    have d: "unat acc div 4194304 = 1022" and f: "unat acc div 4096 mod 1024 = unat len mod 1024"
      by (rule read; simp add: w(2) mask_eq_exp_minus_1)+
    have "of_nat (unat len mod 1024) + 1024 = len"
      using 1 length_sum [of 1024 len] by (simp add: word_less_nat_alt word_le_nat_alt)
    then show ?thesis by (simp add: decode_length_def top_tests field_words d f coarser [OF d] w(2))
  next
    case 2
    then have "len \<noteq> 3" by auto
    with 2 have w: "w = (0x3FF000 OR (len AND 0x07FF))" "n = 22"
      using assms(1) by (auto simp: length_code_def word_less_nat_alt word_le_nat_alt)
    note read = read_code [OF assms(2) w(1), where m = 11 and p = 2046 and K = 2097152 and D = 1024 and r = 2048]
    have d: "unat acc div 2097152 = 2046" and f: "unat acc div 1024 mod 2048 = unat len mod 2048"
      by (rule read; simp add: w(2) mask_eq_exp_minus_1)+
    have "of_nat (unat len mod 2048) + 2048 = len"
      using 2 length_sum [of 2048 len] by (simp add: word_less_nat_alt word_le_nat_alt)
    then show ?thesis by (simp add: decode_length_def top_tests field_words d f coarser [OF d] w(2))
  next
    case 3
    then have "len \<noteq> 3" by auto
    with 3 have w: "w = (0xFFE000 OR (len AND 0x0FFF))" "n = 24"
      using assms(1) by (auto simp: length_code_def word_less_nat_alt word_le_nat_alt)
    note read = read_code [OF assms(2) w(1), where m = 12 and p = 4094 and K = 1048576 and D = 256 and r = 4096]
    have d: "unat acc div 1048576 = 4094" and f: "unat acc div 256 mod 4096 = unat len mod 4096"
      by (rule read; simp add: w(2) mask_eq_exp_minus_1)+
    have "of_nat (unat len mod 4096) + 4096 = len"
      using 3 length_sum [of 4096 len] by (simp add: word_less_nat_alt word_le_nat_alt)
    then show ?thesis by (simp add: decode_length_def top_tests field_words d f coarser [OF d] w(2))
  qed
qed

lemma length_decoded_64K:
  assumes "length_code level len = Some (w, n)" and "unat acc div 2 ^ (32 - n) = unat w" and "8192 \<le> len" and "len < 65536" and "level \<noteq> 0"
  shows "decode_length level acc = Inr (len, n)"
proof -
  consider "8192 \<le> len \<and> len < 16384" | "16384 \<le> len \<and> len < 32768" | "32768 \<le> len \<and> len < 65536"
    using assms(3,4) by atomize_elim (auto simp: word_less_nat_alt word_le_nat_alt)
  then show ?thesis
  proof cases
    case 1
    then have "len \<noteq> 3" by auto
    with 1 have w: "w = (0x3FFC000 OR (len AND 0x1FFF))" "n = 26"
      using assms(1) assms(5) by (auto simp: length_code_def word_less_nat_alt word_le_nat_alt)
    note read = read_code [OF assms(2) w(1), where m = 13 and p = 8190 and K = 524288 and D = 64 and r = 8192]
    have d: "unat acc div 524288 = 8190" and f: "unat acc div 64 mod 8192 = unat len mod 8192"
      by (rule read; simp add: w(2) mask_eq_exp_minus_1)+
    have "of_nat (unat len mod 8192) + 8192 = len"
      using 1 length_sum [of 8192 len] by (simp add: word_less_nat_alt word_le_nat_alt)
    then show ?thesis by (simp add: decode_length_def top_tests field_words d f coarser [OF d] w(2) assms(5))
  next
    case 2
    then have "len \<noteq> 3" by auto
    with 2 have w: "w = (0xFFF8000 OR (len AND 0x3FFF))" "n = 28"
      using assms(1) assms(5) by (auto simp: length_code_def word_less_nat_alt word_le_nat_alt)
    note read = read_code [OF assms(2) w(1), where m = 14 and p = 16382 and K = 262144 and D = 16 and r = 16384]
    have d: "unat acc div 262144 = 16382" and f: "unat acc div 16 mod 16384 = unat len mod 16384"
      by (rule read; simp add: w(2) mask_eq_exp_minus_1)+
    have "of_nat (unat len mod 16384) + 16384 = len"
      using 2 length_sum [of 16384 len] by (simp add: word_less_nat_alt word_le_nat_alt)
    then show ?thesis by (simp add: decode_length_def top_tests field_words d f coarser [OF d] w(2) assms(5))
  next
    case 3
    then have "len \<noteq> 3" by auto
    with 3 have w: "w = (0x3FFF0000 OR (len AND 0x7FFF))" "n = 30"
      using assms(1) assms(5) by (auto simp: length_code_def word_less_nat_alt word_le_nat_alt)
    note read = read_code [OF assms(2) w(1), where m = 15 and p = 32766 and K = 131072 and D = 4 and r = 32768]
    have d: "unat acc div 131072 = 32766" and f: "unat acc div 4 mod 32768 = unat len mod 32768"
      by (rule read; simp add: w(2) mask_eq_exp_minus_1)+
    have "of_nat (unat len mod 32768) + 32768 = len"
      using 3 length_sum [of 32768 len] by (simp add: word_less_nat_alt word_le_nat_alt)
    then show ?thesis by (simp add: decode_length_def top_tests field_words d f coarser [OF d] w(2) assms(5))
  qed
qed

lemma length_decoded:
  assumes c: "length_code level len = Some (w, n)" and r: "unat acc div 2 ^ (32 - n) = unat w"
  shows "decode_length level acc = Inr (len, n)"
proof (cases "len = 3")
  case True
  then have "w = 0" "n = 1" using c by (simp_all add: length_code_def)
  then have "unat acc div 2147483648 = 0" using r by simp
  then show ?thesis unfolding decode_length_def top_tests(1) by (simp only: refl if_True True \<open>n = 1\<close>)
next
  case False
  have "4 \<le> len"
  proof (rule ccontr)
    assume "\<not> 4 \<le> len"
    then have "length_code level len = None" using False by (simp add: length_code_def word_le_nat_alt word_less_nat_alt)
    then show False using c by simp
  qed
  moreover have "len < 65536 \<and> (level \<noteq> 0 \<or> len < 8192)"
  proof (rule ccontr)
    assume h: "\<not> (len < 65536 \<and> (level \<noteq> 0 \<or> len < 8192))"
    then consider "65536 \<le> unat len" | "8192 \<le> unat len" "level = 0" by (auto simp: word_less_nat_alt)
    then have "length_code level len = None"
      using False by cases (simp_all add: length_code_def word_le_nat_alt word_less_nat_alt)
    then show False using c by simp
  qed
  ultimately have "4 \<le> len \<and> (len < 64 \<or> 64 \<le> len \<and> len < 1024 \<or> 1024 \<le> len \<and> len < 8192 \<or>
      8192 \<le> len \<and> len < 65536 \<and> level \<noteq> 0)"
    by (auto simp: not_less)
  then show ?thesis
    using length_decoded_short [OF c r] length_decoded_medium [OF c r] length_decoded_long [OF c r] length_decoded_64K [OF c r]
    by blast
qed

lemma offset_decoded:
  assumes "offset_code level offset = Some (w, n)" and "unat acc div 2 ^ (32 - n) = unat w" and "offset < 65536"
  shows "decode_literal acc = None" and "decode_offset level acc = Inr (offset, n)"
  using offset_decoded_64K [OF assms(1,2) _ assms(3)] offset_decoded_8K [OF assms(1,2)] by blast+

lemma literal_fields:
  "drop_bit 24 ((acc :: u32) AND 0x7F000000) = of_nat (unat acc div 16777216 mod 128)"
  "drop_bit 23 ((acc :: u32) AND 0x3F800000) = of_nat (unat acc div 8388608 mod 128)"
proof -
  have "drop_bit 24 (acc AND 0x7F000000) = drop_bit 24 acc AND 0x7F" by simp
  also have "\<dots> = of_nat (unat acc div 16777216 mod 128)"
    by (rule field_word [where m = 7]; simp add: mask_eq_exp_minus_1)
  finally show "drop_bit 24 (acc AND 0x7F000000) = of_nat (unat acc div 16777216 mod 128)" .
  have "drop_bit 23 (acc AND 0x3F800000) = drop_bit 23 acc AND 0x7F" by simp
  also have "\<dots> = of_nat (unat acc div 8388608 mod 128)"
    by (rule field_word [where m = 7]; simp add: mask_eq_exp_minus_1)
  finally show "drop_bit 23 (acc AND 0x3F800000) = of_nat (unat acc div 8388608 mod 128)" .
qed

lemma unat_ucast_u8: "unat (ucast (b :: u8) :: u32) = unat b"
  using unsigned_less [of b, where 'a = nat] by (simp add: unsigned_ucast_eq take_bit_nat_eq_self)

lemma ucast_back_u8: "ucast (ucast (b :: u8) :: u32) = b"
  by (rule bit_word_eqI) (simp add: bit_simps)

lemma literal_decoded:
  assumes "literal_code b = (w, n)" and "unat acc div 2 ^ (32 - n) = unat w"
  shows "decode_literal acc = Some (b, n)"
proof (cases "unat b < 128")
  case True
  then have w: "w = ucast b" "n = 8"
    using assms(1) by (auto simp: literal_code_def word_less_nat_alt unat_ucast_u8)
  then have f: "unat acc div 16777216 = unat b" using assms(2) by (simp add: unat_ucast_u8)
  then have d: "unat acc div 2147483648 = 0"
    using True div_mult2_eq [of "unat acc" 16777216 128] by simp
  show ?thesis
    using True unfolding decode_literal_def literal_fields by (simp add: top_tests d f w(2) of_nat_unat ucast_back_u8)
next
  case False
  then have w: "w = (0x100 OR (ucast b AND 0x7F))" "n = 9"
    using assms(1) by (auto simp: literal_code_def word_less_nat_alt unat_ucast_u8)
  note read = read_code [OF assms(2) w(1), where m = 7 and p = 2 and K = 1073741824 and D = 8388608 and r = 128]
  have d: "unat acc div 1073741824 = 2" and f: "unat acc div 8388608 mod 128 = unat (ucast b :: u32) mod 128"
    by (rule read; simp add: w(2) mask_eq_exp_minus_1)+
  have "unat b mod 128 + 128 = unat b" using False unsigned_less [of b, where 'a = nat] by (simp add: le_mod_geq)
  then have "of_nat (unat b mod 128) + 128 = (ucast b :: u32)" by (metis of_nat_add of_nat_numeral of_nat_unat)
  then show ?thesis
    unfolding decode_literal_def literal_fields by (simp add: top_tests d coarser [OF d] f w(2) unat_ucast_u8 ucast_back_u8)
qed

text \<open>Every code fits the bits it is given.\<close>

definition fits :: "nat \<Rightarrow> nat \<Rightarrow> (u32 \<times> nat) option \<Rightarrow> bool" where
  "fits lo hi c \<longleftrightarrow> (case c of None \<Rightarrow> True | Some (w, n) \<Rightarrow> unat w < 2 ^ n \<and> lo \<le> n \<and> n \<le> hi)"

lemma fits_if: "(c \<Longrightarrow> fits lo hi x) \<Longrightarrow> (\<not> c \<Longrightarrow> fits lo hi y) \<Longrightarrow> fits lo hi (if c then x else y)"
  by simp

lemma fits_field:
  assumes "unat c < 2 ^ n" and "unat f < 2 ^ n" and "lo \<le> n" and "n \<le> hi"
  shows "fits lo hi (Some (c OR (y AND f), n))"
proof -
  have "uint (y AND f) \<le> uint f" by (simp add: unsigned_and_eq)
  moreover have "uint f < 2 ^ n" "uint c < 2 ^ n"
    using assms(1,2) by (metis of_nat_less_iff of_nat_numeral of_nat_power uint_nat)+
  ultimately have "uint c OR uint (y AND f) < 2 ^ n" by (intro OR_upper) simp_all
  then have "unat (c OR (y AND f)) < 2 ^ n" by (simp add: unsigned_or_eq unat_eq_nat_uint nat_less_iff)
  then show ?thesis using assms(3,4) by (simp add: fits_def)
qed

lemma code_fits:
  shows "fits 8 9 (Some (literal_code b))" and "fits 10 19 (offset_code level offset)" and "fits 1 30 (length_code level len)"
proof -
  show "fits 8 9 (Some (literal_code b))"
  proof (cases "unat b < 128")
    case True
    then have "literal_code b = (ucast b, 8)" by (simp add: literal_code_def word_less_nat_alt unat_ucast_u8)
    then show ?thesis using unsigned_less [of b, where 'a = nat] by (simp add: fits_def unat_ucast_u8)
  next
    case False
    then have "literal_code b = (0x100 OR (ucast b AND 0x7F), 9)"
      by (simp add: literal_code_def word_less_nat_alt unat_ucast_u8)
    then show ?thesis by (simp add: fits_field)
  qed
  have none: "fits lo hi None" for lo hi by (simp add: fits_def)
  show "fits 10 19 (offset_code level offset)"
    unfolding offset_code_def by (intro fits_if none; rule fits_field; simp)
  have zero: "fits 1 30 (Some (0, 1))" by (simp add: fits_def)
  show "fits 1 30 (length_code level len)"
    unfolding length_code_def by (intro fits_if none zero; rule fits_field; simp)
qed

end
