(* ===== verification/Mppc.thy ===== *)
theory Mppc
  imports MppcCodes
begin

text \<open>
  MPPC bulk compression, \<^verbatim>\<open>libfreerdp/codec/mppc.c\<close>. The history is an array of 65536 bytes of which the
  8K level uses the first 8192; a pointer into it is its offset from \<^verbatim>\<open>HistoryBuffer\<close>, and \<open>None\<close> stands
  for an access outside an array. \<open>below\<close> is the byte in front of the history, which the compressor reads.
\<close>

unbundle bit_operations_syntax

section \<open>The context\<close>

record MPPC_CONTEXT =
  mppc_bs :: wBitStream
  mppc_Compressor :: bool
  HistoryPtr :: nat
  HistoryOffset :: u32
  HistoryBufferSize :: u32
  HistoryBuffer :: "u8 list"
  MatchBuffer :: "u16 list"
  CompressionLevel :: u32

definition PACKET_COMPRESSED :: u32 where "PACKET_COMPRESSED = 0x20"
definition PACKET_AT_FRONT :: u32 where "PACKET_AT_FRONT = 0x40"
definition PACKET_FLUSHED :: u32 where "PACKET_FLUSHED = 0x80"

definition MPPC_MATCH_TABLE :: "u32 list" where
  "MPPC_MATCH_TABLE = [
    0x00000000, 0x009CCF93, 0x01399F26, 0x01D66EB9, 0x02733E4C, 0x03100DDF, 0x03ACDD72, 0x0449AD05,
    0x04E67C98, 0x05834C2B, 0x06201BBE, 0x06BCEB51, 0x0759BAE4, 0x07F68A77, 0x08935A0A, 0x0930299D,
    0x09CCF930, 0x0A69C8C3, 0x0B069856, 0x0BA367E9, 0x0C40377C, 0x0CDD070F, 0x0D79D6A2, 0x0E16A635,
    0x0EB375C8, 0x0F50455B, 0x0FED14EE, 0x1089E481, 0x1126B414, 0x11C383A7, 0x1260533A, 0x12FD22CD,
    0x1399F260, 0x1436C1F3, 0x14D39186, 0x15706119, 0x160D30AC, 0x16AA003F, 0x1746CFD2, 0x17E39F65,
    0x18806EF8, 0x191D3E8B, 0x19BA0E1E, 0x1A56DDB1, 0x1AF3AD44, 0x1B907CD7, 0x1C2D4C6A, 0x1CCA1BFD,
    0x1D66EB90, 0x1E03BB23, 0x1EA08AB6, 0x1F3D5A49, 0x1FDA29DC, 0x2076F96F, 0x2113C902, 0x21B09895,
    0x224D6828, 0x22EA37BB, 0x2387074E, 0x2423D6E1, 0x24C0A674, 0x255D7607, 0x25FA459A, 0x2697152D,
    0x2733E4C0, 0x27D0B453, 0x286D83E6, 0x290A5379, 0x29A7230C, 0x2A43F29F, 0x2AE0C232, 0x2B7D91C5,
    0x2C1A6158, 0x2CB730EB, 0x2D54007E, 0x2DF0D011, 0x2E8D9FA4, 0x2F2A6F37, 0x2FC73ECA, 0x30640E5D,
    0x3100DDF0, 0x319DAD83, 0x323A7D16, 0x32D74CA9, 0x33741C3C, 0x3410EBCF, 0x34ADBB62, 0x354A8AF5,
    0x35E75A88, 0x36842A1B, 0x3720F9AE, 0x37BDC941, 0x385A98D4, 0x38F76867, 0x399437FA, 0x3A31078D,
    0x3ACDD720, 0x3B6AA6B3, 0x3C077646, 0x3CA445D9, 0x3D41156C, 0x3DDDE4FF, 0x3E7AB492, 0x3F178425,
    0x3FB453B8, 0x4051234B, 0x40EDF2DE, 0x418AC271, 0x42279204, 0x42C46197, 0x4361312A, 0x43FE00BD,
    0x449AD050, 0x45379FE3, 0x45D46F76, 0x46713F09, 0x470E0E9C, 0x47AADE2F, 0x4847ADC2, 0x48E47D55,
    0x49814CE8, 0x4A1E1C7B, 0x4ABAEC0E, 0x4B57BBA1, 0x4BF48B34, 0x4C915AC7, 0x4D2E2A5A, 0x4DCAF9ED,
    0x4E67C980, 0x4F049913, 0x4FA168A6, 0x503E3839, 0x50DB07CC, 0x5177D75F, 0x5214A6F2, 0x52B17685,
    0x534E4618, 0x53EB15AB, 0x5487E53E, 0x5524B4D1, 0x55C18464, 0x565E53F7, 0x56FB238A, 0x5797F31D,
    0x5834C2B0, 0x58D19243, 0x596E61D6, 0x5A0B3169, 0x5AA800FC, 0x5B44D08F, 0x5BE1A022, 0x5C7E6FB5,
    0x5D1B3F48, 0x5DB80EDB, 0x5E54DE6E, 0x5EF1AE01, 0x5F8E7D94, 0x602B4D27, 0x60C81CBA, 0x6164EC4D,
    0x6201BBE0, 0x629E8B73, 0x633B5B06, 0x63D82A99, 0x6474FA2C, 0x6511C9BF, 0x65AE9952, 0x664B68E5,
    0x66E83878, 0x6785080B, 0x6821D79E, 0x68BEA731, 0x695B76C4, 0x69F84657, 0x6A9515EA, 0x6B31E57D,
    0x6BCEB510, 0x6C6B84A3, 0x6D085436, 0x6DA523C9, 0x6E41F35C, 0x6EDEC2EF, 0x6F7B9282, 0x70186215,
    0x70B531A8, 0x7152013B, 0x71EED0CE, 0x728BA061, 0x73286FF4, 0x73C53F87, 0x74620F1A, 0x74FEDEAD,
    0x759BAE40, 0x76387DD3, 0x76D54D66, 0x77721CF9, 0x780EEC8C, 0x78ABBC1F, 0x79488BB2, 0x79E55B45,
    0x7A822AD8, 0x7B1EFA6B, 0x7BBBC9FE, 0x7C589991, 0x7CF56924, 0x7D9238B7, 0x7E2F084A, 0x7ECBD7DD,
    0x7F68A770, 0x80057703, 0x80A24696, 0x813F1629, 0x81DBE5BC, 0x8278B54F, 0x831584E2, 0x83B25475,
    0x844F2408, 0x84EBF39B, 0x8588C32E, 0x862592C1, 0x86C26254, 0x875F31E7, 0x87FC017A, 0x8898D10D,
    0x8935A0A0, 0x89D27033, 0x8A6F3FC6, 0x8B0C0F59, 0x8BA8DEEC, 0x8C45AE7F, 0x8CE27E12, 0x8D7F4DA5,
    0x8E1C1D38, 0x8EB8ECCB, 0x8F55BC5E, 0x8FF28BF1, 0x908F5B84, 0x912C2B17, 0x91C8FAAA, 0x9265CA3D,
    0x930299D0, 0x939F6963, 0x943C38F6, 0x94D90889, 0x9575D81C, 0x9612A7AF, 0x96AF7742, 0x974C46D5,
    0x97E91668, 0x9885E5FB, 0x9922B58E, 0x99BF8521, 0x9A5C54B4, 0x9AF92447, 0x9B95F3DA, 0x9C32C36D]"

definition MPPC_MATCH_INDEX :: "u8 \<Rightarrow> u8 \<Rightarrow> u8 \<Rightarrow> u32" where
  "MPPC_MATCH_INDEX sym1 sym2 sym3 =
     drop_bit 12 ((push_bit 16 (MPPC_MATCH_TABLE ! unat sym3) + push_bit 8 (MPPC_MATCH_TABLE ! unat sym2) +
        MPPC_MATCH_TABLE ! unat sym1) AND 0x07FFF000)"

definition mppc_set_compression_level :: "u32 \<Rightarrow> MPPC_CONTEXT \<Rightarrow> MPPC_CONTEXT" where
  "mppc_set_compression_level level mppc =
     (if level < 1 then mppc\<lparr>CompressionLevel := 0, HistoryBufferSize := 8192\<rparr>
      else mppc\<lparr>CompressionLevel := 1, HistoryBufferSize := 65536\<rparr>)"

definition mppc_context_reset :: "bool \<Rightarrow> MPPC_CONTEXT \<Rightarrow> MPPC_CONTEXT" where
  "mppc_context_reset flush mppc =
     (let mppc = mppc\<lparr>HistoryBuffer := replicate 65536 0, MatchBuffer := replicate 32768 0\<rparr>
      in if flush then mppc\<lparr>HistoryOffset := HistoryBufferSize mppc + 1, HistoryPtr := 0\<rparr>
         else mppc\<lparr>HistoryOffset := 0, HistoryPtr := 0\<rparr>)"

definition mppc_context_new ::
  "(nat \<Rightarrow> bool) \<Rightarrow> nat \<Rightarrow> nat \<Rightarrow> u32 \<Rightarrow> bool \<Rightarrow> MPPC_CONTEXT option" where
  "mppc_context_new grant sizeof_ctx sizeof_bs level compressor =
     (if \<not> grant sizeof_ctx then None
      else case BitStream_New grant sizeof_bs of None \<Rightarrow> None
        | Some bs \<Rightarrow> Some (mppc_context_reset False
            \<lparr>mppc_bs = bs, mppc_Compressor = compressor, HistoryPtr = 0, HistoryOffset = 0,
             HistoryBufferSize = (if level < 1 then 8192 else 65536),
             HistoryBuffer = replicate 65536 0, MatchBuffer = replicate 32768 0,
             CompressionLevel = (if level < 1 then 0 else 1)\<rparr>))"

section \<open>The decompressor\<close>

fun copy_match :: "nat \<Rightarrow> nat \<Rightarrow> nat \<Rightarrow> u8 list \<Rightarrow> u8 list option" where
  "copy_match 0 src dst history = Some history"
| "copy_match (Suc n) src dst history =
     (if src < length history \<and> dst < length history
      then copy_match n (src + 1) (dst + 1) (history[dst := history ! src]) else None)"

text \<open>One round of the loop: the next history pointer, history and stream, or the error returned, with
  the history as far as it is written.\<close>

datatype mppc_round = Round nat "u8 list" wBitStream | Quit int wBitStream

definition match_source :: "u32 \<Rightarrow> nat \<Rightarrow> u32 \<Rightarrow> nat" where
  "match_source level hp copy_offset = nat ((int hp - uint copy_offset) AND (if level \<noteq> 0 then 0xFFFF else 0x1FFF))"

definition decompress_copy :: "u32 \<Rightarrow> nat \<Rightarrow> nat \<Rightarrow> u8 list \<Rightarrow> wBitStream \<Rightarrow> mppc_round option" where
  "decompress_copy level hend hp history bs =
     (case decode_offset level (bs_accumulator bs) of Inl e \<Rightarrow> Some (Quit e bs)
      | Inr (copy_offset, n) \<Rightarrow>
         (let bs = BitStream_Shift n bs in
          case decode_length level (bs_accumulator bs) of Inl e \<Rightarrow> Some (Quit e bs)
          | Inr (len, n) \<Rightarrow>
             (let bs = BitStream_Shift n bs; src = match_source level hp copy_offset in
              if hp + unat len - 1 > hend then Some (Quit (-1005) bs)
              else if src + unat len > hend then Some (Quit (-1006) bs)
              else map_option (\<lambda>history. Round (hp + unat len) history bs) (copy_match (unat len) src hp history))))"

definition decompress_round :: "u32 \<Rightarrow> nat \<Rightarrow> nat \<Rightarrow> u8 list \<Rightarrow> wBitStream \<Rightarrow> mppc_round option" where
  "decompress_round level hend hp history bs =
     (if hp > hend then Some (Quit (-1004) bs)
      else case decode_literal (bs_accumulator bs) of
        Some (literal, n) \<Rightarrow>
          (if hp < length history
           then Some (Round (hp + 1) (history[hp := literal]) (BitStream_Shift n bs)) else None)
      | None \<Rightarrow> decompress_copy level hend hp history bs)"

lemma copy_match_length: "copy_match n src dst history = Some h \<Longrightarrow> length h = length history"
  by (induction n src dst history rule: copy_match.induct) (auto split: if_splits)

lemma round_advances:
  "decompress_round level hend hp history bs = Some (Round hp' h' bs') \<Longrightarrow> hp < hp' \<and> hp' \<le> hend + 1 \<and> length h' = length history"
  by (auto simp: decompress_round_def decompress_copy_def Let_def dest!: decode_length_pos copy_match_length
    split: if_splits option.splits sum.splits prod.splits)

text \<open>The loop runs while a byte is left. The difference of the two counters wraps when the last token
  reached past the end of the source, and then the history bounds the loop.\<close>

function decompress_loop :: "u32 \<Rightarrow> nat \<Rightarrow> nat \<Rightarrow> u8 list \<Rightarrow> wBitStream \<Rightarrow> (int \<times> nat \<times> u8 list \<times> wBitStream) option" where
  "decompress_loop level hend hp history bs =
     (if bs_length bs - bs_position bs \<ge> 8
      then case decompress_round level hend hp history bs of
        None \<Rightarrow> None
      | Some (Quit e bs) \<Rightarrow> Some (e, hp, history, bs)
      | Some (Round hp' history' bs') \<Rightarrow> decompress_loop level hend hp' history' bs'
      else Some (1, hp, history, bs))"
  by pat_completeness auto
termination
  by (relation "measure (\<lambda>(level, hend, hp, history, bs). hend + 1 - hp)") (auto dest!: round_advances)

declare decompress_loop.simps [simp del]

text \<open>Where \<^verbatim>\<open>*ppDstData\<close> points: into the source, the history or the output buffer; and \<^verbatim>\<open>*pDstSize\<close>.\<close>

datatype mppc_dst = Unset | AtSource u32 | AtHistory nat u32 | AtOutput u32

definition at_front :: "MPPC_CONTEXT \<Rightarrow> MPPC_CONTEXT" where
  "at_front mppc = mppc\<lparr>HistoryOffset := 0, HistoryPtr := 0\<rparr>"

definition zero_history :: "MPPC_CONTEXT \<Rightarrow> MPPC_CONTEXT" where
  "zero_history mppc = mppc\<lparr>HistoryBuffer :=
     replicate (unat (HistoryBufferSize mppc)) 0 @ drop (unat (HistoryBufferSize mppc)) (HistoryBuffer mppc)\<rparr>"

definition apply_flags :: "u32 \<Rightarrow> MPPC_CONTEXT \<Rightarrow> MPPC_CONTEXT" where
  "apply_flags flags mppc =
     (let mppc = (if flags AND PACKET_AT_FRONT \<noteq> 0 then at_front mppc else mppc)
      in if flags AND PACKET_FLUSHED \<noteq> 0 then zero_history (at_front mppc) else mppc)"

definition mppc_decompress ::
  "u8 list \<Rightarrow> u32 \<Rightarrow> MPPC_CONTEXT \<Rightarrow> (int \<times> mppc_dst \<times> MPPC_CONTEXT) option" where
  "mppc_decompress src flags mppc =
     (let SrcSize = of_nat (length src);
          hend = unat (HistoryBufferSize mppc - 1);
          bs = BitStream_Fetch (BitStream_Attach src SrcSize (mppc_bs mppc));
          mppc = apply_flags flags mppc
      in if flags AND PACKET_COMPRESSED = 0 then Some (1, AtSource SrcSize, mppc\<lparr>mppc_bs := bs\<rparr>)
         else case decompress_loop (CompressionLevel mppc) hend (HistoryPtr mppc) (HistoryBuffer mppc) bs of
           None \<Rightarrow> None
         | Some (status, hp, history, bs) \<Rightarrow>
            (let mppc' = mppc\<lparr>HistoryBuffer := history, mppc_bs := bs\<rparr> in
             if status = 1
             then Some (1, AtHistory (HistoryPtr mppc) (of_nat (hp - HistoryPtr mppc)), mppc'\<lparr>HistoryPtr := hp\<rparr>)
             else Some (status, Unset, mppc')))"

section \<open>The compressor\<close>

text \<open>The candidate found in the match table is at offset \<open>m\<close>; \<open>hp\<close> is the history pointer after the first
  symbol was stored and \<open>limit\<close> is \<^verbatim>\<open>mppc->HistoryPtr\<close>. The operands are evaluated from left to right.\<close>

definition is_literal ::
  "u8 \<Rightarrow> u8 list \<Rightarrow> nat \<Rightarrow> nat \<Rightarrow> nat \<Rightarrow> u8 \<Rightarrow> u8 \<Rightarrow> u8 \<Rightarrow> bool option" where
  "is_literal below history limit hp m sym1 sym2 sym3 =
     (if m > length history then None
      else if sym1 \<noteq> (if m = 0 then below else history ! (m - 1)) then Some True
      else if m \<ge> length history then None
      else if sym2 \<noteq> history ! m then Some True
      else if m + 1 \<ge> length history then None
      else Some (sym3 \<noteq> history ! (m + 1) \<or> m + 1 > limit \<or> m = 0 \<or> m = hp - 1 \<or> m = hp))"

definition put_byte :: "nat \<Rightarrow> u8 \<Rightarrow> u8 list \<Rightarrow> u8 list option" where
  "put_byte i b history = (if i < length history then Some (history[i := b]) else None)"

text \<open>The loop that lengthens a match: the source index, the offset matched, the history pointer, the
  length so far and the history.\<close>

function extend_match ::
  "u8 list \<Rightarrow> nat \<Rightarrow> nat \<Rightarrow> nat \<Rightarrow> nat \<Rightarrow> nat \<Rightarrow> nat \<Rightarrow> u8 list \<Rightarrow> (nat \<times> nat \<times> nat \<times> u8 list) option" where
  "extend_match src srcend limit i m hp len history =
     (if i \<ge> length src \<or> m \<ge> length history then None
      else if src ! i = history ! m \<and> i < srcend \<and> m \<le> limit
      then case put_byte hp (src ! i) history of
          None \<Rightarrow> None
        | Some history \<Rightarrow> extend_match src srcend limit (i + 1) (m + 1) (hp + 1) (len + 1) history
      else Some (i, hp, len, history))"
  by pat_completeness auto
termination
  by (relation "measure (\<lambda>(src, srcend, limit, i, m, hp, len, history). srcend - i)") auto

declare extend_match.simps [simp del]

text \<open>The state after a token, or the return with the source passed on as it is and both histories to be
  cleared. The source index and the history pointer are those after the token's first symbol.\<close>

datatype mppc_coded = Coded nat nat MPPC_CONTEXT | Overrun MPPC_CONTEXT

definition no_room :: "u32 \<Rightarrow> u32 \<Rightarrow> wBitStream \<Rightarrow> bool" where
  "no_room need DstSize bs \<longleftrightarrow> bs_position bs div 8 + need > DstSize - 1"

fun write_code :: "(u32 \<times> nat) option \<Rightarrow> wBitStream \<Rightarrow> wBitStream" where
  "write_code (Some (accumulator, nbits)) bs = BitStream_Write_Bits accumulator nbits bs"
| "write_code None bs = bs"

definition compress_literal :: "u32 \<Rightarrow> u8 \<Rightarrow> nat \<Rightarrow> nat \<Rightarrow> MPPC_CONTEXT \<Rightarrow> mppc_coded" where
  "compress_literal DstSize sym1 i hp mppc =
     (if no_room 2 DstSize (mppc_bs mppc) then Overrun (mppc_context_reset True mppc)
      else Coded i hp (mppc\<lparr>mppc_bs := write_code (Some (literal_code sym1)) (mppc_bs mppc)\<rparr>))"

definition copy_offset :: "u32 \<Rightarrow> nat \<Rightarrow> nat \<Rightarrow> u32" where
  "copy_offset hsize hp m = of_int (uint (hsize - 1) AND (int hp - int m))"

definition compress_match ::
  "u8 list \<Rightarrow> nat \<Rightarrow> u32 \<Rightarrow> u8 \<Rightarrow> u8 \<Rightarrow> nat \<Rightarrow> nat \<Rightarrow> nat \<Rightarrow> MPPC_CONTEXT \<Rightarrow> mppc_coded option" where
  "compress_match src srcend DstSize sym2 sym3 m i hp mppc =
     (let offset = copy_offset (HistoryBufferSize mppc) hp m; level = CompressionLevel mppc in
      case put_byte hp sym2 (HistoryBuffer mppc) of None \<Rightarrow> None
      | Some history \<Rightarrow>
        (case put_byte (hp + 1) sym3 history of None \<Rightarrow> None
         | Some history \<Rightarrow>
           (case extend_match src srcend (HistoryPtr mppc) (i + 2) (m + 2) (hp + 2) 3 history of None \<Rightarrow> None
            | Some (i, hp, len, history) \<Rightarrow>
               (let mppc = mppc\<lparr>HistoryBuffer := history\<rparr> in
                if no_room 7 DstSize (mppc_bs mppc) then Some (Overrun (mppc_context_reset True mppc))
                else Some (Coded i hp (mppc\<lparr>mppc_bs :=
                  write_code (length_code level (of_nat len)) (write_code (offset_code level offset) (mppc_bs mppc))\<rparr>))))))"

text \<open>The table now names the position behind the symbol, and \<^verbatim>\<open>mppc->HistoryPtr\<close> follows the local pointer.\<close>

definition enter_symbol :: "nat \<Rightarrow> nat \<Rightarrow> u8 list \<Rightarrow> MPPC_CONTEXT \<Rightarrow> MPPC_CONTEXT" where
  "enter_symbol index hp history mppc = mppc\<lparr>HistoryBuffer := history,
     MatchBuffer := (if unat (MatchBuffer mppc ! index) \<noteq> hp - 1 then (MatchBuffer mppc)[index := of_nat hp]
       else MatchBuffer mppc),
     HistoryPtr := (if HistoryPtr mppc < hp then hp else HistoryPtr mppc)\<rparr>"

definition compress_round ::
  "u8 \<Rightarrow> u8 list \<Rightarrow> nat \<Rightarrow> u32 \<Rightarrow> nat \<Rightarrow> nat \<Rightarrow> MPPC_CONTEXT \<Rightarrow> mppc_coded option" where
  "compress_round below src srcend DstSize i hp mppc =
     (if i + 2 \<ge> length src then None
      else
        (let sym1 = src ! i; sym2 = src ! (i + 1); sym3 = src ! (i + 2);
             index = unat (MPPC_MATCH_INDEX sym1 sym2 sym3)
         in case put_byte hp sym1 (HistoryBuffer mppc) of None \<Rightarrow> None
         | Some history \<Rightarrow>
            if index \<ge> length (MatchBuffer mppc) then None
            else
              (let i = i + 1; hp = hp + 1; m = unat (MatchBuffer mppc ! index);
                   mppc = enter_symbol index hp history mppc
               in case is_literal below history (HistoryPtr mppc) hp m sym1 sym2 sym3 of None \<Rightarrow> None
               | Some True \<Rightarrow> Some (compress_literal DstSize sym1 i hp mppc)
               | Some False \<Rightarrow> compress_match src srcend DstSize sym2 sym3 m i hp mppc)))"

lemma extend_match_forward:
  "extend_match src srcend limit i m hp len history = Some (i', hp', len', history') \<Longrightarrow> i \<le> i'"
proof (induction src srcend limit i m hp len history rule: extend_match.induct)
  case (1 src srcend limit i m hp len history)
  show ?case
  proof (cases "\<not> (i \<ge> length src \<or> m \<ge> length history) \<and> src ! i = history ! m \<and> i < srcend \<and> m \<le> limit")
    case True
    then obtain h where "put_byte hp (src ! i) history = Some h"
      and "extend_match src srcend limit (i + 1) (m + 1) (hp + 1) (len + 1) h = Some (i', hp', len', history')"
      using "1.prems" by (subst (asm) extend_match.simps) (auto split: option.splits)
    then have "i + 1 \<le> i'" using "1.IH" True by blast
    then show ?thesis by simp
  next
    case False
    then show ?thesis using "1.prems" by (subst (asm) extend_match.simps) (auto split: if_splits)
  qed
qed

lemma compress_round_forward:
  "compress_round below src srcend DstSize i hp mppc = Some (Coded i' hp' mppc') \<Longrightarrow> i < i'"
  by (auto simp: compress_round_def compress_literal_def compress_match_def Let_def dest!: extend_match_forward
    split: if_splits option.splits prod.splits bool.splits)

function compress_rounds ::
  "u8 \<Rightarrow> u8 list \<Rightarrow> nat \<Rightarrow> u32 \<Rightarrow> nat \<Rightarrow> nat \<Rightarrow> MPPC_CONTEXT \<Rightarrow> mppc_coded option" where
  "compress_rounds below src srcend DstSize i hp mppc =
     (if i + 2 < srcend
      then case compress_round below src srcend DstSize i hp mppc of
        Some (Coded i' hp' mppc') \<Rightarrow> compress_rounds below src srcend DstSize i' hp' mppc'
      | r \<Rightarrow> r
      else Some (Coded i hp mppc))"
  by pat_completeness auto
termination
  by (relation "measure (\<lambda>(below, src, srcend, DstSize, i, hp, mppc). srcend - i)") (auto dest: compress_round_forward)

declare compress_rounds.simps [simp del]

text \<open>The symbols that are left are written as literals.\<close>

function compress_trailing ::
  "u8 list \<Rightarrow> nat \<Rightarrow> u32 \<Rightarrow> nat \<Rightarrow> nat \<Rightarrow> MPPC_CONTEXT \<Rightarrow> mppc_coded option" where
  "compress_trailing src srcend DstSize i hp mppc =
     (if i \<le> srcend
      then if no_room 2 DstSize (mppc_bs mppc) then Some (Overrun (mppc_context_reset True mppc))
        else if i \<ge> length src then None
        else case put_byte hp (src ! i) (HistoryBuffer mppc) of None \<Rightarrow> None
          | Some history \<Rightarrow> compress_trailing src srcend DstSize (i + 1) (hp + 1)
              (mppc\<lparr>mppc_bs := write_code (Some (literal_code (src ! i))) (mppc_bs mppc), HistoryBuffer := history\<rparr>)
      else Some (Coded i hp mppc))"
  by pat_completeness auto
termination
  by (relation "measure (\<lambda>(src, srcend, DstSize, i, hp, mppc). srcend + 1 - i)") auto

declare compress_trailing.simps [simp del]

definition starts_at_front :: "u32 \<Rightarrow> u32 \<Rightarrow> u32 \<Rightarrow> bool" where
  "starts_at_front offset SrcSize hsize \<longleftrightarrow> \<not> (offset + SrcSize < hsize - 3 \<and> offset \<noteq> 0)"

text \<open>Both loops: all symbols of the source from the front of a packet on.\<close>

definition compress_all :: "u8 \<Rightarrow> u8 list \<Rightarrow> nat \<Rightarrow> u32 \<Rightarrow> nat \<Rightarrow> MPPC_CONTEXT \<Rightarrow> mppc_coded option" where
  "compress_all below src srcend DstSize hp mppc =
     (case compress_rounds below src srcend DstSize 0 hp mppc of
        Some (Coded i hp mppc) \<Rightarrow> compress_trailing src srcend DstSize i hp mppc
      | r \<Rightarrow> r)"

definition mppc_compress ::
  "u8 \<Rightarrow> u8 list \<Rightarrow> u8 list \<Rightarrow> u32 \<Rightarrow> MPPC_CONTEXT \<Rightarrow> (int \<times> mppc_dst \<times> u32 \<times> MPPC_CONTEXT) option" where
  "mppc_compress below src dst room mppc =
     (let SrcSize = of_nat (length src);
          front = starts_at_front (HistoryOffset mppc) SrcSize (HistoryBufferSize mppc);
          flushed = front \<and> HistoryOffset mppc = HistoryBufferSize mppc + 1;
          hp = unat (if front then 0 else HistoryOffset mppc);
          DstSize = (if room > SrcSize then SrcSize else room);
          srcend = unat (SrcSize - 1)
      in case compress_all below src srcend DstSize hp
           (mppc\<lparr>mppc_bs := BitStream_Attach dst DstSize (mppc_bs mppc)\<rparr>) of
        None \<Rightarrow> None
      | Some (Overrun mppc) \<Rightarrow> Some (1, AtSource SrcSize, PACKET_FLUSHED OR CompressionLevel mppc, mppc)
      | Some (Coded i hp mppc) \<Rightarrow>
         (let bs = BitStream_Flush (mppc_bs mppc);
              flags = PACKET_COMPRESSED OR CompressionLevel mppc OR (if front then PACKET_AT_FRONT else 0) OR
                (if flushed then PACKET_FLUSHED else 0)
          in Some (1, AtOutput ((bs_position bs + 7) div 8), flags,
               mppc\<lparr>mppc_bs := bs, HistoryPtr := hp, HistoryOffset := of_nat hp\<rparr>)))"

end
