(* ===== verification/MppcTokens.thy ===== *)
theory MppcTokens
  imports Mppc
begin

text \<open>
  MPPC data as a list of tokens, literals and copies: what a token does to the history, the bits it is
  written as, and that \<^verbatim>\<open>mppc_decompress\<close> runs exactly the tokens its source holds. On any other source the
  decompressor still ends and stays inside the history.
\<close>

section \<open>The decompressor on any source\<close>

text \<open>A context as \<^verbatim>\<open>mppc_context_new\<close> and \<^verbatim>\<open>mppc_set_compression_level\<close> leave it.\<close>

definition mppc_wf :: "MPPC_CONTEXT \<Rightarrow> bool" where
  "mppc_wf mppc \<longleftrightarrow>
     length (HistoryBuffer mppc) = 65536 \<and> length (MatchBuffer mppc) = 32768 \<and> HistoryPtr mppc \<le> 65536 \<and>
     (CompressionLevel mppc = 0 \<and> HistoryBufferSize mppc = 8192 \<or>
      CompressionLevel mppc = 1 \<and> HistoryBufferSize mppc = 65536)"

lemma new_wf: "mppc_context_new grant n m level compressor = Some mppc \<Longrightarrow> mppc_wf mppc"
  by (auto simp: mppc_context_new_def mppc_wf_def mppc_context_reset_def Let_def split: if_splits option.splits)

lemma set_level_wf: "mppc_wf mppc \<Longrightarrow> mppc_wf (mppc_set_compression_level level mppc)"
  by (auto simp: mppc_set_compression_level_def mppc_wf_def)

lemma reset_wf: "mppc_wf mppc \<Longrightarrow> mppc_wf (mppc_context_reset flush mppc)"
  by (auto simp: mppc_context_reset_def mppc_wf_def Let_def)

lemma wf_end: "mppc_wf mppc \<Longrightarrow> unat (HistoryBufferSize mppc - 1) \<in> {8191, 65535}"
  by (auto simp: mppc_wf_def)

lemma copy_match_ok:
  "src + n \<le> length h \<Longrightarrow> dst + n \<le> length h \<Longrightarrow> \<exists>h'. copy_match n src dst h = Some h' \<and> length h' = length h"
  by (induction n src dst h rule: copy_match.induct) auto

lemma copy_match_snoc:
  "copy_match n src dst h = Some h1 \<Longrightarrow> src + n < length h \<Longrightarrow> dst + n < length h \<Longrightarrow>
    copy_match (Suc n) src dst h = Some (h1[dst + n := h1 ! (src + n)])"
  by (induction n src dst h rule: copy_match.induct) (auto split: if_splits)

lemma copy_match_frame:
  "copy_match n src dst h = Some h' \<Longrightarrow> k < dst \<or> dst + n \<le> k \<Longrightarrow> h' ! k = h ! k"
  by (induction n src dst h rule: copy_match.induct) (auto split: if_splits simp: nth_list_update)

definition mppc_error :: "int \<Rightarrow> bool" where
  "mppc_error e \<longleftrightarrow> e \<in> {-1001, -1002, -1003, -1004, -1005, -1006}"

lemma decode_errors:
  "decode_offset level acc = Inl e \<Longrightarrow> mppc_error e" "decode_length level acc = Inl e \<Longrightarrow> mppc_error e"
  by (auto simp: decode_offset_def mppc_error_def split: if_splits) (simp add: decode_length_def split: if_splits)

text \<open>A round either stops with an error or moves the history pointer forward, inside the history.\<close>

definition round_inside :: "nat \<Rightarrow> nat \<Rightarrow> u8 list \<Rightarrow> mppc_round option \<Rightarrow> bool" where
  "round_inside hend hp h r \<longleftrightarrow> (case r of None \<Rightarrow> False | Some (Quit e bs) \<Rightarrow> mppc_error e
     | Some (Round hp' h' bs) \<Rightarrow> hp < hp' \<and> hp' \<le> hend + 1 \<and> length h' = length h)"

lemma copy_inside:
  assumes "hend < length h"
  shows "round_inside hend hp h (decompress_copy level hend hp h bs)"
proof (cases "decode_offset level (bs_accumulator bs)")
  case (Inl e)
  then show ?thesis using decode_errors by (simp add: decompress_copy_def round_inside_def)
next
  case (Inr r)
  obtain off n where r: "decode_offset level (bs_accumulator bs) = Inr (off, n)" using Inr by (cases r) simp
  define bs1 where "bs1 = BitStream_Shift n bs"
  show ?thesis
  proof (cases "decode_length level (bs_accumulator bs1)")
    case (Inl e)
    then show ?thesis using decode_errors r by (simp add: decompress_copy_def round_inside_def Let_def bs1_def)
  next
    case (Inr l)
    then obtain len m where l: "decode_length level (bs_accumulator bs1) = Inr (len, m)" by (cases l) simp
    define src where "src = match_source level hp off"
    have pos: "3 \<le> unat len" using decode_length_pos [OF l] by simp
    consider "hp + unat len - 1 > hend" | "hp + unat len - 1 \<le> hend" "src + unat len > hend"
      | "hp + unat len - 1 \<le> hend" "src + unat len \<le> hend" by linarith
    then show ?thesis
    proof cases
      case 3
      then have "hp + unat len \<le> length h" "src + unat len \<le> length h" using assms pos by linarith+
      then obtain h' where "copy_match (unat len) src hp h = Some h'" "length h' = length h"
        using copy_match_ok [of src "unat len" h hp] by blast
      then show ?thesis using 3 r l pos
        by (auto simp: decompress_copy_def round_inside_def Let_def bs1_def [symmetric] src_def [symmetric])
    qed (use r l in \<open>simp_all add: decompress_copy_def round_inside_def mppc_error_def Let_def flip: bs1_def src_def\<close>)
  qed
qed

lemma round_inside: "hend < length h \<Longrightarrow> round_inside hend hp h (decompress_round level hend hp h bs)"
  using copy_inside [of hend h hp level bs]
  by (auto simp: decompress_round_def round_inside_def mppc_error_def split: option.splits prod.splits)

lemma loop_inside:
  "hend < length h \<Longrightarrow> \<exists>e hp' h' bs'. decompress_loop level hend hp h bs = Some (e, hp', h', bs') \<and>
     (e = 1 \<or> mppc_error e) \<and> hp \<le> hp' \<and> hp' \<le> max hp (hend + 1) \<and> length h' = length h"
proof (induction level hend hp h bs rule: decompress_loop.induct)
  case (1 level hend hp h bs)
  note inside = round_inside [OF "1.prems", of hp level bs]
  show ?case
  proof (cases "bs_length bs - bs_position bs \<ge> 8")
    case True
    show ?thesis
    proof (cases "decompress_round level hend hp h bs")
      case None
      then show ?thesis using inside by (simp add: round_inside_def)
    next
      case (Some r)
      show ?thesis
      proof (cases r)
        case (Quit e bs')
        then show ?thesis using inside Some True by (simp add: decompress_loop.simps [of _ _ _ _ bs] round_inside_def)
      next
        case (Round hp' h' bs')
        then have "hp < hp'" "hp' \<le> hend + 1" "length h' = length h" using inside Some by (simp_all add: round_inside_def)
        then show ?thesis
          using "1.IH" [OF True Some Round] "1.prems" Some Round True
          by (fastforce simp: decompress_loop.simps [of _ _ _ _ bs])
      qed
    qed
  next
    case False
    then show ?thesis by (simp add: decompress_loop.simps [of _ _ _ _ bs])
  qed
qed

text \<open>What \<^verbatim>\<open>mppc_decompress\<close> delivers lies in the history.\<close>

definition delivers_inside :: "u8 list \<Rightarrow> int \<Rightarrow> mppc_dst \<Rightarrow> MPPC_CONTEXT \<Rightarrow> bool" where
  "delivers_inside src status dst mppc \<longleftrightarrow>
     (case dst of Unset \<Rightarrow> mppc_error status
      | AtSource n \<Rightarrow> status = 1 \<and> n = of_nat (length src)
      | AtHistory p n \<Rightarrow> status = 1 \<and> p + unat n = HistoryPtr mppc \<and> p + unat n \<le> length (HistoryBuffer mppc)
      | AtOutput n \<Rightarrow> False)"

lemma decompress_inside:
  assumes wf: "mppc_wf mppc"
  shows "\<exists>status dst mppc'. mppc_decompress src flags mppc = Some (status, dst, mppc') \<and> mppc_wf mppc' \<and>
    delivers_inside src status dst mppc'"
proof -
  define m where "m = apply_flags flags mppc"
  define bs where "bs = BitStream_Fetch (BitStream_Attach src (of_nat (length src)) (mppc_bs mppc))"
  define hend where "hend = unat (HistoryBufferSize mppc - 1)"
  have m: "mppc_wf m" "HistoryBufferSize m = HistoryBufferSize mppc"
    using wf by (auto simp: m_def apply_flags_def Let_def mppc_wf_def at_front_def zero_history_def)
  have hend: "hend < length (HistoryBuffer m)" "length (HistoryBuffer m) = 65536" "hend \<le> 65535"
    using m wf_end [OF m(1)] by (auto simp: hend_def mppc_wf_def)
  obtain e hp h bs' where l: "decompress_loop (CompressionLevel m) hend (HistoryPtr m) (HistoryBuffer m) bs = Some (e, hp, h, bs')"
    "e = 1 \<or> mppc_error e" "HistoryPtr m \<le> hp" "hp \<le> max (HistoryPtr m) (hend + 1)" "length h = length (HistoryBuffer m)"
    using loop_inside [OF hend(1)] by blast
  have "HistoryPtr m \<le> 65536" using m(1) by (simp add: mppc_wf_def)
  then have "hp \<le> 65536" using l(4) hend by linarith
  then have "hp - HistoryPtr m < 2 ^ 32" by simp
  then have "unat (of_nat (hp - HistoryPtr m) :: u32) = hp - HistoryPtr m"
    unfolding unat_of_nat by (simp add: take_bit_nat_eq_self del: of_nat_diff)
  then show ?thesis
    using l hend m \<open>hp \<le> 65536\<close>
    by (cases "flags AND PACKET_COMPRESSED = 0")
      (auto simp: mppc_decompress_def Let_def delivers_inside_def mppc_wf_def simp flip: m_def bs_def hend_def simp del: of_nat_diff)
qed

section \<open>Tokens\<close>

datatype token = Lit u8 | Copy u32 u32

fun token_bits :: "u32 \<Rightarrow> token \<Rightarrow> bool list" where
  "token_bits level (Lit b) = (case literal_code b of (w, n) \<Rightarrow> code_bits n (unat w))"
| "token_bits level (Copy offset len) =
     (case offset_code level offset of None \<Rightarrow> [] | Some (w, n) \<Rightarrow> code_bits n (unat w)) @
     (case length_code level len of None \<Rightarrow> [] | Some (w, n) \<Rightarrow> code_bits n (unat w))"

text \<open>A literal is appended at the history pointer, a copy copies byte by byte, so it may run into its own
  output. A copy is valid when it has a code and lies inside the history.\<close>

fun apply_token :: "u32 \<Rightarrow> nat \<Rightarrow> token \<Rightarrow> u8 list \<times> nat \<Rightarrow> (u8 list \<times> nat) option" where
  "apply_token level hend (Lit b) (h, hp) = (if hp \<le> hend \<and> hp < length h then Some (h[hp := b], hp + 1) else None)"
| "apply_token level hend (Copy offset len) (h, hp) =
     (if offset_code level offset \<noteq> None \<and> length_code level len \<noteq> None \<and> offset < 65536 \<and>
         hp + unat len \<le> hend + 1 \<and> match_source level hp offset + unat len \<le> hend
      then map_option (\<lambda>h. (h, hp + unat len)) (copy_match (unat len) (match_source level hp offset) hp h)
      else None)"

fun run_tokens :: "u32 \<Rightarrow> nat \<Rightarrow> token list \<Rightarrow> u8 list \<times> nat \<Rightarrow> (u8 list \<times> nat) option" where
  "run_tokens level hend [] st = Some st"
| "run_tokens level hend (t # ts) st =
     (case apply_token level hend t st of None \<Rightarrow> None | Some st \<Rightarrow> run_tokens level hend ts st)"

lemma run_tokens_snoc:
  "run_tokens level hend (ts @ [t]) st =
    (case run_tokens level hend ts st of None \<Rightarrow> None | Some st \<Rightarrow> apply_token level hend t st)"
  by (induction ts arbitrary: st) (auto split: option.splits)

lemma copy_len:
  assumes "length_code level len \<noteq> None"
  shows "3 \<le> unat len"
proof (rule ccontr)
  assume "\<not> 3 \<le> unat len"
  then have "length_code level len = None" by (auto simp: length_code_def word_le_nat_alt word_less_nat_alt)
  then show False using assms by simp
qed

lemma round_runs_token:
  assumes r: "reads_at buf p bs" and h: "holds_at buf p (token_bits level t)" and a: "apply_token level hend t (h, hp) = Some (h', hp')"
  shows "\<exists>bs'. decompress_round level hend hp h bs = Some (Round hp' h' bs') \<and>
    reads_at buf (p + length (token_bits level t)) bs'"
proof (cases t)
  case (Lit b)
  obtain w n where c: "literal_code b = (w, n)" by (cases "literal_code b")
  have f: "unat w < 2 ^ n" "0 < n" "n < 32" using code_fits(1) [of b] by (simp_all add: fits_def c)
  have "unat (bs_accumulator bs) div 2 ^ (32 - n) = unat w"
    using top_code [OF r] h f by (simp add: Lit c)
  then have "decode_literal (bs_accumulator bs) = Some (b, n)" using literal_decoded c by blast
  then show ?thesis
    using a shift_reads [OF r f(2,3)] by (auto simp: Lit c decompress_round_def split: if_splits)
next
  case (Copy offset len)
  obtain w n where o: "offset_code level offset = Some (w, n)" using a by (auto simp: Copy split: if_splits)
  obtain v m where l: "length_code level len = Some (v, m)" using a by (auto simp: Copy split: if_splits)
  have fo: "unat w < 2 ^ n" "0 < n" "n < 32" using code_fits(2) [of level offset] by (simp_all add: fits_def o)
  have fl: "unat v < 2 ^ m" "0 < m" "m < 32" using code_fits(3) [of level len] by (simp_all add: fits_def l)
  have ho: "holds_at buf p (code_bits n (unat w))" and hl: "holds_at buf (p + n) (code_bits m (unat v))"
    using h by (simp_all add: Copy o l holds_at_append)
  define bs1 where "bs1 = BitStream_Shift n bs"
  have r1: "reads_at buf (p + n) bs1" using shift_reads [OF r fo(2,3)] by (simp add: bs1_def)
  have r2: "reads_at buf (p + n + m) (BitStream_Shift m bs1)" using shift_reads [OF r1 fl(2,3)] .
  have ovf: "offset < 65536" using a by (auto simp: Copy split: if_splits)
  have do: "decode_literal (bs_accumulator bs) = None" "decode_offset level (bs_accumulator bs) = Inr (offset, n)"
    using offset_decoded [OF o _ ovf] top_code [OF r ho] fo by simp_all
  have dl: "decode_length level (bs_accumulator bs1) = Inr (len, m)"
    using length_decoded [OF l] top_code [OF r1 hl] fl by simp
  have "3 \<le> unat len" using copy_len [of level len] l by simp
  then have bounds: "\<not> hp > hend" "\<not> hp + unat len - 1 > hend" "\<not> match_source level hp offset + unat len > hend"
    and copied: "copy_match (unat len) (match_source level hp offset) hp h = Some h'" "hp' = hp + unat len"
    using a by (auto simp: Copy split: if_splits)
  have "decompress_round level hend hp h bs = Some (Round hp' h' (BitStream_Shift m bs1))"
    using bounds by (simp add: decompress_round_def decompress_copy_def Let_def do dl copied flip: bs1_def)
  then show ?thesis using r2 by (simp add: Copy o l add.assoc)
qed


lemma token_bits_long: "apply_token level hend t st = Some st' \<Longrightarrow> 8 \<le> length (token_bits level t)"
proof (cases t)
  case (Lit b)
  then show ?thesis using code_fits(1) [of b] by (simp add: fits_def split: prod.splits)
next
  case (Copy offset len)
  then show "apply_token level hend t st = Some st' \<Longrightarrow> 8 \<le> length (token_bits level t)"
    using code_fits(2) [of level offset] by (cases st) (auto simp: fits_def split: if_splits)
qed

text \<open>\<^verbatim>\<open>mppc_decompress\<close> ends after the last token, where less than a byte of padding is left.\<close>

lemma loop_runs_tokens:
  "reads_at buf p bs \<Longrightarrow> holds_at buf p (concat (map (token_bits level) ts)) \<Longrightarrow>
   p + length (concat (map (token_bits level) ts)) \<le> 8 * length buf \<Longrightarrow>
   8 * length buf < p + length (concat (map (token_bits level) ts)) + 8 \<Longrightarrow>
   run_tokens level hend ts (h, hp) = Some (h', hp') \<Longrightarrow>
   \<exists>bs'. decompress_loop level hend hp h bs = Some (1, hp', h', bs')"
proof (induction ts arbitrary: p bs h hp)
  case Nil
  then have "\<not> bs_length bs - bs_position bs \<ge> 8"
    using remaining_bits [of buf p bs] by (simp add: BitStream_GetRemainingLength_def word_le_nat_alt)
  then show ?case using Nil by (simp add: decompress_loop.simps [of _ _ _ _ bs])
next
  case (Cons t ts)
  obtain h1 hp1 where t: "apply_token level hend t (h, hp) = Some (h1, hp1)" and ts: "run_tokens level hend ts (h1, hp1) = Some (h', hp')"
    using Cons.prems(5) by (auto split: option.splits)
  have "bs_length bs - bs_position bs \<ge> 8"
    using remaining_bits [OF Cons.prems(1)] Cons.prems(3) token_bits_long [OF t]
    by (simp add: BitStream_GetRemainingLength_def word_le_nat_alt)
  moreover obtain bs1 where "decompress_round level hend hp h bs = Some (Round hp1 h1 bs1)"
    and "reads_at buf (p + length (token_bits level t)) bs1"
    using round_runs_token [OF Cons.prems(1) _ t] Cons.prems(2) by (auto simp: holds_at_append)
  moreover have "\<exists>bs'. decompress_loop level hend hp1 h1 bs1 = Some (1, hp', h', bs')"
    using Cons.IH [OF \<open>reads_at buf _ bs1\<close> _ _ _ ts] Cons.prems(2-4) by (simp add: holds_at_append add.assoc)
  ultimately show ?case by (simp add: decompress_loop.simps [of _ _ _ _ bs])
qed

lemma decompress_tokens:
  assumes run: "run_tokens (CompressionLevel r) (unat (HistoryBufferSize r - 1)) ts
      (HistoryBuffer (apply_flags flags r), HistoryPtr (apply_flags flags r)) = Some (h, hp)"
    and flags: "flags AND PACKET_COMPRESSED \<noteq> 0"
    and data: "length data < 2 ^ 29" "holds_at data 0 (concat (map (token_bits (CompressionLevel r)) ts))"
      "length (concat (map (token_bits (CompressionLevel r)) ts)) \<le> 8 * length data"
      "8 * length data < length (concat (map (token_bits (CompressionLevel r)) ts)) + 8"
  shows "\<exists>bs. mppc_decompress data flags r =
    Some (1, AtHistory (HistoryPtr (apply_flags flags r)) (of_nat (hp - HistoryPtr (apply_flags flags r))),
      (apply_flags flags r)\<lparr>HistoryBuffer := h, mppc_bs := bs, HistoryPtr := hp\<rparr>)"
proof -
  define bs where "bs = BitStream_Fetch (BitStream_Attach data (of_nat (length data)) (mppc_bs r))"
  have "reads_at data 0 bs" using fetch_reads [OF data(1)] by (simp add: bs_def)
  then obtain bs' where "decompress_loop (CompressionLevel r) (unat (HistoryBufferSize r - 1)) (HistoryPtr (apply_flags flags r))
      (HistoryBuffer (apply_flags flags r)) bs = Some (1, hp, h, bs')"
    using loop_runs_tokens [of data 0 bs "CompressionLevel r" ts, OF _ data(2) _ _ run] data(3,4) by auto
  moreover have "CompressionLevel (apply_flags flags r) = CompressionLevel r"
    by (simp add: apply_flags_def at_front_def zero_history_def Let_def)
  ultimately show ?thesis
    using flags by (intro exI [of _ bs']) (simp add: mppc_decompress_def Let_def flip: bs_def)
qed

end
