(* ===== verification/MppcRound.thy ===== *)
theory MppcRound
  imports MppcTokens
begin

text \<open>
  What \<^verbatim>\<open>mppc_compress\<close> writes are the tokens of its source: running them on the history it started from gives
  the history it ends with.
\<close>

section \<open>What a packet needs\<close>

text \<open>The state of one call: the source, the room and capacity of the output, the history the packet
  started from and its offset there, and the context's level and last history index.\<close>

record packet =
  pk_src :: "u8 list"
  pk_room :: nat
  pk_cap :: nat
  pk_history :: "u8 list"
  pk_start :: nat
  pk_level :: u32
  pk_end :: nat

definition packet_ok :: "packet \<Rightarrow> bool" where
  "packet_ok pk \<longleftrightarrow> pk_src pk \<noteq> [] \<and> 0 < pk_cap pk \<and> pk_cap pk < 2 ^ 29 \<and> length (pk_history pk) = 65536 \<and>
     pk_end pk = (if pk_level pk = 0 then 8191 else 65535) \<and> pk_start pk + length (pk_src pk) + 3 \<le> pk_end pk"

definition bits_of :: "packet \<Rightarrow> token list \<Rightarrow> bool list" where
  "bits_of pk ts = concat (map (token_bits (pk_level pk)) ts)"

text \<open>After the tokens \<open>ts\<close>, with \<open>i\<close> bytes of the source coded and the history pointer at \<open>hp\<close>.\<close>

definition coded :: "packet \<Rightarrow> token list \<Rightarrow> nat \<Rightarrow> nat \<Rightarrow> MPPC_CONTEXT \<Rightarrow> bool" where
  "coded pk ts i hp mppc \<longleftrightarrow>
     run_tokens (pk_level pk) (pk_end pk) ts (pk_history pk, pk_start pk) = Some (HistoryBuffer mppc, hp) \<and>
     writes_at (pk_room pk) (pk_cap pk) (bits_of pk ts) (mppc_bs mppc) \<and>
     length (bits_of pk ts) \<le> 8 * (pk_cap pk - 1) \<and>
     hp = pk_start pk + i \<and> i \<le> length (pk_src pk) \<and>
     (\<forall>k < i. HistoryBuffer mppc ! (pk_start pk + k) = pk_src pk ! k) \<and>
     length (HistoryBuffer mppc) = 65536 \<and> length (MatchBuffer mppc) = 32768 \<and>
     HistoryPtr mppc + 3 \<le> pk_end pk \<and> (\<forall>e \<in> set (MatchBuffer mppc). unat e + 3 \<le> pk_end pk) \<and>
     CompressionLevel mppc = pk_level pk \<and> unat (HistoryBufferSize mppc) = pk_end pk + 1"

text \<open>Either the token is coded, or the context is reset.\<close>

definition resets :: "packet \<Rightarrow> MPPC_CONTEXT \<Rightarrow> bool" where
  "resets pk mppc \<longleftrightarrow> (\<exists>m. mppc = mppc_context_reset True m \<and> CompressionLevel m = pk_level pk \<and>
     unat (HistoryBufferSize m) = pk_end pk + 1 \<and> length (bs_buffer (mppc_bs m)) = pk_room pk)"

definition goes_on :: "packet \<Rightarrow> (nat \<Rightarrow> bool) \<Rightarrow> mppc_coded option \<Rightarrow> bool" where
  "goes_on pk P r \<longleftrightarrow> (case r of None \<Rightarrow> False | Some (Overrun mppc) \<Rightarrow> resets pk mppc
     | Some (Coded i hp mppc) \<Rightarrow> P i \<and> (\<exists>ts. coded pk ts i hp mppc))"

lemma index_small: "unat (MPPC_MATCH_INDEX a b c) < 32768"
proof -
  define w where "w = push_bit 16 (MPPC_MATCH_TABLE ! unat c) + push_bit 8 (MPPC_MATCH_TABLE ! unat b) + MPPC_MATCH_TABLE ! unat a"
  have "drop_bit 12 (w AND 0x07FFF000) = drop_bit 12 w AND mask 15"
    by (simp add: mask_eq_exp_minus_1)
  then have "unat (MPPC_MATCH_INDEX a b c) = unat w div 2 ^ 12 mod 2 ^ 15"
    using field_value [of 12 w 15] by (simp add: MPPC_MATCH_INDEX_def flip: w_def)
  then show ?thesis by simp
qed

text \<open>Room for a token is room for its bits.\<close>

lemma room_left:
  assumes w: "writes_at room cap bits bs" and l: "length bits \<le> 8 * (cap - 1)" and cap: "0 < cap"
    and n: "\<not> no_room need (of_nat cap) bs" "unat need \<le> 7" "k \<le> 8 * unat need - 7"
  shows "length bits + k \<le> 8 * (cap - 1)"
proof -
  have c: "cap < 2 ^ 29" using w by (simp add: writes_at_def)
  have p: "unat (bs_position bs) = length bits"
    using writes_position [OF w] l c by simp
  have "of_nat cap - 1 = (of_nat (cap - 1) :: u32)" using cap by simp
  then have u: "unat (of_nat cap - 1 :: u32) = cap - 1"
    using c by (simp add: unat_of_nat take_bit_nat_eq_self del: of_nat_diff)
  have d: "unat (bs_position bs div 8) = length bits div 8" by (simp add: unat_div p)
  have "cap < 536870912" using c by simp
  then have "length bits div 8 + unat need < 4294967296" using l n(2) by linarith
  then have "unat (bs_position bs div 8 + need) = length bits div 8 + unat need"
    using d by (simp add: unat_word_ariths(1))
  then have "length bits div 8 + unat need \<le> cap - 1"
    using n(1) u by (simp add: no_room_def word_less_nat_alt)
  moreover have "length bits = 8 * (length bits div 8) + length bits mod 8" "length bits mod 8 \<le> 7" by simp_all
  ultimately show ?thesis using n(3) l by linarith
qed


lemma write_code_writes:
  assumes "writes_at room cap bits bs" and "fits lo hi (Some (w, n))" and "0 < lo" and "hi < 32"
  shows "writes_at room cap (bits @ code_bits n (unat w)) (write_code (Some (w, n)) bs)"
  using write_bits_writes [OF assms(1), of n w] assms(2-4) by (simp add: fits_def)

lemma coded_room: "coded pk ts i hp mppc \<Longrightarrow> length (bs_buffer (mppc_bs mppc)) = pk_room pk"
  by (simp add: coded_def writes_at_def)

text \<open>A coded literal.\<close>

lemma literal_coded:
  assumes c: "coded pk ts i hp mppc" and ok: "packet_ok pk" and i: "i < length (pk_src pk)"
    and m: "HistoryBuffer m = (HistoryBuffer mppc)[hp := pk_src pk ! i]" "mppc_bs m = mppc_bs mppc"
      "length (MatchBuffer m) = 32768" "HistoryPtr m + 3 \<le> pk_end pk" "\<forall>e \<in> set (MatchBuffer m). unat e + 3 \<le> pk_end pk"
      "CompressionLevel m = pk_level pk" "unat (HistoryBufferSize m) = pk_end pk + 1"
  shows "goes_on pk ((=) (i + 1)) (Some (compress_literal (of_nat (pk_cap pk)) (pk_src pk ! i) (i + 1) (hp + 1) m))"
proof (cases "no_room 2 (of_nat (pk_cap pk)) (mppc_bs m)")
  case True
  then show ?thesis
    using m coded_room [OF c] by (auto simp: compress_literal_def goes_on_def resets_def)
next
  case False
  define b where "b = pk_src pk ! i"
  obtain w n where l: "literal_code b = (w, n)" by (cases "literal_code b")
  have hp: "hp = pk_start pk + i" "hp \<le> pk_end pk" "hp < 65536" "length (HistoryBuffer mppc) = 65536"
    using c ok i by (auto simp: coded_def packet_ok_def split: if_splits)
  have w: "writes_at (pk_room pk) (pk_cap pk) (bits_of pk ts) (mppc_bs mppc)" "length (bits_of pk ts) \<le> 8 * (pk_cap pk - 1)"
    using c by (simp_all add: coded_def)
  have n: "n \<le> 9" using code_fits(1) [of b] by (simp add: fits_def l)
  have room: "length (bits_of pk ts) + n \<le> 8 * (pk_cap pk - 1)"
    by (rule room_left [OF w _ False [unfolded m(2)]]) (use ok n in \<open>simp_all add: packet_ok_def\<close>)
  have bits: "bits_of pk (ts @ [Lit b]) = bits_of pk ts @ code_bits n (unat w)" by (simp add: bits_of_def l)
  have "coded pk (ts @ [Lit b]) (i + 1) (hp + 1) (m\<lparr>mppc_bs := write_code (Some (literal_code b)) (mppc_bs m)\<rparr>)"
    unfolding coded_def
  proof (intro conjI allI impI)
    show "writes_at (pk_room pk) (pk_cap pk) (bits_of pk (ts @ [Lit b]))
        (mppc_bs (m\<lparr>mppc_bs := write_code (Some (literal_code b)) (mppc_bs m)\<rparr>))"
      using write_code_writes [OF w(1)] code_fits(1) [of b] by (simp add: bits l m(2) del: write_code.simps)
    fix k assume "k < i + 1"
    then show "HistoryBuffer (m\<lparr>mppc_bs := write_code (Some (literal_code b)) (mppc_bs m)\<rparr>) ! (pk_start pk + k) = pk_src pk ! k"
      using c hp by (cases "k = i") (simp_all add: coded_def m(1))
  qed (use c hp m room bits i in \<open>simp_all add: coded_def run_tokens_snoc b_def del: write_code.simps\<close>)
  then have "\<exists>ts. coded pk ts (i + 1) (hp + 1) (m\<lparr>mppc_bs := write_code (Some (literal_code b)) (mppc_bs m)\<rparr>)"
    by blast
  then show ?thesis
    using False by (simp add: compress_literal_def goes_on_def b_def del: write_code.simps)
qed

section \<open>A match\<close>

text \<open>The distance is kept modulo the size of the history, and so names the same source offset.\<close>

lemma and_mask_mod:
  "(x :: int) AND 0xFFFF = x mod 65536" "(x :: int) AND 0x1FFF = x mod 8192"
proof -
  have "(0xFFFF :: int) = mask 16" "(0x1FFF :: int) = mask 13" by (simp_all add: mask_eq_exp_minus_1)
  then show "x AND 0xFFFF = x mod 65536" "x AND 0x1FFF = x mod 8192"
    by (simp_all only: flip: take_bit_eq_mask) (simp_all add: take_bit_eq_mod)
qed

lemma offset_names_source:
  assumes e: "pk_end pk = (if pk_level pk = 0 then 8191 else 65535)" and s: "unat hsize = pk_end pk + 1"
    and m: "0 < m" "m \<le> pk_end pk" and off_def: "off = copy_offset hsize (hp + 1) m"
  shows "match_source (pk_level pk) hp off = m - 1" and "off < 65536" and "pk_level pk = 0 \<Longrightarrow> off < 8192"
proof -
  define N where "N = (if pk_level pk = 0 then 8192 else 65536 :: int)"
  have h: "hsize = (if pk_level pk = 0 then 8192 else 65536)"
    using e s by (auto simp: word_unat_eq_iff split: if_splits)
  have o: "uint off = (int hp + 1 - int m) mod N"
  proof -
    have "uint (hsize - 1) AND x = x mod N" for x
      using and_mask_mod [of x] by (simp add: h N_def and.commute)
    then have "off = of_int ((int hp + 1 - int m) mod N)" by (simp add: off_def copy_offset_def add.commute)
    moreover have "0 \<le> (int hp + 1 - int m) mod N" "(int hp + 1 - int m) mod N < 2 ^ 32"
      using pos_mod_bound [of N "int hp + 1 - int m"] by (auto simp: N_def split: if_splits)
    ultimately show ?thesis by (simp add: take_bit_int_eq_self unsigned_of_int)
  qed
  have "match_source (pk_level pk) hp off = nat ((int hp - (int hp + 1 - int m) mod N) mod N)"
    by (simp add: match_source_def and_mask_mod o N_def)
  also have "\<dots> = nat ((int m - 1) mod N)" by (simp add: mod_diff_right_eq)
  also have "\<dots> = m - 1" using m e by (auto simp: N_def split: if_splits)
  finally show "match_source (pk_level pk) hp off = m - 1" .
  have "uint off < N" unfolding o by (simp add: N_def)
  then show "off < 65536" "pk_level pk = 0 \<Longrightarrow> off < 8192" by (simp_all add: N_def word_less_def split: if_splits)
qed

lemma code_exists:
  "(level = 0 \<Longrightarrow> off < 8192) \<Longrightarrow> offset_code level off \<noteq> None"
  "3 \<le> unat len \<Longrightarrow> unat len < 65536 \<Longrightarrow> (level = 0 \<Longrightarrow> unat len < 8192) \<Longrightarrow> length_code level len \<noteq> None"
proof -
  show "offset_code level off \<noteq> None" if "level = 0 \<Longrightarrow> off < 8192"
    using that by (auto simp: offset_code_def word_le_nat_alt word_less_nat_alt)
  show "length_code level len \<noteq> None" if "3 \<le> unat len" "unat len < 65536" "level = 0 \<Longrightarrow> unat len < 8192"
  proof (cases "unat len = 3")
    case True
    then have "len = 3" by (simp add: word_unat_eq_iff)
    then show ?thesis by (simp add: length_code_def)
  next
    case False
    with that(1) consider "4 \<le> unat len" "unat len < 64" | "64 \<le> unat len" "unat len < 1024"
      | "1024 \<le> unat len" "unat len < 8192" | "8192 \<le> unat len" by linarith
    then show ?thesis
      by cases (use that in \<open>auto simp: length_code_def word_le_nat_alt word_less_nat_alt\<close>)
  qed
qed

text \<open>Lengthening a match keeps the history what copying gives.\<close>

lemma extend_copies:
  assumes "copy_match len s hp0 h = Some hist" and "m = s + len" and "hp = hp0 + len" and "i = i0 + len"
    and "i \<le> srcend" and "srcend < length src" and "m \<le> limit + 1" and "limit + 1 < length h" and "length hist = length h"
    and "hp0 + (srcend - i0) \<le> length h"
    and "\<And>k. k < len \<Longrightarrow> hist ! (hp0 + k) = src ! (i0 + k)"
  shows "\<exists>i' len' hist'. extend_match src srcend limit i m hp len hist = Some (i', hp0 + len', len', hist') \<and>
     copy_match len' s hp0 h = Some hist' \<and> i' = i0 + len' \<and> len \<le> len' \<and> i' \<le> srcend \<and> s + len' \<le> limit + 1 \<and>
     length hist' = length h \<and> (\<forall>k < len'. hist' ! (hp0 + k) = src ! (i0 + k))"
  using assms
proof (induction src srcend limit i m hp len hist rule: extend_match.induct)
  case (1 src srcend limit i m hp len hist)
  note prems = "1.prems"
  have inside: "\<not> (i \<ge> length src \<or> m \<ge> length hist)" using prems by linarith
  show ?case
  proof (cases "src ! i = hist ! m \<and> i < srcend \<and> m \<le> limit")
    case True
    have hp: "hp < length hist" using prems True by linarith
    define hist1 where "hist1 = hist[hp := src ! i]"
    have c: "copy_match (len + 1) s hp0 h = Some hist1"
      using copy_match_snoc [OF prems(1)] prems hp inside True by (simp add: hist1_def)
    have same: "hist1 ! (hp0 + k) = src ! (i0 + k)" if "k < len + 1" for k
      using prems that hp by (cases "k = len") (simp_all add: hist1_def)
    have "\<exists>i' len' hist'. extend_match src srcend limit (i + 1) (m + 1) (hp + 1) (len + 1) hist1 = Some (i', hp0 + len', len', hist') \<and>
       copy_match len' s hp0 h = Some hist' \<and> i' = i0 + len' \<and> len + 1 \<le> len' \<and> i' \<le> srcend \<and> s + len' \<le> limit + 1 \<and>
       length hist' = length h \<and> (\<forall>k < len'. hist' ! (hp0 + k) = src ! (i0 + k))"
      by (rule "1.IH" [OF inside True _ c]) (use prems True hp same in \<open>simp_all add: put_byte_def hist1_def\<close>)
    then show ?thesis
      using inside True hp by (subst extend_match.simps) (auto simp: put_byte_def hist1_def)
  next
    case False
    then show ?thesis
      using inside prems by (subst extend_match.simps) auto
  qed
qed

lemma copy_bits:
  assumes "offset_code level off = Some (w, n)" and "length_code level len = Some (v, k)"
  shows "bits_of pk (ts @ [Copy off len]) = bits_of pk ts @ token_bits (pk_level pk) (Copy off len)"
    and "token_bits level (Copy off len) = code_bits n (unat w) @ code_bits k (unat v)"
    and "writes_at room cap bits bs \<Longrightarrow> writes_at room cap (bits @ token_bits level (Copy off len))
      (write_code (length_code level len) (write_code (offset_code level off) bs))"
proof -
  show "bits_of pk (ts @ [Copy off len]) = bits_of pk ts @ token_bits (pk_level pk) (Copy off len)"
    by (simp add: bits_of_def)
  show e: "token_bits level (Copy off len) = code_bits n (unat w) @ code_bits k (unat v)" by (simp add: assms)
  show "writes_at room cap (bits @ token_bits level (Copy off len))
      (write_code (length_code level len) (write_code (offset_code level off) bs))" if "writes_at room cap bits bs"
    using write_code_writes [OF write_code_writes [OF that]] code_fits(2) [of level off] code_fits(3) [of level len]
    by (simp add: e assms del: write_code.simps)
qed

text \<open>A coded match: the candidate \<open>m - 1\<close> starts with the three symbols, and neither the first symbol stored
  nor the second is itself compared.\<close>

lemma match_coded:
  assumes c: "coded pk ts i hp mppc" and ok: "packet_ok pk" and i: "i + 3 < length (pk_src pk)"
    and m: "HistoryBuffer mp = (HistoryBuffer mppc)[hp := pk_src pk ! i]" "mppc_bs mp = mppc_bs mppc"
      "length (MatchBuffer mp) = 32768" "HistoryPtr mp + 3 \<le> pk_end pk" "\<forall>e \<in> set (MatchBuffer mp). unat e + 3 \<le> pk_end pk"
      "CompressionLevel mp = pk_level pk" "unat (HistoryBufferSize mp) = pk_end pk + 1"
    and cand: "m \<noteq> 0" "m \<noteq> hp" "m \<noteq> hp + 1" "m + 1 \<le> HistoryPtr mp"
      "HistoryBuffer mp ! (m - 1) = pk_src pk ! i" "HistoryBuffer mp ! m = pk_src pk ! (i + 1)"
      "HistoryBuffer mp ! (m + 1) = pk_src pk ! (i + 2)"
  shows "goes_on pk (\<lambda>i'. i < i' \<and> i' < length (pk_src pk))
    (compress_match (pk_src pk) (length (pk_src pk) - 1) (of_nat (pk_cap pk)) (pk_src pk ! (i + 1)) (pk_src pk ! (i + 2)) m (i + 1) (hp + 1) mp)"
proof -
  define src where "src = pk_src pk"
  define h where "h = HistoryBuffer mppc"
  define s where "s = m - 1"
  have s: "m = s + 1" using cand(1) by (simp add: s_def)
  have hp: "hp = pk_start pk + i" "hp + (length src - i) + 3 \<le> pk_end pk" "pk_end pk < 65536" "length h = 65536"
    using c ok i by (auto simp: coded_def packet_ok_def src_def h_def split: if_splits)
  have sb: "s + 5 \<le> pk_end pk" using cand(4) m(4) s by linarith
  define h3 where "h3 = h[hp := src ! i, hp + 1 := src ! (i + 1), hp + 2 := src ! (i + 2)]"
  have len3: "hp + 2 < length h" "s + 2 < length h" using hp sb i by (simp_all add: src_def)
  have h0: "h ! s = src ! i" "h[hp := src ! i] ! (s + 1) = src ! (i + 1)" "h[hp := src ! i] ! (s + 2) = src ! (i + 2)"
    using cand s m(1) by (auto simp: h_def src_def nth_list_update split: if_splits)
  have c3: "copy_match 3 s hp h = Some h3"
    using len3 h0 s cand(2) by (auto simp: numeral_3_eq_3 h3_def)
  have src3: "h3 ! (hp + k) = src ! (i + k)" if "k < 3" for k
  proof -
    consider "k = 0" | "k = 1" | "k = 2" using \<open>k < 3\<close> by linarith
    then show ?thesis by cases (use len3 in \<open>simp_all add: h3_def\<close>)
  qed
  have "\<exists>i' len' hist'. extend_match src (length src - 1) (HistoryPtr mp) (i + 3) (s + 3) (hp + 3) 3 h3 =
      Some (i', hp + len', len', hist') \<and>
      copy_match len' s hp h = Some hist' \<and> i' = i + len' \<and> 3 \<le> len' \<and> i' \<le> length src - 1 \<and> s + len' \<le> HistoryPtr mp + 1 \<and>
      length hist' = length h \<and> (\<forall>k < len'. hist' ! (hp + k) = src ! (i + k))"
    by (rule extend_copies [OF c3]) (use i hp sb m(4) cand(4) s src3 in \<open>simp_all add: src_def h3_def\<close>)
  then obtain len' hist' where ext: "extend_match src (length src - 1) (HistoryPtr mp) (i + 3) (s + 3) (hp + 3) 3 h3 =
      Some (i + len', hp + len', len', hist')"
    and copied: "copy_match len' s hp h = Some hist'" "3 \<le> len'" "i + len' \<le> length src - 1" "s + len' \<le> HistoryPtr mp + 1"
      "length hist' = length h" "\<And>k. k < len' \<Longrightarrow> hist' ! (hp + k) = src ! (i + k)"
    by blast
  define off where "off = copy_offset (HistoryBufferSize mp) (hp + 1) m"
  define len :: u32 where "len = of_nat len'"
  define mq where "mq = mp\<lparr>HistoryBuffer := hist'\<rparr>"
  have "put_byte (hp + 1) (src ! (i + 1)) (HistoryBuffer mp) = Some (h[hp := src ! i, hp + 1 := src ! (i + 1)])"
    and "put_byte (hp + 1 + 1) (src ! (i + 2)) (h[hp := src ! i, hp + 1 := src ! (i + 1)]) = Some h3"
    using len3 by (simp_all add: put_byte_def m(1) h3_def h_def src_def)
  then have run: "compress_match src (length src - 1) (of_nat (pk_cap pk)) (src ! (i + 1)) (src ! (i + 2)) m (i + 1) (hp + 1) mp =
    (if no_room 7 (of_nat (pk_cap pk)) (mppc_bs mq) then Some (Overrun (mppc_context_reset True mq))
     else Some (Coded (i + len') (hp + len') (mq\<lparr>mppc_bs :=
       write_code (length_code (pk_level pk) len) (write_code (offset_code (pk_level pk) off) (mppc_bs mq))\<rparr>)))"
    using ext s m(6) by (simp add: compress_match_def Let_def mq_def off_def len_def numeral_3_eq_3 numeral_2_eq_2)
  have len: "unat len = len'" "s + len' \<le> pk_end pk" "len' < pk_end pk"
    using copied(4) m(4) hp(3) by (auto simp: len_def unat_of_nat take_bit_nat_eq_self)
  have e: "pk_end pk = (if pk_level pk = 0 then 8191 else 65535)" using ok by (simp add: packet_ok_def)
  have source: "match_source (pk_level pk) hp off = s" "off < 65536" "pk_level pk = 0 \<Longrightarrow> off < 8192"
    using offset_names_source [OF e m(7) _ _ off_def] s sb by simp_all
  have codes: "offset_code (pk_level pk) off \<noteq> None" "length_code (pk_level pk) len \<noteq> None"
    using code_exists source(3) copied(2) len e hp(3) by (auto split: if_splits)
  then obtain w n v k where code: "offset_code (pk_level pk) off = Some (w, n)" "length_code (pk_level pk) len = Some (v, k)" by auto
  have bits: "length (token_bits (pk_level pk) (Copy off len)) \<le> 49"
    using code_fits(2) [of "pk_level pk" off] code_fits(3) [of "pk_level pk" len] by (simp add: code fits_def)
  have w: "writes_at (pk_room pk) (pk_cap pk) (bits_of pk ts) (mppc_bs mq)" "length (bits_of pk ts) \<le> 8 * (pk_cap pk - 1)"
    using c m(2) by (simp_all add: coded_def mq_def)
  show ?thesis
  proof (cases "no_room 7 (of_nat (pk_cap pk)) (mppc_bs mq)")
    case True
    then show ?thesis
      using run m coded_room [OF c] by (auto simp: goes_on_def resets_def mq_def simp flip: src_def)
  next
    case False
    have room: "length (bits_of pk ts) + length (token_bits (pk_level pk) (Copy off len)) \<le> 8 * (pk_cap pk - 1)"
      by (rule room_left [OF w _ False]) (use ok bits in \<open>simp_all add: packet_ok_def\<close>)
    define mr where "mr = mq\<lparr>mppc_bs :=
       write_code (length_code (pk_level pk) len) (write_code (offset_code (pk_level pk) off) (mppc_bs mq))\<rparr>"
    have "coded pk (ts @ [Copy off len]) (i + len') (hp + len') mr"
      unfolding coded_def
    proof (intro conjI allI impI)
      show "writes_at (pk_room pk) (pk_cap pk) (bits_of pk (ts @ [Copy off len])) (mppc_bs mr)"
        using copy_bits(3) [OF code w(1)] by (simp add: copy_bits(1) [OF code] mr_def)
      show "run_tokens (pk_level pk) (pk_end pk) (ts @ [Copy off len]) (pk_history pk, pk_start pk) = Some (HistoryBuffer mr, hp + len')"
        using c code source len copied hp by (simp add: run_tokens_snoc coded_def mr_def mq_def h_def)
      fix j assume j: "j < i + len'"
      show "HistoryBuffer mr ! (pk_start pk + j) = pk_src pk ! j"
      proof (cases "j < i")
        case True
        then show ?thesis
          using copy_match_frame [OF copied(1), of "pk_start pk + j"] c hp(1)
          by (simp add: coded_def mr_def mq_def h_def)
      next
        case False
        then show ?thesis
          using copied(6) [of "j - i"] j hp(1) by (simp add: mr_def mq_def src_def)
      qed
    qed (use hp m copied room c i in \<open>simp_all add: coded_def copy_bits(1) [OF code] mr_def mq_def src_def\<close>)
    then show ?thesis
      using run False i copied(2,3) by (auto simp: goes_on_def mr_def src_def)
  qed
qed

section \<open>The loops\<close>

lemma goes_on_mono: "goes_on pk P r \<Longrightarrow> (\<And>i. P i \<Longrightarrow> Q i) \<Longrightarrow> goes_on pk Q r"
  by (auto simp: goes_on_def split: option.splits mppc_coded.splits)

lemma is_literal_some:
  assumes "m + 1 < length history"
  shows "\<exists>b. is_literal below history limit hp m s1 s2 s3 = Some b \<and>
    (b \<or> m \<noteq> 0 \<and> m \<noteq> hp \<and> m \<noteq> hp - 1 \<and> m + 1 \<le> limit \<and> history ! (m - 1) = s1 \<and> history ! m = s2 \<and> history ! (m + 1) = s3)"
  using assms by (auto simp: is_literal_def)

lemma round_coded:
  assumes c: "coded pk ts i hp mppc" and ok: "packet_ok pk" and i: "i + 2 < length (pk_src pk) - 1"
  shows "goes_on pk (\<lambda>i'. i < i' \<and> i' \<le> length (pk_src pk))
    (compress_round below (pk_src pk) (length (pk_src pk) - 1) (of_nat (pk_cap pk)) i hp mppc)"
proof -
  define src where "src = pk_src pk"
  define idx where "idx = unat (MPPC_MATCH_INDEX (src ! i) (src ! (i + 1)) (src ! (i + 2)))"
  define m where "m = unat (MatchBuffer mppc ! idx)"
  define mp where "mp = enter_symbol idx (hp + 1) ((HistoryBuffer mppc)[hp := src ! i]) mppc"
  have idx: "idx < length (MatchBuffer mppc)" using c index_small by (simp add: coded_def idx_def)
  have hp: "hp + 1 + 3 \<le> pk_end pk" "pk_end pk < 65536" "hp < length (HistoryBuffer mppc)" "length (HistoryBuffer mppc) = 65536"
    using c ok i by (auto simp: coded_def packet_ok_def split: if_splits)
  have mb: "m + 3 \<le> pk_end pk" using c idx nth_mem [OF idx] by (auto simp: coded_def m_def)
  have "unat (of_nat (hp + 1) :: u16) + 3 \<le> pk_end pk"
    using hp unfolding unat_of_nat by (simp add: take_bit_nat_eq_self)
  then have entries: "\<forall>e \<in> set (MatchBuffer mp). unat e + 3 \<le> pk_end pk"
    using c by (auto simp: mp_def enter_symbol_def coded_def dest!: subsetD [OF set_update_subset_insert])
  have mp: "HistoryBuffer mp = (HistoryBuffer mppc)[hp := src ! i]" "mppc_bs mp = mppc_bs mppc" "length (MatchBuffer mp) = 32768"
    "HistoryPtr mp + 3 \<le> pk_end pk" "CompressionLevel mp = pk_level pk" "unat (HistoryBufferSize mp) = pk_end pk + 1"
    using c hp by (simp_all add: mp_def enter_symbol_def coded_def)
  have "m + 1 < length (HistoryBuffer mp)" using mb hp mp(1) by simp
  then obtain b where lit: "is_literal below (HistoryBuffer mp) (HistoryPtr mp) (hp + 1) m (src ! i) (src ! (i + 1)) (src ! (i + 2)) = Some b"
    and cand: "b \<or> m \<noteq> 0 \<and> m \<noteq> hp + 1 \<and> m \<noteq> hp \<and> m + 1 \<le> HistoryPtr mp \<and> HistoryBuffer mp ! (m - 1) = src ! i \<and>
      HistoryBuffer mp ! m = src ! (i + 1) \<and> HistoryBuffer mp ! (m + 1) = src ! (i + 2)"
    using is_literal_some [of m "HistoryBuffer mp" below "HistoryPtr mp" "hp + 1" "src ! i" "src ! (i + 1)" "src ! (i + 2)"] by auto
  have i1: "i < length (pk_src pk)" "i + 3 < length (pk_src pk)" "\<not> length (pk_src pk) \<le> i + 2" using i by linarith+
  have first: "put_byte hp (src ! i) (HistoryBuffer mppc) = Some ((HistoryBuffer mppc)[hp := src ! i])"
    using hp(3) by (simp add: put_byte_def)
  have run: "compress_round below src (length src - 1) (of_nat (pk_cap pk)) i hp mppc =
    (if b then Some (compress_literal (of_nat (pk_cap pk)) (src ! i) (i + 1) (hp + 1) mp)
     else compress_match src (length src - 1) (of_nat (pk_cap pk)) (src ! (i + 1)) (src ! (i + 2)) m (i + 1) (hp + 1) mp)"
    using i1(3) idx lit [unfolded mp(1)]
    unfolding compress_round_def Let_def idx_def [symmetric] m_def [symmetric] first option.case mp_def [symmetric]
    by (simp add: src_def)
  show ?thesis
  proof (cases b)
    case True
    then show ?thesis
      using goes_on_mono [OF literal_coded [OF c ok i1(1) mp(1,2,3,4) [unfolded src_def] entries mp(5,6)],
        of "\<lambda>i'. i < i' \<and> i' \<le> length (pk_src pk)"] i1 run True by (simp add: src_def)
  next
    case False
    have "goes_on pk (\<lambda>i'. i < i' \<and> i' < length (pk_src pk))
        (compress_match src (length src - 1) (of_nat (pk_cap pk)) (src ! (i + 1)) (src ! (i + 2)) m (i + 1) (hp + 1) mp)"
        unfolding src_def
        by (rule match_coded [OF c ok _ mp(1,2,3,4) [unfolded src_def] entries mp(5,6)])
          (use i1 cand False in \<open>simp_all add: src_def\<close>)
      then show ?thesis using run False by (auto simp: src_def intro: goes_on_mono)
  qed
qed

lemma rounds_coded:
  assumes ok: "packet_ok pk"
  shows "coded pk ts i hp mppc \<Longrightarrow>
    goes_on pk (\<lambda>i. i \<le> length (pk_src pk)) (compress_rounds below (pk_src pk) (length (pk_src pk) - 1) (of_nat (pk_cap pk)) i hp mppc)"
proof (induction "length (pk_src pk) - i" arbitrary: ts i hp mppc rule: less_induct)
  case less
  note r = compress_rounds.simps [of below "pk_src pk" _ _ i hp mppc]
  show ?case
  proof (cases "i + 2 < length (pk_src pk) - 1")
    case True
    note g = round_coded [OF less.prems ok True, of below]
    show ?thesis
    proof (cases "compress_round below (pk_src pk) (length (pk_src pk) - 1) (of_nat (pk_cap pk)) i hp mppc")
      case None
      then show ?thesis using g by (simp add: goes_on_def)
    next
      case (Some x)
      show ?thesis
      proof (cases x)
        case (Coded i' hp' mppc')
        then obtain ts' where "i < i'" "i' \<le> length (pk_src pk)" "coded pk ts' i' hp' mppc'"
          using g Some by (auto simp: goes_on_def)
        then show ?thesis using less.hyps [of i' ts' hp' mppc'] Some Coded True by (simp add: r)
      next
        case (Overrun mppc')
        then show ?thesis using g Some True by (simp add: r goes_on_def)
      qed
    qed
  next
    case False
    then have "compress_rounds below (pk_src pk) (length (pk_src pk) - 1) (of_nat (pk_cap pk)) i hp mppc = Some (Coded i hp mppc)"
      by (simp add: r)
    moreover have "i \<le> length (pk_src pk)" using less.prems by (simp add: coded_def)
    ultimately show ?thesis using less.prems by (auto simp: goes_on_def)
  qed
qed

lemma trailing_coded:
  assumes ok: "packet_ok pk"
  shows "coded pk ts i hp mppc \<Longrightarrow>
    goes_on pk ((=) (length (pk_src pk))) (compress_trailing (pk_src pk) (length (pk_src pk) - 1) (of_nat (pk_cap pk)) i hp mppc)"
proof (induction "length (pk_src pk) - i" arbitrary: ts i hp mppc rule: less_induct)
  case less
  note r = compress_trailing.simps [of "pk_src pk" _ _ i hp mppc]
  have ne: "pk_src pk \<noteq> []" using ok by (simp add: packet_ok_def)
  show ?case
  proof (cases "i < length (pk_src pk)")
    case True
    define mp where "mp = mppc\<lparr>HistoryBuffer := (HistoryBuffer mppc)[hp := pk_src pk ! i]\<rparr>"
    have swap: "mppc\<lparr>mppc_bs := b, HistoryBuffer := (HistoryBuffer mppc)[hp := pk_src pk ! i]\<rparr> = mp\<lparr>mppc_bs := b\<rparr>"
      and bs: "mppc_bs mp = mppc_bs mppc" for b
      by (cases mppc, simp add: mp_def) (simp add: mp_def)
    have i: "i \<le> length (pk_src pk) - 1" "\<not> length (pk_src pk) \<le> i" using True by linarith+
    have hp: "hp < length (HistoryBuffer mppc)" using less.prems ok True by (auto simp: coded_def packet_ok_def split: if_splits)
    have g: "goes_on pk ((=) (i + 1)) (Some (compress_literal (of_nat (pk_cap pk)) (pk_src pk ! i) (i + 1) (hp + 1) mp))"
      by (rule literal_coded [OF less.prems ok True]) (use less.prems in \<open>simp_all add: mp_def coded_def\<close>)
    show ?thesis
    proof (cases "no_room 2 (of_nat (pk_cap pk)) (mppc_bs mppc)")
      case full: True
      have "mppc_context_reset True mp = mppc_context_reset True mppc" by (simp add: mp_def mppc_context_reset_def)
      then show ?thesis using g full i by (simp add: r compress_literal_def goes_on_def mp_def Suc_leI) 
    next
      case False
      then obtain ts' where "coded pk ts' (i + 1) (hp + 1) (mp\<lparr>mppc_bs := write_code (Some (literal_code (pk_src pk ! i))) (mppc_bs mp)\<rparr>)"
        using g by (auto simp: compress_literal_def goes_on_def mp_def simp del: write_code.simps)
      then show ?thesis
        using less.hyps [of "i + 1" ts' "hp + 1"] False True i hp swap bs
        by (simp add: r put_byte_def del: write_code.simps)
    qed
  next
    case False
    then have i: "i = length (pk_src pk)" using less.prems by (simp add: coded_def)
    then have "\<not> i \<le> length (pk_src pk) - 1" using ne by (cases "pk_src pk") simp_all
    then have "compress_trailing (pk_src pk) (length (pk_src pk) - 1) (of_nat (pk_cap pk)) i hp mppc = Some (Coded i hp mppc)"
      by (simp add: r)
    then show ?thesis using less.prems i by (auto simp: goes_on_def)
  qed
qed


lemma all_coded:
  assumes ok: "packet_ok pk" and c: "coded pk [] 0 hp mppc"
  shows "goes_on pk ((=) (length (pk_src pk))) (compress_all below (pk_src pk) (length (pk_src pk) - 1) (of_nat (pk_cap pk)) hp mppc)"
proof -
  note g = rounds_coded [OF ok c, of below]
  show ?thesis
  proof (cases "compress_rounds below (pk_src pk) (length (pk_src pk) - 1) (of_nat (pk_cap pk)) 0 hp mppc")
    case None
    then show ?thesis using g by (simp add: goes_on_def)
  next
    case (Some x)
    show ?thesis
    proof (cases x)
      case (Coded i hp' m)
      then obtain ts where "coded pk ts i hp' m" using g Some by (auto simp: goes_on_def)
      then show ?thesis using trailing_coded [OF ok] Some Coded by (simp add: compress_all_def)
    next
      case (Overrun m)
      then show ?thesis using g Some by (simp add: compress_all_def goes_on_def)
    qed
  qed
qed

end
