(* ===== verification/MppcStep.thy ===== *)
theory MppcStep
  imports MppcRound
begin

text \<open>
  Two MPPC contexts, a sender and a receiver: a packet the sender compresses, or passes on as it is, is what
  the receiver delivers, and the two histories stay in step over any number of packets.
\<close>

unbundle bit_operations_syntax

section \<open>Two contexts in step\<close>

text \<open>Two histories agree up to the last index used.\<close>

definition agree :: "nat \<Rightarrow> u8 list \<Rightarrow> u8 list \<Rightarrow> bool" where
  "agree hend g h \<longleftrightarrow> length g = length h \<and> (\<forall>k \<le> hend. g ! k = h ! k)"

lemma agree_copy:
  "copy_match n src dst h = Some h' \<Longrightarrow> agree hend g h \<Longrightarrow> src + n \<le> hend + 1 \<Longrightarrow> dst + n \<le> hend + 1 \<Longrightarrow>
   \<exists>g'. copy_match n src dst g = Some g' \<and> agree hend g' h'"
proof (induction n src dst h arbitrary: g rule: copy_match.induct)
  case (2 n src dst h)
  have in_h: "src < length h" "dst < length h" and c: "copy_match n (src + 1) (dst + 1) (h[dst := h ! src]) = Some h'"
    using "2.prems"(1) by (auto split: if_splits)
  have "agree hend (g[dst := g ! src]) (h[dst := h ! src])"
    using "2.prems" in_h by (auto simp: agree_def nth_list_update)
  then have "\<exists>g'. copy_match n (src + 1) (dst + 1) (g[dst := g ! src]) = Some g' \<and> agree hend g' h'"
    using "2.IH" [OF _ c] "2.prems"(3,4) in_h by simp
  then show ?case using in_h "2.prems"(2) by (simp add: agree_def)
qed simp

lemma agree_token:
  assumes "apply_token level hend t (h, hp) = Some (h', hp')" and "agree hend g h"
  shows "\<exists>g'. apply_token level hend t (g, hp) = Some (g', hp') \<and> agree hend g' h'"
proof (cases t)
  case (Lit b)
  then show ?thesis using assms by (auto simp: agree_def nth_list_update split: if_splits)
next
  case (Copy offset len)
  then show ?thesis
    using assms agree_copy [OF _ assms(2), of "unat len" "match_source level hp offset" hp]
    by (auto split: if_splits)
qed

lemma agree_tokens:
  "run_tokens level hend ts (h, hp) = Some (h', hp') \<Longrightarrow> agree hend g h \<Longrightarrow>
   \<exists>g'. run_tokens level hend ts (g, hp) = Some (g', hp') \<and> agree hend g' h'"
proof (induction ts arbitrary: h hp g)
  case (Cons t ts)
  then obtain h1 hp1 where t: "apply_token level hend t (h, hp) = Some (h1, hp1)"
    and ts: "run_tokens level hend ts (h1, hp1) = Some (h', hp')" by (auto split: option.splits)
  obtain g1 where "apply_token level hend t (g, hp) = Some (g1, hp1)" "agree hend g1 h1"
    using agree_token [OF t Cons.prems(2)] by blast
  then show ?case using Cons.IH [OF ts] by simp
qed simp

text \<open>A sender and a receiver at the same level with the same history. After a packet sent as it is, the
  sender's offset is one past the size, and the history is clear.\<close>

definition in_step :: "MPPC_CONTEXT \<Rightarrow> MPPC_CONTEXT \<Rightarrow> bool" where
  "in_step s r \<longleftrightarrow> mppc_wf s \<and> mppc_wf r \<and>
     CompressionLevel s = CompressionLevel r \<and> HistoryBufferSize s = HistoryBufferSize r \<and>
     (let n = unat (HistoryBufferSize s) in
      agree (n - 1) (HistoryBuffer r) (HistoryBuffer s) \<and>
      HistoryPtr s + 4 \<le> n \<and> (\<forall>e \<in> set (MatchBuffer s). unat e + 4 \<le> n) \<and>
      (HistoryOffset s = HistoryBufferSize s + 1 \<and> (\<forall>k < n. HistoryBuffer s ! k = 0) \<or>
       unat (HistoryOffset s) = HistoryPtr r \<and> HistoryPtr r + 4 \<le> n))"

lemma new_in_step:
  assumes "mppc_context_new grant n m level c = Some s" and "mppc_context_new grant' n m level c' = Some r"
  shows "in_step s r"
proof -
  have "mppc_wf s" "mppc_wf r" using assms new_wf by blast+
  then show ?thesis
    using assms by (auto simp: in_step_def Let_def mppc_context_new_def mppc_context_reset_def agree_def split: if_splits option.splits)
qed

text \<open>One packet: the sender compresses and the receiver gets the flags and the bytes.\<close>

definition mppc_send ::
  "u8 \<Rightarrow> u8 list \<Rightarrow> u8 list \<Rightarrow> MPPC_CONTEXT \<Rightarrow> ((u32 \<times> u8 list) \<times> MPPC_CONTEXT) option" where
  "mppc_send below out src s =
     (case mppc_compress below src out (of_nat (length out)) s of
        Some (_, AtOutput n, flags, s) \<Rightarrow> Some ((flags, take (unat n) (bs_buffer (mppc_bs s))), s)
      | Some (_, AtSource n, flags, s) \<Rightarrow> Some ((flags, take (unat n) src), s)
      | _ \<Rightarrow> None)"

definition mppc_receive :: "u32 \<times> u8 list \<Rightarrow> MPPC_CONTEXT \<Rightarrow> (u8 list \<times> MPPC_CONTEXT) option" where
  "mppc_receive packet r =
     (case mppc_decompress (snd packet) (fst packet) r of
        Some (_, AtHistory p n, r) \<Rightarrow> Some (take (unat n) (drop p (HistoryBuffer r)), r)
      | Some (_, AtSource n, r) \<Rightarrow> Some (take (unat n) (snd packet), r)
      | _ \<Rightarrow> None)"


section \<open>The sender\<close>

text \<open>Where a packet starts in the history, and the flags of a compressed one.\<close>

definition start_of :: "u8 list \<Rightarrow> MPPC_CONTEXT \<Rightarrow> nat" where
  "start_of src s =
     (if starts_at_front (HistoryOffset s) (of_nat (length src)) (HistoryBufferSize s) then 0 else unat (HistoryOffset s))"

definition packet_flags :: "u8 list \<Rightarrow> MPPC_CONTEXT \<Rightarrow> u32" where
  "packet_flags src s =
     (let front = starts_at_front (HistoryOffset s) (of_nat (length src)) (HistoryBufferSize s) in
      PACKET_COMPRESSED OR CompressionLevel s OR (if front then PACKET_AT_FRONT else 0) OR
      (if front \<and> HistoryOffset s = HistoryBufferSize s + 1 then PACKET_FLUSHED else 0))"

definition packet_of :: "u8 list \<Rightarrow> u8 list \<Rightarrow> MPPC_CONTEXT \<Rightarrow> packet" where
  "packet_of src out s = \<lparr>pk_src = src, pk_room = length out, pk_cap = min (length out) (length src),
     pk_history = HistoryBuffer s, pk_start = start_of src s, pk_level = CompressionLevel s,
     pk_end = unat (HistoryBufferSize s) - 1\<rparr>"

text \<open>What the call returns: the source with the context reset, or the bytes of the tokens.\<close>

definition compressed ::
  "u8 list \<Rightarrow> u8 list \<Rightarrow> MPPC_CONTEXT \<Rightarrow> (int \<times> mppc_dst \<times> u32 \<times> MPPC_CONTEXT) option \<Rightarrow> bool" where
  "compressed src out s r \<longleftrightarrow>
     (let pk = packet_of src out s in
      (\<exists>s'. resets pk s' \<and> r = Some (1, AtSource (of_nat (length src)), PACKET_FLUSHED OR CompressionLevel s, s')) \<or>
      (\<exists>ts m. coded pk ts (length src) (start_of src s + length src) m \<and>
         r = Some (1, AtOutput (of_nat ((length (bits_of pk ts) + 7) div 8)), packet_flags src s,
           m\<lparr>mppc_bs := BitStream_Flush (mppc_bs m), HistoryPtr := start_of src s + length src,
             HistoryOffset := of_nat (start_of src s + length src)\<rparr>)))"

lemma of_nat_div_u32: "n + 7 < 4294967296 \<Longrightarrow> (of_nat n + 7) div 8 = (of_nat ((n + 7) div 8) :: u32)"
proof -
  assume n: "n + 7 < 4294967296"
  then have "unat (of_nat (n + 7) :: u32) = n + 7" unfolding unat_of_nat by (simp add: take_bit_nat_eq_self del: of_nat_add)
  moreover have "unat (of_nat ((n + 7) div 8) :: u32) = (n + 7) div 8"
    using n unfolding unat_of_nat by (simp add: take_bit_nat_eq_self)
  ultimately have "unat ((of_nat (n + 7) :: u32) div 8) = unat (of_nat ((n + 7) div 8) :: u32)" by (simp add: unat_div)
  then show ?thesis by (simp add: word_unat_eq_iff)
qed

lemma packet_of_ok:
  assumes "mppc_wf s" and "src \<noteq> []" and "out \<noteq> []" and "length out < 2 ^ 29"
    and "start_of src s + length src + 4 \<le> unat (HistoryBufferSize s)"
  shows "packet_ok (packet_of src out s)"
  using assms by (auto simp: packet_ok_def packet_of_def mppc_wf_def)

lemma compress_compressed:
  assumes wf: "mppc_wf s" and src: "src \<noteq> []" and out: "out \<noteq> []" "length out < 2 ^ 29"
    and start: "start_of src s + length src + 4 \<le> unat (HistoryBufferSize s)"
    and ptr: "HistoryPtr s + 4 \<le> unat (HistoryBufferSize s)" "\<forall>e \<in> set (MatchBuffer s). unat e + 4 \<le> unat (HistoryBufferSize s)"
  shows "compressed src out s (mppc_compress below src out (of_nat (length out)) s)"
proof -
  define pk where "pk = packet_of src out s"
  have ok: "packet_ok pk" using packet_of_ok [OF wf src out start] by (simp add: pk_def)
  have n: "unat (HistoryBufferSize s) \<le> 65536" using wf by (auto simp: mppc_wf_def)
  have sizes: "length src < 2 ^ 32" "length out < 2 ^ 32" using start n out by simp_all
  define D where "D = (if of_nat (length out) > (of_nat (length src) :: u32) then of_nat (length src) else of_nat (length out) :: u32)"
  have D: "D = of_nat (pk_cap pk)"
    using sizes by (auto simp: D_def pk_def packet_of_def word_less_nat_alt unat_of_nat take_bit_nat_eq_self min_def)
  have e: "unat (of_nat (length src) - 1 :: u32) = length src - 1"
  proof -
    have "of_nat (length src) - 1 = (of_nat (length src - 1) :: u32)" using src by (cases src) simp_all
    then show ?thesis using sizes(1) by (simp add: unat_of_nat take_bit_nat_eq_self del: of_nat_diff)
  qed
  define s1 where "s1 = s\<lparr>mppc_bs := BitStream_Attach out D (mppc_bs s)\<rparr>"
  have "writes_at (length out) (pk_cap pk) [] (mppc_bs s1)"
    using attach_writes [of "pk_cap pk" out "mppc_bs s"] out by (simp add: s1_def D pk_def packet_of_def)
  then have "coded pk [] 0 (start_of src s) s1"
    using wf ptr n by (auto simp: coded_def bits_of_def pk_def packet_of_def s1_def mppc_wf_def)
  then have g: "goes_on pk ((=) (length src)) (compress_all below src (length src - 1) (of_nat (pk_cap pk)) (start_of src s) s1)"
    using all_coded [OF ok, of "start_of src s" s1 below] by (simp add: pk_def packet_of_def)
  define front where "front = starts_at_front (HistoryOffset s) (of_nat (length src)) (HistoryBufferSize s)"
  have hp: "unat (if front then 0 else HistoryOffset s) = start_of src s" by (simp add: start_of_def front_def)
  note run = mppc_compress_def [of below src out "of_nat (length out)" s, unfolded Let_def, folded front_def,
      folded D_def, unfolded e hp, folded s1_def, unfolded D]
  show ?thesis
  proof (cases "compress_all below src (length src - 1) (of_nat (pk_cap pk)) (start_of src s) s1")
    case None
    then show ?thesis using g by (simp add: goes_on_def)
  next
    case (Some x)
    show ?thesis
    proof (cases x)
      case (Overrun m)
      then have r: "resets pk m" using g Some by (simp add: goes_on_def)
      then have "CompressionLevel m = CompressionLevel s"
        by (auto simp: resets_def pk_def packet_of_def mppc_context_reset_def Let_def)
      then show ?thesis
        using r Some Overrun by (simp add: run compressed_def Let_def flip: pk_def)
    next
      case (Coded i hp m)
      then obtain ts where c: "i = length src" "coded pk ts i hp m" using g Some by (auto simp: goes_on_def)
      have b: "hp = start_of src s + length src" "CompressionLevel m = CompressionLevel s"
        and w: "writes_at (length out) (pk_cap pk) (bits_of pk ts) (mppc_bs m)" "length (bits_of pk ts) \<le> 8 * (pk_cap pk - 1)"
        using c by (simp_all add: coded_def pk_def packet_of_def)
      have "pk_cap pk < 536870912" using ok by (simp add: packet_ok_def)
      then have small: "length (bits_of pk ts) + 7 < 4294967296" using w(2) by linarith
      have "(of_nat (length (bits_of pk ts)) + 7) div 8 = (of_nat ((length (bits_of pk ts) + 7) div 8) :: u32)"
        by (rule of_nat_div_u32 [OF small])
      moreover have "bs_position (mppc_bs m) = of_nat (length (bits_of pk ts))" using w(1) by (simp add: writes_at_def)
      ultimately show ?thesis
        using c b Some Coded by (auto simp: run compressed_def packet_flags_def Let_def simp flip: pk_def front_def)
    qed
  qed
qed

section \<open>The receiver\<close>

lemma flag_tests:
  assumes "level = 0 \<or> level = (1 :: u32)"
    and f_def: "f = PACKET_COMPRESSED OR level OR (if a then PACKET_AT_FRONT else 0) OR (if b then PACKET_FLUSHED else 0)"
  shows "f AND PACKET_COMPRESSED \<noteq> 0" and "f AND PACKET_AT_FRONT \<noteq> 0 \<longleftrightarrow> a" and "f AND PACKET_FLUSHED \<noteq> 0 \<longleftrightarrow> b"
    and "(PACKET_FLUSHED OR level) AND PACKET_COMPRESSED = 0" and "(PACKET_FLUSHED OR level) AND PACKET_AT_FRONT = 0"
    and "(PACKET_FLUSHED OR level) AND PACKET_FLUSHED \<noteq> 0"
  using assms(1) unfolding f_def PACKET_COMPRESSED_def PACKET_AT_FRONT_def PACKET_FLUSHED_def
  by (cases a; cases b; auto)+

text \<open>The receiver's history after the flags is the sender's, and so is the place where the packet goes.\<close>

lemma in_step_start:
  assumes step: "in_step s r" and len: "length src + 4 \<le> unat (HistoryBufferSize s)"
  shows "start_of src s + length src + 4 \<le> unat (HistoryBufferSize s)"
    and "HistoryPtr (apply_flags (packet_flags src s) r) = start_of src s"
    and "agree (unat (HistoryBufferSize s) - 1) (HistoryBuffer (apply_flags (packet_flags src s) r)) (HistoryBuffer s)"
    and "packet_flags src s AND PACKET_COMPRESSED \<noteq> 0"
proof -
  define front where "front = starts_at_front (HistoryOffset s) (of_nat (length src)) (HistoryBufferSize s)"
  define full where "full = (HistoryOffset s = HistoryBufferSize s + 1)"
  have wf: "mppc_wf s" "mppc_wf r" "CompressionLevel r = CompressionLevel s" "HistoryBufferSize r = HistoryBufferSize s"
    using step by (simp_all add: in_step_def)
  then have n: "HistoryBufferSize s = 8192 \<or> HistoryBufferSize s = 65536" by (auto simp: mppc_wf_def)
  then have len32: "unat (of_nat (length src) :: u32) = length src" "unat (HistoryBufferSize s - 3) = unat (HistoryBufferSize s) - 3"
    using len by (auto simp: unat_of_nat take_bit_nat_eq_self)
  have lv: "CompressionLevel s = 0 \<or> CompressionLevel s = 1" using wf(1) by (auto simp: mppc_wf_def)
  have pf: "packet_flags src s = PACKET_COMPRESSED OR CompressionLevel s OR (if front then PACKET_AT_FRONT else 0) OR
      (if front \<and> full then PACKET_FLUSHED else 0)"
    by (simp add: packet_flags_def Let_def front_def full_def)
  have flags: "packet_flags src s AND PACKET_AT_FRONT \<noteq> 0 \<longleftrightarrow> front"
    "packet_flags src s AND PACKET_FLUSHED \<noteq> 0 \<longleftrightarrow> front \<and> full" "packet_flags src s AND PACKET_COMPRESSED \<noteq> 0"
    using flag_tests(2,3,1) [OF lv pf] by blast+
  then show "packet_flags src s AND PACKET_COMPRESSED \<noteq> 0" by simp
  have n_le: "unat (HistoryBufferSize s) \<le> 65536" using n by auto
  have sum: "unat (HistoryOffset s + of_nat (length src)) = unat (HistoryOffset s) + length src"
    if "unat (HistoryOffset s) \<le> 65537"
    using that len n_le len32(1) by (simp add: unat_word_ariths(1))
  have front_iff: "front \<longleftrightarrow> \<not> (unat (HistoryOffset s) + length src < unat (HistoryBufferSize s) - 3 \<and> HistoryOffset s \<noteq> 0)"
    if "unat (HistoryOffset s) \<le> 65537"
    using sum [OF that] len32(2) by (simp add: front_def starts_at_front_def word_less_nat_alt)
  have full_front: "front" if full
  proof -
    have "unat (HistoryOffset s) = unat (HistoryBufferSize s) + 1" using that n by (auto simp: full_def)
    moreover from this have "\<not> unat (HistoryOffset s) + length src < unat (HistoryBufferSize s) - 3" by linarith
    ultimately show ?thesis using front_iff n_le by simp
  qed
  have off: "unat (HistoryOffset s) = HistoryPtr r \<and> HistoryPtr r + 4 \<le> unat (HistoryBufferSize s)" if "\<not> full"
    using step that by (auto simp: in_step_def Let_def full_def)
  show "start_of src s + length src + 4 \<le> unat (HistoryBufferSize s)"
  proof (cases front)
    case True
    then show ?thesis using len by (simp add: start_of_def flip: front_def)
  next
    case False
    then have "unat (HistoryOffset s) \<le> 65537" using off full_front n_le by linarith
    then have "unat (HistoryOffset s) + length src < unat (HistoryBufferSize s) - 3" using front_iff False by simp
    then show ?thesis using False by (simp add: start_of_def flip: front_def)
  qed
  show "HistoryPtr (apply_flags (packet_flags src s) r) = start_of src s"
    using flags full_front off by (auto simp: apply_flags_def Let_def at_front_def zero_history_def start_of_def simp flip: front_def)
  have agr: "agree (unat (HistoryBufferSize s) - 1) (HistoryBuffer r) (HistoryBuffer s)"
    and clear: "full \<Longrightarrow> \<forall>k < unat (HistoryBufferSize s). HistoryBuffer s ! k = 0"
    using step n by (auto simp: in_step_def Let_def full_def)
  show "agree (unat (HistoryBufferSize s) - 1) (HistoryBuffer (apply_flags (packet_flags src s) r)) (HistoryBuffer s)"
    using flags full_front agr clear wf n
    by (auto simp: apply_flags_def Let_def at_front_def zero_history_def agree_def mppc_wf_def nth_append)
qed

lemma mppc_packet:
  assumes step: "in_step s r" and src: "src \<noteq> []" "length src + 4 \<le> unat (HistoryBufferSize s)"
    and out: "out \<noteq> []" "length out < 2 ^ 29"
  shows "\<exists>flags data s' r'. mppc_send below out src s = Some ((flags, data), s') \<and>
    mppc_receive (flags, data) r = Some (src, r') \<and> in_step s' r' \<and> HistoryBufferSize s' = HistoryBufferSize s \<and>
    length data \<le> length src"
proof -
  define n where "n = unat (HistoryBufferSize s)"
  define st where "st = start_of src s"
  define pk where "pk = packet_of src out s"
  define m where "m = apply_flags (packet_flags src s) r"
  have wf: "mppc_wf s" "mppc_wf r" "CompressionLevel r = CompressionLevel s" "HistoryBufferSize r = HistoryBufferSize s"
    and ptr: "HistoryPtr s + 4 \<le> n" "\<forall>e \<in> set (MatchBuffer s). unat e + 4 \<le> n"
    using step by (auto simp: in_step_def Let_def n_def)
  have n: "n \<le> 65536" "length src < 2 ^ 32" using wf(1) src(2) by (auto simp: mppc_wf_def n_def)
  then have len: "unat (of_nat (length src) :: u32) = length src" by (simp add: unat_of_nat take_bit_nat_eq_self)
  note start = in_step_start [OF step src(2), folded n_def st_def m_def]
  have "compressed src out s (mppc_compress below src out (of_nat (length out)) s)"
    using compress_compressed [OF wf(1) src(1) out] start(1) ptr by (simp add: n_def st_def)
  then consider (flushed) s' where "resets pk s'"
      "mppc_compress below src out (of_nat (length out)) s =
        Some (1, AtSource (of_nat (length src)), PACKET_FLUSHED OR CompressionLevel s, s')"
    | (tokens) ts c where "coded pk ts (length src) (st + length src) c"
      "mppc_compress below src out (of_nat (length out)) s =
        Some (1, AtOutput (of_nat ((length (bits_of pk ts) + 7) div 8)), packet_flags src s,
          c\<lparr>mppc_bs := BitStream_Flush (mppc_bs c), HistoryPtr := st + length src, HistoryOffset := of_nat (st + length src)\<rparr>)"
    by (auto simp: compressed_def Let_def pk_def st_def)
  then show ?thesis
  proof cases
    case flushed
    then obtain c where c: "s' = mppc_context_reset True c" "CompressionLevel c = CompressionLevel s" "unat (HistoryBufferSize c) = n"
      using start(1) by (auto simp: resets_def pk_def packet_of_def n_def)
    then have size: "HistoryBufferSize c = HistoryBufferSize s" by (simp add: n_def word_unat_eq_iff)
    define f where "f = PACKET_FLUSHED OR CompressionLevel s"
    have "CompressionLevel s = 0 \<or> CompressionLevel s = 1" using wf(1) by (auto simp: mppc_wf_def)
    note t = flag_tests(4-6) [OF this refl, folded f_def]
    define r' where "r' = (zero_history (at_front r))\<lparr>mppc_bs :=
      BitStream_Fetch (BitStream_Attach src (of_nat (length src)) (mppc_bs r))\<rparr>"
    have "mppc_decompress src f r = Some (1, AtSource (of_nat (length src)), r')"
      using t by (simp add: mppc_decompress_def apply_flags_def Let_def r'_def)
    then have "mppc_receive (f, src) r = Some (src, r')" by (simp add: mppc_receive_def len)
    moreover have "mppc_send below out src s = Some ((f, src), s')" by (simp add: mppc_send_def flushed(2) len f_def)
    moreover have "HistoryBufferSize s' = HistoryBufferSize s" by (simp add: c(1) size mppc_context_reset_def Let_def)
    moreover have "in_step s' r'"
      using wf c(2) size n start(1)
      by (auto simp: in_step_def Let_def c(1) r'_def mppc_wf_def mppc_context_reset_def zero_history_def at_front_def agree_def nth_append)
    ultimately show ?thesis by blast
  next
    case tokens
    define bits where "bits = bits_of pk ts"
    define k where "k = (length bits + 7) div 8"
    define data where "data = take k (bs_buffer (BitStream_Flush (mppc_bs c)))"
    define f where "f = packet_flags src s"
    have pk: "pk_cap pk = min (length out) (length src)" "pk_room pk = length out" "pk_level pk = CompressionLevel s"
      "pk_end pk = n - 1" "pk_history pk = HistoryBuffer s" "pk_start pk = st" "pk_src pk = src"
      by (simp_all add: pk_def packet_of_def n_def st_def)
    have c: "writes_at (length out) (pk_cap pk) bits (mppc_bs c)" "length bits \<le> 8 * (pk_cap pk - 1)"
      "run_tokens (CompressionLevel s) (n - 1) ts (HistoryBuffer s, st) = Some (HistoryBuffer c, st + length src)"
      "\<forall>k < length src. HistoryBuffer c ! (st + k) = src ! k" "length (HistoryBuffer c) = 65536" "length (MatchBuffer c) = 32768"
      "HistoryPtr c + 3 \<le> n - 1" "\<forall>e \<in> set (MatchBuffer c). unat e + 3 \<le> n - 1" "CompressionLevel c = CompressionLevel s"
      "unat (HistoryBufferSize c) = n - 1 + 1"
      using tokens(1) by (simp_all add: coded_def pk bits_def)
    have cap: "0 < pk_cap pk" "pk_cap pk \<le> length out" "pk_cap pk < 2 ^ 29" using src out by (auto simp: pk)
    then have k: "k \<le> pk_cap pk" "length bits \<le> 8 * k" "8 * k < length bits + 8" using c(2) by (auto simp: k_def)
    have data: "holds_at data 0 bits" "length data = k"
      using holds_at_take [OF k(2) flush_holds(1) [OF c(1)]] flush_holds(2) [OF c(1)] c(2) k cap by (simp_all add: data_def)
    have hend: "unat (HistoryBufferSize r - 1) = n - 1" using wf by (auto simp: mppc_wf_def n_def)
    obtain g where g: "run_tokens (CompressionLevel s) (n - 1) ts (HistoryBuffer m, st) = Some (g, st + length src)"
      and agr: "agree (n - 1) g (HistoryBuffer c)"
      using agree_tokens [OF c(3) start(3)] by blast
    have dl: "length data < 2 ^ 29" using data(2) k(1) cap(3) by linarith
    obtain bs where dec: "mppc_decompress data f r = Some (1, AtHistory st (of_nat (length src)),
        m\<lparr>HistoryBuffer := g, mppc_bs := bs, HistoryPtr := st + length src\<rparr>)"
      using decompress_tokens [of r ts f g "st + length src" data] g hend start(2,4) data k dl wf(3)
      by (auto simp: f_def m_def [symmetric] bits_def bits_of_def pk)
    have "take (length src) (drop st g) = src"
      using c(4) agr start(1) c(5) n by (intro nth_equalityI) (auto simp: agree_def)
    then have "mppc_receive (f, data) r = Some (src, m\<lparr>HistoryBuffer := g, mppc_bs := bs, HistoryPtr := st + length src\<rparr>)"
      by (simp add: mppc_receive_def dec len)
    moreover have "k < 2 ^ 32" using k(1) cap(3) by simp
    then have "unat (of_nat k :: u32) = k" by (simp add: unat_of_nat take_bit_nat_eq_self)
    then have "mppc_send below out src s = Some ((f, data), c\<lparr>mppc_bs := BitStream_Flush (mppc_bs c),
        HistoryPtr := st + length src, HistoryOffset := of_nat (st + length src)\<rparr>)"
      by (simp add: mppc_send_def tokens(2) data_def f_def k_def bits_def)
    moreover have "length data \<le> length src" using data(2) k(1) by (simp add: pk)
    moreover have size: "HistoryBufferSize c = HistoryBufferSize s"
      using c(10) start(1) by (simp add: n_def word_unat_eq_iff)
    moreover have "in_step (c\<lparr>mppc_bs := BitStream_Flush (mppc_bs c), HistoryPtr := st + length src, HistoryOffset := of_nat (st + length src)\<rparr>)
        (m\<lparr>HistoryBuffer := g, mppc_bs := bs, HistoryPtr := st + length src\<rparr>)"
    proof -
      have msel: "MatchBuffer m = MatchBuffer r" "CompressionLevel m = CompressionLevel r" "HistoryBufferSize m = HistoryBufferSize r"
        by (simp_all add: m_def apply_flags_def at_front_def zero_history_def Let_def)
      have "unat (of_nat (st + length src) :: u32) = st + length src"
        using start(1) n(1) unfolding unat_of_nat by (simp add: take_bit_nat_eq_self)
      then show ?thesis
        using wf c start(1) n agr by (auto simp: in_step_def Let_def mppc_wf_def agree_def size msel n_def [symmetric])
    qed
    ultimately show ?thesis by fastforce
  qed
qed

section \<open>Any number of packets\<close>

text \<open>A channel of two codecs, each with a state of its own.\<close>

fun transfer ::
  "('p \<Rightarrow> 's \<Rightarrow> ('w \<times> 's) option) \<Rightarrow> ('w \<Rightarrow> 'r \<Rightarrow> ('p \<times> 'r) option) \<Rightarrow> 'p list \<Rightarrow> 's \<Rightarrow> 'r \<Rightarrow> 'p list option" where
  "transfer send receive [] s r = Some []"
| "transfer send receive (p # ps) s r =
     (case send p s of None \<Rightarrow> None
      | Some (w, s) \<Rightarrow>
        (case receive w r of None \<Rightarrow> None
         | Some (q, r) \<Rightarrow> map_option ((#) q) (transfer send receive ps s r)))"

text \<open>What makes it lossless: states in step stay in step, and a packet that the sender takes arrives.\<close>

locale lossless =
  fixes send :: "'p \<Rightarrow> 's \<Rightarrow> ('w \<times> 's) option"
    and receive :: "'w \<Rightarrow> 'r \<Rightarrow> ('p \<times> 'r) option"
    and stepped :: "'s \<Rightarrow> 'r \<Rightarrow> bool"
    and takes :: "'p \<Rightarrow> 's \<Rightarrow> bool"
  assumes arrives: "stepped s r \<Longrightarrow> takes p s \<Longrightarrow>
      \<exists>w s' r'. send p s = Some (w, s') \<and> receive w r = Some (p, r') \<and> stepped s' r' \<and> (\<forall>q. takes q s \<longrightarrow> takes q s')"
begin

lemma all_arrive: "stepped s r \<Longrightarrow> \<forall>p \<in> set ps. takes p s \<Longrightarrow> transfer send receive ps s r = Some ps"
proof (induction ps arbitrary: s r)
  case (Cons p ps)
  then obtain w s' r' where "send p s = Some (w, s')" "receive w r = Some (p, r')" "stepped s' r'" "\<forall>q. takes q s \<longrightarrow> takes q s'"
    using arrives [of s r p] by auto
  then show ?case using Cons by simp
qed simp

end

definition mppc_takes :: "u8 list \<Rightarrow> u8 list \<Rightarrow> MPPC_CONTEXT \<Rightarrow> bool" where
  "mppc_takes out src s \<longleftrightarrow>
     src \<noteq> [] \<and> length src + 4 \<le> unat (HistoryBufferSize s) \<and> out \<noteq> [] \<and> length out < 2 ^ 29"

interpretation mppc: lossless "mppc_send below out" mppc_receive in_step "mppc_takes out" for below out
proof unfold_locales
  fix s r src
  assume "in_step s r" and t: "mppc_takes out src s"
  then obtain flags data s' r' where "mppc_send below out src s = Some ((flags, data), s')"
    "mppc_receive (flags, data) r = Some (src, r')" "in_step s' r'" "HistoryBufferSize s' = HistoryBufferSize s"
    using mppc_packet [of s r src out below] by (auto simp: mppc_takes_def)
  then show "\<exists>w s' r'. mppc_send below out src s = Some (w, s') \<and> mppc_receive w r = Some (src, r') \<and> in_step s' r' \<and>
      (\<forall>q. mppc_takes out q s \<longrightarrow> mppc_takes out q s')"
    by (auto simp: mppc_takes_def)
qed

lemma new_size: "mppc_context_new grant n m level c = Some s \<Longrightarrow> HistoryBufferSize s = (if level < 1 then 8192 else 65536)"
  by (auto simp: mppc_context_new_def mppc_context_reset_def Let_def split: if_splits option.splits)

text \<open>Lengths the codes do not cover: a match of 8192 bytes or more at the 8K level has no length code and
  nothing is written for it, and an empty source is read past its end.\<close>

lemma no_length_code_8K: "8192 \<le> len \<Longrightarrow> length_code 0 len = None"
  by (auto simp: length_code_def word_le_nat_alt word_less_nat_alt)

lemma empty_source_read_past_end: "mppc_compress below [] out room mppc = None"
proof -
  have e: "unat (- 1 :: u32) = 4294967295" by (simp add: unsigned_minus_1_eq_mask mask_eq_exp_minus_1)
  have "compress_all below [] 4294967295 D hp m = None" for D hp m
    by (simp add: compress_all_def compress_round_def compress_rounds.simps [of _ "[]" _ _ 0])
  then show ?thesis by (simp add: mppc_compress_def Let_def e)
qed

end
