(* ===== verification/HashTable.thy ===== *)
theory HashTable
  imports Prelude "HOL-Library.Log_Nat"
begin

text \<open>
  The hash table of \<^verbatim>\<open>libwinpr/utils/collections/HashTable.c\<close>. A pointer is a value of type \<open>'p\<close>, and a null
  pointer is \<open>None\<close>; the entries of a bucket are the list of its chain, each with the address it was allocated at, so that
  the iteration can go on from an entry after its callback changed the table. What the object functions
  free is recorded in the table. The lock has no effect on the state and is left out.
\<close>

unbundle bit_operations_syntax

section \<open>Single precision\<close>

text \<open>The ratios of the table are of type \<^verbatim>\<open>float\<close>: rationals of 24 significant bits, rounded to nearest,
  ties to even.\<close>

definition floor_log2 :: "rat \<Rightarrow> int" where
  "floor_log2 x =
     (let (n, d) = quotient_of x; k = int (floorlog 2 (nat n)) - int (floorlog 2 (nat d)) in
      if 2 powi k \<le> x then k else k - 1)"

definition round_even :: "rat \<Rightarrow> int" where
  "round_even x =
     (let f = \<lfloor>x\<rfloor>; d = x - of_int f in
      if d < 1 / 2 then f else if d > 1 / 2 then f + 1 else if even f then f else f + 1)"

definition to_float :: "rat \<Rightarrow> rat" where
  "to_float x =
     (if x \<le> 0 then 0 else (let e = floor_log2 x - 23 in of_int (round_even (x / 2 powi e)) * 2 powi e))"

definition float_ratio :: "nat \<Rightarrow> nat \<Rightarrow> rat" where
  "float_ratio n d = to_float (to_float (of_nat n) / to_float (of_nat d))"

section \<open>The table\<close>

text \<open>\<^verbatim>\<open>wObject\<close>: how the table copies, compares and frees a key or a value. What freeing does is
  recorded in the table, so \<^verbatim>\<open>fnObjectFree\<close> is whether it is set.\<close>

record 'p wObject =
  fnObjectNew :: "('p option \<Rightarrow> 'p option) option"
  fnObjectEquals :: "'p option \<Rightarrow> 'p option \<Rightarrow> bool"
  fnObjectFree :: bool

record 'p wKeyValuePair =
  pair_addr :: nat
  pair_key :: "'p option"
  pair_value :: "'p option"
  markedForRemove :: bool

text \<open>\<open>next_addr\<close> is the address of the next entry that is allocated and \<open>freed\<close> what the running operation has given
  to \<^verbatim>\<open>fnObjectFree\<close>; both are the allocator's.\<close>

record 'p wHashTable =
  numOfBuckets :: nat
  numOfElements :: u64
  idealRatio :: rat
  lowerRehashThreshold :: rat
  upperRehashThreshold :: rat
  bucketArray :: "'p wKeyValuePair list list"
  ht_hash :: "'p option \<Rightarrow> u32"
  key_object :: "'p wObject"
  value_object :: "'p wObject"
  foreachRecursionLevel :: u32
  pendingRemoves :: u32
  next_addr :: nat
  freed :: "'p option list"

definition HashTable_PointerCompare :: "'p option \<Rightarrow> 'p option \<Rightarrow> bool" where
  "HashTable_PointerCompare pointer1 pointer2 \<longleftrightarrow> pointer1 = pointer2"

definition HashTable_PointerHash :: "('p \<Rightarrow> u64) \<Rightarrow> 'p option \<Rightarrow> u32" where
  "HashTable_PointerHash addr pointer = drop_bit 4 (case pointer of None \<Rightarrow> 0 | Some p \<Rightarrow> ucast (addr p))"

text \<open>A string is its address and its bytes before the terminating zero. The allocator of \<^verbatim>\<open>_strdup\<close> is a
  parameter: it gives the address of the copy, or nothing.\<close>

type_synonym cstring = "nat \<times> u8 list"

definition HashTable_StringCompare :: "cstring option \<Rightarrow> cstring option \<Rightarrow> bool" where
  "HashTable_StringCompare string1 string2 \<longleftrightarrow>
     (case (string1, string2) of (Some s, Some t) \<Rightarrow> snd s = snd t | _ \<Rightarrow> string1 = string2)"

fun string_hash :: "u32 \<Rightarrow> u8 list \<Rightarrow> u32" where
  "string_hash hash [] = hash"
| "string_hash hash (c # str) = string_hash (hash * 33 + ucast c) str"

definition HashTable_StringHash :: "cstring option \<Rightarrow> u32" where
  "HashTable_StringHash key = (case key of Some s \<Rightarrow> string_hash 5381 (snd s) | None \<Rightarrow> 5381)"

definition HashTable_StringClone :: "(cstring \<Rightarrow> nat option) \<Rightarrow> cstring option \<Rightarrow> cstring option" where
  "HashTable_StringClone strdup str =
     (case str of None \<Rightarrow> None
      | Some s \<Rightarrow> (case strdup s of None \<Rightarrow> None | Some a \<Rightarrow> Some (a, snd s)))"

section \<open>Rehashing\<close>

fun probable_prime :: "nat list \<Rightarrow> nat \<Rightarrow> bool" where
  "probable_prime [] n = True"
| "probable_prime (i # is) n = (if n = i then True else if n mod i = 0 then False else probable_prime is n)"

definition HashTable_IsProbablePrime :: "nat \<Rightarrow> bool" where
  "HashTable_IsProbablePrime n = probable_prime (map (\<lambda>j. 2 * j + 3) [0..<24]) n"

text \<open>A number that is 1 modulo all odd primes below 50 passes, and every second number meets one.\<close>

definition odd_primes :: nat where
  "odd_primes = 3 * 5 * 7 * 11 * 13 * 17 * 19 * 23 * 29 * 31 * 37 * 41 * 43 * 47"

lemma probable_primeI: "(\<And>i. i \<in> set is \<Longrightarrow> n mod i \<noteq> 0) \<Longrightarrow> probable_prime is n"
  by (induction "is") (auto simp del: neq0_conv bot_nat_0.not_eq_extremum)

lemma one_is_probable:
  assumes one: "n mod odd_primes = 1"
  shows "HashTable_IsProbablePrime n"
proof -
  have q: "n mod q = 1" if "q dvd odd_primes" "1 < q" for q
    using that one by (metis mod_mod_cancel mod_less)
  have r: "n mod i \<noteq> 0" if d: "q dvd i" "q dvd odd_primes" "1 < q" for q i
  proof
    assume "n mod i = 0"
    then have "i dvd n" by (rule mod_0_imp_dvd)
    then have "q dvd n" using d(1) dvd_trans by blast
    then show False using q [OF d(2,3)] by simp
  qed
  have "\<exists>q \<in> {3, 5, 7, 11, 13, 17, 19, 23, 29, 31, 37, 41, 43, 47 :: nat}. q dvd i"
    if "i \<in> set (map (\<lambda>j. 2 * j + 3) [0..<24])" for i
    using that by (simp add: upt_rec) (elim disjE; simp)
  moreover have "q dvd odd_primes \<and> 1 < q"
    if "q \<in> {3, 5, 7, 11, 13, 17, 19, 23, 29, 31, 37, 41, 43, 47 :: nat}" for q
    using that unfolding odd_primes_def by (elim insertE) (simp_all add: dvd_eq_mod_eq_0)
  ultimately show ?thesis unfolding HashTable_IsProbablePrime_def by (intro probable_primeI) (meson r)
qed

lemma some_probable_prime: "\<exists>k. HashTable_IsProbablePrime (n + 2 * k)"
proof
  let ?P = "odd_primes"
  let ?k = "(?P + 1) div 2 * (?P + 1 - n mod ?P)"
  have P: "2 * ((?P + 1) div 2) = ?P + 1" "1 < ?P" by (simp_all add: odd_primes_def)
  have "n mod ?P < ?P" using P(2) by simp
  then obtain m where m: "?P + 1 - n mod ?P = m" "n mod ?P + m = ?P + 1" by simp
  have "n + 2 * ?k = n + (?P + 1) * m" unfolding m(1) mult.assoc [symmetric] P(1) ..
  also have "\<dots> = n + m + ?P * m" by (simp add: algebra_simps)
  also have "\<dots> mod ?P = (n + m) mod ?P" by simp
  also have "\<dots> = (n mod ?P + m) mod ?P" by (rule mod_add_left_eq [symmetric])
  also have "(n mod ?P + m) mod ?P = 1" unfolding m(2) by (simp add: odd_primes_def)
  finally show "HashTable_IsProbablePrime (n + 2 * ?k)" by (rule one_is_probable)
qed

function next_probable_prime :: "nat \<Rightarrow> nat" where
  "next_probable_prime n = (if HashTable_IsProbablePrime n then n else next_probable_prime (n + 2))"
  by auto
termination
proof (relation "measure (\<lambda>n. LEAST k. HashTable_IsProbablePrime (n + 2 * k))")
  fix n :: nat assume n: "\<not> HashTable_IsProbablePrime n"
  let ?L = "\<lambda>n. LEAST k. HashTable_IsProbablePrime (n + 2 * k)"
  have h: "HashTable_IsProbablePrime (n + 2 * ?L n)" using some_probable_prime by (rule LeastI_ex)
  then obtain k where k: "?L n = Suc k" using n by (metis add.right_neutral mult_0_right not0_implies_Suc)
  with h have "HashTable_IsProbablePrime (n + 2 + 2 * k)" by simp
  then have "?L (n + 2) \<le> k" by (rule Least_le)
  with k show "(n + 2, n) \<in> measure ?L" by simp
qed simp

definition HashTable_CalculateIdealNumOfBuckets :: "'p wHashTable \<Rightarrow> nat" where
  "HashTable_CalculateIdealNumOfBuckets t =
     (let tmp = to_float (to_float (of_nat (unat (numOfElements t))) / idealRatio t);
          ideal = nat \<lfloor>tmp\<rfloor>;
          ideal = (if ideal < 5 then 5 else ideal OR 1)
      in next_probable_prime ideal)"

text \<open>Every entry is put in front of its new bucket, \<^verbatim>\<open>hash(key) % numOfBuckets\<close>.\<close>

definition rehash_pair :: "('p option \<Rightarrow> u32) \<Rightarrow> nat \<Rightarrow> 'p wKeyValuePair list list \<Rightarrow> 'p wKeyValuePair
    \<Rightarrow> 'p wKeyValuePair list list" where
  "rehash_pair h n buckets pair =
     (let hashValue = unat (h (pair_key pair)) mod n in buckets[hashValue := pair # (buckets ! hashValue)])"

definition HashTable_Rehash :: "(nat \<Rightarrow> bool) \<Rightarrow> 'p wHashTable \<Rightarrow> nat \<Rightarrow> 'p wHashTable" where
  "HashTable_Rehash grant t n =
     (let n = (if n = 0 then HashTable_CalculateIdealNumOfBuckets t else n) in
      if n = numOfBuckets t then t
      else if \<not> grant (8 * n) then t
      else t\<lparr>bucketArray := foldl (foldl (rehash_pair (ht_hash t) n)) (replicate n []) (bucketArray t),
             numOfBuckets := n\<rparr>)"

section \<open>Entries\<close>

definition HashTable_Equals :: "'p wHashTable \<Rightarrow> 'p wKeyValuePair \<Rightarrow> 'p option \<Rightarrow> bool" where
  "HashTable_Equals t pair key = fnObjectEquals (key_object t) key (pair_key pair)"

definition bucket_of :: "'p wHashTable \<Rightarrow> 'p option \<Rightarrow> nat" where
  "bucket_of t key = unat (ht_hash t key) mod numOfBuckets t"

text \<open>The walk \<^verbatim>\<open>while (pair && !HashTable_Equals(table, pair, key)) pair = pair->next;\<close> splits the chain into the
  entries it passed and the rest.\<close>

definition passed :: "'p wHashTable \<Rightarrow> 'p option \<Rightarrow> 'p wKeyValuePair list" where
  "passed t key = takeWhile (\<lambda>pair. \<not> HashTable_Equals t pair key) (bucketArray t ! bucket_of t key)"

definition walk :: "'p wHashTable \<Rightarrow> 'p option \<Rightarrow> 'p wKeyValuePair list" where
  "walk t key = dropWhile (\<lambda>pair. \<not> HashTable_Equals t pair key) (bucketArray t ! bucket_of t key)"

definition HashTable_Get :: "'p wHashTable \<Rightarrow> 'p option \<Rightarrow> 'p wKeyValuePair option" where
  "HashTable_Get t key =
     (if key = None then None else case walk t key of [] \<Rightarrow> None | pair # _ \<Rightarrow> Some pair)"

definition disposeKey :: "'p wHashTable \<Rightarrow> 'p option \<Rightarrow> 'p wHashTable" where
  "disposeKey t key = (if fnObjectFree (key_object t) then t\<lparr>freed := freed t @ [key]\<rparr> else t)"

definition disposeValue :: "'p wHashTable \<Rightarrow> 'p option \<Rightarrow> 'p wHashTable" where
  "disposeValue t value = (if fnObjectFree (value_object t) then t\<lparr>freed := freed t @ [value]\<rparr> else t)"

definition disposePair :: "'p wHashTable \<Rightarrow> 'p wKeyValuePair \<Rightarrow> 'p wHashTable" where
  "disposePair t pair = disposeValue (disposeKey t (pair_key pair)) (pair_value pair)"

text \<open>Copying an object the operation has freed itself has no result.\<close>

definition copy_object :: "'p wObject \<Rightarrow> 'p option list \<Rightarrow> 'p option \<Rightarrow> 'p option option" where
  "copy_object obj gone p =
     (case fnObjectNew obj of None \<Rightarrow> Some p
      | Some new \<Rightarrow> if p \<noteq> None \<and> p \<in> set gone then None else Some (new p))"

definition setKey :: "'p wHashTable \<Rightarrow> 'p wKeyValuePair \<Rightarrow> 'p option \<Rightarrow> ('p wHashTable \<times> 'p wKeyValuePair) option" where
  "setKey t pair key =
     (let t = disposeKey t (pair_key pair) in
      map_option (\<lambda>k. (t, pair\<lparr>pair_key := k\<rparr>)) (copy_object (key_object t) (freed t) key))"

definition setValue :: "'p wHashTable \<Rightarrow> 'p wKeyValuePair \<Rightarrow> 'p option \<Rightarrow> ('p wHashTable \<times> 'p wKeyValuePair) option" where
  "setValue t pair value =
     (let t = disposeValue t (pair_value pair) in
      map_option (\<lambda>v. (t, pair\<lparr>pair_value := v\<rparr>)) (copy_object (value_object t) (freed t) value))"


section \<open>Operations\<close>

text \<open>An operation returns what the function returns and the table after it; \<open>None\<close> stands for a call that copies what
  it has freed, writes outside an array or never returns.\<close>

definition HashTable_Count :: "'p wHashTable \<Rightarrow> u64" where
  "HashTable_Count t = numOfElements t"

definition recycle :: "'p wHashTable \<Rightarrow> 'p wKeyValuePair \<Rightarrow> 'p wHashTable \<times> 'p wKeyValuePair" where
  "recycle t pair =
     (if markedForRemove pair
      then (t\<lparr>pendingRemoves := pendingRemoves t - 1, numOfElements := numOfElements t + 1\<rparr>,
            pair\<lparr>markedForRemove := False\<rparr>)
      else (t, pair))"

definition element_ratio :: "'p wHashTable \<Rightarrow> rat" where
  "element_ratio t = float_ratio (unat (numOfElements t)) (numOfBuckets t)"

definition HashTable_Insert :: "(nat \<Rightarrow> bool) \<Rightarrow> 'p wHashTable \<Rightarrow> 'p option \<Rightarrow> 'p option \<Rightarrow> (bool \<times> 'p wHashTable) option" where
  "HashTable_Insert grant t key value =
     (let t = t\<lparr>freed := []\<rparr> in
      if key = None \<or> value = None then Some (False, t)
      else let b = bucket_of t key; before = passed t key in
        case walk t key of
          pair # rest \<Rightarrow>
            (let (t, pair) = recycle t pair in
             Option.bind (if pair_key pair \<noteq> key then setKey t pair key else Some (t, pair)) (\<lambda>(t, pair).
             Option.bind (if pair_value pair \<noteq> value then setValue t pair value else Some (t, pair)) (\<lambda>(t, pair).
             Some (True, t\<lparr>bucketArray := (bucketArray t)[b := before @ pair # rest]\<rparr>))))
        | [] \<Rightarrow>
            if \<not> grant 32 then Some (False, t)
            else
              (let newPair = \<lparr>pair_addr = next_addr t, pair_key = None, pair_value = None, markedForRemove = False\<rparr> in
               Option.bind (setKey t newPair key) (\<lambda>(t, newPair).
               Option.bind (setValue t newPair value) (\<lambda>(t, newPair).
               let t = t\<lparr>next_addr := next_addr t + 1,
                         bucketArray := (bucketArray t)[b := newPair # (bucketArray t ! b)],
                         numOfElements := numOfElements t + 1\<rparr>
               in Some (True,
                    if foreachRecursionLevel t = 0 \<and> upperRehashThreshold t > idealRatio t
                       \<and> element_ratio t > upperRehashThreshold t
                    then HashTable_Rehash grant t 0 else t)))))"

definition HashTable_Remove :: "(nat \<Rightarrow> bool) \<Rightarrow> 'p wHashTable \<Rightarrow> 'p option \<Rightarrow> bool \<times> 'p wHashTable" where
  "HashTable_Remove grant t key =
     (let t = t\<lparr>freed := []\<rparr> in
      if key = None then (False, t)
      else let b = bucket_of t key; before = passed t key in
        case walk t key of
          [] \<Rightarrow> (False, t)
        | pair # rest \<Rightarrow>
            if foreachRecursionLevel t \<noteq> 0
            then (True, t\<lparr>bucketArray := (bucketArray t)[b := before @ pair\<lparr>markedForRemove := True\<rparr> # rest],
                          pendingRemoves := pendingRemoves t + 1, numOfElements := numOfElements t - 1\<rparr>)
            else let t = disposePair (t\<lparr>bucketArray := (bucketArray t)[b := before @ rest]\<rparr>) pair;
                     t = t\<lparr>numOfElements := numOfElements t - 1\<rparr>
                 in (True,
                     if foreachRecursionLevel t = 0 \<and> lowerRehashThreshold t > 0
                        \<and> element_ratio t < lowerRehashThreshold t
                     then HashTable_Rehash grant t 0 else t))"

definition HashTable_GetItemValue :: "'p wHashTable \<Rightarrow> 'p option \<Rightarrow> 'p option" where
  "HashTable_GetItemValue t key =
     (case HashTable_Get t key of
        None \<Rightarrow> None
      | Some pair \<Rightarrow> if \<not> markedForRemove pair then pair_value pair else None)"

definition HashTable_SetItemValue :: "'p wHashTable \<Rightarrow> 'p option \<Rightarrow> 'p option \<Rightarrow> (bool \<times> 'p wHashTable) option" where
  "HashTable_SetItemValue t key value =
     (let t = t\<lparr>freed := []\<rparr> in
      if key = None then Some (False, t)
      else case walk t key of
        [] \<Rightarrow> Some (False, t)
      | pair # rest \<Rightarrow>
          if markedForRemove pair then Some (False, t)
          else let b = bucket_of t key; before = passed t key in
            map_option (\<lambda>(t, pair). (True, t\<lparr>bucketArray := (bucketArray t)[b := before @ pair # rest]\<rparr>))
              (setValue t pair value))"

definition HashTable_Contains :: "'p wHashTable \<Rightarrow> 'p option \<Rightarrow> bool" where
  "HashTable_Contains t key = (case HashTable_Get t key of None \<Rightarrow> False | Some pair \<Rightarrow> \<not> markedForRemove pair)"

definition HashTable_ContainsKey :: "'p wHashTable \<Rightarrow> 'p option \<Rightarrow> bool" where
  "HashTable_ContainsKey t key = (case HashTable_Get t key of None \<Rightarrow> False | Some pair \<Rightarrow> \<not> markedForRemove pair)"

text \<open>The entries in the order in which the loops over the buckets meet them.\<close>

definition pairs :: "'p wHashTable \<Rightarrow> 'p wKeyValuePair list" where
  "pairs t = concat (bucketArray t)"

definition HashTable_ContainsValue :: "'p wHashTable \<Rightarrow> 'p option \<Rightarrow> bool" where
  "HashTable_ContainsValue t value =
     (if value = None then False
      else list_ex (\<lambda>pair. \<not> markedForRemove pair \<and> HashTable_Equals t pair value) (pairs t))"

text \<open>During an iteration the loop over a chain marks its first entry again and again: \<^verbatim>\<open>pair\<close> advances only in the
  other branch.\<close>

partial_function (option) clear_chain :: "'p wHashTable \<Rightarrow> 'p wKeyValuePair list \<Rightarrow> 'p wHashTable option" where
  "clear_chain t chain =
     (case chain of
        [] \<Rightarrow> Some t
      | pair # rest \<Rightarrow>
          if foreachRecursionLevel t \<noteq> 0
          then clear_chain (t\<lparr>pendingRemoves := pendingRemoves t + 1\<rparr>) (pair\<lparr>markedForRemove := True\<rparr> # rest)
          else clear_chain (disposePair t pair) rest)"

fun clear_buckets :: "'p wHashTable \<Rightarrow> nat list \<Rightarrow> 'p wHashTable option" where
  "clear_buckets t [] = Some t"
| "clear_buckets t (index # is) =
     Option.bind (clear_chain t (bucketArray t ! index))
       (\<lambda>t. clear_buckets (t\<lparr>bucketArray := (bucketArray t)[index := []]\<rparr>) is)"

definition HashTable_Clear :: "(nat \<Rightarrow> bool) \<Rightarrow> 'p wHashTable \<Rightarrow> 'p wHashTable option" where
  "HashTable_Clear grant t =
     Option.bind (clear_buckets (t\<lparr>freed := []\<rparr>) [0..<numOfBuckets t]) (\<lambda>t.
     let t = t\<lparr>numOfElements := 0\<rparr> in
     Some (if foreachRecursionLevel t = 0 then HashTable_Rehash grant t 5 else t))"

text \<open>\<open>pKeys\<close> has \<^verbatim>\<open>count\<close> elements; a key written behind the last has no result. The third argument says
  whether the caller asked for the array.\<close>

fun collect_keys :: "'p option list \<Rightarrow> nat \<Rightarrow> 'p wKeyValuePair list \<Rightarrow> 'p option list option" where
  "collect_keys pKeys iKey [] = Some pKeys"
| "collect_keys pKeys iKey (pair # rest) =
     (if \<not> markedForRemove pair
      then if iKey < length pKeys then collect_keys (pKeys[iKey := pair_key pair]) (iKey + 1) rest else None
      else collect_keys pKeys iKey rest)"

definition HashTable_GetKeys :: "(nat \<Rightarrow> bool) \<Rightarrow> 'p wHashTable \<Rightarrow> bool \<Rightarrow> (u64 \<times> 'p option list option) option" where
  "HashTable_GetKeys grant t ppKeys =
     (let count = numOfElements t in
      if count < 1 then Some (0, None)
      else if \<not> grant (8 * unat count) then Some (0, None)
      else map_option (\<lambda>pKeys. (count, if ppKeys then Some pKeys else None))
             (collect_keys (replicate (unat count) None) 0 (pairs t)))"

section \<open>Iteration\<close>

text \<open>The callback gets the key, the value, the table and its argument, and may change both. The entry after the
  current one is looked up by address in the table as the callback left it; an entry that was freed has
  no successor.\<close>

type_synonym ('p, 'a) HASH_TABLE_FOREACH_FN =
  "'p option \<Rightarrow> 'p option \<Rightarrow> 'p wHashTable \<Rightarrow> 'a \<Rightarrow> (bool \<times> 'p wHashTable \<times> 'a) option"

fun after_addr :: "'p wKeyValuePair list list \<Rightarrow> nat \<Rightarrow> 'p wKeyValuePair list option" where
  "after_addr [] addr = None"
| "after_addr (chain # others) addr =
     (case dropWhile (\<lambda>pair. pair_addr pair \<noteq> addr) chain of
        [] \<Rightarrow> after_addr others addr
      | _ # rest \<Rightarrow> Some rest)"

definition chain_at :: "'p wHashTable \<Rightarrow> nat \<Rightarrow> 'p wKeyValuePair list" where
  "chain_at t index = (if index < numOfBuckets t then bucketArray t ! index else [])"

partial_function (option) foreach_loop :: "('p, 'a) HASH_TABLE_FOREACH_FN \<Rightarrow> nat \<Rightarrow> 'p wKeyValuePair list
    \<Rightarrow> 'p wHashTable \<Rightarrow> 'a \<Rightarrow> (bool \<times> 'p wHashTable \<times> 'a) option" where
  "foreach_loop fn index chain t arg =
     (if index < numOfBuckets t then
        case chain of
          [] \<Rightarrow> foreach_loop fn (index + 1) (chain_at t (index + 1)) t arg
        | pair # rest \<Rightarrow>
            if markedForRemove pair then foreach_loop fn index rest t arg
            else Option.bind (fn (pair_key pair) (pair_value pair) t arg) (\<lambda>(go, t, arg).
                   if \<not> go then Some (False, t, arg)
                   else Option.bind (after_addr (bucketArray t) (pair_addr pair)) (\<lambda>rest.
                     foreach_loop fn index rest t arg))
      else Some (True, t, arg))"

text \<open>The clean-up unlinks and disposes the marked entries.\<close>

fun sweep_chain :: "'p wHashTable \<Rightarrow> 'p wKeyValuePair list \<Rightarrow> 'p wHashTable \<times> 'p wKeyValuePair list" where
  "sweep_chain t [] = (t, [])"
| "sweep_chain t (pair # rest) =
     (if markedForRemove pair then sweep_chain (disposePair t pair) rest
      else let (t, kept) = sweep_chain t rest in (t, pair # kept))"

fun sweep_buckets :: "'p wHashTable \<Rightarrow> nat list \<Rightarrow> 'p wHashTable" where
  "sweep_buckets t [] = t"
| "sweep_buckets t (index # is) =
     (let (t, kept) = sweep_chain t (bucketArray t ! index)
      in sweep_buckets (t\<lparr>bucketArray := (bucketArray t)[index := kept]\<rparr>) is)"

definition HashTable_Foreach :: "('p, 'a) HASH_TABLE_FOREACH_FN \<Rightarrow> 'p wHashTable \<Rightarrow> 'a
    \<Rightarrow> (bool \<times> 'p wHashTable \<times> 'a) option" where
  "HashTable_Foreach fn t arg =
     (let t = t\<lparr>foreachRecursionLevel := foreachRecursionLevel t + 1\<rparr> in
      Option.bind (foreach_loop fn 0 (chain_at t 0) t arg) (\<lambda>(ret, t, arg).
      if \<not> ret then Some (False, t, arg)
      else let t = t\<lparr>foreachRecursionLevel := foreachRecursionLevel t - 1\<rparr> in
        Some (True,
          if foreachRecursionLevel t = 0 \<and> pendingRemoves t \<noteq> 0
          then (sweep_buckets (t\<lparr>freed := []\<rparr>) [0..<numOfBuckets t])\<lparr>pendingRemoves := 0\<rparr>
          else t, arg)))"

section \<open>Construction and destruction\<close>

definition pointer_object :: "'p wObject" where
  "pointer_object = \<lparr>fnObjectNew = None, fnObjectEquals = HashTable_PointerCompare, fnObjectFree = False\<rparr>"

text \<open>\<open>addr\<close> is the address a pointer stands for, \<open>lock\<close> whether the lock can be initialised.\<close>

definition HashTable_New :: "('p \<Rightarrow> u64) \<Rightarrow> (nat \<Rightarrow> bool) \<Rightarrow> bool \<Rightarrow> 'p wHashTable option" where
  "HashTable_New addr grant lock =
     (if \<not> grant 184 \<or> \<not> lock \<or> \<not> grant (8 * 64) then None
      else Some
        \<lparr>numOfBuckets = 64, numOfElements = 0, idealRatio = 3, lowerRehashThreshold = 0, upperRehashThreshold = 15,
         bucketArray = replicate 64 [], ht_hash = HashTable_PointerHash addr,
         key_object = pointer_object, value_object = pointer_object,
         foreachRecursionLevel = 0, pendingRemoves = 0, next_addr = 0, freed = []\<rparr>)"

definition HashTable_SetHashFunction :: "'p wHashTable \<Rightarrow> ('p option \<Rightarrow> u32) \<Rightarrow> 'p wHashTable" where
  "HashTable_SetHashFunction t fn = t\<lparr>ht_hash := fn\<rparr>"

definition string_object :: "(cstring \<Rightarrow> nat option) \<Rightarrow> cstring wObject" where
  "string_object strdup =
     \<lparr>fnObjectNew = Some (HashTable_StringClone strdup), fnObjectEquals = HashTable_StringCompare, fnObjectFree = True\<rparr>"

definition HashTable_SetupForStringData :: "(cstring \<Rightarrow> nat option) \<Rightarrow> cstring wHashTable \<Rightarrow> bool \<Rightarrow> cstring wHashTable" where
  "HashTable_SetupForStringData strdup t stringValues =
     (let t = HashTable_SetHashFunction t HashTable_StringHash;
          t = t\<lparr>key_object := string_object strdup\<rparr>
      in if stringValues then t\<lparr>value_object := string_object strdup\<rparr> else t)"

text \<open>What freeing the table hands to \<^verbatim>\<open>fnObjectFree\<close>.\<close>

definition HashTable_Free :: "'p wHashTable \<Rightarrow> 'p option list" where
  "HashTable_Free t = freed (foldl disposePair (t\<lparr>freed := []\<rparr>) (pairs t))"

end
