(* ===== verification/HashTableFacts.thy ===== *)
theory HashTableFacts
  imports HashTable "HOL-Library.Multiset"
begin

text \<open>
  The invariant of the hash table and what its operations do to the list of its entries. The locale \<open>table_objects\<close>
  is what a table asks of its object functions; it is interpreted for the tables of pointers and of strings.
\<close>

section \<open>Lists of entries\<close>

lemma concat_split:
  assumes "i < length bs"
  shows "concat bs = concat (take i bs) @ bs ! i @ concat (drop (Suc i) bs)"
  by (subst id_take_nth_drop [OF assms]) simp

lemma concat_list_update:
  assumes "i < length bs"
  shows "concat (bs[i := c]) = concat (take i bs) @ c @ concat (drop (Suc i) bs)"
  using assms by (simp add: upd_conv_take_nth_drop)

lemma foldl_foldl: "foldl (foldl f) a xss = foldl f a (concat xss)"
  by (induction xss arbitrary: a) simp_all

lemma map_of_middle:
  "k \<notin> fst ` set A \<Longrightarrow> map_of (A @ (k, v) # B) = (map_of (A @ B))(k \<mapsto> v)"
  by (rule ext) (auto simp: map_add_def split: option.split dest: map_of_SomeD intro: rev_image_eqI)

lemma map_of_without:
  "k \<notin> fst ` set (A @ B) \<Longrightarrow> map_of (A @ B) = (map_of (A @ (k, v) # B))(k := None)"
proof -
  assume k: "k \<notin> fst ` set (A @ B)"
  then have "map_of (A @ B) k = None" by (simp only: map_of_eq_None_iff not_False_eq_True)
  moreover have "k \<notin> fst ` set A" using k by auto
  ultimately show ?thesis by (simp add: map_of_middle [of k A v B] fun_upd_idem del: map_of_append)
qed

lemma map_of_mset:
  assumes "distinct (map fst xs)" "mset xs = mset ys"
  shows "map_of xs = map_of ys"
proof -
  have "set xs = set ys" using assms(2) by (rule mset_eq_setD)
  moreover have "distinct (map fst ys)" using assms
    by (metis mset_eq_imp_distinct_iff mset_map)
  ultimately show ?thesis using assms(1) map_of_inject_set by blast
qed

section \<open>The entries of a table\<close>

definition marked_in :: "'p wKeyValuePair list \<Rightarrow> 'p wKeyValuePair list" where
  "marked_in ps = filter markedForRemove ps"

definition live_in :: "'p wKeyValuePair list \<Rightarrow> 'p wKeyValuePair list" where
  "live_in ps = filter (\<lambda>p. \<not> markedForRemove p) ps"

lemma live_in_simps [simp]:
  "live_in [] = []" "live_in (p # ps) = (if markedForRemove p then live_in ps else p # live_in ps)"
  "live_in (ps @ qs) = live_in ps @ live_in qs"
  by (simp_all add: live_in_def)

lemma marked_in_simps [simp]:
  "marked_in [] = []" "marked_in (p # ps) = (if markedForRemove p then p # marked_in ps else marked_in ps)"
  "marked_in (ps @ qs) = marked_in ps @ marked_in qs"
  by (simp_all add: marked_in_def)

lemma set_live_in: "p \<in> set (live_in ps) \<longleftrightarrow> p \<in> set ps \<and> \<not> markedForRemove p"
  by (auto simp: live_in_def)

definition pair_rep :: "('p \<Rightarrow> 'c) \<Rightarrow> 'p wKeyValuePair \<Rightarrow> 'c" where
  "pair_rep krep p = krep (the (pair_key p))"

text \<open>Every entry lies in the bucket of its key.\<close>

definition placed :: "'p wHashTable \<Rightarrow> bool" where
  "placed t \<longleftrightarrow> 0 < numOfBuckets t \<and> length (bucketArray t) = numOfBuckets t \<and>
     (\<forall>i < numOfBuckets t. \<forall>p \<in> set (bucketArray t ! i). bucket_of t (pair_key p) = i)"

text \<open>No two entries have the same key or address, and what the table frees are its own copies.\<close>

definition entries_ok :: "('p \<Rightarrow> 'c) \<Rightarrow> ('p \<Rightarrow> bool) \<Rightarrow> bool \<Rightarrow> bool \<Rightarrow> nat \<Rightarrow> 'p wKeyValuePair list \<Rightarrow> bool" where
  "entries_ok krep own free_key free_value n ps \<longleftrightarrow>
     distinct (map (pair_rep krep) ps) \<and> distinct (map pair_addr ps) \<and>
     (\<forall>p \<in> set ps. pair_key p \<noteq> None \<and> pair_addr p < n \<and>
        (free_key \<longrightarrow> own (the (pair_key p))) \<and>
        (free_value \<longrightarrow> pair_value p \<noteq> None \<longrightarrow> own (the (pair_value p))))"

definition counted :: "'p wHashTable \<Rightarrow> bool" where
  "counted t \<longleftrightarrow> numOfElements t = of_nat (length (live_in (pairs t))) \<and>
     pendingRemoves t = of_nat (length (marked_in (pairs t))) \<and>
     (foreachRecursionLevel t = 0 \<longrightarrow> marked_in (pairs t) = [])"

definition hash_inv :: "('p \<Rightarrow> 'c) \<Rightarrow> ('p \<Rightarrow> bool) \<Rightarrow> 'p wHashTable \<Rightarrow> bool" where
  "hash_inv krep own t \<longleftrightarrow> placed t \<and> counted t \<and>
     entries_ok krep own (fnObjectFree (key_object t)) (fnObjectFree (value_object t)) (next_addr t) (pairs t)"

text \<open>The map a table stands for: marked entries are gone.\<close>

definition table_map :: "('p \<Rightarrow> 'c) \<Rightarrow> ('p option \<Rightarrow> 'w) \<Rightarrow> 'p wHashTable \<Rightarrow> 'c \<rightharpoonup> 'w" where
  "table_map krep vrep t = map_of (map (\<lambda>p. (pair_rep krep p, vrep (pair_value p))) (live_in (pairs t)))"

lemma pairs_update [simp]:
  "pairs (t\<lparr>numOfElements := a\<rparr>) = pairs t" "pairs (t\<lparr>foreachRecursionLevel := b\<rparr>) = pairs t"
  "pairs (t\<lparr>pendingRemoves := c\<rparr>) = pairs t" "pairs (t\<lparr>next_addr := d\<rparr>) = pairs t"
  "pairs (t\<lparr>freed := e\<rparr>) = pairs t" "pairs (t\<lparr>numOfBuckets := f\<rparr>) = pairs t"
  "pairs (t\<lparr>bucketArray := bs\<rparr>) = concat bs"
  by (simp_all add: pairs_def)

lemma bucket_of_update [simp]:
  "bucket_of (t\<lparr>numOfElements := a\<rparr>) = bucket_of t" "bucket_of (t\<lparr>foreachRecursionLevel := b\<rparr>) = bucket_of t"
  "bucket_of (t\<lparr>pendingRemoves := c\<rparr>) = bucket_of t" "bucket_of (t\<lparr>next_addr := d\<rparr>) = bucket_of t"
  "bucket_of (t\<lparr>freed := e\<rparr>) = bucket_of t" "bucket_of (t\<lparr>bucketArray := bs\<rparr>) = bucket_of t"
  by (simp_all add: bucket_of_def fun_eq_iff)

lemma placed_update [simp]:
  "placed (t\<lparr>numOfElements := a\<rparr>) = placed t" "placed (t\<lparr>foreachRecursionLevel := b\<rparr>) = placed t"
  "placed (t\<lparr>pendingRemoves := c\<rparr>) = placed t" "placed (t\<lparr>next_addr := d\<rparr>) = placed t"
  "placed (t\<lparr>freed := e\<rparr>) = placed t"
  by (simp_all add: placed_def)

lemma walk_update [simp]: "walk (t\<lparr>freed := e\<rparr>) = walk t" "passed (t\<lparr>freed := e\<rparr>) = passed t"
  by (simp_all add: walk_def passed_def HashTable_Equals_def fun_eq_iff)

lemma bucket_of_less: "placed t \<Longrightarrow> bucket_of t k < length (bucketArray t)"
  by (simp add: placed_def bucket_of_def)

lemma chain_split: "bucketArray t ! bucket_of t k = passed t k @ walk t k"
  by (simp add: passed_def walk_def)

lemma bucket_split:
  assumes "placed t"
  obtains A B where "pairs t = A @ passed t k @ walk t k @ B"
    "\<And>c. concat ((bucketArray t)[bucket_of t k := c]) = A @ c @ B"
  using that concat_split [OF bucket_of_less [OF assms], of k] concat_list_update [OF bucket_of_less [OF assms], of k]
  by (simp add: pairs_def chain_split)

lemma placed_bucket:
  assumes "placed t" "\<And>p. p \<in> set c \<Longrightarrow> bucket_of t (pair_key p) = b"
  shows "placed (t\<lparr>bucketArray := (bucketArray t)[b := c]\<rparr>)"
proof -
  have "bucket_of t (pair_key p) = i" if "i < numOfBuckets t" "p \<in> set ((bucketArray t)[b := c] ! i)" for i p
    using that assms by (cases "i = b") (auto simp: placed_def)
  then show ?thesis using assms(1) by (auto simp: placed_def)
qed

lemma in_chain: "placed t \<Longrightarrow> p \<in> set (passed t k @ walk t k) \<Longrightarrow> bucket_of t (pair_key p) = bucket_of t k"
  using bucket_of_less [of t k] by (metis placed_def chain_split)

lemma placed_chain: "placed t \<Longrightarrow> p \<in> set (pairs t) \<Longrightarrow> p \<in> set (bucketArray t ! bucket_of t (pair_key p))"
  by (auto simp: placed_def pairs_def in_set_conv_nth [of _ "bucketArray t"])

section \<open>Rehashing\<close>

definition hashed :: "('p option \<Rightarrow> u32) \<Rightarrow> nat \<Rightarrow> 'p wKeyValuePair list list \<Rightarrow> bool" where
  "hashed h n bs \<longleftrightarrow> length bs = n \<and> (\<forall>i < n. \<forall>p \<in> set (bs ! i). unat (h (pair_key p)) mod n = i)"

lemma rehash_pair_hashed:
  assumes n: "0 < n" and bs: "hashed h n bs"
  shows "hashed h n (rehash_pair h n bs p)" "mset (concat (rehash_pair h n bs p)) = add_mset p (mset (concat bs))"
proof -
  let ?i = "unat (h (pair_key p)) mod n" and ?bs = "rehash_pair h n bs p"
  have i: "?i < length bs" using n bs by (simp add: hashed_def)
  obtain k where k: "?i = k" by simp
  have b: "?bs = bs[k := p # (bs ! k)]" by (simp only: rehash_pair_def Let_def k)
  have "unat (h (pair_key q)) mod n = j" if "j < n" "q \<in> set (?bs ! j)" for j q
    using that bs i k unfolding b hashed_def by (cases "j = k") auto
  then show "hashed h n ?bs" using bs by (simp add: hashed_def b)
  show "mset (concat ?bs) = add_mset p (mset (concat bs))"
    using i unfolding b k by (simp add: concat_list_update concat_split [of k bs])
qed

lemma rehash_pairs:
  assumes "0 < n" "hashed h n bs"
  shows "hashed h n (foldl (rehash_pair h n) bs ps) \<and>
    mset (concat (foldl (rehash_pair h n) bs ps)) = mset (concat bs) + mset ps"
  using assms(2) by (induction ps arbitrary: bs) (simp_all add: rehash_pair_hashed [OF assms(1)])

lemma Rehash_fields [simp]:
  "numOfElements (HashTable_Rehash grant t n) = numOfElements t"
  "foreachRecursionLevel (HashTable_Rehash grant t n) = foreachRecursionLevel t"
  "pendingRemoves (HashTable_Rehash grant t n) = pendingRemoves t"
  "next_addr (HashTable_Rehash grant t n) = next_addr t"
  "key_object (HashTable_Rehash grant t n) = key_object t"
  "value_object (HashTable_Rehash grant t n) = value_object t"
  "ht_hash (HashTable_Rehash grant t n) = ht_hash t"
  "freed (HashTable_Rehash grant t n) = freed t"
  by (simp_all add: HashTable_Rehash_def Let_def)

lemma next_probable_prime_ge: "n \<le> next_probable_prime n"
proof (induction n rule: next_probable_prime.induct)
  case (1 n)
  show ?case
  proof (cases "HashTable_IsProbablePrime n")
    case False
    then have "n + 2 \<le> next_probable_prime n" using 1 by (subst next_probable_prime.simps) simp
    then show ?thesis by simp
  qed (subst next_probable_prime.simps, simp)
qed

lemma ideal_positive: "0 < HashTable_CalculateIdealNumOfBuckets t"
proof -
  have "0 < (if n < 5 then 5 else n OR 1)" for n :: nat by (auto simp: or_eq_0_iff intro: gr0I)
  then show ?thesis
    unfolding HashTable_CalculateIdealNumOfBuckets_def Let_def using next_probable_prime_ge less_le_trans by blast
qed

lemma Rehash_keeps:
  fixes t :: "'p wHashTable"
  assumes t: "placed t"
  shows "placed (HashTable_Rehash grant t n)" "mset (pairs (HashTable_Rehash grant t n)) = mset (pairs t)"
proof -
  define m where "m = (if n = 0 then HashTable_CalculateIdealNumOfBuckets t else n)"
  have m: "0 < m" using ideal_positive by (auto simp: m_def)
  have "hashed (ht_hash t) m (replicate m [])" by (simp add: hashed_def)
  note r = rehash_pairs [OF m this, of "concat (bucketArray t)"]
  let ?bs = "foldl (rehash_pair (ht_hash t) m) (replicate m []) (concat (bucketArray t))"
  have new: "placed (t\<lparr>bucketArray := ?bs, numOfBuckets := m\<rparr>)"
    using m r by (simp add: placed_def bucket_of_def hashed_def)
  have "concat (replicate m []) = ([] :: 'p wKeyValuePair list)" by simp
  then have same: "mset (concat ?bs) = mset (pairs t)" using r by (simp add: pairs_def)
  show "placed (HashTable_Rehash grant t n)" using t new
    unfolding HashTable_Rehash_def Let_def foldl_foldl m_def [symmetric] by simp
  show "mset (pairs (HashTable_Rehash grant t n)) = mset (pairs t)" using same
    unfolding HashTable_Rehash_def Let_def foldl_foldl m_def [symmetric] by simp
qed

end
