(* ===== verification/HashTableMap.thy ===== *)
theory HashTableMap
  imports HashTableFacts
begin

text \<open>
  The hash table is a map. The locale \<open>table_objects\<close> is what a table asks of its object functions; inside it, every
  operation is proved to keep the invariant and to change the map the way its name says. It is interpreted
  for the tables of pointers and of strings.
\<close>

section \<open>The map of a list of entries\<close>

definition entry_map :: "('p \<Rightarrow> 'c) \<Rightarrow> ('p option \<Rightarrow> 'w) \<Rightarrow> 'p wKeyValuePair list \<Rightarrow> 'c \<rightharpoonup> 'w" where
  "entry_map krep vrep ps = map_of (map (\<lambda>p. (pair_rep krep p, vrep (pair_value p))) (live_in ps))"

lemma table_map_entries: "table_map krep vrep t = entry_map krep vrep (pairs t)"
  by (simp add: table_map_def entry_map_def)

lemma entry_map_other:
  "r \<notin> pair_rep krep ` set ps \<Longrightarrow> entry_map krep vrep ps r = None"
  by (auto simp: entry_map_def map_of_eq_None_iff set_live_in)

lemma entry_map_middle:
  assumes "pair_rep krep p \<notin> pair_rep krep ` set (A @ B)"
  shows "entry_map krep vrep (A @ p # B) =
    (entry_map krep vrep (A @ B))(pair_rep krep p := if markedForRemove p then None else Some (vrep (pair_value p)))"
proof (cases "markedForRemove p")
  case True
  have "entry_map krep vrep (A @ B) (pair_rep krep p) = None" using assms by (rule entry_map_other)
  then show ?thesis using True by (simp add: fun_upd_idem entry_map_def)
next
  case False
  have "pair_rep krep p \<notin> fst ` set (map (\<lambda>p. (pair_rep krep p, vrep (pair_value p))) (live_in A))"
    using assms by (auto simp: set_live_in)
  then show ?thesis using False by (simp add: entry_map_def map_of_middle del: map_of_append)
qed

lemma entry_map_mset:
  assumes "distinct (map (pair_rep krep) ps)" "mset ps = mset qs"
  shows "entry_map krep vrep ps = entry_map krep vrep qs"
  unfolding entry_map_def
proof (rule map_of_mset)
  show "distinct (map fst (map (\<lambda>p. (pair_rep krep p, vrep (pair_value p))) (live_in ps)))"
    using assms(1) by (simp add: live_in_def comp_def distinct_map_filter)
  show "mset (map (\<lambda>p. (pair_rep krep p, vrep (pair_value p))) (live_in ps)) =
    mset (map (\<lambda>p. (pair_rep krep p, vrep (pair_value p))) (live_in qs))"
    using assms(2) by (simp add: live_in_def)
qed

lemma entries_ok_mset:
  "entries_ok krep own fk fv n ps \<Longrightarrow> mset ps = mset qs \<Longrightarrow> entries_ok krep own fk fv n qs"
  unfolding entries_ok_def by (metis mset_eq_imp_distinct_iff mset_map mset_eq_setD)

lemma counts_mset: "mset ps = mset qs \<Longrightarrow> length (live_in ps) = length (live_in qs)"
  "mset ps = mset qs \<Longrightarrow> length (marked_in ps) = length (marked_in qs)"
  unfolding live_in_def marked_in_def by (metis mset_filter size_mset)+

lemma counted_mset:
  assumes "counted t" "mset (pairs t) = mset (pairs u)" "numOfElements u = numOfElements t"
    "pendingRemoves u = pendingRemoves t" "foreachRecursionLevel u = foreachRecursionLevel t"
  shows "counted u"
  using assms counts_mset [OF assms(2)] by (auto simp: counted_def)

section \<open>Clearing and listing\<close>

lemma disposePair_freed:
  "\<exists>g. disposePair t p = t\<lparr>freed := g\<rparr>"
  by (rule exI [of _ "freed t @ (if fnObjectFree (key_object t) then [pair_key p] else []) @
      (if fnObjectFree (value_object t) then [pair_value p] else [])"])
    (simp add: disposePair_def disposeKey_def disposeValue_def)

lemma clear_chain_ends:
  "foreachRecursionLevel t = 0 \<Longrightarrow> \<exists>g. clear_chain t chain = Some (t\<lparr>freed := g\<rparr>)"
proof (induction chain arbitrary: t)
  case Nil
  then show ?case by (subst clear_chain.simps) (auto intro: exI [of _ "freed t"])
next
  case (Cons p chain)
  obtain g where g: "disposePair t p = t\<lparr>freed := g\<rparr>" using disposePair_freed by blast
  with Cons.prems show ?case using Cons.IH [of "t\<lparr>freed := g\<rparr>"] by (subst clear_chain.simps) simp
qed

lemma clear_buckets_ends:
  "foreachRecursionLevel t = 0 \<Longrightarrow>
    \<exists>g. clear_buckets t is = Some (t\<lparr>bucketArray := foldl (\<lambda>bs i. bs[i := []]) (bucketArray t) is, freed := g\<rparr>)"
proof (induction "is" arbitrary: t)
  case Nil
  then show ?case by (auto intro: exI [of _ "freed t"])
next
  case (Cons i "is")
  obtain g where g: "clear_chain t (bucketArray t ! i) = Some (t\<lparr>freed := g\<rparr>)"
    using clear_chain_ends [OF Cons.prems] by blast
  let ?t = "t\<lparr>freed := g, bucketArray := (bucketArray t)[i := []]\<rparr>"
  have "foreachRecursionLevel ?t = 0" using Cons.prems by simp
  from Cons.IH [OF this] obtain g' where
    "clear_buckets ?t is = Some (?t\<lparr>bucketArray := foldl (\<lambda>bs i. bs[i := []]) (bucketArray ?t) is, freed := g'\<rparr>)" by blast
  then show ?case using g by auto
qed

lemma empty_buckets:
  "foldl (\<lambda>bs i. bs[i := []]) bs [0..<length bs] = replicate (length bs) []"
proof -
  have "foldl (\<lambda>bs i. bs[i := []]) bs [0..<n] = replicate n [] @ drop n bs" if "n \<le> length bs" for n
    using that
  proof (induction n)
    case (Suc n)
    then have "foldl (\<lambda>bs i. bs[i := []]) bs [0..<Suc n] = (replicate n [] @ drop n bs)[n := []]" by simp
    also have "\<dots> = replicate (Suc n) [] @ drop (Suc n) bs"
      using Suc.prems by (simp add: list_update_append Cons_nth_drop_Suc [symmetric] replicate_append_same)
    finally show ?case .
  qed simp
  from this [of "length bs"] show ?thesis by simp
qed

lemma collect_keys_enough:
  "length (live_in ps) \<le> n \<Longrightarrow>
    collect_keys (ks @ replicate n None) (length ks) ps =
      Some (ks @ map pair_key (live_in ps) @ replicate (n - length (live_in ps)) None)"
proof (induction ps arbitrary: ks n)
  case (Cons p ps)
  show ?case
  proof (cases "markedForRemove p")
    case False
    then obtain m where n: "n = Suc m" using Cons.prems by (cases n) auto
    have "(ks @ replicate n None)[length ks := pair_key p] = (ks @ [pair_key p]) @ replicate m None"
      by (simp add: n list_update_append)
    then show ?thesis using False Cons.prems Cons.IH [of m "ks @ [pair_key p]"] by (simp add: n)
  qed (use Cons in simp)
qed simp

lemma collect_keys_overflow:
  "n < length (live_in ps) \<Longrightarrow> length pKeys = i + n \<Longrightarrow> collect_keys pKeys i ps = None"
proof (induction ps arbitrary: pKeys i n)
  case (Cons p ps)
  then show ?case
    using Cons.IH [of n pKeys i] Cons.IH [of "n - 1" "pKeys[i := pair_key p]" "Suc i"] by (cases n) auto
qed simp

section \<open>The operations on a table with lawful objects\<close>

definition uses_objects :: "'p wObject \<Rightarrow> 'p wObject \<Rightarrow> ('p option \<Rightarrow> u32) \<Rightarrow> 'p wHashTable \<Rightarrow> bool" where
  "uses_objects K V h t \<longleftrightarrow> key_object t = K \<and> value_object t = V \<and> ht_hash t = h"

locale table_objects =
  fixes K V :: "'p wObject" and h :: "'p option \<Rightarrow> u32" and krep :: "'p \<Rightarrow> 'c" and vrep :: "'p option \<Rightarrow> 'w"
    and own :: "'p \<Rightarrow> bool"
  assumes equal_rep: "fnObjectEquals K (Some p) (Some q) \<longleftrightarrow> krep p = krep q"
    and hash_rep: "krep p = krep q \<Longrightarrow> h (Some p) = h (Some q)"
    and key_new: "fnObjectNew K = Some new \<Longrightarrow> \<exists>q. new (Some p) = Some q \<and> krep q = krep p \<and> own q"
    and value_new: "fnObjectNew V = Some new' \<Longrightarrow> vrep (new' v) = vrep v \<and> (\<forall>q. new' v = Some q \<longrightarrow> own q)"
    and key_free: "fnObjectFree K \<Longrightarrow> fnObjectNew K \<noteq> None"
    and value_free: "fnObjectFree V \<Longrightarrow> fnObjectNew V \<noteq> None"
begin

definition inv :: "'p wHashTable \<Rightarrow> bool" where
  "inv t \<longleftrightarrow> uses_objects K V h t \<and> hash_inv krep own t"

abbreviation "tmap \<equiv> table_map krep vrep"
abbreviation "emap \<equiv> entry_map krep vrep"
abbreviation "rep \<equiv> pair_rep krep"

lemma inv_freed [simp]: "inv (t\<lparr>freed := e\<rparr>) = inv t"
  by (simp add: inv_def uses_objects_def hash_inv_def counted_def)

lemma walk_hit:
  assumes "inv t" "walk t (Some k) = p # rest"
  shows "rep p = krep k" "p \<in> set (pairs t)"
proof -
  have t: "placed t" "\<forall>p \<in> set (pairs t). pair_key p \<noteq> None" "key_object t = K"
    using assms(1) by (auto simp: inv_def hash_inv_def entries_ok_def uses_objects_def)
  show p: "p \<in> set (pairs t)"
    using bucket_split [OF t(1), of "Some k"] by (metis assms(2) in_set_conv_decomp append.assoc append_Cons)
  have "HashTable_Equals t p (Some k)"
    using assms(2) unfolding walk_def by (simp add: dropWhile_eq_Cons_conv)
  then show "rep p = krep k" using t p equal_rep
    by (auto simp: HashTable_Equals_def pair_rep_def)
qed

lemma walk_miss:
  assumes "inv t" "walk t (Some k) = []"
  shows "krep k \<notin> rep ` set (pairs t)"
proof
  assume "krep k \<in> rep ` set (pairs t)"
  then obtain p where p: "p \<in> set (pairs t)" "krep k = rep p" by blast
  have t: "placed t" "pair_key p \<noteq> None" "key_object t = K" "ht_hash t = h"
    using assms(1) p(1) by (auto simp: inv_def hash_inv_def entries_ok_def uses_objects_def)
  then obtain q where q: "pair_key p = Some q" by auto
  with p(2) have kq: "krep k = krep q" by (simp add: pair_rep_def)
  have "bucket_of t (Some k) = bucket_of t (Some q)"
    using hash_rep [OF kq] t(4) by (simp add: bucket_of_def)
  with placed_chain [OF t(1) p(1)] q have "p \<in> set (bucketArray t ! bucket_of t (Some k))" by simp
  moreover have "\<forall>p \<in> set (bucketArray t ! bucket_of t (Some k)). \<not> HashTable_Equals t p (Some k)"
    using assms(2) by (simp add: walk_def dropWhile_eq_Nil_conv)
  ultimately show False using kq q t(3) equal_rep unfolding HashTable_Equals_def by metis
qed

lemma inv_distinct: "inv t \<Longrightarrow> distinct (map rep (pairs t))"
  by (simp add: inv_def hash_inv_def entries_ok_def)

lemma tmap_entry:
  assumes "inv t" "p \<in> set (pairs t)"
  shows "tmap t (rep p) = (if markedForRemove p then None else Some (vrep (pair_value p)))"
proof -
  obtain A B where s: "pairs t = A @ p # B" using assms(2) split_list by metis
  have "rep p \<notin> rep ` set (A @ B)" using inv_distinct [OF assms(1)] unfolding s by auto
  then show ?thesis by (simp add: table_map_entries s entry_map_middle)
qed

lemma GetItemValue_is_lookup:
  assumes "inv t"
  shows "vrep (HashTable_GetItemValue t (Some k)) = (case tmap t (krep k) of None \<Rightarrow> vrep None | Some w \<Rightarrow> w)"
proof (cases "walk t (Some k)")
  case Nil
  then have "tmap t (krep k) = None"
    using walk_miss [OF assms Nil] by (simp add: table_map_entries entry_map_other)
  then show ?thesis using Nil by (simp add: HashTable_GetItemValue_def HashTable_Get_def)
next
  case (Cons p rest)
  then show ?thesis using walk_hit [OF assms Cons] tmap_entry [OF assms, of p]
    by (simp add: HashTable_GetItemValue_def HashTable_Get_def)
qed

lemma Contains_is_lookup:
  assumes "inv t"
  shows "HashTable_Contains t (Some k) \<longleftrightarrow> tmap t (krep k) \<noteq> None"
    "HashTable_ContainsKey t (Some k) \<longleftrightarrow> tmap t (krep k) \<noteq> None"
proof -
  show "HashTable_Contains t (Some k) \<longleftrightarrow> tmap t (krep k) \<noteq> None"
  proof (cases "walk t (Some k)")
    case Nil
    then have "tmap t (krep k) = None"
      using walk_miss [OF assms Nil] by (simp add: table_map_entries entry_map_other)
    then show ?thesis using Nil by (simp add: HashTable_Contains_def HashTable_Get_def)
  next
    case (Cons p rest)
    then show ?thesis using walk_hit [OF assms Cons] tmap_entry [OF assms, of p]
      by (simp add: HashTable_Contains_def HashTable_Get_def)
  qed
  then show "HashTable_ContainsKey t (Some k) \<longleftrightarrow> tmap t (krep k) \<noteq> None"
    by (simp add: HashTable_ContainsKey_def HashTable_Contains_def)
qed

lemma hash_bucket:
  "inv t \<Longrightarrow> krep q = krep k \<Longrightarrow> bucket_of t (Some q) = bucket_of t (Some k)"
  using hash_rep [of q k] by (simp add: bucket_of_def inv_def uses_objects_def)

definition owned :: "'p wKeyValuePair \<Rightarrow> bool" where
  "owned p \<longleftrightarrow> pair_key p \<noteq> None \<and> (fnObjectFree K \<longrightarrow> own (the (pair_key p))) \<and>
     (fnObjectFree V \<longrightarrow> pair_value p \<noteq> None \<longrightarrow> own (the (pair_value p)))"

lemma inv_parts:
  "inv t \<longleftrightarrow> uses_objects K V h t \<and> placed t \<and> counted t \<and> distinct (map rep (pairs t)) \<and>
     distinct (map pair_addr (pairs t)) \<and> (\<forall>p \<in> set (pairs t). owned p \<and> pair_addr p < next_addr t)"
  unfolding inv_def hash_inv_def entries_ok_def owned_def uses_objects_def by auto

lemma replace_pair:
  assumes inv: "inv t" and w: "walk t (Some k) = p # rest"
    and p': "rep p' = krep k" "pair_addr p' = pair_addr p" "owned p'"
    and live: "foreachRecursionLevel t = 0 \<Longrightarrow> \<not> markedForRemove p'"
    and t': "t' = t\<lparr>bucketArray := (bucketArray t)[bucket_of t (Some k) := passed t (Some k) @ p' # rest],
      numOfElements := numOfElements t + of_bool (\<not> markedForRemove p') - of_bool (\<not> markedForRemove p),
      pendingRemoves := pendingRemoves t + of_bool (markedForRemove p') - of_bool (markedForRemove p), freed := g\<rparr>"
  shows "inv t'" "tmap t' = (tmap t)(krep k := if markedForRemove p' then None else Some (vrep (pair_value p')))"
proof -
  have t: "uses_objects K V h t" "placed t" "counted t" "distinct (map rep (pairs t))" "distinct (map pair_addr (pairs t))"
    "\<forall>p \<in> set (pairs t). owned p \<and> pair_addr p < next_addr t"
    using inv by (auto simp: inv_parts)
  obtain A B where s: "pairs t = A @ p # B"
    "concat ((bucketArray t)[bucket_of t (Some k) := passed t (Some k) @ p' # rest]) = A @ p' # B"
    by (rule bucket_split [OF t(2), of "Some k"]) (metis w append.assoc append_Cons)
  then have s': "pairs t' = A @ p' # B" by (simp add: t')
  have rp: "rep p = krep k" using walk_hit [OF inv w] by simp
  obtain q where q: "pair_key p' = Some q" using p'(3) by (auto simp: owned_def)
  have "bucket_of t (pair_key x) = bucket_of t (Some k)" if "x \<in> set (passed t (Some k) @ p' # rest)" for x
  proof (cases "x = p'")
    case True
    then show ?thesis using q p'(1) hash_bucket [OF inv, of q k] by (simp add: pair_rep_def)
  next
    case False
    then show ?thesis using that w by (intro in_chain [OF t(2)]) auto
  qed
  then have "placed (t\<lparr>bucketArray := (bucketArray t)[bucket_of t (Some k) := passed t (Some k) @ p' # rest]\<rparr>)"
    by (rule placed_bucket [OF t(2)])
  then have pl: "placed t'" by (simp add: t')
  have c: "counted t'" using t(3) live unfolding counted_def s s' by (auto simp: t' of_bool_def)
  have "distinct (map rep (pairs t'))" "distinct (map pair_addr (pairs t'))"
    "\<forall>p \<in> set (pairs t'). owned p \<and> pair_addr p < next_addr t'"
    using t(4,5,6) p' rp unfolding s s' by (auto simp: t')
  with pl c t(1) show "inv t'" by (simp add: inv_parts uses_objects_def t')
  have "krep k \<notin> rep ` set (A @ B)" using t(4) rp unfolding s by auto
  with p'(1) rp show "tmap t' = (tmap t)(krep k := if markedForRemove p' then None else Some (vrep (pair_value p')))"
    unfolding table_map_entries s s' by (simp add: entry_map_middle)
qed

lemma add_pair:
  assumes inv: "inv t" and w: "walk t (Some k) = []"
    and p: "rep p = krep k" "pair_addr p = next_addr t" "owned p" "\<not> markedForRemove p"
    and t': "t' = t\<lparr>next_addr := next_addr t + 1,
      bucketArray := (bucketArray t)[bucket_of t (Some k) := p # bucketArray t ! bucket_of t (Some k)],
      numOfElements := numOfElements t + 1, freed := g\<rparr>"
  shows "inv t'" "tmap t' = (tmap t)(krep k \<mapsto> vrep (pair_value p))"
proof -
  have t: "uses_objects K V h t" "placed t" "counted t" "distinct (map rep (pairs t))" "distinct (map pair_addr (pairs t))"
    "\<forall>p \<in> set (pairs t). owned p \<and> pair_addr p < next_addr t"
    using inv by (auto simp: inv_parts)
  obtain A B where s: "pairs t = A @ B"
    "concat ((bucketArray t)[bucket_of t (Some k) := p # bucketArray t ! bucket_of t (Some k)]) = A @ p # B"
    by (rule bucket_split [OF t(2), of "Some k"]) (metis chain_split append.assoc append_Cons)
  then have s': "pairs t' = A @ p # B" by (simp add: t')
  have new: "krep k \<notin> rep ` set (pairs t)" by (rule walk_miss [OF inv w])
  obtain q where q: "pair_key p = Some q" using p(3) by (auto simp: owned_def)
  have "bucket_of t (pair_key x) = bucket_of t (Some k)" if "x \<in> set (p # bucketArray t ! bucket_of t (Some k))" for x
    using that q p(1) hash_bucket [OF inv, of q k] in_chain [OF t(2), of x "Some k"]
    by (auto simp: pair_rep_def chain_split)
  then have "placed (t\<lparr>bucketArray := (bucketArray t)[bucket_of t (Some k) := p # bucketArray t ! bucket_of t (Some k)]\<rparr>)"
    by (rule placed_bucket [OF t(2)])
  then have pl: "placed t'" by (simp add: t' placed_def bucket_of_def)
  have c: "counted t'" using t(3) p(4) unfolding counted_def s s' by (simp add: t')
  have "distinct (map rep (pairs t'))" "distinct (map pair_addr (pairs t'))"
    "\<forall>p \<in> set (pairs t'). owned p \<and> pair_addr p < next_addr t'"
    using t(4,5,6) p new unfolding s s' by (auto simp: t' less_Suc_eq)
  with pl c t(1) show "inv t'" by (simp add: inv_parts uses_objects_def t')
  show "tmap t' = (tmap t)(krep k \<mapsto> vrep (pair_value p))"
    using new p(1,4) unfolding table_map_entries s s' by (simp add: entry_map_middle)
qed

lemma drop_pair:
  assumes inv: "inv t" and w: "walk t (Some k) = p # rest" and live: "\<not> markedForRemove p"
    and t': "t' = t\<lparr>bucketArray := (bucketArray t)[bucket_of t (Some k) := passed t (Some k) @ rest],
      numOfElements := numOfElements t - 1, freed := g\<rparr>"
  shows "inv t'" "tmap t' = (tmap t)(krep k := None)"
proof -
  have t: "uses_objects K V h t" "placed t" "counted t" "distinct (map rep (pairs t))" "distinct (map pair_addr (pairs t))"
    "\<forall>p \<in> set (pairs t). owned p \<and> pair_addr p < next_addr t"
    using inv by (auto simp: inv_parts)
  obtain A B where s: "pairs t = A @ p # B"
    "concat ((bucketArray t)[bucket_of t (Some k) := passed t (Some k) @ rest]) = A @ B"
    by (rule bucket_split [OF t(2), of "Some k"]) (metis w append.assoc append_Cons)
  then have s': "pairs t' = A @ B" by (simp add: t')
  have rp: "rep p = krep k" using walk_hit [OF inv w] by simp
  have "bucket_of t (pair_key x) = bucket_of t (Some k)" if "x \<in> set (passed t (Some k) @ rest)" for x
    using that w by (intro in_chain [OF t(2)]) auto
  then have "placed (t\<lparr>bucketArray := (bucketArray t)[bucket_of t (Some k) := passed t (Some k) @ rest]\<rparr>)"
    by (rule placed_bucket [OF t(2)])
  then have pl: "placed t'" by (simp add: t')
  have c: "counted t'" using t(3) live unfolding counted_def s s' by (simp add: t')
  have "distinct (map rep (pairs t'))" "distinct (map pair_addr (pairs t'))"
    "\<forall>p \<in> set (pairs t'). owned p \<and> pair_addr p < next_addr t'"
    using t(4,5,6) unfolding s s' by (auto simp: t')
  with pl c t(1) show "inv t'" by (simp add: inv_parts uses_objects_def t')
  have new: "krep k \<notin> rep ` set (A @ B)" using t(4) rp unfolding s by auto
  then have "emap (A @ B) (krep k) = None" by (rule entry_map_other)
  with new rp show "tmap t' = (tmap t)(krep k := None)"
    unfolding table_map_entries s s' by (simp add: entry_map_middle fun_upd_idem)
qed

lemma inv_Rehash:
  assumes "inv t"
  shows "inv (HashTable_Rehash grant t n)" "tmap (HashTable_Rehash grant t n) = tmap t"
proof -
  have t: "placed t" "counted t" "entries_ok krep own (fnObjectFree K) (fnObjectFree V) (next_addr t) (pairs t)"
    "uses_objects K V h t"
    using assms by (auto simp: inv_def hash_inv_def uses_objects_def)
  note r = Rehash_keeps [OF t(1), of grant n]
  have "counted (HashTable_Rehash grant t n)" by (rule counted_mset [OF t(2) r(2) [symmetric]]) simp_all
  with r(1) entries_ok_mset [OF t(3) r(2) [symmetric]] t(4)
  show "inv (HashTable_Rehash grant t n)" by (simp add: inv_def hash_inv_def uses_objects_def)
  show "tmap (HashTable_Rehash grant t n) = tmap t"
    unfolding table_map_entries by (rule entry_map_mset [OF inv_distinct [OF assms] r(2) [symmetric], symmetric])
qed

text \<open>Copying: the argument is not one of the table's own objects, so it has not been freed.\<close>

definition foreign :: "'p option \<Rightarrow> bool" where
  "foreign v \<longleftrightarrow> v = None \<or> \<not> own (the v)"

definition gone_ok :: "'p option list \<Rightarrow> bool" where
  "gone_ok g \<longleftrightarrow> (\<forall>q. Some q \<in> set g \<longrightarrow> own q)"

lemma setKey_step:
  assumes "uses_objects K V h t" "gone_ok (freed t)" "\<And>x. fnObjectFree K \<Longrightarrow> Some x = pair_key p \<Longrightarrow> own x"
    "\<not> own k"
  shows "\<exists>g q. setKey t p (Some k) = Some (t\<lparr>freed := g\<rparr>, p\<lparr>pair_key := Some q\<rparr>) \<and> gone_ok g \<and>
    krep q = krep k \<and> (fnObjectFree K \<longrightarrow> own q)"
proof -
  obtain g where g: "disposeKey t (pair_key p) = t\<lparr>freed := g\<rparr>" "gone_ok g"
  proof (cases "fnObjectFree (key_object t)")
    case True
    then show ?thesis using assms that [of "freed t @ [pair_key p]"]
      by (auto simp: disposeKey_def gone_ok_def uses_objects_def)
  next
    case False
    then show ?thesis using assms that [of "freed t"] by (simp add: disposeKey_def)
  qed
  have K: "key_object t = K" using assms(1) by (simp add: uses_objects_def)
  show ?thesis
  proof (cases "fnObjectNew K")
    case None
    then show ?thesis using g K key_free
      by (intro exI [of _ g] exI [of _ k]) (auto simp: setKey_def copy_object_def)
  next
    case (Some new)
    then obtain q where "new (Some k) = Some q \<and> krep q = krep k \<and> own q" using key_new by blast
    moreover have "Some k \<notin> set g" using g(2) assms(4) by (auto simp: gone_ok_def)
    ultimately show ?thesis using Some g K
      by (intro exI [of _ g] exI [of _ q]) (auto simp: setKey_def copy_object_def)
  qed
qed

lemma setValue_step:
  assumes "uses_objects K V h t" "gone_ok (freed t)" "\<And>x. fnObjectFree V \<Longrightarrow> Some x = pair_value p \<Longrightarrow> own x"
    "foreign v"
  shows "\<exists>g w. setValue t p v = Some (t\<lparr>freed := g\<rparr>, p\<lparr>pair_value := w\<rparr>) \<and> gone_ok g \<and>
    vrep w = vrep v \<and> (fnObjectFree V \<longrightarrow> w \<noteq> None \<longrightarrow> own (the w))"
proof -
  obtain g where g: "disposeValue t (pair_value p) = t\<lparr>freed := g\<rparr>" "gone_ok g"
  proof (cases "fnObjectFree (value_object t)")
    case True
    then show ?thesis using assms that [of "freed t @ [pair_value p]"]
      by (auto simp: disposeValue_def gone_ok_def uses_objects_def)
  next
    case False
    then show ?thesis using assms that [of "freed t"] by (simp add: disposeValue_def)
  qed
  have V: "value_object t = V" using assms(1) by (simp add: uses_objects_def)
  show ?thesis
  proof (cases "fnObjectNew V")
    case None
    then show ?thesis using g V value_free
      by (intro exI [of _ g] exI [of _ v]) (auto simp: setValue_def copy_object_def)
  next
    case (Some new)
    then have "vrep (new v) = vrep v \<and> (\<forall>q. new v = Some q \<longrightarrow> own q)" by (rule value_new)
    moreover have "v \<noteq> None \<Longrightarrow> v \<notin> set g" using g(2) assms(4) by (auto simp: gone_ok_def foreign_def)
    ultimately show ?thesis using Some g V
      by (intro exI [of _ g] exI [of _ "new v"]) (auto simp: setValue_def copy_object_def)
  qed
qed

lemma uses_update [simp]:
  "uses_objects K V h (t\<lparr>numOfElements := a\<rparr>) = uses_objects K V h t"
  "uses_objects K V h (t\<lparr>pendingRemoves := c\<rparr>) = uses_objects K V h t"
  "uses_objects K V h (t\<lparr>freed := e\<rparr>) = uses_objects K V h t"
  by (simp_all add: uses_objects_def)

lemma inv_uses: "inv t \<Longrightarrow> uses_objects K V h t"
  by (simp add: inv_def)

lemma inv_owned: "inv t \<Longrightarrow> p \<in> set (pairs t) \<Longrightarrow> owned p"
  by (simp add: inv_parts)

lemma ownedD:
  "owned p \<Longrightarrow> fnObjectFree K \<Longrightarrow> Some x = pair_key p \<Longrightarrow> own x"
  "owned p \<Longrightarrow> fnObjectFree V \<Longrightarrow> Some x = pair_value p \<Longrightarrow> own x"
  unfolding owned_def by (metis option.distinct(1) option.sel)+

text \<open>Giving an entry a key and a value.\<close>

lemma change_pair:
  assumes t: "uses_objects K V h t" "freed t = []" and p: "owned p" and new: "\<not> own k" "foreign v"
  shows "\<exists>g t' p' p''. (if pair_key p \<noteq> Some k then setKey t p (Some k) else Some (t, p)) = Some (t', p') \<and>
    (if pair_value p' \<noteq> v then setValue t' p' v else Some (t', p')) = Some (t\<lparr>freed := g\<rparr>, p'') \<and>
    (rep p = krep k \<longrightarrow> rep p'' = krep k) \<and> vrep (pair_value p'') = vrep v \<and> owned p'' \<and>
    pair_addr p'' = pair_addr p \<and> markedForRemove p'' = markedForRemove p"
proof -
  have 0: "gone_ok (freed t)" using t(2) by (simp add: gone_ok_def)
  obtain g p' where 1: "(if pair_key p \<noteq> Some k then setKey t p (Some k) else Some (t, p)) = Some (t\<lparr>freed := g\<rparr>, p')"
    "gone_ok g" "rep p' = krep k" "owned p'" "pair_value p' = pair_value p" "pair_addr p' = pair_addr p"
    "markedForRemove p' = markedForRemove p"
  proof (cases "pair_key p = Some k")
    case True
    then show ?thesis using p t(2) 0 that [of "[]" p] by (simp add: pair_rep_def)
  next
    case False
    obtain g q where "setKey t p (Some k) = Some (t\<lparr>freed := g\<rparr>, p\<lparr>pair_key := Some q\<rparr>)" "gone_ok g"
      "krep q = krep k" "fnObjectFree K \<longrightarrow> own q"
      using setKey_step [OF t(1) 0 ownedD(1) [OF p] new(1)] by blast
    then show ?thesis using False p that [of g "p\<lparr>pair_key := Some q\<rparr>"] by (simp add: pair_rep_def owned_def)
  qed
  obtain g' p'' where 2: "(if pair_value p' \<noteq> v then setValue (t\<lparr>freed := g\<rparr>) p' v else Some (t\<lparr>freed := g\<rparr>, p'))
      = Some (t\<lparr>freed := g'\<rparr>, p'')"
    "pair_key p'' = pair_key p'" "vrep (pair_value p'') = vrep v" "owned p''" "pair_addr p'' = pair_addr p'"
    "markedForRemove p'' = markedForRemove p'"
  proof (cases "pair_value p' = v")
    case True
    then show ?thesis using 1(4) that [of g p'] by simp
  next
    case False
    have u: "uses_objects K V h (t\<lparr>freed := g\<rparr>)" "gone_ok (freed (t\<lparr>freed := g\<rparr>))" using t(1) 1(2) by simp_all
    obtain g' w where "setValue (t\<lparr>freed := g\<rparr>) p' v = Some (t\<lparr>freed := g'\<rparr>, p'\<lparr>pair_value := w\<rparr>)"
      "vrep w = vrep v" "fnObjectFree V \<longrightarrow> w \<noteq> None \<longrightarrow> own (the w)"
      using setValue_step [where p = p', OF u _ new(2)] ownedD(2) [OF 1(4)] by auto
    then show ?thesis using False 1(4) that [of g' "p'\<lparr>pair_value := w\<rparr>"] by (simp add: owned_def)
  qed
  show ?thesis using 1 2 by (intro exI [of _ g'] exI [of _ "t\<lparr>freed := g\<rparr>"] exI [of _ p'] exI [of _ p''])
      (simp add: pair_rep_def)
qed

lemma Insert_present:
  assumes inv: "inv t" and w: "walk t (Some k) = p # rest" and new: "\<not> own k" "\<not> own v"
  shows "\<exists>t'. HashTable_Insert grant t (Some k) (Some v) = Some (True, t') \<and> inv t' \<and>
    tmap t' = (tmap t)(krep k \<mapsto> vrep (Some v)) \<and> foreachRecursionLevel t' = foreachRecursionLevel t"
proof -
  let ?t = "t\<lparr>freed := []\<rparr>"
  obtain u p1 where u: "recycle ?t p = (u, p1)" by fastforce
  have u': "u = ?t\<lparr>pendingRemoves := pendingRemoves t - of_bool (markedForRemove p),
      numOfElements := numOfElements t + of_bool (markedForRemove p)\<rparr>" "p1 = p\<lparr>markedForRemove := False\<rparr>"
    using u by (auto simp: recycle_def split: if_splits)
  have p: "owned p" "rep p = krep k" using walk_hit [OF inv w] inv_owned [OF inv] by auto
  have uses: "uses_objects K V h u" "freed u = []" using inv_uses [OF inv] by (simp_all add: u')
  have own1: "owned p1" "rep p1 = krep k" using p by (simp_all add: u' owned_def pair_rep_def)
  have f: "foreign (Some v)" using new(2) by (simp add: foreign_def)
  obtain g t1 p2 p3 where ch: "(if pair_key p1 \<noteq> Some k then setKey u p1 (Some k) else Some (u, p1)) = Some (t1, p2)"
    "(if pair_value p2 \<noteq> Some v then setValue t1 p2 (Some v) else Some (t1, p2)) = Some (u\<lparr>freed := g\<rparr>, p3)"
    "rep p3 = krep k" "vrep (pair_value p3) = vrep (Some v)" "owned p3" "pair_addr p3 = pair_addr p1"
    "markedForRemove p3 = markedForRemove p1"
    using change_pair [OF uses own1(1) new(1) f] own1(2) by blast
  let ?t' = "u\<lparr>freed := g, bucketArray := (bucketArray u)[bucket_of t (Some k) := passed t (Some k) @ p3 # rest]\<rparr>"
  have "HashTable_Insert grant t (Some k) (Some v) = Some (True, ?t')"
    unfolding HashTable_Insert_def Let_def by (simp add: w u ch(1,2))
  moreover have e: "?t' = t\<lparr>bucketArray := (bucketArray t)[bucket_of t (Some k) := passed t (Some k) @ p3 # rest],
      numOfElements := numOfElements t + of_bool (\<not> markedForRemove p3) - of_bool (\<not> markedForRemove p),
      pendingRemoves := pendingRemoves t + of_bool (markedForRemove p3) - of_bool (markedForRemove p), freed := g\<rparr>"
    using ch(7) by (cases "markedForRemove p") (simp_all add: u')
  moreover have "pair_addr p3 = pair_addr p" "\<not> markedForRemove p3" using ch(6,7) by (simp_all add: u')
  note r = replace_pair [OF inv w ch(3) this(1) ch(5) this(2) e]
  ultimately show ?thesis using r ch(4) \<open>\<not> markedForRemove p3\<close> by (intro exI [of _ ?t']) (simp add: u')
qed

lemma Insert_absent:
  assumes inv: "inv t" and w: "walk t (Some k) = []" and new: "\<not> own k" "\<not> own v" and g: "grant 32"
  shows "\<exists>t'. HashTable_Insert grant t (Some k) (Some v) = Some (True, t') \<and> inv t' \<and>
    tmap t' = (tmap t)(krep k \<mapsto> vrep (Some v)) \<and> foreachRecursionLevel t' = foreachRecursionLevel t"
proof -
  let ?t = "t\<lparr>freed := []\<rparr>"
  let ?p = "\<lparr>pair_addr = next_addr t, pair_key = None, pair_value = None, markedForRemove = False\<rparr> :: 'p wKeyValuePair"
  have uses: "uses_objects K V h ?t" using inv_uses [OF inv] by simp
  obtain g q where k: "setKey ?t ?p (Some k) = Some (?t\<lparr>freed := g\<rparr>, ?p\<lparr>pair_key := Some q\<rparr>)" "gone_ok g"
    "krep q = krep k" "fnObjectFree K \<longrightarrow> own q"
    using setKey_step [OF uses _ _ new(1), of ?p] by (auto simp: gone_ok_def)
  have uses': "uses_objects K V h (?t\<lparr>freed := g\<rparr>)" "gone_ok (freed (?t\<lparr>freed := g\<rparr>))" using uses k(2) by simp_all
  have f: "foreign (Some v)" using new(2) by (simp add: foreign_def)
  obtain g' x where v: "setValue (?t\<lparr>freed := g\<rparr>) (?p\<lparr>pair_key := Some q\<rparr>) (Some v) =
      Some (?t\<lparr>freed := g'\<rparr>, ?p\<lparr>pair_key := Some q, pair_value := x\<rparr>)" "vrep x = vrep (Some v)"
      "fnObjectFree V \<longrightarrow> x \<noteq> None \<longrightarrow> own (the x)"
    using setValue_step [OF uses' _ f, of "?p\<lparr>pair_key := Some q\<rparr>"] by auto
  let ?p' = "?p\<lparr>pair_key := Some q, pair_value := x\<rparr>"
  let ?t' = "t\<lparr>freed := g', next_addr := next_addr t + 1,
      bucketArray := (bucketArray t)[bucket_of t (Some k) := ?p' # bucketArray t ! bucket_of t (Some k)],
      numOfElements := numOfElements t + 1\<rparr>"
  have e: "?t' = t\<lparr>next_addr := next_addr t + 1,
      bucketArray := (bucketArray t)[bucket_of t (Some k) := ?p' # bucketArray t ! bucket_of t (Some k)],
      numOfElements := numOfElements t + 1, freed := g'\<rparr>" by simp
  have "rep ?p' = krep k" "pair_addr ?p' = next_addr t" "owned ?p'" "\<not> markedForRemove ?p'"
    using k(3,4) v(3) by (simp_all add: pair_rep_def owned_def)
  note r = add_pair [OF inv w this e]
  let ?u = "if foreachRecursionLevel ?t' = 0 \<and> upperRehashThreshold ?t' > idealRatio ?t'
      \<and> element_ratio ?t' > upperRehashThreshold ?t' then HashTable_Rehash grant ?t' 0 else ?t'"
  have "HashTable_Insert grant t (Some k) (Some v) = Some (True, ?u)"
    unfolding HashTable_Insert_def Let_def by (simp add: w g k(1) [simplified] v(1) [simplified])
  moreover have "inv ?u" using r(1) inv_Rehash(1) [OF r(1)] by (simp only: split: if_split) simp
  moreover have "tmap ?u = tmap ?t'" using inv_Rehash(2) [OF r(1)] by (simp only: split: if_split) simp
  moreover have "foreachRecursionLevel ?u = foreachRecursionLevel t" by simp
  ultimately show ?thesis using r(2) v(2) by (intro exI [of _ ?u]) simp
qed

lemma Insert_ok:
  assumes "inv t" "\<not> own k" "\<not> own v"
  shows "\<exists>ok t'. HashTable_Insert grant t (Some k) (Some v) = Some (ok, t') \<and> inv t' \<and>
    tmap t' = (if ok then (tmap t)(krep k \<mapsto> vrep (Some v)) else tmap t) \<and> (grant 32 \<longrightarrow> ok) \<and>
    foreachRecursionLevel t' = foreachRecursionLevel t"
proof (cases "walk t (Some k)")
  case (Cons p rest)
  then show ?thesis using Insert_present [OF assms(1) Cons assms(2,3), of grant] by auto
next
  case Nil
  show ?thesis
  proof (cases "grant 32")
    case True
    then show ?thesis using Insert_absent [where grant = grant, OF assms(1) Nil assms(2,3)] by auto
  next
    case False
    then have "HashTable_Insert grant t (Some k) (Some v) = Some (False, t\<lparr>freed := []\<rparr>)"
      unfolding HashTable_Insert_def Let_def by (simp add: Nil)
    then show ?thesis using assms(1) False
      by (intro exI [of _ False] exI [of _ "t\<lparr>freed := []\<rparr>"]) (simp add: table_map_entries)
  qed
qed

lemma not_marked:
  "inv t \<Longrightarrow> foreachRecursionLevel t = 0 \<Longrightarrow> p \<in> set (pairs t) \<Longrightarrow> \<not> markedForRemove p"
  by (auto simp: inv_def hash_inv_def counted_def marked_in_def filter_empty_conv)

text \<open>Within an iteration an entry may be removed once only: the counts go wrong when it is marked again.\<close>

lemma Remove_ok:
  assumes inv: "inv t" and once: "foreachRecursionLevel t \<noteq> 0 \<Longrightarrow> tmap t (krep k) \<noteq> None"
  shows "\<exists>t'. HashTable_Remove grant t (Some k) = (tmap t (krep k) \<noteq> None, t') \<and> inv t' \<and>
    tmap t' = (tmap t)(krep k := None) \<and> foreachRecursionLevel t' = foreachRecursionLevel t"
proof (cases "walk t (Some k)")
  case Nil
  then have none: "tmap t (krep k) = None"
    using walk_miss [OF inv Nil] by (simp add: table_map_entries entry_map_other)
  have "HashTable_Remove grant t (Some k) = (False, t\<lparr>freed := []\<rparr>)"
    unfolding HashTable_Remove_def Let_def by (simp add: Nil)
  then show ?thesis using inv none by (simp add: table_map_entries fun_upd_idem)
next
  case (Cons p rest)
  note w = walk_hit [OF inv Cons] and tm = tmap_entry [OF inv walk_hit(2) [OF inv Cons]]
  show ?thesis
  proof (cases "foreachRecursionLevel t = 0")
    case True
    have live: "\<not> markedForRemove p" by (rule not_marked [OF inv True w(2)])
    let ?t1 = "t\<lparr>freed := [], bucketArray := (bucketArray t)[bucket_of t (Some k) := passed t (Some k) @ rest]\<rparr>"
    obtain g where g: "disposePair ?t1 p = ?t1\<lparr>freed := g\<rparr>" using disposePair_freed by blast
    let ?t' = "?t1\<lparr>freed := g, numOfElements := numOfElements t - 1\<rparr>"
    have e: "?t' = t\<lparr>bucketArray := (bucketArray t)[bucket_of t (Some k) := passed t (Some k) @ rest],
      numOfElements := numOfElements t - 1, freed := g\<rparr>" by simp
    note r = drop_pair [OF inv Cons live e]
    let ?u = "if lowerRehashThreshold ?t' > 0 \<and> element_ratio ?t' < lowerRehashThreshold ?t'
      then HashTable_Rehash grant ?t' 0 else ?t'"
    have "HashTable_Remove grant t (Some k) = (True, ?u)"
      unfolding HashTable_Remove_def Let_def by (simp add: Cons True g [simplified])
    moreover have "inv ?u" using r(1) inv_Rehash(1) [OF r(1)] by (simp only: split: if_split) simp
    moreover have "tmap ?u = tmap ?t'" using inv_Rehash(2) [OF r(1)] by (simp only: split: if_split) simp
    moreover have "foreachRecursionLevel ?u = foreachRecursionLevel t" by simp
    ultimately show ?thesis using r(2) tm live w(1) by (intro exI [of _ ?u]) simp
  next
    case False
    have live: "\<not> markedForRemove p" using once [OF False] tm w(1) by (auto split: if_splits)
    let ?p = "p\<lparr>markedForRemove := True\<rparr>"
    let ?t' = "t\<lparr>freed := [], bucketArray := (bucketArray t)[bucket_of t (Some k) := passed t (Some k) @ ?p # rest],
      pendingRemoves := pendingRemoves t + 1, numOfElements := numOfElements t - 1\<rparr>"
    have e: "?t' = t\<lparr>bucketArray := (bucketArray t)[bucket_of t (Some k) := passed t (Some k) @ ?p # rest],
      numOfElements := numOfElements t + of_bool (\<not> markedForRemove ?p) - of_bool (\<not> markedForRemove p),
      pendingRemoves := pendingRemoves t + of_bool (markedForRemove ?p) - of_bool (markedForRemove p), freed := []\<rparr>"
      using live by simp
    have "rep ?p = krep k" "pair_addr ?p = pair_addr p" "owned ?p"
      "foreachRecursionLevel t = 0 \<Longrightarrow> \<not> markedForRemove ?p"
      using w(1) inv_owned [OF inv w(2)] False by (simp_all add: pair_rep_def owned_def)
    note r = replace_pair [OF inv Cons this e]
    have "HashTable_Remove grant t (Some k) = (True, ?t')"
      unfolding HashTable_Remove_def Let_def by (simp add: Cons False)
    then show ?thesis using r tm live w(1) by (intro exI [of _ ?t']) simp
  qed
qed

lemma SetItemValue_ok:
  assumes inv: "inv t" and new: "foreign v"
  shows "\<exists>t'. HashTable_SetItemValue t (Some k) v = Some (tmap t (krep k) \<noteq> None, t') \<and> inv t' \<and>
    tmap t' = (if tmap t (krep k) \<noteq> None then (tmap t)(krep k \<mapsto> vrep v) else tmap t) \<and>
    foreachRecursionLevel t' = foreachRecursionLevel t"
proof (cases "walk t (Some k)")
  case Nil
  then have none: "tmap t (krep k) = None"
    using walk_miss [OF inv Nil] by (simp add: table_map_entries entry_map_other)
  have "HashTable_SetItemValue t (Some k) v = Some (False, t\<lparr>freed := []\<rparr>)"
    unfolding HashTable_SetItemValue_def Let_def by (simp add: Nil)
  then show ?thesis using inv none by (simp add: table_map_entries)
next
  case (Cons p rest)
  note w = walk_hit [OF inv Cons] and tm = tmap_entry [OF inv walk_hit(2) [OF inv Cons]]
  have p: "owned p" by (rule inv_owned [OF inv w(2)])
  show ?thesis
  proof (cases "markedForRemove p")
    case True
    then have "HashTable_SetItemValue t (Some k) v = Some (False, t\<lparr>freed := []\<rparr>)"
      unfolding HashTable_SetItemValue_def Let_def by (simp add: Cons)
    then show ?thesis using inv tm w(1) True by (simp add: table_map_entries)
  next
    case False
    have u: "uses_objects K V h (t\<lparr>freed := []\<rparr>)" "gone_ok (freed (t\<lparr>freed := []\<rparr>))"
      using inv_uses [OF inv] by (simp_all add: gone_ok_def)
    obtain g x where s: "setValue (t\<lparr>freed := []\<rparr>) p v = Some (t\<lparr>freed := g\<rparr>, p\<lparr>pair_value := x\<rparr>)"
      "vrep x = vrep v" "fnObjectFree V \<longrightarrow> x \<noteq> None \<longrightarrow> own (the x)"
      using setValue_step [where p = p, OF u _ new] ownedD(2) [OF p] by auto
    let ?p = "p\<lparr>pair_value := x\<rparr>"
    let ?t' = "t\<lparr>freed := g, bucketArray := (bucketArray t)[bucket_of t (Some k) := passed t (Some k) @ ?p # rest]\<rparr>"
    have e: "?t' = t\<lparr>bucketArray := (bucketArray t)[bucket_of t (Some k) := passed t (Some k) @ ?p # rest],
      numOfElements := numOfElements t + of_bool (\<not> markedForRemove ?p) - of_bool (\<not> markedForRemove p),
      pendingRemoves := pendingRemoves t + of_bool (markedForRemove ?p) - of_bool (markedForRemove p), freed := g\<rparr>"
      by simp
    have "rep ?p = krep k" "pair_addr ?p = pair_addr p" "owned ?p"
      "foreachRecursionLevel t = 0 \<Longrightarrow> \<not> markedForRemove ?p"
      using w(1) p s(3) False by (simp_all add: pair_rep_def owned_def)
    note r = replace_pair [OF inv Cons this e]
    have "HashTable_SetItemValue t (Some k) v = Some (True, ?t')"
      unfolding HashTable_SetItemValue_def Let_def by (simp add: Cons False s(1))
    then show ?thesis using r tm False w(1) s(2) by (intro exI [of _ ?t']) simp
  qed
qed

lemma Clear_ok:
  assumes inv: "inv t" and level: "foreachRecursionLevel t = 0"
  shows "\<exists>t'. HashTable_Clear grant t = Some t' \<and> inv t' \<and> tmap t' = Map.empty \<and> foreachRecursionLevel t' = 0"
proof -
  have t: "placed t" "pendingRemoves t = 0" "uses_objects K V h t"
    using inv level by (auto simp: inv_def hash_inv_def counted_def)
  let ?n = "numOfBuckets t"
  have n: "length (bucketArray t) = ?n" using t(1) by (simp add: placed_def)
  obtain g where "clear_buckets (t\<lparr>freed := []\<rparr>) [0..<?n] =
      Some ((t\<lparr>freed := []\<rparr>)\<lparr>bucketArray := foldl (\<lambda>bs i. bs[i := []]) (bucketArray (t\<lparr>freed := []\<rparr>)) [0..<?n], freed := g\<rparr>)"
    using clear_buckets_ends [of "t\<lparr>freed := []\<rparr>"] level by auto
  moreover have "foldl (\<lambda>bs i. bs[i := []]) (bucketArray t) [0..<?n] = replicate ?n []"
    using empty_buckets [of "bucketArray t"] by (simp add: n)
  ultimately have c: "clear_buckets (t\<lparr>freed := []\<rparr>) [0..<?n] = Some (t\<lparr>bucketArray := replicate ?n [], freed := g\<rparr>)"
    by simp
  let ?t = "t\<lparr>bucketArray := replicate ?n [], freed := g, numOfElements := 0\<rparr>"
  have p: "pairs ?t = []" by simp
  have "placed ?t" using t(1) by (simp add: placed_def)
  with t p have i: "inv ?t" by (simp add: inv_parts counted_def uses_objects_def)
  have "HashTable_Clear grant t = Some (HashTable_Rehash grant ?t 5)"
    using c level by (simp add: HashTable_Clear_def)
  moreover have "tmap ?t = Map.empty" by (simp add: table_map_entries entry_map_def)
  ultimately show ?thesis using inv_Rehash [OF i, of grant 5] level by simp
qed

lemma live_card:
  assumes "inv t"
  shows "distinct (map rep (live_in (pairs t)))" "dom (tmap t) = set (map rep (live_in (pairs t)))"
    "length (live_in (pairs t)) = card (dom (tmap t))"
proof -
  show d: "distinct (map rep (live_in (pairs t)))"
    using inv_distinct [OF assms] by (simp add: live_in_def distinct_map_filter)
  show e: "dom (tmap t) = set (map rep (live_in (pairs t)))"
    by (simp add: table_map_def dom_map_of_conv_image_fst image_image)
  then show "length (live_in (pairs t)) = card (dom (tmap t))" using distinct_card [OF d] by simp
qed

lemma Count_is_card:
  assumes "inv t"
  shows "HashTable_Count t = of_nat (card (dom (tmap t)))"
  using assms live_card(3) [OF assms] by (simp add: HashTable_Count_def inv_def hash_inv_def counted_def)

lemma GetKeys_lists:
  assumes inv: "inv t" and small: "card (dom (tmap t)) < 2 ^ 64" and some: "dom (tmap t) \<noteq> {}"
    and g: "grant (8 * card (dom (tmap t)))"
  shows "\<exists>ks. HashTable_GetKeys grant t True = Some (HashTable_Count t, Some ks) \<and>
    distinct (map (krep \<circ> the) ks) \<and> set (map (krep \<circ> the) ks) = dom (tmap t) \<and> None \<notin> set ks"
proof -
  let ?ps = "live_in (pairs t)"
  note d = live_card(1) [OF inv] and dom = live_card(2) [OF inv] and card = live_card(3) [OF inv, symmetric]
  have n: "numOfElements t = of_nat (length ?ps)" using inv by (simp add: inv_def hash_inv_def counted_def)
  have u: "unat (numOfElements t) = length ?ps" using small unfolding n card
    by (simp add: unat_of_nat take_bit_nat_eq_self)
  have "?ps \<noteq> []" using some dom by auto
  then have "\<not> numOfElements t < 1" using u by (auto simp: word_less_nat_alt)
  then have "HashTable_GetKeys grant t True = Some (HashTable_Count t, Some (map pair_key ?ps))"
    using g collect_keys_enough [of "pairs t" "length ?ps" "[]"] u card
    by (simp add: HashTable_GetKeys_def HashTable_Count_def Let_def)
  moreover have "map (krep \<circ> the) (map pair_key ?ps) = map rep ?ps" by (simp add: pair_rep_def)
  moreover have "None \<notin> set (map pair_key ?ps)"
  proof -
    have "pair_key p \<noteq> None" if "p \<in> set ?ps" for p
      using that inv_owned [OF inv, of p] by (simp add: set_live_in owned_def)
    then show ?thesis unfolding set_map image_iff by metis
  qed
  ultimately show ?thesis using d dom by metis
qed

end

end
