(* ===== verification/HashTableForeach.thy ===== *)
theory HashTableForeach
  imports HashTableMap
begin

text \<open>
  The iteration of the hash table with a callback that removes some of the entries it is shown: every entry is shown
  once, and what is left is the rest, in the same order.
\<close>

definition remove_when :: "(nat \<Rightarrow> bool) \<Rightarrow> ('p option \<Rightarrow> 'p option \<Rightarrow> bool)
    \<Rightarrow> ('p, ('p option \<times> 'p option) list) HASH_TABLE_FOREACH_FN" where
  "remove_when grant P key value t seen =
     Some (True, if P key value then snd (HashTable_Remove grant t key) else t, seen @ [(key, value)])"

definition mark_when :: "('p option \<Rightarrow> 'p option \<Rightarrow> bool) \<Rightarrow> 'p wKeyValuePair \<Rightarrow> 'p wKeyValuePair" where
  "mark_when P p = (if P (pair_key p) (pair_value p) then p\<lparr>markedForRemove := True\<rparr> else p)"

definition shown :: "'p wKeyValuePair \<Rightarrow> 'p option \<times> 'p option" where
  "shown p = (pair_key p, pair_value p)"

lemma after_addr_finds:
  "distinct (map pair_addr (concat bs)) \<Longrightarrow> i < length bs \<Longrightarrow> bs ! i = before @ p # rest \<Longrightarrow>
    after_addr bs (pair_addr p) = Some rest"
proof (induction bs arbitrary: i)
  case (Cons c bs)
  show ?case
  proof (cases i)
    case 0
    then have c: "c = before @ p # rest" using Cons.prems(3) by simp
    then have "\<forall>q \<in> set before. pair_addr q \<noteq> pair_addr p" using Cons.prems(1) by (auto simp: rev_image_eqI)
    then have "dropWhile (\<lambda>q. pair_addr q \<noteq> pair_addr p) c = p # rest" unfolding c by (simp add: dropWhile_append)
    then show ?thesis by simp
  next
    case (Suc j)
    then have j: "j < length bs" "bs ! j = before @ p # rest" using Cons.prems by simp_all
    then have "p \<in> set (concat bs)" by (metis in_set_conv_decomp nth_mem set_concat UN_iff)
    moreover have "pair_addr ` set c \<inter> pair_addr ` set (concat bs) = {}"
      using Cons.prems(1) by (simp only: concat.simps map_append distinct_append set_map)
    ultimately have "\<forall>q \<in> set c. pair_addr q \<noteq> pair_addr p" by blast
    then have "dropWhile (\<lambda>q. pair_addr q \<noteq> pair_addr p) c = []" by (simp add: dropWhile_eq_Nil_conv)
    moreover have "after_addr bs (pair_addr p) = Some rest" using Cons.IH [OF _ j] Cons.prems(1) by simp
    ultimately show ?thesis by (simp only: after_addr.simps list.case)
  qed
qed simp

lemma sweep_chain_keeps: "\<exists>g. sweep_chain t chain = (t\<lparr>freed := g\<rparr>, live_in chain)"
proof (induction chain arbitrary: t)
  case Nil
  show ?case by (auto intro: exI [of _ "freed t"])
next
  case (Cons p chain)
  obtain g where g: "disposePair t p = t\<lparr>freed := g\<rparr>" using disposePair_freed by blast
  show ?case using Cons.IH [of t] Cons.IH [of "t\<lparr>freed := g\<rparr>"] g by auto
qed

lemma sweep_buckets_keeps:
  "\<exists>g. sweep_buckets t is = t\<lparr>bucketArray := foldl (\<lambda>bs i. bs[i := live_in (bs ! i)]) (bucketArray t) is, freed := g\<rparr>"
proof (induction "is" arbitrary: t)
  case Nil
  show ?case by (auto intro: exI [of _ "freed t"])
next
  case (Cons i "is")
  obtain g where g: "sweep_chain t (bucketArray t ! i) = (t\<lparr>freed := g\<rparr>, live_in (bucketArray t ! i))"
    using sweep_chain_keeps by blast
  show ?case using Cons.IH [of "t\<lparr>freed := g, bucketArray := (bucketArray t)[i := live_in (bucketArray t ! i)]\<rparr>"]
    by (auto simp: g)
qed

lemma update_all: "foldl (\<lambda>bs i. bs[i := f (bs ! i)]) bs [0..<length bs] = map f bs"
proof -
  have "foldl (\<lambda>bs i. bs[i := f (bs ! i)]) bs [0..<n] = map f (take n bs) @ drop n bs" if "n \<le> length bs" for n
    using that
  proof (induction n)
    case (Suc n)
    let ?b = "map f (take n bs) @ drop n bs"
    have n: "?b ! n = bs ! n" "length (map f (take n bs)) = n" "drop n bs = bs ! n # drop (Suc n) bs"
      using Suc.prems by (simp_all add: nth_append Cons_nth_drop_Suc)
    have "foldl (\<lambda>bs i. bs[i := f (bs ! i)]) bs [0..<Suc n] = ?b[n := f (bs ! n)]"
      using Suc n(1) by simp
    also have "\<dots> = map f (take n bs) @ f (bs ! n) # drop (Suc n) bs"
      unfolding list_update_append n(2) by (simp add: n(3))
    also have "\<dots> = map f (take (Suc n) bs) @ drop (Suc n) bs"
      using Suc.prems by (simp add: take_Suc_conv_app_nth)
    finally show ?case .
  qed simp
  from this [of "length bs"] show ?thesis by simp
qed

lemma foreach_loop_end: "\<not> index < numOfBuckets t \<Longrightarrow> foreach_loop fn index chain t arg = Some (True, t, arg)"
  by (subst foreach_loop.simps) simp

lemma foreach_loop_next:
  "index < numOfBuckets t \<Longrightarrow>
    foreach_loop fn index [] t arg = foreach_loop fn (index + 1) (chain_at t (index + 1)) t arg"
  by (subst foreach_loop.simps) simp

lemma foreach_loop_pair:
  assumes "index < numOfBuckets t" "\<not> markedForRemove p" "fn (pair_key p) (pair_value p) t arg = Some (True, t', arg')"
    "after_addr (bucketArray t') (pair_addr p) = Some rest"
  shows "foreach_loop fn index (p # chain) t arg = foreach_loop fn index rest t' arg'"
  using assms by (subst foreach_loop.simps) simp

context table_objects
begin

definition same_frame :: "'p wHashTable \<Rightarrow> 'p wHashTable \<Rightarrow> bool" where
  "same_frame t u \<longleftrightarrow> inv u \<and> foreachRecursionLevel u = foreachRecursionLevel t \<and>
     numOfBuckets u = numOfBuckets t"

lemma Remove_marks:
  assumes inv: "inv t" and level: "foreachRecursionLevel t \<noteq> 0" and i: "i < numOfBuckets t"
    and c: "bucketArray t ! i = before @ p # rest" and live: "\<not> markedForRemove p"
  shows "same_frame t (snd (HashTable_Remove grant t (pair_key p)))"
    "bucketArray (snd (HashTable_Remove grant t (pair_key p))) =
       (bucketArray t)[i := before @ p\<lparr>markedForRemove := True\<rparr> # rest]"
proof -
  have t: "placed t" "key_object t = K" "distinct (map rep (pairs t))"
    using inv by (auto simp: inv_parts uses_objects_def)
  have len: "i < length (bucketArray t)" using t(1) i by (simp add: placed_def)
  have pp: "p \<in> set (pairs t)" unfolding pairs_def concat_split [OF len] c by simp
  obtain k where k: "pair_key p = Some k" using inv_owned [OF inv pp] by (auto simp: owned_def)
  have b: "bucket_of t (Some k) = i" using t(1) i c k by (auto simp: placed_def)
  have eq: "HashTable_Equals t q (Some k) \<longleftrightarrow> rep q = rep p" if "q \<in> set (pairs t)" for q
    using inv_owned [OF inv that] k t(2) equal_rep by (auto simp: HashTable_Equals_def owned_def pair_rep_def)
  have "rep q \<noteq> rep p" if "q \<in> set before" for q
  proof -
    have "distinct (map rep (before @ p # rest))"
      using t(3) unfolding pairs_def concat_split [OF len] c by (simp only: map_append distinct_append append_assoc set_append Int_Un_distrib Un_empty)
    then show ?thesis using that by (auto simp: rev_image_eqI)
  qed
  moreover have "set before \<subseteq> set (pairs t)"
    unfolding pairs_def concat_split [OF len] c by auto
  ultimately have "\<forall>q \<in> set before. \<not> HashTable_Equals t q (Some k)" using eq by blast
  moreover have "HashTable_Equals t p (Some k)" using eq [OF pp] by simp
  ultimately have w: "walk t (Some k) = p # rest" "passed t (Some k) = before"
    unfolding walk_def passed_def b c by (simp_all add: dropWhile_append takeWhile_append)
  have "tmap t (krep k) \<noteq> None" using tmap_entry [OF inv pp] live k by (simp add: pair_rep_def)
  then obtain t' where r: "HashTable_Remove grant t (Some k) = (True, t')" "inv t'"
    "foreachRecursionLevel t' = foreachRecursionLevel t"
    using Remove_ok [OF inv, of k grant] by auto
  have "HashTable_Remove grant t (Some k) = (True, t\<lparr>freed := [],
      bucketArray := (bucketArray t)[i := before @ p\<lparr>markedForRemove := True\<rparr> # rest],
      pendingRemoves := pendingRemoves t + 1, numOfElements := numOfElements t - 1\<rparr>)"
    unfolding HashTable_Remove_def Let_def by (simp add: w level b)
  with r show "same_frame t (snd (HashTable_Remove grant t (pair_key p)))"
    "bucketArray (snd (HashTable_Remove grant t (pair_key p))) =
       (bucketArray t)[i := before @ p\<lparr>markedForRemove := True\<rparr> # rest]"
    by (auto simp: k same_frame_def)
qed

lemma chain_loop:
  "inv t \<Longrightarrow> foreachRecursionLevel t \<noteq> 0 \<Longrightarrow> i < numOfBuckets t \<Longrightarrow> bucketArray t ! i = before @ rest \<Longrightarrow>
   marked_in rest = [] \<Longrightarrow>
   \<exists>u. foreach_loop (remove_when grant P) i rest t seen =
         foreach_loop (remove_when grant P) i [] u (seen @ map shown rest) \<and> same_frame t u \<and>
       bucketArray u = (bucketArray t)[i := before @ map (mark_when P) rest]"
proof (induction rest arbitrary: t before seen)
  case Nil
  have "bucketArray t = (bucketArray t)[i := before]" using Nil.prems(4) by (metis append_Nil2 list_update_id)
  then show ?case using Nil.prems(1) by (auto simp: same_frame_def intro!: exI [of _ t])
next
  case (Cons p rest)
  have live: "\<not> markedForRemove p" "marked_in rest = []" using Cons.prems(5) by (auto split: if_splits)
  define u where "u = (if P (pair_key p) (pair_value p) then snd (HashTable_Remove grant t (pair_key p)) else t)"
  have bs: "bucketArray t = (bucketArray t)[i := before @ p # rest]" using Cons.prems(4) by (metis list_update_id)
  note r = Remove_marks [OF Cons.prems(1-4) live(1), of grant]
  have u: "same_frame t u" "bucketArray u = (bucketArray t)[i := (before @ [mark_when P p]) @ rest]"
    using r bs Cons.prems(1) by (auto simp: u_def mark_when_def same_frame_def)
  then have inv: "inv u" "foreachRecursionLevel u \<noteq> 0" "i < numOfBuckets u"
    using Cons.prems(2,3) by (simp_all add: same_frame_def)
  have len: "i < length (bucketArray t)" using Cons.prems(1,3) by (auto simp: inv_parts placed_def)
  then have c: "bucketArray u ! i = (before @ [mark_when P p]) @ rest" by (simp add: u(2))
  have "distinct (map pair_addr (concat (bucketArray u)))" using inv(1) by (simp add: inv_parts pairs_def)
  moreover have "i < length (bucketArray u)" using len u(2) by simp
  moreover have "bucketArray u ! i = before @ mark_when P p # rest" using c by simp
  ultimately have "after_addr (bucketArray u) (pair_addr (mark_when P p)) = Some rest" by (rule after_addr_finds)
  then have a: "after_addr (bucketArray u) (pair_addr p) = Some rest" by (simp add: mark_when_def split: if_splits)
  have step: "foreach_loop (remove_when grant P) i (p # rest) t seen =
      foreach_loop (remove_when grant P) i rest u (seen @ [shown p])"
    by (rule foreach_loop_pair [OF Cons.prems(3) live(1) _ a]) (simp add: remove_when_def u_def shown_def)
  obtain v where v: "foreach_loop (remove_when grant P) i rest u (seen @ [shown p]) =
      foreach_loop (remove_when grant P) i [] v ((seen @ [shown p]) @ map shown rest)" "same_frame u v"
    "bucketArray v = (bucketArray u)[i := (before @ [mark_when P p]) @ map (mark_when P) rest]"
    using Cons.IH [OF inv c live(2)] by blast
  show ?case using step v u by (intro exI [of _ v]) (simp add: same_frame_def)
qed

lemma buckets_loop:
  "inv t \<Longrightarrow> foreachRecursionLevel t \<noteq> 0 \<Longrightarrow> i \<le> numOfBuckets t \<Longrightarrow>
   marked_in (concat (drop i (bucketArray t))) = [] \<Longrightarrow>
   \<exists>u. foreach_loop (remove_when grant P) i (chain_at t i) t seen =
         Some (True, u, seen @ map shown (concat (drop i (bucketArray t)))) \<and> same_frame t u \<and>
       bucketArray u = take i (bucketArray t) @ map (map (mark_when P)) (drop i (bucketArray t))"
proof (induction "numOfBuckets t - i" arbitrary: i t seen)
  case 0
  then have i: "\<not> i < numOfBuckets t" "length (bucketArray t) \<le> i" by (auto simp: inv_parts placed_def)
  then show ?case using 0 by (simp add: foreach_loop_end same_frame_def)
next
  case (Suc n)
  then have i: "i < numOfBuckets t" by simp
  let ?bs = "bucketArray t"
  have len: "length ?bs = numOfBuckets t" using Suc.prems(1) by (simp add: inv_parts placed_def)
  then have d: "drop i ?bs = ?bs ! i # drop (Suc i) ?bs" using i by (simp add: Cons_nth_drop_Suc)
  have live: "marked_in (?bs ! i) = []" "marked_in (concat (drop (Suc i) ?bs)) = []"
    using Suc.prems(4) by (simp_all add: d)
  obtain u where u: "foreach_loop (remove_when grant P) i (?bs ! i) t seen =
      foreach_loop (remove_when grant P) i [] u (seen @ map shown (?bs ! i))" "same_frame t u"
    "bucketArray u = ?bs[i := map (mark_when P) (?bs ! i)]"
    using chain_loop [OF Suc.prems(1,2) i, of "[]" "?bs ! i" grant P seen] live(1) by auto
  have fr: "inv u" "foreachRecursionLevel u \<noteq> 0" "numOfBuckets u = numOfBuckets t"
    using u(2) Suc.prems(2) by (simp_all add: same_frame_def)
  have du: "drop (Suc i) (bucketArray u) = drop (Suc i) ?bs" by (simp add: u(3))
  have "n = numOfBuckets u - Suc i" using Suc.hyps(2) fr(3) by simp
  moreover have "Suc i \<le> numOfBuckets u" using i fr(3) by simp
  moreover have "marked_in (concat (drop (Suc i) (bucketArray u))) = []" using live(2) du by simp
  ultimately obtain v where v: "foreach_loop (remove_when grant P) (Suc i) (chain_at u (Suc i)) u (seen @ map shown (?bs ! i)) =
      Some (True, v, (seen @ map shown (?bs ! i)) @ map shown (concat (drop (Suc i) (bucketArray u))))" "same_frame u v"
    "bucketArray v = take (Suc i) (bucketArray u) @ map (map (mark_when P)) (drop (Suc i) (bucketArray u))"
    using Suc.hyps(1) [OF _ fr(1,2)] by blast
  have "take (Suc i) (bucketArray u) = take i ?bs @ [map (mark_when P) (?bs ! i)]"
    using i len by (simp add: u(3) take_Suc_conv_app_nth)
  then have "bucketArray v = take i ?bs @ map (map (mark_when P)) (drop i ?bs)" using v(3) by (simp add: du d)
  moreover have "foreach_loop (remove_when grant P) i (chain_at t i) t seen =
      Some (True, v, seen @ map shown (concat (drop i ?bs)))"
    using u(1) v(1) i fr(3) by (simp add: chain_at_def foreach_loop_next d du)
  moreover have "same_frame t v" using u(2) v(2) by (simp add: same_frame_def)
  ultimately show ?case by blast
qed

lemma live_marked: "marked_in ps = [] \<Longrightarrow>
    live_in (map (mark_when P) ps) = filter (\<lambda>p. \<not> P (pair_key p) (pair_value p)) ps"
  by (induction ps) (auto simp: mark_when_def split: if_splits)

lemma marked_in_concat: "marked_in (concat bss) = [] \<longleftrightarrow> (\<forall>ps \<in> set bss. marked_in ps = [])"
  by (induction bss) simp_all

lemma live_in_concat: "live_in (concat bss) = concat (map live_in bss)"
  by (induction bss) simp_all

lemma live_all: "marked_in ps = [] \<Longrightarrow> live_in ps = ps"
  by (induction ps) (auto split: if_splits)

lemma Foreach_removes:
  assumes inv: "inv t" and level: "foreachRecursionLevel t = 0" and small: "length (pairs t) < 2 ^ 32"
  shows "\<exists>t'. HashTable_Foreach (remove_when grant P) t [] = Some (True, t', map shown (pairs t)) \<and> inv t' \<and>
    foreachRecursionLevel t' = 0 \<and> pairs t' = filter (\<lambda>p. \<not> P (pair_key p) (pair_value p)) (pairs t)"
proof -
  let ?t = "t\<lparr>foreachRecursionLevel := 1\<rparr>" and ?bs = "bucketArray t"
  have live: "marked_in (pairs t) = []" using inv level by (simp add: inv_parts counted_def)
  have i: "inv ?t" using inv by (simp add: inv_parts counted_def uses_objects_def live)
  obtain u where u: "foreach_loop (remove_when grant P) 0 (chain_at ?t 0) ?t [] = Some (True, u, map shown (pairs t))"
    "same_frame ?t u" "bucketArray u = map (map (mark_when P)) ?bs"
    using buckets_loop [OF i, of 0 grant P "[]"] live by (auto simp: pairs_def)
  have fr: "inv u" "foreachRecursionLevel u = 1" using u(2) by (simp_all add: same_frame_def)
  have pu: "pairs u = map (mark_when P) (pairs t)" by (simp add: pairs_def u(3) map_concat)
  then have lu: "live_in (pairs u) = filter (\<lambda>p. \<not> P (pair_key p) (pair_value p)) (pairs t)"
    using live_marked [OF live] by simp
  have pend: "pendingRemoves u = of_nat (length (marked_in (pairs u)))" using fr(1) by (simp add: inv_parts counted_def)
  have ct: "numOfElements u = of_nat (length (live_in (pairs u)))" using fr(1) by (simp add: inv_parts counted_def)
  let ?u = "u\<lparr>foreachRecursionLevel := 0\<rparr>"
  have run: "HashTable_Foreach (remove_when grant P) t [] = Some (True,
      if pendingRemoves u \<noteq> 0 then (sweep_buckets (?u\<lparr>freed := []\<rparr>) [0..<numOfBuckets u])\<lparr>pendingRemoves := 0\<rparr> else ?u,
      map shown (pairs t))"
    using u(1) level fr(2) by (simp add: HashTable_Foreach_def Let_def)
  show ?thesis
  proof (cases "pendingRemoves u = 0")
    case True
    have "length (marked_in (pairs u)) < 2 ^ 32"
      unfolding marked_in_def by (rule le_less_trans [OF length_filter_le]) (use small in \<open>simp add: pu\<close>)
    then have "unat (pendingRemoves u) = length (marked_in (pairs u))"
      unfolding pend unat_of_nat by (simp add: take_bit_nat_eq_self)
    then have "marked_in (pairs u) = []" using True by simp
    moreover from this have "pairs u = filter (\<lambda>p. \<not> P (pair_key p) (pair_value p)) (pairs t)"
      using live_all [of "pairs u"] lu by simp
    moreover have "inv ?u" using fr(1) calculation(1) by (simp add: inv_parts counted_def uses_objects_def)
    ultimately show ?thesis using run True by (intro exI [of _ ?u]) simp
  next
    case False
    have n: "length (bucketArray u) = numOfBuckets u" using fr(1) by (simp add: inv_parts placed_def)
    obtain g where "sweep_buckets (?u\<lparr>freed := []\<rparr>) [0..<numOfBuckets u] = (?u\<lparr>freed := []\<rparr>)\<lparr>bucketArray :=
        foldl (\<lambda>bs i. bs[i := live_in (bs ! i)]) (bucketArray (?u\<lparr>freed := []\<rparr>)) [0..<numOfBuckets u], freed := g\<rparr>"
      using sweep_buckets_keeps by blast
    then have sw: "sweep_buckets (?u\<lparr>freed := []\<rparr>) [0..<numOfBuckets u] =
        ?u\<lparr>bucketArray := map live_in (bucketArray u), freed := g\<rparr>"
      using update_all [of live_in "bucketArray u"] n by simp
    let ?v = "?u\<lparr>bucketArray := map live_in (bucketArray u), freed := g, pendingRemoves := 0\<rparr>"
    have pv: "pairs ?v = live_in (pairs u)" by (simp add: pairs_def live_in_concat)
    have "placed ?v" using fr(1) by (auto simp: inv_parts placed_def bucket_of_def set_live_in)
    moreover have "counted ?v"
    proof -
      have "live_in (live_in ps) = live_in ps" "marked_in (live_in ps) = []" for ps :: "'p wKeyValuePair list"
        by (simp_all add: live_in_def marked_in_def)
      then show ?thesis using ct unfolding counted_def pv by simp
    qed
    moreover have "distinct (map rep (pairs ?v))" "distinct (map pair_addr (pairs ?v))"
      "\<forall>p \<in> set (pairs ?v). owned p \<and> pair_addr p < next_addr ?v"
      using fr(1) unfolding pv by (auto simp: inv_parts live_in_def distinct_map_filter)
    ultimately have "inv ?v" using fr(1) by (simp add: inv_parts uses_objects_def)
    then show ?thesis using run False sw pv lu by (intro exI [of _ ?v]) simp
  qed
qed

end

end
