(* ===== verification/HashTableUse.thy ===== *)
theory HashTableUse
  imports HashTableForeach
begin

text \<open>
  The hash table as its clients use it: sequences of operations on the tables of pointers and of strings, and what goes
  wrong during an iteration that is stopped or removes an entry twice.
\<close>

section \<open>Sequences of operations\<close>

datatype 'p table_op = Insert_op 'p 'p | Remove_op 'p | SetItemValue_op 'p 'p | Clear_op

fun table_step :: "(nat \<Rightarrow> bool) \<Rightarrow> 'p table_op \<Rightarrow> 'p wHashTable \<Rightarrow> 'p wHashTable option" where
  "table_step grant (Insert_op k v) t = map_option snd (HashTable_Insert grant t (Some k) (Some v))"
| "table_step grant (Remove_op k) t = Some (snd (HashTable_Remove grant t (Some k)))"
| "table_step grant (SetItemValue_op k v) t = map_option snd (HashTable_SetItemValue t (Some k) (Some v))"
| "table_step grant Clear_op t = HashTable_Clear grant t"

fun table_run :: "(nat \<Rightarrow> bool) \<Rightarrow> 'p table_op list \<Rightarrow> 'p wHashTable \<Rightarrow> 'p wHashTable option" where
  "table_run grant [] t = Some t"
| "table_run grant (x # xs) t = Option.bind (table_step grant x t) (table_run grant xs)"

text \<open>The abstract map, over what keys and values stand for.\<close>

fun map_step :: "('p \<Rightarrow> 'c) \<Rightarrow> ('p \<Rightarrow> 'w) \<Rightarrow> 'p table_op \<Rightarrow> ('c \<rightharpoonup> 'w) \<Rightarrow> ('c \<rightharpoonup> 'w)" where
  "map_step krep vrep (Insert_op k v) m = m(krep k \<mapsto> vrep v)"
| "map_step krep vrep (Remove_op k) m = m(krep k := None)"
| "map_step krep vrep (SetItemValue_op k v) m = (if m (krep k) = None then m else m(krep k \<mapsto> vrep v))"
| "map_step krep vrep Clear_op m = Map.empty"

fun map_run :: "('p \<Rightarrow> 'c) \<Rightarrow> ('p \<Rightarrow> 'w) \<Rightarrow> 'p table_op list \<Rightarrow> ('c \<rightharpoonup> 'w) \<Rightarrow> ('c \<rightharpoonup> 'w)" where
  "map_run krep vrep [] m = m"
| "map_run krep vrep (x # xs) m = map_run krep vrep xs (map_step krep vrep x m)"

fun op_args :: "'p table_op \<Rightarrow> 'p set" where
  "op_args (Insert_op k v) = {k, v}"
| "op_args (Remove_op k) = {k}"
| "op_args (SetItemValue_op k v) = {k, v}"
| "op_args Clear_op = {}"

context table_objects
begin

lemma step_ok:
  assumes "inv t" "foreachRecursionLevel t = 0" "grant 32" "\<forall>p \<in> op_args x. \<not> own p"
  shows "\<exists>t'. table_step grant x t = Some t' \<and> inv t' \<and> foreachRecursionLevel t' = 0 \<and>
    tmap t' = map_step krep (\<lambda>v. vrep (Some v)) x (tmap t)"
proof (cases x)
  case (Insert_op k v)
  then show ?thesis using Insert_ok [OF assms(1), of k v grant] assms(2-4) by fastforce
next
  case (Remove_op k)
  then show ?thesis using Remove_ok [OF assms(1), of k grant] assms(2) by auto
next
  case (SetItemValue_op k v)
  then show ?thesis using SetItemValue_ok [OF assms(1), of "Some v" k] assms(2,4)
    by (fastforce simp: foreign_def)
next
  case Clear_op
  then show ?thesis using Clear_ok [OF assms(1,2), of grant] by auto
qed

lemma run_ok:
  "inv t \<Longrightarrow> foreachRecursionLevel t = 0 \<Longrightarrow> grant 32 \<Longrightarrow> \<forall>x \<in> set xs. \<forall>p \<in> op_args x. \<not> own p \<Longrightarrow>
    \<exists>t'. table_run grant xs t = Some t' \<and> inv t' \<and> foreachRecursionLevel t' = 0 \<and>
      tmap t' = map_run krep (\<lambda>v. vrep (Some v)) xs (tmap t)"
proof (induction xs arbitrary: t)
  case (Cons x xs)
  obtain u where u: "table_step grant x t = Some u" "inv u" "foreachRecursionLevel u = 0"
    "tmap u = map_step krep (\<lambda>v. vrep (Some v)) x (tmap t)"
    using step_ok [where grant = grant and x = x, OF Cons.prems(1,2,3)] Cons.prems(4) by auto
  then show ?case using Cons.IH [OF u(2,3) Cons.prems(3)] Cons.prems(4) by simp
qed simp

lemma inv_empty:
  assumes "uses_objects K V h t" "0 < numOfBuckets t" "bucketArray t = replicate (numOfBuckets t) []"
    "numOfElements t = 0" "pendingRemoves t = 0"
  shows "inv t" "tmap t = Map.empty"
  using assms by (simp_all add: inv_parts placed_def counted_def pairs_def table_map_def)

end

section \<open>Tables of pointers and of strings\<close>

text \<open>A table of strings copies keys and values to addresses \<open>alloc\<close> chooses.\<close>

definition own_string :: "(cstring \<Rightarrow> nat) \<Rightarrow> cstring \<Rightarrow> bool" where
  "own_string alloc s \<longleftrightarrow> fst s \<in> range alloc"

definition string_table :: "(cstring \<Rightarrow> u64) \<Rightarrow> (cstring \<Rightarrow> nat) \<Rightarrow> (nat \<Rightarrow> bool) \<Rightarrow> bool \<Rightarrow> cstring wHashTable option" where
  "string_table addr alloc grant lock =
     map_option (\<lambda>t. HashTable_SetupForStringData (Some \<circ> alloc) t True) (HashTable_New addr grant lock)"

interpretation pointers: table_objects pointer_object pointer_object "HashTable_PointerHash addr" "\<lambda>p. p" "\<lambda>v. v"
    "\<lambda>_. False" for addr
  by unfold_locales (simp_all add: pointer_object_def HashTable_PointerCompare_def)

interpretation strings: table_objects "string_object (Some \<circ> alloc)" "string_object (Some \<circ> alloc)" HashTable_StringHash
    snd "map_option snd" "own_string alloc" for alloc
  by unfold_locales (auto simp: string_object_def HashTable_StringCompare_def HashTable_StringHash_def
    HashTable_StringClone_def own_string_def split: option.splits)

interpretation string_keys: table_objects "string_object (Some \<circ> alloc)" pointer_object HashTable_StringHash
    snd "\<lambda>v. v" "own_string alloc" for alloc
  by unfold_locales (auto simp: string_object_def pointer_object_def HashTable_StringCompare_def HashTable_StringHash_def
    HashTable_StringClone_def own_string_def split: option.splits)

lemma New_starts:
  assumes "HashTable_New addr grant lock = Some t"
  shows "pointers.inv addr t" "foreachRecursionLevel t = 0" "table_map (\<lambda>p. p) (\<lambda>v. v) t = Map.empty"
proof -
  have t: "uses_objects pointer_object pointer_object (HashTable_PointerHash addr) t" "0 < numOfBuckets t"
    "bucketArray t = replicate (numOfBuckets t) []" "numOfElements t = 0" "pendingRemoves t = 0"
    "foreachRecursionLevel t = 0"
    using assms by (auto simp: HashTable_New_def uses_objects_def split: if_splits)
  then show "foreachRecursionLevel t = 0" by simp
  show "pointers.inv addr t" "table_map (\<lambda>p. p) (\<lambda>v. v) t = Map.empty"
    using pointers.inv_empty [OF t(1-5)] by simp_all
qed

lemma string_table_starts:
  assumes "string_table addr alloc grant lock = Some t"
  shows "strings.inv alloc t" "foreachRecursionLevel t = 0" "table_map snd (map_option snd) t = Map.empty"
proof -
  obtain u where u: "HashTable_New addr grant lock = Some u"
    "t = HashTable_SetupForStringData (Some \<circ> alloc) u True" using assms by (auto simp: string_table_def)
  have t: "uses_objects (string_object (Some \<circ> alloc)) (string_object (Some \<circ> alloc)) HashTable_StringHash t"
    "0 < numOfBuckets t" "bucketArray t = replicate (numOfBuckets t) []" "numOfElements t = 0" "pendingRemoves t = 0"
    "foreachRecursionLevel t = 0"
    using u by (auto simp: HashTable_New_def uses_objects_def HashTable_SetupForStringData_def
      HashTable_SetHashFunction_def split: if_splits)
  then show "foreachRecursionLevel t = 0" by simp
  show "strings.inv alloc t" "table_map snd (map_option snd) t = Map.empty"
    using strings.inv_empty [OF t(1-5)] by simp_all
qed

text \<open>Values are never null in these sequences, so the map of strings is one of plain byte lists.\<close>

lemma map_run_some:
  "map_run krep (\<lambda>v. Some (f v)) xs (\<lambda>k. map_option Some (m k)) = (\<lambda>k. map_option Some (map_run krep f xs m k))"
proof (induction xs arbitrary: m)
  case (Cons x xs)
  have "map_step krep (\<lambda>v. Some (f v)) x (\<lambda>k. map_option Some (m k)) = (\<lambda>k. map_option Some (map_step krep f x m k))"
    by (cases x) auto
  then show ?case by (simp add: Cons.IH)
qed simp

section \<open>Iterations that go wrong\<close>

text \<open>A chain cannot be cleared while the recursion level is not zero.\<close>

lemma clear_chain_diverges:
  assumes "clear_chain t chain = Some u"
  shows "foreachRecursionLevel t \<noteq> 0 \<longrightarrow> chain = []"
proof (rule clear_chain.raw_induct [OF _ assms, where P = "\<lambda>t chain u. foreachRecursionLevel t \<noteq> 0 \<longrightarrow> chain = []"])
  fix f :: "'p wHashTable \<Rightarrow> 'p wKeyValuePair list \<Rightarrow> 'p wHashTable option" and t chain u
  assume IH: "\<And>t chain u. f t chain = Some u \<Longrightarrow> foreachRecursionLevel t \<noteq> 0 \<longrightarrow> chain = []"
    and r: "(case chain of [] \<Rightarrow> Some t | pair # rest \<Rightarrow>
      if foreachRecursionLevel t \<noteq> 0
      then f (t\<lparr>pendingRemoves := pendingRemoves t + 1\<rparr>) (pair\<lparr>markedForRemove := True\<rparr> # rest)
      else f (disposePair t pair) rest) = Some u"
  show "foreachRecursionLevel t \<noteq> 0 \<longrightarrow> chain = []"
    using r IH [of "t\<lparr>pendingRemoves := pendingRemoves t + 1\<rparr>"] by (cases chain) (auto split: if_splits)
qed

lemma clear_chain_stuck:
  "foreachRecursionLevel t \<noteq> 0 \<Longrightarrow> chain \<noteq> [] \<Longrightarrow> clear_chain t chain = None"
  using clear_chain_diverges [of t chain] by (cases "clear_chain t chain") auto

lemma clear_chain_level:
  "foreachRecursionLevel t \<noteq> 0 \<Longrightarrow> clear_chain t chain = (if chain = [] then Some t else None)"
  using clear_chain_stuck by (cases chain) (auto simp: clear_chain.simps [of t "[]"])

lemma clear_buckets_stuck:
  "foreachRecursionLevel t \<noteq> 0 \<Longrightarrow> i \<in> set is \<Longrightarrow> distinct is \<Longrightarrow> bucketArray t ! i \<noteq> [] \<Longrightarrow> clear_buckets t is = None"
proof (induction "is" arbitrary: t)
  case (Cons j "is")
  show ?case
  proof (cases "bucketArray t ! j = []")
    case True
    then have "i \<in> set is" using Cons.prems(2,4) by auto
    moreover have "j \<noteq> i" using Cons.prems(3) calculation by auto
    ultimately show ?thesis
      using True Cons.prems Cons.IH [of "t\<lparr>bucketArray := (bucketArray t)[j := []]\<rparr>"]
      by (simp add: clear_chain_level)
  qed (use Cons.prems(1) in \<open>simp add: clear_chain_level\<close>)
qed simp

lemma Clear_stuck:
  assumes t: "placed t" "foreachRecursionLevel t \<noteq> 0" "pairs t \<noteq> []"
  shows "HashTable_Clear grant t = None"
proof -
  obtain i where i: "i < length (bucketArray t)" "bucketArray t ! i \<noteq> []"
    using t(3) unfolding pairs_def by (metis concat_eq_Nil_conv in_set_conv_nth)
  then have "clear_buckets (t\<lparr>freed := []\<rparr>) [0..<numOfBuckets t] = None"
    using t(1,2) by (intro clear_buckets_stuck [of _ i]) (simp_all add: placed_def)
  then show ?thesis by (simp add: HashTable_Clear_def)
qed

text \<open>A callback that looks for an entry and stops there.\<close>

definition stop_at :: "('p option \<Rightarrow> 'p option \<Rightarrow> bool) \<Rightarrow> ('p, 'a) HASH_TABLE_FOREACH_FN" where
  "stop_at P key value t arg = Some (\<not> P key value, t, arg)"

definition stops :: "('p option \<Rightarrow> 'p option \<Rightarrow> bool) \<Rightarrow> 'p wKeyValuePair list \<Rightarrow> bool" where
  "stops P ps \<longleftrightarrow> (\<exists>p \<in> set ps. \<not> markedForRemove p \<and> P (pair_key p) (pair_value p))"

lemma stops_simps [simp]:
  "\<not> stops P []" "stops P (p # ps) \<longleftrightarrow> \<not> markedForRemove p \<and> P (pair_key p) (pair_value p) \<or> stops P ps"
  "stops P (ps @ qs) \<longleftrightarrow> stops P ps \<or> stops P qs"
  by (auto simp: stops_def)

lemma search_chain:
  assumes t: "distinct (map pair_addr (pairs t))" "i < numOfBuckets t" "i < length (bucketArray t)"
  shows "bucketArray t ! i = before @ rest \<Longrightarrow> foreach_loop (stop_at P) i rest t arg =
    (if stops P rest then Some (False, t, arg) else foreach_loop (stop_at P) i [] t arg)"
proof (induction rest arbitrary: before)
  case (Cons p rest)
  note IH = Cons.IH [of "before @ [p]"]
  show ?case
  proof (cases "markedForRemove p")
    case True
    then have "foreach_loop (stop_at P) i (p # rest) t arg = foreach_loop (stop_at P) i rest t arg"
      using t(2) by (subst foreach_loop.simps) simp
    then show ?thesis using True IH Cons.prems by simp
  next
    case False
    show ?thesis
    proof (cases "P (pair_key p) (pair_value p)")
      case True
      then show ?thesis using False t(2) by (subst foreach_loop.simps) (simp add: stop_at_def)
    next
      case no: False
      have "after_addr (bucketArray t) (pair_addr p) = Some rest"
        using after_addr_finds [OF _ t(3) Cons.prems] t(1) by (simp add: pairs_def)
      then have "foreach_loop (stop_at P) i (p # rest) t arg = foreach_loop (stop_at P) i rest t arg"
        using False no t(2) by (intro foreach_loop_pair) (simp_all add: stop_at_def)
      then show ?thesis using False no IH Cons.prems by simp
    qed
  qed
qed simp

lemma search_buckets:
  assumes t: "distinct (map pair_addr (pairs t))" "length (bucketArray t) = numOfBuckets t"
  shows "i \<le> numOfBuckets t \<Longrightarrow> foreach_loop (stop_at P) i (chain_at t i) t arg =
    Some (\<not> stops P (concat (drop i (bucketArray t))), t, arg)"
proof (induction "numOfBuckets t - i" arbitrary: i)
  case 0
  then show ?case using t(2) by (simp add: foreach_loop_end)
next
  case (Suc n)
  then have i: "i < numOfBuckets t" by simp
  have d: "drop i (bucketArray t) = bucketArray t ! i # drop (Suc i) (bucketArray t)"
    using i t(2) by (simp add: Cons_nth_drop_Suc)
  have "foreach_loop (stop_at P) (Suc i) (chain_at t (Suc i)) t arg =
      Some (\<not> stops P (concat (drop (Suc i) (bucketArray t))), t, arg)"
    using Suc.hyps(2) i by (intro Suc.hyps(1)) simp_all
  then show ?case using search_chain [OF t(1) i, of "[]" "bucketArray t ! i" P arg] i t(2)
    by (simp add: d chain_at_def foreach_loop_next)
qed

lemma search_stops:
  assumes "hash_inv krep own t" "stops P (pairs t)"
  shows "HashTable_Foreach (stop_at P) t arg = Some (False, t\<lparr>foreachRecursionLevel := foreachRecursionLevel t + 1\<rparr>, arg)"
proof -
  let ?t = "t\<lparr>foreachRecursionLevel := foreachRecursionLevel t + 1\<rparr>"
  have "distinct (map pair_addr (pairs ?t))" "length (bucketArray ?t) = numOfBuckets ?t"
    using assms(1) by (simp_all add: hash_inv_def entries_ok_def placed_def)
  from search_buckets [OF this, of 0 P arg] show ?thesis
    using assms(2) by (simp add: HashTable_Foreach_def pairs_def)
qed

text \<open>Removing an entry that is already marked counts it a second time.\<close>

context table_objects
begin

lemma marked_stays:
  assumes inv: "inv t" and level: "foreachRecursionLevel t \<noteq> 0"
    and w: "walk t (Some k) = p # rest" and r: "HashTable_Remove grant t (Some k) = (True, t1)" "inv t1"
  shows "walk t1 (Some k) \<noteq> []"
proof
  assume none: "walk t1 (Some k) = []"
  let ?p = "p\<lparr>markedForRemove := True\<rparr>"
  have "t1 = t\<lparr>freed := [],
      bucketArray := (bucketArray t)[bucket_of t (Some k) := passed t (Some k) @ ?p # rest],
      pendingRemoves := pendingRemoves t + 1, numOfElements := numOfElements t - 1\<rparr>"
    using r(1) level w by (simp add: HashTable_Remove_def Let_def)
  moreover obtain A B where "concat ((bucketArray t)[bucket_of t (Some k) := passed t (Some k) @ ?p # rest]) =
      A @ (passed t (Some k) @ ?p # rest) @ B"
    using bucket_split [of t "Some k"] inv by (metis inv_parts)
  ultimately have "?p \<in> set (pairs t1)" by simp
  moreover have "rep ?p = krep k" using walk_hit(1) [OF inv w] by (simp add: pair_rep_def)
  ultimately show False using walk_miss [OF r(2) none] by force
qed

lemma Remove_marked:
  assumes level: "foreachRecursionLevel t \<noteq> 0" and w: "walk t (Some k) = p # rest" and m: "markedForRemove p"
  shows "HashTable_Remove grant t (Some k) =
    (True, t\<lparr>freed := [], pendingRemoves := pendingRemoves t + 1, numOfElements := numOfElements t - 1\<rparr>)"
proof -
  have "bucketArray t ! bucket_of t (Some k) = passed t (Some k) @ p # rest"
    using chain_split [of t "Some k"] w by simp
  then have bs: "(bucketArray t)[bucket_of t (Some k) := passed t (Some k) @ p # rest] = bucketArray t"
    by (metis list_update_id)
  have "p\<lparr>markedForRemove := True\<rparr> = p" using m by (cases p) simp
  then show ?thesis unfolding HashTable_Remove_def Let_def using level bs by (simp add: w)
qed

lemma Remove_twice:
  assumes inv: "inv t" and level: "foreachRecursionLevel t \<noteq> 0" and k: "tmap t (krep k) \<noteq> None"
    and n: "3 \<le> card (dom (tmap t))" "card (dom (tmap t)) < 2 ^ 64" and g: "\<And>n. grant n"
  shows "HashTable_GetKeys grant (snd (HashTable_Remove grant (snd (HashTable_Remove grant t (Some k))) (Some k))) ppKeys = None"
proof -
  obtain t1 where r: "HashTable_Remove grant t (Some k) = (True, t1)" "inv t1" "tmap t1 = (tmap t)(krep k := None)"
    "foreachRecursionLevel t1 = foreachRecursionLevel t"
    using Remove_ok [OF inv, of k grant] k by auto
  let ?n = "card (dom (tmap t1))"
  have "finite (dom (tmap t))" by (simp add: table_map_def finite_dom_map_of)
  with k have c1: "?n = card (dom (tmap t)) - 1" by (simp add: r(3) card_Diff_singleton domIff)
  obtain p0 rest0 where "walk t (Some k) = p0 # rest0"
    using k walk_miss [OF inv] by (cases "walk t (Some k)") (auto simp: table_map_entries entry_map_other)
  from marked_stays [OF inv level this r(1,2)] obtain p rest where w: "walk t1 (Some k) = p # rest"
    by (cases "walk t1 (Some k)") auto
  have marked: "markedForRemove p" using tmap_entry [OF r(2) walk_hit(2) [OF r(2) w]] walk_hit(1) [OF r(2) w]
    by (auto simp: r(3) split: if_splits)
  let ?t2 = "t1\<lparr>freed := [], pendingRemoves := pendingRemoves t1 + 1, numOfElements := numOfElements t1 - 1\<rparr>"
  have t2: "HashTable_Remove grant t1 (Some k) = (True, ?t2)"
    using Remove_marked [OF _ w marked, of grant] level r(4) by simp
  have live: "length (live_in (pairs t1)) = ?n" by (rule live_card(3) [OF r(2)])
  have "numOfElements t1 = of_nat ?n" using r(2) live by (simp add: inv_parts counted_def)
  then have "numOfElements ?t2 = of_nat (?n - 1)" using c1 n(1) by simp
  moreover have "?n - 1 < 2 ^ 64" using c1 n(2) by simp
  ultimately have u: "unat (numOfElements ?t2) = ?n - 1" by (simp add: unat_of_nat take_bit_nat_eq_self del: of_nat_diff)
  then have "\<not> numOfElements ?t2 < 1" using c1 n(1) by (simp add: word_less_nat_alt)
  moreover have "collect_keys (replicate (?n - 1) None) 0 (pairs ?t2) = None"
    using live c1 n(1) by (intro collect_keys_overflow [of "?n - 1"]) simp_all
  ultimately show ?thesis using u g by (simp add: r(1) t2 HashTable_GetKeys_def Let_def)
qed

text \<open>\<^verbatim>\<open>HashTable_ContainsValue\<close> compares the value with the keys.\<close>

lemma ContainsValue_looks_at_keys:
  assumes inv: "inv t"
  shows "HashTable_ContainsValue t (Some v) = HashTable_ContainsKey t (Some v)"
proof -
  have eq: "HashTable_Equals t q (Some v) \<longleftrightarrow> rep q = krep v" if "q \<in> set (pairs t)" for q
    using inv_owned [OF inv that] inv_uses [OF inv] equal_rep
    by (auto simp: HashTable_Equals_def owned_def pair_rep_def uses_objects_def)
  have "HashTable_ContainsValue t (Some v) \<longleftrightarrow> (\<exists>p \<in> set (pairs t). \<not> markedForRemove p \<and> rep p = krep v)"
    using eq by (auto simp: HashTable_ContainsValue_def list_ex_iff)
  also have "\<dots> \<longleftrightarrow> krep v \<in> dom (tmap t)"
    using live_card(2) [OF inv] by (auto simp: set_live_in image_iff eq_commute)
  also have "\<dots> \<longleftrightarrow> HashTable_ContainsKey t (Some v)" using Contains_is_lookup(2) [OF inv] by (simp add: domIff)
  finally show ?thesis .
qed

end

text \<open>Setting an entry to the value it holds copies what has just been freed.\<close>

lemma SetItemValue_own_value:
  assumes "HashTable_GetItemValue t k = Some v" "fnObjectFree (value_object t)" "fnObjectNew (value_object t) \<noteq> None"
  shows "HashTable_SetItemValue t k (Some v) = None"
proof -
  obtain p rest where w: "walk t k = p # rest" "k \<noteq> None" "\<not> markedForRemove p" "pair_value p = Some v"
    using assms(1) by (auto simp: HashTable_GetItemValue_def HashTable_Get_def split: option.splits if_splits list.splits)
  moreover have "setValue (t\<lparr>freed := []\<rparr>) p (Some v) = None"
    using assms(2,3) w(4) by (auto simp: setValue_def disposeValue_def copy_object_def)
  ultimately show ?thesis by (simp add: HashTable_SetItemValue_def Let_def)
qed

text \<open>When the key cannot be copied, the insertion succeeds and the value is lost.\<close>

definition no_copies :: "cstring wHashTable" where
  "no_copies = HashTable_SetupForStringData (\<lambda>_. None) (the (HashTable_New (\<lambda>s. of_nat (fst s)) (\<lambda>_. True) True)) False"

text \<open>When the key cannot be copied, the insertion succeeds with a null key, and the value cannot be found.\<close>

lemma Insert_without_a_key:
  assumes t: "placed t" "pairs t = []" "key_object t = string_object strdup" and k: "strdup k = None"
    and v: "fnObjectNew (value_object t) = None" "fnObjectFree (value_object t) = False"
    and few: "element_ratio (t\<lparr>numOfElements := numOfElements t + 1\<rparr>) \<le> upperRehashThreshold t"
  shows "\<exists>t'. HashTable_Insert (\<lambda>_. True) t (Some k) (Some v) = Some (True, t') \<and>
    HashTable_Count t' = HashTable_Count t + 1 \<and> HashTable_GetItemValue t' (Some k) = None"
proof -
  let ?b = "bucket_of t (Some k)" and ?t = "t\<lparr>freed := []\<rparr>"
  have b: "?b < length (bucketArray t)" by (rule bucket_of_less [OF t(1)])
  then have e: "bucketArray t ! ?b = []" using t(2) by (auto simp: pairs_def)
  then have w: "walk t (Some k) = []" by (simp add: walk_def)
  let ?p = "\<lparr>pair_addr = next_addr t, pair_key = None, pair_value = None, markedForRemove = False\<rparr> :: cstring wKeyValuePair"
  let ?q = "?p\<lparr>pair_value := Some v\<rparr>"
  have sk: "setKey ?t ?p (Some k) = Some (?t\<lparr>freed := [None]\<rparr>, ?p)"
    using t(3) k by (simp add: setKey_def disposeKey_def copy_object_def string_object_def HashTable_StringClone_def)
  have sv: "setValue (?t\<lparr>freed := [None]\<rparr>) ?p (Some v) = Some (?t\<lparr>freed := [None]\<rparr>, ?q)"
    using v by (simp add: setValue_def disposeValue_def copy_object_def)
  let ?u = "t\<lparr>freed := [None], next_addr := next_addr t + 1, bucketArray := (bucketArray t)[?b := [?q]],
      numOfElements := numOfElements t + 1\<rparr>"
  have "\<not> element_ratio ?u > upperRehashThreshold t" using few by (simp add: element_ratio_def)
  then have run: "HashTable_Insert (\<lambda>_. True) t (Some k) (Some v) = Some (True, ?u)"
    unfolding HashTable_Insert_def Let_def by (simp add: w e sk [simplified] sv [simplified])
  have "bucket_of ?u (Some k) = ?b" by (simp add: bucket_of_def)
  then have "walk ?u (Some k) = []"
    using b t(3) by (simp add: walk_def HashTable_Equals_def string_object_def HashTable_StringCompare_def)
  then show ?thesis using run by (simp add: HashTable_Count_def HashTable_GetItemValue_def HashTable_Get_def)
qed

end
