(* ===== verification/BerUnicode.thy ===== *)
theory BerUnicode
  imports Ber Utf16
begin

text \<open>
  The functions of \<^verbatim>\<open>libfreerdp/crypto/ber.c\<close> that keep a string as UTF-16 in an octet string. \<open>conv\<close> is
  \<^verbatim>\<open>MultiByteToWideChar\<close> resp. \<^verbatim>\<open>WideCharToMultiByte\<close> for \<^verbatim>\<open>CP_UTF8\<close>, without the terminator; a string is the list of
  its units before the terminator.
\<close>

section \<open>Writing\<close>

text \<open>\<^verbatim>\<open>ConvertUtf8NToWCharAlloc\<close>: the conversion into a block of its own, with room for a terminator.\<close>

definition ConvertUtf8NToWCharAlloc :: "(u8 list \<Rightarrow> u16 list option) \<Rightarrow> (nat \<Rightarrow> bool) \<Rightarrow> u8 list \<Rightarrow> u16 list option" where
  "ConvertUtf8NToWCharAlloc conv grant str =
     (case conv str of None \<Rightarrow> None | Some us \<Rightarrow> if grant ((length us + 1) * 2) then Some us else None)"

text \<open>A failure of the last call is reported as 0 bytes; what was written before stays.\<close>

definition write_units ::
  "(u8 list \<Rightarrow> u16 list option) \<Rightarrow> nat \<Rightarrow> u8 list \<Rightarrow> nat \<Rightarrow> nat parser" where
  "write_units conv n str reported s =
     (case Stream_Write_UTF16_String_From_UTF8 (ConvertUtf8NToWCharAlloc conv (grants s)) n str True s of
        Abort \<Rightarrow> Abort | Fail t \<Rightarrow> Ret 0 t | Ret _ t \<Rightarrow> Ret reported t)"

definition ber_write_char_to_unicode_octet_string :: "(u8 list \<Rightarrow> u16 list option) \<Rightarrow> u8 list \<Rightarrow> nat parser" where
  "ber_write_char_to_unicode_octet_string conv str =
     (case conv str of
        None \<Rightarrow> ret 0
      | Some us \<Rightarrow>
          let len = length us + 1 in
          bindp (ber_write_universal_tag BER_TAG_OCTET_STRING False) (\<lambda>a.
          bindp (ber_write_length (len * 2)) (\<lambda>b.
          write_units conv len str (a + b + len * 2))))"

definition ber_write_contextual_unicode_octet_string :: "u8 \<Rightarrow> u16 list \<Rightarrow> nat parser" where
  "ber_write_contextual_unicode_octet_string tag str =
     (let inner_len = ber_sizeof_octet_string (length str * 2) in
     bindp (ber_write_contextual_tag tag inner_len True) (\<lambda>a.
     bindp (ber_write_octet_string (wchar_bytes str)) (\<lambda>b. ret (a + b))))"

text \<open>The assertion is the one of the code: it asks for too little room.\<close>

definition ber_write_contextual_char_to_unicode_octet_string ::
  "(u8 list \<Rightarrow> u16 list option) \<Rightarrow> u8 \<Rightarrow> u8 list \<Rightarrow> nat parser" where
  "ber_write_contextual_char_to_unicode_octet_string conv tag str =
     (case conv str of
        None \<Rightarrow> ret 0
      | Some us \<Rightarrow>
          let len = length us; inner_len = ber_sizeof_octet_string (len * 2) in
          bindp Stream_GetRemainingCapacity (\<lambda>rem.
          bindp (winpr_assert (rem < ber_sizeof_contextual_tag inner_len + inner_len)) (\<lambda>_.
          bindp (ber_write_contextual_tag tag inner_len True) (\<lambda>a.
          bindp (ber_write_universal_tag BER_TAG_OCTET_STRING False) (\<lambda>b.
          bindp (ber_write_length (len * 2)) (\<lambda>c.
          write_units conv len str (a + b + c + len)))))))"

section \<open>Reading\<close>

text \<open>The copy has \<open>len + 2\<close> bytes and is terminated at unit \<open>len div 2\<close>, over the last byte of an odd length.\<close>

definition ber_read_unicode_octet_string :: "u16 list parser" where
  "ber_read_unicode_octet_string =
     bindp ber_read_octet_string_tag (\<lambda>len.
     bindp (Stream_CheckAndLogRequiredLength len) (\<lambda>_ s.
       bindp (require (grants s (len + 2))) (\<lambda>_.
       bindp (Stream_Read len) (\<lambda>bs. ret (wchars bs))) s))"

definition ber_read_char_from_unicode_octet_string :: "(u16 list \<Rightarrow> u8 list option) \<Rightarrow> u8 list parser" where
  "ber_read_char_from_unicode_octet_string conv =
     bindp ber_read_octet_string_tag (\<lambda>len. Stream_Read_UTF16_String_As_UTF8 conv (len div 2))"

section \<open>The readers stay inside their input\<close>

lemma reads_utf16_as_utf8 [reads_intros]: "reads_ok n (Stream_Read_UTF16_String_As_UTF8 conv w)"
  unfolding Stream_Read_UTF16_String_As_UTF8_def
  by (intro reads_intros) (simp_all add: reads_intros split: option.split)

lemma reads_ber_unicode_octet_string [reads_intros]: "reads_ok n ber_read_unicode_octet_string"
proof -
  have "reads_ok len (bindp (require (grants s (len + 2))) (\<lambda>_. bindp (Stream_Read len) (\<lambda>bs. ret (wchars bs))))" for s len
    by (intro reads_intros) simp_all
  from reads_state_choice [where f = "\<lambda>s. s", OF this]
  show ?thesis unfolding ber_read_unicode_octet_string_def
    by (intro reads_call [OF reads_ber_octet_string_tag] reads_check_bindp)
qed

lemma reads_ber_char_from_unicode [reads_intros]: "reads_ok n (ber_read_char_from_unicode_octet_string conv)"
  unfolding ber_read_char_from_unicode_octet_string_def
  by (intro reads_call [OF reads_ber_octet_string_tag] reads_intros)

section \<open>The inverted assertion\<close>

text \<open>A writer that, where it does not abort, stores \<open>k\<close> bytes.\<close>

definition stores :: "nat \<Rightarrow> 'a parser \<Rightarrow> bool" where
  "stores k m \<longleftrightarrow> (\<forall>s. case m s of Abort \<Rightarrow> True | Fail t \<Rightarrow> False
     | Ret x t \<Rightarrow> pointer t = pointer s + k \<and> pointer t \<le> Stream_Capacity t \<and> Stream_Capacity t = Stream_Capacity s)"

lemma stores_store: "stores (length bs) (stream_store bs)"
  by (auto simp: stores_def stream_store_def bindp_def Stream_GetRemainingCapacity_def winpr_assert_def put_def
      Stream_Capacity_def overwrite_def split: outcome.splits)

lemma stores_bindp:
  assumes "stores j m" and "\<And>x. stores k (c x)" shows "stores (j + k) (bindp m c)"
  unfolding stores_def
proof
  fix s
  show "case bindp m c s of Abort \<Rightarrow> True | Fail t \<Rightarrow> False
     | Ret x t \<Rightarrow> pointer t = pointer s + (j + k) \<and> pointer t \<le> Stream_Capacity t \<and> Stream_Capacity t = Stream_Capacity s"
    using assms(1) [unfolded stores_def, rule_format, of s] assms(2) [unfolded stores_def, rule_format]
    by (cases "m s") (fastforce simp: bindp_def split: outcome.splits)+
qed

lemma stores_then_ret: "stores k m \<Longrightarrow> stores k (bindp m (\<lambda>x. ret (f x)))"
  unfolding stores_def bindp_def by (fastforce split: outcome.splits)

lemma stores_behind_assert:
  "stores k m \<Longrightarrow> stores k (bindp (assert_room n) (\<lambda>_. m))" "stores k m \<Longrightarrow> stores k (bindp (winpr_assert b) (\<lambda>_. m))"
  by (auto simp: stores_def assert_room_def bindp_def Stream_GetRemainingCapacity_def winpr_assert_def)

lemma stores_u8: "stores 1 (Stream_Write_UINT8_unchecked v)" "stores 2 (Stream_Write_UINT16_BE_unchecked w)"
  using stores_store [of "[v]"] stores_store [of "winpr_Data_Write_UINT16_BE w"]
  by (simp_all add: Stream_Write_UINT8_unchecked_def Stream_Write_UINT16_BE_unchecked_def)

lemma stores_universal_tag: "stores 1 (ber_write_universal_tag tag pc)"
  unfolding ber_write_universal_tag_def by (intro stores_then_ret stores_u8)

lemma stores_length: "stores (ber_sizeof_length len) (ber_write_length len)"
proof -
  have "stores (1 + 2) (bindp (Stream_Write_UINT8_unchecked v) (\<lambda>_. bindp (Stream_Write_UINT16_BE_unchecked w) (\<lambda>_. ret x)))"
    for v w and x :: nat
    by (intro stores_bindp stores_then_ret stores_u8)
  then have 3: "stores 3 (bindp (Stream_Write_UINT8_unchecked v) (\<lambda>_. bindp (Stream_Write_UINT16_BE_unchecked w) (\<lambda>_. ret x)))"
    for v w and x :: nat by (simp only: numeral_3_eq_3 plus_1_eq_Suc numeral_2_eq_2)
  have "stores (1 + 1) (bindp (Stream_Write_UINT8_unchecked v) (\<lambda>_. bindp (Stream_Write_UINT8_unchecked w) (\<lambda>_. ret x)))"
    for v w and x :: nat
    by (intro stores_bindp stores_then_ret stores_u8)
  then have 2: "stores 2 (bindp (Stream_Write_UINT8_unchecked v) (\<lambda>_. bindp (Stream_Write_UINT8_unchecked w) (\<lambda>_. ret x)))"
    for v w and x :: nat by (simp only: one_add_one)
  consider "len > 0xFF" | "\<not> len > 0xFF" "len > 0x7F" | "\<not> len > 0xFF" "\<not> len > 0x7F" by blast
  then show ?thesis
    unfolding ber_write_length_def ber_sizeof_length_def
    by cases (simp_all only: if_True if_False simp_thms, (intro stores_behind_assert stores_then_ret stores_u8 2 3)+)
qed

lemma stores_contextual_tag: "stores (ber_sizeof_contextual_tag len) (ber_write_contextual_tag tag len pc)"
  unfolding ber_write_contextual_tag_def ber_sizeof_contextual_tag_def
  by (intro stores_behind_assert stores_bindp stores_u8 stores_then_ret stores_length)

text \<open>The contextual writer never writes a string: with room enough it aborts, and without it what it writes is
  cut off and it reports 0.\<close>

lemma contextual_char_is_never_written:
  assumes "pointer s \<le> Stream_Capacity s"
  shows "case ber_write_contextual_char_to_unicode_octet_string conv tag str s of
      Abort \<Rightarrow> True | Fail t \<Rightarrow> False | Ret n t \<Rightarrow> n = 0"
proof (cases "conv str")
  case (Some us)
  let ?n = "length us * 2"
  let ?inner = "ber_sizeof_octet_string ?n"
  let ?h = "ber_sizeof_contextual_tag ?inner + (1 + ber_sizeof_length ?n)"
  let ?headers = "bindp (ber_write_contextual_tag tag ?inner True) (\<lambda>a.
          bindp (ber_write_universal_tag BER_TAG_OCTET_STRING False) (\<lambda>b.
          bindp (ber_write_length ?n) (\<lambda>c. ret (a + b + c + length us))))"
  have run: "ber_write_contextual_char_to_unicode_octet_string conv tag str s =
      bindp (winpr_assert (Stream_Capacity s - pointer s < ?h + ?n)) (\<lambda>_. bindp ?headers (write_units conv (length us) str)) s"
    using Some assms by (simp add: ber_write_contextual_char_to_unicode_octet_string_def Let_def bindp_def
        Stream_GetRemainingCapacity_def ber_sizeof_octet_string_def add_ac split: outcome.split)
  show ?thesis
  proof (cases "Stream_Capacity s - pointer s < ?h + ?n")
    case True
    have "stores ?h ?headers" by (intro stores_bindp stores_contextual_tag stores_universal_tag stores_then_ret stores_length)
    then have h: "case ?headers s of Abort \<Rightarrow> True | Fail t \<Rightarrow> False | Ret x t \<Rightarrow> pointer t = pointer s + ?h \<and>
        pointer t \<le> Stream_Capacity t \<and> Stream_Capacity t = Stream_Capacity s" by (simp only: stores_def)
    show ?thesis
    proof (cases "?headers s")
      case (Ret x t)
      with h True have "(Stream_Capacity t - pointer t) div 2 < length us" "pointer t \<le> Stream_Capacity t" by auto
      then have "write_units conv (length us) str x t = Ret 0 t"
        by (simp add: write_units_def Stream_Write_UTF16_String_From_UTF8_def Stream_CheckAndLogRequiredCapacityOfSize_def
            bindp_def Stream_GetRemainingCapacity_def)
      with Ret True run show ?thesis by (simp add: bindp_def)
    qed (use h True run in \<open>auto simp: bindp_def\<close>)
  qed (use run in \<open>simp add: bindp_def winpr_assert_def\<close>)
qed (simp add: ber_write_contextual_char_to_unicode_octet_string_def)

end
