(* ===== verification/Spec2Isabelle.thy ===== *)
theory Spec2Isabelle
  imports McsConnect GccLimits BufferedBio NegoRun NegoServer MppcStep HashTableUse BerUnicode
begin

text \<open>
  A model of the connection core of FreeRDP: the C code under \<^verbatim>\<open>src/libfreerdp\<close> and
  \<^verbatim>\<open>src/winpr\<close> that turns bytes of a peer into protocol steps. The theories follow the files
  of the code, from the bottom up.

  \<^item> \<^verbatim>\<open>Prelude\<close>: what a C function can do. A run ends with a result (\<open>Ret\<close>), a reported
    failure (\<open>Fail\<close>, a \<^verbatim>\<open>FALSE\<close> or error code, with the state it leaves) or an abort (\<open>Abort\<close>, a
    failed \<^verbatim>\<open>WINPR_ASSERT\<close>). \<open>bindp\<close> sequences such runs; \<open>triple\<close> is a Hoare triple over them.
  \<^item> \<^verbatim>\<open>Endian\<close>, \<^verbatim>\<open>Stream\<close>: \<^verbatim>\<open>winpr/endian.h\<close> and the \<^verbatim>\<open>wStream\<close> of \<^verbatim>\<open>winpr/stream.h\<close> and
    \<^verbatim>\<open>libwinpr/utils/stream.c\<close>, a byte buffer with a position and a length. An access outside of
    the buffer is an abort, because the code asserts it.
  \<^item> \<^verbatim>\<open>Wire\<close>: how readers and writers are specified: \<open>emits m bs x\<close> says that a writer appends
    \<open>bs\<close>, \<open>parses m bs ys x\<close> that a reader takes \<open>bs\<close> off the front of the rest, \<open>reads_ok\<close> that a
    reader of untrusted bytes neither aborts nor leaves them; the locale \<open>wire_format\<close> derives
    the round trips from the first two.
  \<^item> \<^verbatim>\<open>Utf16\<close>: the UTF-16 strings of a stream, in \<^verbatim>\<open>libwinpr/utils/stream.c\<close>; the character conversion
    is a parameter.
  \<^item> \<^verbatim>\<open>Per\<close>, \<^verbatim>\<open>Ber\<close>: \<^verbatim>\<open>libfreerdp/crypto/per.c\<close> and \<^verbatim>\<open>ber.c\<close>; \<^verbatim>\<open>BerUnicode\<close>: the strings of
    \<^verbatim>\<open>ber.c\<close>, which go through the character conversion; \<^verbatim>\<open>Tpkt\<close>: \<^verbatim>\<open>core/tpkt.c\<close> and \<^verbatim>\<open>core/tpdu.c\<close>.
  \<^item> \<^verbatim>\<open>McsPdu\<close>, \<^verbatim>\<open>Mcs\<close>: \<^verbatim>\<open>core/mcs.c\<close>, the domain PDUs in both directions, the domain
    parameters and their merge, the writers of the connect PDUs. The transport is a parameter: a function that
    takes the sealed stream. The locale \<open>mcs_pdu\<close> is the contract between the sender and the
    receiver of one PDU, interpreted on each of them.
  \<^item> \<^verbatim>\<open>Settings\<close>, \<^verbatim>\<open>Encryption\<close>: the part of \<^verbatim>\<open>rdpSettings\<close> the conference exchange works on, and the setters
    it calls; programs over the MCS state, the settings and a packet.
    \<^verbatim>\<open>GccCore\<close>, \<^verbatim>\<open>Gcc\<close>: \<^verbatim>\<open>core/gcc.c\<close>, every data block in both directions, the loops over the blocks and the
    conference create request and response, with the certificate, the character conversions and the random
    source in the record \<open>gcc_env\<close>. \<^verbatim>\<open>GccFacts\<close>: the judgement \<open>keeps\<close> of handlers that keep an invariant
    inside a packet, and \<open>gcc_wf\<close>, the shape of the arrays, kept by every reader. \<^verbatim>\<open>GccWire\<close>: \<open>hparses\<close> and
    \<open>appends\<close>, the specifications of handlers that read and of writers whose stream grows. \<^verbatim>\<open>GccBlocks\<close>,
    \<^verbatim>\<open>GccPeers\<close>: each block as it is written, and what the other side makes of it (\<open>core_received\<close>,
    \<open>network_received\<close>, \<open>ids_received\<close>, \<open>monitors_taken\<close>, ...). \<^verbatim>\<open>GccExchange\<close>, \<^verbatim>\<open>GccAnswer\<close>: the loops and the
    two PDUs; \<open>numbered_mcs\<close> is what both sides have agreed on. \<^verbatim>\<open>GccLimits\<close>: capabilities, encryption, and what
    is refused. \<^verbatim>\<open>McsConnect\<close>: the connect initial and the connect response of \<^verbatim>\<open>core/mcs.c\<close>, received and
    sent, and \<open>connect_exchange\<close>, one round of them.
  \<^item> \<^verbatim>\<open>ConnState\<close>, \<^verbatim>\<open>Connection\<close>: \<^verbatim>\<open>core/state.c\<close> and the part of \<^verbatim>\<open>core/connection.c\<close> that the MCS
    layer drives. What the sequence calls in other components is the record \<open>hooks\<close>.
  \<^item> \<^verbatim>\<open>Handler\<close>: programs over the state of a component and the stream of a packet, and the
    judgements that they stay inside the packet.
  \<^item> \<^verbatim>\<open>Nego\<close>: \<^verbatim>\<open>core/nego.c\<close> and \<^verbatim>\<open>core/nego.h\<close>, the negotiation of the security protocol by client
    and server over the record \<open>net\<close> of the transport functions it calls. \<^verbatim>\<open>NegoFacts\<close>: the loop of
    the client ends and selects an enabled protocol; \<^verbatim>\<open>NegoWire\<close>: request and answer byte by byte, and
    what the other side makes of them; \<^verbatim>\<open>NegoServer\<close>: the server stays inside the request;
    \<^verbatim>\<open>NegoRun\<close>: complete runs over any transport that delivers the answers of the server.
  \<^item> \<^verbatim>\<open>RingBuffer\<close>, \<^verbatim>\<open>BufferedBio\<close>: \<^verbatim>\<open>libfreerdp/utils/ringbuffer.c\<close> and the BIO layers of
    \<^verbatim>\<open>core/tcp.c\<close>. The locale \<open>byte_queue\<close> is what the BIO relies on from the ring, and
    \<open>bio_contract\<close> what it relies on from the BIO below; the socket BIO over an arbitrary kernel
    provides it.
  \<^item> \<^verbatim>\<open>BitStream\<close>: the bit streams of \<^verbatim>\<open>winpr/bitstream.h\<close> and \<^verbatim>\<open>BitStream.c\<close>; \<open>reads_at\<close> and \<open>writes_at\<close>
    say which bits the window of 32 bits holds. \<^verbatim>\<open>MppcCodes\<close>, \<^verbatim>\<open>Mppc\<close>: the MPPC compression of
    \<^verbatim>\<open>libfreerdp/codec/mppc.c\<close>, its codes, the decompressor and the compressor. \<^verbatim>\<open>MppcTokens\<close>: the
    reference, a list of literals and copies run on the history, which the decompressor is shown to
    run; \<^verbatim>\<open>MppcRound\<close>: the compressor writes tokens that give its source; \<^verbatim>\<open>MppcStep\<close>: sender and
    receiver stay in step. The locale \<open>lossless\<close> is a channel of two stateful codecs.
  \<^item> \<^verbatim>\<open>HashTable\<close>: \<^verbatim>\<open>libwinpr/utils/collections/HashTable.c\<close>, the table the virtual channels, the proxy
    and the reference clients keep their objects in. \<^verbatim>\<open>HashTableFacts\<close>: its invariant and rehashing;
    \<^verbatim>\<open>HashTableMap\<close>: each operation is the one of a map, in the locale \<open>table_objects\<close> of what a table asks
    of its object functions; \<^verbatim>\<open>HashTableForeach\<close>: the iteration, its callback removing entries;
    \<^verbatim>\<open>HashTableUse\<close>: the locale interpreted for pointers and strings, sequences of operations, and what
    goes wrong after an iteration that was stopped. Single precision is a rounding of rationals.

  Lengths and positions (\<^verbatim>\<open>size_t\<close>) are naturals with \<open>SIZE_MAX\<close> written out where the code tests
  or wraps; the fields of the protocol are words of their width. An allocator is a predicate on
  sizes, so that every allocation can fail. Loops are structural recursions, except the sending
  loop of the buffered BIO and the attempts of the negotiating client, which are
  \<open>partial_function\<close>s: their value is \<open>None\<close> where they do not return. The search for the end of a
  line in a request takes the number of remaining bytes as fuel, of which each step uses one. The loops
  of MPPC are \<open>function\<close>s that end because the history pointer, or the source index, moves on; the search for
  a number of buckets ends because every second number meets one that is 1 modulo all the primes it tries.
  The iteration and the clearing of a hash table are \<open>partial_function\<close>s. The loops over the data blocks of
  a conference take fuel: each block takes at least the four bytes of its header, so the announced length
  is enough for the client's blocks and the length of the packet for the server's; running out is an abort,
  and the receivers are proved not to abort. \<open>join_rounds\<close> takes the number of rounds; the number of channels to join is enough, and
  is proved to be.

  The properties below are, in each section, about the composition of these theories. Not
  modelled: logging, threads and locks, TLS and the other cryptography, the settings beyond those of the
  conference, capability sets, licensing, graphics, virtual channels, the gateway, and the user interfaces;
  the manifest lists them one by one.
\<close>

section \<open>Joining the channels\<close>

text \<open>A small conference for the witnesses: the user channel, the global channel, a message
  channel and two static virtual channels, over a transport that queues the packets.\<close>

definition example_channel :: "u16 \<Rightarrow> rdpMcsChannel" where
  "example_channel chan = empty_channel\<lparr>ChannelId := chan\<rparr>"

definition example_params :: DomainParameters where
  "example_params = \<lparr>maxChannelIds = 34, maxUserIds = 2, maxTokenIds = 0, numPriorities = 1,
     minThroughput = 0, maxHeight = 1, maxMCSPDUsize = 65528, protocolVersion = 2\<rparr>"

definition example_mcs :: rdpMcs where
  "example_mcs = \<lparr>userId = 1007, baseChannelId = 1008, IOChannelId = 1003, messageChannelId = 1006,
     mcs_flags = 0, domainParameters = example_params, targetParameters = example_params,
     minimumParameters = example_params, maximumParameters = example_params,
     userChannelJoined = False, globalChannelJoined = False, messageChannelJoined = False,
     channelCount = 2, channelMaxCount = 31, channels = [example_channel 1004, example_channel 1005]\<rparr>"

definition example_context :: "u8 list list rdpContext" where
  "example_context = \<lparr>mcs = example_mcs, transport = [], WritePdu = Some queue_pdu, heap = (\<lambda>_. True)\<rparr>"

definition example_rdp :: "u8 list list rdpRdp" where
  "example_rdp = \<lparr>state = CONNECTION_STATE_MCS_CHANNEL_JOIN_REQUEST, rdp_context = example_context,
     finalize_sc_pdus = 0, monitor_layout_pdu = False, activated = None, UseRdpSecurityLayer = False,
     SupportSkipChannelJoin = False, TransportDumpReplay = False, BitmapCachePersistEnabled = False,
     ServerMode = False\<rparr>"

definition example_hooks :: "u8 list list rdpRdp hooks" where
  "example_hooks = \<lparr>exchange_client_random = ret (), rdp_send_client_info = ret (),
     rdp_send_client_synchronize_pdu = ret (), rdp_send_client_control_pdu = (\<lambda>_. ret ()),
     rdp_send_client_persistent_key_list_pdu = ret (), rdp_send_client_font_list_pdu = (\<lambda>_. ret ()),
     rdp_send_server_synchronize_pdu = ret (), rdp_send_server_control_cooperate_pdu = ret (),
     update_reset_state = (\<lambda>r. r), PubSub_OnActivated = (\<lambda>_ _. 0),
     PubSub_OnConnectionStateChange = (\<lambda>_ _ _. 0)\<rparr>"

lemma example_joinable: "joinable example_mcs"
  by (simp add: joinable_def join_targets_def example_mcs_def example_channel_def mcs_consts)

lemma example_fresh: "joined_upto 0 example_mcs = example_mcs"
  by (simp add: joined_upto_def upd_channels_def example_mcs_def example_channel_def empty_channel_def
      upt_rec)

lemma example_sides:
  "rdp_mcs example_rdp = example_mcs" "wired example_rdp" "\<not> UseRdpSecurityLayer example_rdp"
  "state example_rdp = CONNECTION_STATE_MCS_CHANNEL_JOIN_REQUEST" "quiet example_hooks" "info_sent example_hooks"
  by (simp_all add: example_rdp_def example_context_def example_hooks_def wired_def quiet_def info_sent_def)

text \<open>C1: The client asks for its user channel and then, confirmation by confirmation, for the
  global channel, the message channel (if the server announced one) and the static virtual
  channels. Over a transport that delivers the packets, with the receive and the send handlers
  of both sides run on the bytes of the other side, the exchange ends after exactly one round
  per channel: both sides have every channel joined, the client has sent its client info and
  goes on to the auto-detect phase, and the server goes on to security commencement.\<close>

theorem channel_join_completes:
  fixes client server :: "u8 list list rdpRdp"
  defines "targets \<equiv> join_targets (rdp_mcs client)"
  assumes "joinable (rdp_mcs client)" and "joinable (rdp_mcs server)"
    and "join_targets (rdp_mcs server) = targets"
    and "joined_upto 0 (rdp_mcs client) = rdp_mcs client" and "joined_upto 0 (rdp_mcs server) = rdp_mcs server"
    and "wired client" and "wired server" and "\<not> UseRdpSecurityLayer client"
    and "state server = CONNECTION_STATE_MCS_CHANNEL_JOIN_REQUEST"
    and "quiet H" and "info_sent H"
  shows "\<exists>asking client' server'.
     rdp_client_join_channel H (userId (rdp_mcs client)) client = Ret () asking \<and>
     join_rounds (length targets) H (asking, server) = Some (client', server') \<and>
     all_joined (rdp_mcs client') \<and> all_joined (rdp_mcs server') \<and>
     state client' = CONNECTION_STATE_CONNECT_TIME_AUTO_DETECT_REQUEST \<and>
     state server' = CONNECTION_STATE_RDP_SECURITY_COMMENCEMENT"
proof -
  let ?m = "rdp_mcs client" and ?ms = "rdp_mcs server"
  have uid: "userId ?ms = userId ?m" using assms(4) by (simp add: targets_def join_targets_def)
  have "rdp_client_join_channel H (userId ?m) client = Ret () (asked ?m 0 client)"
    using client_asks [of ?m H client 0] assms by (simp add: first_join_targets)
  moreover have "in_round 0 ?m ?ms (asked ?m 0 client, server)"
    using assms by (simp add: in_round_def)
  then have "\<exists>client' server'. join_rounds (length targets) H (asked ?m 0 client, server) = Some (client', server') \<and>
      all_joined (rdp_mcs client') \<and> all_joined (rdp_mcs server') \<and>
      state client' = CONNECTION_STATE_CONNECT_TIME_AUTO_DETECT_REQUEST \<and>
      state server' = CONNECTION_STATE_RDP_SECURITY_COMMENCEMENT"
    unfolding targets_def by (intro join_rounds_finish) (use assms uid in \<open>simp_all add: targets_def\<close>)
  ultimately show ?thesis by blast
qed

theorem channel_join_completes_witness:
  "\<exists>asking client' server'.
     rdp_client_join_channel example_hooks 1007 example_rdp = Ret () asking \<and>
     join_rounds 5 example_hooks (asking, example_rdp) = Some (client', server') \<and>
     all_joined (rdp_mcs client') \<and> all_joined (rdp_mcs server') \<and>
     state client' = CONNECTION_STATE_CONNECT_TIME_AUTO_DETECT_REQUEST \<and>
     state server' = CONNECTION_STATE_RDP_SECURITY_COMMENCEMENT"
proof -
  have n: "length (join_targets example_mcs) = 5" "userId example_mcs = 1007"
    by (simp_all add: join_targets_def example_mcs_def)
  show ?thesis
    using channel_join_completes [of example_rdp example_rdp example_hooks]
    by (simp add: example_sides example_joinable example_fresh n)
qed

text \<open>C13: A client that is waiting for the confirmation of one channel and gets the confirmation
  of another one refuses the packet and changes nothing: no channel is marked joined, no state
  is left and nothing is sent.\<close>

theorem unexpected_confirm_refused:
  assumes "joinable m" and "rdp_mcs rdp = joined_upto k m" and "k < length (join_targets m)"
    and "wf_stream s" and "rest s = enc_channel_join_confirm (userId m) chan" and "chan \<noteq> join_targets m ! k"
  shows "rdp_client_connect_mcs_channel_join_confirm H (rdp, s) = Fail (rdp, adv 15 s)"
proof -
  have "MCS_BASE_CHANNEL_ID \<le> userId m" using assms(1) by (simp add: joinable_def)
  then have "on_packet mcs_recv_channel_join_confirm (rdp, s) = Ret chan (rdp, adv 15 s)"
    using recv_channel_join_confirm [OF _ assms(4,5)] by (simp add: on_packet_def)
  moreover have "channel_confirmed H chan rdp = Fail rdp"
    by (rule channel_confirmed_wrong) (use assms in auto)
  ultimately show ?thesis
    by (simp add: rdp_client_connect_mcs_channel_join_confirm_def bindp_def on_rdp_def)
qed

theorem unexpected_confirm_refused_witness:
  "rdp_client_connect_mcs_channel_join_confirm example_hooks
     (example_rdp, packet (enc_channel_join_confirm 1007 1004)) =
   Fail (example_rdp, adv 15 (packet (enc_channel_join_confirm 1007 1004)))"
  by (rule unexpected_confirm_refused [of example_mcs _ 0 _ 1004])
     (simp_all add: example_joinable example_sides example_fresh packet_wf,
      simp_all add: join_targets_def example_mcs_def)

section \<open>The conference\<close>

text \<open>Two sides that have exchanged nothing yet, with the parameters of the constructor; the client has
  two channels. The conversions are those of ASCII text.\<close>

definition example_settings :: rdpSettings where
  "example_settings = \<lparr>ServerMode_s = False, TransportDumpReplay_s = False, RdpVersion = 0x00080011,
     DesktopWidth = 1024, DesktopHeight = 768, ColorDepth = 32, SupportedColorDepths = 0xF,
     EarlyCapabilityFlags = 0, KeyboardLayout = 0x409, KeyboardType = 4, KeyboardSubType = 0,
     KeyboardFunctionKey = 12, ClientBuild = 18363, ClientHostname = Some [0x70, 0x63],
     ClientProductId = None, ConnectionType = 6, SelectedProtocol_s = 1, RequestedProtocols_s = 3,
     NegotiationFlags = 1, DesktopPhysicalWidth = 0, DesktopPhysicalHeight = 0, DesktopOrientation = 0,
     DesktopScaleFactor = 100, DeviceScaleFactor = 100,
     SupportErrorInfoPdu = True, SupportStatusInfoPdu = False, SupportAsymetricKeys = False,
     HasRelativeMouseEvent = False, NetworkAutoDetect = True, SupportSkipChannelJoin_s = False,
     SupportMonitorLayoutPdu = True, SupportHeartbeatPdu = True, SupportGraphicsPipeline = True,
     SupportDynamicTimeZone = False, SupportEdgeActionV1 = False, SupportEdgeActionV2 = False,
     SupportMultitransport = False, MultitransportFlags = 0,
     UseRdpSecurityLayer_s = False, EncryptionMethods = 0, EncryptionLevel = 0, ServerRandom = None,
     ServerRandomLength = 0, ServerCertificate = None, ServerCertificateLength = 0, ClusterInfoFlags = 0,
     RedirectedSessionId = 0, ConsoleSession = False, RedirectSmartCards = False, SmartcardLogon = False,
     UseMultimon = False, SpanMonitors = False, ForceMultimon = False, MonitorFlags = 0, MonitorCount = 0,
     MonitorDefArraySize = 0, MonitorDefArray = [], HasMonitorAttributes = False, MonitorAttributeFlags = 0\<rparr>"

definition example_env :: gcc_env where
  "example_env = \<lparr>mem = (\<lambda>_. True), utf16_to_utf8 = (\<lambda>us. Some (map ucast us)),
     utf8_to_utf16 = (\<lambda>bs. Some (map ucast bs)), freerdp_certificate_read_server_cert = (\<lambda>_. True),
     freerdp_certificate_write_server_cert = fail, winpr_RAND = (\<lambda>n. Some (replicate n 7))\<rparr>"

definition new_context :: "u8 list list rdpContext" where
  "new_context = \<lparr>mcs = the (mcs_new (\<lambda>_. True) 1 1), transport = [], WritePdu = Some queue_pdu, heap = (\<lambda>_. True)\<rparr>"

definition example_defs :: "nat \<Rightarrow> CHANNEL_DEF option" where
  "example_defs i = Some \<lparr>def_name = [0x72, 0x64, 0x70, 0x64, 0x72, 0, 0, 0], def_options = 0\<rparr>"

lemma new_context_mcs: "mcs_new (\<lambda>_. True) 1 1 = Some (mcs new_context)"
  by (simp add: new_context_def mcs_new_def)

lemma example_converts [simp]:
  "mem example_env n" "utf16_to_utf8 example_env us = Some (map ucast us)"
  "utf8_to_utf16 example_env bs = Some (map ucast bs)" "winpr_RAND example_env n = Some (replicate n 7)"
  by (simp_all add: example_env_def)

lemma example_connectable:
  "connectable example_env example_env 2 example_defs (new_context, example_settings) (new_context, example_settings)"
proof -
  have "length (channels (mcs new_context)) = 31"
    using mcs_new_fresh [OF new_context_mcs] by (simp add: fresh_mcs_def)
  moreover have "\<not> sends_monitors example_settings" by (simp add: sends_monitors_def example_settings_def)
  ultimately have "\<exists>host pid. server_ready example_env example_env example_settings host pid (mcs new_context) example_settings"
    by (simp add: server_ready_def) (simp add: example_settings_def)
  moreover have "client_core_writable example_env example_settings" "monitors_placed example_settings"
    "\<not> UseRdpSecurityLayer_s example_settings" "EncryptionMethods example_settings = ENCRYPTION_METHOD_NONE"
    "EncryptionLevel example_settings = ENCRYPTION_LEVEL_NONE"
    by (simp_all add: client_core_writable_def monitors_placed_def example_settings_def bounds_defs
        ENCRYPTION_METHOD_NONE_def ENCRYPTION_LEVEL_NONE_def)
  moreover have "\<exists>g a b. mcs_new g a b = Some (mcs new_context)" using new_context_mcs by blast
  moreover have "WritePdu new_context = Some queue_pdu" "\<forall>n. heap new_context n" by (simp_all add: new_context_def)
  ultimately show ?thesis by (simp add: connectable_def example_defs_def)
qed

text \<open>C2: When a new client and a new server exchange the connect PDUs - the client writes its settings
  and channels into the conference create request inside the connect initial, the server reads them,
  numbers the channels and answers, the client reads the answer -, no step fails, both sides end with the
  same channels under the same ids and with the same domain parameters, and once the server has handed its
  next id out as user id, both are in a state from which the join of all channels completes: the ids are
  distinct, the channels to join are the same, and none is joined yet.\<close>

theorem connect_exchange_agrees:
  assumes "connectable cenv senv n defs (cctx, cl) (sctx, st)"
  shows "\<exists>client cl' server st'. connect_exchange cenv senv n defs (cctx, cl) (sctx, st) = Some ((client, cl'), (server, st')) \<and>
     channelCount (mcs client) = n \<and> channelCount (mcs server) = n \<and>
     (\<forall>i < unat n. let a = channels (mcs client) ! i; b = channels (mcs server) ! i
        in Name a = Name b \<and> options a = options b \<and> ChannelId a = ChannelId b) \<and>
     domainParameters (mcs client) = domainParameters (mcs server) \<and>
     (let uid = baseChannelId (mcs server); c = (mcs client)\<lparr>userId := uid\<rparr>;
          s = (mcs server)\<lparr>userId := uid, baseChannelId := uid + 1\<rparr>
      in joinable c \<and> joinable s \<and> join_targets s = join_targets c \<and> joined_upto 0 c = c \<and> joined_upto 0 s = s)"
proof -
  from assms obtain m host pid bytes w where m: "named_channels m" "channelCount m = n"
    and num: "numbered_mcs (unat n) w (initial_received m cl (mcs sctx))"
      "numbered_mcs (unat n) w (response_received (initial_received m cl (mcs sctx)) m)"
    and base: "baseChannelId (initial_received m cl (mcs sctx)) = 1004 + of_nat (unat n) + (if w then 1 else 0)"
    and run: "\<exists>q r. connect_exchange cenv senv n defs (cctx, cl) (sctx, st) =
      Some ((cctx\<lparr>mcs := response_received (initial_received m cl (mcs sctx)) m, transport := transport cctx @ [q]\<rparr>,
             settings_answered (settings_received cl host pid st) cl),
            (sctx\<lparr>mcs := initial_received m cl (mcs sctx), transport := transport sctx @ [r]\<rparr>,
             random_drawn bytes (settings_received cl host pid st)))"
    by (rule connect_exchange_runs)
  let ?s = "initial_received m cl (mcs sctx)"
  let ?c = "response_received ?s m"
  define uid where "uid = baseChannelId ?s"
  let ?cu = "?c\<lparr>userId := uid\<rparr>" and ?su = "?s\<lparr>userId := uid, baseChannelId := uid + 1\<rparr>"
  have nu: "numbered_mcs (unat n) w ?cu" "numbered_mcs (unat n) w ?su" "userId ?cu = 1004 + of_nat (unat n) + (if w then 1 else 0)"
    "userId ?su = 1004 + of_nat (unat n) + (if w then 1 else 0)" using num base by (simp_all add: uid_def)
  have join: "joinable ?cu" "joined_upto 0 ?cu = ?cu" "joinable ?su" "joined_upto 0 ?su = ?su"
    "join_targets ?su = join_targets ?cu"
    using numbered_joinable [OF nu(1,3)] numbered_joinable [OF nu(2,4)] numbered_targets [OF nu(2,1)] by simp_all
  have count: "channelCount ?s = n" "channelCount ?c = n"
    using num by (simp_all add: numbered_mcs_def word_unat_eq_iff)
  have same: "\<forall>i < unat n. let a = channels ?c ! i; b = channels ?s ! i
      in Name a = Name b \<and> options a = options b \<and> ChannelId a = ChannelId b"
    using channels_agree [of _ m cl "mcs sctx"] m num(1) by (simp add: numbered_mcs_def Let_def)
  have "domainParameters ?c = domainParameters ?s"
    by (simp add: response_received_def mcs_answered_def ids_received_def Let_def)
  with run join count same show ?thesis by (auto simp: uid_def Let_def)
qed

theorem connect_exchange_agrees_witness:
  "\<exists>client cl' server st'. connect_exchange example_env example_env 2 example_defs (new_context, example_settings)
       (new_context, example_settings) = Some ((client, cl'), (server, st')) \<and>
     channelCount (mcs client) = 2 \<and> ChannelId (channels (mcs client) ! 0) = ChannelId (channels (mcs server) ! 0)"
proof -
  have two: "(0 :: nat) < unat (2 :: u32)" by simp
  show ?thesis using connect_exchange_agrees [OF example_connectable] two by (fastforce simp: Let_def)
qed

text \<open>C5: The core data a client writes is read by the server to its last byte. Each optional feature is
  afterwards on at the server exactly when both sides have it, and relative mouse events only if the
  lower of the two protocol versions has them; the protocol version is the lower of the two, the
  desktop is the client's, and the color depth is lowered to the client's but never raised on a server.\<close>

theorem capabilities_negotiated:
  assumes "client_core_writable cenv cl" and "DesktopWidth cl \<noteq> 0" and "DesktopHeight cl \<noteq> 0"
    and "utf16_to_utf8 senv (takeWhile (\<lambda>w. w \<noteq> 0) (client_name_units cenv cl)) = Some host"
    and "utf16_to_utf8 senv (takeWhile (\<lambda>w. w \<noteq> 0) (client_product_units cenv cl)) = Some pid"
    and "mem senv (length host + 1)" and "mem senv (length pid + 1)"
    and "SelectedProtocol_s st = SelectedProtocol_s cl"
  shows "\<exists>t u st'. gcc_write_client_core_data cenv cl (fresh_stream (\<lambda>_. True) 512) = Ret () t \<and>
     gcc_read_client_core_data senv ((m, st), packet (drop 4 (written t))) = Ret () ((m, st'), u) \<and> rest u = [] \<and>
     SupportErrorInfoPdu st' = (SupportErrorInfoPdu st \<and> SupportErrorInfoPdu cl) \<and>
     SupportStatusInfoPdu st' = (SupportStatusInfoPdu st \<and> SupportStatusInfoPdu cl) \<and>
     SupportAsymetricKeys st' = (SupportAsymetricKeys st \<and> SupportAsymetricKeys cl) \<and>
     NetworkAutoDetect st' = (NetworkAutoDetect st \<and> NetworkAutoDetect cl) \<and>
     SupportSkipChannelJoin_s st' = (SupportSkipChannelJoin_s st \<and> SupportSkipChannelJoin_s cl) \<and>
     SupportMonitorLayoutPdu st' = (SupportMonitorLayoutPdu st \<and> SupportMonitorLayoutPdu cl) \<and>
     SupportHeartbeatPdu st' = (SupportHeartbeatPdu st \<and> SupportHeartbeatPdu cl) \<and>
     SupportGraphicsPipeline st' = (SupportGraphicsPipeline st \<and> SupportGraphicsPipeline cl) \<and>
     SupportDynamicTimeZone st' = (SupportDynamicTimeZone st \<and> SupportDynamicTimeZone cl) \<and>
     HasRelativeMouseEvent st' = (HasRelativeMouseEvent st \<and> HasRelativeMouseEvent cl \<and> RDP_VERSION_10_12 \<le> RdpVersion st') \<and>
     RdpVersion st' = min (RdpVersion cl) (RdpVersion st) \<and>
     DesktopWidth st' = DesktopWidth cl \<and> DesktopHeight st' = DesktopHeight cl \<and>
     ColorDepth st' = (if received_depth cl < ColorDepth st \<or> \<not> ServerMode_s st then received_depth cl else ColorDepth st)"
proof -
  obtain t where t: "gcc_write_client_core_data cenv cl (fresh_stream (\<lambda>_. True) 512) = Ret () t"
      "written t = enc_block CS_CORE (enc_client_core cenv cl)"
    by (rule appends_fresh [OF emits_client_core [OF assms(1)], of "\<lambda>_. True" 512]) (simp_all add: bounds_defs)
  then have data: "drop 4 (written t) = enc_client_core cenv cl" by (simp add: enc_block_def)
  let ?p = "packet (enc_client_core cenv cl)" and ?st = "core_received cl host pid st"
  have p: "wf_stream ?p" "rest ?p = enc_client_core cenv cl @ []" "rest (adv 230 ?p) = []"
    using length_enc_client_core [of cenv cl] by (simp_all add: packet_wf rest_adv)
  have "gcc_read_client_core_data senv ((m, st), ?p) = Ret () ((m, ?st), adv 230 ?p)"
    using hparsesD [OF hparses_client_core [OF assms] p(1,2)] by (simp only: length_enc_client_core)
  moreover have "rdp_version_common (RdpVersion cl) (RdpVersion st) = min (RdpVersion cl) (RdpVersion st)"
    by (auto simp: rdp_version_common_def min_def)
  ultimately show ?thesis
    using t(1) p(3) by (intro exI [of _ t] exI [of _ "adv 230 ?p"] exI [of _ ?st])
      (simp only: data caps_received relative_mouse_received display_received simp_thms)
qed

theorem capabilities_negotiated_witness:
  "\<exists>t u st'. gcc_write_client_core_data example_env example_settings (fresh_stream (\<lambda>_. True) 512) = Ret () t \<and>
     gcc_read_client_core_data example_env ((example_mcs, example_settings), packet (drop 4 (written t))) =
       Ret () ((example_mcs, st'), u) \<and> SupportErrorInfoPdu st' \<and> \<not> SupportStatusInfoPdu st' \<and> DesktopWidth st' = 1024"
proof -
  have ok: "client_core_writable example_env example_settings" "DesktopWidth example_settings \<noteq> 0"
    "DesktopHeight example_settings \<noteq> 0" and sel: "DesktopWidth example_settings = 1024"
    "SupportErrorInfoPdu example_settings" "\<not> SupportStatusInfoPdu example_settings"
    by (simp_all add: client_core_writable_def example_settings_def bounds_defs)
  from capabilities_negotiated [OF ok example_converts(2) example_converts(2) example_converts(1)
      example_converts(1) refl, of example_mcs]
  obtain t u st' where "gcc_write_client_core_data example_env example_settings (fresh_stream (\<lambda>_. True) 512) = Ret () t"
      "gcc_read_client_core_data example_env ((example_mcs, example_settings), packet (drop 4 (written t))) =
         Ret () ((example_mcs, st'), u)"
      "SupportErrorInfoPdu st'" "\<not> SupportStatusInfoPdu st'" "DesktopWidth st' = 1024"
    using sel by (elim exE conjE) simp
  then show ?thesis by blast
qed

text \<open>C3: Whatever bytes arrive as connect initial or as connect response, the receiver neither runs into
  an assertion nor indexes an array outside of its bounds nor leaves the packet: it succeeds or fails, and
  the packet is as it was, with the position further inside.\<close>

theorem conference_receivers_stay_inside:
  assumes "gcc_wf N (m, st)" and "wf_stream s"
  shows "inside s (mcs_recv_connect_initial env ((m, st), s)) \<and> inside s (mcs_recv_connect_response env ((m, st), s))"
  using keeps_inside(1) [OF keeps_connect_initial assms] keeps_inside(1) [OF keeps_connect_response assms] by blast

lemma new_context_wf: "gcc_wf 0 (mcs new_context, example_settings)"
  by (simp add: gcc_wf_simp new_context_def mcs_new_def CHANNEL_MAX_COUNT_def example_settings_def
      empty_channel_def CHANNEL_NAME_LEN_def)

theorem conference_receivers_stay_inside_witness:
  "inside (packet [3, 0, 0, 9, 2, 0xF0, 0x80, 0x7F, 0x65])
     (mcs_recv_connect_initial example_env ((mcs new_context, example_settings), packet [3, 0, 0, 9, 2, 0xF0, 0x80, 0x7F, 0x65]))"
  using conference_receivers_stay_inside [OF new_context_wf, of "packet [3, 0, 0, 9, 2, 0xF0, 0x80, 0x7F, 0x65]" example_env]
  by (simp add: packet_wf)

text \<open>C4: The arrays behind the conference data keep their shape on any input: whether the receiver of a
  connect PDU succeeds or fails, there are still 31 channels whose names are buffers of eight bytes, and the
  monitors announced still fit the monitor array of the settings.\<close>

theorem conference_state_keeps_its_shape:
  assumes "gcc_wf N (m, st)" and "wf_stream s"
    and "r = mcs_recv_connect_initial env ((m, st), s) \<or> r = mcs_recv_connect_response env ((m, st), s)"
  shows "case r of Abort \<Rightarrow> False | Fail (c, t) \<Rightarrow> gcc_wf N c | Ret x (c, t) \<Rightarrow> gcc_wf N c"
  using assms(3) keeps_inside [OF keeps_connect_initial assms(1,2), of env]
    keeps_inside [OF keeps_connect_response assms(1,2), of env]
  by (auto simp: inside_def split: outcome.splits)

theorem conference_state_keeps_its_shape_witness:
  "case mcs_recv_connect_response example_env ((mcs new_context, example_settings), packet [3, 0, 0, 9, 2, 0xF0, 0x80, 0x7F, 0x66]) of
     Abort \<Rightarrow> False | Fail (c, t) \<Rightarrow> gcc_wf 0 c | Ret x (c, t) \<Rightarrow> gcc_wf 0 c"
  by (rule conference_state_keeps_its_shape [OF new_context_wf _ disjI2 [OF refl]]) (simp add: packet_wf)

text \<open>The combinations of encryption level and method of the protocol: no encryption, the levels \<^verbatim>\<open>LOW\<close>,
  \<^verbatim>\<open>CLIENT_COMPATIBLE\<close> and \<^verbatim>\<open>HIGH\<close> with any method that encrypts, and level \<^verbatim>\<open>FIPS\<close> with method \<^verbatim>\<open>FIPS\<close>.\<close>

definition crypto_configs :: "(u32 \<times> u32) list" where
  "crypto_configs = [(0, 0), (1, 0x01), (1, 0x02), (1, 0x08), (1, 0x10), (2, 0x01), (2, 0x02), (2, 0x08), (2, 0x10),
     (3, 0x01), (3, 0x02), (3, 0x08), (3, 0x10), (4, 0x10)]"

lemma crypto_configs_valid: "(level, method) \<in> set crypto_configs \<longleftrightarrow> valid_crypto_config level method"
  by (auto simp: crypto_configs_def valid_crypto_config_def ENCRYPTION_LEVEL_NONE_def ENCRYPTION_LEVEL_FIPS_def
      ENCRYPTION_LEVEL_LOW_def ENCRYPTION_LEVEL_HIGH_def ENCRYPTION_LEVEL_CLIENT_COMPATIBLE_def
      ENCRYPTION_METHOD_NONE_def ENCRYPTION_METHOD_FIPS_def ENCRYPTION_METHOD_40BIT_def ENCRYPTION_METHOD_56BIT_def
      ENCRYPTION_METHOD_128BIT_def)

text \<open>C6: A client accepts the encryption of a server only in the combinations of level and method that the
  protocol has, those of the list above. Any other combination is refused and leaves the security layer, the random and the certificate
  as they were; no encryption at all turns the security layer off; and with encryption the client holds exactly
  the random and the certificate the server sent.\<close>

theorem server_security_rules:
  assumes "wf_stream s" and "rest s = winpr_Data_Write_UINT32 method @ winpr_Data_Write_UINT32 level @ bs"
  shows "((level, method) \<notin> set crypto_configs \<longrightarrow>
       (\<exists>st' t. gcc_read_server_security_data env ((m, st), s) = Fail ((m, st'), t) \<and>
          UseRdpSecurityLayer_s st' = UseRdpSecurityLayer_s st \<and> ServerRandom st' = ServerRandom st \<and>
          ServerCertificate st' = ServerCertificate st)) \<and>
     (level = ENCRYPTION_LEVEL_NONE \<and> method = ENCRYPTION_METHOD_NONE \<longrightarrow>
       (\<exists>st' t. gcc_read_server_security_data env ((m, st), s) = Ret () ((m, st'), t) \<and> \<not> UseRdpSecurityLayer_s st')) \<and>
     (\<forall>random cert. (level, method) \<in> set crypto_configs \<and> level \<noteq> ENCRYPTION_LEVEL_NONE \<and> secret_ok env random \<and>
        secret_ok env cert \<and> freerdp_certificate_read_server_cert env cert \<and> bs = enc_secrets random cert \<longrightarrow>
       (\<exists>st' t. gcc_read_server_security_data env ((m, st), s) = Ret () ((m, st'), t) \<and> rest t = [] \<and>
          EncryptionMethods st' = method \<and> EncryptionLevel st' = level \<and>
          ServerRandom st' = Some random \<and> ServerCertificate st' = Some cert \<and>
          UseRdpSecurityLayer_s st' = UseRdpSecurityLayer_s st))"
proof (unfold crypto_configs_valid, intro conjI impI allI)
  assume "\<not> valid_crypto_config level method"
  from security_refused [OF this, of env m st bs "[]"] assms
  show "\<exists>st' t. gcc_read_server_security_data env ((m, st), s) = Fail ((m, st'), t) \<and>
      UseRdpSecurityLayer_s st' = UseRdpSecurityLayer_s st \<and> ServerRandom st' = ServerRandom st \<and>
      ServerCertificate st' = ServerCertificate st" by (fastforce dest: hfailsD)
next
  assume "level = ENCRYPTION_LEVEL_NONE \<and> method = ENCRYPTION_METHOD_NONE"
  then have "rest s = (winpr_Data_Write_UINT32 ENCRYPTION_METHOD_NONE @ winpr_Data_Write_UINT32 ENCRYPTION_LEVEL_NONE) @ bs"
    using assms(2) by simp
  from hparsesD [OF security_none assms(1) this, of env m st]
  show "\<exists>st' t. gcc_read_server_security_data env ((m, st), s) = Ret () ((m, st'), t) \<and> \<not> UseRdpSecurityLayer_s st'"
    by (simp add: plain_received_def)
next
  fix random cert
  assume ok: "valid_crypto_config level method \<and> level \<noteq> ENCRYPTION_LEVEL_NONE \<and> secret_ok env random \<and>
        secret_ok env cert \<and> freerdp_certificate_read_server_cert env cert \<and> bs = enc_secrets random cert"
  let ?bs = "winpr_Data_Write_UINT32 method @ winpr_Data_Write_UINT32 level @ enc_secrets random cert"
  have bs: "rest s = ?bs @ []" using assms(2) ok by simp
  have "hparses (gcc_read_server_security_data env) (m, st) ?bs [] () (m, secrets_received method level random cert st)"
    using ok by (intro security_secrets) simp_all
  from hparsesD [OF this assms(1) bs] assms(1) bs
  show "\<exists>st' t. gcc_read_server_security_data env ((m, st), s) = Ret () ((m, st'), t) \<and> rest t = [] \<and>
      EncryptionMethods st' = method \<and> EncryptionLevel st' = level \<and>
      ServerRandom st' = Some random \<and> ServerCertificate st' = Some cert \<and>
      UseRdpSecurityLayer_s st' = UseRdpSecurityLayer_s st" by (simp add: secrets_received_def rest_adv)
qed

text \<open>Level \<^verbatim>\<open>LOW\<close> without a method, and level and method \<^verbatim>\<open>FIPS\<close> with a random and a certificate.\<close>

theorem server_security_rules_witness:
  "(\<exists>st' t. gcc_read_server_security_data example_env ((example_mcs, example_settings), packet [0, 0, 0, 0, 1, 0, 0, 0]) =
       Fail ((example_mcs, st'), t) \<and> ServerRandom st' = None) \<and>
   (\<exists>st' t. gcc_read_server_security_data example_env ((example_mcs, example_settings),
         packet ([0x10, 0, 0, 0, 4, 0, 0, 0] @ enc_secrets [5, 6] [7])) = Ret () ((example_mcs, st'), t) \<and>
       ServerRandom st' = Some [5, 6] \<and> ServerCertificate st' = Some [7])"
proof (rule conjI)
  have words: "[0, 0, 0, 0, 1, 0, 0, 0] = winpr_Data_Write_UINT32 0 @ winpr_Data_Write_UINT32 1 @ []"
    "[0x10, 0, 0, 0, 4, 0, 0, 0] = winpr_Data_Write_UINT32 0x10 @ winpr_Data_Write_UINT32 4"
    by (simp_all add: winpr_Data_Write_UINT32_def winpr_Data_Write_UINT16_def)
  have config: "(1, 0) \<notin> set crypto_configs" "(4, 0x10) \<in> set crypto_configs" "(4 :: u32) \<noteq> ENCRYPTION_LEVEL_NONE"
    by (simp_all add: crypto_configs_def ENCRYPTION_LEVEL_NONE_def)
  have s: "wf_stream (packet [0, 0, 0, 0, 1, 0, 0, 0])"
    "rest (packet [0, 0, 0, 0, 1, 0, 0, 0]) = winpr_Data_Write_UINT32 0 @ winpr_Data_Write_UINT32 1 @ []"
    by (simp_all add: packet_wf words(1))
  have "ServerRandom example_settings = None" by (simp add: example_settings_def)
  with server_security_rules [OF s, of example_env example_mcs example_settings] config(1)
  show "\<exists>st' t. gcc_read_server_security_data example_env ((example_mcs, example_settings), packet [0, 0, 0, 0, 1, 0, 0, 0]) =
       Fail ((example_mcs, st'), t) \<and> ServerRandom st' = None" by fastforce
  let ?p = "packet ([0x10, 0, 0, 0, 4, 0, 0, 0] @ enc_secrets [5, 6] [7])"
  have p: "wf_stream ?p" "rest ?p = winpr_Data_Write_UINT32 0x10 @ winpr_Data_Write_UINT32 4 @ enc_secrets [5, 6] [7]"
    by (simp_all only: words(2) append_assoc packet_wf) (simp add: packet_wf enc_secrets_def)
  have "secret_ok example_env [5, 6]" "secret_ok example_env [7]" "freerdp_certificate_read_server_cert example_env [7]"
    by (simp_all add: secret_ok_def) (simp add: example_env_def)
  with server_security_rules [OF p, of example_env example_mcs example_settings] config(2,3)
  show "\<exists>st' t. gcc_read_server_security_data example_env ((example_mcs, example_settings), ?p) =
      Ret () ((example_mcs, st'), t) \<and> ServerRandom st' = Some [5, 6] \<and> ServerCertificate st' = Some [7]" by blast
qed

text \<open>C7: A client that announces more than 31 channels is refused before any of them is stored, but the
  announced number stays behind in the MCS state, larger than the array of channels.\<close>

theorem too_many_channels_refused:
  assumes "wf_stream s" and "rest s = winpr_Data_Write_UINT32 n @ bs" and "31 < n"
  shows "\<exists>t. gcc_read_client_network_data ((m, st), s) = Fail ((m\<lparr>channelCount := n\<rparr>, st), t)"
  using hfailsD [OF too_many_channels [OF assms(3), of m st bs "[]"] assms(1)] assms(2) by simp

theorem too_many_channels_refused_witness:
  "\<exists>m st t. gcc_read_client_network_data ((example_mcs, example_settings), packet ([0x20, 0, 0, 0] @ replicate 384 0x41)) =
     Fail ((m, st), t) \<and> channelCount m = 32 \<and> length (channels m) < 32"
proof -
  let ?p = "packet ([0x20, 0, 0, 0] @ replicate 384 0x41)"
  have p: "wf_stream ?p" "rest ?p = winpr_Data_Write_UINT32 32 @ replicate 384 0x41"
    by (simp_all only: packet_wf) (simp_all add: packet_wf winpr_Data_Write_UINT32_def winpr_Data_Write_UINT16_def)
  have "length (channels example_mcs) < 32" by (simp add: example_mcs_def)
  with too_many_channels_refused [OF p, of example_mcs example_settings] show ?thesis by fastforce
qed

text \<open>C8: The monitor layout a client writes is read by the server to its last byte: flags, number, and for
  each monitor its size, whether it is the primary one, and its position relative to the primary one.
  It must fit the server's array and each monitor must end at a representable coordinate.\<close>

theorem monitor_layout_received:
  assumes "monitors_placed cl" and "holds_monitors cl st" and "MonitorCount cl > 1"
  shows "\<exists>t u st'. gcc_write_client_monitor_data cl (fresh_stream (\<lambda>_. True) 512) = Ret () t \<and>
     gcc_read_client_monitor_data ((m, st), packet (drop 4 (written t))) = Ret () ((m, st'), u) \<and> rest u = [] \<and>
     MonitorFlags st' = MonitorFlags cl \<and> MonitorCount st' = MonitorCount cl \<and>
     (\<forall>i < unat (MonitorCount cl). let a = MonitorDefArray cl ! i; b = MonitorDefArray st' ! i
        in mon_x b = mon_x a - fst (monitor_base cl) \<and> mon_y b = mon_y a - snd (monitor_base cl) \<and>
           mon_width b = mon_width a \<and> mon_height b = mon_height a \<and> is_primary b = is_primary a)"
proof -
  have n: "unat (MonitorCount cl) \<le> 16" "unat (MonitorCount cl) \<le> length (MonitorDefArray cl)"
    using assms(1) by (simp_all add: monitors_placed_def)
  obtain t where t: "gcc_write_client_monitor_data cl (fresh_stream (\<lambda>_. True) 512) = Ret () t"
      "written t = enc_block CS_MONITOR (enc_client_monitors cl)"
    by (rule appends_fresh [OF appends_client_monitors [OF n], of "\<lambda>_. True" 512]) (use assms(3) in \<open>simp_all add: bounds_defs\<close>)
  then have data: "drop 4 (written t) = enc_client_monitors cl" by (simp add: enc_block_def)
  let ?p = "packet (enc_client_monitors cl)" and ?st = "monitors_taken cl (unat (MonitorCount cl)) st"
  have len: "length (enc_client_monitors cl) \<le> 328" using n length_enc_monitors [of cl] by simp
  have p: "wf_stream ?p" "rest ?p = enc_client_monitors cl @ []" using len by (simp_all add: packet_wf)
  note run = hparsesD [OF hparses_client_monitors [OF assms(1,2)] p, of m]
  have "\<forall>i < unat (MonitorCount cl). let a = MonitorDefArray cl ! i; b = MonitorDefArray ?st ! i
        in mon_x b = mon_x a - fst (monitor_base cl) \<and> mon_y b = mon_y a - snd (monitor_base cl) \<and>
           mon_width b = mon_width a \<and> mon_height b = mon_height a \<and> is_primary b = is_primary a"
    using assms(2) by (simp add: monitors_taken_def holds_monitors_def monitor_received_def relative_def Let_def)
  moreover have "MonitorFlags ?st = MonitorFlags cl" "MonitorCount ?st = MonitorCount cl"
    by (simp_all add: monitors_taken_def)
  moreover have "rest (adv (length (enc_client_monitors cl)) ?p) = []" using p(2) by (simp add: rest_adv)
  ultimately show ?thesis
    by (intro exI [of _ t] exI [of _ "adv (length (enc_client_monitors cl)) ?p"] exI [of _ ?st] conjI)
      (simp_all only: t(1) data run)
qed

text \<open>A primary screen of 1920 by 1080 to the right of a second one.\<close>

definition example_monitor :: "u32 \<Rightarrow> bool \<Rightarrow> rdpMonitor" where
  "example_monitor x prim = \<lparr>mon_x = x, mon_y = 0, mon_width = 1920, mon_height = 1080, is_primary = prim,
     attributes = \<lparr>physicalWidth = 0, physicalHeight = 0, orientation = 0, desktopScaleFactor = 100, deviceScaleFactor = 100\<rparr>\<rparr>"

definition two_screens :: rdpSettings where
  "two_screens = example_settings\<lparr>MonitorCount := 2, MonitorDefArraySize := 2,
     MonitorDefArray := [example_monitor 0 False, example_monitor 1920 True]\<rparr>"

theorem monitor_layout_received_witness:
  "\<exists>t u st'. gcc_write_client_monitor_data two_screens (fresh_stream (\<lambda>_. True) 512) = Ret () t \<and>
     gcc_read_client_monitor_data ((example_mcs, two_screens), packet (drop 4 (written t))) = Ret () ((example_mcs, st'), u) \<and>
     mon_x (MonitorDefArray st' ! 0) = - 1920 \<and> mon_x (MonitorDefArray st' ! 1) = 0"
proof -
  have base: "monitor_base two_screens = (1920, 0)"
    by (simp add: monitor_base_def two_screens_def example_monitor_def)
  have ok: "holds_monitors two_screens two_screens" "MonitorCount two_screens > 1"
    by (simp_all add: holds_monitors_def two_screens_def)
  have two: "unat (MonitorCount two_screens) = 2" "MonitorDefArray two_screens = [example_monitor 0 False, example_monitor 1920 True]"
    by (simp_all add: two_screens_def)
  have all: "(\<forall>i < 2 :: nat. P i) \<longleftrightarrow> P 0 \<and> P 1" for P by (auto simp: less_2_cases_iff)
  have placed: "monitors_placed two_screens"
    unfolding monitors_placed_def base relative_def span_ok_def Let_def two all
    by (simp add: example_monitor_def)
  from monitor_layout_received [OF placed ok, of example_mcs] show ?thesis
    unfolding two base Let_def all by (fastforce simp: example_monitor_def)
qed

section \<open>The MCS PDUs\<close>

text \<open>C11: Whatever bytes a peer sends, the handlers of the five domain PDUs of the joining (erect domain
  request, attach user request and confirm, channel join request and confirm) neither run into an assertion nor
  read outside of the packet: each either succeeds or fails, the packet is unchanged, and the position has
  only moved forward and is still inside. The receiver of the disconnect ultimatum is called behind the choice
  octet, to which it steps back; it stays inside, too, wherever it is called behind at least one octet. At the
  start of a packet that is not empty the step back is an assertion that fails.\<close>

theorem mcs_handlers_stay_inside:
  assumes "wf_stream s"
  shows "inside s (mcs_recv_erect_domain_request (m, s)) \<and> inside s (mcs_recv_attach_user_request (m, s)) \<and>
     inside s (mcs_recv_attach_user_confirm (m, s)) \<and> inside s (mcs_recv_channel_join_request replay (m, s)) \<and>
     inside s (mcs_recv_channel_join_confirm (m, s)) \<and>
     (0 < Stream_GetPosition s \<longrightarrow> read_inside s (mcs_recv_disconnect_provider_ultimatum s)) \<and>
     (Stream_GetPosition s = 0 \<and> rest s \<noteq> [] \<longrightarrow> mcs_recv_disconnect_provider_ultimatum s = Abort)"
proof (intro conjI impI)
  show "mcs_recv_disconnect_provider_ultimatum s = Abort" if "Stream_GetPosition s = 0 \<and> rest s \<noteq> []"
    using that by (auto intro: recv_ultimatum_at_start [OF assms])
qed (intro handler_inside handler_mcs handler_mcs_attach_user_confirm handler_mcs_channel_join_request
    recv_ultimatum_inside assms; assumption)+

text \<open>A truncated confirmation, the ultimatum behind its choice octet, and a packet on which it is called too early.\<close>

theorem mcs_handlers_stay_inside_witness:
  "inside (packet [3, 0, 0, 5, 2]) (mcs_recv_channel_join_confirm (example_mcs, packet [3, 0, 0, 5, 2])) \<and>
   read_inside (adv 8 (packet [3, 0, 0, 9, 2, 0xF0, 0x80, 0x21, 0x80]))
     (mcs_recv_disconnect_provider_ultimatum (adv 8 (packet [3, 0, 0, 9, 2, 0xF0, 0x80, 0x21, 0x80]))) \<and>
   mcs_recv_disconnect_provider_ultimatum (packet [1, 2, 3]) = Abort"
proof (intro conjI)
  show "inside (packet [3, 0, 0, 5, 2]) (mcs_recv_channel_join_confirm (example_mcs, packet [3, 0, 0, 5, 2]))"
    using mcs_handlers_stay_inside [of "packet [3, 0, 0, 5, 2]" example_mcs False] by (simp add: packet_wf)
  let ?s = "adv 8 (packet [3, 0, 0, 9, 2, 0xF0, 0x80, 0x21, 0x80])"
  have "wf_stream ?s" by (rule wf_adv) (simp_all add: packet_wf)
  moreover have "0 < Stream_GetPosition ?s" by (simp add: Stream_GetPosition_def)
  ultimately show "read_inside ?s (mcs_recv_disconnect_provider_ultimatum ?s)"
    using mcs_handlers_stay_inside [of ?s example_mcs False] by blast
  have "wf_stream (packet [1, 2, 3])" "rest (packet [1, 2, 3]) \<noteq> []" by (simp_all add: packet_wf)
  moreover have "Stream_GetPosition (packet [1, 2, 3]) = 0" by (simp add: packet_def Stream_GetPosition_def Stream_StaticInit_def)
  ultimately show "mcs_recv_disconnect_provider_ultimatum (packet [1, 2, 3]) = Abort"
    using mcs_handlers_stay_inside [of "packet [1, 2, 3]" example_mcs False] by blast
qed

text \<open>C15: A server hands out the user ids in ascending order: the confirmation it sends carries
  its base channel id, which it keeps as the user id of the connection and then increments, and
  a client that receives these bytes takes the id over and has read the packet to its end.\<close>

theorem attach_user_exchange:
  assumes "MCS_BASE_CHANNEL_ID \<le> baseChannelId (mcs ctx)" and "heap ctx 11" and "WritePdu ctx = Some queue_pdu"
  shows "\<exists>bs. mcs_send_attach_user_confirm ctx =
       Ret () (ctx\<lparr>mcs := (mcs ctx)\<lparr>userId := baseChannelId (mcs ctx), baseChannelId := baseChannelId (mcs ctx) + 1\<rparr>,
                   transport := transport ctx @ [bs]\<rparr>) \<and>
     (\<forall>client s. wf_stream s \<and> rest s = bs \<longrightarrow>
        (\<exists>t. mcs_recv_attach_user_confirm (client, s) = Ret () (client\<lparr>userId := baseChannelId (mcs ctx)\<rparr>, t) \<and>
             rest t = []))"
  using attach_confirm.exchange [of "baseChannelId (mcs ctx)" ctx] assms
  by (auto simp: attach_ready_def)

theorem attach_user_exchange_witness:
  "\<exists>bs. mcs_send_attach_user_confirm example_context =
     Ret () (example_context\<lparr>mcs := example_mcs\<lparr>userId := 1008, baseChannelId := 1009\<rparr>, transport := [bs]\<rparr>)"
  using attach_user_exchange [of example_context]
  by (auto simp: example_context_def example_mcs_def mcs_consts)

text \<open>C14: The request a client sends for a channel is accepted by the server that gave it the
  user id, which gets back exactly the channel id, and refused by a server that knows the client
  under another id, unless it replays a recorded connection.\<close>

theorem channel_join_request_exchange:
  assumes "MCS_BASE_CHANNEL_ID \<le> userId (mcs ctx)" and "heap ctx 12" and "WritePdu ctx = Some queue_pdu"
  shows "\<exists>bs. mcs_send_channel_join_request chan ctx = Ret () (ctx\<lparr>transport := transport ctx @ [bs]\<rparr>) \<and>
     (\<forall>server s. wf_stream s \<and> rest s = bs \<longrightarrow>
        (if userId server = userId (mcs ctx)
         then \<exists>t. mcs_recv_channel_join_request False (server, s) = Ret chan (server, t) \<and> rest t = []
         else \<exists>t. mcs_recv_channel_join_request False (server, s) = Fail (server, t)))"
proof -
  let ?e = "enc_channel_join_request (userId (mcs ctx)) chan"
  have "mcs_send_channel_join_request chan ctx = Ret () (ctx\<lparr>transport := transport ctx @ [?e]\<rparr>)"
    using send_channel_join_request [OF assms(1)] assms(2,3) by (simp add: deliver_queue)
  moreover have "if userId server = userId (mcs ctx)
      then \<exists>t. mcs_recv_channel_join_request False (server, s) = Ret chan (server, t) \<and> rest t = []
      else \<exists>t. mcs_recv_channel_join_request False (server, s) = Fail (server, t)"
    if s: "wf_stream s" "rest s = ?e" for server :: rdpMcs and s
    using recv_channel_join_request [OF assms(1) s, of False server] s(2)
    by (auto simp: rest_adv)
  ultimately show ?thesis by blast
qed

theorem channel_join_request_exchange_witness:
  "\<exists>bs. mcs_send_channel_join_request 1004 example_context = Ret () (example_context\<lparr>transport := [bs]\<rparr>)"
  using channel_join_request_exchange [of example_context 1004]
  by (auto simp: example_context_def example_mcs_def mcs_consts)

text \<open>C24: The disconnect ultimatum does not carry the reason: whatever reason the caller asks
  for, the bytes sent are the same, and the peer reads the reason "user requested" (3).\<close>

theorem ultimatum_says_user_requested:
  assumes "0 \<le> reason" and "reason \<le> 255" and "heap ctx 9" and "WritePdu ctx = Some queue_pdu"
    and "wf_stream s"
  shows "\<exists>bs. mcs_send_disconnect_provider_ultimatum reason ctx = Ret () (ctx\<lparr>transport := transport ctx @ [bs]\<rparr>) \<and>
     (rest s = bs \<longrightarrow> mcs_recv_disconnect_provider_ultimatum (adv 8 s) = Ret 3 (adv 9 s))"
  using send_ultimatum [OF assms(1,2), of ctx] recv_ultimatum [OF assms(5)] assms(3,4)
  by (auto simp: deliver_queue)

theorem ultimatum_says_user_requested_witness:
  "mcs_send_disconnect_provider_ultimatum 1 example_context =
     Ret () (example_context\<lparr>transport := [[3, 0, 0, 9, 2, 0xF0, 0x80, 0x21, 0x80]]\<rparr>) \<and>
   mcs_recv_disconnect_provider_ultimatum (adv 8 (packet [3, 0, 0, 9, 2, 0xF0, 0x80, 0x21, 0x80])) =
     Ret 3 (adv 9 (packet [3, 0, 0, 9, 2, 0xF0, 0x80, 0x21, 0x80]))"
proof -
  let ?bs = "[3, 0, 0, 9, 2, 0xF0, 0x80, 0x21, 0x80]"
  have "enc_ultimatum = ?bs" by code_simp
  then have sent: "mcs_send_disconnect_provider_ultimatum 1 example_context = Ret () (example_context\<lparr>transport := [?bs]\<rparr>)"
    using send_ultimatum [of 1 example_context] by (simp add: example_context_def deliver_queue)
  have "wf_stream (packet ?bs)" "rest (packet ?bs) = ?bs" by (simp_all add: packet_wf)
  then show ?thesis
    using sent ultimatum_says_user_requested [of 1 example_context "packet ?bs"]
    by (auto simp: example_context_def)
qed

section \<open>The domain parameters\<close>

text \<open>C16: Domain parameters written into a stream are read back field by field, for all
  parameters the BER writer can write.\<close>

theorem domain_parameters_roundtrip:
  assumes "domain_parameters_valid p" and "room (length (enc_domain_parameters p)) s"
    and "grants s (Stream_Capacity s)"
  shows "mcs_write_domain_parameters p s = Ret () (put (enc_domain_parameters p) s) \<and>
     (\<forall>t q ys. wf_stream t \<and> rest t = enc_domain_parameters p @ ys \<longrightarrow>
        (\<exists>u. mcs_read_domain_parameters (q, t) = Ret () (p, u) \<and> rest u = ys))"
proof -
  have "mcs_write_domain_parameters p s = Ret () (put (enc_domain_parameters p) s)"
    using emits_allocD [OF emits_domain_parameters [OF assms(1)] assms(2,3)] .
  then show ?thesis using read_domain_parameters [OF assms(1)] by (auto simp: rest_adv)
qed

theorem domain_parameters_roundtrip_witness:
  "\<exists>s. mcs_write_domain_parameters example_params s = Ret () (put (enc_domain_parameters example_params) s) \<and>
     Stream_Capacity s = 100"
proof -
  have len: "length (enc_domain_parameters example_params) \<le> 52"
    using length_enc_domain_fields [of example_params]
    by (simp add: enc_domain_parameters_def enc_ber_sequence_def ber_sizeof_length_def)
  let ?s = "Stream_StaticInit (\<lambda>_. True) (replicate 100 0)"
  have "domain_parameters_valid example_params"
    by (simp add: domain_parameters_valid_def domain_parameter_list_def example_params_def ber_integer_valid_def)
  then show ?thesis
    using domain_parameters_roundtrip [of example_params ?s] len
    by (intro exI [of _ ?s]) (simp add: room_def Stream_Capacity_def Stream_StaticInit_def bounds_defs)
qed

text \<open>C17: The merge of the parameters a client offers succeeds exactly when each of them can be
  settled, and then the agreed parameters are: at least 4 channel ids and 3 user ids, the token
  ids and the throughput of the client, one priority, height 1, protocol version 2, and a PDU
  size that is the target clipped to 65528 when the target is at least 1024, and the maximum of
  the client otherwise.\<close>

theorem merge_domain_parameters_spec:
  "if mergeable target mn mx
   then mcs_merge_domain_parameters target mn mx out = Ret () (merged target mx)
   else \<exists>p. mcs_merge_domain_parameters target mn mx out = Fail p"
  by (simp add: merge_succeeds merge_fails)

text \<open>C18: A client that offers between 0x10000 and 0x7FFFFF channel ids passes the merge, and the
  server that then writes its connect response runs into an assertion of the BER writer.\<close>

theorem offered_channel_ids_abort_the_response:
  assumes "mergeable target mn mx" and "0x10000 \<le> maxChannelIds target" and "maxChannelIds target < 0x800000"
    and "grants s (Stream_Capacity s)" and "16 \<le> Stream_Capacity s" and "Stream_Capacity s \<le> SIZE_MAX"
  shows "\<exists>agreed. mcs_merge_domain_parameters target mn mx out = Ret () agreed \<and>
     mcs_write_connect_response (m\<lparr>domainParameters := agreed\<rparr>) userData s = Abort"
proof -
  have "4 \<le> maxChannelIds target" using assms(2) by (rule order_trans [rotated]) simp
  then have "maxChannelIds (merged target mx) = maxChannelIds target" by (simp add: merged_def max_def)
  moreover have "\<not> ber_integer_valid (maxChannelIds target)"
    using assms(2,3) by (simp add: ber_integer_valid_def word_le_nat_alt word_less_nat_alt)
  ultimately show ?thesis
    using assms by (intro exI [of _ "merged target mx"]) (simp add: merge_succeeds connect_response_aborts)
qed

theorem offered_channel_ids_abort_the_response_witness:
  "\<exists>agreed. mcs_merge_domain_parameters (example_params\<lparr>maxChannelIds := 0x10000, maxUserIds := 3\<rparr>)
       example_params example_params example_params = Ret () agreed \<and>
     mcs_write_connect_response (example_mcs\<lparr>domainParameters := agreed\<rparr>) [1, 2]
       (Stream_StaticInit (\<lambda>_. True) (replicate 64 0)) = Abort"
  by (rule offered_channel_ids_abort_the_response)
     (simp_all add: mergeable_def example_params_def Stream_Capacity_def Stream_StaticInit_def bounds_defs)

section \<open>TPKT, BER and PER\<close>

text \<open>C19: The TPKT header reader is the specification on the unread bytes: a first byte other
  than 3 is not TPKT (length 0, nothing is consumed); a TPKT header needs its four bytes, a
  length of at least 7, and that many bytes in the packet; then the length is returned and the
  four bytes are consumed.\<close>

theorem tpkt_read_header_spec:
  assumes "wf_stream s"
  shows "case tpkt_spec (rest s) of
      None \<Rightarrow> \<exists>t. tpkt_read_header s = Fail t
    | Some len \<Rightarrow> tpkt_read_header s = Ret len (if len = 0 then s else adv TPKT_HEADER_LENGTH s)"
  using assms by (rule tpkt_header_refines)

theorem tpkt_read_header_spec_witness:
  "tpkt_read_header (packet [3, 0, 0, 8, 2, 0xF0, 0x80, 0x28]) =
     Ret 8 (adv TPKT_HEADER_LENGTH (packet [3, 0, 0, 8, 2, 0xF0, 0x80, 0x28]))"
  using tpkt_read_header_spec [of "packet [3, 0, 0, 8, 2, 0xF0, 0x80, 0x28]"]
  by (simp add: packet_wf winpr_Data_Get_UINT16_BE_def Let_def shift_in_def)

text \<open>A sequence of BER integers that the writer can write is read back as it was written,
  and nothing is left over.\<close>

theorem ber_integers_roundtrip:
  assumes "\<forall>v \<in> set vs. v \<le> 0xFFFF \<or> v \<ge> 0x800000" and "pointer s = 0"
    and "room (\<Sum>v\<leftarrow>vs. ber_sizeof_integer v) s"
  shows "\<exists>t. write_then_read (write_all ber_write_integer vs) (read_n ber_read_integer (length vs)) s = Ret vs t \<and>
     rest t = []"
  using ber_integer.roundtrip_all [of vs s] assms
  by (simp add: ber_integer_valid_def length_concat comp_def)

theorem ber_integers_roundtrip_witness:
  "\<exists>t. write_then_read (write_all ber_write_integer [5, 0x1234, 0xDEADBEEF]) (read_n ber_read_integer 3)
     (Stream_StaticInit (\<lambda>_. True) (replicate 32 0)) = Ret [5, 0x1234, 0xDEADBEEF] t \<and> rest t = []"
  using ber_integers_roundtrip [of "[5, 0x1234, 0xDEADBEEF]" "Stream_StaticInit (\<lambda>_. True) (replicate 32 0)"]
  by (simp add: Stream_StaticInit_def room_def Stream_Capacity_def bounds_defs ber_sizeof_integer_def numeral_3_eq_3)

text \<open>C20: On a stream with room for it, the BER integer writer runs into an assertion exactly for
  the values from 0x10000 to 0x7FFFFF, the ones its three-byte branch is meant for.\<close>

theorem ber_write_integer_aborts_iff:
  assumes "room (ber_sizeof_integer v) s"
  shows "ber_write_integer v s = Abort \<longleftrightarrow> 0xFFFF < v \<and> v < 0x800000"
proof (cases "ber_integer_valid v")
  case True
  then obtain r where "emits (ber_write_integer v) (enc_ber_integer v) r"
    using ber_integer.wr_emits by blast
  from emitsD [OF this, of s] assms True show ?thesis by (auto simp: ber_integer_valid_def)
next
  case False
  with ber_integer_aborts [OF False] show ?thesis by (auto simp: aborts_def ber_integer_valid_def)
qed

theorem ber_write_integer_aborts_iff_witness:
  "ber_write_integer 0x10000 (Stream_StaticInit (\<lambda>_. True) (replicate 32 0)) = Abort"
  using ber_write_integer_aborts_iff [of "0x10000" "Stream_StaticInit (\<lambda>_. True) (replicate 32 0)"]
  by (simp add: Stream_StaticInit_def room_def Stream_Capacity_def bounds_defs ber_sizeof_integer_def)

text \<open>Any PER integer can be written, and the reader gives it back if it fits in two bytes and
  refuses it otherwise: the four-byte form of the writer has no counterpart.\<close>

theorem per_integer_write_then_read:
  assumes "pointer s = 0" and "room (length (enc_per_integer v)) s"
  shows "\<exists>t. write_then_read (per_write_integer v) per_read_integer s = (if v \<le> 0xFFFF then Ret v t else Fail t)"
proof (cases "v \<le> 0xFFFF")
  case True
  with per_integer.roundtrip [of v s] assms show ?thesis by (auto simp: per_integer_valid_def)
next
  case False
  have "emits (per_write_integer v) (enc_per_integer v) ()"
    using emits_per_integer [where k = ret and bs = "[]", OF emits_ret] by (simp add: bindp_ret)
  then have 1: "per_write_integer v s = Ret () (put (enc_per_integer v) s)"
    using assms(2) by (rule emitsD)
  let ?t = "(put (enc_per_integer v) s)\<lparr>slength := length (enc_per_integer v), pointer := 0\<rparr>"
  have t: "wf_stream ?t" "rest ?t = enc_per_integer v"
    using assms by (auto simp: wf_stream_def rest_def room_def put_def overwrite_def Stream_Capacity_def)
  have 3: "length (enc_per_integer v) \<le> Stream_Capacity (put (enc_per_integer v) s)"
    using assms by (simp, simp add: room_def)
  have "per_read_integer ?t = Fail (adv 1 ?t)" using False t by (intro per_read_wide_integer) auto
  with 1 3 assms(1) False show ?thesis
    by (simp add: write_then_read_def bindp_def Stream_SealLength_def Stream_ResetPosition_def)
qed

theorem per_integer_write_then_read_witness:
  "\<exists>t. write_then_read (per_write_integer 0x10000) per_read_integer
     (Stream_StaticInit (\<lambda>_. True) (replicate 8 0)) = Fail t"
  using per_integer_write_then_read [of "Stream_StaticInit (\<lambda>_. True) (replicate 8 0)" "0x10000"]
  by (simp add: Stream_StaticInit_def room_def Stream_Capacity_def bounds_defs enc_per_integer_def enc_per_length_def)

text \<open>The PER length field has fifteen bits: the reader gives back the length modulo 0x8000,
  so that every length below that is kept and the larger ones are cut.\<close>

theorem per_length_write_then_read:
  assumes "pointer s = 0" and "room 2 s"
  shows "\<exists>t. write_then_read (per_write_length len) per_read_length s = Ret (len AND 0x7FFF) t \<and> rest t = []"
proof (rule write_then_read_Ret)
  show "emits (per_write_length len) (enc_per_length len) ()"
    using emits_per_length [where k = ret and bs = "[]", OF emits_ret] by (simp add: bindp_ret)
  show "room (length (enc_per_length len)) s"
    using assms(2) by (rule room_less) (simp add: enc_per_length_def)
qed (use assms parses_any_length in auto)

theorem per_length_write_then_read_witness:
  "\<exists>t. write_then_read (per_write_length 0x8005) per_read_length
     (Stream_StaticInit (\<lambda>_. True) (replicate 8 0)) = Ret 5 t"
  using per_length_write_then_read [of "Stream_StaticInit (\<lambda>_. True) (replicate 8 0)" "0x8005"]
  by (auto simp: Stream_StaticInit_def room_def Stream_Capacity_def bounds_defs)

text \<open>An object identifier whose first pair fits in its octet is accepted by the reader exactly
  when it is the one the reader expects.\<close>

theorem per_object_identifier_checked:
  assumes "per_oid_valid oid" and "pointer s = 0" and "room 6 s"
  shows "\<exists>t. write_then_read (per_write_object_identifier oid) (per_read_object_identifier expected) s =
     (if oid = expected then Ret () t else Fail t)"
proof -
  have 1: "per_write_object_identifier oid s = Ret () (put (enc_per_oid oid) s)"
    by (rule emitsD [OF emits_per_oid]) (use assms(3) in simp)
  let ?t = "(put (enc_per_oid oid) s)\<lparr>slength := 6, pointer := 0\<rparr>"
  have t: "wf_stream ?t" "rest ?t = enc_per_oid oid @ []"
    using assms by (auto simp: wf_stream_def rest_def room_def put_def overwrite_def Stream_Capacity_def)
  have 3: "6 \<le> Stream_Capacity (put (enc_per_oid oid) s)"
    using assms by (simp add: room_def)
  from per_read_oid_spec [OF assms(1) t, of expected] 1 3 assms(2) show ?thesis
    by (simp add: write_then_read_def bindp_def Stream_SealLength_def Stream_ResetPosition_def)
qed

text \<open>The GCC identifier \<^verbatim>\<open>t124_02_98_oid\<close> of the conference create request.\<close>

theorem per_object_identifier_checked_witness:
  "\<exists>t. write_then_read (per_write_object_identifier [0, 0, 20, 124, 0, 1])
     (per_read_object_identifier [0, 0, 20, 124, 0, 1]) (Stream_StaticInit (\<lambda>_. True) (replicate 8 0)) = Ret () t"
  using per_object_identifier_checked [of "[0, 0, 20, 124, 0, 1]" "Stream_StaticInit (\<lambda>_. True) (replicate 8 0)"
    "[0, 0, 20, 124, 0, 1]"]
  by (simp add: per_oid_valid_def Stream_StaticInit_def room_def Stream_Capacity_def bounds_defs)

text \<open>C12: Whatever the bytes, no reader of the TPKT, TPDU, BER and PER layers runs into an assertion or leaves the
  packet: these are all the readers of \<^verbatim>\<open>tpkt.c\<close>, \<^verbatim>\<open>tpdu.c\<close>, \<^verbatim>\<open>ber.c\<close> and \<^verbatim>\<open>per.c\<close>, whatever the
  character conversion \<open>conv\<close> of the last one of \<^verbatim>\<open>ber.c\<close> answers.\<close>

theorem readers_stay_inside:
  assumes "wf_stream s"
  shows "read_inside s (tpkt_verify_header s) \<and> read_inside s (tpkt_read_header s) \<and>
     read_inside s (tpkt_ensure_stream_consumed len s) \<and> read_inside s (tpdu_read_header l s) \<and>
     read_inside s (tpdu_read_connection_request l s) \<and> read_inside s (tpdu_read_connection_confirm l s) \<and>
     read_inside s (tpdu_read_data l s) \<and>
     read_inside s (ber_read_length s) \<and> read_inside s (ber_read_universal_tag tag pc s) \<and>
     read_inside s (ber_read_application_tag tag s) \<and>
     read_inside s (ber_read_contextual_tag tag pc s) \<and> read_inside s (ber_read_sequence_tag s) \<and>
     read_inside s (ber_read_enumerated items s) \<and> read_inside s (ber_read_bit_string s) \<and>
     read_inside s (ber_read_octet_string_tag s) \<and> read_inside s (ber_read_octet_string s) \<and>
     read_inside s (ber_read_BOOL s) \<and> read_inside s (ber_read_integer s) \<and>
     read_inside s (ber_skip_integer s) \<and> read_inside s (ber_read_integer_length s) \<and>
     read_inside s (ber_read_unicode_octet_string s) \<and>
     read_inside s (ber_read_char_from_unicode_octet_string conv s) \<and>
     read_inside s (per_read_length s) \<and> read_inside s (per_read_choice s) \<and>
     read_inside s (per_read_selection s) \<and> read_inside s (per_read_number_of_sets s) \<and>
     read_inside s (per_read_padding mn s) \<and> read_inside s (per_read_integer s) \<and>
     read_inside s (per_read_integer16 mn s) \<and> read_inside s (per_read_enumerated items s) \<and>
     read_inside s (per_read_object_identifier oid s) \<and> read_inside s (per_read_octet_string os mn s) \<and>
     read_inside s (per_read_numeric_string mn s)"
  by (intro conjI reads_inside assms)
     (rule reads_tpkt_verify_header reads_tpkt_header reads_ensure_consumed reads_tpdu_header
       reads_tpdu_connection_request reads_tpdu_connection_confirm
       reads_tpdu_data reads_ber_length reads_ber_universal_tag reads_ber_application_tag reads_ber_contextual_tag
       reads_ber_sequence_tag reads_ber_enumerated reads_ber_bit_string reads_ber_octet_string_tag
       reads_ber_octet_string reads_ber_BOOL reads_ber_integer reads_ber_skip_integer reads_ber_integer_length
       reads_ber_unicode_octet_string reads_ber_char_from_unicode
       reads_per_length reads_per_octet reads_per_padding reads_per_integer reads_per_integer16 reads_per_enumerated
       reads_per_object_identifier reads_per_octet_string reads_per_numeric_string)+

text \<open>An integer whose length runs past the packet, and an empty packet.\<close>

theorem readers_stay_inside_witness:
  "read_inside (packet [0x02, 0x84, 0xFF, 0xFF]) (ber_read_integer (packet [0x02, 0x84, 0xFF, 0xFF])) \<and>
   read_inside (packet []) (per_read_choice (packet [])) \<and> read_inside (packet []) (tpkt_verify_header (packet []))"
  using readers_stay_inside [of "packet [0x02, 0x84, 0xFF, 0xFF]"] readers_stay_inside [of "packet []"]
  by (simp add: packet_wf)

text \<open>A writer that asks a stream for room gets it or an unchanged stream: the bytes written so
  far and the position stay, and the new part of the buffer is zeroed.\<close>

theorem ensure_remaining_capacity_spec:
  assumes "pointer s \<le> Stream_Capacity s" and "Stream_Capacity s + n + 128 \<le> SIZE_MAX"
  shows "case Stream_EnsureRemainingCapacity n s of
      Abort \<Rightarrow> False
    | Fail t \<Rightarrow> t = s
    | Ret _ t \<Rightarrow> pointer t = pointer s \<and> pointer t + n \<le> Stream_Capacity t \<and>
        (\<exists>k. buffer t = buffer s @ replicate k 0)"
proof -
  have "sz \<le> grown_capacity sz" for sz
    using mod_less_divisor [of 128 sz] by (simp add: grown_capacity_def)
  from this [of "Stream_Capacity s + n"] assms(1) show ?thesis
    by (auto simp: ensure_remaining_ok [OF assms] Stream_Capacity_def)
qed

theorem ensure_remaining_capacity_spec_witness:
  "case Stream_EnsureRemainingCapacity 4 (Stream_StaticInit (\<lambda>_. True) [1, 2]) of
      Abort \<Rightarrow> False
    | Fail t \<Rightarrow> t = Stream_StaticInit (\<lambda>_. True) [1, 2]
    | Ret _ t \<Rightarrow> pointer t = 0 \<and> 4 \<le> Stream_Capacity t \<and> (\<exists>k. buffer t = [1, 2] @ replicate k 0)"
  using ensure_remaining_capacity_spec [of "Stream_StaticInit (\<lambda>_. True) [1, 2]" 4]
  by (simp add: Stream_StaticInit_def Stream_Capacity_def bounds_defs split: outcome.splits)

section \<open>The ring and the buffered BIO\<close>

text \<open>C10: A fresh ring, of whatever initial size, is a queue of bytes: for every sequence of
  writes, peeks and commits of read bytes its client sees what it would see of a plain queue,
  through every growing, shrinking and wrap-around of the array, and the program stops exactly
  where more bytes are given up than there are. The allocator is assumed to grant what is asked.\<close>

theorem ring_is_a_queue:
  assumes "0 < n" and "\<And>k. grant k"
  shows "\<exists>rb. ringbuffer_init grant n = Some rb \<and>
     map_option (\<lambda>(outs, rb'). (outs, rb_content rb')) (ring_run grant ops rb) = queue_run ops []"
proof -
  from assms(2) have "grant n" .
  from ringbuffer_init_inv [where grant = grant and n = n, OF assms(1) this] obtain rb where
    rb: "ringbuffer_init grant n = Some rb" "rb_inv rb" "rb_content rb = []" .
  with ring_run_queue [where grant = grant and ops = ops, OF assms(2) rb(2)] show ?thesis by auto
qed

theorem ring_is_a_queue_witness:
  "\<exists>rb. ringbuffer_init (\<lambda>_. True) 4 = Some rb \<and>
     map_option (\<lambda>(outs, rb'). (outs, rb_content rb'))
       (ring_run (\<lambda>_. True) [Store [1, 2, 3], Give_up 2, Store [4, 5], Look 9] rb) = Some ([[3, 4, 5]], [3, 4, 5])"
  using ring_is_a_queue [of 4 "\<lambda>_. True" "[Store [1, 2, 3], Give_up 2, Store [4, 5], Look 9]"] by simp

text \<open>A write into a ring either appends the bytes or, when the ring has to grow and the
  allocator refuses, fails and leaves the ring as it was.\<close>

theorem ring_write_is_atomic:
  assumes "rb_inv rb"
  shows "ringbuffer_write grant bs rb = Fail rb \<and> \<not> grant (rb_size rb + length bs) \<or>
     (\<exists>rb'. ringbuffer_write grant bs rb = Ret () rb' \<and> rb_inv rb' \<and> rb_content rb' = rb_content rb @ bs)"
  using ringbuffer_write_spec [OF assms, of grant bs] by auto

theorem ring_write_is_atomic_witness:
  "ringbuffer_write (\<lambda>n. n < 5) [7, 8] \<lparr>initialSize = 4, freeSize = 1, rb_size = 4, readPtr = 2, writePtr = 1,
       rb_buffer = [3, 0, 1, 2]\<rparr> =
     Fail \<lparr>initialSize = 4, freeSize = 1, rb_size = 4, readPtr = 2, writePtr = 1, rb_buffer = [3, 0, 1, 2]\<rparr> \<or>
   (\<exists>rb'. ringbuffer_write (\<lambda>n. n < 5) [7, 8] \<lparr>initialSize = 4, freeSize = 1, rb_size = 4, readPtr = 2, writePtr = 1,
       rb_buffer = [3, 0, 1, 2]\<rparr> = Ret () rb')"
  using ring_write_is_atomic [of "\<lparr>initialSize = 4, freeSize = 1, rb_size = 4, readPtr = 2, writePtr = 1,
       rb_buffer = [3, 0, 1, 2]\<rparr>" "\<lambda>n. n < 5" "[7, 8]"]
  by (auto simp: rb_inv_def ringbuffer_used_def)

text \<open>Writing in place (asking for linear room, filling it, committing it) appends the bytes,
  unless they fill the free space of the ring to the last byte.\<close>

theorem linear_write_appends:
  assumes "rb_inv rb" and "freeSize rb \<noteq> length bs" and "grant (rb_size rb + length bs - freeSize rb + 32)"
  shows "\<exists>off rb1 rb2. ringbuffer_ensure_linear_write grant (length bs) rb = Ret off rb1 \<and>
     ringbuffer_commit_written_bytes (length bs) (ring_fill off bs rb1) = Ret () rb2 \<and>
     rb_inv rb2 \<and> rb_content rb2 = rb_content rb @ bs"
  using linear_write_spec [where grant = grant and rb = rb and bs = bs, OF assms]
  by (auto simp: linear_write_def elim!: bindp_RetE)

theorem linear_write_appends_witness:
  "\<exists>off rb1 rb2. ringbuffer_ensure_linear_write (\<lambda>_. True) 2
       \<lparr>initialSize = 4, freeSize = 3, rb_size = 4, readPtr = 3, writePtr = 0, rb_buffer = [0, 0, 0, 9]\<rparr> = Ret off rb1 \<and>
     ringbuffer_commit_written_bytes 2 (ring_fill off [7, 8] rb1) = Ret () rb2 \<and>
     rb_inv rb2 \<and> rb_content rb2 = [9, 7, 8]"
proof -
  let ?rb = "\<lparr>initialSize = 4, freeSize = 3, rb_size = 4, readPtr = 3, writePtr = 0, rb_buffer = [0, 0, 0, 9]\<rparr>"
  have "rb_inv ?rb" "rb_content ?rb = [9]" by (simp_all add: rb_inv_def ringbuffer_used_def rb_content_def)
  with linear_write_appends [of ?rb "[7, 8]" "\<lambda>_. True"] show ?thesis
    by (simp add: numeral_2_eq_2)
qed



text \<open>The simple socket BIO over a kernel that takes what \<open>kernel\<close> says; its read and control
  functions do not matter to a writer.\<close>

abbreviation socket_bio :: "simpleBio BIO" where
  "socket_bio \<equiv> simple_bio (\<lambda>_ b. ((-1, []), b)) (\<lambda>_ _ b. (0, b))"

definition example_bio :: "simpleBio bufferedBio" where
  "example_bio = \<lparr>readBlocked = False, writeBlocked = False,
     xmitBuffer = \<lparr>initialSize = 4, freeSize = 4, rb_size = 4, readPtr = 0, writePtr = 0, rb_buffer = [0, 0, 0, 0]\<rparr>,
     flag_read = False, flag_write = False, flag_should_retry = True,
     next_bio = \<lparr>simple_socket = \<lparr>kernel = (\<lambda>_. Errs WSAEWOULDBLOCK), calls = 0, wire = []\<rparr>,
                 simple_read = False, simple_write = False, simple_retry = False\<rparr>\<rparr>"

text \<open>C9: Whatever the kernel answers to each send, every sequence of writes and flushes of the
  buffered BIO over the simple socket BIO returns, and at its end the bytes on the wire followed
  by the bytes held in the ring are those of the start followed by the bytes written, in order:
  no byte is lost, duplicated or reordered, by short writes, blocked sends or fatal errors.\<close>

theorem buffered_bio_keeps_the_stream:
  assumes "rb_inv (xmitBuffer bio)" and "\<And>n. grant n"
  shows "\<exists>bio'. bio_run grant (simple_bio rd ctl) rs bio = Some bio' \<and> rb_inv (xmitBuffer bio') \<and>
     wire (simple_socket (next_bio bio')) @ rb_content (xmitBuffer bio') =
       wire (simple_socket (next_bio bio)) @ rb_content (xmitBuffer bio) @ concat (map request_bytes rs)"
  using simple.bio_run_ok [where grant = grant and bio = bio, OF assms(2,1)] .

theorem buffered_bio_keeps_the_stream_witness:
  "\<exists>bio'. bio_run (\<lambda>_. True) socket_bio [Send [1, 2, 3, 4, 5], Flush, Send [6]] example_bio = Some bio' \<and>
     wire (simple_socket (next_bio bio')) @ rb_content (xmitBuffer bio') = [1, 2, 3, 4, 5, 6]"
proof -
  have "rb_inv (xmitBuffer example_bio)" "rb_content (xmitBuffer example_bio) = []"
    "wire (simple_socket (next_bio example_bio)) = []"
    by (simp_all add: example_bio_def rb_inv_def ringbuffer_used_def rb_content_def)
  with buffered_bio_keeps_the_stream [of example_bio "\<lambda>_. True" "\<lambda>_ b. ((-1, []), b)" "\<lambda>_ _ b. (0, b)"
    "[Send [1, 2, 3, 4, 5], Flush, Send [6]]"] show ?thesis by (auto simp del: bio_run.simps)
qed

text \<open>C22: A write of the buffered BIO over the socket BIO always returns, with the number of bytes
  it was given or with -1, also when the ring cannot grow; when it returns the number of bytes
  and does not mark the BIO as blocked, everything held has gone out.\<close>

theorem buffered_write_reports:
  assumes "rb_inv (xmitBuffer bio)" and "0 \<le> num"
  shows "\<exists>st bio'. transport_bio_buffered_write grant (simple_bio rd ctl) buf num bio = Some (Ret st bio') \<and>
     (st = num \<or> st = -1) \<and> (st = num \<and> \<not> writeBlocked bio' \<longrightarrow> rb_content (xmitBuffer bio') = [])"
  using simple.buffered_write_ok [OF assms, of grant rd ctl buf] by blast

theorem buffered_write_reports_witness:
  "\<exists>st bio'. transport_bio_buffered_write (\<lambda>_. True) socket_bio (Some [1, 2]) 2 example_bio = Some (Ret st bio') \<and>
     (st = 2 \<or> st = -1)"
  using buffered_write_reports [of example_bio 2 "\<lambda>_. True" "\<lambda>_ b. ((-1, []), b)" "\<lambda>_ _ b. (0, b)" "Some [1, 2]"]
  by (auto simp: example_bio_def rb_inv_def ringbuffer_used_def)

text \<open>C23: The sending loop depends on the BIO below asking for a write when it asks for a retry:
  over one that only asks for the retry, and never takes a byte, a write of the buffered BIO does
  not return.\<close>

theorem buffered_write_spins:
  assumes "bio_stuck io" and "rb_inv (xmitBuffer bio)" and "\<And>k. grant k" and "bs \<noteq> []"
  shows "transport_bio_buffered_write grant io (Some bs) (int (length bs)) bio = None"
  using buffered_write_stuck [where grant = grant and io = io and bio = bio, OF assms] .

theorem buffered_write_spins_witness:
  "transport_bio_buffered_write (\<lambda>_. True)
     \<lparr>BIO_write = (\<lambda>_ b. (-1, b)), BIO_read = (\<lambda>_ b. ((-1, []), b)), BIO_should_retry = (\<lambda>_. True),
      BIO_should_write = (\<lambda>_. False), BIO_should_read = (\<lambda>_. True), BIO_ctrl = (\<lambda>_ _ b. (0, b))\<rparr>
     (Some [1, 2]) 2 example_bio = None"
  using buffered_write_spins [of "\<lparr>BIO_write = (\<lambda>_ b. (-1, b)), BIO_read = (\<lambda>_ b. ((-1, []), b)),
      BIO_should_retry = (\<lambda>_. True), BIO_should_write = (\<lambda>_. False), BIO_should_read = (\<lambda>_. True),
      BIO_ctrl = (\<lambda>_ _ b. (0, b))\<rparr>" example_bio "\<lambda>_. True" "[1, 2]"]
  by (simp add: bio_stuck_def example_bio_def rb_inv_def ringbuffer_used_def)

section \<open>Negotiating the security protocol\<close>

text \<open>C25: Over any transport and any server the negotiation of a client ends: the loop of attempts
  returns, whatever the server answers and whatever the transport reports, because every attempt
  that does not settle the matter is followed by one with a weaker protocol.\<close>

theorem negotiation_ends: "\<exists>r. nego_connect T nego = Some r"
  by (rule nego_connect_defined)

text \<open>C26: A client that does not allow the standard security of RDP is never talked into a protocol it
  did not enable: when the negotiation succeeds, the protocol selected is one of the six the client
  knows, it was enabled when the negotiation started, and its security layer is connected.\<close>

theorem only_enabled_protocols_are_connected:
  assumes "nego_connect T nego = Some (Ret () nego')" and "nego_state nego = NEGO_STATE_INITIAL"
    and "NegotiateSecurityLayer nego" and "\<not> enabled PROTOCOL_RDP nego"
  shows "SelectedProtocol nego' \<in> set negotiable \<and> enabled (SelectedProtocol nego') nego \<and> SecurityConnected nego'"
  by (rule nego_connect_selected [OF assms])

theorem only_enabled_protocols_are_connected_witness:
  "\<exists>m. nego_connect scripted (tls_client [enc_response tls_server]) = Some (Ret () m) \<and>
     SelectedProtocol m \<in> set negotiable \<and>
     enabled (SelectedProtocol m) (tls_client [enc_response tls_server]) \<and> SecurityConnected m"
proof -
  obtain m where m: "nego_connect scripted (tls_client [enc_response tls_server]) = Some (Ret () m)"
    using tls_run_connects by blast
  then show ?thesis
    using only_enabled_protocols_are_connected [OF m]
    by (auto simp: enabled_def nego_consts split: if_splits)
qed

text \<open>C27: The standard security of RDP opens a gap. Take any client that has enabled NLA and the standard security
  and nothing else, over any transport that delivers the answers of the server and sets up any security layer.
  When the server first selects some protocol the client has not enabled, the client refuses it; when the server
  then answers the request for standard security without naming a protocol, the client connects the
  protocol that it has refused, which is still the selected one.\<close>

theorem refused_protocol_is_connected:
  assumes "delivers T inbox" and "secures T" and "ready_to_ask nego" and "nla_and_rdp_only nego"
    and "\<not> lacks_mode srv nego" and "SelectedProtocol srv \<in> set negotiable" and "\<not> enabled (SelectedProtocol srv) nego"
    and "inbox (net_state nego) = enc_response srv # bare_confirm # later"
  shows "\<exists>m. nego_connect T nego = Some (Ret () m) \<and> SelectedProtocol m = SelectedProtocol srv \<and> SecurityConnected m"
  by (rule refused_then_confirmed [OF assms])

text \<open>A server that selects TLS.\<close>

theorem refused_protocol_is_connected_witness:
  "\<exists>m. nego_connect scripted (nla_or_rdp [enc_response tls_server, bare_confirm]) = Some (Ret () m) \<and>
     SelectedProtocol m = PROTOCOL_SSL \<and> SecurityConnected m \<and>
     \<not> enabled PROTOCOL_SSL (nla_or_rdp [enc_response tls_server, bare_confirm])"
proof -
  let ?n = "nla_or_rdp [enc_response tls_server, bare_confirm]"
  have "ready_to_ask ?n" "nla_and_rdp_only ?n" "\<not> lacks_mode tls_server ?n"
    by (simp_all add: ready_to_ask_def token_bytes_def nla_and_rdp_only_def negotiable_def enabled_def nego_consts
        lacks_mode_def)
  moreover have srv: "SelectedProtocol tls_server = PROTOCOL_SSL" by (simp add: tls_server_def)
  moreover have "PROTOCOL_SSL \<in> set negotiable" "\<not> enabled PROTOCOL_SSL ?n"
    by (simp_all add: negotiable_def enabled_def nego_consts)
  ultimately show ?thesis
    using refused_protocol_is_connected [OF scripted_delivers, of ?n tls_server "[]"] by simp
qed

text \<open>C28: On any bytes the client that reads the answer, and the server that reads the request, neither
  run into an assertion nor leave the packet; the client leaves it unchanged, and the server, which
  overwrites the end of a line, leaves its size.\<close>

theorem negotiation_stays_inside:
  assumes "wf_stream s"
  shows "inside s (nego_recv (nego, s)) \<and> inside_span s (nego_read_request (nego, s))"
  by (intro conjI handler_inside [OF nego_recv_ok assms] handler_inside_span [OF nego_read_request_span assms])

theorem negotiation_stays_inside_witness:
  "inside (packet [3, 0, 0, 11, 5]) (nego_recv (tls_server, packet [3, 0, 0, 11, 5])) \<and>
   inside_span (packet [3, 0, 0, 11, 5]) (nego_read_request (tls_server, packet [3, 0, 0, 11, 5]))"
  using negotiation_stays_inside [of "packet [3, 0, 0, 11, 5]" tls_server] by (simp add: packet_wf)

text \<open>C29: A server that reads the request of a client without a routing token learns the protocols the
  client asked for, the cookie (with its prefix, cut to the length the client allows), and the
  credential guard flag, and has finished its part of the negotiation if the client asked for any
  protocol.\<close>

theorem request_reaches_the_server:
  assumes "grants_mem cl 512" and "compatible cl srv"
    and "wf_stream s" and "rest s = take (slength (request_stream cl)) (buffer (request_stream cl))"
  shows "nego_send_negotiation_request T cl =
       bindp (on_net (net_write T (request_stream cl))) (\<lambda>status. require (status \<ge> 0)) cl \<and>
     (\<exists>t. nego_read_request (srv, s) = Ret () (received cl srv, t))"
proof
  have len: "request_length cl \<le> 260" using assms(2) by (simp add: compatible_def)
  then show "nego_send_negotiation_request T cl =
       bindp (on_net (net_write T (request_stream cl))) (\<lambda>status. require (status \<ge> 0)) cl"
    using nego_request_spec [of cl T] assms(1) by simp
  show "\<exists>t. nego_read_request (srv, s) = Ret () (received cl srv, t)"
    by (rule read_request [OF assms(3) _ assms(2)])
       (use assms(4) in \<open>simp add: request_stream_def length_enc_request\<close>)
qed

theorem request_reaches_the_server_witness:
  "\<exists>t. nego_read_request (tls_server, packet (enc_request asking_client)) = Ret () (received asking_client tls_server, t) \<and>
     RequestedProtocols (received asking_client tls_server) = 3 \<and>
     cookie (received asking_client tls_server) = Some (ascii ''Cookie: mstshash=ann'')"
proof -
  have fit: "compatible asking_client tls_server"
    by (simp add: compatible_def asking_client_sel request_length_def token_bytes_def nego_req_bytes_def
        TPDU_CONNECTION_REQUEST_LENGTH_def tls_server_def nego_set_selected_protocol_def ascii_def one_line_def)
  have s: "wf_stream (packet (enc_request asking_client))"
    "rest (packet (enc_request asking_client)) =
      take (slength (request_stream asking_client)) (buffer (request_stream asking_client))"
    using fit by (simp_all add: request_stream_def length_enc_request packet_wf compatible_def)
  show ?thesis
    using request_reaches_the_server [OF _ fit s, of scripted]
    by (simp add: asking_client_sel received_def with_request_def with_line_def nego_consts cookie_prefix_def ascii_def
        nego_set_requested_protocols_def nego_set_state_def)
qed

text \<open>C30: A client reads what the server decided: a refusal with its code, or the selected protocol,
  which counts if it is enabled; an answer of a server without a mode the client insists on is
  refused.\<close>

theorem answer_reaches_the_client:
  assumes "grants_mem srv 512" and "wf_stream s"
    and "rest s = take (slength (response_stream srv)) (buffer (response_stream srv))"
  shows "nego_send_negotiation_response T srv =
       bindp (bindp (on_net (net_write T (response_stream srv))) (\<lambda>status. require (status \<ge> 0)))
         (\<lambda>_. apply_selected_protocol) srv \<and>
     nego_recv (cl, s) =
       (if SelectedProtocol srv AND PROTOCOL_FAILED_NEGO = 0 \<and> lacks_mode srv cl
        then Fail (check_selected (cl\<lparr>nego_flags := ucast (response_flags srv)\<rparr>), adv 13 s)
        else Ret () (answered srv cl, adv 19 s))"
  by (intro conjI nego_response_spec assms(1) recv_response assms(2))
     (use assms(3) in \<open>simp add: response_stream_def\<close>)

theorem answer_reaches_the_client_witness:
  "nego_recv (nla_or_rdp [], packet (enc_response tls_server)) =
     Ret () (answered tls_server (nla_or_rdp []), adv 19 (packet (enc_response tls_server))) \<and>
   nego_state (answered tls_server (nla_or_rdp [])) = NEGO_STATE_FAIL"
proof -
  have srv: "SelectedProtocol tls_server = 1" "grants_mem tls_server = (\<lambda>_. True)"
    by (simp_all add: tls_server_def nego_consts nego_set_selected_protocol_def)
  have "rest (packet (enc_response tls_server)) = enc_response tls_server" "wf_stream (packet (enc_response tls_server))"
    by (simp_all add: packet_wf)
  then show ?thesis
    using answer_reaches_the_client [of tls_server "packet (enc_response tls_server)" scripted "nla_or_rdp []"]
    by (simp add: srv response_stream_def lacks_mode_def answered_def check_selected_def response_code_def
        negotiable_def enabled_def nego_consts)
qed

text \<open>C31: A request that does not fit into 260 bytes aborts the client: the length indicator of the
  TPDU header has one byte, which an assertion checks, and the negotiation does not bound the routing token, nor a
  cookie of 223 to 255 bytes that asks for a protocol, before.\<close>

theorem long_request_aborts:
  assumes "grants_mem nego 512" and "260 < request_length nego" and "request_length nego \<le> 512"
  shows "nego_send_negotiation_request T nego = Abort"
  using nego_request_spec [of nego T] assms by simp

theorem long_request_aborts_witness:
  "nego_send_negotiation_request scripted (asking_client\<lparr>cookie := Some (replicate 230 97)\<rparr>) = Abort"
proof (rule long_request_aborts)
  have "request_length (asking_client\<lparr>cookie := Some (replicate 230 97)\<rparr>) = 268"
    by (simp add: request_length_def token_bytes_def nego_req_bytes_def TPDU_CONNECTION_REQUEST_LENGTH_def
        asking_client_sel nego_consts)
  then show "260 < request_length (asking_client\<lparr>cookie := Some (replicate 230 97)\<rparr>)"
    "request_length (asking_client\<lparr>cookie := Some (replicate 230 97)\<rparr>) \<le> 512" by simp_all
  show "grants_mem (asking_client\<lparr>cookie := Some (replicate 230 97)\<rparr>) 512" by (simp add: asking_client_sel)
qed

section \<open>Bulk compression\<close>

text \<open>A pair of fresh contexts, for the witnesses.\<close>

definition fresh_mppc :: "u32 \<Rightarrow> MPPC_CONTEXT" where
  "fresh_mppc level = the (mppc_context_new (\<lambda>_. True) 1 1 level True)"

lemma fresh_new: "mppc_context_new (\<lambda>_. True) 1 1 level True = Some (fresh_mppc level)"
  by (simp add: fresh_mppc_def mppc_context_new_def BitStream_New_def)

lemma fresh_sel [simp]:
  "length (HistoryBuffer (fresh_mppc level)) = 65536" "HistoryPtr (fresh_mppc level) = 0"
  "CompressionLevel (fresh_mppc level) = (if level < 1 then 0 else 1)"
  "HistoryBufferSize (fresh_mppc level) = (if level < 1 then 8192 else 65536)"
  by (simp_all add: fresh_mppc_def mppc_context_new_def BitStream_New_def mppc_context_reset_def)

text \<open>C32: What is compressed arrives. Two contexts made for the same level, a sender and a receiver: of any
  sequence of packets, none empty and none longer than the history less four bytes, each one is
  delivered by \<^verbatim>\<open>mppc_decompress\<close> as it was given to \<^verbatim>\<open>mppc_compress\<close>, whether the compressor coded it,
  started again at the front of the history, or passed it on because the output was too small.
  The byte in front of the history, which the compressor reads, makes no difference.\<close>

theorem compressed_packets_arrive:
  assumes "mppc_context_new grant n m level compressor = Some s"
    and "mppc_context_new grant' n m level compressor' = Some r"
    and "\<forall>src \<in> set packets. src \<noteq> [] \<and> length src + 4 \<le> (if level < 1 then 8192 else 65536)"
    and "out \<noteq> []" and "length out < 2 ^ 29"
  shows "transfer (mppc_send below out) mppc_receive packets s r = Some packets"
proof (rule mppc.all_arrive [OF new_in_step [OF assms(1,2)]])
  show "\<forall>src \<in> set packets. mppc_takes out src s"
    using assms(3-5) by (auto simp: mppc_takes_def new_size [OF assms(1)] split: if_splits)
qed

theorem compressed_packets_arrive_witness:
  "transfer (mppc_send 0 (replicate 64 0)) mppc_receive [[1, 2, 3, 1, 2, 3, 1, 2, 3, 1, 2, 3], [255], [1, 2]]
     (fresh_mppc 1) (fresh_mppc 1) = Some [[1, 2, 3, 1, 2, 3, 1, 2, 3, 1, 2, 3], [255], [1, 2]]"
  by (rule compressed_packets_arrive [OF fresh_new fresh_new]) simp_all

text \<open>C33: On any source and any flags the decompressor ends, with success or one of its six error codes,
  never touches a byte outside the history, and what it delivers is the source as it is or lies in
  the history up to the new history pointer; the context stays well-formed.\<close>

theorem decompressor_stays_inside:
  assumes "mppc_wf mppc"
  shows "\<exists>status dst mppc'. mppc_decompress src flags mppc = Some (status, dst, mppc') \<and> mppc_wf mppc' \<and>
     (case dst of Unset \<Rightarrow> status \<in> {-1001, -1002, -1003, -1004, -1005, -1006}
      | AtSource n \<Rightarrow> status = 1 \<and> n = of_nat (length src)
      | AtHistory p n \<Rightarrow> status = 1 \<and> p + unat n = HistoryPtr mppc' \<and> p + unat n \<le> length (HistoryBuffer mppc')
      | AtOutput n \<Rightarrow> False)"
  using decompress_inside [OF assms, of src flags] unfolding delivers_inside_def mppc_error_def .

theorem decompressor_stays_inside_witness:
  "\<exists>status dst mppc'. mppc_decompress [0xF8, 0x7F, 0xFF, 0xFF] 0x21 (fresh_mppc 1) = Some (status, dst, mppc') \<and>
     mppc_wf mppc'"
  using decompressor_stays_inside [OF new_wf [OF fresh_new], of "[0xF8, 0x7F, 0xFF, 0xFF]" "0x21" 1] by blast

text \<open>C34: The decompressor is the reference: given bytes that hold the codes of a list of tokens and less
  than a byte of padding, it leaves the history and the history pointer that running the tokens one
  by one leaves, and delivers what they appended.\<close>

theorem decompressor_runs_tokens:
  defines "bits \<equiv> \<lambda>level ts. concat (map (token_bits level) ts)"
  assumes "run_tokens (CompressionLevel r) (unat (HistoryBufferSize r - 1)) ts (HistoryBuffer r, HistoryPtr r) = Some (h, hp)"
    and "length data < 2 ^ 29" and "holds_at data 0 (bits (CompressionLevel r) ts)"
    and "length (bits (CompressionLevel r) ts) \<le> 8 * length data"
    and "8 * length data < length (bits (CompressionLevel r) ts) + 8"
  shows "\<exists>bs. mppc_decompress data PACKET_COMPRESSED r =
     Some (1, AtHistory (HistoryPtr r) (of_nat (hp - HistoryPtr r)), r\<lparr>HistoryBuffer := h, mppc_bs := bs, HistoryPtr := hp\<rparr>)"
proof -
  have f: "apply_flags PACKET_COMPRESSED r = r" "PACKET_COMPRESSED AND PACKET_COMPRESSED \<noteq> 0"
    by (simp_all add: apply_flags_def PACKET_COMPRESSED_def PACKET_AT_FRONT_def PACKET_FLUSHED_def)
  show ?thesis
    using decompress_tokens [of r ts PACKET_COMPRESSED h hp data] assms f by (simp add: bits_def)
qed

theorem decompressor_runs_tokens_witness:
  "\<exists>bs. mppc_decompress [0x41] PACKET_COMPRESSED (fresh_mppc 1) =
     Some (1, AtHistory 0 1, (fresh_mppc 1)\<lparr>HistoryBuffer := (HistoryBuffer (fresh_mppc 1))[0 := 0x41], mppc_bs := bs, HistoryPtr := 1\<rparr>)"
proof -
  have run: "run_tokens (CompressionLevel (fresh_mppc 1)) (unat (HistoryBufferSize (fresh_mppc 1) - 1)) [Lit 0x41]
      (HistoryBuffer (fresh_mppc 1), HistoryPtr (fresh_mppc 1)) = Some ((HistoryBuffer (fresh_mppc 1))[0 := 0x41], 1)"
    by simp
  have bits: "concat (map (token_bits (CompressionLevel (fresh_mppc 1))) [Lit 0x41]) = code_bits 8 0x41"
    by (simp add: literal_code_def)
  have "holds_at [0x41] 0 (code_bits 8 0x41)"
    by code_simp
  then show ?thesis
    using decompressor_runs_tokens [OF run, of "[0x41]"] unfolding bits by simp
qed

text \<open>C35: Compression never makes a packet longer: what goes out for a packet has at most its length.\<close>

theorem compression_never_grows:
  assumes "in_step s r" and "src \<noteq> []" and "length src + 4 \<le> unat (HistoryBufferSize s)"
    and "out \<noteq> []" and "length out < 2 ^ 29"
  shows "\<exists>flags data s'. mppc_send below out src s = Some ((flags, data), s') \<and> length data \<le> length src"
  using mppc_packet [OF assms, of below] by blast

theorem compression_never_grows_witness:
  "\<exists>flags data s'. mppc_send 0 [0, 0] [200, 201, 202] (fresh_mppc 0) = Some ((flags, data), s') \<and> length data \<le> 3"
  using compression_never_grows [OF new_in_step [OF fresh_new fresh_new], of "[200, 201, 202]" 0 "[0, 0]" 0]
  by (simp add: numeral_3_eq_3)

section \<open>The hash table\<close>

text \<open>A table of strings for the witnesses: the copies lie at odd addresses, the arguments at even ones.\<close>

definition example_addr :: "cstring \<Rightarrow> u64" where
  "example_addr s = of_nat (fst s)"

definition example_copy :: "cstring \<Rightarrow> nat" where
  "example_copy s = 2 * fst s + 1"

definition example_table :: "cstring wHashTable" where
  "example_table = the (string_table example_addr example_copy (\<lambda>_. True) True)"

lemma example_table_new: "string_table example_addr example_copy (\<lambda>_. True) True = Some example_table"
  unfolding example_table_def by (simp add: string_table_def HashTable_New_def)

lemma example_argument: "\<not> own_string example_copy (2 * n, bs)"
proof
  assume "own_string example_copy (2 * n, bs)"
  then obtain m where "2 * n = 2 * m + 1" by (auto simp: own_string_def example_copy_def)
  then have "even (2 * m + 1)" by (metis dvd_triv_left)
  then show False by simp
qed

lemmas example_arguments = example_argument [of 1, simplified] example_argument [of 2, simplified]
  example_argument [of 3, simplified] example_argument [of 4, simplified]

definition example_entries :: "cstring wHashTable" where
  "example_entries = the (table_run (\<lambda>_. True)
     [Insert_op (2, [97]) (4, [120]), Insert_op (2, [98]) (4, [121]), Insert_op (2, [99]) (4, [122])] example_table)"

lemma example_entries_ok:
  "strings.inv example_copy example_entries" "foreachRecursionLevel example_entries = 0"
  "table_map snd (map_option snd) example_entries = [[97] \<mapsto> Some [120], [98] \<mapsto> Some [121], [99] \<mapsto> Some [122]]"
proof -
  let ?xs = "[Insert_op (2, [97]) (4, [120]), Insert_op (2, [98]) (4, [121]), Insert_op (2, [99]) (4, [122])] :: cstring table_op list"
  have "\<forall>x \<in> set ?xs. \<forall>p \<in> op_args x. \<not> own_string example_copy p" by (simp add: example_arguments)
  from strings.run_ok [OF string_table_starts(1,2) [OF example_table_new] _ this, of "\<lambda>_. True"]
    string_table_starts(3) [OF example_table_new]
  show "strings.inv example_copy example_entries" "foreachRecursionLevel example_entries = 0"
    "table_map snd (map_option snd) example_entries = [[97] \<mapsto> Some [120], [98] \<mapsto> Some [121], [99] \<mapsto> Some [122]]"
    by (auto simp: example_entries_def)
qed

text \<open>C36: A hash table of strings is a map from byte lists to byte lists. After any sequence of insertions,
  removals, replacements and clearings whose arguments are not copies the table itself made, with an
  allocator that may fail to give a larger bucket array but grants the copies of the strings
  (\<open>Insert_without_a_key\<close> of \<^verbatim>\<open>HashTableUse\<close> is about a copy that fails), the calls all return, every lookup finds
  what the map has, the count is the size of the map, and the list of keys has each key once.\<close>

theorem string_table_is_a_map:
  assumes new: "string_table addr alloc grant lock = Some t0" and "grant 32"
    and "\<forall>x \<in> set ops. \<forall>s \<in> op_args x. fst s \<notin> range alloc"
  defines "m \<equiv> map_run snd snd ops Map.empty"
  shows "\<exists>t. table_run grant ops t0 = Some t \<and>
     (\<forall>k. map_option snd (HashTable_GetItemValue t (Some k)) = m (snd k)) \<and>
     (\<forall>k. HashTable_Contains t (Some k) = (m (snd k) \<noteq> None)) \<and>
     HashTable_Count t = of_nat (card (dom m)) \<and>
     (dom m \<noteq> {} \<and> card (dom m) < 2 ^ 64 \<and> grant (8 * card (dom m)) \<longrightarrow>
        (\<exists>ks. HashTable_GetKeys grant t True = Some (HashTable_Count t, Some (map Some ks)) \<and>
           distinct (map snd ks) \<and> set (map snd ks) = dom m))"
proof -
  note start = string_table_starts [OF new]
  obtain t where t: "table_run grant ops t0 = Some t" "strings.inv alloc t"
    "table_map snd (map_option snd) t = map_run snd (\<lambda>v. map_option snd (Some v)) ops Map.empty"
    using strings.run_ok [where grant = grant and xs = ops, OF start(1,2) assms(2)] assms(3) start(3) by (auto simp: own_string_def)
  have m: "table_map snd (map_option snd) t = (\<lambda>k. map_option Some (m k))"
    using t(3) map_run_some [of snd snd ops Map.empty] by (simp add: m_def)
  then have d: "dom (table_map snd (map_option snd) t) = dom m" by (auto simp: dom_def)
  have keys: "\<exists>ks. HashTable_GetKeys grant t True = Some (HashTable_Count t, Some (map Some ks)) \<and>
      distinct (map snd ks) \<and> set (map snd ks) = dom m"
    if some: "dom m \<noteq> {} \<and> card (dom m) < 2 ^ 64 \<and> grant (8 * card (dom m))"
  proof -
    obtain ks where ks: "HashTable_GetKeys grant t True = Some (HashTable_Count t, Some ks)"
      "distinct (map (snd \<circ> the) ks)" "set (map (snd \<circ> the) ks) = dom m" "None \<notin> set ks"
      using strings.GetKeys_lists [OF t(2), of grant] some unfolding d by blast
    have "Some (the k) = k" if "k \<in> set ks" for k using ks(4) that by (cases k) auto
    then have "map Some (map the ks) = ks" by (simp add: map_idI)
    with ks(1-3) show ?thesis by (intro exI [of _ "map the ks"]) simp
  qed
  have "map_option snd (HashTable_GetItemValue t (Some k)) = m (snd k)" for k
    using strings.GetItemValue_is_lookup [OF t(2), of k] by (simp add: m split: option.splits)
  moreover have "HashTable_Contains t (Some k) = (m (snd k) \<noteq> None)" for k
    using strings.Contains_is_lookup(1) [OF t(2), of k] by (simp add: m)
  moreover have "HashTable_Count t = of_nat (card (dom m))"
    using strings.Count_is_card [OF t(2)] unfolding d .
  ultimately show ?thesis using t(1) keys by blast
qed

theorem string_table_is_a_map_witness:
  "\<exists>t. table_run (\<lambda>_. True) [Insert_op (2, [97]) (4, [120]), Insert_op (6, [97]) (8, [121])] example_table = Some t \<and>
     map_option snd (HashTable_GetItemValue t (Some (0, [97]))) = Some [121] \<and> HashTable_Count t = 1"
proof -
  let ?xs = "[Insert_op (2, [97]) (4, [120]), Insert_op (6, [97]) (8, [121])] :: cstring table_op list"
  have "\<forall>x \<in> set ?xs. \<forall>s \<in> op_args x. fst s \<notin> range example_copy"
    using example_arguments by (auto simp: own_string_def)
  moreover have "map_run snd snd ?xs Map.empty = [[97] \<mapsto> [121]]" by simp
  ultimately obtain t where t: "table_run (\<lambda>_. True) ?xs example_table = Some t"
    "\<forall>k. map_option snd (HashTable_GetItemValue t (Some k)) = [[97] \<mapsto> [121]] (snd k)"
    "HashTable_Count t = of_nat (card (dom [[97 :: u8] \<mapsto> [121 :: u8]]))"
    using string_table_is_a_map [where ops = ?xs, OF example_table_new] by metis
  from t(2) have "map_option snd (HashTable_GetItemValue t (Some (0, [97]))) = Some [121]" by (metis fun_upd_same snd_conv)
  with t(1,3) show ?thesis by (intro exI [of _ t]) simp
qed

text \<open>C37: The invariant of the table. Between iterations every operation on a table of strings, whose copies are
  granted, returns and keeps it: every entry is in the bucket its key hashes to, no two entries have equal keys, the counters of live and
  marked entries are right, and what the table will free are its own copies.\<close>

theorem operations_keep_the_invariant:
  assumes "hash_inv snd (own_string alloc) t"
    and "uses_objects (string_object (Some \<circ> alloc)) (string_object (Some \<circ> alloc)) HashTable_StringHash t"
    and "foreachRecursionLevel t = 0" and "grant 32" and "\<forall>s \<in> op_args x. \<not> own_string alloc s"
  shows "\<exists>t'. table_step grant x t = Some t' \<and> hash_inv snd (own_string alloc) t' \<and>
     uses_objects (string_object (Some \<circ> alloc)) (string_object (Some \<circ> alloc)) HashTable_StringHash t' \<and>
     foreachRecursionLevel t' = 0"
  using strings.step_ok [where grant = grant and alloc = alloc and x = x, OF _ assms(3,4)] assms(1,2,5) unfolding strings.inv_def by blast

theorem operations_keep_the_invariant_witness:
  "\<exists>t'. table_step (\<lambda>_. True) (Remove_op (2, [98])) example_entries = Some t' \<and>
     hash_inv snd (own_string example_copy) t'"
  using operations_keep_the_invariant [of example_copy example_entries "\<lambda>_. True" "Remove_op (2, [98])"]
    example_entries_ok(1,2) example_arguments unfolding strings.inv_def by auto

text \<open>C38: An iteration whose callback removes some of the entries it is shown returns, shows every entry
  exactly once in the order of the buckets, and leaves exactly the entries that were not removed, in their
  order, with the invariant and the recursion level as before.\<close>

theorem iteration_may_remove:
  assumes "hash_inv snd (own_string alloc) t"
    and "uses_objects (string_object (Some \<circ> alloc)) (string_object (Some \<circ> alloc)) HashTable_StringHash t"
    and "foreachRecursionLevel t = 0" and "length (pairs t) < 2 ^ 32"
  shows "\<exists>t'. HashTable_Foreach (remove_when grant P) t [] =
       Some (True, t', map (\<lambda>p. (pair_key p, pair_value p)) (pairs t)) \<and>
     pairs t' = filter (\<lambda>p. \<not> P (pair_key p) (pair_value p)) (pairs t) \<and>
     hash_inv snd (own_string alloc) t' \<and> foreachRecursionLevel t' = 0"
  using strings.Foreach_removes [OF _ assms(3,4), of alloc grant P] assms(1,2)
  unfolding strings.inv_def shown_def by blast

theorem iteration_may_remove_witness:
  "\<exists>t'. HashTable_Foreach (remove_when (\<lambda>_. True) (\<lambda>k v. snd (the k) = [98])) example_entries [] =
       Some (True, t', map (\<lambda>p. (pair_key p, pair_value p)) (pairs example_entries)) \<and>
     pairs t' = filter (\<lambda>p. snd (the (pair_key p)) \<noteq> [98]) (pairs example_entries)"
proof -
  have "foreachRecursionLevel example_entries = 0" by (rule example_entries_ok(2))
  then have "marked_in (pairs example_entries) = []"
    using example_entries_ok(1) by (simp add: strings.inv_parts counted_def)
  then have "length (pairs example_entries) = 3"
    using strings.live_card(3) [OF example_entries_ok(1)] unfolding example_entries_ok(3)
    by (simp add: strings.live_all)
  then show ?thesis
    using iteration_may_remove [of example_copy example_entries "\<lambda>_. True" "\<lambda>k v. snd (the k) = [98]"]
      example_entries_ok(1,2) unfolding strings.inv_def by auto
qed

text \<open>C39: An iteration that is stopped by its callback never lowers the recursion level again. From then on the table
  takes itself to be in an iteration: clearing it, while it has an entry, does not return.\<close>

theorem stopped_iteration_blocks_clear:
  assumes "hash_inv krep own t" and "foreachRecursionLevel t = 0"
    and "p \<in> set (pairs t)" and "P (pair_key p) (pair_value p)"
  shows "\<exists>t'. HashTable_Foreach (stop_at P) t arg = Some (False, t', arg) \<and> pairs t' = pairs t \<and>
     foreachRecursionLevel t' = 1 \<and> HashTable_Clear grant t' = None"
proof -
  have "stops P (pairs t)"
    using assms by (auto simp: stops_def hash_inv_def counted_def marked_in_def filter_empty_conv)
  note run = search_stops [OF assms(1) this, of arg]
  let ?t = "t\<lparr>foreachRecursionLevel := foreachRecursionLevel t + 1\<rparr>"
  have "HashTable_Clear grant ?t = None"
    using assms by (intro Clear_stuck) (auto simp: hash_inv_def)
  with run assms(2) show ?thesis by (intro exI [of _ ?t]) simp
qed

theorem stopped_iteration_blocks_clear_witness:
  "\<exists>t'. HashTable_Foreach (stop_at (\<lambda>k v. True)) example_entries () = Some (False, t', ()) \<and>
     HashTable_Clear (\<lambda>_. True) t' = None"
proof -
  have "live_in (pairs example_entries) \<noteq> []"
  proof
    assume "live_in (pairs example_entries) = []"
    then have "table_map snd (map_option snd) example_entries [97] = None" by (simp add: table_map_def)
    then show False by (simp add: example_entries_ok(3))
  qed
  then obtain p where "p \<in> set (pairs example_entries)" by (metis set_live_in list.set_intros(1) neq_Nil_conv)
  moreover have "hash_inv snd (own_string example_copy) example_entries"
    using example_entries_ok(1) unfolding strings.inv_def by blast
  ultimately show ?thesis
    using stopped_iteration_blocks_clear [where P = "\<lambda>k v. True" and arg = "()" and grant = "\<lambda>_. True",
      OF _ example_entries_ok(2) _ TrueI, of snd "own_string example_copy" p] by auto
qed

text \<open>C40: Removing an entry twice during an iteration counts it twice. With three or more entries, a list of the
  keys asked for before the iteration ends is then written past the end of its array.\<close>

theorem double_removal_overruns_the_keys:
  assumes "hash_inv snd (own_string alloc) t"
    and "uses_objects (string_object (Some \<circ> alloc)) (string_object (Some \<circ> alloc)) HashTable_StringHash t"
    and "foreachRecursionLevel t \<noteq> 0" and "HashTable_Contains t (Some k)"
    and "3 \<le> card (dom (table_map snd (map_option snd) t))" and "card (dom (table_map snd (map_option snd) t)) < 2 ^ 64"
  shows "HashTable_GetKeys (\<lambda>_. True) (snd (HashTable_Remove (\<lambda>_. True) (snd (HashTable_Remove (\<lambda>_. True) t (Some k))) (Some k)))
     ppKeys = None"
proof -
  have inv: "strings.inv alloc t" using assms(1,2) by (simp add: strings.inv_def)
  have "table_map snd (map_option snd) t (snd k) \<noteq> None"
    using strings.Contains_is_lookup(1) [OF inv] assms(4) by blast
  from strings.Remove_twice [OF inv assms(3) this assms(5,6)] show ?thesis by simp
qed

theorem double_removal_overruns_the_keys_witness:
  "HashTable_GetKeys (\<lambda>_. True) (snd (HashTable_Remove (\<lambda>_. True) (snd (HashTable_Remove (\<lambda>_. True)
     (example_entries\<lparr>foreachRecursionLevel := 1\<rparr>) (Some (2, [97])))) (Some (2, [97])))) True = None"
proof -
  let ?t = "example_entries\<lparr>foreachRecursionLevel := 1\<rparr>"
  have i: "strings.inv example_copy ?t"
    using example_entries_ok(1,2) by (simp add: strings.inv_parts counted_def uses_objects_def)
  have m: "table_map snd (map_option snd) ?t = [[97] \<mapsto> Some [120], [98] \<mapsto> Some [121], [99] \<mapsto> Some [122]]"
    using example_entries_ok(3) by (simp add: table_map_def)
  have "HashTable_Contains ?t (Some (2, [97]))" using strings.Contains_is_lookup(1) [OF i] by (simp add: m)
  then show ?thesis
    using double_removal_overruns_the_keys [of example_copy ?t "(2, [97])" True] i unfolding m strings.inv_def by simp
qed

end
